(* ===== verification/Prelude.thy ===== *)
theory Prelude
  imports Main "HOL-Library.Char_ord" "HOL-Library.List_Lexorder" "HOL-Library.AList"
begin

text \<open>
  Shared vocabulary of the development.

  A Python \<open>str\<close> is modelled by the \<open>string\<close> of its UTF-8 bytes: \<open>len(s.encode("utf-8"))\<close>
  is \<open>length\<close>, \<open>startswith\<close> is a byte prefix, and the order of Python strings (by code point)
  is the lexicographic order of the bytes, which \<open>List_Lexorder\<close> provides. A Python \<open>dict\<close> is
  an association list in insertion order with \<open>AList.update\<close> as item assignment. A Python
  \<open>raise\<close> is a value of the sum type \<open>exn + 'a\<close>; the message text of an exception is not
  modelled, its class (and the \<open>reason\<close> of a consent error) is.
\<close>

named_theorems record_defs \<open>definitions that build or read the model's records\<close>
named_theorems guard_defs \<open>definitions of validity checks\<close>

section \<open>Exceptions\<close>

text \<open>The exception classes the modelled modules raise.\<close>

datatype exn =
    ConsentError string
  | ValueError
  | TypeError
  | KeyError
  | RuntimeError
  | StoreClosedError
  | StoreCapacityError
  | StoreConflictError
  | ReceiptIntentConflict
  | ReceiptOwnershipError
  | OSError
  | UnsafeLayoutError
  | RouterCacheUnavailable string string "string option"
  | NonStandardTextError
  | IndexError
  | StopIteration
  | DecisionsUnreadable
  | MutationLockError
  | FileTransactionError "string list list"
  | KeyboardInterrupt
  | UpgradeJournalUnreadable
  | BudgetExceeded
  | RelationshipConflict
  | FileNotFoundError
  | ProcessKilled
  | ResultAccountingError string
  | ResultStoreError string

text \<open>Which of them an \<open>except ValueError\<close> clause catches (the class or a subclass of it).\<close>

fun is_value_error :: "exn \<Rightarrow> bool" where
  "is_value_error ValueError = True"
| "is_value_error StoreCapacityError = True"
| "is_value_error StoreConflictError = True"
| "is_value_error ReceiptIntentConflict = True"
| "is_value_error ReceiptOwnershipError = True"
| "is_value_error NonStandardTextError = True"
| "is_value_error DecisionsUnreadable = True"
| "is_value_error UpgradeJournalUnreadable = True"
| "is_value_error BudgetExceeded = True"
| "is_value_error RelationshipConflict = True"
| "is_value_error _ = False"

fun is_consent_error :: "exn \<Rightarrow> bool" where
  "is_consent_error (ConsentError _) = True"
| "is_consent_error _ = False"

section \<open>Programs that may raise and change a state\<close>

type_synonym 'a result = "exn + 'a"
type_synonym ('s, 'a) prog = "'s \<Rightarrow> (exn + 'a) \<times> 's"

definition bind_result :: "exn + 'a \<Rightarrow> ('a \<Rightarrow> exn + 'b) \<Rightarrow> exn + 'b" where
  "bind_result m f = (case m of Inl e \<Rightarrow> Inl e | Inr x \<Rightarrow> f x)"

definition check_that :: "bool \<Rightarrow> exn \<Rightarrow> exn + unit" where
  "check_that b e = (if b then Inr () else Inl e)"

definition bind_prog :: "('s, 'a) prog \<Rightarrow> ('a \<Rightarrow> ('s, 'b) prog) \<Rightarrow> ('s, 'b) prog" where
  "bind_prog m f = (\<lambda>s. case m s of (Inl e, s') \<Rightarrow> (Inl e, s') | (Inr x, s') \<Rightarrow> f x s')"

definition return_prog :: "'a \<Rightarrow> ('s, 'a) prog" where
  "return_prog x = (\<lambda>s. (Inr x, s))"

definition raise_prog :: "exn \<Rightarrow> ('s, 'a) prog" where
  "raise_prog e = (\<lambda>s. (Inl e, s))"

definition lift_result :: "('s \<Rightarrow> exn + 'a) \<Rightarrow> ('s, 'a) prog" where
  "lift_result f = (\<lambda>s. (f s, s))"

lemma bind_result_simps [simp]:
  "bind_result (Inl e) f = Inl e" "bind_result (Inr x) f = f x"
  by (simp_all add: bind_result_def)

lemma bind_result_Inr:
  "bind_result m f = Inr y \<longleftrightarrow> (\<exists>x. m = Inr x \<and> f x = Inr y)"
  by (cases m) auto

lemma bind_result_Inl:
  "bind_result m f = Inl e \<longleftrightarrow> m = Inl e \<or> (\<exists>x. m = Inr x \<and> f x = Inl e)"
  by (cases m) auto

lemma check_that_simps [simp]:
  "check_that True e = Inr ()" "check_that False e = Inl e"
  by (simp_all add: check_that_def)

lemma check_that_Inr [simp]: "check_that b e = Inr u \<longleftrightarrow> b"
  by (cases b) auto

lemma check_that_Inl [simp]: "check_that b e = Inl e' \<longleftrightarrow> \<not> b \<and> e' = e"
  by (cases b) auto

lemma bind_prog_Inr:
  "bind_prog m f s = (Inr y, s') \<longleftrightarrow>
    (\<exists>x s1. m s = (Inr x, s1) \<and> f x s1 = (Inr y, s'))"
  by (auto simp: bind_prog_def split: prod.splits sum.splits)

lemma bind_prog_Inl:
  "bind_prog m f s = (Inl e, s') \<longleftrightarrow>
    m s = (Inl e, s') \<or> (\<exists>x s1. m s = (Inr x, s1) \<and> f x s1 = (Inl e, s'))"
  by (auto simp: bind_prog_def split: prod.splits sum.splits)

lemma bind_prog_cases:
  assumes "bind_prog m f s = (r, s')"
  obtains e where "m s = (Inl e, s')" "r = Inl e"
    | x s1 where "m s = (Inr x, s1)" "f x s1 = (r, s')"
  using assms by (auto simp: bind_prog_def split: prod.splits sum.splits)

lemma bind_prog_eval:
  "m s = (Inr x, s1) \<Longrightarrow> bind_prog m f s = f x s1"
  "m s = (Inl e, s1) \<Longrightarrow> bind_prog m f s = (Inl e, s1)"
  by (simp_all add: bind_prog_def)

lemma return_prog_eq [simp]: "return_prog x s = (Inr x, s)"
  by (simp add: return_prog_def)

lemma raise_prog_eq [simp]: "raise_prog e s = (Inl e, s)"
  by (simp add: raise_prog_def)

lemma lift_result_eq [simp]: "lift_result f s = (f s, s)"
  by (simp add: lift_result_def)

text \<open>A relation between the states before and after, kept by every way a program can end.\<close>

definition keeps :: "('s \<Rightarrow> 's \<Rightarrow> bool) \<Rightarrow> ('s, 'a) prog \<Rightarrow> bool" where
  "keeps R m = (\<forall>s r s'. m s = (r, s') \<longrightarrow> R s s')"

lemma keepsD: "keeps R m \<Longrightarrow> m s = (r, s') \<Longrightarrow> R s s'"
  by (simp add: keeps_def)

lemma keeps_bind:
  assumes trans: "\<And>a b c. R a b \<Longrightarrow> R b c \<Longrightarrow> R a c" and m: "keeps R m" and f: "\<And>x. keeps R (f x)"
  shows "keeps R (bind_prog m f)"
  unfolding keeps_def
proof (intro allI impI)
  fix s r s' assume "bind_prog m f s = (r, s')"
  then show "R s s'"
  proof (cases rule: bind_prog_cases)
    case (1 e)
    with m show ?thesis by (blast dest: keepsD)
  next
    case (2 x s1)
    then show ?thesis using trans keepsD[OF m] keepsD[OF f] by blast
  qed
qed

lemma keeps_pure:
  assumes "\<And>s. R s s"
  shows "keeps R (return_prog x)" "keeps R (raise_prog e)" "keeps R (lift_result g)"
    "keeps R (\<lambda>s. (h s, s))"
  using assms by (auto simp: keeps_def)

text \<open>A \<open>for\<close> loop whose body may raise.\<close>

fun fold_results :: "('a \<Rightarrow> 's \<Rightarrow> exn + 's) \<Rightarrow> 'a list \<Rightarrow> 's \<Rightarrow> exn + 's" where
  "fold_results f [] acc = Inr acc"
| "fold_results f (x # xs) acc = bind_result (f x acc) (fold_results f xs)"

lemma fold_results_invariant:
  assumes "fold_results f xs a = Inr b" "P a"
    and "\<And>x a b. x \<in> set xs \<Longrightarrow> P a \<Longrightarrow> f x a = Inr b \<Longrightarrow> P b"
  shows "P b"
  using assms
proof (induction xs arbitrary: a)
  case Nil
  then show ?case by simp
next
  case (Cons x xs)
  then obtain a' where step: "f x a = Inr a'" and rest: "fold_results f xs a' = Inr b"
    by (auto simp: bind_result_Inr)
  from Cons.prems(3)[OF _ Cons.prems(2) step] have "P a'" by simp
  show ?case
  proof (rule Cons.IH[OF rest \<open>P a'\<close>])
    fix y u v assume "y \<in> set xs" "P u" "f y u = Inr v"
    then show "P v" using Cons.prems(3)[of y u v] by simp
  qed
qed

section \<open>Strings\<close>

definition byte :: "nat \<Rightarrow> char" where
  "byte n = char_of n"

definition ascii_space :: "char \<Rightarrow> bool" where
  "ascii_space c = (let n = (of_char c :: nat) in 9 \<le> n \<and> n \<le> 13 \<or> 28 \<le> n \<and> n \<le> 32)"

definition two_byte_space :: "char \<Rightarrow> char \<Rightarrow> bool" where
  "two_byte_space c d =
    ((of_char c :: nat) = 194 \<and> ((of_char d :: nat) = 133 \<or> (of_char d :: nat) = 160))"

definition three_byte_space :: "char \<Rightarrow> char \<Rightarrow> char \<Rightarrow> bool" where
  "three_byte_space c d e = (let x = (of_char c :: nat); y = (of_char d :: nat); z = (of_char e :: nat) in
     (x = 225 \<and> y = 154 \<and> z = 128)
   \<or> (x = 226 \<and> y = 128 \<and> (128 \<le> z \<and> z \<le> 138 \<or> z = 168 \<or> z = 169 \<or> z = 175))
   \<or> (x = 226 \<and> y = 129 \<and> z = 159)
   \<or> (x = 227 \<and> y = 128 \<and> z = 128))"

text \<open>\<open>not s.strip()\<close>: every code point of \<open>s\<close> is white space in the sense of \<open>str.isspace\<close>.\<close>

fun py_blank :: "string \<Rightarrow> bool" where
  "py_blank [] = True"
| "py_blank (c # cs) =
     (if ascii_space c then py_blank cs
      else case cs of
        [] \<Rightarrow> False
      | d # ds \<Rightarrow>
          if two_byte_space c d then py_blank ds
          else (case ds of [] \<Rightarrow> False
                | e # es \<Rightarrow> if three_byte_space c d e then py_blank es else False))"

text \<open>\<open>s.strip()\<close>: no suffix that begins inside a code point is blank, so bytes can be dropped one at a time.\<close>

fun py_lstrip :: "string \<Rightarrow> string" where
  "py_lstrip [] = []"
| "py_lstrip (c # cs) =
     (if ascii_space c then py_lstrip cs
      else case cs of
        [] \<Rightarrow> [c]
      | d # ds \<Rightarrow>
          if two_byte_space c d then py_lstrip ds
          else (case ds of [] \<Rightarrow> [c, d]
                | e # es \<Rightarrow> if three_byte_space c d e then py_lstrip es else c # cs))"

fun py_rstrip :: "string \<Rightarrow> string" where
  "py_rstrip [] = []"
| "py_rstrip (c # cs) = (if py_blank (c # cs) then [] else c # py_rstrip cs)"

definition py_strip :: "string \<Rightarrow> string" where
  "py_strip s = py_rstrip (py_lstrip s)"

lemma py_blank_lstrip: "py_blank (py_lstrip s) \<longleftrightarrow> py_blank s"
  by (induction s rule: py_lstrip.induct) (auto split: list.splits)

lemma py_rstrip_blank: "py_blank s \<Longrightarrow> py_rstrip s = []"
  by (cases s) auto

fun starts_with :: "string \<Rightarrow> string \<Rightarrow> bool" where
  "starts_with [] s = True"
| "starts_with (p # ps) [] = False"
| "starts_with (p # ps) (c # cs) = (p = c \<and> starts_with ps cs)"

lemma starts_with_iff: "starts_with p s \<longleftrightarrow> (\<exists>r. s = p @ r)"
  by (induction p s rule: starts_with.induct) auto

lemma starts_with_append [simp]: "starts_with p (p @ r)"
  by (auto simp: starts_with_iff)

fun split_on :: "char \<Rightarrow> string \<Rightarrow> string list" where
  "split_on x [] = [[]]"
| "split_on x (c # cs) =
     (if c = x then [] # split_on x cs
      else (case split_on x cs of [] \<Rightarrow> [[c]] | p # ps \<Rightarrow> (c # p) # ps))"

lemma split_on_nonempty [simp]: "split_on x s \<noteq> []"
  by (induction s) (auto split: list.splits)

definition lower_letter :: "char \<Rightarrow> bool" where
  "lower_letter c = (let n = (of_char c :: nat) in 97 \<le> n \<and> n \<le> 122)"

definition ascii_digit :: "char \<Rightarrow> bool" where
  "ascii_digit c = (let n = (of_char c :: nat) in 48 \<le> n \<and> n \<le> 57)"

section \<open>Decimal notation\<close>

definition digit_char :: "nat \<Rightarrow> char" where
  "digit_char d = char_of (48 + d)"

fun nat_str :: "nat \<Rightarrow> string" where
  "nat_str n = (if n < 10 then [digit_char n] else nat_str (n div 10) @ [digit_char (n mod 10)])"

declare nat_str.simps [simp del]

text \<open>\<open>str(n)\<close> of a Python integer.\<close>

definition int_str :: "int \<Rightarrow> string" where
  "int_str i = (if i < 0 then CHR ''-'' # nat_str (nat (- i)) else nat_str (nat i))"

definition digit_value :: "char \<Rightarrow> nat" where
  "digit_value c = of_char c - 48"

definition digits_value :: "string \<Rightarrow> nat" where
  "digits_value s = foldl (\<lambda>a c. 10 * a + digit_value c) 0 s"

lemma digit_char_digit [simp]: "d < 10 \<Longrightarrow> ascii_digit (digit_char d)"
  by (simp add: ascii_digit_def digit_char_def Let_def)

lemma digit_value_char [simp]: "d < 10 \<Longrightarrow> digit_value (digit_char d) = d"
  by (simp add: digit_value_def digit_char_def)

lemma digits_value_snoc [simp]:
  "digits_value (s @ [c]) = 10 * digits_value s + digit_value c"
  by (simp add: digits_value_def)

lemma digits_value_nat_str [simp]: "digits_value (nat_str n) = n"
proof (induction n rule: nat_str.induct)
  case (1 n)
  show ?case
  proof (cases "n < 10")
    case True
    then show ?thesis by (subst nat_str.simps) (simp add: digits_value_def)
  next
    case False
    with 1 show ?thesis by (subst nat_str.simps) simp
  qed
qed

lemma nat_str_digits: "list_all ascii_digit (nat_str n)"
proof (induction n rule: nat_str.induct)
  case (1 n)
  then show ?case by (subst nat_str.simps) auto
qed

lemma nat_str_nonempty [simp]: "nat_str n \<noteq> []"
  by (subst nat_str.simps) simp

lemma nat_str_inj: "nat_str m = nat_str n \<Longrightarrow> m = n"
  by (metis digits_value_nat_str)

lemma length_nat_str_pos: "0 < length (nat_str n)"
  by simp

section \<open>Dictionaries\<close>

text \<open>\<open>tuple(dict.fromkeys(xs))\<close>: the elements in order of first occurrence.\<close>

definition dict_fromkeys :: "'a list \<Rightarrow> 'a list" where
  "dict_fromkeys xs = rev (remdups (rev xs))"

lemma set_dict_fromkeys [simp]: "set (dict_fromkeys xs) = set xs"
  by (simp add: dict_fromkeys_def)

lemma distinct_dict_fromkeys [simp]: "distinct (dict_fromkeys xs)"
  by (simp add: dict_fromkeys_def)

lemma dict_fromkeys_Nil [simp]: "dict_fromkeys [] = []"
  by (simp add: dict_fromkeys_def)

lemma dict_fromkeys_id: "distinct xs \<Longrightarrow> dict_fromkeys xs = xs"
  by (simp add: dict_fromkeys_def distinct_remdups_id)

text \<open>\<open>d.update(ws)\<close>: assign the items of \<open>ws\<close> in order.\<close>

definition dict_update :: "('k \<times> 'v) list \<Rightarrow> ('k \<times> 'v) list \<Rightarrow> ('k \<times> 'v) list" where
  "dict_update d ws = foldl (\<lambda>d (k, v). AList.update k v d) d ws"

lemma dict_update_Nil [simp]: "dict_update d [] = d"
  by (simp add: dict_update_def)

lemma dict_update_Cons [simp]:
  "dict_update d ((k, v) # ws) = dict_update (AList.update k v d) ws"
  by (simp add: dict_update_def)

lemma map_of_dict_update_other:
  "k \<notin> fst ` set ws \<Longrightarrow> map_of (dict_update d ws) k = map_of d k"
proof (induction ws arbitrary: d)
  case (Cons w ws)
  then show ?case by (cases w) (auto simp: update_conv')
qed simp

lemma map_of_dict_update:
  "distinct (map fst ws) \<Longrightarrow>
   map_of (dict_update d ws) k = (case map_of ws k of None \<Rightarrow> map_of d k | Some v \<Rightarrow> Some v)"
proof (induction ws arbitrary: d)
  case (Cons w ws)
  obtain k' v' where w: "w = (k', v')" by (cases w)
  show ?case
  proof (cases "k = k'")
    case True
    with Cons.prems w show ?thesis
      by (auto simp: map_of_dict_update_other update_conv')
  next
    case False
    with Cons w show ?thesis
      by (auto simp: update_conv' split: option.splits)
  qed
qed simp

lemma map_of_dict_update_rev:
  "map_of (dict_update d ws) k = (case map_of (rev ws) k of None \<Rightarrow> map_of d k | Some v \<Rightarrow> Some v)"
proof (induction ws arbitrary: d)
  case (Cons w ws)
  then show ?case
    by (cases w) (auto simp: update_conv' map_add_def split: option.splits)
qed simp

lemma distinct_dict_update:
  "distinct (map fst d) \<Longrightarrow> distinct (map fst (dict_update d ws))"
  by (induction ws arbitrary: d) (auto simp: distinct_update)

lemma fst_dict_update:
  "fst ` set (dict_update d ws) = fst ` set d \<union> fst ` set ws"
proof (induction ws arbitrary: d)
  case (Cons w ws)
  then show ?case by (cases w) (auto simp: dom_update)
qed simp

lemma set_update: "set (AList.update k v d) \<subseteq> insert (k, v) (set d)"
  by (induction d) (auto split: if_splits)

lemma set_dict_update: "set (dict_update d ws) \<subseteq> set d \<union> set ws"
proof (induction ws arbitrary: d)
  case (Cons w ws)
  with set_update[of "fst w" "snd w" d] Cons[of "AList.update (fst w) (snd w) d"] show ?case by (cases w) fastforce
qed simp

end
