(* ===== verification/Json_Codec.thy ===== *)
theory Json_Codec
  imports Prelude
begin

text \<open>
  JSON values and the two encoders the modelled modules use: the compact encoder
  \<open>json_bytes\<close> of \<open>_bootstrap/consent_state.py\<close> and \<open>canonical_json\<close> (keys sorted) of
  \<open>_application/preparation.py\<close>. Both call \<open>json.dumps\<close> with \<open>ensure_ascii=False\<close> and the
  separators \<open>(",", ":")\<close>; the escaping of strings follows the standard library. Floats are
  left out: no record of the modelled modules holds one.

  The main fact is that the compact encoder is injective, even as a prefix code, and hence
  that two values with the same canonical text have the same sorted form: a digest or a
  fingerprint taken over canonical text binds every field of the value.
\<close>

datatype json =
    JNull
  | JBool bool
  | JInt int
  | JStr string
  | JArr "json list"
  | JObj "(string \<times> json) list"

definition hex_digit :: "nat \<Rightarrow> char" where
  "hex_digit n = char_of (if n < 10 then 48 + n else 87 + n)"

definition esc_char :: "char \<Rightarrow> string" where
  "esc_char c = (let n = (of_char c :: nat) in
     if n = 34 then [CHR 92, CHR 34]
     else if n = 92 then [CHR 92, CHR 92]
     else if n = 8 then [CHR 92, CHR ''b'']
     else if n = 9 then [CHR 92, CHR ''t'']
     else if n = 10 then [CHR 92, CHR ''n'']
     else if n = 12 then [CHR 92, CHR ''f'']
     else if n = 13 then [CHR 92, CHR ''r'']
     else if n < 32 then
       [CHR 92, CHR ''u'', CHR ''0'', CHR ''0'', hex_digit (n div 16), hex_digit (n mod 16)]
     else [c])"

fun esc_str :: "string \<Rightarrow> string" where
  "esc_str [] = []"
| "esc_str (c # cs) = esc_char c @ esc_str cs"

definition str_json :: "string \<Rightarrow> string" where
  "str_json s = CHR 34 # esc_str s @ [CHR 34]"

text \<open>\<open>json.dumps(v, ensure_ascii=False, separators=(",", ":"))\<close>.\<close>

fun dumps :: "json \<Rightarrow> string"
  and dumps_items :: "json list \<Rightarrow> string"
  and dumps_fields :: "(string \<times> json) list \<Rightarrow> string"
where
  "dumps JNull = ''null''"
| "dumps (JBool b) = (if b then ''true'' else ''false'')"
| "dumps (JInt i) = int_str i"
| "dumps (JStr s) = str_json s"
| "dumps (JArr xs) = CHR ''['' # dumps_items xs @ [CHR '']'']"
| "dumps (JObj kvs) = CHR ''{'' # dumps_fields kvs @ [CHR ''}'']"
| "dumps_items [] = []"
| "dumps_items (x # xs) = dumps x @ (if xs = [] then [] else CHR '','' # dumps_items xs)"
| "dumps_fields [] = []"
| "dumps_fields (f # fs) =
     str_json (fst f) @ CHR '':'' # dumps (snd f) @
       (if fs = [] then [] else CHR '','' # dumps_fields fs)"

text \<open>
  \<open>json_bytes(value)\<close>: strict JSON, UTF-8 encoded. The type \<open>json\<close> holds only encodable
  values (string keys, JSON scalars), so the \<open>ValueError\<close> branches of the code's
  \<open>validate\<close> cannot arise for it.
\<close>

definition json_bytes :: "json \<Rightarrow> string" where
  "json_bytes v = dumps v"

text \<open>\<open>sort_keys=True\<close>: the items of every object in the order of their keys.\<close>

fun sort_json :: "json \<Rightarrow> json"
  and sort_items :: "json list \<Rightarrow> json list"
  and sort_fields :: "(string \<times> json) list \<Rightarrow> (string \<times> json) list"
where
  "sort_json JNull = JNull"
| "sort_json (JBool b) = JBool b"
| "sort_json (JInt i) = JInt i"
| "sort_json (JStr s) = JStr s"
| "sort_json (JArr xs) = JArr (sort_items xs)"
| "sort_json (JObj kvs) = JObj (sort_key fst (sort_fields kvs))"
| "sort_items [] = []"
| "sort_items (x # xs) = sort_json x # sort_items xs"
| "sort_fields [] = []"
| "sort_fields (f # fs) = (fst f, sort_json (snd f)) # sort_fields fs"

definition canonical_json :: "json \<Rightarrow> string" where
  "canonical_json v = dumps (sort_json v)"

fun distinct_keys :: "json \<Rightarrow> bool" where
  "distinct_keys (JArr xs) = list_all distinct_keys xs"
| "distinct_keys (JObj kvs) =
     (distinct (map fst kvs) \<and> list_all distinct_keys (map snd kvs))"
| "distinct_keys _ = True"

section \<open>Injectivity of the encoder\<close>

lemma char_of_eq_iff: "(of_char c :: nat) = n \<Longrightarrow> c = char_of n"
  by (metis char_of_char)

text \<open>Most characters are printable: the escape read off the bits, for evaluation.\<close>

lemma of_char_printable: "b5 \<or> b6 \<or> b7 \<Longrightarrow> 32 \<le> (of_char (Char b0 b1 b2 b3 b4 b5 b6 b7) :: nat)"
  by (cases b5; cases b6; cases b7) (simp_all add: of_char_Char)

lemma esc_char_code [code]:
  "esc_char (Char b0 b1 b2 b3 b4 b5 b6 b7) =
     (let c = Char b0 b1 b2 b3 b4 b5 b6 b7 in
      if b5 \<or> b6 \<or> b7 then (if c = CHR 34 \<or> c = CHR 92 then [CHR 92, c] else [c])
      else let n = of_char c :: nat in
        if n = 8 then [CHR 92, CHR ''b'']
        else if n = 9 then [CHR 92, CHR ''t'']
        else if n = 10 then [CHR 92, CHR ''n'']
        else if n = 12 then [CHR 92, CHR ''f'']
        else if n = 13 then [CHR 92, CHR ''r'']
        else [CHR 92, CHR ''u'', CHR ''0'', CHR ''0'', hex_digit (n div 16), hex_digit (n mod 16)])"
proof -
  let ?c = "Char b0 b1 b2 b3 b4 b5 b6 b7" 
  have q: "(of_char ?c :: nat) = 34 \<longleftrightarrow> ?c = CHR 34" "(of_char ?c :: nat) = 92 \<longleftrightarrow> ?c = CHR 92"
    using char_of_eq_iff[of ?c 34] char_of_eq_iff[of ?c 92] by auto
  show ?thesis
  proof (cases "b5 \<or> b6 \<or> b7")
    case True
    then show ?thesis using of_char_printable[OF True, of b0 b1 b2 b3 b4] by (auto simp: esc_char_def Let_def q)
  next
    case False
    then have "(of_char ?c :: nat) < 32" "?c \<noteq> CHR 34" "?c \<noteq> CHR 92"
      by (simp_all add: of_char_Char)
    with False show ?thesis by (simp add: esc_char_def Let_def q del: char.inject)
  qed
qed

text \<open>Escapes are self-delimiting and never begin with the closing quote.\<close>

lemma esc_char_quote: "esc_char c @ r \<noteq> CHR 34 # r'"
  by (auto simp: esc_char_def Let_def)

lemma hex_digit_inj: "m < 16 \<Longrightarrow> n < 16 \<Longrightarrow> hex_digit m = hex_digit n \<Longrightarrow> m = n"
proof -
  assume m: "m < 16" and n: "n < 16" and eq: "hex_digit m = hex_digit n"
  have val: "(of_char (hex_digit k) :: nat) = (if k < 10 then 48 + k else 87 + k)" if "k < 16" for k
    using that by (simp add: hex_digit_def)
  have "(if m < 10 then 48 + m else 87 + m) = (if n < 10 then 48 + n else 87 + n)"
    using val[OF m] val[OF n] unfolding eq by (rule trans[OF sym])
  then show "m = n"
    using m n by presburger
qed

definition short_escape :: "nat \<Rightarrow> char option" where
  "short_escape n =
    (if n = 34 then Some (CHR 34) else if n = 92 then Some (CHR 92)
     else if n = 8 then Some (CHR ''b'') else if n = 9 then Some (CHR ''t'')
     else if n = 10 then Some (CHR ''n'') else if n = 12 then Some (CHR ''f'')
     else if n = 13 then Some (CHR ''r'') else None)"

lemma esc_char_cases:
  "esc_char c =
    (case short_escape (of_char c) of
       Some e \<Rightarrow> [CHR 92, e]
     | None \<Rightarrow> if (of_char c :: nat) < 32
         then [CHR 92, CHR ''u'', CHR ''0'', CHR ''0'',
               hex_digit (of_char c div 16), hex_digit (of_char c mod 16)]
         else [c])"
  by (simp add: esc_char_def short_escape_def Let_def)

lemma short_escape_inj: "short_escape m = Some e \<Longrightarrow> short_escape n = Some e \<Longrightarrow> m = n"
  by (auto simp: short_escape_def split: if_splits)

lemma short_escape_not_u: "short_escape m \<noteq> Some (CHR ''u'')"
  by (auto simp: short_escape_def)

lemma short_escape_92 [simp]: "short_escape 92 = Some (CHR 92)"
  by (simp add: short_escape_def)

lemma short_escape_backslash: "short_escape (of_char c) = None \<Longrightarrow> c \<noteq> CHR 92"
  by (auto simp: short_escape_def split: if_splits)

lemma hex_pair_inj:
  assumes "m < 32" "n < 32" "hex_digit (m div 16) = hex_digit (n div 16)"
    and "hex_digit (m mod 16) = hex_digit (n mod 16)"
  shows "m = (n :: nat)"
proof -
  have "m div 16 = n div 16"
    using assms by (intro hex_digit_inj) auto
  moreover have "m mod 16 = n mod 16"
    using assms by (intro hex_digit_inj) auto
  ultimately show ?thesis by (metis mod_mult_div_eq)
qed

lemma esc_char_inj:
  assumes "esc_char c @ x = esc_char d @ y"
  shows "c = d \<and> x = y"
proof (cases "short_escape (of_char c)")
  case None
  note c = this
  show ?thesis
  proof (cases "short_escape (of_char d)")
    case None
    with c assms show ?thesis
      by (auto simp: esc_char_cases split: if_splits dest: short_escape_backslash hex_pair_inj)
  next
    case (Some e)
    with c assms short_escape_not_u show ?thesis
      by (auto simp: esc_char_cases split: if_splits dest: short_escape_backslash)
  qed
next
  case (Some e)
  note c = this
  show ?thesis
  proof (cases "short_escape (of_char d)")
    case None
    with c assms short_escape_not_u show ?thesis
      by (auto simp: esc_char_cases split: if_splits dest: short_escape_backslash)
  next
    case (Some e')
    with c assms show ?thesis
      by (auto simp: esc_char_cases dest: short_escape_inj)
  qed
qed

lemma esc_str_inj:
  "esc_str s @ CHR 34 # x = esc_str t @ CHR 34 # y \<Longrightarrow> s = t \<and> x = y"
proof (induction s arbitrary: t)
  case Nil
  then show ?case
    by (cases t) (use esc_char_quote in \<open>metis esc_str.simps append.assoc append_Nil list.inject\<close>)+
next
  case (Cons c s)
  show ?case
  proof (cases t)
    case Nil
    with Cons.prems esc_char_quote show ?thesis by simp
  next
    case (Cons d t')
    with Cons.prems have "esc_char c @ (esc_str s @ CHR 34 # x) = esc_char d @ (esc_str t' @ CHR 34 # y)"
      by simp
    then have "c = d" "esc_str s @ CHR 34 # x = esc_str t' @ CHR 34 # y"
      using esc_char_inj by blast+
    with Cons.IH Cons show ?thesis by simp
  qed
qed

lemma str_json_inj: "str_json s @ x = str_json t @ y \<Longrightarrow> s = t \<and> x = y"
  by (rule esc_str_inj) (simp add: str_json_def)

text \<open>A text that does not continue a number.\<close>

definition no_digit :: "string \<Rightarrow> bool" where
  "no_digit r = (r = [] \<or> \<not> ascii_digit (hd r))"

lemma digits_split_inj:
  assumes "list_all ascii_digit a" "list_all ascii_digit b" "no_digit x" "no_digit y"
    and "a @ x = b @ y"
  shows "a = b \<and> x = y"
  using assms
proof (induction a arbitrary: b)
  case Nil
  then show ?case by (cases b) (auto simp: no_digit_def)
next
  case (Cons c a)
  then show ?case by (cases b) (auto simp: no_digit_def)
qed

lemma nat_str_no_minus:
  "nat_str n @ z = CHR ''-'' # z' \<longleftrightarrow> False" "CHR ''-'' # z' = nat_str n @ z \<longleftrightarrow> False"
  using nat_str_digits[of n] by (cases "nat_str n"; auto simp: ascii_digit_def Let_def)+

lemma nat_str_prefix_inj:
  assumes "nat_str m @ x = nat_str n @ y" "no_digit x" "no_digit y"
  shows "m = n \<and> x = y"
  using digits_split_inj[OF nat_str_digits nat_str_digits assms(2,3,1)] nat_str_inj by blast

lemma int_str_inj:
  assumes eq: "int_str i @ x = int_str j @ y" and nd: "no_digit x" "no_digit y"
  shows "i = j \<and> x = y"
proof (cases "i < 0"; cases "j < 0")
  assume "i < 0" "j < 0"
  with eq have "nat_str (nat (- i)) @ x = nat_str (nat (- j)) @ y"
    by (simp add: int_str_def)
  from nat_str_prefix_inj[OF this nd] \<open>i < 0\<close> \<open>j < 0\<close> show ?thesis by arith
next
  assume "\<not> i < 0" "\<not> j < 0"
  with eq have "nat_str (nat i) @ x = nat_str (nat j) @ y"
    by (simp add: int_str_def)
  from nat_str_prefix_inj[OF this nd] \<open>\<not> i < 0\<close> \<open>\<not> j < 0\<close> show ?thesis by arith
next
  assume "i < 0" "\<not> j < 0"
  with eq show ?thesis by (simp add: int_str_def nat_str_no_minus)
next
  assume "\<not> i < 0" "j < 0"
  with eq show ?thesis by (simp add: int_str_def nat_str_no_minus)
qed

text \<open>The first character of a value's text tells its constructor.\<close>

lemma dumps_heads:
  "\<exists>r. dumps JNull = CHR ''n'' # r"
  "\<exists>r. dumps (JBool b) = CHR ''t'' # r \<and> b \<or> dumps (JBool b) = CHR ''f'' # r \<and> \<not> b"
  "\<exists>r. dumps (JStr s) = CHR 34 # r"
  "\<exists>r. dumps (JArr xs) = CHR ''['' # r"
  "\<exists>r. dumps (JObj kvs) = CHR ''{'' # r"
  by (auto simp: str_json_def)

lemma int_str_head:
  "\<exists>c r. int_str i = c # r \<and> (ascii_digit c \<or> c = CHR ''-'')"
proof (cases "i < 0")
  case False
  obtain c r where "nat_str (nat i) = c # r"
    by (cases "nat_str (nat i)") auto
  with nat_str_digits[of "nat i"] False show ?thesis by (simp add: int_str_def)
qed (simp add: int_str_def)

definition json_tag :: "json \<Rightarrow> nat" where
  "json_tag v = (case v of JNull \<Rightarrow> 0 | JBool b \<Rightarrow> (if b then 1 else 2) | JInt _ \<Rightarrow> 3
     | JStr _ \<Rightarrow> 4 | JArr _ \<Rightarrow> 5 | JObj _ \<Rightarrow> 6)"

definition head_tag :: "char \<Rightarrow> nat" where
  "head_tag c = (if c = CHR ''n'' then 0 else if c = CHR ''t'' then 1
     else if c = CHR ''f'' then 2 else if c = CHR 34 then 4 else if c = CHR ''['' then 5
     else if c = CHR ''{'' then 6 else 3)"

lemma dumps_tag: "dumps v \<noteq> [] \<and> head_tag (hd (dumps v)) = json_tag v"
proof (cases v)
  case (JInt i)
  obtain c r where i: "int_str i = c # r" "ascii_digit c \<or> c = CHR ''-''"
    using int_str_head by blast
  then have "head_tag c = 3"
    by (auto simp: head_tag_def ascii_digit_def Let_def)
  with i JInt show ?thesis by (simp add: json_tag_def)
qed (auto simp: json_tag_def head_tag_def str_json_def)

lemma dumps_same_tag:
  assumes "dumps v @ x = dumps w @ y"
  shows "json_tag v = json_tag w"
proof -
  have "hd (dumps v) = hd (dumps w)"
    using assms dumps_tag[of v] dumps_tag[of w] by (metis hd_append2)
  then show ?thesis using dumps_tag[of v] dumps_tag[of w] by metis
qed

lemma no_digit_punct [simp]:
  "no_digit (CHR '','' # r)" "no_digit (CHR '']'' # r)" "no_digit (CHR ''}'' # r)" "no_digit []"
  by (simp_all add: no_digit_def ascii_digit_def Let_def)

text \<open>The text of an element never begins with a closing bracket.\<close>

lemma dumps_not_bracket:
  "dumps v @ x \<noteq> CHR '']'' # y" "str_json k @ x \<noteq> CHR ''}'' # y"
proof -
  show "dumps v @ x \<noteq> CHR '']'' # y"
  proof
    assume "dumps v @ x = CHR '']'' # y"
    then have "hd (dumps v) = CHR '']''"
      using dumps_tag[of v] by (cases "dumps v") auto
    then have "json_tag v = 3" using dumps_tag[of v] by (simp add: head_tag_def)
    then obtain i where "v = JInt i"
      by (auto simp: json_tag_def split: json.splits if_splits)
    with \<open>hd (dumps v) = CHR '']''\<close> int_str_head[of i] show False
      by (auto simp: ascii_digit_def Let_def)
  qed
qed (simp add: str_json_def)

lemma same_tag_cases:
  assumes "json_tag v = json_tag w"
  obtains "v = JNull" "w = JNull" | b where "v = JBool b" "w = JBool b"
    | i j where "v = JInt i" "w = JInt j" | s t where "v = JStr s" "w = JStr t"
    | vs ws where "v = JArr vs" "w = JArr ws" | fs gs where "v = JObj fs" "w = JObj gs"
  using assms by (cases v; cases w) (auto simp: json_tag_def split: if_splits)

text \<open>The encoder is a prefix code: a text splits in one way into a value and a rest.\<close>

lemma dumps_inj:
  "dumps v @ x = dumps w @ y \<Longrightarrow> no_digit x \<Longrightarrow> no_digit y \<Longrightarrow> v = w \<and> x = y"
  "dumps_items vs @ CHR '']'' # x = dumps_items ws @ CHR '']'' # y \<Longrightarrow> vs = ws \<and> x = y"
  "dumps_fields fs @ CHR ''}'' # x = dumps_fields gs @ CHR ''}'' # y \<Longrightarrow> fs = gs \<and> x = y"
proof (induction v and vs and fs arbitrary: w x y and ws x y and gs x y
    rule: dumps_dumps_items_dumps_fields.induct)
  case (3 i)
  from dumps_same_tag[OF "3.prems"(1)] obtain j where w: "w = JInt j"
    by (rule same_tag_cases) simp_all
  with "3.prems"(1) have "int_str i @ x = int_str j @ y" by simp
  from int_str_inj[OF this "3.prems"(2,3)] w show ?case by simp
next
  case (4 s)
  from dumps_same_tag[OF "4.prems"(1)] obtain t where w: "w = JStr t"
    by (rule same_tag_cases) simp_all
  with "4.prems"(1) have "str_json s @ x = str_json t @ y" by simp
  from str_json_inj[OF this] w show ?case by simp
next
  case (5 xs)
  from dumps_same_tag[OF "5.prems"(1)] obtain ys where w: "w = JArr ys"
    by (rule same_tag_cases) simp_all
  with "5.prems"(1) have "dumps_items xs @ CHR '']'' # x = dumps_items ys @ CHR '']'' # y" by simp
  from "5.IH"[OF this] w show ?case by simp
next
  case (6 kvs)
  from dumps_same_tag[OF "6.prems"(1)] obtain gs where w: "w = JObj gs"
    by (rule same_tag_cases) simp_all
  with "6.prems"(1) have "dumps_fields kvs @ CHR ''}'' # x = dumps_fields gs @ CHR ''}'' # y" by simp
  from "6.IH"[OF this] w show ?case by simp
next
  case 7
  show ?case
  proof (cases ws)
    case (Cons w ws')
    with "7.prems" have "dumps w @ (if ws' = [] then [] else CHR '','' # dumps_items ws') @ CHR '']'' # y
        = CHR '']'' # x"
      by (simp del: dumps.simps)
    with dumps_not_bracket(1) show ?thesis by blast
  qed (use "7.prems" in simp)
next
  case (8 v vs)
  show ?case
  proof (cases ws)
    case Nil
    with "8.prems" have "dumps v @ (if vs = [] then [] else CHR '','' # dumps_items vs) @ CHR '']'' # x
        = CHR '']'' # y"
      by (simp del: dumps.simps)
    with dumps_not_bracket(1) show ?thesis by blast
  next
    case (Cons w ws')
    let ?tl = "\<lambda>us z. (if us = [] then [] else CHR '','' # dumps_items us) @ CHR '']'' # z"
    have nd: "no_digit (?tl us z)" for us z by (cases us) auto
    from "8.prems" Cons have "dumps v @ ?tl vs x = dumps w @ ?tl ws' y" by simp
    from "8.IH"(1)[OF this nd nd] have "v = w" and tl: "?tl vs x = ?tl ws' y" by auto
    from tl have "vs = ws' \<and> x = y"
      by (cases "vs = []"; cases "ws' = []") (use "8.IH"(2) in auto)
    with \<open>v = w\<close> Cons show ?thesis by simp
  qed
next
  case 9
  then show ?case
    by (cases gs) (auto simp: str_json_def)
next
  case (10 f fs)
  show ?case
  proof (cases gs)
    case Nil
    with "10.prems" show ?thesis by (simp add: str_json_def)
  next
    case (Cons g gs')
    let ?tl = "\<lambda>us z. (if us = [] then [] else CHR '','' # dumps_fields us) @ CHR ''}'' # z"
    have nd: "no_digit (?tl us z)" for us z by (cases us) auto
    from "10.prems" Cons
    have "str_json (fst f) @ CHR '':'' # dumps (snd f) @ ?tl fs x
        = str_json (fst g) @ CHR '':'' # dumps (snd g) @ ?tl gs' y" by simp
    from str_json_inj[OF this] have "fst f = fst g"
      and v: "dumps (snd f) @ ?tl fs x = dumps (snd g) @ ?tl gs' y" by auto
    from "10.IH"(1)[OF v nd nd] have "snd f = snd g" and tl: "?tl fs x = ?tl gs' y" by auto
    from tl have "fs = gs' \<and> x = y"
      by (cases "fs = []"; cases "gs' = []") (use "10.IH"(2) in auto)
    with \<open>fst f = fst g\<close> \<open>snd f = snd g\<close> Cons show ?thesis by (simp add: prod_eq_iff)
  qed
next
  case 1
  from dumps_same_tag[OF "1.prems"(1)] show ?case
    by (rule same_tag_cases) (use "1.prems" in simp_all)
next
  case (2 b)
  from dumps_same_tag[OF "2.prems"(1)] show ?case
    by (rule same_tag_cases) (use "2.prems" in simp_all)
qed

lemma dumps_injective: "dumps v = dumps w \<Longrightarrow> v = w"
  using dumps_inj(1)[of v "[]" w "[]"] by simp

section \<open>Sorted form\<close>

lemma sort_fields_map: "sort_fields fs = map (\<lambda>f. (fst f, sort_json (snd f))) fs"
  by (induction fs) auto

lemma sort_items_map: "sort_items xs = map sort_json xs"
  by (induction xs) auto

lemma insort_key_map:
  "(\<And>x. f (g x) = f x) \<Longrightarrow> insort_key f (g x) (map g xs) = map g (insort_key f x xs)"
  by (induction xs) auto

lemma sort_key_map:
  "(\<And>x. f (g x) = f x) \<Longrightarrow> sort_key f (map g xs) = map g (sort_key f xs)"
  by (induction xs) (auto simp: insort_key_map)

lemma sort_json_idem [simp]:
  "sort_json (sort_json v) = sort_json v"
  "sort_items (sort_items xs) = sort_items xs"
  "sort_fields (sort_fields fs) = sort_fields fs"
proof (induction v and xs and fs rule: sort_json_sort_items_sort_fields.induct)
  case (6 kvs)
  have "sort_fields (sort_key fst (sort_fields kvs)) = sort_key fst (sort_fields (sort_fields kvs))"
    by (simp add: sort_fields_map sort_key_map[symmetric])
  with 6 show ?case by (simp add: sort_key_id_if_sorted)
qed auto

lemma canonical_sort_json [simp]: "canonical_json (sort_json v) = canonical_json v"
  by (simp add: canonical_json_def)

text \<open>Equal canonical texts, equal values up to the order of object fields.\<close>

lemma canonical_json_inj: "canonical_json v = canonical_json w \<Longrightarrow> sort_json v = sort_json w"
  by (simp add: canonical_json_def dumps_injective)

lemma sort_json_JObj: "\<exists>kvs'. sort_json (JObj kvs) = JObj kvs'"
  by simp

text \<open>\<open>bool(value)\<close>.\<close>

fun json_truthy :: "json \<Rightarrow> bool" where
  "json_truthy JNull = False"
| "json_truthy (JBool b) = b"
| "json_truthy (JInt i) = (i \<noteq> 0)"
| "json_truthy (JStr s) = (s \<noteq> [])"
| "json_truthy (JArr xs) = (xs \<noteq> [])"
| "json_truthy (JObj kvs) = (kvs \<noteq> [])"

end
