(* ===== verification/Command_Types.thy ===== *)
theory Command_Types
  imports Prelude
begin

text \<open>
  \<open>_application/types.py\<close>: the closed vocabularies of command contracts and the two identifier
  checks. A regular expression \<open>[a-z][a-z0-9]*(?:-[a-z0-9]+)*\<close> is read as a condition on the
  pieces between the hyphens; \<open>fullmatch\<close> leaves no room for a trailing newline.
\<close>

definition lower_alnum :: "char \<Rightarrow> bool" where
  "lower_alnum c = (lower_letter c \<or> ascii_digit c)"

text \<open>\<open>[a-z0-9]+(?:-[a-z0-9]+)*\<close>, the pattern \<open>_SLUG\<close>.\<close>

definition slug_pattern :: "string \<Rightarrow> bool" where
  "slug_pattern s = list_all (\<lambda>p. p \<noteq> [] \<and> list_all lower_alnum p) (split_on (CHR ''-'') s)"

text \<open>One half of \<open>_COMMAND_ID\<close>: a slug that begins with a letter.\<close>

definition command_part :: "string \<Rightarrow> bool" where
  "command_part s = (s \<noteq> [] \<and> lower_letter (hd s) \<and> slug_pattern s)"

definition command_id_pattern :: "string \<Rightarrow> bool" where
  "command_id_pattern s =
     (case split_on (CHR ''.'') s of [noun, verb] \<Rightarrow> command_part noun \<and> command_part verb
      | _ \<Rightarrow> False)"

definition validate_command_id :: "string \<Rightarrow> exn + unit" where
  "validate_command_id command_id = check_that (command_id_pattern command_id) ValueError"

definition validate_slug :: "string \<Rightarrow> exn + unit" where
  "validate_slug slug =
     check_that (1 \<le> length slug \<and> length slug \<le> 64 \<and> slug_pattern slug
                 \<and> list_ex lower_letter slug) ValueError"

datatype dependency_tier = Bootstrap | Portable | Managed

fun tier_order :: "dependency_tier \<Rightarrow> nat" where
  "tier_order Bootstrap = 0"
| "tier_order Portable = 1"
| "tier_order Managed = 2"

text \<open>\<open>DependencyTier.supports\<close>.\<close>

definition supports :: "dependency_tier \<Rightarrow> dependency_tier \<Rightarrow> bool" where
  "supports self required = (tier_order required \<le> tier_order self)"

datatype locality = SelectedBrainLocal | SelectedBrainAndCallerLocal | CallerLocal | MachineLocal

datatype authority = Reader | Contributor | Maintainer | Operator | Administrator

datatype initial_authorisation_class = ControlClass | ObservationClass | ContentClass | ExceptionalClass

datatype effect_class =
    NoEffect
  | DerivedCacheWrite
  | SelectedBrainMutation
  | SelectedBrainAndCallerLocalMutation
  | CallerLocalMutation
  | MachineMutation

datatype retry_class = SafeRetry | ReceiptRequired

datatype projection = Mcp | Cli | Script | Python | Launcher

datatype command_owner = ApplicationOwner | LauncherOwner

datatype command_lifecycle = ActiveCommand | DeprecatedCommand | ReplacedCommand

datatype availability = Available | Unavailable | UnknownAvailability

datatype snapshot_freshness = Fresh | Stale | UnknownFreshness

record projection_eligibility =
  pe_projection :: projection
  pe_supported :: bool
  pe_reason :: "string option"

text \<open>\<open>ProjectionEligibility.__post_init__\<close>.\<close>

definition new_projection_eligibility ::
  "projection \<Rightarrow> bool \<Rightarrow> string option \<Rightarrow> exn + projection_eligibility" where
  "new_projection_eligibility p supported reason =
     bind_result (check_that (\<not> (supported \<and> reason \<noteq> None)) ValueError) (\<lambda>_.
     bind_result (check_that (supported \<or> (case reason of None \<Rightarrow> False | Some r \<Rightarrow> \<not> py_blank r))
                   ValueError) (\<lambda>_.
     Inr \<lparr>pe_projection = p, pe_supported = supported, pe_reason = reason\<rparr>))"

section \<open>Facts\<close>

lemma split_on_append:
  "split_on x (a @ x # b) = split_on x a @ split_on x b"
proof (induction a)
  case (Cons c a)
  then show ?case
    by (cases "split_on x a") (auto split: list.splits)
qed simp

lemma split_on_none: "x \<notin> set s \<Longrightarrow> split_on x s = [s]"
  by (induction s) auto

lemma set_split_on: "p \<in> set (split_on x s) \<Longrightarrow> set p \<subseteq> set s - {x}"
  by (induction s arbitrary: p) (auto split: list.splits if_splits, blast+)

lemma split_on_covers:
  "c \<in> set s \<Longrightarrow> c \<noteq> x \<Longrightarrow> \<exists>p \<in> set (split_on x s). c \<in> set p"
proof (induction s)
  case (Cons d s)
  show ?case
  proof (cases "c \<in> set s")
    case True
    with Cons obtain p where "p \<in> set (split_on x s)" "c \<in> set p" by blast
    then show ?thesis by (cases "split_on x s") auto
  next
    case False
    with Cons show ?thesis by (auto split: list.splits)
  qed
qed simp

lemma slug_pattern_chars: "slug_pattern s \<Longrightarrow> c \<in> set s \<Longrightarrow> lower_alnum c \<or> c = CHR ''-''"
  using split_on_covers[of c s "CHR ''-''"] by (auto simp: slug_pattern_def list_all_iff)

lemma slug_pattern_no_dot: "slug_pattern s \<Longrightarrow> CHR ''.'' \<notin> set s"
  using slug_pattern_chars[of s "CHR ''.''"]
  by (auto simp: lower_alnum_def lower_letter_def ascii_digit_def Let_def)

lemma split_on_two:
  "split_on x s = [a, b] \<longleftrightarrow> s = a @ x # b \<and> x \<notin> set a \<and> x \<notin> set b"
proof
  assume "split_on x s = [a, b]"
  then show "s = a @ x # b \<and> x \<notin> set a \<and> x \<notin> set b"
  proof (induction s arbitrary: a)
    case (Cons c s)
    show ?case
    proof (cases "c = x")
      case True
      with Cons.prems have "split_on x s = [b]" "a = []" by auto
      moreover have "split_on x s = [b] \<Longrightarrow> s = b \<and> x \<notin> set b" for s b
        by (induction s arbitrary: b) (auto split: if_splits list.splits)
      ultimately show ?thesis using True by auto
    next
      case False
      with Cons.prems obtain a' where "split_on x s = [a', b]" "a = c # a'"
        by (auto split: list.splits)
      with Cons.IH[of a'] False show ?thesis by auto
    qed
  qed simp
qed (auto simp: split_on_append split_on_none)

lemma command_id_pattern_iff:
  "command_id_pattern s \<longleftrightarrow>
     (\<exists>noun verb. s = noun @ CHR ''.'' # verb \<and> command_part noun \<and> command_part verb)"
proof
  assume "command_id_pattern s"
  then obtain noun verb where "split_on (CHR ''.'') s = [noun, verb]"
    "command_part noun" "command_part verb"
    by (auto simp: command_id_pattern_def split: list.splits)
  then show "\<exists>noun verb. s = noun @ CHR ''.'' # verb \<and> command_part noun \<and> command_part verb"
    using split_on_two by metis
next
  assume "\<exists>noun verb. s = noun @ CHR ''.'' # verb \<and> command_part noun \<and> command_part verb"
  then obtain noun verb where s: "s = noun @ CHR ''.'' # verb" "command_part noun" "command_part verb"
    by blast
  then have "split_on (CHR ''.'') s = [noun, verb]"
    by (simp add: split_on_two command_part_def slug_pattern_no_dot)
  with s show "command_id_pattern s" by (simp add: command_id_pattern_def)
qed

lemma validate_command_id_Inr [simp]: "validate_command_id c = Inr u \<longleftrightarrow> command_id_pattern c"
  by (simp add: validate_command_id_def)

lemma validate_command_id_Inl [simp]:
  "validate_command_id c = Inl e \<longleftrightarrow> \<not> command_id_pattern c \<and> e = ValueError"
  by (auto simp: validate_command_id_def)

lemma supports_refl [simp]: "supports t t"
  by (simp add: supports_def)

lemma supports_trans: "supports a b \<Longrightarrow> supports b c \<Longrightarrow> supports a c"
  by (simp add: supports_def)

end
