(* ===== verification/Preparation.thy ===== *)
theory Preparation
  imports Json_Codec Command_Types "HOL-Library.Product_Lexorder"
begin

text \<open>
  \<open>_application/preparation.py\<close>: operation bindings, their wire form and digest.

  The three JSON text fields of an \<open>OperationBinding\<close> are required by its constructor to be
  the canonical text of a JSON object, so the model keeps the decoded object; by injectivity
  of the encoder (\<open>Json_Codec\<close>) the text and the object determine each other. \<open>hx\<close> stands for
  \<open>hashlib.sha256(...).hexdigest()\<close> and is an argument of every definition that uses it.
\<close>

definition BINDING_SCHEMA :: string where
  "BINDING_SCHEMA = ''brain.operation-binding/1''"

definition content_digest :: "(string \<Rightarrow> string) \<Rightarrow> string \<Rightarrow> string" where
  "content_digest hx raw = ''sha256:'' @ hx raw"

section \<open>Observed resources\<close>

record observed_resource =
  or_kind :: string
  or_identity :: string
  or_revision :: "string option"

definition observed_ok :: "observed_resource \<Rightarrow> bool" where
  "observed_ok r = (or_kind r \<noteq> [] \<and> or_identity r \<noteq> [] \<and> or_revision r \<noteq> Some [])"

definition observed_to_wire :: "observed_resource \<Rightarrow> json" where
  "observed_to_wire r = JObj [(''kind'', JStr (or_kind r)), (''identity'', JStr (or_identity r)),
     (''revision'', case or_revision r of None \<Rightarrow> JNull | Some v \<Rightarrow> JStr v)]"

definition field :: "string \<Rightarrow> (string \<times> json) list \<Rightarrow> json" where
  "field k kvs = (case map_of kvs k of None \<Rightarrow> JNull | Some v \<Rightarrow> v)"

text \<open>
  \<open>ObservedResource(**item)\<close>: a \<open>TypeError\<close> unless the item is a mapping with exactly the
  field names, then the checks of \<open>__post_init__\<close>.
\<close>

definition observed_from_wire :: "json \<Rightarrow> exn + observed_resource" where
  "observed_from_wire item =
     (case item of
        JObj kvs \<Rightarrow>
          if set (map fst kvs) \<noteq> {''kind'', ''identity'', ''revision''} then Inl TypeError
          else (case (field ''kind'' kvs, field ''identity'' kvs, field ''revision'' kvs) of
              (JStr k, JStr i, JNull) \<Rightarrow>
                let r = \<lparr>or_kind = k, or_identity = i, or_revision = None\<rparr>
                in if observed_ok r then Inr r else Inl ValueError
            | (JStr k, JStr i, JStr v) \<Rightarrow>
                let r = \<lparr>or_kind = k, or_identity = i, or_revision = Some v\<rparr>
                in if observed_ok r then Inr r else Inl ValueError
            | _ \<Rightarrow> Inl ValueError)
      | _ \<Rightarrow> Inl TypeError)"

section \<open>Operation bindings\<close>

record operation_binding =
  ob_command_id :: string
  ob_command_version :: int
  ob_request :: json
  ob_frozen_inputs :: json
  ob_observations :: "observed_resource list"
  ob_review :: json
  ob_schema :: string

definition canonical_object :: "json \<Rightarrow> bool" where
  "canonical_object v = ((case v of JObj _ \<Rightarrow> True | _ \<Rightarrow> False) \<and> canonical_json v = dumps v)"

definition observation_identities :: "observed_resource list \<Rightarrow> (string \<times> string) list" where
  "observation_identities os = map (\<lambda>r. (or_kind r, or_identity r)) os"

text \<open>\<open>OperationBinding.__post_init__\<close>.\<close>

definition check_binding :: "operation_binding \<Rightarrow> exn + operation_binding" where
  "check_binding b =
     bind_result (validate_command_id (ob_command_id b)) (\<lambda>_.
     bind_result (check_that (ob_schema b = BINDING_SCHEMA \<and> 1 \<le> ob_command_version b) ValueError) (\<lambda>_.
     bind_result (check_that (canonical_object (ob_request b) \<and> canonical_object (ob_frozen_inputs b)
                   \<and> canonical_object (ob_review b)) ValueError) (\<lambda>_.
     bind_result (check_that (observation_identities (ob_observations b)
                   = sort (remdups (observation_identities (ob_observations b)))) ValueError) (\<lambda>_.
     Inr b))))"

definition binding_to_wire :: "operation_binding \<Rightarrow> json" where
  "binding_to_wire b = JObj
     [(''schema'', JStr (ob_schema b)),
      (''command_id'', JStr (ob_command_id b)),
      (''command_version'', JInt (ob_command_version b)),
      (''request'', ob_request b),
      (''frozen_inputs'', ob_frozen_inputs b),
      (''observations'', JArr (map observed_to_wire (ob_observations b))),
      (''review'', ob_review b)]"

definition binding_digest :: "(string \<Rightarrow> string) \<Rightarrow> operation_binding \<Rightarrow> string" where
  "binding_digest hx b = content_digest hx (canonical_json (binding_to_wire b))"

fun collect_results :: "(exn + 'a) list \<Rightarrow> exn + 'a list" where
  "collect_results [] = Inr []"
| "collect_results (r # rs) =
     bind_result r (\<lambda>x. bind_result (collect_results rs) (\<lambda>xs. Inr (x # xs)))"

text \<open>\<open>OperationBinding.from_wire\<close>.\<close>

definition binding_from_wire :: "json \<Rightarrow> exn + operation_binding" where
  "binding_from_wire value =
     (case value of
        JObj kvs \<Rightarrow>
          if set (map fst kvs) \<noteq> {''schema'', ''command_id'', ''command_version'', ''request'',
               ''frozen_inputs'', ''observations'', ''review''} then Inl ValueError
          else (case field ''observations'' kvs of
              JArr items \<Rightarrow>
                bind_result (collect_results (map observed_from_wire items)) (\<lambda>os.
                case field ''command_id'' kvs of
                  JStr cid \<Rightarrow>
                    bind_result (validate_command_id cid) (\<lambda>_.
                    case (field ''schema'' kvs, field ''command_version'' kvs) of
                      (JStr schema, JInt version) \<Rightarrow>
                        check_binding \<lparr>ob_command_id = cid, ob_command_version = version,
                          ob_request = sort_json (field ''request'' kvs),
                          ob_frozen_inputs = sort_json (field ''frozen_inputs'' kvs),
                          ob_observations = os,
                          ob_review = sort_json (field ''review'' kvs),
                          ob_schema = schema\<rparr>
                    | _ \<Rightarrow> Inl ValueError)
                | _ \<Rightarrow> Inl TypeError)
            | _ \<Rightarrow> Inl ValueError)
      | _ \<Rightarrow> Inl ValueError)"

section \<open>Binding a request\<close>

fun bounded_value :: "(string \<Rightarrow> string) \<Rightarrow> json \<Rightarrow> json"
  and bounded_items :: "(string \<Rightarrow> string) \<Rightarrow> json list \<Rightarrow> json list"
  and bounded_fields :: "(string \<Rightarrow> string) \<Rightarrow> (string \<times> json) list \<Rightarrow> (string \<times> json) list"
where
  "bounded_value hx (JStr s) =
     (if length s > 256
      then JObj [(''sha256'', JStr (content_digest hx s)), (''bytes'', JInt (int (length s)))]
      else JStr s)"
| "bounded_value hx (JObj kvs) = JObj (bounded_fields hx kvs)"
| "bounded_value hx (JArr xs) = JArr (bounded_items hx xs)"
| "bounded_value hx v = v"
| "bounded_items hx [] = []"
| "bounded_items hx (x # xs) = bounded_value hx x # bounded_items hx xs"
| "bounded_fields hx [] = []"
| "bounded_fields hx (f # fs) = (fst f, bounded_value hx (snd f)) # bounded_fields hx fs"

text \<open>
  What \<open>bind_operation\<close> reads of a request: its class constants and its canonical wire value
  (\<open>request_value\<close>, computed by \<open>projection.canonical_wire_value\<close>).
\<close>

record command_request =
  cr_command_id :: string
  cr_command_version :: int
  cr_wire_value :: json

definition bind_operation ::
  "(string \<Rightarrow> string) \<Rightarrow> command_request \<Rightarrow> observed_resource list \<Rightarrow> (string \<times> json) list \<Rightarrow>
   (string \<times> json) list \<Rightarrow> exn + operation_binding" where
  "bind_operation hx request observations frozen_inputs review =
     (let original = cr_wire_value request; arguments = bounded_value hx original in
      check_binding
        \<lparr>ob_command_id = cr_command_id request, ob_command_version = cr_command_version request,
         ob_request = sort_json (JObj [(''sha256'', JStr (content_digest hx (canonical_json original))),
                                       (''arguments'', arguments)]),
         ob_frozen_inputs = sort_json (JObj frozen_inputs),
         ob_observations = sort_key (\<lambda>r. (or_kind r, or_identity r)) observations,
         ob_review = sort_json (JObj (dict_update [(''arguments'', arguments)] review)),
         ob_schema = BINDING_SCHEMA\<rparr>)"

definition live_query :: "(string \<Rightarrow> string) \<Rightarrow> command_request \<Rightarrow> exn + operation_binding" where
  "live_query hx request = bind_operation hx request [] []
     [(''operation'', JStr ''Run the specified query over the selected Brain's live data.''),
      (''arguments'', bounded_value hx (cr_wire_value request))]"

section \<open>Round trip and binding of every field\<close>

definition valid_binding :: "operation_binding \<Rightarrow> bool" where
  "valid_binding b = (check_binding b = Inr b \<and> list_all observed_ok (ob_observations b))"

lemma check_binding_Inr:
  "check_binding b = Inr c \<longleftrightarrow> c = b \<and> command_id_pattern (ob_command_id b)
     \<and> ob_schema b = BINDING_SCHEMA \<and> 1 \<le> ob_command_version b
     \<and> canonical_object (ob_request b) \<and> canonical_object (ob_frozen_inputs b)
     \<and> canonical_object (ob_review b)
     \<and> observation_identities (ob_observations b)
         = sort (remdups (observation_identities (ob_observations b)))"
  by (auto simp: check_binding_def bind_result_Inr)

lemma canonical_object_sorted: "canonical_object v \<Longrightarrow> sort_json v = v"
  by (auto simp: canonical_object_def canonical_json_def dest: dumps_injective)

lemma canonical_object_sort_json [simp]: "canonical_object (sort_json (JObj kvs))"
  using canonical_sort_json[of "JObj kvs"]
  by (simp add: canonical_object_def canonical_json_def del: canonical_sort_json)

lemma field_simps' [simp]:
  "field k ((k, v) # kvs) = v" "k \<noteq> k' \<Longrightarrow> field k ((k', v) # kvs) = field k kvs"
  by (simp_all add: field_def)

lemma observed_round_trip: "observed_ok r \<Longrightarrow> observed_from_wire (observed_to_wire r) = Inr r"
  by (cases "or_revision r")
    (auto simp: observed_from_wire_def observed_to_wire_def observed_ok_def Let_def)

lemma collect_round_trip:
  "list_all observed_ok os \<Longrightarrow>
   collect_results (map observed_from_wire (map observed_to_wire os)) = Inr os"
  by (induction os) (auto simp: observed_round_trip)

lemma binding_round_trip_lemma:
  assumes "valid_binding b"
  shows "binding_from_wire (binding_to_wire b) = Inr b"
proof -
  from assms have b: "check_binding b = Inr b" "list_all observed_ok (ob_observations b)"
    by (simp_all add: valid_binding_def)
  then have "command_id_pattern (ob_command_id b)" "sort_json (ob_request b) = ob_request b"
    "sort_json (ob_frozen_inputs b) = ob_frozen_inputs b" "sort_json (ob_review b) = ob_review b"
    by (auto simp: check_binding_Inr canonical_object_sorted)
  with b show ?thesis
    by (cases b) (simp add: validate_command_id_def binding_from_wire_def binding_to_wire_def collect_round_trip[simplified])
qed

lemma observed_to_wire_inj: "observed_to_wire r = observed_to_wire r' \<Longrightarrow> r = r'"
  by (auto simp: observed_to_wire_def split: option.splits intro: observed_resource.equality)

lemma sort_json_observed [simp]: "sort_json (observed_to_wire r) = JObj
    [(''identity'', JStr (or_identity r)), (''kind'', JStr (or_kind r)),
     (''revision'', case or_revision r of None \<Rightarrow> JNull | Some v \<Rightarrow> JStr v)]"
  by (simp add: observed_to_wire_def split: option.splits)

lemma sort_json_wire_inj:
  "sort_json (observed_to_wire r) = sort_json (observed_to_wire r') \<Longrightarrow> r = r'"
  by (cases r; cases r') (auto split: option.splits)

lemma sort_json_binding: "sort_json (binding_to_wire b) = JObj
     [(''command_id'', JStr (ob_command_id b)),
      (''command_version'', JInt (ob_command_version b)),
      (''frozen_inputs'', sort_json (ob_frozen_inputs b)),
      (''observations'', JArr (map (sort_json \<circ> observed_to_wire) (ob_observations b))),
      (''request'', sort_json (ob_request b)),
      (''review'', sort_json (ob_review b)),
      (''schema'', JStr (ob_schema b))]"
  by (simp add: binding_to_wire_def sort_items_map del: sort_json_observed)

lemma binding_canonical_inj:
  assumes "valid_binding b" "valid_binding c"
    and "canonical_json (binding_to_wire b) = canonical_json (binding_to_wire c)"
  shows "b = c"
proof -
  have sorted: "sort_json (ob_request d) = ob_request d"
    "sort_json (ob_frozen_inputs d) = ob_frozen_inputs d" "sort_json (ob_review d) = ob_review d"
    if "valid_binding d" for d
    using that by (auto simp: valid_binding_def check_binding_Inr canonical_object_sorted)
  have inj: "inj (sort_json \<circ> observed_to_wire)"
    by (rule injI) (metis comp_apply sort_json_wire_inj)
  from canonical_json_inj[OF assms(3)] sorted[OF assms(1)] sorted[OF assms(2)]
  show ?thesis
    by (cases b; cases c)
      (simp add: sort_json_binding inj_map_eq_map[OF inj] del: sort_json_observed)
qed

end
