(* ===== verification/State_Store.thy ===== *)
theory State_Store
  imports Prelude Json_Codec
begin

text \<open>
  \<open>_bootstrap/consent_state.py\<close>: the bounded in-memory store of versioned records. A record
  slot holds a version, a live value or a deletion marker, and the bytes charged for it. The
  store is polymorphic in the record type; \<open>enc\<close> gives the JSON text that the code stores
  (the code keeps the encoded text and decodes it on a snapshot, the model keeps the value).
  The process lock makes each operation atomic, so an operation is one function on the state.

  The invariant \<open>store_ok\<close> ties the byte counter to the slots and bounds it; a successful
  exchange is the only step that changes a version, and versions never go back, not even over
  a deletion. The locale \<open>versioned_cells\<close> states what clients need of such a store: a snapshot
  whose versions still match is a snapshot of the present.
\<close>

section \<open>State\<close>

definition MAX_STATE_BYTES :: nat where
  "MAX_STATE_BYTES = 4 * 1024 * 1024"

definition MAX_PAGE_KEYS :: int where
  "MAX_PAGE_KEYS = 128"

record 'v snapshot =
  snap_values :: "(string \<times> 'v) list"
  snap_versions :: "(string \<times> int) list"

record key_page =
  page_keys :: "string list"
  page_next_after :: "string option"
  page_revision :: int

record 'v slot =
  slot_version :: int
  slot_value :: "'v option"
  slot_size :: int

record 'v store =
  st_max_bytes :: int
  st_records :: "(string \<times> 'v slot) list"
  st_bytes :: int
  st_revision :: int
  st_closed :: bool

section \<open>Operations\<close>

definition check_key :: "string \<Rightarrow> exn + unit" where
  "check_key k = check_that (k \<noteq> [] \<and> length k \<le> 256) ValueError"

definition check_version :: "int \<Rightarrow> exn + unit" where
  "check_version v = check_that (0 \<le> v) ValueError"

definition new_store :: "int \<Rightarrow> exn + 'v store" where
  "new_store max_bytes =
     bind_result (check_that (1 \<le> max_bytes \<and> max_bytes \<le> int MAX_STATE_BYTES) ValueError) (\<lambda>_.
     Inr \<lparr>st_max_bytes = max_bytes, st_records = [], st_bytes = 0, st_revision = 0,
          st_closed = False\<rparr>)"

definition no_slot :: "'v slot" where
  "no_slot = \<lparr>slot_version = 0, slot_value = None, slot_size = 0\<rparr>"

text \<open>\<open>self._records.get(key, (0, None, 0))\<close>\<close>

definition slot_of :: "'v store \<Rightarrow> string \<Rightarrow> 'v slot" where
  "slot_of s k = (case map_of (st_records s) k of None \<Rightarrow> no_slot | Some r \<Rightarrow> r)"

abbreviation version_at :: "'v store \<Rightarrow> string \<Rightarrow> int" where
  "version_at s k \<equiv> slot_version (slot_of s k)"

abbreviation value_at :: "'v store \<Rightarrow> string \<Rightarrow> 'v option" where
  "value_at s k \<equiv> slot_value (slot_of s k)"

definition require_open :: "'v store \<Rightarrow> exn + unit" where
  "require_open s = check_that (\<not> st_closed s) StoreClosedError"

fun check_all :: "('a \<Rightarrow> exn + unit) \<Rightarrow> 'a list \<Rightarrow> exn + unit" where
  "check_all f [] = Inr ()"
| "check_all f (x # xs) = bind_result (f x) (\<lambda>_. check_all f xs)"

fun live_values :: "'v store \<Rightarrow> string list \<Rightarrow> (string \<times> 'v) list" where
  "live_values s [] = []"
| "live_values s (k # ks) =
     (case value_at s k of None \<Rightarrow> live_values s ks | Some v \<Rightarrow> (k, v) # live_values s ks)"

definition store_snapshot :: "'v store \<Rightarrow> string list \<Rightarrow> exn + 'v snapshot" where
  "store_snapshot s keys =
     bind_result (check_all check_key keys) (\<lambda>_.
     bind_result (check_that (distinct keys) ValueError) (\<lambda>_.
     bind_result (require_open s) (\<lambda>_.
     Inr \<lparr>snap_values = live_values s keys,
          snap_versions = map (\<lambda>k. (k, version_at s k)) keys\<rparr>)))"

text \<open>The bytes charged for a slot: key, version, value (or \<open>null\<close>) and four separators.\<close>

definition charged_size :: "('v \<Rightarrow> string) \<Rightarrow> string \<Rightarrow> int \<Rightarrow> 'v option \<Rightarrow> int" where
  "charged_size enc k version v =
     int (length (str_json k)) + int (length (int_str version))
       + (case v of None \<Rightarrow> 4 | Some x \<Rightarrow> int (length (enc x))) + 4"

definition replacement :: "('v \<Rightarrow> string) \<Rightarrow> 'v store \<Rightarrow> string \<times> 'v option \<Rightarrow> string \<times> 'v slot" where
  "replacement enc s w = (let k = fst w; version = version_at s k + 1 in
     (k, \<lparr>slot_version = version, slot_value = snd w,
          slot_size = charged_size enc k version (snd w)\<rparr>))"

definition total_after :: "('v \<Rightarrow> string) \<Rightarrow> 'v store \<Rightarrow> (string \<times> 'v option) list \<Rightarrow> int" where
  "total_after enc s writes =
     st_bytes s + sum_list (map (\<lambda>w. slot_size (snd (replacement enc s w)) - slot_size (slot_of s (fst w))) writes)"

definition versions_match :: "'v store \<Rightarrow> (string \<times> int) list \<Rightarrow> bool" where
  "versions_match s expected = list_all (\<lambda>(k, v). version_at s k = v) expected"

definition commit_writes ::
  "('v \<Rightarrow> string) \<Rightarrow> 'v store \<Rightarrow> (string \<times> 'v option) list \<Rightarrow> 'v store" where
  "commit_writes enc s writes =
     s\<lparr>st_records := dict_update (st_records s) (map (replacement enc s) writes),
       st_bytes := total_after enc s writes,
       st_revision := (if writes = [] then st_revision s else st_revision s + 1)\<rparr>"

text \<open>The checks of \<open>compare_exchange\<close> up to its verdict: an error, a mismatch, or go ahead.\<close>

definition exchange_verdict ::
  "('v \<Rightarrow> string) \<Rightarrow> (string \<times> int) list \<Rightarrow> (string \<times> 'v option) list \<Rightarrow> 'v store \<Rightarrow> exn + bool" where
  "exchange_verdict enc expected writes s =
     bind_result (check_all (\<lambda>(k, v). bind_result (check_key k) (\<lambda>_. check_version v)) expected) (\<lambda>_.
     bind_result (check_all (\<lambda>(k, v). check_key k) writes) (\<lambda>_.
     bind_result (check_that (set (map fst writes) \<subseteq> set (map fst expected)) ValueError) (\<lambda>_.
     bind_result (require_open s) (\<lambda>_.
     if \<not> versions_match s expected then Inr False
     else bind_result (check_that (total_after enc s writes \<le> st_max_bytes s) StoreCapacityError) (\<lambda>_.
       Inr True)))))"

definition compare_exchange ::
  "('v \<Rightarrow> string) \<Rightarrow> (string \<times> int) list \<Rightarrow> (string \<times> 'v option) list \<Rightarrow> ('v store, bool) prog" where
  "compare_exchange enc expected writes s =
     (case exchange_verdict enc expected writes s of
        Inl e \<Rightarrow> (Inl e, s)
      | Inr ok \<Rightarrow> (Inr ok, if ok then commit_writes enc s writes else s))"

definition list_keys ::
  "string \<Rightarrow> string option \<Rightarrow> int \<Rightarrow> int option \<Rightarrow> 'v store \<Rightarrow> exn + key_page" where
  "list_keys prefix after limit revision s =
     bind_result (check_that (length prefix \<le> 256) ValueError) (\<lambda>_.
     bind_result (case after of None \<Rightarrow> Inr ()
        | Some a \<Rightarrow> bind_result (check_key a) (\<lambda>_. check_that (revision \<noteq> None) ValueError)) (\<lambda>_.
     bind_result (check_that (1 \<le> limit \<and> limit \<le> MAX_PAGE_KEYS) ValueError) (\<lambda>_.
     bind_result (case revision of None \<Rightarrow> Inr () | Some r \<Rightarrow> check_version r) (\<lambda>_.
     bind_result (require_open s) (\<lambda>_.
     bind_result (check_that (case revision of None \<Rightarrow> True | Some r \<Rightarrow> r = st_revision s)
                   StoreConflictError) (\<lambda>_.
       let keys = sort (map fst (filter (\<lambda>(k, r). slot_value r \<noteq> None \<and> starts_with prefix k
                     \<and> (case after of None \<Rightarrow> True | Some a \<Rightarrow> a < k)) (st_records s)));
           page = take (nat limit) keys
       in Inr \<lparr>page_keys = page,
               page_next_after = (if int (length keys) > limit then Some (last page) else None),
               page_revision = st_revision s\<rparr>))))))"

definition close_store :: "'v store \<Rightarrow> 'v store" where
  "close_store s = s\<lparr>st_closed := True, st_records := [], st_bytes := 0\<rparr>"

section \<open>Lookups after an exchange\<close>

lemma check_all_Inr: "check_all f xs = Inr u \<longleftrightarrow> (\<forall>x\<in>set xs. f x = Inr ())"
  by (induction xs) (auto simp: bind_result_Inr)

lemma check_all_Inl: "check_all f xs = Inl e \<Longrightarrow> \<exists>x\<in>set xs. f x = Inl e"
  by (induction xs) (auto simp: bind_result_Inl)

lemma check_key_Inr [simp]: "check_key k = Inr u \<longleftrightarrow> k \<noteq> [] \<and> length k \<le> 256"
  by (simp add: check_key_def)

lemma check_version_Inr [simp]: "check_version v = Inr u \<longleftrightarrow> 0 \<le> v"
  by (simp add: check_version_def)

lemma require_open_Inr [simp]: "require_open s = Inr u \<longleftrightarrow> \<not> st_closed s"
  by (simp add: require_open_def)

lemma fst_replacement [simp]: "fst (replacement enc s w) = fst w"
  by (simp add: replacement_def Let_def)

lemma slot_version_replacement [simp]:
  "slot_version (snd (replacement enc s w)) = version_at s (fst w) + 1"
  by (simp add: replacement_def Let_def)

lemma slot_value_replacement [simp]: "slot_value (snd (replacement enc s w)) = snd w"
  by (simp add: replacement_def Let_def)

lemma map_of_replacements:
  "map_of (map (replacement enc s) writes) k =
     map_option (\<lambda>v. snd (replacement enc s (k, v))) (map_of writes k)"
  by (induction writes) (auto simp: replacement_def Let_def)

lemma slot_of_commit:
  assumes "distinct (map fst writes)"
  shows "slot_of (commit_writes enc s writes) k =
    (case map_of writes k of None \<Rightarrow> slot_of s k | Some v \<Rightarrow> snd (replacement enc s (k, v)))"
proof -
  have "distinct (map fst (map (replacement enc s) writes))"
    using assms by (simp add: comp_def)
  then show ?thesis
    by (simp add: slot_of_def commit_writes_def map_of_dict_update map_of_replacements
        split: option.splits)
qed

lemma slot_of_commit_written:
  assumes "k \<in> fst ` set writes"
  shows "\<exists>v. (k, v) \<in> set writes \<and>
    slot_of (commit_writes enc s writes) k = snd (replacement enc s (k, v))"
proof -
  have "map_of (rev writes) k \<noteq> None"
    using assms by (auto simp: map_of_eq_None_iff)
  then obtain v where "map_of (rev writes) k = Some v" by blast
  moreover from this have "map_of (rev (map (replacement enc s) writes)) k = Some (snd (replacement enc s (k, v)))"
    by (simp add: rev_map map_of_replacements)
  moreover have "(k, v) \<in> set writes"
    using calculation(1) by (auto dest: map_of_SomeD)
  ultimately show ?thesis
    by (auto simp: slot_of_def commit_writes_def map_of_dict_update_rev)
qed

lemma slot_of_commit_kept:
  "k \<notin> fst ` set writes \<Longrightarrow> slot_of (commit_writes enc s writes) k = slot_of s k"
  by (simp add: slot_of_def commit_writes_def map_of_dict_update_other image_image)

lemma version_commit:
  "version_at (commit_writes enc s writes) k =
     version_at s k + (if k \<in> fst ` set writes then 1 else 0)"
  using slot_of_commit_written[of k writes enc s] slot_of_commit_kept[of k writes enc s]
  by (cases "k \<in> fst ` set writes") auto

lemma value_commit:
  "distinct (map fst writes) \<Longrightarrow> value_at (commit_writes enc s writes) k =
     (case map_of writes k of None \<Rightarrow> value_at s k | Some v \<Rightarrow> v)"
  by (simp add: slot_of_commit split: option.splits)

lemma commit_frame [simp]:
  "st_closed (commit_writes enc s writes) = st_closed s"
  "st_max_bytes (commit_writes enc s writes) = st_max_bytes s"
  by (simp_all add: commit_writes_def)

lemma live_values_lookup: "map_of (live_values s ks) k = (if k \<in> set ks then value_at s k else None)"
  by (induction ks) (auto split: option.splits)

lemma store_snapshot_Inr:
  "store_snapshot s keys = Inr sn \<longleftrightarrow>
     (\<forall>k\<in>set keys. k \<noteq> [] \<and> length k \<le> 256) \<and> distinct keys \<and> \<not> st_closed s \<and>
     sn = \<lparr>snap_values = live_values s keys, snap_versions = map (\<lambda>k. (k, version_at s k)) keys\<rparr>"
  by (auto simp: store_snapshot_def bind_result_Inr check_all_Inr)

lemma exchange_verdict_True:
  "exchange_verdict enc expected writes s = Inr True \<longleftrightarrow>
     (\<forall>(k, v)\<in>set expected. k \<noteq> [] \<and> length k \<le> 256 \<and> 0 \<le> v) \<and>
     (\<forall>(k, v)\<in>set writes. k \<noteq> [] \<and> length k \<le> 256) \<and>
     fst ` set writes \<subseteq> fst ` set expected \<and> \<not> st_closed s \<and> versions_match s expected \<and>
     total_after enc s writes \<le> st_max_bytes s"
  unfolding exchange_verdict_def bind_result_Inr check_all_Inr
  by (simp add: bind_result_Inr split_beta image_def)

lemma exchange_verdict_False:
  "exchange_verdict enc expected writes s = Inr False \<Longrightarrow> \<not> st_closed s \<and> \<not> versions_match s expected"
  by (auto simp: exchange_verdict_def bind_result_Inr split: if_splits)

lemma compare_exchange_True:
  "compare_exchange enc expected writes s = (Inr True, s') \<longleftrightarrow>
     exchange_verdict enc expected writes s = Inr True \<and> s' = commit_writes enc s writes"
  by (auto simp: compare_exchange_def split: sum.splits)

lemma compare_exchange_False:
  "compare_exchange enc expected writes s = (Inr False, s') \<longleftrightarrow>
     exchange_verdict enc expected writes s = Inr False \<and> s' = s"
  by (auto simp: compare_exchange_def split: sum.splits)

lemma compare_exchange_error:
  "compare_exchange enc expected writes s = (Inl e, s') \<longleftrightarrow>
     exchange_verdict enc expected writes s = Inl e \<and> s' = s"
  by (auto simp: compare_exchange_def split: sum.splits)

lemmas compare_exchange_outcomes =
  compare_exchange_True compare_exchange_False compare_exchange_error

section \<open>The byte account\<close>

text \<open>A sum over the records, and how an update changes it.\<close>

definition slots_sum :: "('v slot \<Rightarrow> int) \<Rightarrow> (string \<times> 'v slot) list \<Rightarrow> int" where
  "slots_sum f d = sum_list (map (\<lambda>p. f (snd p)) d)"

abbreviation slots_bytes :: "(string \<times> 'v slot) list \<Rightarrow> int" where
  "slots_bytes \<equiv> slots_sum slot_size"

definition slot_charge :: "('v \<Rightarrow> string) \<Rightarrow> string \<Rightarrow> 'v slot \<Rightarrow> bool" where
  "slot_charge enc k r =
     (1 \<le> slot_version r \<and> slot_size r = charged_size enc k (slot_version r) (slot_value r))"

text \<open>Well-formedness of a store.\<close>

definition store_ok :: "('v \<Rightarrow> string) \<Rightarrow> 'v store \<Rightarrow> bool" where
  "store_ok enc s =
     (distinct (map fst (st_records s)) \<and> list_all (\<lambda>(k, r). slot_charge enc k r) (st_records s)
      \<and> st_bytes s = slots_bytes (st_records s) \<and> st_bytes s \<le> st_max_bytes s
      \<and> 0 \<le> st_revision s \<and> (st_closed s \<longrightarrow> st_records s = []))"

lemma slots_sum_update:
  "distinct (map fst d) \<Longrightarrow> slots_sum f (AList.update k r d) =
     slots_sum f d + f r - (case map_of d k of None \<Rightarrow> 0 | Some o' \<Rightarrow> f o')"
proof (induction d)
  case (Cons p d)
  then have "map_of d (fst p) = None" by (auto simp: map_of_eq_None_iff)
  with Cons show ?case
    by (cases p) (auto simp: slots_sum_def split: option.splits)
qed (simp add: slots_sum_def)

lemma slots_sum_dict_update:
  assumes "distinct (map fst d)" "distinct (map fst ws)"
  shows "slots_sum f (dict_update d ws) = slots_sum f d +
    sum_list (map (\<lambda>(k, r). f r - (case map_of d k of None \<Rightarrow> 0 | Some o' \<Rightarrow> f o')) ws)"
  using assms
proof (induction ws arbitrary: d)
  case (Cons w ws)
  obtain k r where w: "w = (k, r)" by (cases w)
  have same: "map_of (AList.update k r d) k' = map_of d k'" if "k' \<in> fst ` set ws" for k'
    using that Cons.prems w by (auto simp: update_conv')
  let ?gain = "\<lambda>d (k, r). f r - (case map_of d k of None \<Rightarrow> 0 | Some o' \<Rightarrow> f o')"
  have "map (?gain (AList.update k r d)) ws = map (?gain d) ws"
  proof (rule map_cong[OF refl])
    fix p assume "p \<in> set ws"
    then have "fst p \<in> fst ` set ws" by (rule imageI)
    from same[OF this] show "?gain (AList.update k r d) p = ?gain d p"
      by (simp add: split_beta)
  qed
  moreover have "slots_sum f (dict_update (AList.update k r d) ws) = slots_sum f (AList.update k r d) +
      sum_list (map (?gain (AList.update k r d)) ws)"
    using Cons.prems w by (intro Cons.IH) (auto simp: distinct_update)
  ultimately have "slots_sum f (dict_update (AList.update k r d) ws) =
      slots_sum f (AList.update k r d) + sum_list (map (?gain d) ws)"
    by (simp only:)
  with w Cons.prems(1) show ?case by (simp add: slots_sum_update)
qed simp

lemma slot_size_slot_of:
  "slot_size (slot_of s k) = (case map_of (st_records s) k of None \<Rightarrow> 0 | Some o' \<Rightarrow> slot_size o')"
  by (simp add: slot_of_def no_slot_def split: option.splits)

lemma slots_bytes_commit:
  assumes "distinct (map fst (st_records s))" "distinct (map fst writes)"
    and "st_bytes s = slots_bytes (st_records s)"
  shows "st_bytes (commit_writes enc s writes) = slots_bytes (st_records (commit_writes enc s writes))"
proof -
  have "distinct (map fst (map (replacement enc s) writes))"
    using assms(2) by (simp add: comp_def)
  with assms show ?thesis
    by (simp add: commit_writes_def slots_sum_dict_update total_after_def slot_size_slot_of
        split_beta comp_def)
qed

lemma store_ok_version: "store_ok enc s \<Longrightarrow> 0 \<le> version_at s k"
  by (auto simp: store_ok_def slot_of_def no_slot_def slot_charge_def list_all_iff
      split: option.splits dest!: map_of_SomeD)

lemma store_ok_live_version: "store_ok enc s \<Longrightarrow> value_at s k = Some v \<Longrightarrow> 1 \<le> version_at s k"
  by (auto simp: store_ok_def slot_of_def no_slot_def slot_charge_def list_all_iff
      split: option.splits dest!: map_of_SomeD)

lemma list_all_alist_update:
  "list_all P d \<Longrightarrow> P (k, r) \<Longrightarrow> list_all P (AList.update k r d)"
  by (induction d) auto

lemma list_all_dict_update:
  "list_all P d \<Longrightarrow> list_all P ws \<Longrightarrow> list_all P (dict_update d ws)"
  by (induction ws arbitrary: d) (auto simp: list_all_alist_update)

lemma charge_replacement:
  "store_ok enc s \<Longrightarrow> slot_charge enc (fst w) (snd (replacement enc s w))"
  using store_ok_version[of enc s "fst w"] by (simp add: slot_charge_def replacement_def Let_def)

lemma store_ok_commit:
  assumes ok: "store_ok enc s" and open_s: "\<not> st_closed s" and dw: "distinct (map fst writes)"
    and cap: "total_after enc s writes \<le> st_max_bytes s"
  shows "store_ok enc (commit_writes enc s writes)"
proof -
  let ?t = "commit_writes enc s writes"
  have "distinct (map fst (st_records ?t))"
    using ok by (simp add: store_ok_def commit_writes_def distinct_dict_update)
  moreover have "list_all (\<lambda>(k, r). slot_charge enc k r) (st_records ?t)"
  proof -
    have "list_all (\<lambda>(k, r). slot_charge enc k r) (map (replacement enc s) writes)"
      using charge_replacement[OF ok] by (simp add: list_all_iff split_beta)
    with ok have "list_all (\<lambda>(k, r). slot_charge enc k r)
        (dict_update (st_records s) (map (replacement enc s) writes))"
      by (intro list_all_dict_update) (simp_all add: store_ok_def)
    then show ?thesis by (simp add: commit_writes_def)
  qed
  moreover have "st_bytes ?t = slots_bytes (st_records ?t)"
    using ok dw by (intro slots_bytes_commit) (auto simp: store_ok_def)
  moreover have "st_bytes ?t \<le> st_max_bytes ?t"
    using cap by (simp add: commit_writes_def)
  moreover have "0 \<le> st_revision ?t"
    using ok by (simp add: commit_writes_def store_ok_def)
  ultimately show ?thesis using open_s by (simp add: store_ok_def)
qed

section \<open>What a client may rely on\<close>

text \<open>
  \<open>evolves\<close>: the store \<open>t\<close> is a later state of \<open>s\<close>. Unless it was closed in between, no version
  went back, and a cell whose version is unchanged holds what it held.
\<close>

definition evolves ::
  "('s \<Rightarrow> 'k \<Rightarrow> int) \<Rightarrow> ('s \<Rightarrow> 'k \<Rightarrow> 'v option) \<Rightarrow> ('s \<Rightarrow> bool) \<Rightarrow> 's \<Rightarrow> 's \<Rightarrow> bool" where
  "evolves version cell live s t =
     (live t \<longrightarrow> live s \<and> (\<forall>k. version s k \<le> version t k
        \<and> (version s k = version t k \<longrightarrow> cell s k = cell t k)))"

locale versioned_cells =
  fixes version :: "'s \<Rightarrow> 'k \<Rightarrow> int"
    and cell :: "'s \<Rightarrow> 'k \<Rightarrow> 'v option"
    and live :: "'s \<Rightarrow> bool"
    and exchange :: "('k \<times> int) list \<Rightarrow> ('k \<times> 'v option) list \<Rightarrow> 's \<Rightarrow> (exn + bool) \<times> 's"
  assumes taken: "exchange ex ws s = (Inr True, t) \<Longrightarrow>
      live s \<and> live t \<and> (\<forall>(k, v)\<in>set ex. version s k = v) \<and> fst ` set ws \<subseteq> fst ` set ex"
    and version_step: "exchange ex ws s = (Inr True, t) \<Longrightarrow>
      version t k = version s k + (if k \<in> fst ` set ws then 1 else 0)"
    and cell_step: "exchange ex ws s = (Inr True, t) \<Longrightarrow> distinct (map fst ws) \<Longrightarrow>
      cell t k = (case map_of ws k of None \<Rightarrow> cell s k | Some v \<Rightarrow> v)"
    and cell_kept: "exchange ex ws s = (Inr True, t) \<Longrightarrow> k \<notin> fst ` set ws \<Longrightarrow> cell t k = cell s k"
    and refused: "exchange ex ws s = (r, t) \<Longrightarrow> r \<noteq> Inr True \<Longrightarrow> t = s"
begin

lemma evolves_refl: "evolves version cell live s s"
  by (simp add: evolves_def)

lemma evolves_trans:
  assumes "evolves version cell live s t" "evolves version cell live t u"
  shows "evolves version cell live s u"
  unfolding evolves_def
proof (intro impI conjI allI)
  assume "live u"
  with assms have t: "live t" "\<And>k. version t k \<le> version u k"
    "\<And>k. version t k = version u k \<Longrightarrow> cell t k = cell u k"
    by (auto simp: evolves_def)
  with assms have s: "live s" "\<And>k. version s k \<le> version t k"
    "\<And>k. version s k = version t k \<Longrightarrow> cell s k = cell t k"
    by (auto simp: evolves_def)
  show "live s" by (rule s)
  fix k
  show "version s k \<le> version u k" using s(2) t(2) by (rule order_trans)
  assume "version s k = version u k"
  with s(2)[of k] t(2)[of k] have "version s k = version t k" "version t k = version u k" by simp_all
  with s(3) t(3) show "cell s k = cell u k" by simp
qed

lemma exchange_evolves:
  assumes "exchange ex ws s = (r, t)"
  shows "evolves version cell live s t"
proof (cases "r = Inr True")
  case True
  with assms have ex: "exchange ex ws s = (Inr True, t)" by simp
  show ?thesis
    unfolding evolves_def
  proof (intro impI conjI allI)
    show "live s" using taken[OF ex] by simp
    fix k
    show "version s k \<le> version t k" using version_step[OF ex] by simp
    assume "version s k = version t k"
    then have "k \<notin> fst ` set ws" using version_step[OF ex] by (auto split: if_splits)
    then show "cell s k = cell t k" using cell_kept[OF ex] by simp
  qed
next
  case False
  with assms refused have "t = s" by blast
  then show ?thesis by (simp add: evolves_refl)
qed

text \<open>
  The law a read-compute-exchange client lives on: an exchange that names the versions of an
  earlier state only goes through while the named cells still hold what was read.
\<close>

lemma exchange_current:
  assumes "evolves version cell live s t" "exchange ex ws t = (Inr True, u)"
    and "(k, version s k) \<in> set ex"
  shows "cell t k = cell s k"
proof -
  have "live t" and "version t k = version s k"
    using taken[OF assms(2)] assms(3) by auto
  with assms(1) show ?thesis by (simp add: evolves_def)
qed

lemma lost_update_refused:
  assumes "evolves version cell live s t" "cell t k \<noteq> cell s k" "(k, version s k) \<in> set ex"
  shows "exchange ex ws t \<noteq> (Inr True, u)"
  using exchange_current[OF assms(1) _ assms(3)] assms(2) by blast

end

abbreviation store_live :: "'v store \<Rightarrow> bool" where
  "store_live s \<equiv> \<not> st_closed s"

abbreviation store_evolves :: "'v store \<Rightarrow> 'v store \<Rightarrow> bool" where
  "store_evolves \<equiv> evolves version_at value_at store_live"

interpretation mem: versioned_cells version_at value_at store_live "compare_exchange enc" for enc
proof
  fix ex :: "(string \<times> int) list" and ws :: "(string \<times> 'a option) list" and s t r k
  show "compare_exchange enc ex ws s = (Inr True, t) \<Longrightarrow>
      store_live s \<and> store_live t \<and> (\<forall>(k, v)\<in>set ex. version_at s k = v) \<and> fst ` set ws \<subseteq> fst ` set ex"
    by (auto simp: compare_exchange_True exchange_verdict_True versions_match_def list_all_iff)
  show "compare_exchange enc ex ws s = (Inr True, t) \<Longrightarrow> k \<notin> fst ` set ws \<Longrightarrow>
      value_at t k = value_at s k"
    by (simp add: compare_exchange_True slot_of_commit_kept)
  show "compare_exchange enc ex ws s = (Inr True, t) \<Longrightarrow>
      version_at t k = version_at s k + (if k \<in> fst ` set ws then 1 else 0)"
    by (simp add: compare_exchange_True version_commit)
  show "compare_exchange enc ex ws s = (Inr True, t) \<Longrightarrow> distinct (map fst ws) \<Longrightarrow>
      value_at t k = (case map_of ws k of None \<Rightarrow> value_at s k | Some v \<Rightarrow> v)"
    by (simp add: compare_exchange_True value_commit)
  show "compare_exchange enc ex ws s = (r, t) \<Longrightarrow> r \<noteq> Inr True \<Longrightarrow> t = s"
    by (auto simp: compare_exchange_def split: sum.splits)
qed

lemma close_evolves: "store_evolves s (close_store s)"
  by (simp add: evolves_def close_store_def)

lemma store_ok_close: "store_ok enc s \<Longrightarrow> 0 \<le> st_max_bytes s \<Longrightarrow> store_ok enc (close_store s)"
  by (simp add: store_ok_def close_store_def slots_sum_def)

lemma store_ok_exchange:
  assumes "store_ok enc s" "compare_exchange enc ex ws s = (r, t)" "distinct (map fst ws)"
  shows "store_ok enc t"
proof (cases "r = Inr True")
  case True
  with assms show ?thesis
    by (auto simp: compare_exchange_True exchange_verdict_True intro!: store_ok_commit)
next
  case False
  with assms mem.refused show ?thesis by blast
qed

lemma store_ok_new: "new_store m = Inr s \<Longrightarrow> store_ok enc s"
  by (auto simp: new_store_def bind_result_Inr store_ok_def slots_sum_def)

section \<open>Key listings\<close>

text \<open>The live keys under a prefix, in order.\<close>

definition live_keys :: "string \<Rightarrow> 'v store \<Rightarrow> string list" where
  "live_keys prefix s =
     sort (map fst (filter (\<lambda>(k, r). slot_value r \<noteq> None \<and> starts_with prefix k) (st_records s)))"

definition keys_after :: "string option \<Rightarrow> string list \<Rightarrow> string list" where
  "keys_after after ks = filter (\<lambda>k. case after of None \<Rightarrow> True | Some a \<Rightarrow> a < k) ks"

lemma sorted_live_keys [simp]: "sorted (live_keys prefix s)"
  by (simp add: live_keys_def)

lemma distinct_live_keys: "store_ok enc s \<Longrightarrow> distinct (live_keys prefix s)"
  by (simp add: live_keys_def store_ok_def distinct_map_filter)

lemma set_live_keys:
  assumes "store_ok enc s"
  shows "set (live_keys prefix s) = {k. value_at s k \<noteq> None \<and> starts_with prefix k}"
proof (intro equalityI subsetI)
  fix k assume "k \<in> set (live_keys prefix s)"
  then obtain r where r: "(k, r) \<in> set (st_records s)" "slot_value r \<noteq> None" "starts_with prefix k"
    by (auto simp: live_keys_def)
  moreover have "map_of (st_records s) k = Some r"
    using assms r(1) by (simp add: store_ok_def)
  ultimately show "k \<in> {k. value_at s k \<noteq> None \<and> starts_with prefix k}"
    by (simp add: slot_of_def)
next
  fix k assume k: "k \<in> {k. value_at s k \<noteq> None \<and> starts_with prefix k}"
  then obtain r where "map_of (st_records s) k = Some r" "slot_value r \<noteq> None"
    by (auto simp: slot_of_def no_slot_def split: option.splits)
  with k show "k \<in> set (live_keys prefix s)"
    by (force simp: live_keys_def dest: map_of_SomeD)
qed

lemma list_keys_Inr:
  "list_keys prefix after limit revision s = Inr p \<longleftrightarrow>
     length prefix \<le> 256 \<and>
     (\<forall>a. after = Some a \<longrightarrow> a \<noteq> [] \<and> length a \<le> 256 \<and> revision \<noteq> None) \<and>
     1 \<le> limit \<and> limit \<le> MAX_PAGE_KEYS \<and> (\<forall>r. revision = Some r \<longrightarrow> 0 \<le> r \<and> r = st_revision s) \<and>
     \<not> st_closed s \<and>
     p = (let keys = keys_after after (live_keys prefix s); page = take (nat limit) keys
          in \<lparr>page_keys = page,
              page_next_after = (if int (length keys) > limit then Some (last page) else None),
              page_revision = st_revision s\<rparr>)"
proof -
  have "sort (map fst (filter (\<lambda>(k, r). slot_value r \<noteq> None \<and> starts_with prefix k
          \<and> (case after of None \<Rightarrow> True | Some a \<Rightarrow> a < k)) (st_records s)))
      = keys_after after (live_keys prefix s)"
    unfolding keys_after_def live_keys_def split_def
    by (simp add: filter_sort filter_map comp_def conj_assoc conj_left_commute)
  then show ?thesis
    by (auto simp: list_keys_def bind_result_Inr Let_def split: option.splits)
qed

lemma list_keys_error_revision:
  "list_keys prefix after limit (Some r) s = Inr p \<Longrightarrow> r = st_revision s"
  by (auto simp: list_keys_Inr)

lemma keys_after_last:
  fixes ks :: "string list"
  assumes "sorted ks" "distinct ks" "0 < n" "n < length ks"
  shows "keys_after (Some (last (take n ks))) ks = drop n ks"
proof -
  let ?a = "last (take n ks)"
  have "take n ks \<noteq> []"
    using assms by auto
  then have a: "?a = ks ! (n - 1)"
    using assms by (simp add: last_conv_nth)
  have "filter (\<lambda>k. ?a < k) (take n ks) = []"
  proof (rule filter_False, rule ballI)
    fix k assume "k \<in> set (take n ks)"
    then obtain i where "i < n" "k = ks ! i"
      using assms by (auto simp: in_set_conv_nth)
    then have "k \<le> ks ! (n - 1)"
      using assms sorted_nth_mono[of ks i "n - 1"] by simp
    then show "\<not> ?a < k" using a by auto
  qed
  moreover have "filter (\<lambda>k. ?a < k) (drop n ks) = drop n ks"
  proof (rule filter_True, rule ballI)
    fix k assume "k \<in> set (drop n ks)"
    then obtain i where "i < length (drop n ks)" "k = drop n ks ! i"
      by (metis in_set_conv_nth)
    then have i: "n + i < length ks" "k = ks ! (n + i)"
      by simp_all
    have "ks ! (n - 1) < ks ! (n + i)"
      using assms i(1) by (simp add: sorted_wrt_nth_less strict_sorted_iff)
    then show "?a < k" using a i by simp
  qed
  ultimately show ?thesis
    unfolding keys_after_def option.case
    by (metis append_take_drop_id filter_append append_Nil)
qed

end
