(* ===== verification/Consent_Records.thy ===== *)
theory Consent_Records
  imports Preparation State_Store
begin

text \<open>
  The data of \<open>_application/consent.py\<close>: identities, policies, decisions, admission proofs, and
  the JSON records the consent service keeps in its store. The code writes those records as
  dictionaries with fixed keys; here each kind is a record, \<open>consent_value\<close> is their tagged
  union and \<open>consent_json\<close> the dictionary that is stored. A key the code adds later
  (\<open>grant_id\<close>, \<open>invocation_id\<close>, \<open>revoked\<close>, \<open>delivery_generation\<close>) is an optional field.
\<close>

section \<open>Limits\<close>

definition MAX_PREPARED_OPERATIONS :: int where "MAX_PREPARED_OPERATIONS = 128"
definition MAX_GRANTS :: int where "MAX_GRANTS = 128"
definition MAX_REQUEST_IDENTITIES :: int where "MAX_REQUEST_IDENTITIES = 4096"
definition MAX_REVIEW_BYTES :: int where "MAX_REVIEW_BYTES = 7000"

definition CONTEXT :: string where "CONTEXT = ''consent/context''"

section \<open>Identity and policy\<close>

datatype consent_scope = OperationScope | CommandScope

fun scope_value :: "consent_scope \<Rightarrow> string" where
  "scope_value OperationScope = ''operation''"
| "scope_value CommandScope = ''command''"

record consent_owner =
  ow_brain_id :: string
  ow_vault_root :: string
  ow_principal :: string
  ow_context_id :: string
  ow_kind :: string

record consent_identity =
  ci_brain_id :: string
  ci_vault_root :: string
  ci_principal :: string
  ci_context_id :: string
  ci_kind :: string
  ci_permission_generation :: string
  ci_interface_generation :: string

definition check_identity :: "consent_identity \<Rightarrow> exn + consent_identity" where
  "check_identity i =
     bind_result (check_that (list_all (\<lambda>value. value \<noteq> [])
        [ci_brain_id i, ci_vault_root i, ci_principal i, ci_context_id i,
         ci_permission_generation i, ci_interface_generation i]) ValueError) (\<lambda>_.
     bind_result (check_that (ci_kind i \<in> {''mcp-instance'', ''cli-job'', ''standalone''}) ValueError) (\<lambda>_.
     Inr i))"

definition owner_of :: "consent_identity \<Rightarrow> consent_owner" where
  "owner_of i = \<lparr>ow_brain_id = ci_brain_id i, ow_vault_root = ci_vault_root i,
     ow_principal = ci_principal i, ow_context_id = ci_context_id i, ow_kind = ci_kind i\<rparr>"

record consent_policy =
  cp_ceiling_profile :: string
  cp_permissions :: "string set"
  cp_initial :: "string set"
  cp_initial_mode :: string
  cp_request_policy :: string
  cp_controls :: "string set"

definition check_policy :: "consent_policy \<Rightarrow> exn + consent_policy" where
  "check_policy p =
     bind_result (check_that (cp_initial p \<subseteq> cp_permissions p) ValueError) (\<lambda>_.
     bind_result (check_that (\<forall>command \<in> cp_permissions p \<union> cp_controls p. command_id_pattern command)
                   ValueError) (\<lambda>_.
     bind_result (check_that (cp_request_policy p \<in> {''allowed'', ''denied'', ''migration_required''})
                   ValueError) (\<lambda>_.
     bind_result (check_that (cp_ceiling_profile p \<noteq> [] \<and>
                    cp_initial_mode p \<in> {''normal'', ''read-only'', ''explicit''}) ValueError) (\<lambda>_.
     Inr p))))"

section \<open>Decisions and proofs\<close>

record consent_decision =
  cd_state :: string
  cd_command_id :: string
  cd_scope :: consent_scope
  cd_grant_id :: "string option"
  cd_operation_id :: "string option"
  cd_reason :: "string option"
  cd_changed :: bool

text \<open>The basis of an admission: initial authorisation or a grant of one of the two scopes.\<close>

datatype admission_basis = InitialBasis | GrantBasis consent_scope

record admission_proof =
  ap_command_id :: string
  ap_command_version :: int
  ap_invocation_id :: string
  ap_generation :: string
  ap_basis :: admission_basis
  ap_grant_id :: "string option"
  ap_operation_id :: "string option"
  ap_request_id :: "string option"

section \<open>Stored records\<close>

datatype record_state =
    Prepared | Authorised | Reserved | Entered | Spent | Revoked | Invalidated | Discarding | Discarded

fun state_value :: "record_state \<Rightarrow> string" where
  "state_value Prepared = ''prepared''"
| "state_value Authorised = ''authorised''"
| "state_value Reserved = ''reserved''"
| "state_value Entered = ''entered''"
| "state_value Spent = ''spent''"
| "state_value Revoked = ''revoked''"
| "state_value Invalidated = ''invalidated''"
| "state_value Discarding = ''discarding''"
| "state_value Discarded = ''discarded''"

record consent_context =
  cx_owner :: consent_owner
  cx_generation :: string
  cx_permission_generation :: string
  cx_interface_generation :: string
  cx_contract_generation :: string
  cx_prepared_count :: int
  cx_grant_count :: int
  cx_request_count :: int
  cx_reduced :: "string list"
  cx_delivery_generation :: "int option"

record operation_record =
  op_operation_id :: string
  op_binding :: operation_binding
  op_digest :: string
  op_review :: string
  op_generation :: string
  op_state :: record_state
  op_pin_namespace :: "string option"
  op_grant_id :: "string option"
  op_invocation_id :: "string option"

record grant_record =
  gr_grant_id :: string
  gr_command_id :: string
  gr_command_version :: int
  gr_scope :: consent_scope
  gr_operation_id :: "string option"
  gr_generation :: string
  gr_request_id :: string
  gr_state :: record_state
  gr_revoked :: bool
  gr_invocation_id :: "string option"

record request_record =
  rq_command_id :: string
  rq_scope :: consent_scope
  rq_grant_id :: string
  rq_operation_id :: "string option"
  rq_generation :: string
  rq_fingerprint :: string

record retry_record =
  rt_operation_id :: string
  rt_digest :: string
  rt_request_digest :: string
  rt_generation :: string

datatype consent_value =
    VContext consent_context
  | VOperation operation_record
  | VGrant grant_record
  | VRequest request_record
  | VRetry retry_record
  | VCommand string

definition opt_json :: "string option \<Rightarrow> json" where
  "opt_json v = (case v of None \<Rightarrow> JNull | Some s \<Rightarrow> JStr s)"

definition opt_field :: "string \<Rightarrow> string option \<Rightarrow> (string \<times> json) list" where
  "opt_field k v = (case v of None \<Rightarrow> [] | Some s \<Rightarrow> [(k, JStr s)])"

definition owner_json :: "consent_owner \<Rightarrow> json" where
  "owner_json ow = JObj [(''brain_id'', JStr (ow_brain_id ow)), (''vault_root'', JStr (ow_vault_root ow)),
     (''principal'', JStr (ow_principal ow)), (''context_id'', JStr (ow_context_id ow)),
     (''kind'', JStr (ow_kind ow))]"

fun consent_json :: "consent_value \<Rightarrow> json" where
  "consent_json (VContext c) = JObj ([(''owner'', owner_json (cx_owner c)),
     (''generation'', JStr (cx_generation c)),
     (''permission_generation'', JStr (cx_permission_generation c)),
     (''interface_generation'', JStr (cx_interface_generation c)),
     (''contract_generation'', JStr (cx_contract_generation c)),
     (''prepared_count'', JInt (cx_prepared_count c)), (''grant_count'', JInt (cx_grant_count c)),
     (''request_count'', JInt (cx_request_count c)), (''reduced'', JArr (map JStr (cx_reduced c)))]
     @ (case cx_delivery_generation c of None \<Rightarrow> [] | Some n \<Rightarrow> [(''delivery_generation'', JInt n)]))"
| "consent_json (VOperation r) = JObj ([(''operation_id'', JStr (op_operation_id r)),
     (''binding'', binding_to_wire (op_binding r)), (''digest'', JStr (op_digest r)),
     (''review'', JStr (op_review r)), (''generation'', JStr (op_generation r)),
     (''state'', JStr (state_value (op_state r))), (''pin_namespace'', opt_json (op_pin_namespace r))]
     @ opt_field ''grant_id'' (op_grant_id r) @ opt_field ''invocation_id'' (op_invocation_id r))"
| "consent_json (VGrant g) = JObj ([(''grant_id'', JStr (gr_grant_id g)),
     (''command_id'', JStr (gr_command_id g)), (''command_version'', JInt (gr_command_version g)),
     (''scope'', JStr (scope_value (gr_scope g))), (''operation_id'', opt_json (gr_operation_id g)),
     (''generation'', JStr (gr_generation g)), (''request_id'', JStr (gr_request_id g)),
     (''state'', JStr (state_value (gr_state g)))]
     @ (if gr_revoked g then [(''revoked'', JBool True)] else [])
     @ opt_field ''invocation_id'' (gr_invocation_id g))"
| "consent_json (VRequest r) = JObj [(''state'', JStr ''authorised''),
     (''command_id'', JStr (rq_command_id r)), (''scope'', JStr (scope_value (rq_scope r))),
     (''grant_id'', JStr (rq_grant_id r)), (''operation_id'', opt_json (rq_operation_id r)),
     (''generation'', JStr (rq_generation r)), (''fingerprint'', JStr (rq_fingerprint r))]"
| "consent_json (VRetry r) = JObj [(''operation_id'', JStr (rt_operation_id r)),
     (''digest'', JStr (rt_digest r)), (''request_digest'', JStr (rt_request_digest r)),
     (''generation'', JStr (rt_generation r))]"
| "consent_json (VCommand g) = JObj [(''grant_id'', JStr g)]"

definition consent_enc :: "consent_value \<Rightarrow> string" where
  "consent_enc v = json_bytes (consent_json v)"

text \<open>\<open>record.get("grant_id")\<close> and \<open>record.get("operation_id")\<close> on whichever record a key holds.\<close>

fun value_grant_id :: "consent_value option \<Rightarrow> string option" where
  "value_grant_id (Some (VOperation r)) = op_grant_id r"
| "value_grant_id (Some (VGrant g)) = Some (gr_grant_id g)"
| "value_grant_id (Some (VRequest r)) = Some (rq_grant_id r)"
| "value_grant_id (Some (VCommand g)) = Some g"
| "value_grant_id _ = None"

fun value_operation_id :: "consent_value \<Rightarrow> string option" where
  "value_operation_id (VOperation r) = Some (op_operation_id r)"
| "value_operation_id (VGrant g) = gr_operation_id g"
| "value_operation_id (VRequest r) = rq_operation_id r"
| "value_operation_id (VRetry r) = Some (rt_operation_id r)"
| "value_operation_id _ = None"

type_synonym consent_values = "string \<Rightarrow> consent_value option"

definition find_operation :: "consent_values \<Rightarrow> string \<Rightarrow> operation_record option" where
  "find_operation vals k = (case vals k of Some (VOperation r) \<Rightarrow> Some r | _ \<Rightarrow> None)"

definition find_grant :: "consent_values \<Rightarrow> string \<Rightarrow> grant_record option" where
  "find_grant vals k = (case vals k of Some (VGrant g) \<Rightarrow> Some g | _ \<Rightarrow> None)"

definition find_request :: "consent_values \<Rightarrow> string \<Rightarrow> request_record option" where
  "find_request vals k = (case vals k of Some (VRequest r) \<Rightarrow> Some r | _ \<Rightarrow> None)"

definition find_retry :: "consent_values \<Rightarrow> string \<Rightarrow> retry_record option" where
  "find_retry vals k = (case vals k of Some (VRetry r) \<Rightarrow> Some r | _ \<Rightarrow> None)"

section \<open>Record keys\<close>

definition check_identifier :: "string \<Rightarrow> exn + string" where
  "check_identifier value = bind_result (check_that (value \<noteq> [] \<and> length value \<le> 128) ValueError) (\<lambda>_. Inr value)"

definition key_of :: "(string \<Rightarrow> string) \<Rightarrow> string \<Rightarrow> string \<Rightarrow> string" where
  "key_of hx prefix ident = ''consent/'' @ prefix @ ''/'' @ drop 7 (content_digest hx ident)"

text \<open>\<open>_key(prefix, identifier)\<close>.\<close>

definition consent_key :: "(string \<Rightarrow> string) \<Rightarrow> string \<Rightarrow> string \<Rightarrow> exn + string" where
  "consent_key hx prefix ident = bind_result (check_identifier ident) (\<lambda>v. Inr (key_of hx prefix v))"

lemma key_of_eq: "key_of hx prefix ident = ''consent/'' @ prefix @ ''/'' @ hx ident"
  by (simp add: key_of_def content_digest_def)

lemma check_identifier_Inr [simp]:
  "check_identifier v = Inr w \<longleftrightarrow> v \<noteq> [] \<and> length v \<le> 128 \<and> w = v"
  by (auto simp: check_identifier_def bind_result_Inr)

lemma consent_key_Inr [simp]:
  "consent_key hx p v = Inr k \<longleftrightarrow> v \<noteq> [] \<and> length v \<le> 128 \<and> k = key_of hx p v"
  by (auto simp: consent_key_def bind_result_Inr)

text \<open>The record kinds live in disjoint key spaces.\<close>

lemma key_spaces [simp]:
  "key_of hx ''operation'' a \<noteq> key_of hx ''grant'' b"
  "key_of hx ''grant'' b \<noteq> key_of hx ''operation'' a"
  "key_of hx ''request'' a \<noteq> key_of hx ''grant'' b"
  "key_of hx ''grant'' b \<noteq> key_of hx ''request'' a"
  "key_of hx ''command'' a \<noteq> key_of hx ''grant'' b"
  "key_of hx ''grant'' b \<noteq> key_of hx ''command'' a"
  "key_of hx ''preparation-request'' a \<noteq> key_of hx ''grant'' b"
  "key_of hx ''grant'' b \<noteq> key_of hx ''preparation-request'' a"
  "key_of hx ''request'' a \<noteq> key_of hx ''operation'' b"
  "key_of hx ''operation'' b \<noteq> key_of hx ''request'' a"
  "key_of hx ''command'' a \<noteq> key_of hx ''operation'' b"
  "key_of hx ''operation'' b \<noteq> key_of hx ''command'' a"
  "key_of hx ''preparation-request'' a \<noteq> key_of hx ''operation'' b"
  "key_of hx ''operation'' b \<noteq> key_of hx ''preparation-request'' a"
  "key_of hx ''request'' a \<noteq> key_of hx ''command'' b"
  "key_of hx ''command'' b \<noteq> key_of hx ''request'' a"
  "key_of hx ''preparation-request'' a \<noteq> key_of hx ''request'' b"
  "key_of hx ''request'' b \<noteq> key_of hx ''preparation-request'' a"
  "key_of hx ''preparation-request'' a \<noteq> key_of hx ''command'' b"
  "key_of hx ''command'' b \<noteq> key_of hx ''preparation-request'' a"
  by (simp_all add: key_of_eq)

lemma key_not_context [simp]:
  "key_of hx ''operation'' a \<noteq> CONTEXT" "CONTEXT \<noteq> key_of hx ''operation'' a"
  "key_of hx ''grant'' a \<noteq> CONTEXT" "CONTEXT \<noteq> key_of hx ''grant'' a"
  "key_of hx ''request'' a \<noteq> CONTEXT" "CONTEXT \<noteq> key_of hx ''request'' a"
  "key_of hx ''command'' a \<noteq> CONTEXT" "CONTEXT \<noteq> key_of hx ''command'' a"
  "key_of hx ''preparation-request'' a \<noteq> CONTEXT" "CONTEXT \<noteq> key_of hx ''preparation-request'' a"
  by (simp_all add: key_of_eq CONTEXT_def)

lemma key_of_inj [simp]: "key_of hx p a = key_of hx p b \<longleftrightarrow> hx a = hx b"
  by (simp add: key_of_eq)

end
