(* ===== verification/Consent_Service.thy ===== *)
theory Consent_Service
  imports Consent_Records
begin

text \<open>
  \<open>ConsentService\<close> of \<open>_application/consent.py\<close>, method by method.

  The service state holds what \<open>__init__\<close> stores plus the shared record store. Other clients of
  the same store run between any two accesses of this one: \<open>sv_env\<close> lists what they do, and one
  element is applied before each store access (the identity once the list is used up).
  \<open>sv_uuid\<close> is the stream of \<open>uuid.uuid4()\<close> values, \<open>sv_hex\<close> the SHA-256 hex digest and
  \<open>sv_refresh\<close> the optional authority callback, whose n-th call is \<open>f n\<close>.

  Each method that writes is split as in the code: a pure decision over the values read (the
  nested function given to \<open>_transaction\<close>, named \<open>..._change\<close> here) and the retry loop that
  publishes its writes with one compare-exchange.
\<close>

record svc =
  sv_hex :: "string \<Rightarrow> string"
  sv_uuid :: "nat \<Rightarrow> string"
  sv_uuids_drawn :: nat
  sv_identity :: consent_identity
  sv_policy :: consent_policy
  sv_versions :: "(string \<times> int) list"
  sv_refresh :: "(nat \<Rightarrow> exn + consent_identity \<times> consent_policy) option"
  sv_refreshes :: nat
  sv_store :: "consent_value store"
  sv_env :: "(consent_value store \<Rightarrow> consent_value store) list"

type_synonym writes = "(string \<times> consent_value option) list"

definition contract_generation :: "'x svc_scheme \<Rightarrow> string" where
  "contract_generation s = content_digest (sv_hex s)
     (canonical_json (JObj (map (\<lambda>(c, v). (c, JInt v)) (sv_versions s))))"

section \<open>Store access under interference\<close>

definition tick :: "'x svc_scheme \<Rightarrow> 'x svc_scheme" where
  "tick s = (case sv_env s of [] \<Rightarrow> s | f # fs \<Rightarrow> s\<lparr>sv_store := f (sv_store s), sv_env := fs\<rparr>)"

definition svc_snapshot :: "string list \<Rightarrow> ('x svc_scheme, consent_value snapshot) prog" where
  "svc_snapshot keys s = (let s1 = tick s in (store_snapshot (sv_store s1) keys, s1))"

definition svc_exchange :: "(string \<times> int) list \<Rightarrow> writes \<Rightarrow> ('x svc_scheme, bool) prog" where
  "svc_exchange expected writes s =
     (let s1 = tick s; (r, st) = compare_exchange consent_enc expected writes (sv_store s1)
      in (r, s1\<lparr>sv_store := st\<rparr>))"

definition svc_list_keys ::
  "string \<Rightarrow> string option \<Rightarrow> int \<Rightarrow> int option \<Rightarrow> ('x svc_scheme, key_page) prog" where
  "svc_list_keys prefix after limit revision s =
     (let s1 = tick s in (list_keys prefix after limit revision (sv_store s1), s1))"

definition draw_uuid :: "('x svc_scheme, string) prog" where
  "draw_uuid s = (Inr (sv_uuid s (sv_uuids_drawn s)), s\<lparr>sv_uuids_drawn := sv_uuids_drawn s + 1\<rparr>)"

definition vals_of :: "consent_value snapshot \<Rightarrow> consent_values" where
  "vals_of sn = map_of (snap_values sn)"

text \<open>\<open>values.get(_CONTEXT)\<close>, read as a context record.\<close>

definition get_context :: "consent_values \<Rightarrow> exn + consent_context option" where
  "get_context vals = (case vals CONTEXT of None \<Rightarrow> Inr None
     | Some (VContext c) \<Rightarrow> Inr (Some c) | Some _ \<Rightarrow> Inl KeyError)"

text \<open>\<open>values[_CONTEXT]\<close>\<close>

definition need_context :: "consent_values \<Rightarrow> exn + consent_context" where
  "need_context vals = (case vals CONTEXT of Some (VContext c) \<Rightarrow> Inr c | _ \<Rightarrow> Inl KeyError)"

section \<open>The authority context\<close>

definition refresh_authority :: "('x svc_scheme, unit) prog" where
  "refresh_authority s =
     (case sv_refresh s of
        None \<Rightarrow> (Inr (), s)
      | Some f \<Rightarrow>
          let s1 = s\<lparr>sv_refreshes := sv_refreshes s + 1\<rparr> in
          (case f (sv_refreshes s) of
             Inl e \<Rightarrow> (Inl e, s1)
           | Inr (identity, policy) \<Rightarrow>
               if owner_of identity \<noteq> owner_of (sv_identity s)
               then (Inl (ConsentError ''context_changed''), s1)
               else (Inr (), s1\<lparr>sv_identity := identity, sv_policy := policy\<rparr>)))"

definition context_current :: "'x svc_scheme \<Rightarrow> consent_context \<Rightarrow> bool" where
  "context_current s c =
     (cx_permission_generation c = ci_permission_generation (sv_identity s)
      \<and> cx_interface_generation c = ci_interface_generation (sv_identity s)
      \<and> cx_contract_generation c = contract_generation s)"

definition first_context :: "'x svc_scheme \<Rightarrow> string \<Rightarrow> consent_context" where
  "first_context s generation =
     \<lparr>cx_owner = owner_of (sv_identity s), cx_generation = generation,
      cx_permission_generation = ci_permission_generation (sv_identity s),
      cx_interface_generation = ci_interface_generation (sv_identity s),
      cx_contract_generation = contract_generation s,
      cx_prepared_count = 0, cx_grant_count = 0, cx_request_count = 0, cx_reduced = [],
      cx_delivery_generation = None\<rparr>"

definition renewed_context :: "'x svc_scheme \<Rightarrow> consent_context \<Rightarrow> string \<Rightarrow> consent_context" where
  "renewed_context s c generation =
     c\<lparr>cx_generation := generation,
       cx_permission_generation := ci_permission_generation (sv_identity s),
       cx_interface_generation := ci_interface_generation (sv_identity s),
       cx_contract_generation := contract_generation s\<rparr>"

text \<open>One round of the loop in \<open>_context\<close>: \<open>Inr None\<close> means that another client came first.\<close>

definition publish_context ::
  "consent_value snapshot \<Rightarrow> consent_context \<Rightarrow> ('x svc_scheme, consent_value snapshot option) prog" where
  "publish_context sn c =
     bind_prog (svc_exchange (snap_versions sn) [(CONTEXT, Some (VContext c))]) (\<lambda>ok.
     if ok then bind_prog (svc_snapshot [CONTEXT]) (\<lambda>sn'. return_prog (Some sn'))
     else return_prog None)"

definition context_round :: "('x svc_scheme, consent_value snapshot option) prog" where
  "context_round =
     bind_prog (svc_snapshot [CONTEXT]) (\<lambda>sn.
     bind_prog (\<lambda>s. (get_context (vals_of sn), s)) (\<lambda>found s.
       case found of
         None \<Rightarrow> bind_prog draw_uuid (\<lambda>u s'. publish_context sn (first_context s' u) s') s
       | Some c \<Rightarrow>
           if cx_owner c \<noteq> owner_of (sv_identity s) then (Inl (ConsentError ''foreign_context''), s)
           else if context_current s c then (Inr (Some sn), s)
           else bind_prog draw_uuid (\<lambda>u s'. publish_context sn (renewed_context s' c u) s') s))"

fun context_loop :: "nat \<Rightarrow> ('x svc_scheme, consent_value snapshot) prog" where
  "context_loop 0 = raise_prog (ConsentError ''conflict'')"
| "context_loop (Suc n) = bind_prog context_round (\<lambda>r.
     case r of Some sn \<Rightarrow> return_prog sn | None \<Rightarrow> context_loop n)"

text \<open>\<open>_context()\<close>\<close>

definition svc_context :: "('x svc_scheme, consent_value snapshot) prog" where
  "svc_context = bind_prog refresh_authority (\<lambda>_. context_loop 8)"

section \<open>The transaction loop\<close>

type_synonym ('x, 'r) change =
  "'x svc_scheme \<Rightarrow> consent_values \<Rightarrow> consent_context \<Rightarrow> exn + writes \<times> 'r"

definition transaction_round ::
  "string list \<Rightarrow> ('x, 'r) change \<Rightarrow> ('x svc_scheme, 'r option) prog" where
  "transaction_round keys change =
     bind_prog (svc_snapshot keys) (\<lambda>sn.
     bind_prog (\<lambda>s. (need_context (vals_of sn), s)) (\<lambda>c s.
       if \<not> context_current s c
       then bind_prog svc_context (\<lambda>_. return_prog None) s
       else bind_prog (\<lambda>s. (change s (vals_of sn) c, s)) (\<lambda>(writes, r).
            bind_prog (svc_exchange (snap_versions sn) writes) (\<lambda>ok.
            return_prog (if ok then Some r else None))) s))"

fun transaction_loop ::
  "nat \<Rightarrow> string list \<Rightarrow> ('x, 'r) change \<Rightarrow> ('x svc_scheme, 'r) prog" where
  "transaction_loop 0 keys change = raise_prog (ConsentError ''conflict'')"
| "transaction_loop (Suc n) keys change = bind_prog (transaction_round keys change) (\<lambda>r.
     case r of Some x \<Rightarrow> return_prog x | None \<Rightarrow> transaction_loop n keys change)"

text \<open>\<open>_transaction(keys, change)\<close>\<close>

definition transaction :: "string list \<Rightarrow> ('x, 'r) change \<Rightarrow> ('x svc_scheme, 'r) prog" where
  "transaction keys change =
     bind_prog svc_context (\<lambda>_. transaction_loop 8 (dict_fromkeys (CONTEXT # keys)) change)"

section \<open>Permission and validity\<close>

definition permission :: "'x svc_scheme \<Rightarrow> string \<Rightarrow> bool \<Rightarrow> exn + unit" where
  "permission s command_id request =
     bind_result (validate_command_id command_id) (\<lambda>_.
     bind_result (check_that (command_id \<in> set (map fst (sv_versions s))) (ConsentError ''unknown_command'')) (\<lambda>_.
     bind_result (check_that (command_id \<in> cp_permissions (sv_policy s)) (ConsentError ''permission'')) (\<lambda>_.
     bind_result (check_that (\<not> (request \<and> command_id \<in> cp_controls (sv_policy s)))
                   (ConsentError ''control'')) (\<lambda>_.
     bind_result (check_that (\<not> (request \<and> cp_request_policy (sv_policy s) \<noteq> ''allowed''))
                   (ConsentError (cp_request_policy (sv_policy s)))) (\<lambda>_.
     check_that (\<not> (request \<and> ci_kind (sv_identity s) = ''standalone''))
                   (ConsentError ''context_required''))))))"

definition check_permission :: "string \<Rightarrow> bool \<Rightarrow> ('x svc_scheme, unit) prog" where
  "check_permission command_id request =
     bind_prog svc_context (\<lambda>_. lift_result (\<lambda>s. permission s command_id request))"

definition initial_allows :: "'x svc_scheme \<Rightarrow> string \<Rightarrow> consent_context \<Rightarrow> bool" where
  "initial_allows s command c =
     (command \<in> cp_initial (sv_policy s) \<and> command \<notin> set (cx_reduced c))"

definition valid_grant :: "'x svc_scheme \<Rightarrow> grant_record option \<Rightarrow> consent_context \<Rightarrow> string \<Rightarrow> bool" where
  "valid_grant s grant c command =
     (case grant of None \<Rightarrow> False | Some g \<Rightarrow>
        gr_command_id g = command \<and> gr_generation g = cx_generation c
        \<and> Some (gr_command_version g) = map_of (sv_versions s) command
        \<and> gr_state g = Authorised \<and> \<not> gr_revoked g)"

definition request_capacity :: "consent_context \<Rightarrow> exn + unit" where
  "request_capacity c =
     check_that (cx_request_count c < MAX_REQUEST_IDENTITIES) (ConsentError ''capacity'')"

section \<open>Preparing an operation\<close>

record operation_view =
  ov_operation_id :: string
  ov_command_id :: string
  ov_command_version :: int
  ov_digest :: string
  ov_review :: string
  ov_state :: record_state

text \<open>What \<open>prepare\<close> hands back: the view of a descriptor, or the note that it was discarded.\<close>

datatype prepared_view =
    LiveView operation_view
  | DiscardedView string string

definition view_of :: "operation_record \<Rightarrow> operation_view" where
  "view_of r = \<lparr>ov_operation_id = op_operation_id r, ov_command_id = ob_command_id (op_binding r),
     ov_command_version = ob_command_version (op_binding r), ov_digest = op_digest r,
     ov_review = op_review r, ov_state = op_state r\<rparr>"

definition review_text :: "operation_binding \<Rightarrow> string" where
  "review_text b = canonical_json (ob_review b)"

definition request_text :: "operation_binding \<Rightarrow> string" where
  "request_text b = canonical_json (ob_request b)"

definition new_operation ::
  "'x svc_scheme \<Rightarrow> operation_binding \<Rightarrow> string \<Rightarrow> string option \<Rightarrow> consent_context \<Rightarrow> operation_record" where
  "new_operation s binding operation_id pin_namespace c =
     \<lparr>op_operation_id = operation_id, op_binding = binding,
      op_digest = binding_digest (sv_hex s) binding, op_review = review_text binding,
      op_generation = cx_generation c, op_state = Prepared, op_pin_namespace = pin_namespace,
      op_grant_id = None, op_invocation_id = None\<rparr>"

text \<open>The nested function \<open>create\<close> of \<open>prepare\<close>.\<close>

definition create_change ::
  "operation_binding \<Rightarrow> string \<Rightarrow> string \<Rightarrow> string \<Rightarrow> string \<Rightarrow> string option \<Rightarrow>
   (operation_view \<Rightarrow> exn + unit) \<Rightarrow> ('x, prepared_view) change" where
  "create_change binding operation_id op_key retry_key existing_key pin_namespace validate_view s vals c =
     bind_result (permission s (ob_command_id binding) True) (\<lambda>_.
     case find_retry vals retry_key of
       Some prior \<Rightarrow>
         if rt_digest prior \<noteq> binding_digest (sv_hex s) binding \<or> rt_generation prior \<noteq> cx_generation c
         then Inl (ConsentError ''request_conflict'')
         else bind_result (consent_key (sv_hex s) ''operation'' (rt_operation_id prior)) (\<lambda>k.
           if k \<noteq> existing_key then Inl (ConsentError ''conflict'')
           else (case find_operation vals existing_key of
               None \<Rightarrow> Inr ([], DiscardedView (rt_operation_id prior) (rt_digest prior))
             | Some existing \<Rightarrow> Inr ([], LiveView (view_of existing))))
     | None \<Rightarrow>
         bind_result (check_that (cx_prepared_count c < MAX_PREPARED_OPERATIONS) (ConsentError ''capacity'')) (\<lambda>_.
         bind_result (request_capacity c) (\<lambda>_.
         let operation = new_operation s binding operation_id pin_namespace c in
         bind_result (validate_view (view_of operation)) (\<lambda>_.
         Inr ([(CONTEXT, Some (VContext (c\<lparr>cx_prepared_count := cx_prepared_count c + 1,
                                            cx_request_count := cx_request_count c + 1\<rparr>))),
               (op_key, Some (VOperation operation)),
               (retry_key, Some (VRetry
                  \<lparr>rt_operation_id = operation_id, rt_digest = binding_digest (sv_hex s) binding,
                   rt_request_digest = content_digest (sv_hex s) (request_text binding),
                   rt_generation = cx_generation c\<rparr>))],
              LiveView (view_of operation))))))"

definition svc_prepare ::
  "operation_binding \<Rightarrow> string \<Rightarrow> string option \<Rightarrow> (operation_view \<Rightarrow> exn + unit) \<Rightarrow>
   ('x svc_scheme, prepared_view) prog" where
  "svc_prepare binding request_id pin_namespace validate_view =
     bind_prog (check_permission (ob_command_id binding) True) (\<lambda>_.
     bind_prog (lift_result (\<lambda>s. case pin_namespace of None \<Rightarrow> Inr () | Some n \<Rightarrow>
                  bind_result (check_identifier n) (\<lambda>_. Inr ()))) (\<lambda>_.
     bind_prog (lift_result (\<lambda>s. case map_of (sv_versions s) (ob_command_id binding) of
                  None \<Rightarrow> Inl KeyError
                | Some v \<Rightarrow> check_that (ob_command_version binding = v) (ConsentError ''stale_operation''))) (\<lambda>_.
     bind_prog (lift_result (\<lambda>s. check_that
                  (int (length (canonical_json (JObj [(''review'', JStr (review_text binding))])))
                     \<le> MAX_REVIEW_BYTES) (ConsentError ''review_capacity''))) (\<lambda>_.
     bind_prog draw_uuid (\<lambda>u.
     let operation_id = ''operation-'' @ u in
     bind_prog (lift_result (\<lambda>s. consent_key (sv_hex s) ''operation'' operation_id)) (\<lambda>op_key.
     bind_prog (lift_result (\<lambda>s. consent_key (sv_hex s) ''preparation-request'' request_id)) (\<lambda>retry_key.
     bind_prog (svc_snapshot [retry_key]) (\<lambda>sn.
     bind_prog (lift_result (\<lambda>s. case find_retry (vals_of sn) retry_key of
                  None \<Rightarrow> Inr op_key
                | Some prior \<Rightarrow> consent_key (sv_hex s) ''operation'' (rt_operation_id prior))) (\<lambda>existing_key.
     transaction [op_key, retry_key, existing_key]
       (create_change binding operation_id op_key retry_key existing_key pin_namespace validate_view))))))))))"

text \<open>The nested function \<open>lookup\<close> of \<open>preparation_retry\<close>.\<close>

definition lookup_change ::
  "string \<Rightarrow> string \<Rightarrow> retry_record \<Rightarrow> string \<Rightarrow> ('x, prepared_view) change" where
  "lookup_change retry_key operation_key prior request_digest s vals c =
     (case find_retry vals retry_key of
        None \<Rightarrow> Inl (ConsentError ''conflict'')
      | Some retry \<Rightarrow>
          if retry \<noteq> prior then Inl (ConsentError ''conflict'')
          else if rt_request_digest retry \<noteq> request_digest \<or> rt_generation retry \<noteq> cx_generation c
          then Inl (ConsentError ''request_conflict'')
          else (case find_operation vals operation_key of
              None \<Rightarrow> Inr ([], DiscardedView (rt_operation_id retry) (rt_digest retry))
            | Some operation \<Rightarrow>
                bind_result (permission s (ob_command_id (op_binding operation)) True) (\<lambda>_.
                Inr ([], LiveView (view_of operation)))))"

definition preparation_retry ::
  "string \<Rightarrow> string \<Rightarrow> ('x svc_scheme, prepared_view option) prog" where
  "preparation_retry request_id request_digest =
     bind_prog (lift_result (\<lambda>s. consent_key (sv_hex s) ''preparation-request'' request_id)) (\<lambda>retry_key.
     bind_prog svc_context (\<lambda>_.
     bind_prog (svc_snapshot [retry_key]) (\<lambda>sn.
     case find_retry (vals_of sn) retry_key of
       None \<Rightarrow> return_prog None
     | Some prior \<Rightarrow>
         bind_prog (lift_result (\<lambda>s. consent_key (sv_hex s) ''operation'' (rt_operation_id prior))) (\<lambda>operation_key.
         bind_prog (transaction [retry_key, operation_key]
                      (lookup_change retry_key operation_key prior request_digest)) (\<lambda>v.
         return_prog (Some v))))))"

text \<open>\<open>inspect\<close>: the descriptor and whether its generation is the current one.\<close>

definition read_change :: "string \<Rightarrow> ('x, operation_record \<times> bool) change" where
  "read_change key s vals c =
     (case find_operation vals key of
        None \<Rightarrow> Inl (ConsentError ''operation_missing'')
      | Some operation \<Rightarrow>
          bind_result (permission s (ob_command_id (op_binding operation)) False) (\<lambda>_.
          Inr ([], (operation, op_generation operation = cx_generation c))))"

definition svc_inspect :: "string \<Rightarrow> ('x svc_scheme, operation_record \<times> bool) prog" where
  "svc_inspect operation_id =
     bind_prog (lift_result (\<lambda>s. consent_key (sv_hex s) ''operation'' operation_id)) (\<lambda>key.
     transaction [key] (read_change key))"

section \<open>Requesting consent\<close>

definition command_review :: "'x svc_scheme \<Rightarrow> string \<Rightarrow> exn + string" where
  "command_review s command_id =
     bind_result (validate_command_id command_id) (\<lambda>_.
     Inr (''Authorise '' @ command_id @ '' throughout this Brain for this '' @ ci_kind (sv_identity s)
          @ ''; consent ends with the context or explicit revocation.''))"

definition request_fingerprint ::
  "(string \<Rightarrow> string) \<Rightarrow> consent_scope \<Rightarrow> string \<Rightarrow> string option \<Rightarrow> string option \<Rightarrow> string \<Rightarrow> string" where
  "request_fingerprint hx scope command_id operation_id digest review =
     content_digest hx (canonical_json (JObj
       [(''scope'', JStr (scope_value scope)), (''command'', JStr command_id),
        (''operation'', opt_json operation_id), (''digest'', opt_json digest), (''review'', JStr review)]))"

record consent_request =
  cq_request_id :: string
  cq_scope :: consent_scope
  cq_command_id :: string
  cq_operation_id :: "string option"
  cq_digest :: "string option"
  cq_review :: string

definition decision_of :: "request_record \<Rightarrow> bool \<Rightarrow> consent_decision" where
  "decision_of r changed =
     \<lparr>cd_state = ''authorised'', cd_command_id = rq_command_id r, cd_scope = rq_scope r,
      cd_grant_id = Some (rq_grant_id r), cd_operation_id = rq_operation_id r, cd_reason = None,
      cd_changed = changed\<rparr>"

definition denied_decision :: "request_record \<Rightarrow> consent_decision" where
  "denied_decision r = (decision_of r False)\<lparr>cd_state := ''denied'', cd_reason := Some ''spent_or_revoked''\<rparr>"

definition reusable_grant ::
  "'x svc_scheme \<Rightarrow> grant_record option \<Rightarrow> consent_context \<Rightarrow> consent_request \<Rightarrow> bool" where
  "reusable_grant s existing c q =
     (valid_grant s existing c (cq_command_id q) \<and>
      (case existing of None \<Rightarrow> False
       | Some g \<Rightarrow> gr_scope g = cq_scope q \<and> gr_operation_id g = cq_operation_id q))"

definition new_grant ::
  "consent_request \<Rightarrow> string \<Rightarrow> int \<Rightarrow> consent_context \<Rightarrow> grant_record" where
  "new_grant q grant_id version c =
     \<lparr>gr_grant_id = grant_id, gr_command_id = cq_command_id q, gr_command_version = version,
      gr_scope = cq_scope q, gr_operation_id = cq_operation_id q, gr_generation = cx_generation c,
      gr_request_id = cq_request_id q, gr_state = Authorised, gr_revoked = False,
      gr_invocation_id = None\<rparr>"

text \<open>The keys of one request: its tombstone, the two pointers, the fresh and the candidate grant.\<close>

record grant_keys =
  gk_request :: string
  gk_command :: string
  gk_operation :: "string option"
  gk_grant :: string
  gk_candidate :: string
  gk_grant_id :: string
  gk_candidate_id :: "string option"

definition pointer_key :: "grant_keys \<Rightarrow> string" where
  "pointer_key k = (case gk_operation k of Some op_key \<Rightarrow> op_key | None \<Rightarrow> gk_command k)"

definition prepared_usable ::
  "consent_values \<Rightarrow> consent_context \<Rightarrow> consent_request \<Rightarrow> grant_keys \<Rightarrow> bool" where
  "prepared_usable vals c q k =
     (case gk_operation k of None \<Rightarrow> True
      | Some op_key \<Rightarrow> (case find_operation vals op_key of None \<Rightarrow> False
          | Some prepared \<Rightarrow> op_generation prepared = cx_generation c
              \<and> Some (op_digest prepared) = cq_digest q
              \<and> op_state prepared \<in> {Prepared, Authorised}))"

text \<open>The pointer that leads from an operation or a command to its grant.\<close>

definition pointer_write :: "consent_values \<Rightarrow> grant_keys \<Rightarrow> writes" where
  "pointer_write vals k =
     (case gk_operation k of
        Some op_key \<Rightarrow> (case find_operation vals op_key of None \<Rightarrow> []
          | Some prepared \<Rightarrow> [(op_key, Some (VOperation
              (prepared\<lparr>op_state := Authorised, op_grant_id := Some (gk_grant_id k)\<rparr>)))])
      | None \<Rightarrow> [(gk_command k, Some (VCommand (gk_grant_id k)))])"

text \<open>The nested function \<open>grant\<close> of \<open>request\<close>.\<close>

definition grant_change ::
  "consent_request \<Rightarrow> grant_keys \<Rightarrow> string \<Rightarrow> ('x, consent_decision) change" where
  "grant_change q k fingerprint s vals c =
     bind_result (permission s (cq_command_id q) True) (\<lambda>_.
     let previous = find_request vals (gk_request k);
         current_source = (case previous of Some p \<Rightarrow> Some (VRequest p) | None \<Rightarrow> vals (pointer_key k))
     in
     bind_result (check_that (value_grant_id current_source = gk_candidate_id k)
                   (ConsentError ''conflict'')) (\<lambda>_.
     case previous of
       Some p \<Rightarrow>
         if rq_fingerprint p \<noteq> fingerprint then Inl (ConsentError ''request_conflict'')
         else if rq_generation p \<noteq> cx_generation c
              \<or> \<not> valid_grant s (find_grant vals (gk_candidate k)) c (cq_command_id q)
         then Inr ([], denied_decision p)
         else Inr ([], decision_of p False)
     | None \<Rightarrow>
         bind_result (request_capacity c) (\<lambda>_.
         bind_result (check_that (prepared_usable vals c q k) (ConsentError ''stale_operation'')) (\<lambda>_.
         let existing = find_grant vals (gk_candidate k);
             reusable = reusable_grant s existing c q in
         bind_result (check_that (reusable \<or> cx_grant_count c < MAX_GRANTS) (ConsentError ''capacity'')) (\<lambda>_.
         case map_of (sv_versions s) (cq_command_id q) of
           None \<Rightarrow> Inl KeyError
         | Some version \<Rightarrow>
             let selected_id = (if reusable then (case existing of Some g \<Rightarrow> gr_grant_id g | None \<Rightarrow> gk_grant_id k)
                                else gk_grant_id k);
                 result = \<lparr>rq_command_id = cq_command_id q, rq_scope = cq_scope q,
                           rq_grant_id = selected_id, rq_operation_id = cq_operation_id q,
                           rq_generation = cx_generation c, rq_fingerprint = fingerprint\<rparr>;
                 c' = c\<lparr>cx_request_count := cx_request_count c + 1,
                        cx_grant_count := cx_grant_count c + (if reusable then 0 else 1)\<rparr>
             in Inr ((if reusable then []
                      else (gk_grant k, Some (VGrant (new_grant q (gk_grant_id k) version c)))
                           # pointer_write vals k)
                     @ [(gk_request k, Some (VRequest result)), (CONTEXT, Some (VContext c'))],
                     decision_of result (\<not> reusable)))))))"

text \<open>The checks of \<open>request\<close> that select and review the scope.\<close>

definition select_scope ::
  "consent_scope \<Rightarrow> string option \<Rightarrow> string option \<Rightarrow> string option \<Rightarrow> string \<Rightarrow> ('x svc_scheme, string) prog" where
  "select_scope scope command_id operation_id digest review =
     (case scope of
        OperationScope \<Rightarrow>
          (case (operation_id, command_id) of
             (Some oid, None) \<Rightarrow>
               bind_prog (svc_inspect oid) (\<lambda>(operation, valid).
               if digest \<noteq> Some (op_digest operation) \<or> review \<noteq> op_review operation
               then raise_prog (ConsentError ''review_mismatch'')
               else return_prog (ob_command_id (op_binding operation)))
           | _ \<Rightarrow> raise_prog ValueError)
      | CommandScope \<Rightarrow>
          (case (command_id, operation_id, digest) of
             (Some cid, None, None) \<Rightarrow>
               bind_prog (lift_result (\<lambda>s. command_review s cid)) (\<lambda>expected.
               if review \<noteq> expected then raise_prog (ConsentError ''review_mismatch'')
               else return_prog cid)
           | _ \<Rightarrow> raise_prog ValueError))"

definition svc_request ::
  "string \<Rightarrow> consent_scope \<Rightarrow> string option \<Rightarrow> string option \<Rightarrow> string option \<Rightarrow> string \<Rightarrow>
   ('x svc_scheme, consent_decision) prog" where
  "svc_request request_id scope command_id operation_id digest review =
     bind_prog svc_context (\<lambda>_.
     bind_prog (select_scope scope command_id operation_id digest review) (\<lambda>cid.
     bind_prog (lift_result (\<lambda>s. permission s cid True)) (\<lambda>_.
     bind_prog (lift_result (\<lambda>s. consent_key (sv_hex s) ''request'' request_id)) (\<lambda>request_key.
     bind_prog (lift_result (\<lambda>s. consent_key (sv_hex s) ''command'' cid)) (\<lambda>command_key.
     bind_prog (lift_result (\<lambda>s. case operation_id of None \<Rightarrow> Inr None
                  | Some oid \<Rightarrow> bind_result (consent_key (sv_hex s) ''operation'' oid) (\<lambda>x. Inr (Some x)))) (\<lambda>operation_key.
     bind_prog draw_uuid (\<lambda>u.
     let grant_id = ''grant-'' @ u in
     bind_prog (lift_result (\<lambda>s. consent_key (sv_hex s) ''grant'' grant_id)) (\<lambda>grant_key.
     bind_prog (svc_snapshot (request_key # command_key # (case operation_key of None \<Rightarrow> [] | Some x \<Rightarrow> [x]))) (\<lambda>sn.
     let vals = vals_of sn;
         candidate_id = (case find_request vals request_key of
             Some prior \<Rightarrow> Some (rq_grant_id prior)
           | None \<Rightarrow> value_grant_id (vals (case operation_key of Some x \<Rightarrow> x | None \<Rightarrow> command_key))) in
     bind_prog (lift_result (\<lambda>s. case candidate_id of None \<Rightarrow> Inr grant_key
                  | Some g \<Rightarrow> consent_key (sv_hex s) ''grant'' g)) (\<lambda>candidate_key s.
     let q = \<lparr>cq_request_id = request_id, cq_scope = scope, cq_command_id = cid,
              cq_operation_id = operation_id, cq_digest = digest, cq_review = review\<rparr>;
         k = \<lparr>gk_request = request_key, gk_command = command_key, gk_operation = operation_key,
              gk_grant = grant_key, gk_candidate = candidate_key, gk_grant_id = grant_id,
              gk_candidate_id = candidate_id\<rparr>
     in transaction
          ([request_key, command_key] @ (case operation_key of None \<Rightarrow> [] | Some x \<Rightarrow> [x])
             @ [grant_key, candidate_key])
          (grant_change q k (request_fingerprint (sv_hex s) scope cid operation_id digest review)) s))))))))))"

section \<open>Admission\<close>

text \<open>\<open>x if x else None\<close> for an optional string: the empty string counts as absent.\<close>

definition truthy :: "string option \<Rightarrow> string option" where
  "truthy v = (case v of None \<Rightarrow> None | Some x \<Rightarrow> if x = [] then None else Some x)"

record admission_request =
  aq_command_id :: string
  aq_command_version :: int
  aq_invocation_id :: string
  aq_operation_id :: "string option"
  aq_binding :: "operation_binding option"

record admission_keys =
  ak_command :: string
  ak_operation :: "string option"
  ak_grant :: "string option"
  ak_grant_id :: "string option"

definition operation_matches ::
  "'x svc_scheme \<Rightarrow> operation_record option \<Rightarrow> consent_context \<Rightarrow> admission_request \<Rightarrow> bool" where
  "operation_matches s selected c a =
     (case (selected, aq_binding a) of
        (Some o', Some b) \<Rightarrow>
          op_digest o' = binding_digest (sv_hex s) b \<and> op_generation o' = cx_generation c
          \<and> ob_command_id b = aq_command_id a \<and> ob_command_version b = aq_command_version a
      | _ \<Rightarrow> False)"

definition make_proof ::
  "admission_request \<Rightarrow> consent_context \<Rightarrow> bool \<Rightarrow> grant_record option \<Rightarrow> admission_proof" where
  "make_proof a c initial grant =
     \<lparr>ap_command_id = aq_command_id a, ap_command_version = aq_command_version a,
      ap_invocation_id = aq_invocation_id a, ap_generation = cx_generation c,
      ap_basis = (case grant of Some g \<Rightarrow> if initial then InitialBasis else GrantBasis (gr_scope g)
                  | None \<Rightarrow> InitialBasis),
      ap_grant_id = (case grant of Some g \<Rightarrow> if initial then None else Some (gr_grant_id g) | None \<Rightarrow> None),
      ap_operation_id = aq_operation_id a,
      ap_request_id = (case grant of Some g \<Rightarrow> if initial then None else Some (gr_request_id g) | None \<Rightarrow> None)\<rparr>"

text \<open>The nested function \<open>reserve\<close> of \<open>admit\<close>.\<close>

definition reserve_change :: "admission_request \<Rightarrow> admission_keys \<Rightarrow> ('x, admission_proof) change" where
  "reserve_change a k s vals c =
     bind_result (permission s (aq_command_id a) False) (\<lambda>_.
     let selected = (case ak_operation k of None \<Rightarrow> None | Some op_key \<Rightarrow> find_operation vals op_key);
         current_source = (case ak_operation k of
             None \<Rightarrow> vals (ak_command k) | Some op_key \<Rightarrow> vals op_key) in
     bind_result (check_that (value_grant_id current_source = ak_grant_id k) (ConsentError ''conflict'')) (\<lambda>_.
     bind_result (check_that (ak_operation k = None \<or> operation_matches s selected c a)
                   (ConsentError ''stale_operation'')) (\<lambda>_.
     let initial = (ak_operation k = None \<and> initial_allows s (aq_command_id a) c);
         grant = (case ak_grant k of None \<Rightarrow> None | Some g_key \<Rightarrow> find_grant vals g_key);
         valid = valid_grant s grant c (aq_command_id a) in
     bind_result (check_that (initial \<or> (case selected of None \<Rightarrow> True | Some o' \<Rightarrow> op_state o' = Authorised))
                   (ConsentError ''operation_entered'')) (\<lambda>_.
     bind_result (check_that (initial \<or> valid) (ConsentError ''authorisation_required'')) (\<lambda>_.
     let specific = (\<not> initial \<and> (case grant of Some g \<Rightarrow> gr_scope g = OperationScope | None \<Rightarrow> False)) in
     bind_result (check_that (\<not> specific \<or> (selected \<noteq> None \<and>
                    (case grant of Some g \<Rightarrow> gr_operation_id g = aq_operation_id a | None \<Rightarrow> False)))
                   (ConsentError ''authorisation_required'')) (\<lambda>_.
     Inr (case (specific, grant, selected, ak_grant k, ak_operation k) of
            (True, Some g, Some o', Some g_key, Some op_key) \<Rightarrow>
              [(g_key, Some (VGrant (g\<lparr>gr_state := Reserved, gr_invocation_id := Some (aq_invocation_id a)\<rparr>))),
               (op_key, Some (VOperation (o'\<lparr>op_state := Reserved, op_invocation_id := Some (aq_invocation_id a)\<rparr>)))]
          | _ \<Rightarrow> [],
          make_proof a c initial grant)))))))"

text \<open>The nested function \<open>enter\<close> of \<open>_enter\<close>.\<close>

definition enter_change :: "admission_proof \<Rightarrow> string option \<Rightarrow> string option \<Rightarrow> ('x, unit) change" where
  "enter_change p grant_key operation_key s vals c =
     bind_result (permission s (ap_command_id p) False) (\<lambda>_.
     bind_result (check_that (cx_generation c = ap_generation p) (ConsentError ''invalidated'')) (\<lambda>_.
     case ap_basis p of
       InitialBasis \<Rightarrow>
         bind_result (check_that (initial_allows s (ap_command_id p) c) (ConsentError ''revoked'')) (\<lambda>_. Inr ([], ()))
     | GrantBasis scope \<Rightarrow>
         let grant = (case grant_key of None \<Rightarrow> None | Some g_key \<Rightarrow> find_grant vals g_key) in
         (case grant of
            None \<Rightarrow> Inl (ConsentError ''revoked'')
          | Some g \<Rightarrow>
              if gr_revoked g then Inl (ConsentError ''revoked'')
              else if scope = CommandScope
              then bind_result (check_that (valid_grant s grant c (ap_command_id p)) (ConsentError ''revoked'')) (\<lambda>_.
                   Inr ([], ()))
              else if gr_state g \<noteq> Reserved \<or> gr_invocation_id g \<noteq> Some (ap_invocation_id p)
              then Inl (ConsentError ''invocation_conflict'')
              else (case (grant_key, operation_key,
                     case operation_key of None \<Rightarrow> None | Some op_key \<Rightarrow> find_operation vals op_key) of
                  (Some g_key, Some op_key, Some o') \<Rightarrow>
                    if op_invocation_id o' \<noteq> Some (ap_invocation_id p)
                    then Inl (ConsentError ''invocation_conflict'')
                    else Inr ([(g_key, Some (VGrant (g\<lparr>gr_state := Entered\<rparr>))),
                               (op_key, Some (VOperation (o'\<lparr>op_state := Entered\<rparr>)))], ())
                | _ \<Rightarrow> Inl (ConsentError ''invocation_conflict'')))))"

text \<open>The nested function \<open>cancel\<close> of \<open>_cancel_admission\<close>.\<close>

definition cancel_change :: "admission_proof \<Rightarrow> string \<Rightarrow> string \<Rightarrow> ('x, unit) change" where
  "cancel_change p grant_key operation_key s vals c =
     (case find_grant vals grant_key of
        None \<Rightarrow> Inr ([], ())
      | Some g \<Rightarrow>
          if gr_state g \<noteq> Reserved \<or> gr_invocation_id g \<noteq> Some (ap_invocation_id p) then Inr ([], ())
          else let state = (if cx_generation c = ap_generation p \<and> \<not> gr_revoked g then Authorised else Revoked)
               in Inr ((grant_key, Some (VGrant (g\<lparr>gr_invocation_id := None, gr_state := state\<rparr>)))
                       # (case find_operation vals operation_key of
                            None \<Rightarrow> []
                          | Some o' \<Rightarrow> [(operation_key, Some (VOperation
                              (o'\<lparr>op_invocation_id := None, op_state := state\<rparr>)))]), ()))"

text \<open>The nested function \<open>finish\<close> of \<open>finish\<close>.\<close>

definition finish_change :: "admission_proof \<Rightarrow> string \<Rightarrow> string \<Rightarrow> ('x, unit) change" where
  "finish_change p grant_key operation_key s vals c =
     (case find_grant vals grant_key of
        None \<Rightarrow> Inr ([], ())
      | Some g \<Rightarrow>
          if gr_invocation_id g \<noteq> Some (ap_invocation_id p)
          then Inl (ConsentError ''invocation_conflict'')
          else if gr_state g \<notin> {Entered, Spent} then Inr ([], ())
          else Inr ((grant_key, Some (VGrant (g\<lparr>gr_state := Spent\<rparr>)))
                    # (case find_operation vals operation_key of
                         None \<Rightarrow> []
                       | Some o' \<Rightarrow> [(operation_key, Some (VOperation (o'\<lparr>op_state := Spent\<rparr>)))]), ()))"

text \<open>\<open>_key("grant", proof.grant_id)\<close>: a missing identifier fails the check of \<open>_identifier\<close>.\<close>

definition optional_key :: "(string \<Rightarrow> string) \<Rightarrow> string \<Rightarrow> string option \<Rightarrow> exn + string" where
  "optional_key hx prefix ident = (case ident of None \<Rightarrow> Inl ValueError | Some v \<Rightarrow> consent_key hx prefix v)"

definition some_key :: "(string \<Rightarrow> string) \<Rightarrow> string \<Rightarrow> string option \<Rightarrow> exn + string option" where
  "some_key hx prefix ident = (case truthy ident of None \<Rightarrow> Inr None
     | Some v \<Rightarrow> bind_result (consent_key hx prefix v) (\<lambda>k. Inr (Some k)))"

definition opt_list :: "'a option \<Rightarrow> 'a list" where
  "opt_list v = (case v of None \<Rightarrow> [] | Some x \<Rightarrow> [x])"

definition svc_enter :: "admission_proof \<Rightarrow> ('x svc_scheme, unit) prog" where
  "svc_enter p =
     bind_prog (lift_result (\<lambda>s. some_key (sv_hex s) ''grant'' (ap_grant_id p))) (\<lambda>grant_key.
     bind_prog (lift_result (\<lambda>s. some_key (sv_hex s) ''operation'' (ap_operation_id p))) (\<lambda>operation_key.
     transaction (opt_list grant_key @ opt_list operation_key) (enter_change p grant_key operation_key)))"

text \<open>The two steps that act on specific consent only: \<open>_cancel_admission\<close> and \<open>finish\<close>.\<close>

definition on_specific ::
  "(admission_proof \<Rightarrow> string \<Rightarrow> string \<Rightarrow> ('x, unit) change) \<Rightarrow> admission_proof \<Rightarrow> ('x svc_scheme, unit) prog" where
  "on_specific change p =
     (if ap_basis p \<noteq> GrantBasis OperationScope then return_prog ()
      else bind_prog (lift_result (\<lambda>s. optional_key (sv_hex s) ''grant'' (ap_grant_id p))) (\<lambda>grant_key.
           bind_prog (lift_result (\<lambda>s. optional_key (sv_hex s) ''operation'' (ap_operation_id p))) (\<lambda>operation_key.
           transaction [grant_key, operation_key] (change p grant_key operation_key))))"

definition cancel_admission :: "admission_proof \<Rightarrow> ('x svc_scheme, unit) prog" where
  "cancel_admission p = on_specific cancel_change p"

definition svc_finish :: "admission_proof \<Rightarrow> ('x svc_scheme, unit) prog" where
  "svc_finish p = on_specific finish_change p"

text \<open>\<open>try: m; except C: handler; raise\<close>\<close>

definition on_error :: "(exn \<Rightarrow> bool) \<Rightarrow> ('s, 'a) prog \<Rightarrow> ('s, unit) prog \<Rightarrow> ('s, 'a) prog" where
  "on_error caught m handler s =
     (case m s of
        (Inr x, s1) \<Rightarrow> (Inr x, s1)
      | (Inl e, s1) \<Rightarrow>
          if caught e then (case handler s1 of (Inl e', s2) \<Rightarrow> (Inl e', s2) | (Inr _, s2) \<Rightarrow> (Inl e, s2))
          else (Inl e, s1))"

definition svc_admit ::
  "admission_request \<Rightarrow> (admission_proof \<Rightarrow> ('x svc_scheme, unit) prog) option \<Rightarrow>
   ('x svc_scheme, admission_proof) prog" where
  "svc_admit a before_enter =
     bind_prog (check_permission (aq_command_id a) False) (\<lambda>_.
     bind_prog (lift_result (\<lambda>s. check_identifier (aq_invocation_id a))) (\<lambda>_.
     bind_prog (lift_result (\<lambda>s. check_that
                  (map_of (sv_versions s) (aq_command_id a) = Some (aq_command_version a))
                  (ConsentError ''contract_changed''))) (\<lambda>_.
     bind_prog (lift_result (\<lambda>s. consent_key (sv_hex s) ''command'' (aq_command_id a))) (\<lambda>command_key.
     bind_prog (lift_result (\<lambda>s. some_key (sv_hex s) ''operation'' (aq_operation_id a))) (\<lambda>operation_key.
     bind_prog (svc_snapshot (command_key # opt_list operation_key)) (\<lambda>sn.
     let grant_id = value_grant_id (vals_of sn (case operation_key of Some x \<Rightarrow> x | None \<Rightarrow> command_key)) in
     bind_prog (lift_result (\<lambda>s. some_key (sv_hex s) ''grant'' grant_id)) (\<lambda>grant_key.
     bind_prog (transaction (command_key # opt_list operation_key @ opt_list grant_key)
       (reserve_change a \<lparr>ak_command = command_key, ak_operation = operation_key,
                          ak_grant = grant_key, ak_grant_id = grant_id\<rparr>)) (\<lambda>p.
     bind_prog (case before_enter of None \<Rightarrow> return_prog ()
                | Some f \<Rightarrow> on_error (\<lambda>_. True) (f p) (cancel_admission p)) (\<lambda>_.
     bind_prog (on_error is_consent_error (svc_enter p) (cancel_admission p)) (\<lambda>_.
     return_prog p))))))))))"

section \<open>Discarding and reducing\<close>

definition active_state :: "record_state \<Rightarrow> bool" where
  "active_state st = (st \<in> {Authorised, Reserved, Entered})"

text \<open>The nested function \<open>close\<close> of \<open>begin_discard\<close>: the records written, in key order.\<close>

fun close_writes :: "consent_values \<Rightarrow> string list \<Rightarrow> exn + (string \<times> operation_record) list" where
  "close_writes vals [] = Inr []"
| "close_writes vals (k # ks) =
     (case find_operation vals k of
        None \<Rightarrow> close_writes vals ks
      | Some r \<Rightarrow>
          if active_state (op_state r) then Inl (ConsentError ''active_operation'')
          else bind_result (close_writes vals ks) (\<lambda>ws. Inr ((k, r\<lparr>op_state := Discarding\<rparr>) # ws)))"

definition close_change :: "string list \<Rightarrow> ('x, operation_record list) change" where
  "close_change keys s vals c =
     bind_result (close_writes vals keys) (\<lambda>ws.
     Inr (map (\<lambda>(k, r). (k, Some (VOperation r))) ws, map snd ws))"

text \<open>\<open>tuple(dict.fromkeys(_key(prefix, value) for value in ids))\<close>\<close>

definition consent_keys :: "(string \<Rightarrow> string) \<Rightarrow> string \<Rightarrow> string list \<Rightarrow> exn + string list" where
  "consent_keys hx prefix ids =
     bind_result (collect_results (map (consent_key hx prefix) ids)) (\<lambda>ks. Inr (dict_fromkeys ks))"

definition begin_discard :: "string list \<Rightarrow> ('x svc_scheme, operation_record list) prog" where
  "begin_discard operation_ids =
     bind_prog (lift_result (\<lambda>s. consent_keys (sv_hex s) ''operation'' operation_ids)) (\<lambda>keys.
     transaction keys (close_change keys))"

text \<open>
  The two loops in the nested function \<open>reduce\<close>. Their accumulator holds the writes and the
  number of removed records so far. First the body of the loop over grants.
\<close>

definition reduce_grant ::
  "(string \<Rightarrow> string) \<Rightarrow> string list \<Rightarrow> consent_values \<Rightarrow> string \<Rightarrow> writes \<times> int \<Rightarrow> exn + writes \<times> int" where
  "reduce_grant hx related vals k acc =
     (case find_grant vals k of
        None \<Rightarrow> Inr acc
      | Some g \<Rightarrow>
          if gr_state g \<in> {Reserved, Entered} then
            Inr (if gr_revoked g then fst acc
                 else AList.update k (Some (VGrant (g\<lparr>gr_revoked := True\<rparr>))) (fst acc), snd acc)
          else
            let ws = AList.update k None (fst acc); removed = snd acc + 1 in
            (case truthy (gr_operation_id g) of
               None \<Rightarrow> Inr (ws, removed)
             | Some oid \<Rightarrow>
                 bind_result (consent_key hx ''operation'' oid) (\<lambda>op_key.
                 if op_key \<notin> set related then Inl (ConsentError ''conflict'')
                 else (case find_operation vals op_key of
                     None \<Rightarrow> Inr (ws, removed)
                   | Some r \<Rightarrow>
                       Inr (if op_grant_id r = Some (gr_grant_id g)
                            then AList.update op_key (Some (VOperation (r\<lparr>op_state := Revoked\<rparr>))) ws
                            else ws, removed)))))"

text \<open>\<open>writes.get(key, values.get(key))\<close>: the record as changed so far.\<close>

definition pending_values :: "writes \<Rightarrow> consent_values \<Rightarrow> consent_values" where
  "pending_values ws vals k = (case map_of ws k of Some w \<Rightarrow> w | None \<Rightarrow> vals k)"

definition reduce_operation :: "consent_values \<Rightarrow> string \<Rightarrow> writes \<times> int \<Rightarrow> exn + writes \<times> int" where
  "reduce_operation vals k acc =
     (case find_operation (pending_values (fst acc) vals) k of
        None \<Rightarrow> Inr acc
      | Some r \<Rightarrow>
          if active_state (op_state r) then Inl (ConsentError ''active_operation'')
          else Inr (AList.update k None (fst acc), snd acc + 1))"

definition delivery_count :: "consent_context \<Rightarrow> int" where
  "delivery_count c = (case cx_delivery_generation c of None \<Rightarrow> 0 | Some n \<Rightarrow> n)"

text \<open>The nested function \<open>reduce\<close> of \<open>reduce\<close>.\<close>

definition reduce_change ::
  "string list \<Rightarrow> string list \<Rightarrow> string list \<Rightarrow> string list \<Rightarrow> ('x, bool) change" where
  "reduce_change grant_keys operation_keys related commands s vals c =
     bind_result (fold_results (reduce_grant (sv_hex s) related vals) grant_keys ([], 0)) (\<lambda>(ws1, removed_grants).
     bind_result (fold_results (reduce_operation vals) operation_keys (ws1, 0)) (\<lambda>(ws2, removed_operations).
     let reduced = sort (remdups (cx_reduced c @ commands));
         changed = (ws2 \<noteq> [] \<or> reduced \<noteq> cx_reduced c)
     in Inr (if changed
             then AList.update CONTEXT (Some (VContext
                    (c\<lparr>cx_reduced := reduced, cx_delivery_generation := Some (delivery_count c + 1),
                       cx_grant_count := cx_grant_count c - removed_grants,
                       cx_prepared_count := cx_prepared_count c - removed_operations\<rparr>))) ws2
             else ws2, changed)))"

text \<open>\<open>_all_keys\<close>: the pages of a listing, each continued at the revision of the page before.
  The fuel bounds the number of pages; running out of it is \<open>None\<close>.\<close>

fun all_keys_loop ::
  "nat \<Rightarrow> string \<Rightarrow> string option \<Rightarrow> int option \<Rightarrow> ('x svc_scheme, string list option) prog" where
  "all_keys_loop 0 prefix after revision = return_prog None"
| "all_keys_loop (Suc n) prefix after revision =
     bind_prog (svc_list_keys prefix after MAX_PAGE_KEYS revision) (\<lambda>page.
     case page_next_after page of
       None \<Rightarrow> return_prog (Some (page_keys page))
     | Some next \<Rightarrow>
         bind_prog (all_keys_loop n prefix (Some next) (Some (page_revision page))) (\<lambda>rest.
         return_prog (map_option (\<lambda>ks. page_keys page @ ks) rest)))"

text \<open>Enough fuel for the store at hand: one page more than it has records.\<close>

definition all_keys :: "string \<Rightarrow> ('x svc_scheme, string list option) prog" where
  "all_keys prefix s = all_keys_loop (Suc (length (st_records (sv_store (tick s))))) prefix None None s"

definition svc_reduce ::
  "string list \<Rightarrow> string list \<Rightarrow> string list \<Rightarrow> bool \<Rightarrow> ('x svc_scheme, bool option) prog" where
  "svc_reduce grant_ids operation_ids commands clear_grants =
     bind_prog (if clear_grants then all_keys ''consent/grant/''
                else lift_result (\<lambda>s. bind_result (consent_keys (sv_hex s) ''grant'' grant_ids) (\<lambda>ks. Inr (Some ks)))) (\<lambda>found.
     case found of
       None \<Rightarrow> return_prog None
     | Some grant_keys \<Rightarrow>
         bind_prog (lift_result (\<lambda>s. consent_keys (sv_hex s) ''operation'' operation_ids)) (\<lambda>operation_keys.
         bind_prog (lift_result (\<lambda>s. check_all validate_command_id commands)) (\<lambda>_.
         bind_prog (svc_snapshot grant_keys) (\<lambda>sn.
         bind_prog (lift_result (\<lambda>s. collect_results (map (consent_key (sv_hex s) ''operation'')
              (List.map_filter (\<lambda>(k, v). truthy (value_operation_id v)) (snap_values sn))))) (\<lambda>related.
         bind_prog (transaction (grant_keys @ operation_keys @ related)
                     (reduce_change grant_keys operation_keys related commands)) (\<lambda>changed.
         return_prog (Some changed)))))))"

section \<open>Observing access\<close>

definition state_verdict :: "'x svc_scheme \<Rightarrow> string \<Rightarrow> consent_context \<Rightarrow> grant_record option \<Rightarrow> string" where
  "state_verdict s command c grant =
     (if command \<notin> cp_permissions (sv_policy s) \<or> command \<notin> set (map fst (sv_versions s)) then ''denied''
      else if command \<in> cp_controls (sv_policy s) \<or> initial_allows s command c
              \<or> valid_grant s grant c command then ''authorised''
      else if cp_request_policy (sv_policy s) = ''allowed'' then ''authorisation_required'' else ''denied'')"

text \<open>One round of \<open>command_states\<close>; \<open>None\<close> is \<open>continue\<close>.\<close>

definition states_round ::
  "string list \<Rightarrow> string list \<Rightarrow> ('x svc_scheme, (string \<times> string) list option) prog" where
  "states_round commands keys =
     bind_prog svc_context (\<lambda>observed.
     bind_prog (svc_snapshot (CONTEXT # keys)) (\<lambda>sn.
     if map_of (snap_versions sn) CONTEXT \<noteq> map_of (snap_versions observed) CONTEXT then return_prog None
     else
     bind_prog (lift_result (\<lambda>s. need_context (vals_of sn))) (\<lambda>c.
     bind_prog (lift_result (\<lambda>s. consent_keys (sv_hex s) ''grant''
        (List.map_filter (\<lambda>(k, v). if k = CONTEXT then None else truthy (value_grant_id (Some v)))
           (snap_values sn)))) (\<lambda>grant_keys.
     bind_prog (svc_snapshot grant_keys) (\<lambda>grants.
     bind_prog (svc_exchange (dict_update (snap_versions sn) (snap_versions grants)) []) (\<lambda>ok s.
     if \<not> ok then (Inr None, s)
     else (Inr (Some (map (\<lambda>(command, key).
              (command, state_verdict s command c
                 (case truthy (value_grant_id (vals_of sn key)) of None \<Rightarrow> None
                  | Some g \<Rightarrow> find_grant (vals_of grants) (key_of (sv_hex s) ''grant'' g))))
            (zip commands keys))), s)))))))"

fun states_loop ::
  "nat \<Rightarrow> string list \<Rightarrow> string list \<Rightarrow> ('x svc_scheme, (string \<times> string) list) prog" where
  "states_loop 0 commands keys = raise_prog (ConsentError ''conflict'')"
| "states_loop (Suc n) commands keys = bind_prog (states_round commands keys) (\<lambda>r.
     case r of Some x \<Rightarrow> return_prog x | None \<Rightarrow> states_loop n commands keys)"

definition command_states :: "string list \<Rightarrow> ('x svc_scheme, (string \<times> string) list) prog" where
  "command_states command_ids =
     (let commands = dict_fromkeys command_ids in
      bind_prog (lift_result (\<lambda>s. collect_results (map (consent_key (sv_hex s) ''command'') commands))) (\<lambda>keys.
      states_loop 8 commands keys))"

text \<open>\<open>state(command_id, operation_id=...)\<close>\<close>

definition svc_state :: "string \<Rightarrow> string option \<Rightarrow> ('x svc_scheme, string) prog" where
  "svc_state command_id operation_id =
     (case operation_id of
        None \<Rightarrow>
          bind_prog (command_states [command_id]) (\<lambda>states.
          case map_of states command_id of None \<Rightarrow> raise_prog KeyError | Some st \<Rightarrow> return_prog st)
      | Some _ \<Rightarrow>
          bind_prog svc_context (\<lambda>_ s.
          if command_id \<notin> cp_permissions (sv_policy s) \<or> command_id \<notin> set (map fst (sv_versions s))
          then (Inr ''denied'', s)
          else
          bind_prog (lift_result (\<lambda>s. consent_key (sv_hex s) ''command'' command_id)) (\<lambda>command_key.
          bind_prog (lift_result (\<lambda>s. some_key (sv_hex s) ''operation'' operation_id)) (\<lambda>operation_key.
          bind_prog (svc_snapshot (CONTEXT # command_key # opt_list operation_key)) (\<lambda>sn.
          bind_prog (lift_result (\<lambda>s. need_context (vals_of sn))) (\<lambda>c.
          bind_prog (case truthy (value_grant_id (vals_of sn (case operation_key of Some x \<Rightarrow> x | None \<Rightarrow> command_key))) of
              None \<Rightarrow> return_prog None
            | Some g \<Rightarrow>
                bind_prog (lift_result (\<lambda>s. consent_key (sv_hex s) ''grant'' g)) (\<lambda>grant_key.
                bind_prog (svc_snapshot [grant_key]) (\<lambda>gs. return_prog (find_grant (vals_of gs) grant_key)))) (\<lambda>grant s.
          if valid_grant s grant c command_id then (Inr ''authorised'', s)
          else if cp_request_policy (sv_policy s) \<noteq> ''allowed'' \<or> command_id \<in> cp_controls (sv_policy s)
          then (Inr ''denied'', s)
          else (Inr ''authorisation_required'', s)))))) s))"

section \<open>Result disclosure\<close>

definition svc_generation :: "('x svc_scheme, string) prog" where
  "svc_generation = bind_prog svc_context (\<lambda>sn.
     lift_result (\<lambda>s. bind_result (need_context (vals_of sn)) (\<lambda>c. Inr (cx_generation c))))"

record delivery_stamp =
  ds_owner :: consent_owner
  ds_generation :: string
  ds_delivery_generation :: int

definition result_delivery_stamp :: "string \<Rightarrow> ('x svc_scheme, delivery_stamp) prog" where
  "result_delivery_stamp command_id =
     bind_prog (check_permission command_id False) (\<lambda>_.
     bind_prog svc_context (\<lambda>sn.
     lift_result (\<lambda>s. bind_result (need_context (vals_of sn)) (\<lambda>c.
       Inr \<lparr>ds_owner = owner_of (sv_identity s), ds_generation = cx_generation c,
            ds_delivery_generation = delivery_count c\<rparr>))))"

definition check_result_delivery :: "string \<Rightarrow> delivery_stamp option \<Rightarrow> ('x svc_scheme, unit) prog" where
  "check_result_delivery command_id stamp =
     bind_prog (result_delivery_stamp command_id) (\<lambda>current.
     case stamp of
       Some old \<Rightarrow> if current \<noteq> old then raise_prog (ConsentError ''context_changed'') else return_prog ()
     | None \<Rightarrow>
         bind_prog (svc_state command_id None) (\<lambda>st.
         if st \<noteq> ''authorised'' then raise_prog (ConsentError ''authorisation_required'') else return_prog ()))"

section \<open>Listings\<close>

datatype inventory_view = GrantsView | OperationsView | InitialView

fun view_prefix :: "inventory_view \<Rightarrow> string" where
  "view_prefix GrantsView = ''consent/grant/''"
| "view_prefix OperationsView = ''consent/operation/''"
| "view_prefix InitialView = ''consent/command/''"

datatype inventory_item =
    GrantItem string int record_state string consent_scope "string option"
  | OperationItem string int record_state string string
  | InitialItem string bool string bool

record inventory_page =
  ip_items :: "inventory_item list"
  ip_next_after :: "string option"
  ip_revision :: int
  ip_generation :: string
  ip_initial_count :: int
  ip_reduced_count :: int

definition shown_state ::
  "'x svc_scheme \<Rightarrow> consent_context \<Rightarrow> string \<Rightarrow> string \<Rightarrow> int \<Rightarrow> record_state \<Rightarrow> record_state" where
  "shown_state s c generation command version state =
     (if generation \<noteq> cx_generation c \<or> Some version \<noteq> map_of (sv_versions s) command
      then Invalidated else state)"

definition initial_items ::
  "'x svc_scheme \<Rightarrow> consent_context \<Rightarrow> string \<Rightarrow> string option \<Rightarrow> (string \<times> inventory_item) list" where
  "initial_items s c after command_id =
     map (\<lambda>command. (command, InitialItem command
            (command \<in> cp_permissions (sv_policy s) \<and> initial_allows s command c)
            (cp_initial_mode (sv_policy s)) (command \<in> set (cx_reduced c))))
       (filter (\<lambda>command. command \<notin> cp_controls (sv_policy s) \<and> after < command
                  \<and> (command_id = None \<or> command_id = Some command))
          (sort (map fst (sv_versions s))))"

definition record_item ::
  "'x svc_scheme \<Rightarrow> consent_context \<Rightarrow> inventory_view \<Rightarrow> string option \<Rightarrow> consent_values \<Rightarrow> string \<Rightarrow>
   (string \<times> inventory_item) option" where
  "record_item s c view command_id records key =
     (case view of
        GrantsView \<Rightarrow> (case find_grant records key of
            None \<Rightarrow> None
          | Some g \<Rightarrow> if command_id \<noteq> None \<and> command_id \<noteq> Some (gr_command_id g) then None
              else Some (key, GrantItem (gr_command_id g) (gr_command_version g)
                (shown_state s c (gr_generation g) (gr_command_id g) (gr_command_version g) (gr_state g))
                (gr_grant_id g) (gr_scope g) (gr_operation_id g)))
      | OperationsView \<Rightarrow> (case find_operation records key of
            None \<Rightarrow> None
          | Some r \<Rightarrow> (let command = ob_command_id (op_binding r); version = ob_command_version (op_binding r) in
              if command_id \<noteq> None \<and> command_id \<noteq> Some command then None
              else Some (key, OperationItem command version
                (shown_state s c (op_generation r) command version (op_state r))
                (op_operation_id r) (op_digest r))))
      | InitialView \<Rightarrow> None)"

definition stale_cursor :: "('s, 'a) prog \<Rightarrow> ('s, 'a) prog" where
  "stale_cursor m s = (case m s of
     (Inl e, s1) \<Rightarrow> (Inl (if is_value_error e then ConsentError ''stale_cursor'' else e), s1)
   | (Inr x, s1) \<Rightarrow> (Inr x, s1))"

definition inventory_records ::
  "inventory_view \<Rightarrow> consent_context \<Rightarrow> key_page \<Rightarrow> string \<Rightarrow> int \<Rightarrow> string option \<Rightarrow>
   ('x svc_scheme, (string \<times> inventory_item) list) prog" where
  "inventory_records view c page after limit command_id =
     (case view of
        InitialView \<Rightarrow> lift_result (\<lambda>s. Inr (initial_items s c after command_id))
      | _ \<Rightarrow>
          let keys = filter (\<lambda>k. after < k) (page_keys page);
              selected = (case command_id of Some _ \<Rightarrow> keys | None \<Rightarrow> take (nat limit + 1) keys) in
          bind_prog (svc_snapshot selected) (\<lambda>sn s.
          (Inr (List.map_filter (record_item s c view command_id (vals_of sn)) selected), s)))"

definition svc_inventory ::
  "inventory_view \<Rightarrow> string \<Rightarrow> int option \<Rightarrow> int \<Rightarrow> string option \<Rightarrow> ('x svc_scheme, inventory_page) prog" where
  "svc_inventory view after revision limit command_id =
     bind_prog (lift_result (\<lambda>s. check_that (1 \<le> limit \<and> limit \<le> 64) ValueError)) (\<lambda>_.
     bind_prog svc_context (\<lambda>context_snapshot.
     bind_prog (stale_cursor (svc_list_keys (view_prefix view) None 128 revision)) (\<lambda>page.
     bind_prog (lift_result (\<lambda>s. need_context (vals_of context_snapshot))) (\<lambda>c.
     bind_prog (inventory_records view c page after limit command_id) (\<lambda>items.
     bind_prog (stale_cursor (svc_list_keys (view_prefix view) None 1 (Some (page_revision page)))) (\<lambda>_.
     bind_prog (svc_exchange (snap_versions context_snapshot) []) (\<lambda>ok s.
     if \<not> ok then (Inl (ConsentError ''stale_cursor''), s)
     else (Inr \<lparr>ip_items = map snd (take (nat limit) items),
                ip_next_after = (if int (length items) > limit then Some (fst (items ! (nat limit - 1))) else None),
                ip_revision = page_revision page, ip_generation = cx_generation c,
                ip_initial_count = int (card (cp_initial (sv_policy s) - set (cx_reduced c))),
                ip_reduced_count = int (length (cx_reduced c))\<rparr>, s))))))))"

text \<open>\<open>grant_page\<close>: owned grants, their generation withheld and outdated ones shown as such.\<close>

record grant_page =
  gp_items :: "grant_record list"
  gp_next_after :: "string option"
  gp_revision :: int
  gp_context_id :: string
  gp_reduced_commands :: "string list"

definition svc_grant_page ::
  "string option \<Rightarrow> int option \<Rightarrow> int \<Rightarrow> ('x svc_scheme, grant_page) prog" where
  "svc_grant_page after revision limit =
     bind_prog svc_context (\<lambda>cs.
     bind_prog (lift_result (\<lambda>s. need_context (vals_of cs))) (\<lambda>c.
     bind_prog (svc_list_keys ''consent/grant/'' after limit revision) (\<lambda>page.
     bind_prog (svc_snapshot (page_keys page)) (\<lambda>sn s.
     (Inr \<lparr>gp_items = List.map_filter (\<lambda>k. map_option (\<lambda>g.
              g\<lparr>gr_state := shown_state s c (gr_generation g) (gr_command_id g) (gr_command_version g) (gr_state g),
                gr_generation := []\<rparr>) (find_grant (vals_of sn) k)) (page_keys page),
           gp_next_after = page_next_after page, gp_revision = page_revision page,
           gp_context_id = ci_context_id (sv_identity s), gp_reduced_commands = cx_reduced c\<rparr>, s)))))"

record consent_summary =
  cs_ceiling :: string
  cs_initial :: string
  cs_context :: string

text \<open>\<open>summary()\<close>: the fields that vary; the rest of the dictionary is constant.\<close>

definition svc_summary :: "('x svc_scheme, consent_summary) prog" where
  "svc_summary = bind_prog svc_context (\<lambda>_. lift_result (\<lambda>s.
     Inr \<lparr>cs_ceiling = cp_ceiling_profile (sv_policy s), cs_initial = cp_initial_mode (sv_policy s),
          cs_context = ci_kind (sv_identity s)\<rparr>))"

section \<open>Construction\<close>

text \<open>\<open>ConsentService.__init__\<close>\<close>

definition new_service ::
  "(string \<Rightarrow> string) \<Rightarrow> (nat \<Rightarrow> string) \<Rightarrow> consent_value store \<Rightarrow> consent_identity \<Rightarrow> consent_policy \<Rightarrow>
   (string \<times> int) list \<Rightarrow> (nat \<Rightarrow> exn + consent_identity \<times> consent_policy) option \<Rightarrow> exn + svc" where
  "new_service hx uuids store identity policy versions refresh =
     bind_result (check_all (\<lambda>(command, version).
         bind_result (validate_command_id command) (\<lambda>_. check_that (1 \<le> version) ValueError)) versions) (\<lambda>_.
     Inr \<lparr>sv_hex = hx, sv_uuid = uuids, sv_uuids_drawn = 0, sv_identity = identity, sv_policy = policy,
          sv_versions = versions, sv_refresh = refresh, sv_refreshes = 0, sv_store = store, sv_env = []\<rparr>)"

end
