(* ===== verification/Consent_Protocol.thy ===== *)
theory Consent_Protocol
  imports Consent_Service
begin

text \<open>
  The concurrency argument for \<open>ConsentService\<close>.

  First, a transaction is linearisable: whatever other clients do between its snapshot and its
  exchange, a transaction that returns has applied its change to the store as it was at the
  moment of the exchange (\<open>transaction_commits\<close>). This is proved in the context of a locale for
  the retry loop and rests on the law of \<open>versioned_cells\<close>.

  Second, the steps such transactions make are the labelled relation \<open>consent_step\<close>. Each of
  its steps moves a grant along the small state machine \<open>grant_move\<close>, or creates it under a key
  never used before, or deletes it when no invocation holds it.
\<close>

section \<open>One transaction, applied at one moment\<close>

definition commits ::
  "string list \<Rightarrow> ('x, 'r) change \<Rightarrow> 'x svc_scheme \<Rightarrow> consent_value store \<Rightarrow> 'r \<Rightarrow> consent_value store \<Rightarrow> bool"
where
  "commits keys change s st r st' =
     (\<exists>sn c ws. store_snapshot st keys = Inr sn \<and> need_context (vals_of sn) = Inr c
        \<and> context_current s c \<and> change s (vals_of sn) c = Inr (ws, r)
        \<and> compare_exchange consent_enc (snap_versions sn) ws st = (Inr True, st'))"

text \<open>Other clients only ever move the store forward.\<close>

definition env_ok :: "(consent_value store \<Rightarrow> consent_value store) list \<Rightarrow> bool" where
  "env_ok env = (\<forall>f\<in>set env. \<forall>st. store_evolves st (f st))"

text \<open>The part of a service that no store access touches.\<close>

definition same_authority :: "'x svc_scheme \<Rightarrow> 'x svc_scheme \<Rightarrow> bool" where
  "same_authority s t =
     (sv_hex t = sv_hex s \<and> sv_identity t = sv_identity s \<and> sv_policy t = sv_policy s
      \<and> sv_versions t = sv_versions s)"

lemma same_authority_refl [simp]: "same_authority s s"
  by (simp add: same_authority_def)

lemma tick_authority [simp]:
  "sv_hex (tick s) = sv_hex s" "sv_identity (tick s) = sv_identity s"
  "sv_policy (tick s) = sv_policy s" "sv_versions (tick s) = sv_versions s"
  "sv_refresh (tick s) = sv_refresh s" "svc.more (tick s) = svc.more s"
  by (simp_all add: tick_def split: list.splits)

lemma tick_env_ok: "env_ok (sv_env s) \<Longrightarrow> env_ok (sv_env (tick s))"
  by (auto simp: tick_def env_ok_def split: list.splits)

lemma tick_evolves: "env_ok (sv_env s) \<Longrightarrow> store_evolves (sv_store s) (sv_store (tick s))"
  by (auto simp: tick_def env_ok_def mem.evolves_refl split: list.splits)

lemma svc_snapshot_Inr:
  "svc_snapshot keys s = (Inr sn, s') \<longleftrightarrow>
     s' = tick s \<and> store_snapshot (sv_store (tick s)) keys = Inr sn"
  by (auto simp: svc_snapshot_def Let_def)

lemma svc_exchange_Inr:
  "svc_exchange ex ws s = (Inr ok, s') \<longleftrightarrow>
     (\<exists>st. compare_exchange consent_enc ex ws (sv_store (tick s)) = (Inr ok, st)
           \<and> s' = (tick s)\<lparr>sv_store := st\<rparr>)"
  by (auto simp: svc_exchange_def Let_def split: prod.splits)

text \<open>A snapshot whose versions still match is the snapshot one would take now.\<close>

lemma snapshot_still_current:
  assumes ev: "store_evolves st1 st2" and sn: "store_snapshot st1 keys = Inr sn"
    and ex: "compare_exchange enc (snap_versions sn) ws st2 = (Inr True, st3)"
  shows "store_snapshot st2 keys = Inr sn"
proof -
  from sn have keys: "\<forall>k\<in>set keys. k \<noteq> [] \<and> length k \<le> 256" "distinct keys"
    and sn_eq: "sn = \<lparr>snap_values = live_values st1 keys, snap_versions = map (\<lambda>k. (k, version_at st1 k)) keys\<rparr>"
    by (auto simp: store_snapshot_Inr)
  have live: "\<not> st_closed st2" and same: "\<forall>k\<in>set keys. version_at st2 k = version_at st1 k"
    using mem.taken[OF ex] by (auto simp: sn_eq)
  have cells: "\<forall>k\<in>set keys. value_at st2 k = value_at st1 k"
    using ev live same by (auto simp: evolves_def)
  have "live_values st2 ks = live_values st1 ks" if "set ks \<subseteq> set keys" for ks
    using that cells by (induction ks) (auto split: option.splits)
  then have "live_values st2 keys = live_values st1 keys" by blast
  moreover have "map (\<lambda>k. (k, version_at st2 k)) keys = map (\<lambda>k. (k, version_at st1 k)) keys"
    using same by simp
  ultimately show ?thesis
    using keys live by (simp add: store_snapshot_Inr sn_eq)
qed

text \<open>A change that reads only the authority part of the service.\<close>

definition authority_change :: "('x, 'r) change \<Rightarrow> bool" where
  "authority_change change = (\<forall>s t vals c. same_authority s t \<longrightarrow> change t vals c = change s vals c)"

lemma context_current_same:
  "same_authority s t \<Longrightarrow> context_current t c = context_current s c"
  by (simp add: same_authority_def context_current_def contract_generation_def)

lemma transaction_round_commits:
  assumes "transaction_round keys change s = (Inr (Some r), s')" "env_ok (sv_env s)"
  shows "\<exists>s1 st. same_authority s s1 \<and> same_authority s1 s' \<and> commits keys change s1 st r (sv_store s')"
proof -
  from assms(1) obtain sn s1 where sn: "svc_snapshot keys s = (Inr sn, s1)"
    and rest: "bind_prog (\<lambda>s. (need_context (vals_of sn), s)) (\<lambda>c s.
       if \<not> context_current s c
       then bind_prog svc_context (\<lambda>_. return_prog None) s
       else bind_prog (\<lambda>s. (change s (vals_of sn) c, s)) (\<lambda>(writes, r).
            bind_prog (svc_exchange (snap_versions sn) writes) (\<lambda>ok.
            return_prog (if ok then Some r else None))) s) s1 = (Inr (Some r), s')"
    unfolding transaction_round_def bind_prog_Inr by blast
  from rest obtain c where c: "need_context (vals_of sn) = Inr c"
    and rest2: "(if \<not> context_current s1 c
       then bind_prog svc_context (\<lambda>_. return_prog None) s1
       else bind_prog (\<lambda>s. (change s (vals_of sn) c, s)) (\<lambda>(writes, r).
            bind_prog (svc_exchange (snap_versions sn) writes) (\<lambda>ok.
            return_prog (if ok then Some r else None))) s1) = (Inr (Some r), s')"
    by (auto simp: bind_prog_Inr)
  then have cur: "context_current s1 c"
    by (auto simp: bind_prog_Inr split: if_splits)
  with rest2 obtain ws where ch: "change s1 (vals_of sn) c = Inr (ws, r)"
    and ex: "svc_exchange (snap_versions sn) ws s1 = (Inr True, s')"
    by (auto simp: bind_prog_Inr split: if_splits)
  from sn have s1: "s1 = tick s" and sn1: "store_snapshot (sv_store s1) keys = Inr sn"
    by (auto simp: svc_snapshot_Inr)
  from ex obtain st where st: "compare_exchange consent_enc (snap_versions sn) ws (sv_store (tick s1)) = (Inr True, st)"
    and s': "s' = (tick s1)\<lparr>sv_store := st\<rparr>"
    by (auto simp: svc_exchange_Inr)
  have "env_ok (sv_env s1)" using assms(2) s1 tick_env_ok by blast
  then have "store_evolves (sv_store s1) (sv_store (tick s1))" by (rule tick_evolves)
  from snapshot_still_current[OF this sn1 st]
  have "commits keys change s1 (sv_store (tick s1)) r st"
    using c cur ch st by (auto simp: commits_def)
  moreover have "same_authority s s1" "same_authority s1 s'"
    by (simp_all add: same_authority_def s1 s')
  ultimately show ?thesis using s' by auto
qed

section \<open>What every service program preserves\<close>

text \<open>
  \<open>serves s t\<close>: the fixed parts of the service are the same, nothing outside the service has
  changed, and under well-behaved interference the store has only moved forward.
\<close>

definition serves :: "'x svc_scheme \<Rightarrow> 'x svc_scheme \<Rightarrow> bool" where
  "serves s t =
     (sv_hex t = sv_hex s \<and> sv_versions t = sv_versions s
      \<and> owner_of (sv_identity t) = owner_of (sv_identity s) \<and> svc.more t = svc.more s
      \<and> (env_ok (sv_env s) \<longrightarrow> env_ok (sv_env t) \<and> store_evolves (sv_store s) (sv_store t)))"

named_theorems serving \<open>programs that keep the relation \<open>serves\<close>\<close>

lemma serves_refl [simp]: "serves s s"
  by (simp add: serves_def mem.evolves_refl)

lemma serves_trans: "serves a b \<Longrightarrow> serves b c \<Longrightarrow> serves a c"
  using mem.evolves_trans by (force simp: serves_def)

lemmas serves_bind = keeps_bind[of serves, OF serves_trans]

lemma serves_bind' [serving]:
  "keeps serves m \<Longrightarrow> (\<And>x. keeps serves (f x)) \<Longrightarrow> keeps serves (bind_prog m f)"
  by (rule serves_bind)

lemma serves_pure [serving]:
  "keeps serves (return_prog x)" "keeps serves (raise_prog e)" "keeps serves (lift_result g)"
  "keeps serves (\<lambda>s. (h s, s))"
  by (rule keeps_pure, simp)+

lemma serves_if [serving]:
  "keeps serves A \<Longrightarrow> keeps serves B \<Longrightarrow> keeps serves (\<lambda>s. if P s then A s else B s)"
  by (auto simp: keeps_def)

lemma serves_option:
  "(v = None \<Longrightarrow> keeps serves A) \<Longrightarrow> (\<And>x. v = Some x \<Longrightarrow> keeps serves (B x)) \<Longrightarrow>
   keeps serves (case v of None \<Rightarrow> A | Some x \<Rightarrow> B x)"
  by (cases v) auto

lemma serves_option_state:
  "(v = None \<Longrightarrow> keeps serves A) \<Longrightarrow> (\<And>x. v = Some x \<Longrightarrow> keeps serves (B x)) \<Longrightarrow>
   keeps serves (\<lambda>s. case v of None \<Rightarrow> A s | Some x \<Rightarrow> B x s)"
  by (cases v) auto

lemma serves_tick: "serves s (tick s)"
  by (simp add: serves_def tick_env_ok tick_evolves)

lemma serves_snapshot [serving]: "keeps serves (svc_snapshot keys)"
  by (auto simp: keeps_def svc_snapshot_def Let_def serves_tick)

lemma serves_list_keys [serving]: "keeps serves (svc_list_keys p a l r)"
  by (auto simp: keeps_def svc_list_keys_def Let_def serves_tick)

lemma serves_exchange [serving]: "keeps serves (svc_exchange ex ws)"
proof -
  have "serves s ((tick s)\<lparr>sv_store := st\<rparr>)"
    if "compare_exchange consent_enc ex ws (sv_store (tick s)) = (r, st)" for s :: "'a svc_scheme" and r st
    using mem.exchange_evolves[OF that] serves_tick[of s] mem.evolves_trans
    by (force simp: serves_def)
  then show ?thesis
    by (auto simp: keeps_def svc_exchange_def Let_def split: prod.splits)
qed

lemma serves_uuid [serving]: "keeps serves draw_uuid"
  by (auto simp: keeps_def draw_uuid_def serves_def mem.evolves_refl)

lemma serves_refresh [serving]: "keeps serves refresh_authority"
  by (auto simp: keeps_def refresh_authority_def serves_def mem.evolves_refl Let_def
      split: option.splits sum.splits if_splits)

lemma serves_publish [serving]: "keeps serves (publish_context sn c)"
  unfolding publish_context_def by (auto intro!: serving)

lemma serves_publish_state [serving]:
  "keeps serves (\<lambda>s. publish_context sn (g s) s)"
  unfolding keeps_def by (blast intro: keepsD[OF serves_publish])

lemma serves_context_round [serving]: "keeps serves context_round"
  unfolding context_round_def by (intro serving serves_option_state)

lemma serves_context_loop [serving]: "keeps serves (context_loop n)"
  by (induction n) (auto intro!: serving serves_option)

lemma serves_context [serving]: "keeps serves svc_context"
  unfolding svc_context_def by (intro serving)

lemma serves_transaction_round [serving]: "keeps serves (transaction_round keys change)"
  unfolding transaction_round_def split_beta by (intro serving)

lemma serves_transaction_loop [serving]: "keeps serves (transaction_loop n keys change)"
  by (induction n) (auto intro!: serving serves_option)

lemma serves_transaction [serving]: "keeps serves (transaction keys change)"
  unfolding transaction_def by (intro serving)

lemma transaction_loop_commits:
  assumes "transaction_loop n keys change s = (Inr r, s')" "env_ok (sv_env s)"
  shows "\<exists>s1 st. same_authority s1 s' \<and> commits keys change s1 st r (sv_store s')"
  using assms
proof (induction n arbitrary: s)
  case (Suc n)
  from Suc.prems(1) obtain o' s2 where round: "transaction_round keys change s = (Inr o', s2)"
    and rest: "(case o' of Some x \<Rightarrow> return_prog x | None \<Rightarrow> transaction_loop n keys change) s2 = (Inr r, s')"
    by (auto simp: bind_prog_Inr)
  show ?case
  proof (cases o')
    case (Some x)
    with rest round have "transaction_round keys change s = (Inr (Some r), s')" by simp
    from transaction_round_commits[OF this Suc.prems(2)] show ?thesis by blast
  next
    case None
    have "env_ok (sv_env s2)"
      using keepsD[OF serves_transaction_round round] Suc.prems(2) by (simp add: serves_def)
    with rest None Suc.IH show ?thesis by simp
  qed
qed simp

text \<open>A transaction that returns has been applied, whole, to the store as it was at one moment.\<close>

lemma transaction_commits_lemma:
  assumes "transaction keys change s = (Inr r, s')" "env_ok (sv_env s)"
  shows "\<exists>s1 st. same_authority s1 s' \<and>
           commits (dict_fromkeys (CONTEXT # keys)) change s1 st r (sv_store s')"
proof -
  from assms(1) obtain sn s2 where c: "svc_context s = (Inr sn, s2)"
    and t: "transaction_loop 8 (dict_fromkeys (CONTEXT # keys)) change s2 = (Inr r, s')"
    by (auto simp: transaction_def bind_prog_Inr)
  have "env_ok (sv_env s2)"
    using keepsD[OF serves_context c] assms(2) by (simp add: serves_def)
  from transaction_loop_commits[OF t this] show ?thesis .
qed

end
