(* ===== verification/Grant_Machine.thy ===== *)
theory Grant_Machine
  imports Consent_Protocol
begin

text \<open>
  The abstract life of a grant, and the proof that every change the consent service can commit
  follows it. \<open>grant_move\<close> is the specification: authorised, reserved by one invocation, entered,
  spent, with cancellation and revocation on the way. \<open>consent_step\<close> is the implementation: one
  rule per kind of committed transaction, over the store.
\<close>

section \<open>Specification: the life of a grant\<close>

inductive grant_move :: "grant_record \<Rightarrow> grant_record \<Rightarrow> bool" where
  move_reserve: "gr_state g = Authorised \<Longrightarrow> \<not> gr_revoked g \<Longrightarrow> gr_scope g = OperationScope \<Longrightarrow>
     grant_move g (g\<lparr>gr_state := Reserved, gr_invocation_id := Some i\<rparr>)"
| move_enter: "gr_state g = Reserved \<Longrightarrow> \<not> gr_revoked g \<Longrightarrow> gr_invocation_id g \<noteq> None \<Longrightarrow>
     grant_move g (g\<lparr>gr_state := Entered\<rparr>)"
| move_cancel: "gr_state g = Reserved \<Longrightarrow> st = Revoked \<or> st = Authorised \<and> \<not> gr_revoked g \<Longrightarrow>
     grant_move g (g\<lparr>gr_invocation_id := None, gr_state := st\<rparr>)"
| move_finish: "gr_state g \<in> {Entered, Spent} \<Longrightarrow> grant_move g (g\<lparr>gr_state := Spent\<rparr>)"
| move_revoke: "gr_state g \<in> {Reserved, Entered} \<Longrightarrow> \<not> gr_revoked g \<Longrightarrow>
     grant_move g (g\<lparr>gr_revoked := True\<rparr>)"

inductive_simps grant_move_to: "grant_move g h"

text \<open>No move leads back from entry, and no move into entry leaves a revoked grant.\<close>

lemma grant_move_entered:
  "grant_move g h \<Longrightarrow> gr_state g \<in> {Entered, Spent} \<Longrightarrow> gr_state h \<in> {Entered, Spent}"
  by (auto simp: grant_move_to)

lemma grant_move_into_entry:
  "grant_move g h \<Longrightarrow> gr_state h = Entered \<Longrightarrow> gr_state g \<noteq> Entered \<Longrightarrow>
     gr_state g = Reserved \<and> \<not> gr_revoked g"
  by (auto simp: grant_move_to)

lemma grant_move_revoked: "grant_move g h \<Longrightarrow> gr_revoked g \<Longrightarrow> gr_revoked h"
  by (auto simp: grant_move_to)

lemma grant_move_identity:
  "grant_move g h \<Longrightarrow> gr_grant_id h = gr_grant_id g \<and> gr_command_id h = gr_command_id g
     \<and> gr_command_version h = gr_command_version g \<and> gr_scope h = gr_scope g
     \<and> gr_operation_id h = gr_operation_id g \<and> gr_generation h = gr_generation g
     \<and> gr_request_id h = gr_request_id g"
  by (auto simp: grant_move_to)

section \<open>What a change may write\<close>

text \<open>A grant is created authorised, unreserved and unrevoked, at one of the keys \<open>N\<close>.\<close>

definition fresh_grant :: "grant_record \<Rightarrow> bool" where
  "fresh_grant g = (gr_state g = Authorised \<and> \<not> gr_revoked g \<and> gr_invocation_id g = None)"

definition grant_write :: "string set \<Rightarrow> consent_values \<Rightarrow> string \<Rightarrow> consent_value option \<Rightarrow> bool" where
  "grant_write N vals k w =
     (case w of
        Some (VGrant h) \<Rightarrow> (\<exists>g. vals k = Some (VGrant g) \<and> grant_move g h) \<or> k \<in> N \<and> fresh_grant h
      | None \<Rightarrow> (\<forall>g. vals k = Some (VGrant g) \<longrightarrow> gr_state g \<notin> {Reserved, Entered})
      | Some _ \<Rightarrow> (\<forall>g. vals k \<noteq> Some (VGrant g)))"

definition grant_writes :: "string set \<Rightarrow> consent_values \<Rightarrow> writes \<Rightarrow> bool" where
  "grant_writes N vals ws = (\<forall>(k, w)\<in>set ws. grant_write N vals k w)"

lemma grant_writes_Nil [simp]: "grant_writes N vals []"
  by (simp add: grant_writes_def)

lemma grant_writes_Cons [simp]:
  "grant_writes N vals ((k, w) # ws) \<longleftrightarrow> grant_write N vals k w \<and> grant_writes N vals ws"
  by (simp add: grant_writes_def)

lemma grant_write_simps [simp]:
  "grant_write N vals k (Some (VGrant h)) \<longleftrightarrow>
     (\<exists>g. vals k = Some (VGrant g) \<and> grant_move g h) \<or> k \<in> N \<and> fresh_grant h"
  "grant_write N vals k None \<longleftrightarrow> (\<forall>g. vals k = Some (VGrant g) \<longrightarrow> gr_state g \<notin> {Reserved, Entered})"
  "grant_write N vals k (Some (VOperation r)) \<longleftrightarrow> (\<forall>g. vals k \<noteq> Some (VGrant g))"
  "grant_write N vals k (Some (VContext c)) \<longleftrightarrow> (\<forall>g. vals k \<noteq> Some (VGrant g))"
  "grant_write N vals k (Some (VRequest q)) \<longleftrightarrow> (\<forall>g. vals k \<noteq> Some (VGrant g))"
  "grant_write N vals k (Some (VRetry t)) \<longleftrightarrow> (\<forall>g. vals k \<noteq> Some (VGrant g))"
  "grant_write N vals k (Some (VCommand n)) \<longleftrightarrow> (\<forall>g. vals k \<noteq> Some (VGrant g))"
  by (simp_all add: grant_write_def)

lemma grant_writes_update:
  "grant_writes N vals ws \<Longrightarrow> grant_write N vals k w \<Longrightarrow> grant_writes N vals (AList.update k w ws)"
  by (induction ws) (auto simp: grant_writes_def)

lemma find_grant_Some: "find_grant vals k = Some g \<longleftrightarrow> vals k = Some (VGrant g)"
  by (auto simp: find_grant_def split: option.splits consent_value.splits)

lemma find_operation_Some: "find_operation vals k = Some r \<longleftrightarrow> vals k = Some (VOperation r)"
  by (auto simp: find_operation_def split: option.splits consent_value.splits)

lemma find_retry_Some: "find_retry vals k = Some r \<longleftrightarrow> vals k = Some (VRetry r)"
  by (auto simp: find_retry_def split: option.splits consent_value.splits)

lemma find_request_Some: "find_request vals k = Some r \<longleftrightarrow> vals k = Some (VRequest r)"
  by (auto simp: find_request_def split: option.splits consent_value.splits)

lemmas find_Some = find_grant_Some find_operation_Some find_retry_Some find_request_Some

text \<open>One lemma per change that touches grants.\<close>

lemma reserve_grant_writes:
  assumes "reserve_change a k s vals c = Inr (ws, p)"
  shows "grant_writes N vals ws"
  using assms
  by (auto simp: reserve_change_def bind_result_Inr Let_def find_Some valid_grant_def grant_move_to
      split: option.splits if_splits bool.splits)

lemma enter_grant_writes:
  assumes "enter_change p gk ok s vals c = Inr (ws, u)"
  shows "grant_writes N vals ws"
  using assms
  by (auto simp: enter_change_def bind_result_Inr Let_def find_Some grant_move_to
      split: option.splits if_splits admission_basis.splits)

lemma cancel_grant_writes:
  assumes "cancel_change p gk ok s vals c = Inr (ws, u)"
  shows "grant_writes N vals ws"
  using assms
  by (auto simp: cancel_change_def Let_def find_Some grant_move_to
      split: option.splits if_splits)

lemma finish_grant_writes:
  assumes "finish_change p gk ok s vals c = Inr (ws, u)"
  shows "grant_writes N vals ws"
  using assms
  by (auto simp: finish_change_def Let_def find_Some grant_move_to
      split: option.splits if_splits)

lemma close_writes_operations:
  "close_writes vals ks = Inr ws \<Longrightarrow> (k, r) \<in> set ws \<Longrightarrow>
     \<exists>r'. vals k = Some (VOperation r') \<and> r = r'\<lparr>op_state := Discarding\<rparr> \<and> \<not> active_state (op_state r')
       \<and> k \<in> set ks"
  by (induction ks arbitrary: ws)
    (auto simp: bind_result_Inr find_Some split: option.splits if_splits)

lemma close_grant_writes:
  assumes "close_change ks s vals c = Inr (ws, u)"
  shows "grant_writes N vals ws"
  using assms
  by (force simp: close_change_def bind_result_Inr grant_writes_def dest: close_writes_operations)

text \<open>Besides, pending writes of descriptors are at keys that hold descriptors.\<close>

definition operation_writes :: "consent_values \<Rightarrow> writes \<Rightarrow> bool" where
  "operation_writes vals ws =
     (\<forall>k r. (k, Some (VOperation r)) \<in> set ws \<longrightarrow> (\<exists>r'. vals k = Some (VOperation r')))"

lemma operation_writes_Nil [simp]: "operation_writes vals []"
  by (simp add: operation_writes_def)

lemma set_alist_update: "set (AList.update k w ws) \<subseteq> insert (k, w) (set ws)"
  by (induction ws) auto

lemma operation_writes_update:
  "operation_writes vals ws \<Longrightarrow> (\<And>r. w = Some (VOperation r) \<Longrightarrow> \<exists>r'. vals k = Some (VOperation r')) \<Longrightarrow>
   operation_writes vals (AList.update k w ws)"
  using set_alist_update[of k w ws] by (force simp: operation_writes_def)

lemma reduce_grant_writes:
  assumes "reduce_grant hx related vals k acc = Inr acc'"
    and "grant_writes N vals (fst acc) \<and> operation_writes vals (fst acc)"
  shows "grant_writes N vals (fst acc') \<and> operation_writes vals (fst acc')"
  using assms
  by (auto simp: reduce_grant_def Let_def bind_result_Inr find_Some grant_move_to
      split: option.splits if_splits
      intro!: grant_writes_update operation_writes_update)

lemma reduce_operation_writes:
  assumes "reduce_operation vals k acc = Inr acc'"
    and "grant_writes N vals (fst acc) \<and> operation_writes vals (fst acc)"
  shows "grant_writes N vals (fst acc') \<and> operation_writes vals (fst acc')"
proof (cases "find_operation (pending_values (fst acc) vals) k")
  case None
  with assms show ?thesis by (simp add: reduce_operation_def)
next
  case (Some r)
  then have "\<exists>r'. vals k = Some (VOperation r')"
    using assms(2)
    by (auto simp: find_Some pending_values_def operation_writes_def split: option.splits dest: map_of_SomeD)
  with Some assms show ?thesis
    by (auto simp: reduce_operation_def split: if_splits intro!: grant_writes_update operation_writes_update)
qed

lemma reduce_change_Inr:
  "reduce_change gks oks related commands s vals c = Inr (ws, u) \<longleftrightarrow>
     (\<exists>ws1 n1 ws2 n2. fold_results (reduce_grant (sv_hex s) related vals) gks ([], 0) = Inr (ws1, n1)
        \<and> fold_results (reduce_operation vals) oks (ws1, 0) = Inr (ws2, n2)
        \<and> u = (ws2 \<noteq> [] \<or> sort (remdups (cx_reduced c @ commands)) \<noteq> cx_reduced c)
        \<and> ws = (if u then AList.update CONTEXT (Some (VContext
             (c\<lparr>cx_reduced := sort (remdups (cx_reduced c @ commands)),
                cx_delivery_generation := Some (delivery_count c + 1),
                cx_grant_count := cx_grant_count c - n1,
                cx_prepared_count := cx_prepared_count c - n2\<rparr>))) ws2 else ws2))"
  unfolding reduce_change_def bind_result_Inr Let_def split_paired_Ex prod.case by auto

lemma reduce_change_writes:
  assumes "reduce_change gks oks related commands s vals c = Inr (ws, u)" "vals CONTEXT = Some (VContext c)"
  shows "grant_writes N vals ws"
proof -
  from assms(1)[unfolded reduce_change_Inr] obtain ws1 n1 ws2 n2 c'
    where a: "fold_results (reduce_grant (sv_hex s) related vals) gks ([], 0) = Inr (ws1, n1)"
    and b: "fold_results (reduce_operation vals) oks (ws1, 0) = Inr (ws2, n2)"
    and ws: "ws = (if u then AList.update CONTEXT (Some (VContext c')) ws2 else ws2)"
    by blast
  let ?P = "\<lambda>acc :: writes \<times> int. grant_writes N vals (fst acc) \<and> operation_writes vals (fst acc)"
  have "?P (ws1, n1)"
    by (rule fold_results_invariant[where P = ?P, OF a]) (auto dest: reduce_grant_writes)
  then have "?P (ws1, 0)" by simp
  have "?P (ws2, n2)"
    by (rule fold_results_invariant[where P = ?P, OF b \<open>?P (ws1, 0)\<close>]) (auto dest: reduce_operation_writes)
  with ws assms(2) show ?thesis by (auto intro!: grant_writes_update)
qed

text \<open>The two changes that create records.\<close>

lemma create_grant_writes:
  assumes "create_change b oid op_key retry_key ek pin vv s vals c = Inr (ws, v)"
    and "vals CONTEXT = Some (VContext c)"
    and "\<forall>g. vals op_key \<noteq> Some (VGrant g)" "\<forall>g. vals retry_key \<noteq> Some (VGrant g)"
  shows "grant_writes N vals ws"
  using assms
  by (auto simp: create_change_def bind_result_Inr Let_def split: option.splits if_splits)

lemma grant_grant_writes:
  assumes "grant_change q k fp s vals c = Inr (ws, d)"
    and "vals CONTEXT = Some (VContext c)"
    and "\<forall>g. vals (gk_request k) \<noteq> Some (VGrant g)" "\<forall>g. vals (gk_command k) \<noteq> Some (VGrant g)"
  shows "grant_writes {gk_grant k} vals ws"
  using assms
  by (auto simp: grant_change_def bind_result_Inr Let_def pointer_write_def new_grant_def
      fresh_grant_def find_Some split: option.splits if_splits)

section \<open>From one write to one committed step\<close>

lemma commitsE:
  assumes "commits keys change s st r st'"
  obtains vals c ws where "change s vals c = Inr (ws, r)" "vals CONTEXT = Some (VContext c)"
    and "\<And>k. vals k = (if k \<in> set keys then value_at st k else None)"
    and "fst ` set ws \<subseteq> set keys" "\<not> st_closed st"
    and "context_current s c"
    and "st' = commit_writes consent_enc st ws"
    and "total_after consent_enc st ws \<le> st_max_bytes st"
proof -
  from assms obtain sn c ws where sn: "store_snapshot st keys = Inr sn" and c: "need_context (vals_of sn) = Inr c"
    and cur: "context_current s c" and ch: "change s (vals_of sn) c = Inr (ws, r)"
    and ex: "compare_exchange consent_enc (snap_versions sn) ws st = (Inr True, st')"
    unfolding commits_def by blast
  from sn have eq: "sn = \<lparr>snap_values = live_values st keys, snap_versions = map (\<lambda>k. (k, version_at st k)) keys\<rparr>"
    by (simp add: store_snapshot_Inr)
  from ex have v: "exchange_verdict consent_enc (snap_versions sn) ws st = Inr True"
    and st': "st' = commit_writes consent_enc st ws"
    by (simp_all add: compare_exchange_True)
  show thesis
  proof (rule that)
    show "change s (vals_of sn) c = Inr (ws, r)" by (rule ch)
    show "vals_of sn CONTEXT = Some (VContext c)"
      using c by (auto simp: need_context_def split: option.splits consent_value.splits)
    show "\<And>k. vals_of sn k = (if k \<in> set keys then value_at st k else None)"
      by (simp add: vals_of_def eq live_values_lookup)
    show "fst ` set ws \<subseteq> set keys" "\<not> st_closed st" "total_after consent_enc st ws \<le> st_max_bytes st"
      using v by (auto simp: exchange_verdict_True eq image_image)
  qed (fact cur st')+
qed

text \<open>How one key fares in a step: kept, moved, created, deleted, or not about grants at all.\<close>

definition cell_step :: "string set \<Rightarrow> consent_value store \<Rightarrow> consent_value store \<Rightarrow> string \<Rightarrow> bool" where
  "cell_step N st st' k =
     (version_at st k \<le> version_at st' k \<and>
      (value_at st' k = value_at st k
       \<or> version_at st k < version_at st' k \<and>
          ((\<exists>g h. value_at st k = Some (VGrant g) \<and> value_at st' k = Some (VGrant h) \<and> grant_move g h)
           \<or> (k \<in> N \<and> version_at st k = 0 \<and> (\<exists>h. value_at st' k = Some (VGrant h) \<and> fresh_grant h))
           \<or> (value_at st' k = None \<and> (\<forall>g. value_at st k = Some (VGrant g) \<longrightarrow> gr_state g \<notin> {Reserved, Entered}))
           \<or> (\<forall>g. value_at st k \<noteq> Some (VGrant g)) \<and> (\<forall>g. value_at st' k \<noteq> Some (VGrant g)))))"

definition moves_cells :: "string set \<Rightarrow> consent_value store \<Rightarrow> consent_value store \<Rightarrow> bool" where
  "moves_cells N st st' = (\<forall>k. cell_step N st st' k)"

lemma commit_moves_cells:
  assumes ws: "grant_writes N vals ws"
    and vals: "\<And>k. k \<in> fst ` set ws \<Longrightarrow> vals k = value_at st k"
    and new: "\<And>k. k \<in> N \<Longrightarrow> version_at st k = 0"
  shows "moves_cells N st (commit_writes enc st ws)"
  unfolding moves_cells_def
proof
  fix k
  show "cell_step N st (commit_writes enc st ws) k"
  proof (cases "k \<in> fst ` set ws")
    case False
    then show ?thesis by (simp add: cell_step_def slot_of_commit_kept)
  next
    case True
    then obtain w where w: "(k, w) \<in> set ws" and slot: "slot_of (commit_writes enc st ws) k = snd (replacement enc st (k, w))"
      using slot_of_commit_written[OF True] by blast
    from ws w have "grant_write N vals k w" by (auto simp: grant_writes_def)
    moreover have "vals k = value_at st k" using vals True by blast
    ultimately show ?thesis
      using new[of k] by (auto simp: cell_step_def slot grant_write_def split: option.splits consent_value.splits)
  qed
qed

lemma commits_moves_cells:
  assumes "commits keys change s st r st'"
    and "\<And>vals c ws. change s vals c = Inr (ws, r) \<Longrightarrow> vals CONTEXT = Some (VContext c) \<Longrightarrow>
           (\<And>k g. vals k = Some (VGrant g) \<Longrightarrow> value_at st k = Some (VGrant g)) \<Longrightarrow> grant_writes N vals ws"
    and "\<And>k. k \<in> N \<Longrightarrow> version_at st k = 0"
  shows "moves_cells N st st'"
  using assms(1)
proof (rule commitsE)
  fix vals c ws
  assume ch: "change s vals c = Inr (ws, r)" "vals CONTEXT = Some (VContext c)"
    and vals: "\<And>k. vals k = (if k \<in> set keys then value_at st k else None)"
    and sub: "fst ` set ws \<subseteq> set keys" and st': "st' = commit_writes consent_enc st ws"
  have "grant_writes N vals ws"
    by (rule assms(2)[OF ch]) (simp add: vals split: if_splits)
  then show "moves_cells N st st'"
    unfolding st' by (rule commit_moves_cells) (use vals sub assms(3) in auto)
qed

section \<open>The steps of the consent service\<close>

inductive consent_step :: "(string \<Rightarrow> string) \<Rightarrow> consent_value store \<Rightarrow> consent_value store \<Rightarrow> bool"
  for hx :: "string \<Rightarrow> string" where
  step_prepare: "sv_hex (s :: svc) = hx \<Longrightarrow> valid_binding b \<Longrightarrow>
     commits (dict_fromkeys (CONTEXT # [key_of hx ''operation'' oid, key_of hx ''preparation-request'' rid, ek]))
       (create_change b oid (key_of hx ''operation'' oid) (key_of hx ''preparation-request'' rid) ek pin vv)
       s st v st' \<Longrightarrow> consent_step hx st st'"
| step_grant: "sv_hex (s :: svc) = hx \<Longrightarrow>
     gk_request k = key_of hx ''request'' rid \<Longrightarrow> gk_command k = key_of hx ''command'' cid \<Longrightarrow>
     gk_operation k \<in> {None} \<union> range (\<lambda>oid. Some (key_of hx ''operation'' oid)) \<Longrightarrow>
     gk_grant k = key_of hx ''grant'' (gk_grant_id k) \<Longrightarrow>
     version_at st (gk_grant k) = 0 \<Longrightarrow>
     commits keys (grant_change q k fp) s st d st' \<Longrightarrow> consent_step hx st st'"
| step_reserve: "sv_hex (s :: svc) = hx \<Longrightarrow> commits keys (reserve_change a ak) s st p st' \<Longrightarrow> consent_step hx st st'"
| step_enter: "sv_hex (s :: svc) = hx \<Longrightarrow> commits keys (enter_change p gk ok) s st u st' \<Longrightarrow> consent_step hx st st'"
| step_cancel: "sv_hex (s :: svc) = hx \<Longrightarrow> commits keys (cancel_change p gk ok) s st u st' \<Longrightarrow> consent_step hx st st'"
| step_finish: "sv_hex (s :: svc) = hx \<Longrightarrow> commits keys (finish_change p gk ok) s st u st' \<Longrightarrow> consent_step hx st st'"
| step_discard: "sv_hex (s :: svc) = hx \<Longrightarrow> commits keys (close_change ks) s st rs st' \<Longrightarrow> consent_step hx st st'"
| step_reduce: "sv_hex (s :: svc) = hx \<Longrightarrow>
     commits keys (reduce_change gks oks related commands) s st ch st' \<Longrightarrow> consent_step hx st st'"
| step_context: "store_snapshot st [CONTEXT] = Inr sn \<Longrightarrow> get_context (vals_of sn) = Inr found \<Longrightarrow>
     compare_exchange consent_enc (snap_versions sn) [(CONTEXT, Some (VContext c))] st = (Inr True, st') \<Longrightarrow>
     consent_step hx st st'"

text \<open>Grants are stored under grant keys only.\<close>

definition grants_typed :: "(string \<Rightarrow> string) \<Rightarrow> consent_value store \<Rightarrow> bool" where
  "grants_typed hx st = (\<forall>k g. value_at st k = Some (VGrant g) \<longrightarrow> (\<exists>i. k = key_of hx ''grant'' i))"

lemma grants_typed_other:
  assumes "grants_typed hx st"
  shows "value_at st (key_of hx ''operation'' i) \<noteq> Some (VGrant g)"
    "value_at st (key_of hx ''request'' i) \<noteq> Some (VGrant g)"
    "value_at st (key_of hx ''command'' i) \<noteq> Some (VGrant g)"
    "value_at st (key_of hx ''preparation-request'' i) \<noteq> Some (VGrant g)"
    "value_at st CONTEXT \<noteq> Some (VGrant g)"
  using assms unfolding grants_typed_def by (auto dest!: spec)

lemma moves_cells_typed:
  assumes "moves_cells N st st'" "grants_typed hx st" "N \<subseteq> range (key_of hx ''grant'')"
  shows "grants_typed hx st'"
  unfolding grants_typed_def
proof (intro allI impI)
  fix k h assume h: "value_at st' k = Some (VGrant h)"
  from assms(1) have "cell_step N st st' k" by (simp add: moves_cells_def)
  then show "\<exists>i. k = key_of hx ''grant'' i"
    using assms(2,3) h unfolding cell_step_def grants_typed_def by fastforce
qed

lemma consent_step_moves:
  assumes "consent_step hx st st'" "grants_typed hx st"
  shows "\<exists>N \<subseteq> range (key_of hx ''grant''). moves_cells N st st'"
  using assms(1)
proof cases
  case (step_prepare s oid rid ek b pin vv v)
  have "moves_cells {} st st'"
    using step_prepare(3) by (rule commits_moves_cells)
      (auto dest!: create_grant_writes intro: grants_typed_other(1,4)[OF assms(2), THEN notE])
  then show ?thesis by blast
next
  case (step_grant s k rid cid keys q fp d)
  have "moves_cells {gk_grant k} st st'"
    using step_grant(7)
  proof (rule commits_moves_cells)
    fix vals c ws
    assume ch: "grant_change q k fp s vals c = Inr (ws, d)" "vals CONTEXT = Some (VContext c)"
      and vals: "\<And>k g. vals k = Some (VGrant g) \<Longrightarrow> value_at st k = Some (VGrant g)"
    show "grant_writes {gk_grant k} vals ws"
      using vals grants_typed_other[OF assms(2)] step_grant(2,3)
      by (intro grant_grant_writes[OF ch]) metis+
  qed (use step_grant(6) in simp)
  moreover have "{gk_grant k} \<subseteq> range (key_of hx ''grant'')"
    using step_grant(5) by simp
  ultimately show ?thesis by blast
next
  case (step_reserve s keys a ak p)
  have "moves_cells {} st st'"
    using step_reserve(2) by (rule commits_moves_cells) (auto intro: reserve_grant_writes)
  then show ?thesis by blast
next
  case (step_enter s keys p gk ok u)
  have "moves_cells {} st st'"
    using step_enter(2) by (rule commits_moves_cells) (auto intro: enter_grant_writes)
  then show ?thesis by blast
next
  case (step_cancel s keys p gk ok u)
  have "moves_cells {} st st'"
    using step_cancel(2) by (rule commits_moves_cells) (auto intro: cancel_grant_writes)
  then show ?thesis by blast
next
  case (step_finish s keys p gk ok u)
  have "moves_cells {} st st'"
    using step_finish(2) by (rule commits_moves_cells) (auto intro: finish_grant_writes)
  then show ?thesis by blast
next
  case (step_discard s keys ks rs)
  have "moves_cells {} st st'"
    using step_discard(2) by (rule commits_moves_cells) (auto intro: close_grant_writes)
  then show ?thesis by blast
next
  case (step_reduce s keys gks oks related commands ch)
  have "moves_cells {} st st'"
    using step_reduce(2) by (rule commits_moves_cells) (auto intro: reduce_change_writes)
  then show ?thesis by blast
next
  case (step_context sn found c)
  then have st': "st' = commit_writes consent_enc st [(CONTEXT, Some (VContext c))]"
    by (simp add: compare_exchange_True)
  have "grant_writes {} (value_at st) [(CONTEXT, Some (VContext c))]"
    using grants_typed_other(5)[OF assms(2)] by simp
  then have "moves_cells {} st st'"
    unfolding st' by (rule commit_moves_cells) auto
  then show ?thesis by blast
qed

end
