(* ===== verification/Consent_Runs.thy ===== *)
theory Consent_Runs
  imports Grant_Machine
begin

text \<open>
  Runs of the consent store: any number of services, each committing one step at a time. The
  properties here are about every such run: a grant is entered at most once, a revoked grant is
  never entered, and a grant whose generation has passed is not accepted.
\<close>

section \<open>Runs\<close>

fun consent_run :: "(string \<Rightarrow> string) \<Rightarrow> consent_value store list \<Rightarrow> bool" where
  "consent_run hx [] = True"
| "consent_run hx [st] = True"
| "consent_run hx (st # st' # sts) = (consent_step hx st st' \<and> consent_run hx (st' # sts))"

definition grant_at :: "consent_value store \<Rightarrow> string \<Rightarrow> grant_record option" where
  "grant_at st k = find_grant (value_at st) k"

definition enters :: "string \<Rightarrow> consent_value store \<Rightarrow> consent_value store \<Rightarrow> bool" where
  "enters k st st' =
     ((case grant_at st' k of Some g \<Rightarrow> gr_state g = Entered | None \<Rightarrow> False)
      \<and> \<not> (case grant_at st k of Some g \<Rightarrow> gr_state g = Entered | None \<Rightarrow> False))"

fun entries :: "string \<Rightarrow> consent_value store list \<Rightarrow> nat" where
  "entries k [] = 0"
| "entries k [st] = 0"
| "entries k (st # st' # sts) = (if enters k st st' then 1 else 0) + entries k (st' # sts)"

lemma consent_step_typed:
  "consent_step hx st st' \<Longrightarrow> grants_typed hx st \<Longrightarrow> grants_typed hx st'"
  using consent_step_moves moves_cells_typed by blast

lemma grant_at_Some: "grant_at st k = Some g \<longleftrightarrow> value_at st k = Some (VGrant g)"
  by (simp add: grant_at_def find_grant_Some)

text \<open>A key past entry: its grant was entered, or it is gone for good.\<close>

definition past_entry :: "consent_value store \<Rightarrow> string \<Rightarrow> bool" where
  "past_entry st k = (0 < version_at st k \<and>
     (case grant_at st k of Some g \<Rightarrow> gr_state g \<in> {Entered, Spent} | None \<Rightarrow> True))"

definition never_enters :: "consent_value store \<Rightarrow> string \<Rightarrow> bool" where
  "never_enters st k = (0 < version_at st k \<and>
     (case grant_at st k of Some g \<Rightarrow> gr_state g \<in> {Entered, Spent} \<or> gr_revoked g | None \<Rightarrow> True))"

lemma cell_step_grant:
  assumes "cell_step N st st' k" "0 < version_at st k"
  shows "(case grant_at st' k of None \<Rightarrow> True | Some h \<Rightarrow>
      (\<exists>g. grant_at st k = Some g \<and> (h = g \<or> grant_move g h))) \<and> 0 < version_at st' k"
  using assms unfolding cell_step_def
  by (auto simp: grant_at_Some split: option.splits)

lemma never_enters_kept:
  assumes "cell_step N st st' k" "never_enters st k"
  shows "never_enters st' k" "\<not> enters k st st'"
  using cell_step_grant[OF assms(1)] assms(2) grant_move_entered grant_move_revoked grant_move_into_entry
  by (fastforce simp: never_enters_def enters_def split: option.splits)+

lemma entered_never_enters:
  assumes "cell_step N st st' k" "enters k st st'" "0 < version_at st k"
  shows "never_enters st' k"
  using cell_step_grant[OF assms(1,3)] assms(2)
  by (auto simp: never_enters_def enters_def split: option.splits)

text \<open>What a run starts from: the versions count the writes, and grants are under grant keys.\<close>

definition run_ready :: "(string \<Rightarrow> string) \<Rightarrow> consent_value store \<Rightarrow> bool" where
  "run_ready hx st = (grants_typed hx st \<and>
     (\<forall>k. 0 \<le> version_at st k \<and> (value_at st k \<noteq> None \<longrightarrow> 0 < version_at st k)))"

lemma run_ready_step:
  assumes "consent_step hx st st'" "run_ready hx st"
  shows "run_ready hx st'"
proof -
  from assms obtain N where "moves_cells N st st'" using consent_step_moves unfolding run_ready_def by blast
  then have c: "cell_step N st st' k" for k by (simp add: moves_cells_def)
  have "0 \<le> version_at st' k \<and> (value_at st' k \<noteq> None \<longrightarrow> 0 < version_at st' k)" for k
  proof -
    have "0 \<le> version_at st k \<and> (value_at st k \<noteq> None \<longrightarrow> 0 < version_at st k)"
      using assms(2) by (simp add: run_ready_def)
    with c[of k] show ?thesis unfolding cell_step_def by force
  qed
  then show ?thesis using assms consent_step_typed by (simp add: run_ready_def)
qed

lemma entered_from_live:
  assumes "cell_step N st st' k" "enters k st st'" "run_ready hx st"
  shows "0 < version_at st k"
proof -
  from assms(2) obtain h where h: "value_at st' k = Some (VGrant h)" "gr_state h = Entered"
    by (auto simp: enters_def grant_at_Some split: option.splits)
  have "value_at st k \<noteq> None"
  proof
    assume "value_at st k = None"
    with assms(1) h show False by (simp add: cell_step_def fresh_grant_def)
  qed
  with assms(3) show ?thesis by (simp add: run_ready_def)
qed

lemma run_never_enters:
  assumes "consent_run hx (st # sts)" "run_ready hx st" "never_enters st k"
  shows "entries k (st # sts) = 0"
  using assms
proof (induction sts arbitrary: st)
  case (Cons st' sts)
  then have step: "consent_step hx st st'" and rest: "consent_run hx (st' # sts)" by simp_all
  then obtain N where "moves_cells N st st'"
    using consent_step_moves Cons.prems(2) unfolding run_ready_def by blast
  then have c: "cell_step N st st' k" by (simp add: moves_cells_def)
  have "run_ready hx st'" by (rule run_ready_step[OF step Cons.prems(2)])
  with Cons.IH[OF rest this] never_enters_kept[OF c Cons.prems(3)] show ?case by simp
qed simp

lemma run_entries:
  assumes "consent_run hx (st # sts)" "run_ready hx st"
  shows "entries k (st # sts) \<le> 1"
  using assms
proof (induction sts arbitrary: st)
  case (Cons st' sts)
  then have step: "consent_step hx st st'" and rest: "consent_run hx (st' # sts)" by simp_all
  then obtain N where "moves_cells N st st'"
    using consent_step_moves Cons.prems(2) unfolding run_ready_def by blast
  then have c: "cell_step N st st' k" by (simp add: moves_cells_def)
  have ready: "run_ready hx st'" by (rule run_ready_step[OF step Cons.prems(2)])
  show ?case
  proof (cases "enters k st st'")
    case True
    have "never_enters st' k"
      using entered_never_enters[OF c True entered_from_live[OF c True Cons.prems(2)]] .
    with run_never_enters[OF rest ready this] True show ?thesis by simp
  next
    case False
    with Cons.IH[OF rest ready] show ?thesis by simp
  qed
qed simp

section \<open>Descriptors keep what was reviewed\<close>

text \<open>A descriptor carries the digest and the review text of its own binding.\<close>

definition faithful :: "(string \<Rightarrow> string) \<Rightarrow> operation_record \<Rightarrow> bool" where
  "faithful hx r = (op_digest r = binding_digest hx (op_binding r) \<and> op_review r = review_text (op_binding r)
     \<and> valid_binding (op_binding r))"

definition faithful_write :: "(string \<Rightarrow> string) \<Rightarrow> consent_value option \<Rightarrow> bool" where
  "faithful_write hx w = (case w of Some (VOperation r) \<Rightarrow> faithful hx r | _ \<Rightarrow> True)"

definition faithful_writes :: "(string \<Rightarrow> string) \<Rightarrow> writes \<Rightarrow> bool" where
  "faithful_writes hx ws = (\<forall>(k, w)\<in>set ws. faithful_write hx w)"

definition faithful_values :: "(string \<Rightarrow> string) \<Rightarrow> consent_values \<Rightarrow> bool" where
  "faithful_values hx vals = (\<forall>k. faithful_write hx (vals k))"

lemma faithful_write_simps [simp]:
  "faithful_write hx None" "faithful_write hx (Some (VOperation r)) = faithful hx r"
  "faithful_write hx (Some (VGrant g))" "faithful_write hx (Some (VContext c))"
  "faithful_write hx (Some (VRequest q))" "faithful_write hx (Some (VRetry t))"
  "faithful_write hx (Some (VCommand x))"
  by (simp_all add: faithful_write_def)

lemma faithful_writes_simps [simp]:
  "faithful_writes hx []"
  "faithful_writes hx ((k, w) # ws) = (faithful_write hx w \<and> faithful_writes hx ws)"
  by (auto simp: faithful_writes_def)

lemma faithful_update [simp]:
  "faithful hx (r\<lparr>op_state := st\<rparr>) = faithful hx r"
  "faithful hx (r\<lparr>op_invocation_id := i\<rparr>) = faithful hx r"
  "faithful hx (r\<lparr>op_grant_id := gid\<rparr>) = faithful hx r"
  by (simp_all add: faithful_def)

lemma faithful_writes_update:
  "faithful_writes hx ws \<Longrightarrow> faithful_write hx w \<Longrightarrow> faithful_writes hx (AList.update k w ws)"
  by (induction ws) auto

lemma faithful_found: "faithful_values hx vals \<Longrightarrow> vals k = Some (VOperation r) \<Longrightarrow> faithful hx r"
  unfolding faithful_values_def by (metis faithful_write_simps(2))

lemma faithful_changes:
  assumes "faithful_values hx vals"
  shows "reserve_change a ak s vals c = Inr (ws, p) \<Longrightarrow> faithful_writes hx ws"
    and "enter_change p gk ok s vals c = Inr (ws, u) \<Longrightarrow> faithful_writes hx ws"
    and "cancel_change p gk' ok' s vals c = Inr (ws, u) \<Longrightarrow> faithful_writes hx ws"
    and "finish_change p gk' ok' s vals c = Inr (ws, u) \<Longrightarrow> faithful_writes hx ws"
    and "grant_change q k fp s vals c = Inr (ws, d) \<Longrightarrow> faithful_writes hx ws"
  using faithful_found[OF assms]
  by (auto simp: reserve_change_def enter_change_def cancel_change_def finish_change_def grant_change_def
      pointer_write_def bind_result_Inr Let_def find_Some
      split: option.splits if_splits bool.splits admission_basis.splits)

lemma faithful_create:
  "create_change b oid op_key rk ek pin vv s vals c = Inr (ws, v) \<Longrightarrow> sv_hex s = hx \<Longrightarrow> valid_binding b \<Longrightarrow>
   faithful_writes hx ws"
  by (auto simp: create_change_def new_operation_def faithful_def bind_result_Inr Let_def
      split: option.splits if_splits)

lemma faithful_close:
  assumes "faithful_values hx vals" "close_change ks s vals c = Inr (ws, rs)"
  shows "faithful_writes hx ws"
proof -
  from assms(2) obtain rs' where rs: "close_writes vals ks = Inr rs'"
    and ws: "ws = map (\<lambda>(k, r). (k, Some (VOperation r))) rs'"
    by (auto simp: close_change_def bind_result_Inr)
  have "faithful hx r" if "(k, r) \<in> set rs'" for k r
    using close_writes_operations[OF rs that] faithful_found[OF assms(1)] by auto
  then show ?thesis by (auto simp: faithful_writes_def ws)
qed

lemma faithful_pending:
  "faithful_values hx vals \<Longrightarrow> faithful_writes hx ws \<Longrightarrow> faithful_values hx (pending_values ws vals)"
  by (force simp: faithful_values_def pending_values_def faithful_writes_def split: option.splits dest: map_of_SomeD)

lemma faithful_reduce_grant:
  assumes "faithful_values hx vals" "reduce_grant h related vals k acc = Inr acc'" "faithful_writes hx (fst acc)"
  shows "faithful_writes hx (fst acc')"
  using assms(2,3) faithful_found[OF assms(1)]
  by (auto simp: reduce_grant_def Let_def bind_result_Inr find_Some split: option.splits if_splits
      intro!: faithful_writes_update)

lemma faithful_reduce:
  assumes vals: "faithful_values hx vals" and ch: "reduce_change gks oks related commands s vals c = Inr (ws, u)"
  shows "faithful_writes hx ws"
proof -
  from ch[unfolded reduce_change_Inr] obtain ws1 n1 ws2 n2 c'
    where a: "fold_results (reduce_grant (sv_hex s) related vals) gks ([], 0) = Inr (ws1, n1)"
    and b: "fold_results (reduce_operation vals) oks (ws1, 0) = Inr (ws2, n2)"
    and ws: "ws = (if u then AList.update CONTEXT (Some (VContext c')) ws2 else ws2)"
    by blast
  let ?P = "\<lambda>acc :: writes \<times> int. faithful_writes hx (fst acc)"
  have "?P (ws1, n1)"
    by (rule fold_results_invariant[where P = ?P, OF a]) (auto dest: faithful_reduce_grant[OF vals])
  then have "?P (ws1, 0)" by simp
  have "?P (ws2, n2)"
    by (rule fold_results_invariant[where P = ?P, OF b \<open>?P (ws1, 0)\<close>])
      (auto simp: reduce_operation_def split: option.splits if_splits intro!: faithful_writes_update)
  with ws show ?thesis by (auto intro!: faithful_writes_update)
qed

definition faithful_store :: "(string \<Rightarrow> string) \<Rightarrow> consent_value store \<Rightarrow> bool" where
  "faithful_store hx st = faithful_values hx (value_at st)"

lemma faithful_commit:
  assumes "faithful_store hx st" "faithful_writes hx ws"
  shows "faithful_store hx (commit_writes enc st ws)"
  unfolding faithful_store_def faithful_values_def
proof
  fix k
  show "faithful_write hx (value_at (commit_writes enc st ws) k)"
  proof (cases "k \<in> fst ` set ws")
    case True
    from slot_of_commit_written[OF this, of enc st] obtain w where w: "(k, w) \<in> set ws"
      "slot_of (commit_writes enc st ws) k = snd (replacement enc st (k, w))" by blast
    with assms(2) show ?thesis by (auto simp: faithful_writes_def)
  next
    case False
    with assms(1) show ?thesis by (simp add: slot_of_commit_kept faithful_store_def faithful_values_def)
  qed
qed

lemma faithful_commits:
  assumes "commits keys change s st r st'" "faithful_store hx st"
    and "\<And>vals c ws. faithful_values hx vals \<Longrightarrow> change s vals c = Inr (ws, r) \<Longrightarrow> faithful_writes hx ws"
  shows "faithful_store hx st'"
  using assms(1)
proof (rule commitsE)
  fix vals c ws
  assume ch: "change s vals c = Inr (ws, r)"
    and vals: "\<And>k. vals k = (if k \<in> set keys then value_at st k else None)"
    and st': "st' = commit_writes consent_enc st ws"
  have "faithful_values hx vals"
    using assms(2) by (simp add: faithful_store_def faithful_values_def vals)
  then show "faithful_store hx st'"
    unfolding st' using faithful_commit[OF assms(2) assms(3)[OF _ ch]] by blast
qed

lemma faithful_step:
  assumes "consent_step hx st st'" "faithful_store hx st"
  shows "faithful_store hx st'"
  using assms(1)
proof cases
  case (step_prepare s b oid rid ek pin vv v)
  show ?thesis
    by (rule faithful_commits[OF step_prepare(3) assms(2)]) (auto dest: faithful_create[OF _ step_prepare(1,2)])
next
  case (step_grant s k rid cid keys q fp d)
  show ?thesis by (rule faithful_commits[OF step_grant(7) assms(2)]) (rule faithful_changes(5))
next
  case (step_reserve s keys a ak p)
  show ?thesis by (rule faithful_commits[OF step_reserve(2) assms(2)]) (rule faithful_changes(1))
next
  case (step_enter s keys p gk ok u)
  show ?thesis by (rule faithful_commits[OF step_enter(2) assms(2)]) (rule faithful_changes(2))
next
  case (step_cancel s keys p gk ok u)
  show ?thesis by (rule faithful_commits[OF step_cancel(2) assms(2)]) (rule faithful_changes(3))
next
  case (step_finish s keys p gk ok u)
  show ?thesis by (rule faithful_commits[OF step_finish(2) assms(2)]) (rule faithful_changes(4))
next
  case (step_discard s keys ks rs)
  show ?thesis by (rule faithful_commits[OF step_discard(2) assms(2)]) (rule faithful_close)
next
  case (step_reduce s keys gks oks related commands ch)
  show ?thesis by (rule faithful_commits[OF step_reduce(2) assms(2)]) (rule faithful_reduce)
next
  case (step_context sn found c)
  then have st': "st' = commit_writes consent_enc st [(CONTEXT, Some (VContext c))]"
    by (simp add: compare_exchange_True)
  show ?thesis unfolding st' by (rule faithful_commit[OF assms(2)]) simp
qed

lemma faithful_run:
  "consent_run hx (st # sts) \<Longrightarrow> faithful_store hx st \<Longrightarrow> t \<in> set (st # sts) \<Longrightarrow> faithful_store hx t"
proof (induction sts arbitrary: st)
  case (Cons st' sts)
  then have "consent_step hx st st'" "consent_run hx (st' # sts)" by simp_all
  with Cons show ?case using faithful_step by auto
qed simp

section \<open>What a reservation and an entry establish\<close>

lemma permission_Inr:
  "permission s c r = Inr u \<longleftrightarrow> command_id_pattern c \<and> c \<in> fst ` set (sv_versions s)
     \<and> c \<in> cp_permissions (sv_policy s)
     \<and> (r \<longrightarrow> c \<notin> cp_controls (sv_policy s) \<and> cp_request_policy (sv_policy s) = ''allowed''
            \<and> ci_kind (sv_identity s) \<noteq> ''standalone'')"
  by (auto simp: permission_def bind_result_Inr)

lemma reserve_change_operation:
  assumes "reserve_change a k s vals c = Inr (ws, p)" "ak_operation k = Some op_key"
  shows "\<exists>r b. vals op_key = Some (VOperation r) \<and> aq_binding a = Some b
     \<and> op_digest r = binding_digest (sv_hex s) b \<and> op_generation r = cx_generation c
     \<and> ob_command_id b = aq_command_id a \<and> ob_command_version b = aq_command_version a"
  using assms
  by (auto simp: reserve_change_def operation_matches_def bind_result_Inr Let_def find_Some
      split: option.splits)

definition entry_basis ::
  "'x svc_scheme \<Rightarrow> consent_values \<Rightarrow> consent_context \<Rightarrow> admission_proof \<Rightarrow> string option \<Rightarrow> string option \<Rightarrow> writes \<Rightarrow> bool"
where
  "entry_basis s vals c p gk ok ws =
     (case ap_basis p of
        InitialBasis \<Rightarrow> initial_allows s (ap_command_id p) c \<and> ws = []
      | GrantBasis CommandScope \<Rightarrow> ws = [] \<and>
          (\<exists>g_key g. gk = Some g_key \<and> vals g_key = Some (VGrant g) \<and> valid_grant s (Some g) c (ap_command_id p))
      | GrantBasis OperationScope \<Rightarrow>
          (\<exists>g_key g op_key r. gk = Some g_key \<and> vals g_key = Some (VGrant g)
             \<and> gr_state g = Reserved \<and> \<not> gr_revoked g \<and> gr_invocation_id g = Some (ap_invocation_id p)
             \<and> ok = Some op_key \<and> vals op_key = Some (VOperation r) \<and> op_invocation_id r = Some (ap_invocation_id p)
             \<and> ws = [(g_key, Some (VGrant (g\<lparr>gr_state := Entered\<rparr>))),
                     (op_key, Some (VOperation (r\<lparr>op_state := Entered\<rparr>)))]))"

lemma enter_change_Inr:
  assumes "enter_change p gk ok s vals c = Inr (ws, u)"
  shows "permission s (ap_command_id p) False = Inr ()" "cx_generation c = ap_generation p"
    "entry_basis s vals c p gk ok ws"
  using assms
  by (auto simp: enter_change_def entry_basis_def bind_result_Inr Let_def find_Some
        find_grant_Some[THEN iffD2]
      split: option.splits if_splits consent_scope.splits admission_basis.splits)

lemma reserve_change_Inr:
  assumes "reserve_change a k s vals c = Inr (ws, p)"
  shows "ap_command_id p = aq_command_id a" "ap_command_version p = aq_command_version a"
    "ap_invocation_id p = aq_invocation_id a" "ap_operation_id p = aq_operation_id a"
    "ap_generation p = cx_generation c"
  using assms by (auto simp: reserve_change_def bind_result_Inr Let_def make_proof_def)

lemma on_error_Inr: "on_error C m h s = (Inr x, s') \<longleftrightarrow> m s = (Inr x, s')"
  by (auto simp: on_error_def split: prod.splits sum.splits if_splits)

lemma lift_result_Inr: "lift_result f s = (Inr x, s') \<longleftrightarrow> f s = Inr x \<and> s' = s"
  by auto

text \<open>The part of \<open>serves\<close> that is about the service alone: what a hook run inside \<open>admit\<close> must keep.\<close>

definition steady :: "'x svc_scheme \<Rightarrow> 'x svc_scheme \<Rightarrow> bool" where
  "steady s t = (sv_hex t = sv_hex s \<and> sv_versions t = sv_versions s
     \<and> (env_ok (sv_env s) \<longrightarrow> env_ok (sv_env t) \<and> store_evolves (sv_store s) (sv_store t)))"

lemma serves_steady: "serves s t \<Longrightarrow> steady s t"
  by (simp add: serves_def steady_def)

lemma steady_refl [simp]: "steady s s"
  by (simp add: steady_def mem.evolves_refl)

lemma steady_trans: "steady a b \<Longrightarrow> steady b c \<Longrightarrow> steady a c"
  using mem.evolves_trans by (force simp: steady_def)

lemmas steady_bind = keeps_bind[of steady, OF steady_trans]
lemmas steady_pure = keeps_pure[of steady, OF steady_refl]

lemma steady_serves: "keeps serves m \<Longrightarrow> keeps steady m"
  by (auto simp: keeps_def dest: serves_steady)

lemma steadyD: "keeps steady m \<Longrightarrow> m s = (r, s') \<Longrightarrow> env_ok (sv_env s) \<Longrightarrow>
   env_ok (sv_env s') \<and> sv_hex s' = sv_hex s \<and> sv_versions s' = sv_versions s"
  using keepsD[of steady m s r s'] by (simp add: steady_def)

lemma serves_permission [serving]: "keeps serves (check_permission c r)"
  unfolding check_permission_def by (intro serving)

text \<open>The last thing a successful admission did was to commit the entry of its own proof.\<close>

lemma admit_commits:
  assumes "svc_admit a hook s = (Inr p, s')" "env_ok (sv_env s)"
    and "\<And>f q. hook = Some f \<Longrightarrow> keeps steady (f q)"
  obtains keys gk ok s1 st u where "same_authority s1 s'"
    and "commits keys (enter_change p gk ok) s1 st u (sv_store s')"
    and "ap_command_id p = aq_command_id a" "ap_invocation_id p = aq_invocation_id a"
    and "map_of (sv_versions s) (aq_command_id a) = Some (aq_command_version a)"
    and "gk = map_option (key_of (sv_hex s') ''grant'') (truthy (ap_grant_id p))"
proof -
  from assms(1) obtain s1 sn s2 ck ok gid gk0 q s3 s4
    where perm: "check_permission (aq_command_id a) False s = (Inr (), s1)"
    and version: "map_of (sv_versions s1) (aq_command_id a) = Some (aq_command_version a)"
    and snap: "svc_snapshot (ck # opt_list ok) s1 = (Inr sn, s2)"
    and reserve: "transaction (ck # opt_list ok @ opt_list gk0) (reserve_change a
        \<lparr>ak_command = ck, ak_operation = ok, ak_grant = gk0, ak_grant_id = gid\<rparr>) s2 = (Inr q, s3)"
    and hook: "(case hook of None \<Rightarrow> return_prog () | Some f \<Rightarrow> on_error (\<lambda>_. True) (f q) (cancel_admission q)) s3 = (Inr (), s4)"
    and enter: "svc_enter q s4 = (Inr (), s')" and p: "p = q"
    unfolding svc_admit_def by (auto simp: bind_prog_Inr lift_result_Inr on_error_Inr Let_def)
  note e1 = steadyD[OF steady_serves[OF serves_permission] perm assms(2)]
  note e2 = steadyD[OF steady_serves[OF serves_snapshot] snap conjunct1[OF e1]]
  note e3 = steadyD[OF steady_serves[OF serves_transaction] reserve conjunct1[OF e2]]
  have e4: "env_ok (sv_env s4) \<and> sv_hex s4 = sv_hex s3"
  proof (cases hook)
    case None
    with hook e3 show ?thesis by simp
  next
    case (Some f)
    with hook have "f q s3 = (Inr (), s4)" by (simp add: on_error_Inr)
    from steadyD[OF assms(3)[OF Some] this] e3 show ?thesis by blast
  qed
  have versions: "sv_versions s1 = sv_versions s" using e1 by blast
  from transaction_commits_lemma[OF reserve conjunct1[OF e2]] obtain t st ks r
    where "same_authority t s3" and "commits ks (reserve_change a \<lparr>ak_command = ck, ak_operation = ok, ak_grant = gk0, ak_grant_id = gid\<rparr>) t st q r"
    by blast
  then have q: "ap_command_id q = aq_command_id a" "ap_invocation_id q = aq_invocation_id a"
    by (auto elim!: commitsE dest: reserve_change_Inr)
  from enter obtain gk ek s5 where gk: "some_key (sv_hex s4) ''grant'' (ap_grant_id q) = Inr gk"
    and t: "transaction (opt_list gk @ opt_list ek) (enter_change q gk ek) s4 = (Inr (), s')"
    by (auto simp: svc_enter_def bind_prog_Inr lift_result_Inr)
  from transaction_commits_lemma[OF t conjunct1[OF e4]] obtain t1 st1 where same: "same_authority t1 s'"
    and c: "commits (dict_fromkeys (CONTEXT # opt_list gk @ opt_list ek)) (enter_change q gk ek) t1 st1 () (sv_store s')"
    by blast
  have "sv_hex s' = sv_hex s4" using keepsD[OF serves_transaction t] by (simp add: serves_def)
  then have "gk = map_option (key_of (sv_hex s') ''grant'') (truthy (ap_grant_id p))"
    using gk p by (auto simp: some_key_def bind_result_Inr split: option.splits)
  with that[OF same c[folded p]] q version versions p show thesis by simp
qed

text \<open>
  The authority a proof was entered under, seen from the state the admission left: some moment of
  the store at which the context was current and the proof's basis held.
\<close>

definition authorised_entry :: "admission_request \<Rightarrow> admission_proof \<Rightarrow> 'x svc_scheme \<Rightarrow> bool" where
  "authorised_entry a p s' =
     (\<exists>s1 st c. same_authority s1 s' \<and> value_at st CONTEXT = Some (VContext c)
     \<and> context_current s1 c \<and> cx_generation c = ap_generation p
     \<and> aq_command_id a \<in> cp_permissions (sv_policy s')
     \<and> (let k = key_of (sv_hex s') ''grant'' (the (ap_grant_id p)) in
        case ap_basis p of
          InitialBasis \<Rightarrow> initial_allows s1 (aq_command_id a) c
        | GrantBasis CommandScope \<Rightarrow>
            (\<exists>g. value_at st k = Some (VGrant g) \<and> valid_grant s1 (Some g) c (aq_command_id a))
        | GrantBasis OperationScope \<Rightarrow>
            (\<exists>g. value_at st k = Some (VGrant g) \<and> gr_state g = Reserved \<and> \<not> gr_revoked g
               \<and> gr_invocation_id g = Some (aq_invocation_id a)
               \<and> value_at (sv_store s') k = Some (VGrant (g\<lparr>gr_state := Entered\<rparr>)))))"

lemma admitted_authority:
  assumes "svc_admit a hook s = (Inr p, s')" "env_ok (sv_env s)"
    and "\<And>f q. hook = Some f \<Longrightarrow> keeps steady (f q)"
  shows "authorised_entry a p s' \<and> map_of (sv_versions s) (aq_command_id a) = Some (aq_command_version a)"
using assms(1,2)
proof (rule admit_commits)
  show "\<And>f q. hook = Some f \<Longrightarrow> keeps steady (f q)" by (rule assms(3))
next
  fix keys gk ok s1 st u
  assume same: "same_authority s1 s'" and c: "commits keys (enter_change p gk ok) s1 st u (sv_store s')"
    and p: "ap_command_id p = aq_command_id a" "ap_invocation_id p = aq_invocation_id a"
    and v: "map_of (sv_versions s) (aq_command_id a) = Some (aq_command_version a)"
    and gk: "gk = map_option (key_of (sv_hex s') ''grant'') (truthy (ap_grant_id p))"
  have key: "g_key = key_of (sv_hex s') ''grant'' (the (ap_grant_id p))" if "gk = Some g_key" for g_key
    using that gk by (auto simp: truthy_def split: option.splits if_splits)
  from c show ?thesis
  proof (rule commitsE)
    fix vals c ws
    assume ch: "enter_change p gk ok s1 vals c = Inr (ws, u)" and ctx: "vals CONTEXT = Some (VContext c)"
      and vals: "\<And>k. vals k = (if k \<in> set keys then value_at st k else None)"
      and cur: "context_current s1 c" and st': "sv_store s' = commit_writes consent_enc st ws"
    from enter_change_Inr[OF ch] p have e: "permission s1 (aq_command_id a) False = Inr ()"
      "cx_generation c = ap_generation p" "entry_basis s1 vals c p gk ok ws" by simp_all
    have at: "value_at st k = Some x" if "vals k = Some x" for k x
      using that by (simp add: vals split: if_splits)
    let ?k = "key_of (sv_hex s') ''grant'' (the (ap_grant_id p))"
    have "case ap_basis p of
          InitialBasis \<Rightarrow> initial_allows s1 (aq_command_id a) c
        | GrantBasis CommandScope \<Rightarrow>
            (\<exists>g. value_at st ?k = Some (VGrant g) \<and> valid_grant s1 (Some g) c (aq_command_id a))
        | GrantBasis OperationScope \<Rightarrow>
            (\<exists>g. value_at st ?k = Some (VGrant g) \<and> gr_state g = Reserved \<and> \<not> gr_revoked g
               \<and> gr_invocation_id g = Some (aq_invocation_id a)
               \<and> value_at (sv_store s') ?k = Some (VGrant (g\<lparr>gr_state := Entered\<rparr>)))"
    proof (cases "ap_basis p")
      case InitialBasis
      with e p show ?thesis by (simp add: entry_basis_def)
    next
      case (GrantBasis scope)
      show ?thesis
      proof (cases scope)
        case CommandScope
        with GrantBasis e p obtain g where "vals ?k = Some (VGrant g)" "valid_grant s1 (Some g) c (aq_command_id a)"
          using key by (auto simp: entry_basis_def)
        then show ?thesis using GrantBasis CommandScope at by auto
      next
        case OperationScope
        with GrantBasis e p obtain g op_key r where g: "vals ?k = Some (VGrant g)" "gr_state g = Reserved"
          "\<not> gr_revoked g" "gr_invocation_id g = Some (aq_invocation_id a)" and r: "vals op_key = Some (VOperation r)"
          and ws: "ws = [(?k, Some (VGrant (g\<lparr>gr_state := Entered\<rparr>))), (op_key, Some (VOperation (r\<lparr>op_state := Entered\<rparr>)))]"
          using key by (auto simp: entry_basis_def)
        from g(1) r have "?k \<noteq> op_key" by auto
        then have "value_at (sv_store s') ?k = Some (VGrant (g\<lparr>gr_state := Entered\<rparr>))"
          by (simp add: st' ws value_commit)
        then show ?thesis using GrantBasis OperationScope g at by auto
      qed
    qed
    moreover have "aq_command_id a \<in> cp_permissions (sv_policy s')"
      using e(1) same by (simp add: permission_Inr same_authority_def)
    moreover have "value_at st CONTEXT = Some (VContext c)" using ctx by (rule at)
    ultimately show ?thesis using same cur e(2) v unfolding authorised_entry_def Let_def by blast
  qed
qed

section \<open>Applying a change by evaluation\<close>

definition apply_change ::
  "string list \<Rightarrow> ('x, 'r) change \<Rightarrow> 'x svc_scheme \<Rightarrow> consent_value store \<Rightarrow> ('r \<times> consent_value store) option"
where
  "apply_change keys change s st =
     (case store_snapshot st keys of
        Inl _ \<Rightarrow> None
      | Inr sn \<Rightarrow> (case need_context (vals_of sn) of
            Inl _ \<Rightarrow> None
          | Inr c \<Rightarrow> if \<not> context_current s c then None
              else (case change s (vals_of sn) c of
                  Inl _ \<Rightarrow> None
                | Inr (ws, r) \<Rightarrow> (case compare_exchange consent_enc (snap_versions sn) ws st of
                      (Inr True, st') \<Rightarrow> Some (r, st') | _ \<Rightarrow> None))))"

lemma commits_iff:
  "commits keys change s st r st' \<longleftrightarrow> apply_change keys change s st = Some (r, st')"
  unfolding commits_def apply_change_def
  by (auto split: sum.splits option.splits prod.splits bool.splits if_splits)

end
