(* ===== verification/Consent_Properties.thy ===== *)
theory Consent_Properties
  imports Consent_Runs
begin

text \<open>
  What the consent service promises, stated over the operations of \<open>Consent_Service\<close> and over the
  runs of \<open>Consent_Runs\<close>, with the sample service and store the witnesses evaluate.
\<close>

section \<open>A sample service\<close>

definition demo_hex :: "string \<Rightarrow> string" where "demo_hex t = t"

definition demo_identity :: consent_identity where
  "demo_identity = \<lparr>ci_brain_id = ''b'', ci_vault_root = ''/v'', ci_principal = ''p'', ci_context_id = ''x'',
     ci_kind = ''cli-job'', ci_permission_generation = ''g1'', ci_interface_generation = ''g2''\<rparr>"

definition demo_policy :: "string set \<Rightarrow> consent_policy" where
  "demo_policy initial = \<lparr>cp_ceiling_profile = ''owner'', cp_permissions = {''a.b''}, cp_initial = initial,
     cp_initial_mode = ''normal'', cp_request_policy = ''allowed'', cp_controls = {}\<rparr>"

definition demo_service :: "string set \<Rightarrow> svc" where
  "demo_service initial = \<lparr>sv_hex = demo_hex, sv_uuid = nat_str, sv_uuids_drawn = 0,
     sv_identity = demo_identity, sv_policy = demo_policy initial, sv_versions = [(''a.b'', 1)],
     sv_refresh = None, sv_refreshes = 0,
     sv_store = \<lparr>st_max_bytes = 40000, st_records = [], st_bytes = 0, st_revision = 0, st_closed = False\<rparr>,
     sv_env = []\<rparr>"

definition demo_context :: consent_context where
  "demo_context = first_context (demo_service {}) ''u''"

definition demo_binding :: operation_binding where
  "demo_binding = \<lparr>ob_command_id = ''a.b'', ob_command_version = 1, ob_request = JObj [],
     ob_frozen_inputs = JObj [], ob_observations = [], ob_review = JObj [], ob_schema = BINDING_SCHEMA\<rparr>"

definition demo_grant :: grant_record where
  "demo_grant = \<lparr>gr_grant_id = ''g'', gr_command_id = ''a.b'', gr_command_version = 1,
     gr_scope = OperationScope, gr_operation_id = Some ''o'', gr_generation = ''u'', gr_request_id = ''r'',
     gr_state = Authorised, gr_revoked = False, gr_invocation_id = None\<rparr>"

definition demo_operation :: operation_record where
  "demo_operation = \<lparr>op_operation_id = ''o'', op_binding = demo_binding,
     op_digest = binding_digest demo_hex demo_binding, op_review = review_text demo_binding,
     op_generation = ''u'', op_state = Authorised, op_pin_namespace = None,
     op_grant_id = Some ''g'', op_invocation_id = None\<rparr>"

definition demo_gk :: string where "demo_gk = key_of demo_hex ''grant'' ''g''"
definition demo_ok :: string where "demo_ok = key_of demo_hex ''operation'' ''o''"
definition demo_keys :: "string list" where "demo_keys = [CONTEXT, demo_gk, demo_ok]"

definition demo_store :: "consent_value store" where
  "demo_store = commit_writes consent_enc (sv_store (demo_service {}))
     [(CONTEXT, Some (VContext demo_context)), (demo_gk, Some (VGrant demo_grant)),
      (demo_ok, Some (VOperation demo_operation))]"

definition demo_request :: admission_request where
  "demo_request = \<lparr>aq_command_id = ''a.b'', aq_command_version = 1, aq_invocation_id = ''i'',
     aq_operation_id = Some ''o'', aq_binding = Some demo_binding\<rparr>"

definition demo_admission_keys :: admission_keys where
  "demo_admission_keys = \<lparr>ak_command = ''consent/command/a.b'', ak_operation = Some demo_ok,
     ak_grant = Some demo_gk, ak_grant_id = Some ''g''\<rparr>"

text \<open>Reserve the sample grant for invocation \<open>i\<close>, then enter.\<close>

definition demo_run :: "(admission_proof \<times> consent_value store \<times> consent_value store) option" where
  "demo_run =
     (case apply_change demo_keys (reserve_change demo_request demo_admission_keys) (demo_service {}) demo_store of
        None \<Rightarrow> None
      | Some (p, st1) \<Rightarrow>
          (case apply_change demo_keys (enter_change p (Some demo_gk) (Some demo_ok)) (demo_service {}) st1 of
             None \<Rightarrow> None
           | Some (u, st2) \<Rightarrow> Some (p, st1, st2)))"

lemma demo_run_enters:
  "case demo_run of None \<Rightarrow> False | Some (p, st1, st2) \<Rightarrow> entries demo_gk [demo_store, st1, st2] = 1"
  by code_simp

lemma demo_run_steps:
  obtains p st1 st2 where "demo_run = Some (p, st1, st2)" "consent_run demo_hex [demo_store, st1, st2]"
    "entries demo_gk [demo_store, st1, st2] = 1"
proof -
  obtain p st1 st2 where run: "demo_run = Some (p, st1, st2)" and one: "entries demo_gk [demo_store, st1, st2] = 1"
    using demo_run_enters by (auto split: option.splits)
  have hex: "sv_hex (demo_service {}) = demo_hex" by (simp add: demo_service_def)
  from run have "commits demo_keys (reserve_change demo_request demo_admission_keys) (demo_service {}) demo_store p st1"
    "commits demo_keys (enter_change p (Some demo_gk) (Some demo_ok)) (demo_service {}) st1 () st2"
    by (auto simp: demo_run_def commits_iff split: option.splits)
  then have "consent_step demo_hex demo_store st1" "consent_step demo_hex st1 st2"
    using step_reserve[OF hex] step_enter[OF hex] by blast+
  with run one show thesis by (intro that) auto
qed

lemma demo_empty [simp]: "slot_of (sv_store (demo_service i)) k = no_slot"
  by (simp add: demo_service_def slot_of_def)

lemma demo_values:
  "value_at demo_store k = (if k = CONTEXT then Some (VContext demo_context)
     else if k = demo_gk then Some (VGrant demo_grant)
     else if k = demo_ok then Some (VOperation demo_operation) else None)"
  "version_at demo_store k = (if k \<in> {CONTEXT, demo_gk, demo_ok} then 1 else 0)"
  by (auto simp: demo_store_def value_commit version_commit demo_gk_def demo_ok_def no_slot_def)

lemma demo_ready: "run_ready demo_hex demo_store"
  by (auto simp: run_ready_def grants_typed_def demo_values demo_gk_def)

lemma demo_binding_valid: "valid_binding demo_binding"
  by (simp add: valid_binding_def) code_simp

lemma demo_faithful: "faithful_store demo_hex demo_store"
  using demo_binding_valid
  by (auto simp: faithful_store_def faithful_values_def demo_values faithful_def demo_operation_def)

section \<open>Every run\<close>

text \<open>
  C1. However many clients share the store, and in whatever order their transactions commit, a
  grant is entered at most once: the moments at which the record at a key becomes \<open>entered\<close>
  number at most one along any run of committed steps.
\<close>

theorem grant_entered_once:
  assumes "consent_run hx (st # sts)" "run_ready hx st"
  shows "entries k (st # sts) \<le> 1"
  using assms by (rule run_entries)

theorem grant_entered_once_witness:
  "\<exists>sts. length sts = 2 \<and> consent_run demo_hex (demo_store # sts) \<and> entries demo_gk (demo_store # sts) = 1
     \<and> entries demo_gk (demo_store # sts) \<le> 1"
proof -
  obtain p st1 st2 where "consent_run demo_hex [demo_store, st1, st2]" "entries demo_gk [demo_store, st1, st2] = 1"
    by (rule demo_run_steps)
  with grant_entered_once[OF this(1) demo_ready, of demo_gk] show ?thesis
    by (intro exI[of _ "[st1, st2]"]) simp
qed

text \<open>
  Revocation holds against a race: once a grant that no invocation has entered is marked
  revoked, no later step of any client enters it.
\<close>

theorem revoked_grant_never_entered:
  assumes "consent_run hx (st # sts)" "run_ready hx st"
    and "grant_at st k = Some g" "gr_revoked g" "gr_state g \<noteq> Entered"
  shows "entries k (st # sts) = 0"
proof (rule run_never_enters[OF assms(1,2)])
  have "value_at st k = Some (VGrant g)" using assms(3) by (simp add: grant_at_Some)
  then show "never_enters st k"
    using assms(2-4) by (auto simp: never_enters_def run_ready_def)
qed

definition demo_revoked :: "consent_value store" where
  "demo_revoked = commit_writes consent_enc demo_store [(demo_gk, Some (VGrant (demo_grant\<lparr>gr_revoked := True\<rparr>)))]"

theorem revoked_grant_never_entered_witness:
  "grant_at demo_revoked demo_gk = Some (demo_grant\<lparr>gr_revoked := True\<rparr>) \<and> entries demo_gk [demo_revoked] = 0"
proof -
  have at: "grant_at demo_revoked demo_gk = Some (demo_grant\<lparr>gr_revoked := True\<rparr>)"
    by (simp add: grant_at_Some demo_revoked_def value_commit)
  have "run_ready demo_hex demo_revoked"
    by (auto simp: run_ready_def grants_typed_def demo_revoked_def value_commit version_commit
        demo_values demo_gk_def split: if_splits)
  from revoked_grant_never_entered[OF _ this at, of "[]"] at show ?thesis
    by (simp add: demo_grant_def)
qed

text \<open>
  C13. A descriptor in the store always carries the digest and the review text of its own
  binding, in every state of every run: no transaction changes what was shown for review.
\<close>

theorem reviewed_content_is_kept:
  assumes "consent_run hx (st # sts)" "faithful_store hx st" "t \<in> set (st # sts)"
    and "value_at t k = Some (VOperation r)"
  shows "op_digest r = binding_digest hx (op_binding r) \<and> op_review r = review_text (op_binding r)"
proof -
  have "faithful_store hx t" using assms(1-3) by (rule faithful_run)
  then show ?thesis
    using assms(4) faithful_found by (auto simp: faithful_store_def faithful_def)
qed

theorem reviewed_content_is_kept_witness:
  "op_digest demo_operation = binding_digest demo_hex demo_binding
     \<and> op_review demo_operation = review_text demo_binding"
  using reviewed_content_is_kept[of demo_hex demo_store "[]" demo_store demo_ok demo_operation]
  by (simp add: demo_faithful demo_values demo_ok_def demo_gk_def demo_operation_def)

text \<open>
  C12. An admission for an operation is for the operation that was reviewed: if a reservation
  succeeds on a descriptor, then the binding the caller presents is the very binding that was stored
  and shown, for the command and version it names, unless the digest collides on their texts.
\<close>

theorem reserved_operation_is_the_reviewed_one:
  assumes "commits keys (reserve_change a ak) s st p st'" "faithful_store (sv_hex s) st"
    and "ak_operation ak = Some op_key" "op_key \<in> set keys" "\<And>b. aq_binding a = Some b \<Longrightarrow> valid_binding b"
  shows "\<exists>r b. value_at st op_key = Some (VOperation r) \<and> aq_binding a = Some b
     \<and> op_review r = review_text (op_binding r) \<and> ob_command_id b = aq_command_id a
     \<and> ob_command_version b = aq_command_version a
     \<and> (op_binding r = b
        \<or> (let shown = canonical_json (binding_to_wire (op_binding r)); given = canonical_json (binding_to_wire b)
           in shown \<noteq> given \<and> sv_hex s shown = sv_hex s given))"
  using assms(1)
proof (rule commitsE)
  fix vals c ws
  assume ch: "reserve_change a ak s vals c = Inr (ws, p)"
    and vals: "\<And>k. vals k = (if k \<in> set keys then value_at st k else None)"
  from reserve_change_operation[OF ch assms(3)] obtain r b
    where r: "value_at st op_key = Some (VOperation r)" and b: "aq_binding a = Some b"
      and d: "op_digest r = binding_digest (sv_hex s) b"
      and cmd: "ob_command_id b = aq_command_id a" "ob_command_version b = aq_command_version a"
    using assms(4) by (auto simp: vals)
  have f: "faithful (sv_hex s) r" using assms(2) r faithful_found by (auto simp: faithful_store_def)
  then have same: "sv_hex s (canonical_json (binding_to_wire (op_binding r))) = sv_hex s (canonical_json (binding_to_wire b))"
    using d by (auto simp: faithful_def binding_digest_def content_digest_def)
  moreover have "op_binding r = b" if "canonical_json (binding_to_wire (op_binding r)) = canonical_json (binding_to_wire b)"
    using that binding_canonical_inj f assms(5)[OF b] by (auto simp: faithful_def)
  ultimately show ?thesis using r b f cmd by (auto simp: faithful_def Let_def)
qed

theorem reserved_operation_is_the_reviewed_one_witness:
  "\<exists>r. value_at demo_store demo_ok = Some (VOperation r) \<and> aq_binding demo_request = Some (op_binding r)
     \<and> op_review r = review_text (op_binding r) \<and> ob_command_id (op_binding r) = aq_command_id demo_request
     \<and> ob_command_version (op_binding r) = aq_command_version demo_request"
proof -
  obtain p st1 st2 where "demo_run = Some (p, st1, st2)" by (rule demo_run_steps)
  then have c: "commits demo_keys (reserve_change demo_request demo_admission_keys) (demo_service {}) demo_store p st1"
    by (auto simp: demo_run_def commits_iff split: option.splits)
  have hx: "sv_hex (demo_service {}) = demo_hex" by (simp add: demo_service_def)
  have ak: "ak_operation demo_admission_keys = Some demo_ok" "demo_ok \<in> set demo_keys"
    by (simp_all add: demo_admission_keys_def demo_keys_def)
  have valid: "\<And>b. aq_binding demo_request = Some b \<Longrightarrow> valid_binding b"
    using demo_binding_valid by (simp add: demo_request_def)
  have "faithful_store (sv_hex (demo_service {})) demo_store" using demo_faithful hx by simp
  from reserved_operation_is_the_reviewed_one[OF c this ak valid] show ?thesis
    by (auto simp: hx demo_hex_def Let_def)
qed

section \<open>Every call\<close>

text \<open>
  C11. A transaction is linearisable: whatever other clients do to the store between its reads and
  its write, a call that returns has applied its change, whole, to the store as it was at one
  moment, with a context that is current for the caller's authority.
\<close>

theorem transaction_is_atomic:
  assumes "transaction keys change s = (Inr r, s')" "env_ok (sv_env s)"
  shows "\<exists>s1 st c ws. same_authority s1 s' \<and> value_at st CONTEXT = Some (VContext c)
     \<and> context_current s1 c
     \<and> change s1 (\<lambda>k. if k \<in> set (CONTEXT # keys) then value_at st k else None) c = Inr (ws, r)
     \<and> sv_store s' = commit_writes consent_enc st ws"
proof -
  from transaction_commits_lemma[OF assms] obtain s1 st where same: "same_authority s1 s'"
    and c: "commits (dict_fromkeys (CONTEXT # keys)) change s1 st r (sv_store s')" by blast
  from c show ?thesis
  proof (rule commitsE)
    fix vals c ws
    assume *: "change s1 vals c = Inr (ws, r)" "vals CONTEXT = Some (VContext c)"
      "\<And>k. vals k = (if k \<in> set (dict_fromkeys (CONTEXT # keys)) then value_at st k else None)"
      "context_current s1 c" "sv_store s' = commit_writes consent_enc st ws"
    then have "vals = (\<lambda>k. if k \<in> set (CONTEXT # keys) then value_at st k else None)" by auto
    with * same show ?thesis by auto
  qed
qed

definition demo_live :: "string set \<Rightarrow> svc" where
  "demo_live initial = (demo_service initial)\<lparr>sv_store := commit_writes consent_enc (sv_store (demo_service initial))
     [(CONTEXT, Some (VContext demo_context))]\<rparr>"

text \<open>The sample call: another client writes a record between the first two reads.\<close>

definition demo_interfered :: svc where
  "demo_interfered = (demo_live {})\<lparr>sv_env :=
     [\<lambda>st. commit_writes consent_enc st [(demo_ok, Some (VOperation demo_operation))]]\<rparr>"

lemma demo_close: "fst (transaction [demo_ok] (close_change []) demo_interfered) = Inr []"
  by code_simp

lemma commit_evolves: "store_evolves st (commit_writes enc st ws)"
  by (auto simp: evolves_def version_commit slot_of_commit_kept split: if_splits)

theorem transaction_is_atomic_witness:
  "\<exists>(s1 :: svc) st c ws. same_authority s1 (snd (transaction [demo_ok] (close_change []) demo_interfered))
     \<and> value_at st CONTEXT = Some (VContext c) \<and> context_current s1 c
     \<and> close_change [] s1 (\<lambda>k. if k \<in> set [CONTEXT, demo_ok] then value_at st k else None) c = Inr (ws, [])
     \<and> sv_store (snd (transaction [demo_ok] (close_change []) demo_interfered)) = commit_writes consent_enc st ws"
proof -
  have "transaction [demo_ok] (close_change []) demo_interfered
      = (Inr [], snd (transaction [demo_ok] (close_change []) demo_interfered))"
    using demo_close by (metis prod.collapse)
  from transaction_is_atomic[OF this] show ?thesis
    by (simp add: env_ok_def demo_interfered_def commit_evolves)
qed





section \<open>The store under the service\<close>

text \<open>
  \<open>compare_exchange\<close> is all or nothing. It keeps the store well formed (unique keys, versions
  counted from one, the byte account exact and within its limit); when it reports success every
  expected version was current and exactly the written keys took their new value, one version on;
  otherwise, a version mismatch or any error, the store is unchanged.
\<close>

theorem exchange_is_all_or_nothing:
  assumes "store_ok enc st" "distinct (map fst ws)" "compare_exchange enc ex ws st = (r, st')"
  shows "store_ok enc st' \<and>
    (if r = Inr True
     then (\<forall>(k, v)\<in>set ex. version_at st k = v) \<and>
       (\<forall>k. value_at st' k = (case map_of ws k of None \<Rightarrow> value_at st k | Some v \<Rightarrow> v)
          \<and> version_at st' k = version_at st k + (if k \<in> fst ` set ws then 1 else 0))
     else st' = st)"
proof (cases "r = Inr True")
  case True
  with assms(3) have ex: "compare_exchange enc ex ws st = (Inr True, st')" by simp
  have "\<forall>(k, v)\<in>set ex. version_at st k = v" using mem.taken[OF ex] by (elim conjE)
  then show ?thesis
    unfolding if_P[OF True] by (intro conjI allI store_ok_exchange[OF assms(1,3,2)]
        mem.cell_step[OF ex assms(2)] mem.version_step[OF ex])
next
  case False
  with mem.refused[OF assms(3)] assms(1) show ?thesis by simp
qed

definition demo_small :: "string store" where
  "demo_small = \<lparr>st_max_bytes = 100, st_records = [], st_bytes = 0, st_revision = 0, st_closed = False\<rparr>"

theorem exchange_is_all_or_nothing_witness:
  "value_at (snd (compare_exchange str_json [(''k'', 0)] [(''k'', Some ''v'')] demo_small)) ''k'' = Some ''v''"
proof -
  have "store_ok str_json demo_small" by (simp add: store_ok_def demo_small_def slots_sum_def)
  from exchange_is_all_or_nothing[OF this, of "[(''k'', Some ''v'')]" "[(''k'', 0)]"]
  have "if fst (compare_exchange str_json [(''k'', 0)] [(''k'', Some ''v'')] demo_small) = Inr True
    then value_at (snd (compare_exchange str_json [(''k'', 0)] [(''k'', Some ''v'')] demo_small)) ''k'' = Some ''v'' else True"
    by (cases "compare_exchange str_json [(''k'', 0)] [(''k'', Some ''v'')] demo_small") auto
  moreover have "fst (compare_exchange str_json [(''k'', 0)] [(''k'', Some ''v'')] demo_small) = Inr True"
    by code_simp
  ultimately show ?thesis by simp
qed

text \<open>
  A stale writer is refused: if, since the snapshot a client holds, any of the values it read
  changed (by whatever sequence of exchanges of other clients), its own exchange does not commit.
\<close>

theorem stale_exchange_refused:
  assumes "store_evolves st st'" "value_at st' k \<noteq> value_at st k"
    and "store_snapshot st keys = Inr sn" "k \<in> set keys"
  shows "fst (compare_exchange enc (snap_versions sn) ws st') \<noteq> Inr True"
proof
  assume "fst (compare_exchange enc (snap_versions sn) ws st') = Inr True"
  then obtain u where u: "compare_exchange enc (snap_versions sn) ws st' = (Inr True, u)"
    by (cases "compare_exchange enc (snap_versions sn) ws st'") auto
  have "(k, version_at st k) \<in> set (snap_versions sn)"
    using assms(3,4) by (auto simp: store_snapshot_Inr)
  from mem.lost_update_refused[OF assms(1,2) this] u show False by blast
qed

theorem stale_exchange_refused_witness:
  "fst (compare_exchange str_json [(''k'', 0)] [(''k'', None)]
     (commit_writes str_json demo_small [(''k'', Some ''v'')])) \<noteq> Inr True"
proof -
  let ?st' = "commit_writes str_json demo_small [(''k'', Some ''v'')]"
  have empty: "slot_of demo_small k = no_slot" for k by (simp add: slot_of_def demo_small_def)
  have "store_snapshot demo_small [''k''] = Inr \<lparr>snap_values = [], snap_versions = [(''k'', 0)]\<rparr>"
    by (simp add: store_snapshot_Inr empty no_slot_def) (simp add: demo_small_def)
  from stale_exchange_refused[OF commit_evolves _ this, of str_json "[(''k'', Some ''v'')]" "''k''" str_json "[(''k'', None)]"]
  show ?thesis by (simp add: value_commit empty no_slot_def)
qed

lemma all_keys_loop_quiet:
  assumes "sv_env s = []" "store_ok enc (sv_store s)" "\<not> st_closed (sv_store s)" "length prefix \<le> 256"
    and live: "L = live_keys prefix (sv_store s)" "\<forall>k\<in>set L. k \<noteq> [] \<and> length k \<le> 256"
    and after: "after = None \<or> (\<exists>a\<in>set L. after = Some a \<and> revision = Some (st_revision (sv_store s)))"
    and first: "after = None \<Longrightarrow> revision = None"
    and fuel: "length (keys_after after L) < n"
  shows "all_keys_loop n prefix after revision s = (Inr (Some (keys_after after L)), s)"
  using after first fuel
proof (induction n arbitrary: after revision)
  case (Suc n)
  let ?K = "keys_after after L"
  have tick: "tick s = s" using assms(1) by (simp add: tick_def)
  have rev: "0 \<le> st_revision (sv_store s)" using assms(2) by (simp add: store_ok_def)
  have sorted: "sorted ?K" "distinct ?K"
    using live(1) distinct_live_keys[OF assms(2)] by (auto simp: keys_after_def sorted_wrt_filter)
  have sub: "set ?K \<subseteq> set L" by (auto simp: keys_after_def)
  define page where "page = take 128 ?K"
  have list: "svc_list_keys prefix after MAX_PAGE_KEYS revision s =
      (Inr \<lparr>page_keys = page, page_next_after = (if length ?K > 128 then Some (last page) else None),
            page_revision = st_revision (sv_store s)\<rparr>, s)"
  proof -
    have "list_keys prefix after MAX_PAGE_KEYS revision (sv_store s) = Inr
        \<lparr>page_keys = page, page_next_after = (if length ?K > 128 then Some (last page) else None),
            page_revision = st_revision (sv_store s)\<rparr>"
      unfolding list_keys_Inr using assms(3,4) live Suc.prems(1,2) rev
      by (auto simp: MAX_PAGE_KEYS_def page_def Let_def)
    then show ?thesis by (simp add: svc_list_keys_def tick)
  qed
  show ?case
  proof (cases "length ?K > 128")
    case False
    then show ?thesis by (simp add: list bind_prog_def page_def)
  next
    case True
    then have "page \<noteq> []" by (auto simp: page_def)
    then have last: "last page \<in> set L"
      using sub by (metis in_set_takeD last_in_set page_def subsetD)
    have split: "keys_after (Some (last page)) L = drop 128 ?K"
    proof -
      have "keys_after (Some (last page)) L = keys_after (Some (last page)) ?K"
      proof -
        have "a < k" if "after = Some a" "last page < k" for a k
        proof -
          have "last page \<in> set ?K" using \<open>page \<noteq> []\<close> by (metis in_set_takeD last_in_set page_def)
          with that(1) have "a < last page" by (simp add: keys_after_def)
          with that(2) show ?thesis by simp
        qed
        then show ?thesis
          by (auto simp: keys_after_def split: option.splits intro!: filter_cong)
      qed
      also have "\<dots> = drop 128 ?K"
        unfolding page_def using sorted True by (intro keys_after_last) auto
      finally show ?thesis .
    qed
    have "all_keys_loop n prefix (Some (last page)) (Some (st_revision (sv_store s))) s
        = (Inr (Some (drop 128 ?K)), s)"
      using Suc.IH[of "Some (last page)" "Some (st_revision (sv_store s))"] last True Suc.prems(3)
      by (simp add: split)
    then show ?thesis using True by (simp add: list bind_prog_def) (simp add: page_def)
  qed
qed simp

text \<open>
  C25. The paged listing of \<open>_all_keys\<close> is complete: with no other client writing, it ends within
  one page more than the store has records, and returns exactly the live keys under the prefix,
  each once and in order, however many pages that takes.
\<close>

theorem all_keys_complete:
  assumes "sv_env s = []" "store_ok enc (sv_store s)" "\<not> st_closed (sv_store s)" "length prefix \<le> 256"
    and "\<forall>k. value_at (sv_store s) k \<noteq> None \<longrightarrow> k \<noteq> [] \<and> length k \<le> 256"
  shows "\<exists>ks. all_keys prefix s = (Inr (Some ks), s) \<and> sorted ks \<and> distinct ks
     \<and> set ks = {k. value_at (sv_store s) k \<noteq> None \<and> starts_with prefix k}"
proof -
  let ?L = "live_keys prefix (sv_store s)"
  have tick: "tick s = s" using assms(1) by (simp add: tick_def)
  have all: "keys_after None ?L = ?L" by (simp add: keys_after_def)
  have "length ?L \<le> length (st_records (sv_store s))" by (simp add: live_keys_def)
  then have fuel: "length (keys_after None ?L) < Suc (length (st_records (sv_store s)))" by (simp only: all)
  have "\<forall>k\<in>set ?L. k \<noteq> [] \<and> length k \<le> 256"
    using assms(5) by (auto simp: set_live_keys[OF assms(2)])
  from all_keys_loop_quiet[OF assms(1-4) refl this _ _ fuel, of None]
  have "all_keys prefix s = (Inr (Some ?L), s)"
    unfolding all_keys_def tick all by blast
  then show ?thesis
    using distinct_live_keys[OF assms(2)] set_live_keys[OF assms(2)] by (intro exI[of _ ?L]) simp
qed

theorem all_keys_complete_witness:
  "\<exists>ks. all_keys ''consent/grant/'' ((demo_service {})\<lparr>sv_store := demo_store\<rparr>)
      = (Inr (Some ks), (demo_service {})\<lparr>sv_store := demo_store\<rparr>) \<and> set ks = {demo_gk}"
proof -
  define s where "s = (demo_service {})\<lparr>sv_store := demo_store\<rparr>"
  have s: "sv_env s = []" "sv_store s = demo_store" by (simp_all add: s_def demo_service_def)
  have cap: "total_after consent_enc (sv_store (demo_service {}))
     [(CONTEXT, Some (VContext demo_context)), (demo_gk, Some (VGrant demo_grant)),
      (demo_ok, Some (VOperation demo_operation))] \<le> 40000" by code_simp
  have empty: "store_ok consent_enc (sv_store (demo_service {}))" "\<not> st_closed (sv_store (demo_service {}))"
    "st_max_bytes (sv_store (demo_service {})) = 40000"
    by (simp_all add: demo_service_def store_ok_def slots_sum_def)
  have ok: "store_ok consent_enc (sv_store s)"
    unfolding s demo_store_def using empty cap
    by (intro store_ok_commit) (simp_all add: demo_gk_def demo_ok_def)
  have live: "\<not> st_closed (sv_store s)" using empty by (simp add: s demo_store_def)
  have "\<forall>k \<in> {CONTEXT, demo_gk, demo_ok}. k \<noteq> [] \<and> length k \<le> 256" by code_simp
  moreover have live_iff: "value_at (sv_store s) k \<noteq> None \<longleftrightarrow> k \<in> {CONTEXT, demo_gk, demo_ok}" for k
    by (simp add: s demo_values)
  ultimately have keys: "\<forall>k. value_at (sv_store s) k \<noteq> None \<longrightarrow> k \<noteq> [] \<and> length k \<le> 256"
    by blast
  have pre: "\<not> starts_with ''consent/grant/'' CONTEXT" "starts_with ''consent/grant/'' demo_gk"
    "\<not> starts_with ''consent/grant/'' demo_ok" by code_simp+
  have only: "{k. value_at (sv_store s) k \<noteq> None \<and> starts_with ''consent/grant/'' k} = {demo_gk}"
    unfolding live_iff using pre by blast
  have "length ''consent/grant/'' \<le> 256" by simp
  then obtain ks where "all_keys ''consent/grant/'' s = (Inr (Some ks), s)"
    and "set ks = {k. value_at (sv_store s) k \<noteq> None \<and> starts_with ''consent/grant/'' k}"
    using all_keys_complete[OF s(1) ok live _ keys] by blast
  then have "all_keys ''consent/grant/'' s = (Inr (Some ks), s) \<and> set ks = {demo_gk}"
    by (simp only: only simp_thms)
  then show ?thesis unfolding s_def by (rule exI)
qed

end
