(* ===== verification/Receipt_Records.thy ===== *)
theory Receipt_Records
  imports Preparation
begin

text \<open>
  \<open>_application/receipts.py\<close>: outcome receipts, admission intents, invocation outcomes and their
  validation, the owned lookup, and the process-local \<open>MemoryReceiptStore\<close>; and the JSON form of
  these values (\<open>_encode...\<close> and \<open>_decode...\<close> of \<open>_command_interface/receipts.py\<close>).

  A \<open>datetime\<close> is its instant in microseconds, tagged with whether it carries a time zone: Python
  compares and equates aware values by instant and refuses to order an aware and a naive one.
  \<open>isoformat\<close> and \<open>fromisoformat\<close> are the two fields of the parameter \<open>time_format\<close>.
\<close>

section \<open>Time\<close>

datatype stamp = Aware int | Naive int

fun aware :: "stamp \<Rightarrow> bool" where
  "aware (Aware _) = True"
| "aware (Naive _) = False"

fun stamp_less :: "stamp \<Rightarrow> stamp \<Rightarrow> exn + bool" where
  "stamp_less (Aware a) (Aware b) = Inr (a < b)"
| "stamp_less (Naive a) (Naive b) = Inr (a < b)"
| "stamp_less _ _ = Inl TypeError"

text \<open>\<open>now - retention\<close>\<close>

fun stamp_minus :: "stamp \<Rightarrow> int \<Rightarrow> stamp" where
  "stamp_minus (Aware a) d = Aware (a - d)"
| "stamp_minus (Naive a) d = Naive (a - d)"

record time_format =
  tf_iso :: "stamp \<Rightarrow> string"
  tf_from_iso :: "string \<Rightarrow> exn + stamp"

section \<open>Receipts\<close>

datatype receipt_state = NoneState | Committed | KnownPartial | UnknownState

fun receipt_state_value :: "receipt_state \<Rightarrow> string" where
  "receipt_state_value NoneState = ''none''"
| "receipt_state_value Committed = ''committed''"
| "receipt_state_value KnownPartial = ''known_partial''"
| "receipt_state_value UnknownState = ''unknown''"

definition receipt_state_of :: "string \<Rightarrow> exn + receipt_state" where
  "receipt_state_of v =
     (if v = ''none'' then Inr NoneState
      else if v = ''committed'' then Inr Committed
      else if v = ''known_partial'' then Inr KnownPartial
      else if v = ''unknown'' then Inr UnknownState
      else Inl ValueError)"

datatype receipt_lookup_state = Found | StillUnknown

text \<open>\<open>OutcomeReference\<close>: an invocation identity with a visible character.\<close>

definition outcome_reference :: "string \<Rightarrow> exn + string" where
  "outcome_reference invocation_id =
     bind_result (check_that (\<not> py_blank invocation_id) ValueError) (\<lambda>_. Inr invocation_id)"

record committed_effect =
  ce_kind :: string
  ce_subject :: string

definition check_effect :: "committed_effect \<Rightarrow> exn + committed_effect" where
  "check_effect e =
     bind_result (check_that (\<not> py_blank (ce_kind e) \<and> \<not> py_blank (ce_subject e)) ValueError) (\<lambda>_. Inr e)"

record outcome_receipt =
  rc_reference :: string
  rc_command_id :: string
  rc_command_version :: int
  rc_state :: receipt_state
  rc_recorded_at :: stamp
  rc_committed_effects :: "committed_effect list"

definition check_receipt :: "outcome_receipt \<Rightarrow> exn + outcome_receipt" where
  "check_receipt r =
     bind_result (validate_command_id (rc_command_id r)) (\<lambda>_.
     bind_result (check_that (1 \<le> rc_command_version r) ValueError) (\<lambda>_.
     bind_result (check_that (aware (rc_recorded_at r)) ValueError) (\<lambda>_.
     bind_result (check_that (\<not> (rc_state r = KnownPartial \<and> rc_committed_effects r = [])) ValueError) (\<lambda>_.
     bind_result (check_that (\<not> (rc_state r \<in> {NoneState, UnknownState} \<and> rc_committed_effects r \<noteq> []))
                   ValueError) (\<lambda>_.
     Inr r)))))"

record receipt_lookup =
  rl_reference :: string
  rl_state :: receipt_lookup_state
  rl_receipt :: "outcome_receipt option"

definition check_lookup :: "receipt_lookup \<Rightarrow> exn + receipt_lookup" where
  "check_lookup l =
     bind_result (check_that (\<not> (rl_state l = Found \<and> rl_receipt l = None)) ValueError) (\<lambda>_.
     bind_result (check_that (\<not> (rl_state l = StillUnknown \<and> rl_receipt l \<noteq> None)) ValueError) (\<lambda>_.
     bind_result (check_that (case rl_receipt l of None \<Rightarrow> True
                              | Some r \<Rightarrow> rc_reference r = rl_reference l) ValueError) (\<lambda>_.
     Inr l)))"

record receipt_policy =
  rp_retention :: int
  rp_max_records :: int

definition check_receipt_policy :: "receipt_policy \<Rightarrow> exn + receipt_policy" where
  "check_receipt_policy p =
     bind_result (check_that (0 < rp_retention p) ValueError) (\<lambda>_.
     bind_result (check_that (1 \<le> rp_max_records p) ValueError) (\<lambda>_. Inr p))"

definition default_receipt_policy :: receipt_policy where
  "default_receipt_policy = \<lparr>rp_retention = 7 * 24 * 3600 * 1000000, rp_max_records = 10000\<rparr>"

definition bounded_identity :: "string \<Rightarrow> exn + unit" where
  "bounded_identity value = check_that (\<not> py_blank value \<and> length value \<le> 128) ValueError"

section \<open>Ownership and intents\<close>

record receipt_ownership =
  ro_brain_id :: string
  ro_principal :: string
  ro_kind :: string
  ro_context_id :: "string option"

definition check_ownership :: "receipt_ownership \<Rightarrow> exn + receipt_ownership" where
  "check_ownership w =
     bind_result (bounded_identity (ro_brain_id w)) (\<lambda>_.
     bind_result (bounded_identity (ro_principal w)) (\<lambda>_.
     bind_result (check_that (ro_kind w \<in> {''mcp-instance'', ''cli-job'', ''standalone''}) ValueError) (\<lambda>_.
     bind_result (if ro_kind w = ''standalone'' then check_that (ro_context_id w = None) ValueError
                  else case ro_context_id w of None \<Rightarrow> Inl ValueError | Some c \<Rightarrow> bounded_identity c) (\<lambda>_.
     Inr w))))"

record permission_change =
  pc_operator_id :: string
  pc_before_profile :: string
  pc_after_profile :: string
  pc_added_permissions :: "string list"
  pc_removed_permissions :: "string list"
  pc_before_revision :: string

definition check_permission_set :: "string list \<Rightarrow> exn + unit" where
  "check_permission_set values =
     bind_result (check_that (values = sort (remdups values)) ValueError) (\<lambda>_.
     check_that (list_all command_id_pattern values) ValueError)"

definition check_permission_change :: "permission_change \<Rightarrow> exn + permission_change" where
  "check_permission_change p =
     bind_result (bounded_identity (pc_operator_id p)) (\<lambda>_.
     bind_result (bounded_identity (pc_before_profile p)) (\<lambda>_.
     bind_result (bounded_identity (pc_after_profile p)) (\<lambda>_.
     bind_result (bounded_identity (pc_before_revision p)) (\<lambda>_.
     bind_result (check_permission_set (pc_added_permissions p)) (\<lambda>_.
     bind_result (check_permission_set (pc_removed_permissions p)) (\<lambda>_.
     bind_result (check_that (set (pc_added_permissions p) \<inter> set (pc_removed_permissions p) = {}) ValueError) (\<lambda>_.
     Inr p)))))))"

record admission_intent =
  ai_reference :: string
  ai_command_id :: string
  ai_command_version :: int
  ai_recorded_at :: stamp
  ai_basis :: string
  ai_generation :: string
  ai_source :: string
  ai_grant_id :: "string option"
  ai_operation_id :: "string option"
  ai_operation_digest :: "string option"
  ai_request_id :: "string option"
  ai_permission_change :: "permission_change option"

definition lower_hex :: "char \<Rightarrow> bool" where
  "lower_hex c = (ascii_digit c \<or> (let n = (of_char c :: nat) in 97 \<le> n \<and> n \<le> 102))"

text \<open>\<open>sha256:[0-9a-f]{64}\<close>\<close>

definition digest_pattern :: "string \<Rightarrow> bool" where
  "digest_pattern s = (let h = drop 7 s in s = ''sha256:'' @ h \<and> length h = 64 \<and> list_all lower_hex h)"

definition optional_identity :: "string option \<Rightarrow> exn + unit" where
  "optional_identity v = (case v of None \<Rightarrow> Inr () | Some s \<Rightarrow> bounded_identity s)"

definition check_intent :: "admission_intent \<Rightarrow> exn + admission_intent" where
  "check_intent i =
     bind_result (bounded_identity (ai_reference i)) (\<lambda>_.
     bind_result (validate_command_id (ai_command_id i)) (\<lambda>_.
     bind_result (check_that (\<not> (ai_permission_change i \<noteq> None \<and> ai_command_id i \<noteq> ''permission.set-profile''))
                   ValueError) (\<lambda>_.
     bind_result (check_that (1 \<le> ai_command_version i) ValueError) (\<lambda>_.
     bind_result (check_that (aware (ai_recorded_at i)) ValueError) (\<lambda>_.
     bind_result (check_that (ai_basis i \<in> {''initial'', ''command'', ''operation''}) ValueError) (\<lambda>_.
     bind_result (check_that (ai_source i \<in> {''host-request'', ''cli-request''}) ValueError) (\<lambda>_.
     bind_result (bounded_identity (ai_generation i)) (\<lambda>_.
     bind_result (optional_identity (ai_grant_id i)) (\<lambda>_.
     bind_result (optional_identity (ai_operation_id i)) (\<lambda>_.
     bind_result (optional_identity (ai_request_id i)) (\<lambda>_.
     bind_result (check_that (\<not> (ai_basis i = ''initial'' \<and> ai_grant_id i \<noteq> None)) ValueError) (\<lambda>_.
     bind_result (check_that (\<not> (ai_basis i \<noteq> ''initial'' \<and> ai_grant_id i = None)) ValueError) (\<lambda>_.
     bind_result (check_that (\<not> (ai_basis i = ''operation'' \<and>
                    (ai_operation_id i = None \<or> ai_operation_digest i = None))) ValueError) (\<lambda>_.
     bind_result (check_that (case ai_operation_digest i of None \<Rightarrow> True | Some d \<Rightarrow> digest_pattern d)
                   ValueError) (\<lambda>_.
     Inr i)))))))))))))))"

section \<open>Outcomes\<close>

datatype execution_state = Succeeded | Failed | PartialRun | UnknownRun

fun execution_value :: "execution_state \<Rightarrow> string" where
  "execution_value Succeeded = ''succeeded''"
| "execution_value Failed = ''failed''"
| "execution_value PartialRun = ''partial''"
| "execution_value UnknownRun = ''unknown''"

definition execution_of :: "string \<Rightarrow> exn + execution_state" where
  "execution_of v =
     (if v = ''succeeded'' then Inr Succeeded
      else if v = ''failed'' then Inr Failed
      else if v = ''partial'' then Inr PartialRun
      else if v = ''unknown'' then Inr UnknownRun
      else Inl ValueError)"

record invocation_outcome =
  io_receipt :: outcome_receipt
  io_execution :: execution_state
  io_config_revision :: "string option"

fun allowed_states :: "execution_state \<Rightarrow> receipt_state set" where
  "allowed_states Succeeded = {NoneState, Committed}"
| "allowed_states Failed = {NoneState}"
| "allowed_states PartialRun = {KnownPartial}"
| "allowed_states UnknownRun = {NoneState, UnknownState}"

definition check_outcome :: "invocation_outcome \<Rightarrow> exn + invocation_outcome" where
  "check_outcome o' =
     bind_result (bounded_identity (rc_reference (io_receipt o'))) (\<lambda>_.
     bind_result (case io_config_revision o' of None \<Rightarrow> Inr () | Some v \<Rightarrow>
        bind_result (bounded_identity v) (\<lambda>_.
        check_that (rc_command_id (io_receipt o') = ''permission.set-profile'') ValueError)) (\<lambda>_.
     bind_result (check_that (rc_state (io_receipt o') \<in> allowed_states (io_execution o')) ValueError) (\<lambda>_.
     Inr o')))"

record owned_lookup =
  ol_reference :: string
  ol_intent :: "admission_intent option"
  ol_outcome :: "invocation_outcome option"

definition check_owned_lookup :: "owned_lookup \<Rightarrow> exn + owned_lookup" where
  "check_owned_lookup l =
     bind_result (check_that (case ol_intent l of None \<Rightarrow> True | Some i \<Rightarrow> ai_reference i = ol_reference l)
                   ValueError) (\<lambda>_.
     case ol_outcome l of
       None \<Rightarrow> Inr l
     | Some o' \<Rightarrow>
         (case ol_intent l of
            None \<Rightarrow> Inl ValueError
          | Some i \<Rightarrow>
              bind_result (check_that ((rc_reference (io_receipt o'), rc_command_id (io_receipt o'),
                    rc_command_version (io_receipt o')) = (ol_reference l, ai_command_id i, ai_command_version i))
                  ValueError) (\<lambda>_.
              bind_result (stamp_less (rc_recorded_at (io_receipt o')) (ai_recorded_at i)) (\<lambda>early.
              bind_result (check_that (\<not> early) ValueError) (\<lambda>_. Inr l)))))"

definition lookup_state :: "owned_lookup \<Rightarrow> receipt_lookup_state" where
  "lookup_state l = (if ol_outcome l \<noteq> None then Found else StillUnknown)"

section \<open>The process-local store\<close>

text \<open>\<open>recorded_at < cutoff\<close>; both sides are aware, so the comparison does not raise.\<close>

definition older :: "stamp \<Rightarrow> stamp \<Rightarrow> bool" where
  "older recorded_at cutoff = (stamp_less recorded_at cutoff = Inr True)"

fun instant :: "stamp \<Rightarrow> int" where
  "instant (Aware a) = a"
| "instant (Naive a) = a"

text \<open>\<open>MemoryReceiptStore\<close>: the policy and the records; the clock is the argument \<open>now\<close>.\<close>

record memory_receipts =
  mr_policy :: receipt_policy
  mr_records :: "(string \<times> outcome_receipt) list"

definition cleanup_locked :: "stamp \<Rightarrow> (memory_receipts, int) prog" where
  "cleanup_locked now m =
     (if \<not> aware now then (Inl ValueError, m)
      else let cutoff = stamp_minus now (rp_retention (mr_policy m));
               expired = map fst (filter (\<lambda>(k, r). older (rc_recorded_at r) cutoff) (mr_records m))
           in (Inr (int (length expired)),
               m\<lparr>mr_records := filter (\<lambda>(k, r). k \<notin> set expired) (mr_records m)\<rparr>))"

definition trim_locked :: "memory_receipts \<Rightarrow> memory_receipts" where
  "trim_locked m =
     (let overflow = int (length (mr_records m)) - rp_max_records (mr_policy m) in
      if overflow \<le> 0 then m
      else let oldest = take (nat overflow) (map fst (sort_key
                 (\<lambda>(k, r). (instant (rc_recorded_at r), rc_reference r)) (mr_records m)))
           in m\<lparr>mr_records := filter (\<lambda>(k, r). k \<notin> set oldest) (mr_records m)\<rparr>)"

definition memory_write :: "stamp \<Rightarrow> outcome_receipt \<Rightarrow> (memory_receipts, unit) prog" where
  "memory_write now receipt =
     bind_prog (cleanup_locked now) (\<lambda>_ m.
     let key = rc_reference receipt in
     if (case map_of (mr_records m) key of None \<Rightarrow> False | Some existing \<Rightarrow> existing \<noteq> receipt)
     then (Inl ValueError, m)
     else (Inr (), trim_locked (m\<lparr>mr_records := AList.update key receipt (mr_records m)\<rparr>)))"

definition memory_read :: "stamp \<Rightarrow> string \<Rightarrow> (memory_receipts, outcome_receipt option) prog" where
  "memory_read now reference =
     bind_prog (cleanup_locked now) (\<lambda>_ m. (Inr (map_of (mr_records m) reference), m))"

definition memory_lookup :: "stamp \<Rightarrow> string \<Rightarrow> (memory_receipts, receipt_lookup) prog" where
  "memory_lookup now reference =
     bind_prog (memory_read now reference) (\<lambda>receipt m.
     (check_lookup \<lparr>rl_reference = reference,
        rl_state = (case receipt of None \<Rightarrow> StillUnknown | Some _ \<Rightarrow> Found), rl_receipt = receipt\<rparr>, m))"

definition memory_cleanup :: "stamp \<Rightarrow> (memory_receipts, int) prog" where
  "memory_cleanup now = cleanup_locked now"

section \<open>The JSON form\<close>

definition RECEIPT_SCHEMA :: string where "RECEIPT_SCHEMA = ''brain.command-outcome/1''"
definition INTENT_SCHEMA :: string where "INTENT_SCHEMA = ''brain.admission-intent/1''"
definition OUTCOME_SCHEMA :: string where "OUTCOME_SCHEMA = ''brain.owned-invocation-outcome/1''"

definition encode_receipt :: "time_format \<Rightarrow> outcome_receipt \<Rightarrow> json" where
  "encode_receipt tf r = JObj
     [(''schema'', JStr RECEIPT_SCHEMA), (''invocation_id'', JStr (rc_reference r)),
      (''command_id'', JStr (rc_command_id r)), (''command_version'', JInt (rc_command_version r)),
      (''state'', JStr (receipt_state_value (rc_state r))),
      (''recorded_at'', JStr (tf_iso tf (rc_recorded_at r))),
      (''committed_effects'', JArr (map (\<lambda>e. JObj [(''kind'', JStr (ce_kind e)), (''subject'', JStr (ce_subject e))])
          (rc_committed_effects r)))]"

text \<open>\<open>_required_string\<close>\<close>

definition required_string :: "(string \<times> json) list \<Rightarrow> string \<Rightarrow> exn + string" where
  "required_string raw key =
     (case field key raw of
        JStr v \<Rightarrow> bind_result (check_that (\<not> py_blank v) ValueError) (\<lambda>_. Inr v)
      | _ \<Rightarrow> Inl ValueError)"

text \<open>\<open>isinstance(raw, dict) and set(raw) == keys\<close>, with the items of the dictionary.\<close>

definition object_with :: "string set \<Rightarrow> json \<Rightarrow> exn + (string \<times> json) list" where
  "object_with keys raw =
     (case raw of JObj kvs \<Rightarrow> if set (map fst kvs) = keys then Inr kvs else Inl ValueError
      | _ \<Rightarrow> Inl ValueError)"

definition decode_effect :: "json \<Rightarrow> exn + committed_effect" where
  "decode_effect raw =
     bind_result (object_with {''kind'', ''subject''} raw) (\<lambda>kvs.
     bind_result (required_string kvs ''kind'') (\<lambda>kind.
     bind_result (required_string kvs ''subject'') (\<lambda>subject.
     check_effect \<lparr>ce_kind = kind, ce_subject = subject\<rparr>)))"

definition decode_receipt :: "time_format \<Rightarrow> json \<Rightarrow> exn + outcome_receipt" where
  "decode_receipt tf raw =
     bind_result (object_with {''schema'', ''invocation_id'', ''command_id'', ''command_version'',
                    ''state'', ''recorded_at'', ''committed_effects''} raw) (\<lambda>kvs.
     bind_result (check_that (field ''schema'' kvs = JStr RECEIPT_SCHEMA) ValueError) (\<lambda>_.
     bind_result (required_string kvs ''invocation_id'') (\<lambda>invocation_id.
     bind_result (required_string kvs ''command_id'') (\<lambda>command_id.
     bind_result (case field ''command_version'' kvs of JInt n \<Rightarrow> Inr n | _ \<Rightarrow> Inl ValueError) (\<lambda>version.
     bind_result (bind_result (required_string kvs ''state'') receipt_state_of) (\<lambda>state.
     bind_result (bind_result (required_string kvs ''recorded_at'') (tf_from_iso tf)) (\<lambda>recorded_at.
     bind_result (case field ''committed_effects'' kvs of JArr xs \<Rightarrow> Inr xs | _ \<Rightarrow> Inl ValueError) (\<lambda>effects.
     bind_result (collect_results (map decode_effect effects)) (\<lambda>committed.
     bind_result (outcome_reference invocation_id) (\<lambda>reference.
     check_receipt \<lparr>rc_reference = reference, rc_command_id = command_id, rc_command_version = version,
       rc_state = state, rc_recorded_at = recorded_at, rc_committed_effects = committed\<rparr>))))))))))"

definition encode_ownership :: "receipt_ownership \<Rightarrow> json" where
  "encode_ownership w = JObj [(''brain_id'', JStr (ro_brain_id w)), (''principal'', JStr (ro_principal w)),
     (''kind'', JStr (ro_kind w)),
     (''context_id'', case ro_context_id w of None \<Rightarrow> JNull | Some c \<Rightarrow> JStr c)]"

text \<open>\<open>_encode_owned\<close> and \<open>_owned_record\<close>: a value under its schema and its owner.\<close>

definition encode_owned :: "receipt_ownership \<Rightarrow> string \<Rightarrow> string \<Rightarrow> json \<Rightarrow> json" where
  "encode_owned owner schema name value =
     JObj [(''schema'', JStr schema), (''ownership'', encode_ownership owner), (name, value)]"

text \<open>A field the record types as a string: the checks of the record refuse any other value.\<close>

definition string_field :: "(string \<times> json) list \<Rightarrow> string \<Rightarrow> exn + string" where
  "string_field kvs key = (case field key kvs of JStr v \<Rightarrow> Inr v | _ \<Rightarrow> Inl ValueError)"

definition optional_field :: "(string \<times> json) list \<Rightarrow> string \<Rightarrow> exn + string option" where
  "optional_field kvs key = (case field key kvs of JNull \<Rightarrow> Inr None | JStr v \<Rightarrow> Inr (Some v) | _ \<Rightarrow> Inl ValueError)"

text \<open>\<open>value in {...}\<close>: testing membership of a list or a dictionary raises a \<open>TypeError\<close>.\<close>

definition hashable_field :: "(string \<times> json) list \<Rightarrow> string \<Rightarrow> exn + string" where
  "hashable_field kvs key = (case field key kvs of JStr v \<Rightarrow> Inr v
     | JArr _ \<Rightarrow> Inl TypeError | JObj _ \<Rightarrow> Inl TypeError | _ \<Rightarrow> Inl ValueError)"

definition decode_ownership :: "json \<Rightarrow> exn + receipt_ownership" where
  "decode_ownership raw =
     bind_result (object_with {''brain_id'', ''principal'', ''kind'', ''context_id''} raw) (\<lambda>kvs.
     bind_result (string_field kvs ''brain_id'') (\<lambda>brain. bind_result (bounded_identity brain) (\<lambda>_.
     bind_result (string_field kvs ''principal'') (\<lambda>principal. bind_result (bounded_identity principal) (\<lambda>_.
     bind_result (hashable_field kvs ''kind'') (\<lambda>kind.
     bind_result (optional_field kvs ''context_id'') (\<lambda>context.
     check_ownership \<lparr>ro_brain_id = brain, ro_principal = principal, ro_kind = kind,
       ro_context_id = context\<rparr>)))))))"

definition owned_record :: "json \<Rightarrow> string \<Rightarrow> string \<Rightarrow> exn + receipt_ownership \<times> json" where
  "owned_record raw schema name =
     bind_result (object_with {''schema'', ''ownership'', name} raw) (\<lambda>kvs.
     bind_result (check_that (field ''schema'' kvs = JStr schema) ValueError) (\<lambda>_.
     bind_result (decode_ownership (field ''ownership'' kvs)) (\<lambda>owner.
     Inr (owner, field name kvs))))"

end
