(* ===== verification/Receipt_Codec.thy ===== *)
theory Receipt_Codec
  imports Receipt_Records
begin

text \<open>
  The JSON form of admission intents and invocation outcomes
  (\<open>_encode_intent\<close>, \<open>_decode_intent\<close> and \<open>_read_outcome\<close> of \<open>_command_interface/receipts.py\<close>),
  and the proof that every record that passes its own checks is read back as it was written.
\<close>

section \<open>Encoding\<close>

definition encode_change :: "permission_change \<Rightarrow> json" where
  "encode_change p = JObj [(''operator_id'', JStr (pc_operator_id p)),
     (''before_profile'', JStr (pc_before_profile p)), (''after_profile'', JStr (pc_after_profile p)),
     (''added_permissions'', JArr (map JStr (pc_added_permissions p))),
     (''removed_permissions'', JArr (map JStr (pc_removed_permissions p))),
     (''before_revision'', JStr (pc_before_revision p))]"

definition optional_json :: "string option \<Rightarrow> json" where
  "optional_json v = (case v of None \<Rightarrow> JNull | Some s \<Rightarrow> JStr s)"

definition encode_intent :: "time_format \<Rightarrow> admission_intent \<Rightarrow> json" where
  "encode_intent tf i = JObj
     ([(''reference'', JObj [(''invocation_id'', JStr (ai_reference i))]),
       (''command_id'', JStr (ai_command_id i)), (''command_version'', JInt (ai_command_version i)),
       (''recorded_at'', JStr (tf_iso tf (ai_recorded_at i))), (''basis'', JStr (ai_basis i)),
       (''generation'', JStr (ai_generation i)), (''source'', JStr (ai_source i)),
       (''grant_id'', optional_json (ai_grant_id i)), (''operation_id'', optional_json (ai_operation_id i)),
       (''operation_digest'', optional_json (ai_operation_digest i)),
       (''request_id'', optional_json (ai_request_id i))]
      @ (case ai_permission_change i of None \<Rightarrow> [] | Some p \<Rightarrow> [(''permission_change'', encode_change p)]))"

definition encode_outcome :: "time_format \<Rightarrow> invocation_outcome \<Rightarrow> json" where
  "encode_outcome tf o' = JObj
     ([(''execution'', JStr (execution_value (io_execution o'))),
       (''receipt'', encode_receipt tf (io_receipt o'))]
      @ (case io_config_revision o' of None \<Rightarrow> [] | Some v \<Rightarrow> [(''config_revision'', JStr v)]))"

section \<open>Decoding\<close>

text \<open>
  A list of command identifiers. An element that is not a string fails the sort or the regular
  expression of \<open>PermissionChange\<close>, a \<open>TypeError\<close>.
\<close>

fun string_items :: "json list \<Rightarrow> exn + string list" where
  "string_items [] = Inr []"
| "string_items (JStr s # xs) = bind_result (string_items xs) (\<lambda>ss. Inr (s # ss))"
| "string_items (_ # xs) = Inl TypeError"

definition list_field :: "(string \<times> json) list \<Rightarrow> string \<Rightarrow> exn + json list" where
  "list_field kvs key = (case field key kvs of JArr xs \<Rightarrow> Inr xs | _ \<Rightarrow> Inl ValueError)"

definition bounded_field :: "(string \<times> json) list \<Rightarrow> string \<Rightarrow> exn + string" where
  "bounded_field kvs key = bind_result (string_field kvs key) (\<lambda>v. bind_result (bounded_identity v) (\<lambda>_. Inr v))"

definition decode_change :: "json \<Rightarrow> exn + permission_change" where
  "decode_change raw =
     bind_result (object_with {''operator_id'', ''before_profile'', ''after_profile'', ''added_permissions'',
                    ''removed_permissions'', ''before_revision''} raw) (\<lambda>kvs.
     bind_result (list_field kvs ''added_permissions'') (\<lambda>added.
     bind_result (list_field kvs ''removed_permissions'') (\<lambda>removed.
     bind_result (bounded_field kvs ''operator_id'') (\<lambda>operator_id.
     bind_result (bounded_field kvs ''before_profile'') (\<lambda>before_profile.
     bind_result (bounded_field kvs ''after_profile'') (\<lambda>after_profile.
     bind_result (bounded_field kvs ''before_revision'') (\<lambda>before_revision.
     bind_result (string_items added) (\<lambda>added_permissions.
     bind_result (check_permission_set added_permissions) (\<lambda>_.
     bind_result (string_items removed) (\<lambda>removed_permissions.
     check_permission_change \<lparr>pc_operator_id = operator_id, pc_before_profile = before_profile,
       pc_after_profile = after_profile, pc_added_permissions = added_permissions,
       pc_removed_permissions = removed_permissions, pc_before_revision = before_revision\<rparr>))))))))))"

definition INTENT_FIELDS :: "string set" where
  "INTENT_FIELDS = {''reference'', ''command_id'', ''command_version'', ''recorded_at'', ''basis'',
     ''generation'', ''source'', ''grant_id'', ''operation_id'', ''operation_digest'', ''request_id''}"

definition decode_intent :: "time_format \<Rightarrow> json \<Rightarrow> exn + admission_intent" where
  "decode_intent tf raw =
     bind_result (case raw of
         JObj kvs \<Rightarrow> if set (map fst kvs) \<in> {INTENT_FIELDS, insert ''permission_change'' INTENT_FIELDS}
                     then Inr kvs else Inl ValueError
       | _ \<Rightarrow> Inl ValueError) (\<lambda>kvs.
     bind_result (object_with {''invocation_id''} (field ''reference'' kvs)) (\<lambda>ref_kvs.
     bind_result (bind_result (required_string ref_kvs ''invocation_id'') outcome_reference) (\<lambda>reference.
     bind_result (bind_result (required_string kvs ''recorded_at'') (tf_from_iso tf)) (\<lambda>recorded_at.
     bind_result (case field ''permission_change'' kvs of JNull \<Rightarrow> Inr None
                  | v \<Rightarrow> bind_result (decode_change v) (\<lambda>p. Inr (Some p))) (\<lambda>change.
     bind_result (bounded_identity reference) (\<lambda>_.
     bind_result (case field ''command_id'' kvs of JStr c \<Rightarrow> Inr c | _ \<Rightarrow> Inl TypeError) (\<lambda>command_id.
     bind_result (validate_command_id command_id) (\<lambda>_.
     bind_result (check_that (\<not> (change \<noteq> None \<and> command_id \<noteq> ''permission.set-profile'')) ValueError) (\<lambda>_.
     bind_result (case field ''command_version'' kvs of JInt n \<Rightarrow> check_that (1 \<le> n) ValueError
                  | _ \<Rightarrow> Inl ValueError) (\<lambda>_.
     bind_result (check_that (aware recorded_at) ValueError) (\<lambda>_.
     bind_result (hashable_field kvs ''basis'') (\<lambda>basis.
     bind_result (check_that (basis \<in> {''initial'', ''command'', ''operation''}) ValueError) (\<lambda>_.
     bind_result (hashable_field kvs ''source'') (\<lambda>source.
     bind_result (string_field kvs ''generation'') (\<lambda>generation.
     bind_result (optional_field kvs ''grant_id'') (\<lambda>grant_id.
     bind_result (optional_field kvs ''operation_id'') (\<lambda>operation_id.
     bind_result (optional_field kvs ''request_id'') (\<lambda>request_id.
     bind_result (optional_field kvs ''operation_digest'') (\<lambda>operation_digest.
     check_intent \<lparr>ai_reference = reference, ai_command_id = command_id,
       ai_command_version = (case field ''command_version'' kvs of JInt n \<Rightarrow> n | _ \<Rightarrow> 0),
       ai_recorded_at = recorded_at, ai_basis = basis, ai_generation = generation, ai_source = source,
       ai_grant_id = grant_id, ai_operation_id = operation_id, ai_operation_digest = operation_digest,
       ai_request_id = request_id, ai_permission_change = change\<rparr>)))))))))))))))))))"

text \<open>The value of a final outcome file, after its owner was checked.\<close>

definition decode_outcome :: "time_format \<Rightarrow> json \<Rightarrow> exn + invocation_outcome" where
  "decode_outcome tf raw =
     bind_result (case raw of
         JObj kvs \<Rightarrow> if set (map fst kvs) \<in> {{''execution'', ''receipt''}, {''execution'', ''receipt'', ''config_revision''}}
                     then Inr kvs else Inl ValueError
       | _ \<Rightarrow> Inl ValueError) (\<lambda>kvs.
     bind_result (decode_receipt tf (field ''receipt'' kvs)) (\<lambda>receipt.
     bind_result (bind_result (string_field kvs ''execution'') execution_of) (\<lambda>execution.
     bind_result (optional_field kvs ''config_revision'') (\<lambda>revision.
     check_outcome \<lparr>io_receipt = receipt, io_execution = execution, io_config_revision = revision\<rparr>))))"

section \<open>Round trips\<close>

text \<open>The documented law of the standard library: \<open>fromisoformat\<close> reads back what \<open>isoformat\<close> writes.\<close>

definition faithful_format :: "time_format \<Rightarrow> bool" where
  "faithful_format tf = (\<forall>t. tf_from_iso tf (tf_iso tf t) = Inr t \<and> \<not> py_blank (tf_iso tf t))"

lemma faithful_formatD:
  "faithful_format tf \<Longrightarrow> tf_from_iso tf (tf_iso tf t) = Inr t"
  "faithful_format tf \<Longrightarrow> \<not> py_blank (tf_iso tf t)"
  by (simp_all add: faithful_format_def)

lemma receipt_state_of_value [simp]: "receipt_state_of (receipt_state_value s) = Inr s"
  by (cases s) (simp_all add: receipt_state_of_def)

text \<open>A string that begins with a visible ASCII character is not blank.\<close>

lemma visible_not_blank:
  assumes "32 < (of_char c :: nat)" "(of_char c :: nat) < 128"
  shows "\<not> py_blank (c # cs)"
  using assms
  by (auto simp: ascii_space_def two_byte_space_def three_byte_space_def Let_def split: list.splits)

lemma receipt_state_value_visible [simp]: "\<not> py_blank (receipt_state_value s)"
  by (cases s) (simp_all add: visible_not_blank del: py_blank.simps)

lemma execution_of_value [simp]: "execution_of (execution_value s) = Inr s"
  by (cases s) (simp_all add: execution_of_def)

lemma bind_check_Inr: "bind_result (check_that b e) f = Inr y \<longleftrightarrow> b \<and> f () = Inr y"
  by (auto simp: bind_result_Inr)

lemma check_receipt_Inr:
  "check_receipt r = Inr r' \<longleftrightarrow> r' = r \<and> command_id_pattern (rc_command_id r) \<and> 1 \<le> rc_command_version r
     \<and> aware (rc_recorded_at r) \<and> (rc_state r = KnownPartial \<longrightarrow> rc_committed_effects r \<noteq> [])
     \<and> (rc_state r \<in> {NoneState, UnknownState} \<longrightarrow> rc_committed_effects r = [])"
  by (auto simp: check_receipt_def bind_result_Inr)

lemma check_effect_Inr:
  "check_effect e = Inr e' \<longleftrightarrow> e' = e \<and> \<not> py_blank (ce_kind e) \<and> \<not> py_blank (ce_subject e)"
  by (auto simp: check_effect_def bind_result_Inr)

text \<open>A receipt as the program holds it: its reference and its effects passed their own checks.\<close>

definition valid_receipt :: "outcome_receipt \<Rightarrow> bool" where
  "valid_receipt r = (check_receipt r = Inr r \<and> outcome_reference (rc_reference r) = Inr (rc_reference r)
     \<and> list_all (\<lambda>e. check_effect e = Inr e) (rc_committed_effects r))"

lemma command_id_visible: "command_id_pattern c \<Longrightarrow> \<not> py_blank c"
  by (auto simp: command_id_pattern_iff command_part_def lower_letter_def Let_def neq_Nil_conv
      visible_not_blank simp del: py_blank.simps)

lemma effects_round_trip:
  "list_all (\<lambda>e. check_effect e = Inr e) es \<Longrightarrow>
   collect_results (map decode_effect (map (\<lambda>e. JObj [(''kind'', JStr (ce_kind e)), (''subject'', JStr (ce_subject e))]) es))
     = Inr es"
  by (induction es) (auto simp: decode_effect_def object_with_def required_string_def check_effect_Inr
      bind_result_def check_that_def check_effect_def)

lemma receipt_round_trip_lemma:
  assumes "valid_receipt r" "faithful_format tf"
  shows "decode_receipt tf (encode_receipt tf r) = Inr r"
  using assms effects_round_trip[of "rc_committed_effects r"] command_id_visible[of "rc_command_id r"]
    faithful_formatD[OF assms(2), of "rc_recorded_at r"]
  by (simp add: decode_receipt_def encode_receipt_def object_with_def required_string_def valid_receipt_def
      RECEIPT_SCHEMA_def check_that_def bind_result_def outcome_reference_def check_receipt_Inr split: if_splits)

lemma check_intent_Inr:
  "check_intent i = Inr i' \<longleftrightarrow> i' = i \<and> bounded_identity (ai_reference i) = Inr ()
     \<and> command_id_pattern (ai_command_id i)
     \<and> (ai_permission_change i \<noteq> None \<longrightarrow> ai_command_id i = ''permission.set-profile'')
     \<and> 1 \<le> ai_command_version i \<and> aware (ai_recorded_at i)
     \<and> ai_basis i \<in> {''initial'', ''command'', ''operation''}
     \<and> ai_source i \<in> {''host-request'', ''cli-request''}
     \<and> bounded_identity (ai_generation i) = Inr () \<and> optional_identity (ai_grant_id i) = Inr ()
     \<and> optional_identity (ai_operation_id i) = Inr () \<and> optional_identity (ai_request_id i) = Inr ()
     \<and> (ai_basis i = ''initial'' \<longrightarrow> ai_grant_id i = None)
     \<and> (ai_basis i \<noteq> ''initial'' \<longrightarrow> ai_grant_id i \<noteq> None)
     \<and> (ai_basis i = ''operation'' \<longrightarrow> ai_operation_id i \<noteq> None \<and> ai_operation_digest i \<noteq> None)
     \<and> (case ai_operation_digest i of None \<Rightarrow> True | Some d \<Rightarrow> digest_pattern d)"
  unfolding check_intent_def bind_result_Inr by (auto simp: bind_result_Inr)

text \<open>An intent as the program holds it.\<close>

definition valid_intent :: "admission_intent \<Rightarrow> bool" where
  "valid_intent i = (check_intent i = Inr i \<and> outcome_reference (ai_reference i) = Inr (ai_reference i)
     \<and> (case ai_permission_change i of None \<Rightarrow> True | Some p \<Rightarrow> check_permission_change p = Inr p))"

lemma string_items_map [simp]: "string_items (map JStr ss) = Inr ss"
  by (induction ss) (simp_all add: bind_result_def)

lemma change_round_trip:
  "check_permission_change p = Inr p \<Longrightarrow> decode_change (encode_change p) = Inr p"
  by (simp add: decode_change_def encode_change_def object_with_def list_field_def bounded_field_def
      string_field_def bind_result_Inr check_permission_change_def insert_commute)

lemma optional_field_json [simp]:
  "field key kvs = optional_json v \<Longrightarrow> optional_field kvs key = Inr v"
  by (cases v) (simp_all add: optional_field_def optional_json_def)

lemma encode_change_not_null: "encode_change p \<noteq> JNull"
  by (simp add: encode_change_def)

lemma intent_fields:
  assumes "encode_intent tf i = JObj kvs"
  shows "field ''reference'' kvs = JObj [(''invocation_id'', JStr (ai_reference i))]"
    "field ''command_id'' kvs = JStr (ai_command_id i)" "field ''command_version'' kvs = JInt (ai_command_version i)"
    "field ''recorded_at'' kvs = JStr (tf_iso tf (ai_recorded_at i))" "field ''basis'' kvs = JStr (ai_basis i)"
    "field ''generation'' kvs = JStr (ai_generation i)" "field ''source'' kvs = JStr (ai_source i)"
    "field ''grant_id'' kvs = optional_json (ai_grant_id i)"
    "field ''operation_id'' kvs = optional_json (ai_operation_id i)"
    "field ''operation_digest'' kvs = optional_json (ai_operation_digest i)"
    "field ''request_id'' kvs = optional_json (ai_request_id i)"
    "field ''permission_change'' kvs = (case ai_permission_change i of None \<Rightarrow> JNull | Some p \<Rightarrow> encode_change p)"
    "set (map fst kvs) = (if ai_permission_change i = None then INTENT_FIELDS else insert ''permission_change'' INTENT_FIELDS)"
  using assms by (auto simp: encode_intent_def field_def INTENT_FIELDS_def split: option.splits)

lemma intent_round_trip_lemma:
  assumes i: "valid_intent i" and tf: "faithful_format tf"
  shows "decode_intent tf (encode_intent tf i) = Inr i"
proof -
  obtain kvs where kvs: "encode_intent tf i = JObj kvs" by (simp add: encode_intent_def)
  note fields = intent_fields[OF kvs]
  have change: "(case field ''permission_change'' kvs of JNull \<Rightarrow> Inr None
      | v \<Rightarrow> bind_result (decode_change v) (\<lambda>p. Inr (Some p))) = Inr (ai_permission_change i)"
  proof (cases "ai_permission_change i")
    case (Some p)
    with i have "decode_change (encode_change p) = Inr p" by (simp add: valid_intent_def change_round_trip)
    with Some show ?thesis by (simp add: fields bind_result_def encode_change_def)
  qed (simp add: fields)
  have keys: "set (map fst kvs) \<in> {INTENT_FIELDS, insert ''permission_change'' INTENT_FIELDS}"
    by (simp only: fields) simp
  show ?thesis
    unfolding kvs decode_intent_def json.case
    using i keys faithful_formatD[OF tf, of "ai_recorded_at i"]
    by (simp add: valid_intent_def check_intent_Inr bind_result_Inr change fields(1-11) object_with_def
        required_string_def hashable_field_def string_field_def outcome_reference_def)
      (cases "ai_permission_change i"; simp)
qed

lemma check_outcome_Inr:
  "check_outcome o' = Inr o'' \<longleftrightarrow> o'' = o' \<and> bounded_identity (rc_reference (io_receipt o')) = Inr ()
     \<and> (case io_config_revision o' of None \<Rightarrow> True | Some v \<Rightarrow>
          bounded_identity v = Inr () \<and> rc_command_id (io_receipt o') = ''permission.set-profile'')
     \<and> rc_state (io_receipt o') \<in> allowed_states (io_execution o')"
  by (auto simp: check_outcome_def bind_result_Inr split: option.splits)

definition valid_outcome :: "invocation_outcome \<Rightarrow> bool" where
  "valid_outcome o' = (valid_receipt (io_receipt o') \<and> check_outcome o' = Inr o')"

lemma outcome_round_trip_lemma:
  assumes "valid_outcome o'" "faithful_format tf"
  shows "decode_outcome tf (encode_outcome tf o') = Inr o'"
  using assms receipt_round_trip_lemma[of "io_receipt o'" tf]
  by (cases "io_config_revision o'")
    (auto simp: decode_outcome_def encode_outcome_def bind_result_Inr valid_outcome_def string_field_def
      optional_field_def check_outcome_Inr field_def)

lemma ownership_round_trip:
  assumes "check_ownership w = Inr w"
  shows "decode_ownership (encode_ownership w) = Inr w"
  using assms
  by (cases "ro_context_id w")
    (auto simp: decode_ownership_def encode_ownership_def object_with_def string_field_def hashable_field_def
      optional_field_def bind_result_Inr check_ownership_def insert_commute split: if_splits)

lemma owned_round_trip:
  assumes "check_ownership w = Inr w" "name \<notin> {''schema'', ''ownership''}"
  shows "owned_record (encode_owned w schema name v) schema name = Inr (w, v)"
  using assms(2) ownership_round_trip[OF assms(1)]
  by (simp add: owned_record_def encode_owned_def object_with_def bind_result_Inr)

end
