(* ===== verification/Receipt_Ledger.thy ===== *)
theory Receipt_Ledger
  imports Receipt_Codec
begin

text \<open>
  \<open>_command_interface/receipts.py\<close>: the file-backed receipt store and the owned-invocation ledger.

  A directory is the files in it by name. A file is a regular file whose text parses as JSON, one
  whose text does not, a symbolic link, or a directory; the bytes of a JSON file and the temporary
  file behind an atomic replacement are below this model. \<open>rd_past\<close> records every state the
  directory went through, which are the states a crash can leave behind. The file lock makes each
  locked operation one step for other processes, so these operations are functions on the
  directory; \<open>read\<close> takes no file lock and is given the directory twice.

  \<open>_OwnedLedger\<close> overrides how a record is read and removed: \<open>receipt_kind\<close> is that pair of methods.
\<close>

section \<open>Directories\<close>

datatype node = JsonFile json | BadFile | SymlinkNode | DirNode

type_synonym files = "(string \<times> node) list"

record receipt_dir =
  rd_exists :: bool
  rd_files :: files
  rd_past :: "files list"

definition change_files :: "(files \<Rightarrow> files) \<Rightarrow> (receipt_dir, unit) prog" where
  "change_files f d = (Inr (), d\<lparr>rd_files := f (rd_files d), rd_past := rd_past d @ [rd_files d]\<rparr>)"

text \<open>\<open>safe_write_json(..., follow_symlinks=False)\<close>: replaces a file or a link, but not a directory.\<close>

definition write_json :: "string \<Rightarrow> json \<Rightarrow> (receipt_dir, unit) prog" where
  "write_json name v d =
     (if map_of (rd_files d) name = Some DirNode then (Inl OSError, d)
      else change_files (AList.update name (JsonFile v)) d)"

text \<open>\<open>unlink(missing_ok=True)\<close>\<close>

definition unlink :: "string \<Rightarrow> (receipt_dir, unit) prog" where
  "unlink name d =
     (case map_of (rd_files d) name of
        None \<Rightarrow> (Inr (), d)
      | Some DirNode \<Rightarrow> (Inl OSError, d)
      | Some _ \<Rightarrow> change_files (AList.delete name) d)"

text \<open>\<open>_read_json_path\<close>\<close>

definition read_json_path :: "files \<Rightarrow> string \<Rightarrow> exn + json option" where
  "read_json_path fs name =
     (case map_of fs name of
        None \<Rightarrow> Inr None
      | Some (JsonFile JNull) \<Rightarrow> Inl ValueError
      | Some (JsonFile v) \<Rightarrow> Inr (Some v)
      | Some _ \<Rightarrow> Inl ValueError)"

definition receipt_name :: "(string \<Rightarrow> string) \<Rightarrow> string \<Rightarrow> string" where
  "receipt_name hx reference = hx reference @ ''.json''"

text \<open>\<open>path.with_suffix(".outcome")\<close> of a receipt path.\<close>

definition outcome_name :: "string \<Rightarrow> string" where
  "outcome_name name = take (length name - 5) name @ ''.outcome''"

definition ends_with :: "string \<Rightarrow> string \<Rightarrow> bool" where
  "ends_with suffix s = starts_with (rev suffix) (rev s)"

definition INDEX_NAME :: string where "INDEX_NAME = ''.receipt-index''"
definition INDEX_SCHEMA :: string where "INDEX_SCHEMA = ''brain.command-outcome-index/1''"

section \<open>The two kinds of record\<close>

record 'r receipt_kind =
  rk_decode :: "json \<Rightarrow> exn + 'r"
  rk_reference :: "'r \<Rightarrow> string"
  rk_recorded_at :: "'r \<Rightarrow> stamp"
  rk_paired :: bool

text \<open>\<open>FileReceiptStore._read_path\<close>\<close>

definition public_kind :: "time_format \<Rightarrow> outcome_receipt receipt_kind" where
  "public_kind tf = \<lparr>rk_decode = decode_receipt tf, rk_reference = rc_reference,
     rk_recorded_at = rc_recorded_at, rk_paired = False\<rparr>"

record stored_intent =
  si_ownership :: receipt_ownership
  si_intent :: admission_intent

text \<open>\<open>_OwnedLedger._read_path\<close>\<close>

definition decode_stored :: "time_format \<Rightarrow> json \<Rightarrow> exn + stored_intent" where
  "decode_stored tf raw =
     bind_result (owned_record raw INTENT_SCHEMA ''intent'') (\<lambda>(ownership, value).
     bind_result (decode_intent tf value) (\<lambda>intent.
     Inr \<lparr>si_ownership = ownership, si_intent = intent\<rparr>))"

definition owned_kind :: "time_format \<Rightarrow> stored_intent receipt_kind" where
  "owned_kind tf = \<lparr>rk_decode = decode_stored tf, rk_reference = (\<lambda>s. ai_reference (si_intent s)),
     rk_recorded_at = (\<lambda>s. ai_recorded_at (si_intent s)), rk_paired = True\<rparr>"

definition read_path :: "'r receipt_kind \<Rightarrow> files \<Rightarrow> string \<Rightarrow> exn + 'r option" where
  "read_path rk fs name =
     bind_result (read_json_path fs name) (\<lambda>raw.
     case raw of None \<Rightarrow> Inr None | Some v \<Rightarrow> bind_result (rk_decode rk v) (\<lambda>r. Inr (Some r)))"

text \<open>\<open>_remove_record\<close>: the owned ledger evicts the outcome first, so that a racing reader can
  only become less certain.\<close>

definition remove_record :: "'r receipt_kind \<Rightarrow> string \<Rightarrow> (receipt_dir, unit) prog" where
  "remove_record rk name =
     bind_prog (if rk_paired rk then unlink (outcome_name name) else return_prog ()) (\<lambda>_. unlink name)"

section \<open>The index\<close>

type_synonym receipt_index = "(string \<times> stamp) list"

definition encode_index :: "time_format \<Rightarrow> receipt_index \<Rightarrow> json" where
  "encode_index tf ix = JObj [(''schema'', JStr INDEX_SCHEMA),
     (''records'', JObj (map (\<lambda>(n, t). (n, JStr (tf_iso tf t))) (sort_key fst ix)))]"

text \<open>\<open>[0-9a-f]{64}\.json\<close>\<close>

definition receipt_filename :: "string \<Rightarrow> bool" where
  "receipt_filename n = (length n = 69 \<and> list_all lower_hex (take 64 n) \<and> drop 64 n = ''.json'')"

definition decode_entry :: "time_format \<Rightarrow> string \<times> json \<Rightarrow> exn + string \<times> stamp" where
  "decode_entry tf e =
     (case snd e of
        JStr raw \<Rightarrow>
          if \<not> receipt_filename (fst e) then Inl ValueError
          else bind_result (tf_from_iso tf raw) (\<lambda>t.
               bind_result (check_that (aware t) ValueError) (\<lambda>_. Inr (fst e, t)))
      | _ \<Rightarrow> Inl ValueError)"

definition decode_index :: "time_format \<Rightarrow> json \<Rightarrow> exn + receipt_index" where
  "decode_index tf raw =
     bind_result (object_with {''schema'', ''records''} raw) (\<lambda>kvs.
     bind_result (check_that (field ''schema'' kvs = JStr INDEX_SCHEMA) ValueError) (\<lambda>_.
     case field ''records'' kvs of
       JObj records \<Rightarrow> collect_results (map (decode_entry tf) records)
     | _ \<Rightarrow> Inl ValueError))"

definition write_index :: "time_format \<Rightarrow> receipt_index \<Rightarrow> (receipt_dir, unit) prog" where
  "write_index tf ix = write_json INDEX_NAME (encode_index tf ix)"

text \<open>\<open>_records_locked\<close>: every receipt file in order of its name, checked against its reference.\<close>

fun read_records ::
  "(string \<Rightarrow> string) \<Rightarrow> 'r receipt_kind \<Rightarrow> files \<Rightarrow> string list \<Rightarrow> exn + (string \<times> 'r) list" where
  "read_records hx rk fs [] = Inr []"
| "read_records hx rk fs (n # ns) =
     bind_result (read_path rk fs n) (\<lambda>r.
     case r of
       None \<Rightarrow> read_records hx rk fs ns
     | Some x \<Rightarrow>
         if n \<noteq> receipt_name hx (rk_reference rk x) then Inl ValueError
         else bind_result (read_records hx rk fs ns) (\<lambda>rs. Inr ((n, x) # rs)))"

definition records_locked :: "(string \<Rightarrow> string) \<Rightarrow> 'r receipt_kind \<Rightarrow> files \<Rightarrow> exn + (string \<times> 'r) list" where
  "records_locked hx rk fs = read_records hx rk fs (sort (filter (ends_with ''.json'') (map fst fs)))"

definition rebuild_index ::
  "(string \<Rightarrow> string) \<Rightarrow> time_format \<Rightarrow> 'r receipt_kind \<Rightarrow> (receipt_dir, receipt_index) prog" where
  "rebuild_index hx tf rk =
     bind_prog (lift_result (\<lambda>d. records_locked hx rk (rd_files d))) (\<lambda>records.
     let ix = map (\<lambda>(n, r). (n, rk_recorded_at rk r)) records in
     bind_prog (write_index tf ix) (\<lambda>_. return_prog ix))"

definition load_index ::
  "(string \<Rightarrow> string) \<Rightarrow> time_format \<Rightarrow> 'r receipt_kind \<Rightarrow> (receipt_dir, receipt_index) prog" where
  "load_index hx tf rk d =
     (case map_of (rd_files d) INDEX_NAME of
        None \<Rightarrow> rebuild_index hx tf rk d
      | Some SymlinkNode \<Rightarrow> (Inl ValueError, d)
      | Some DirNode \<Rightarrow> (Inl ValueError, d)
      | Some BadFile \<Rightarrow> rebuild_index hx tf rk d
      | Some (JsonFile v) \<Rightarrow>
          (case decode_index tf v of
             Inr ix \<Rightarrow> (Inr ix, d)
           | Inl e \<Rightarrow> if is_value_error e \<or> e = OSError then rebuild_index hx tf rk d else (Inl e, d)))"

text \<open>The loop of \<open>_expire_index_locked\<close> over the entries, then its clock check.\<close>

fun expire_entries :: "'r receipt_kind \<Rightarrow> stamp \<Rightarrow> receipt_index \<Rightarrow> (receipt_dir, receipt_index \<times> int) prog" where
  "expire_entries rk cutoff [] = return_prog ([], 0)"
| "expire_entries rk cutoff ((n, t) # ix) =
     (if older t cutoff
      then bind_prog (remove_record rk n) (\<lambda>_.
           bind_prog (expire_entries rk cutoff ix) (\<lambda>(kept, k). return_prog (kept, k + 1)))
      else bind_prog (expire_entries rk cutoff ix) (\<lambda>(kept, k). return_prog ((n, t) # kept, k)))"

definition expire_index ::
  "'r receipt_kind \<Rightarrow> receipt_policy \<Rightarrow> stamp \<Rightarrow> receipt_index \<Rightarrow> (receipt_dir, receipt_index \<times> int) prog" where
  "expire_index rk pol now ix =
     (if \<not> aware now then raise_prog ValueError
      else expire_entries rk (stamp_minus now (rp_retention pol)) ix)"

fun remove_records :: "'r receipt_kind \<Rightarrow> string list \<Rightarrow> (receipt_dir, unit) prog" where
  "remove_records rk [] = return_prog ()"
| "remove_records rk (n # ns) = bind_prog (remove_record rk n) (\<lambda>_. remove_records rk ns)"

definition trim_victims :: "receipt_policy \<Rightarrow> receipt_index \<Rightarrow> string list" where
  "trim_victims pol ix =
     take (nat (int (length ix) - rp_max_records pol))
       (map fst (sort_key (\<lambda>(n, t). (instant t, n)) ix))"

definition trim_index :: "'r receipt_kind \<Rightarrow> receipt_policy \<Rightarrow> receipt_index \<Rightarrow> (receipt_dir, receipt_index) prog" where
  "trim_index rk pol ix =
     bind_prog (remove_records rk (trim_victims pol ix)) (\<lambda>_.
     return_prog (filter (\<lambda>(n, t). n \<notin> set (trim_victims pol ix)) ix))"

text \<open>\<open>_expire_records_locked\<close> is the same loop over records instead of index entries.\<close>

fun expire_records ::
  "'r receipt_kind \<Rightarrow> stamp \<Rightarrow> (string \<times> 'r) list \<Rightarrow> (receipt_dir, (string \<times> 'r) list \<times> int) prog" where
  "expire_records rk cutoff [] = return_prog ([], 0)"
| "expire_records rk cutoff ((n, r) # rs) =
     (if older (rk_recorded_at rk r) cutoff
      then bind_prog (remove_record rk n) (\<lambda>_.
           bind_prog (expire_records rk cutoff rs) (\<lambda>(kept, k). return_prog (kept, k + 1)))
      else bind_prog (expire_records rk cutoff rs) (\<lambda>(kept, k). return_prog ((n, r) # kept, k)))"

text \<open>\<open>_locked_directory\<close>: the directory exists from here on.\<close>

definition locked :: "(receipt_dir, 'a) prog \<Rightarrow> (receipt_dir, 'a) prog" where
  "locked m d = m (d\<lparr>rd_exists := True\<rparr>)"

section \<open>The public store\<close>

definition file_write ::
  "(string \<Rightarrow> string) \<Rightarrow> time_format \<Rightarrow> receipt_policy \<Rightarrow> stamp \<Rightarrow> outcome_receipt \<Rightarrow> (receipt_dir, unit) prog" where
  "file_write hx tf pol now receipt =
     (if rc_state receipt = NoneState then return_prog ()
      else locked (
        let rk = public_kind tf; name = receipt_name hx (rc_reference receipt) in
        bind_prog (load_index hx tf rk) (\<lambda>loaded.
        bind_prog (expire_index rk pol now loaded) (\<lambda>(ix, _).
        bind_prog (lift_result (\<lambda>d. read_path rk (rd_files d) name)) (\<lambda>existing.
        case existing of
          Some r \<Rightarrow>
            if r \<noteq> receipt then raise_prog ValueError
            else if map_of ix name \<noteq> Some (rc_recorded_at receipt)
            then write_index tf (AList.update name (rc_recorded_at receipt) ix)
            else return_prog ()
        | None \<Rightarrow>
            bind_prog (write_json name (encode_receipt tf receipt)) (\<lambda>_.
            bind_prog (trim_index rk pol (AList.update name (rc_recorded_at receipt) ix)) (\<lambda>ix'.
            write_index tf ix')))))))"

definition file_read ::
  "(string \<Rightarrow> string) \<Rightarrow> time_format \<Rightarrow> receipt_policy \<Rightarrow> stamp \<Rightarrow> string \<Rightarrow> receipt_dir \<Rightarrow> exn + outcome_receipt option" where
  "file_read hx tf pol now reference d =
     (if \<not> rd_exists d then Inr None
      else bind_result (check_that (aware now) ValueError) (\<lambda>_.
           bind_result (read_path (public_kind tf) (rd_files d) (receipt_name hx reference)) (\<lambda>receipt.
           case receipt of
             None \<Rightarrow> Inr None
           | Some r \<Rightarrow> Inr (if older (rc_recorded_at r) (stamp_minus now (rp_retention pol)) then None else Some r))))"

definition file_cleanup ::
  "(string \<Rightarrow> string) \<Rightarrow> time_format \<Rightarrow> 'r receipt_kind \<Rightarrow> receipt_policy \<Rightarrow> stamp \<Rightarrow> (receipt_dir, int) prog" where
  "file_cleanup hx tf rk pol now = locked (
     bind_prog (lift_result (\<lambda>d. records_locked hx rk (rd_files d))) (\<lambda>records.
     bind_prog (if \<not> aware now then raise_prog ValueError
                else expire_records rk (stamp_minus now (rp_retention pol)) records) (\<lambda>(kept, expired).
     bind_prog (write_index tf (map (\<lambda>(n, r). (n, rk_recorded_at rk r)) kept)) (\<lambda>_.
     return_prog expired))))"

section \<open>The owned ledger\<close>

text \<open>\<open>OwnedReceiptStore\<close>: the trusted ownership and what it shares with the ledger it wraps.\<close>

record owned_store =
  os_hex :: "string \<Rightarrow> string"
  os_format :: time_format
  os_policy :: receipt_policy
  os_ownership :: receipt_ownership

definition require_owner :: "owned_store \<Rightarrow> receipt_ownership \<Rightarrow> exn + unit" where
  "require_owner os ownership = check_that (ownership = os_ownership os) ReceiptOwnershipError"

text \<open>\<open>_deny_legacy\<close> looks for a receipt of the public store, the directory \<open>legacy\<close>.\<close>

definition deny_legacy :: "owned_store \<Rightarrow> receipt_dir \<Rightarrow> string \<Rightarrow> exn + unit" where
  "deny_legacy os legacy reference =
     (if \<not> rd_exists legacy then Inr ()
      else bind_result (read_json_path (rd_files legacy) (receipt_name (os_hex os) reference)) (\<lambda>raw.
           check_that (raw = None) ReceiptOwnershipError))"

definition encode_stored :: "owned_store \<Rightarrow> admission_intent \<Rightarrow> json" where
  "encode_stored os intent =
     encode_owned (os_ownership os) INTENT_SCHEMA ''intent'' (encode_intent (os_format os) intent)"

text \<open>\<open>begin\<close>, in the order of its two halves: what an existing record (or none) demands ...\<close>

definition begin_check ::
  "owned_store \<Rightarrow> receipt_dir \<Rightarrow> admission_intent \<Rightarrow> stored_intent option \<Rightarrow> receipt_dir \<Rightarrow> exn + unit" where
  "begin_check os legacy intent existing d =
     (case existing of
        Some e \<Rightarrow>
          bind_result (require_owner os (si_ownership e)) (\<lambda>_.
          check_that (si_intent e = intent) ReceiptIntentConflict)
      | None \<Rightarrow>
          bind_result (deny_legacy os legacy (ai_reference intent)) (\<lambda>_.
          bind_result (read_json_path (rd_files d)
              (outcome_name (receipt_name (os_hex os) (ai_reference intent)))) (\<lambda>raw.
          check_that (raw = None) ValueError)))"

text \<open>... and the publication: the bounded index first, then the intent.\<close>

definition begin_publish ::
  "owned_store \<Rightarrow> admission_intent \<Rightarrow> stored_intent option \<Rightarrow> receipt_index \<Rightarrow> (receipt_dir, bool) prog" where
  "begin_publish os intent existing ix =
     (let name = receipt_name (os_hex os) (ai_reference intent) in
      bind_prog (trim_index (owned_kind (os_format os)) (os_policy os)
                   (AList.update name (ai_recorded_at intent) ix)) (\<lambda>ix'.
      bind_prog (lift_result (\<lambda>d. check_that (name \<in> set (map fst ix')) ValueError)) (\<lambda>_.
      bind_prog (write_index (os_format os) ix') (\<lambda>_.
      bind_prog (if existing = None then write_json name (encode_stored os intent) else return_prog ()) (\<lambda>_.
      return_prog (existing = None))))))"

definition owned_begin ::
  "owned_store \<Rightarrow> receipt_dir \<Rightarrow> stamp \<Rightarrow> admission_intent \<Rightarrow> (receipt_dir, bool) prog" where
  "owned_begin os legacy now intent = locked (
     let rk = owned_kind (os_format os) in
     bind_prog (load_index (os_hex os) (os_format os) rk) (\<lambda>loaded.
     bind_prog (expire_index rk (os_policy os) now loaded) (\<lambda>kept.
     bind_prog (lift_result (\<lambda>d. check_that
          (\<not> older (ai_recorded_at intent) (stamp_minus now (rp_retention (os_policy os)))) ValueError)) (\<lambda>_.
     bind_prog (lift_result (\<lambda>d. read_path rk (rd_files d)
          (receipt_name (os_hex os) (ai_reference intent)))) (\<lambda>existing.
     bind_prog (lift_result (begin_check os legacy intent existing)) (\<lambda>_.
     begin_publish os intent existing (fst kept)))))))"

text \<open>\<open>_read_outcome\<close>\<close>

definition read_outcome :: "owned_store \<Rightarrow> files \<Rightarrow> string \<Rightarrow> exn + invocation_outcome option" where
  "read_outcome os fs name =
     bind_result (read_json_path fs name) (\<lambda>raw.
     case raw of
       None \<Rightarrow> Inr None
     | Some v \<Rightarrow>
         bind_result (owned_record v OUTCOME_SCHEMA ''outcome'') (\<lambda>(owner, value).
         bind_result (require_owner os owner) (\<lambda>_.
         bind_result (decode_outcome (os_format os) value) (\<lambda>o'. Inr (Some o')))))"

text \<open>\<open>finalise\<close>, from the intent found: its owner, its age, its agreement with the outcome, the outcome file.\<close>

definition finalise_intent ::
  "owned_store \<Rightarrow> stamp \<Rightarrow> invocation_outcome \<Rightarrow> string \<Rightarrow> stored_intent \<Rightarrow> (receipt_dir, unit) prog" where
  "finalise_intent os now outcome name e =
     bind_prog (lift_result (\<lambda>d. require_owner os (si_ownership e))) (\<lambda>_.
     bind_prog (lift_result (\<lambda>d.
         bind_result (stamp_less (ai_recorded_at (si_intent e)) (stamp_minus now (rp_retention (os_policy os))))
           (\<lambda>expired. check_that (\<not> expired) ValueError))) (\<lambda>_.
     bind_prog (lift_result (\<lambda>d. check_owned_lookup
         \<lparr>ol_reference = rc_reference (io_receipt outcome), ol_intent = Some (si_intent e), ol_outcome = Some outcome\<rparr>)) (\<lambda>_.
     bind_prog (lift_result (\<lambda>d. read_outcome os (rd_files d) (outcome_name name))) (\<lambda>existing.
     case existing of
       Some o' \<Rightarrow> if o' \<noteq> outcome then raise_prog ValueError else return_prog ()
     | None \<Rightarrow> write_json (outcome_name name)
         (encode_owned (os_ownership os) OUTCOME_SCHEMA ''outcome'' (encode_outcome (os_format os) outcome))))))"

definition owned_finalise ::
  "owned_store \<Rightarrow> receipt_dir \<Rightarrow> stamp \<Rightarrow> invocation_outcome \<Rightarrow> (receipt_dir, unit) prog" where
  "owned_finalise os legacy now outcome = locked (
     let rk = owned_kind (os_format os); reference = rc_reference (io_receipt outcome);
         name = receipt_name (os_hex os) reference in
     bind_prog (lift_result (\<lambda>d. read_path rk (rd_files d) name)) (\<lambda>found.
     case found of
       None \<Rightarrow> bind_prog (lift_result (\<lambda>d. deny_legacy os legacy reference)) (\<lambda>_. raise_prog ValueError)
     | Some e \<Rightarrow> finalise_intent os now outcome name e))"

text \<open>\<open>read\<close>: the intent is read from one state of the directory, the outcome from a later one.\<close>

definition owned_read ::
  "owned_store \<Rightarrow> receipt_dir \<Rightarrow> stamp \<Rightarrow> string \<Rightarrow> receipt_dir \<Rightarrow> receipt_dir \<Rightarrow> exn + owned_lookup" where
  "owned_read os legacy now reference d d' =
     (let empty = \<lparr>ol_reference = reference, ol_intent = None, ol_outcome = None\<rparr>;
          name = receipt_name (os_hex os) reference in
      if \<not> rd_exists d
      then bind_result (deny_legacy os legacy reference) (\<lambda>_. check_owned_lookup empty)
      else bind_result (read_path (owned_kind (os_format os)) (rd_files d) name) (\<lambda>stored.
           case stored of
             None \<Rightarrow> bind_result (deny_legacy os legacy reference) (\<lambda>_. check_owned_lookup empty)
           | Some e \<Rightarrow>
               bind_result (require_owner os (si_ownership e)) (\<lambda>_.
               bind_result (check_that (aware now) ValueError) (\<lambda>_.
               if older (ai_recorded_at (si_intent e)) (stamp_minus now (rp_retention (os_policy os)))
               then check_owned_lookup empty
               else bind_result (read_outcome os (rd_files d') (outcome_name name)) (\<lambda>outcome.
                    check_owned_lookup \<lparr>ol_reference = reference, ol_intent = Some (si_intent e),
                                        ol_outcome = outcome\<rparr>)))))"

definition owned_cleanup :: "owned_store \<Rightarrow> stamp \<Rightarrow> (receipt_dir, int) prog" where
  "owned_cleanup os now =
     file_cleanup (os_hex os) (os_format os) (owned_kind (os_format os)) (os_policy os) now"

end
