(* ===== verification/Ledger_Safety.thy ===== *)
theory Ledger_Safety
  imports Receipt_Ledger
begin

text \<open>
  What the owned ledger guarantees: every state a crash can leave behind is indexed, an invocation
  is claimed at most once, the ledger stays within its bound, and outcomes do not change.
\<close>

section \<open>Every crash state is indexed\<close>

definition json_names :: "files \<Rightarrow> string set" where
  "json_names fs = {n \<in> fst ` set fs. ends_with ''.json'' n}"

text \<open>
  The index lists every record, or is missing or unreadable, in which case the next operation
  rebuilds it from the records.
\<close>

definition indexed :: "time_format \<Rightarrow> files \<Rightarrow> bool" where
  "indexed tf fs =
     (case map_of fs INDEX_NAME of
        Some (JsonFile v) \<Rightarrow>
          (case decode_index tf v of Inr ix \<Rightarrow> json_names fs \<subseteq> fst ` set ix | Inl _ \<Rightarrow> True)
      | _ \<Rightarrow> True)"

definition crash_safe :: "time_format \<Rightarrow> receipt_dir \<Rightarrow> bool" where
  "crash_safe tf d = (\<forall>fs\<in>set (rd_past d @ [rd_files d]). indexed tf fs)"

text \<open>From \<open>A\<close>, the program passes only through indexed states, and ends in \<open>B\<close> if it returns.\<close>

definition safe ::
  "time_format \<Rightarrow> (receipt_dir \<Rightarrow> bool) \<Rightarrow> (receipt_dir, 'a) prog \<Rightarrow> ('a \<Rightarrow> receipt_dir \<Rightarrow> bool) \<Rightarrow> bool" where
  "safe tf A m B = (\<forall>d r d'. crash_safe tf d \<longrightarrow> A d \<longrightarrow> m d = (r, d') \<longrightarrow>
     crash_safe tf d' \<and> (\<forall>x. r = Inr x \<longrightarrow> B x d'))"

lemma safeD: "safe tf A m B \<Longrightarrow> crash_safe tf d \<Longrightarrow> A d \<Longrightarrow> m d = (r, d') \<Longrightarrow> crash_safe tf d'"
  "safe tf A m B \<Longrightarrow> crash_safe tf d \<Longrightarrow> A d \<Longrightarrow> m d = (Inr x, d') \<Longrightarrow> B x d'"
  by (auto simp: safe_def)

lemma safe_bind:
  assumes "safe tf A m B" "\<And>x. safe tf (B x) (f x) C"
  shows "safe tf A (bind_prog m f) C"
  unfolding safe_def
proof (intro allI impI)
  fix d r d' assume d: "crash_safe tf d" "A d" and run: "bind_prog m f d = (r, d')"
  from run show "crash_safe tf d' \<and> (\<forall>x. r = Inr x \<longrightarrow> C x d')"
  proof (cases rule: bind_prog_cases)
    case (1 e)
    with safeD(1)[OF assms(1) d] show ?thesis by auto
  next
    case (2 x d1)
    with safeD(1)[OF assms(1) d] safeD(2)[OF assms(1) d] assms(2)[of x] show ?thesis
      by (auto simp: safe_def)
  qed
qed

lemma safe_weaken: "safe tf A' m B' \<Longrightarrow> (\<And>d. A d \<Longrightarrow> A' d) \<Longrightarrow> (\<And>x d. B' x d \<Longrightarrow> B x d) \<Longrightarrow> safe tf A m B"
  by (auto simp: safe_def)

lemma safe_pure:
  "safe tf A (return_prog y) (\<lambda>x d. A d \<and> x = y)" "safe tf A (raise_prog e) B"
  "safe tf A (lift_result g) (\<lambda>x d. A d \<and> g d = Inr x)"
  by (auto simp: safe_def)

lemma safe_if:
  "(P \<Longrightarrow> safe tf A m B) \<Longrightarrow> (\<not> P \<Longrightarrow> safe tf A n B) \<Longrightarrow> safe tf A (if P then m else n) B"
  by simp

lemma safe_pre: "(\<And>d. A d \<Longrightarrow> P) \<Longrightarrow> (P \<Longrightarrow> safe tf A m B) \<Longrightarrow> safe tf A m B"
  by (auto simp: safe_def)

text \<open>Names: a receipt is no outcome and no index.\<close>

lemma ends_with_iff: "ends_with suffix s \<longleftrightarrow> (\<exists>p. s = p @ suffix)"
proof
  assume "ends_with suffix s"
  then obtain r where "rev s = rev suffix @ r" by (auto simp: ends_with_def starts_with_iff)
  then have "s = rev r @ suffix" by (metis rev_append rev_rev_ident)
  then show "\<exists>p. s = p @ suffix" by blast
next
  assume "\<exists>p. s = p @ suffix"
  then show "ends_with suffix s" by (auto simp: ends_with_def)
qed

lemma receipt_name_json [simp]: "ends_with ''.json'' (receipt_name hx r)"
  by (auto simp: receipt_name_def ends_with_iff)

lemma outcome_name_not_json [simp]: "\<not> ends_with ''.json'' (outcome_name n)"
  by (auto simp: outcome_name_def ends_with_def)

lemma index_not_json [simp]: "\<not> ends_with ''.json'' INDEX_NAME"
  by (simp add: INDEX_NAME_def ends_with_def)

lemma receipt_name_other [simp]:
  "receipt_name hx r \<noteq> INDEX_NAME" "INDEX_NAME \<noteq> receipt_name hx r" "receipt_name hx r \<noteq> outcome_name n" "outcome_name n \<noteq> receipt_name hx r"
  by (metis receipt_name_json index_not_json outcome_name_not_json)+

lemma outcome_name_not_index [simp]: "outcome_name n \<noteq> INDEX_NAME" "INDEX_NAME \<noteq> outcome_name n"
proof -
  have "last (outcome_name n) = CHR ''e''" "last INDEX_NAME = CHR ''x''"
    by (simp_all add: outcome_name_def INDEX_NAME_def)
  then show "outcome_name n \<noteq> INDEX_NAME" "INDEX_NAME \<noteq> outcome_name n" by auto
qed

lemma keys_update: "fst ` set (AList.update n v fs) = insert n (fst ` set fs)"
  by (induction fs) auto

lemma keys_delete: "fst ` set (AList.delete n fs) = fst ` set fs - {n}"
  by (induction fs) (auto simp: AList.delete_eq)

lemma json_names_update [simp]:
  "json_names (AList.update n v fs) = (if ends_with ''.json'' n then insert n (json_names fs) else json_names fs)"
  by (auto simp: json_names_def keys_update)

lemma json_names_delete [simp]: "json_names (AList.delete n fs) = json_names fs - {n}"
  by (auto simp: json_names_def keys_delete)

text \<open>Deleting a file leaves the directory indexed.\<close>

lemma indexed_delete: "indexed tf fs \<Longrightarrow> indexed tf (AList.delete n fs)"
  by (cases "n = INDEX_NAME")
    (auto simp: indexed_def delete_conv' split: option.splits node.splits sum.splits)

lemma collect_keys:
  "collect_results (map (decode_entry tf) es) = Inr ix \<Longrightarrow> map fst ix = map fst es"
proof (induction es arbitrary: ix)
  case (Cons e es)
  then obtain p ps where p: "decode_entry tf e = Inr p" and ps: "collect_results (map (decode_entry tf) es) = Inr ps"
    and ix: "ix = p # ps"
    by (auto simp: bind_result_Inr)
  from p have "fst p = fst e" by (auto simp: decode_entry_def bind_result_Inr split: json.splits if_splits)
  with Cons.IH[OF ps] ix show ?case by simp
qed simp

lemma decode_encode_index_keys:
  assumes "decode_index tf (encode_index tf ix) = Inr ix'"
  shows "map fst ix' = map fst (sort_key fst ix)"
proof -
  let ?es = "map (\<lambda>(n, t). (n, JStr (tf_iso tf t))) (sort_key fst ix)"
  have "collect_results (map (decode_entry tf) ?es) = Inr ix'"
    using assms by (simp add: decode_index_def encode_index_def object_with_def bind_result_Inr)
  from collect_keys[OF this] show ?thesis by (simp add: comp_def split_def)
qed

lemma indexed_write_index:
  "json_names fs \<subseteq> fst ` set ix \<Longrightarrow> indexed tf (AList.update INDEX_NAME (JsonFile (encode_index tf ix)) fs)"
proof -
  assume "json_names fs \<subseteq> fst ` set ix"
  moreover have "fst ` set ix' = fst ` set ix" if "decode_index tf (encode_index tf ix) = Inr ix'" for ix'
  proof -
    from decode_encode_index_keys[OF that] have "set (map fst ix') = set (map fst (sort_key fst ix))" by simp
    then show ?thesis by simp
  qed
  ultimately show ?thesis by (auto simp: indexed_def update_conv' split: sum.splits)
qed

text \<open>The elementary writes.\<close>

lemma crash_safe_change:
  "crash_safe tf d \<Longrightarrow> indexed tf (f (rd_files d)) \<Longrightarrow>
   crash_safe tf (d\<lparr>rd_files := f (rd_files d), rd_past := rd_past d @ [rd_files d]\<rparr>)"
  by (auto simp: crash_safe_def)

lemma safe_unlink:
  "safe tf (\<lambda>d. json_names (rd_files d) \<subseteq> K) (unlink n) (\<lambda>_ d. json_names (rd_files d) \<subseteq> K - {n})"
proof -
  have absent: "json_names fs \<subseteq> K - {n}" if "map_of fs n = None" "json_names fs \<subseteq> K" for fs :: files
    using that by (auto simp: json_names_def map_of_eq_None_iff)
  have "indexed tf (rd_files d)" if "crash_safe tf d" for d using that by (simp add: crash_safe_def)
  then show ?thesis
    by (auto simp: safe_def unlink_def change_files_def absent split: option.splits node.splits
        intro!: crash_safe_change[where f = "AList.delete n"] indexed_delete)
qed

lemma safe_unlink_any:
  "safe tf (\<lambda>d. json_names (rd_files d) \<subseteq> K) (unlink n) (\<lambda>_ d. json_names (rd_files d) \<subseteq> K)"
  by (rule safe_weaken[OF safe_unlink]) auto

lemma safe_remove:
  "safe tf (\<lambda>d. json_names (rd_files d) \<subseteq> K) (remove_record rk n) (\<lambda>_ d. json_names (rd_files d) \<subseteq> K - {n})"
  unfolding remove_record_def
proof (rule safe_bind)
  show "safe tf (\<lambda>d. json_names (rd_files d) \<subseteq> K) (if rk_paired rk then unlink (outcome_name n) else return_prog ())
      (\<lambda>_ d. json_names (rd_files d) \<subseteq> K)"
    by (rule safe_if, rule safe_unlink_any) (rule safe_weaken[OF safe_pure(1)], auto)
qed (rule safe_unlink)

lemma safe_write_index:
  assumes "\<And>d. A d \<Longrightarrow> json_names (rd_files d) \<subseteq> fst ` set ix"
  shows "safe tf A (write_index tf ix) (\<lambda>_ d. json_names (rd_files d) \<subseteq> fst ` set ix
     \<and> map_of (rd_files d) INDEX_NAME = Some (JsonFile (encode_index tf ix)))"
  using assms
  by (auto simp: safe_def write_index_def write_json_def change_files_def update_conv'
      intro!: crash_safe_change[where f = "AList.update INDEX_NAME (JsonFile (encode_index tf ix))"]
        indexed_write_index)

text \<open>The loops.\<close>

lemma safe_expire_entries:
  "safe tf (\<lambda>d. json_names (rd_files d) \<subseteq> K \<union> fst ` set ix) (expire_entries rk cutoff ix)
     (\<lambda>(kept, k) d. json_names (rd_files d) \<subseteq> K \<union> fst ` set kept)"
proof (induction ix arbitrary: K)
  case Nil
  then show ?case by (auto simp: safe_def)
next
  case (Cons e ix)
  obtain n t where e: "e = (n, t)" by (cases e)
  show ?case
  proof (cases "older t cutoff")
    case True
    have "safe tf (\<lambda>d. json_names (rd_files d) \<subseteq> K \<union> fst ` set (e # ix)) (remove_record rk n)
        (\<lambda>_ d. json_names (rd_files d) \<subseteq> K \<union> fst ` set ix)"
      by (rule safe_weaken[OF safe_remove[of tf "K \<union> fst ` set (e # ix)"]]) (auto simp: e)
    then show ?thesis
      unfolding e using True
      by (simp) (erule safe_bind, rule safe_bind[OF Cons.IH], auto simp: safe_def)
  next
    case False
    have "safe tf (\<lambda>d. json_names (rd_files d) \<subseteq> K \<union> fst ` set (e # ix)) (expire_entries rk cutoff ix)
        (\<lambda>(kept, k) d. json_names (rd_files d) \<subseteq> insert n K \<union> fst ` set kept)"
      by (rule safe_weaken[OF Cons.IH[of "insert n K"]]) (auto simp: e)
    then show ?thesis
      unfolding e using False
      by (simp) (erule safe_bind, auto simp: safe_def)
  qed
qed

lemma safe_remove_records:
  "safe tf (\<lambda>d. json_names (rd_files d) \<subseteq> K) (remove_records rk ns) (\<lambda>_ d. json_names (rd_files d) \<subseteq> K - set ns)"
proof (induction ns arbitrary: K)
  case (Cons n ns)
  show ?case
    unfolding remove_records.simps
    by (rule safe_bind[OF safe_remove]) (rule safe_weaken[OF Cons.IH[of "K - {n}"]], auto)
qed (auto simp: safe_def)

lemma keys_filter: "fst ` {x \<in> set ix. case x of (n, t) \<Rightarrow> n \<notin> V} = fst ` set ix - V"
  by force

lemma safe_trim:
  "safe tf (\<lambda>d. json_names (rd_files d) \<subseteq> fst ` set ix) (trim_index rk pol ix)
     (\<lambda>ix' d. json_names (rd_files d) \<subseteq> fst ` set ix' \<and> ix' = filter (\<lambda>(n, t). n \<notin> set (trim_victims pol ix)) ix)"
  unfolding trim_index_def
  by (rule safe_bind[OF safe_remove_records]) (auto simp: safe_def keys_filter)

lemma read_records_keys:
  "read_records hx rk fs ns = Inr rs \<Longrightarrow> set ns \<subseteq> fst ` set fs \<Longrightarrow> map fst rs = ns"
proof (induction ns arbitrary: rs)
  case (Cons n ns)
  from Cons.prems(2) have "map_of fs n \<noteq> None" by (auto simp: map_of_eq_None_iff)
  then have "read_path rk fs n \<noteq> Inr None"
    by (auto simp: read_path_def read_json_path_def bind_result_Inr split: option.splits node.splits json.splits)
  with Cons show ?case
    by (auto simp: bind_result_Inr split: option.splits if_splits)
qed simp

lemma records_locked_keys:
  assumes "records_locked hx rk fs = Inr rs"
  shows "map fst rs = sort (filter (ends_with ''.json'') (map fst fs))" "fst ` set rs = json_names fs"
proof -
  show keys: "map fst rs = sort (filter (ends_with ''.json'') (map fst fs))"
    using assms unfolding records_locked_def by (rule read_records_keys) auto
  then have "set (map fst rs) = set (sort (filter (ends_with ''.json'') (map fst fs)))" by simp
  then show "fst ` set rs = json_names fs" by (auto simp: json_names_def)
qed

lemma safe_rebuild:
  "safe tf (\<lambda>d. True) (rebuild_index hx tf rk) (\<lambda>ix d. json_names (rd_files d) \<subseteq> fst ` set ix)"
  unfolding rebuild_index_def Let_def
proof (rule safe_bind[OF safe_pure(3)])
  fix rs :: "(string \<times> 'a) list"
  let ?ix = "map (\<lambda>(n, r). (n, rk_recorded_at rk r)) rs"
  have keys: "fst ` set ?ix = fst ` set rs" by force
  show "safe tf (\<lambda>d. True \<and> records_locked hx rk (rd_files d) = Inr rs)
      (bind_prog (write_index tf ?ix) (\<lambda>_. return_prog ?ix)) (\<lambda>ix d. json_names (rd_files d) \<subseteq> fst ` set ix)"
  proof (rule safe_bind[OF safe_write_index])
    show "json_names (rd_files d) \<subseteq> fst ` set ?ix" if "True \<and> records_locked hx rk (rd_files d) = Inr rs" for d
      using that unfolding keys by (simp add: records_locked_keys(2))
  qed (auto simp: safe_def)
qed

lemma safe_load:
  "safe tf (\<lambda>d. True) (load_index hx tf rk) (\<lambda>ix d. json_names (rd_files d) \<subseteq> fst ` set ix)"
  unfolding safe_def
proof (intro allI impI)
  fix d r d' assume d: "crash_safe tf d" and run: "load_index hx tf rk d = (r, d')"
  note rebuild = safeD[OF safe_rebuild d, of hx rk]
  from d have ind: "indexed tf (rd_files d)" by (simp add: crash_safe_def)
  show "crash_safe tf d' \<and> (\<forall>ix. r = Inr ix \<longrightarrow> json_names (rd_files d') \<subseteq> fst ` set ix)"
    using run d ind rebuild
    by (auto simp: load_index_def indexed_def split: option.splits node.splits sum.splits if_splits)
qed

lemma safe_expire:
  "safe tf (\<lambda>d. json_names (rd_files d) \<subseteq> fst ` set ix) (expire_index rk pol now ix)
     (\<lambda>(kept, k) d. json_names (rd_files d) \<subseteq> fst ` set kept)"
  unfolding expire_index_def
  using safe_expire_entries[of tf "{}" ix rk]
  by (auto intro: safe_if safe_pure)

lemma indexed_write_record:
  assumes "json_names fs \<subseteq> fst ` set ix" "receipt_name hx r \<in> fst ` set ix"
    and "map_of fs INDEX_NAME = Some (JsonFile (encode_index tf ix))"
  shows "indexed tf (AList.update (receipt_name hx r) v fs)"
proof -
  have "fst ` set ix' = fst ` set ix" if "decode_index tf (encode_index tf ix) = Inr ix'" for ix'
  proof -
    from decode_encode_index_keys[OF that] have "set (map fst ix') = set (map fst (sort_key fst ix))" by simp
    then show ?thesis by simp
  qed
  with assms show ?thesis by (simp add: indexed_def update_conv' split: sum.splits)
qed

lemma safe_write_record:
  "safe tf (\<lambda>d. json_names (rd_files d) \<subseteq> fst ` set ix \<and> receipt_name hx r \<in> fst ` set ix
       \<and> map_of (rd_files d) INDEX_NAME = Some (JsonFile (encode_index tf ix)))
     (write_json (receipt_name hx r) v) (\<lambda>_ d. json_names (rd_files d) \<subseteq> fst ` set ix)"
  by (auto simp: safe_def write_json_def change_files_def
      intro!: crash_safe_change[where f = "AList.update (receipt_name hx r) (JsonFile v)"]
      intro: indexed_write_record)

text \<open>The whole of \<open>begin\<close>.\<close>

lemma safe_locked:
  assumes "safe tf A m B" "\<And>d. A d \<Longrightarrow> A (d\<lparr>rd_exists := True\<rparr>)"
  shows "safe tf A (locked m) B"
  unfolding safe_def locked_def
proof (intro allI impI)
  fix d r d' assume "crash_safe tf d" "A d" "m (d\<lparr>rd_exists := True\<rparr>) = (r, d')"
  moreover from this have "crash_safe tf (d\<lparr>rd_exists := True\<rparr>)" by (simp add: crash_safe_def)
  ultimately show "crash_safe tf d' \<and> (\<forall>x. r = Inr x \<longrightarrow> B x d')"
    using assms by (auto simp: safe_def)
qed

lemma safe_check: "safe tf A (lift_result g) (\<lambda>_. A)"
  by (auto simp: safe_def)

lemma safe_check_that: "safe tf A (lift_result (\<lambda>d. check_that P e)) (\<lambda>_ d. A d \<and> P)"
  by (auto simp: safe_def)

text \<open>The index that \<open>begin\<close> publishes.\<close>

definition trimmed_index :: "owned_store \<Rightarrow> admission_intent \<Rightarrow> receipt_index \<Rightarrow> receipt_index" where
  "trimmed_index os intent ix =
     (let ix' = AList.update (receipt_name (os_hex os) (ai_reference intent)) (ai_recorded_at intent) ix
      in filter (\<lambda>(n, t). n \<notin> set (trim_victims (os_policy os) ix')) ix')"

lemma safe_publish:
  "safe (os_format os) (\<lambda>d. json_names (rd_files d) \<subseteq> fst ` set ix) (begin_publish os intent existing ix)
     (\<lambda>_ d. json_names (rd_files d) \<subseteq> fst ` set (trimmed_index os intent ix))"
proof -
  let ?tf = "os_format os"
  let ?J = "\<lambda>(ix :: receipt_index) d. json_names (rd_files d) \<subseteq> fst ` set ix"
  let ?name = "receipt_name (os_hex os) (ai_reference intent)"
  have final: "safe ?tf (\<lambda>d. ?J ix d \<and> ?name \<in> set (map fst ix))
     (bind_prog (write_index ?tf ix) (\<lambda>_.
      bind_prog (if b then write_json ?name v else return_prog ()) (\<lambda>_. return_prog b))) (\<lambda>_. ?J ix)" for ix b v
  proof (rule safe_pre)
    assume "?name \<in> set (map fst ix)"
    then show ?thesis
      by (intro safe_bind[OF safe_write_index] safe_bind[where B = "\<lambda>_. ?J ix"] safe_if)
        (auto intro: safe_weaken[OF safe_write_record] simp: safe_def[of _ _ "return_prog _"])
  qed simp
  let ?ix = "AList.update ?name (ai_recorded_at intent) ix" and ?ix' = "trimmed_index os intent ix"
  have trim: "safe ?tf (?J ix) (trim_index (owned_kind ?tf) (os_policy os) ?ix) (\<lambda>x d. ?J ?ix' d \<and> x = ?ix')"
    by (rule safe_weaken[OF safe_trim]) (auto simp: keys_update trimmed_index_def Let_def)
  have publish: "safe ?tf (\<lambda>d. ?J ?ix' d \<and> x = ?ix')
     (bind_prog (lift_result (\<lambda>d. check_that (?name \<in> set (map fst x)) ValueError)) (\<lambda>_.
      bind_prog (write_index ?tf x) (\<lambda>_.
      bind_prog (if existing = None then write_json ?name (encode_stored os intent) else return_prog ()) (\<lambda>_.
      return_prog (existing = None))))) (\<lambda>_. ?J ?ix')" for x
    by (rule safe_pre[where P = "x = ?ix'"], simp)
      (simp only:, rule safe_bind[OF safe_check_that], rule safe_weaken[OF final], auto)
  show ?thesis
    unfolding begin_publish_def Let_def by (rule safe_bind[OF trim publish])
qed

lemma safe_begin: "safe (os_format os) (\<lambda>d. True) (owned_begin os legacy now intent) (\<lambda>_ d. True)"
  unfolding owned_begin_def Let_def
proof (rule safe_locked, rule safe_bind[OF safe_load], rule safe_bind[OF safe_expire])
  fix p :: "receipt_index \<times> int"
  show "safe (os_format os) ((\<lambda>(kept, k) d. json_names (rd_files d) \<subseteq> fst ` set kept) p)
      (bind_prog (lift_result (\<lambda>d. check_that
          (\<not> older (ai_recorded_at intent) (stamp_minus now (rp_retention (os_policy os)))) ValueError)) (\<lambda>_.
       bind_prog (lift_result (\<lambda>d. read_path (owned_kind (os_format os)) (rd_files d)
          (receipt_name (os_hex os) (ai_reference intent)))) (\<lambda>existing.
       bind_prog (lift_result (begin_check os legacy intent existing)) (\<lambda>_.
       begin_publish os intent existing (fst p))))) (\<lambda>_ d. True)"
    by (intro safe_bind[OF safe_check] safe_weaken[OF safe_publish]) (auto split: prod.splits)
qed simp

text \<open>Finalising writes no receipt; cleaning up removes them before it writes the index.\<close>

lemma safe_write_outcome: "safe tf (\<lambda>d. True) (write_json (outcome_name n) v) (\<lambda>_ d. True)"
proof -
  have "indexed tf (AList.update (outcome_name n) (JsonFile v) fs)" if "indexed tf fs" for fs
    using that by (auto simp: indexed_def update_conv' split: option.splits node.splits sum.splits)
  then show ?thesis
    by (auto simp: safe_def write_json_def change_files_def crash_safe_def
        intro!: crash_safe_change[where f = "AList.update (outcome_name n) (JsonFile v)"])
qed

lemma safe_option:
  "safe tf A n B \<Longrightarrow> (\<And>x. safe tf A (f x) B) \<Longrightarrow> safe tf A (case v of None \<Rightarrow> n | Some x \<Rightarrow> f x) B"
  by (cases v) auto

lemma safe_true: "safe tf (\<lambda>d. True) (raise_prog e) (\<lambda>_ d. True)" "safe tf (\<lambda>d. True) (return_prog y) (\<lambda>_ d. True)"
  by (auto simp: safe_def)

lemma safe_finalise: "safe (os_format os) (\<lambda>d. True) (owned_finalise os legacy now outcome) (\<lambda>_ d. True)"
  unfolding owned_finalise_def finalise_intent_def Let_def
  by (rule safe_locked, rule safe_bind[OF safe_check], rule safe_option)
    (auto intro!: safe_bind[OF safe_check] safe_option safe_if safe_true safe_write_outcome
      simp del: lift_result_eq)

lemma safe_expire_records:
  "safe tf (\<lambda>d. json_names (rd_files d) \<subseteq> K \<union> fst ` set rs) (expire_records rk cutoff rs)
     (\<lambda>(kept, k) d. json_names (rd_files d) \<subseteq> K \<union> fst ` set kept)"
proof (induction rs arbitrary: K)
  case Nil
  then show ?case by (auto simp: safe_def)
next
  case (Cons e rs)
  obtain n r where e: "e = (n, r)" by (cases e)
  show ?case
  proof (cases "older (rk_recorded_at rk r) cutoff")
    case True
    have "safe tf (\<lambda>d. json_names (rd_files d) \<subseteq> K \<union> fst ` set (e # rs)) (remove_record rk n)
        (\<lambda>_ d. json_names (rd_files d) \<subseteq> K \<union> fst ` set rs)"
      by (rule safe_weaken[OF safe_remove[of tf "K \<union> fst ` set (e # rs)"]]) (auto simp: e)
    then show ?thesis
      unfolding e using True
      by (simp) (erule safe_bind, rule safe_bind[OF Cons.IH], auto simp: safe_def)
  next
    case False
    have "safe tf (\<lambda>d. json_names (rd_files d) \<subseteq> K \<union> fst ` set (e # rs)) (expire_records rk cutoff rs)
        (\<lambda>(kept, k) d. json_names (rd_files d) \<subseteq> insert n K \<union> fst ` set kept)"
      by (rule safe_weaken[OF Cons.IH[of "insert n K"]]) (auto simp: e)
    then show ?thesis
      unfolding e using False
      by (simp) (erule safe_bind, auto simp: safe_def)
  qed
qed

lemma safe_cleanup: "safe tf (\<lambda>d. True) (file_cleanup hx tf rk pol now) (\<lambda>_ d. True)"
  unfolding file_cleanup_def
proof (rule safe_locked, rule safe_bind[OF safe_pure(3)])
  fix rs :: "(string \<times> 'a) list"
  let ?kept = "\<lambda>kept. map (\<lambda>(n, r). (n, rk_recorded_at rk r)) kept"
  have keys: "fst ` (\<lambda>x. case x of (n, r) \<Rightarrow> (n, rk_recorded_at rk r)) ` set kept = fst ` set kept"
    for kept :: "(string \<times> 'a) list" by force
  have "safe tf (\<lambda>d. json_names (rd_files d) \<subseteq> fst ` set rs)
     (if \<not> aware now then raise_prog ValueError
      else expire_records rk (stamp_minus now (rp_retention pol)) rs)
     (\<lambda>(kept, k) d. json_names (rd_files d) \<subseteq> fst ` set kept)"
    using safe_expire_records[of tf "{}" rs rk] by (auto intro: safe_if safe_pure)
  then have expire: "safe tf (\<lambda>d. True \<and> records_locked hx rk (rd_files d) = Inr rs)
     (if \<not> aware now then raise_prog ValueError
      else expire_records rk (stamp_minus now (rp_retention pol)) rs)
     (\<lambda>(kept, k) d. json_names (rd_files d) \<subseteq> fst ` set kept)"
    by (rule safe_weaken) (auto simp: records_locked_keys(2))
  show "safe tf (\<lambda>d. True \<and> records_locked hx rk (rd_files d) = Inr rs)
     (bind_prog (if \<not> aware now then raise_prog ValueError
                 else expire_records rk (stamp_minus now (rp_retention pol)) rs) (\<lambda>(kept, expired).
      bind_prog (write_index tf (?kept kept)) (\<lambda>_. return_prog expired))) (\<lambda>_ d. True)"
    by (rule safe_bind[OF expire]) (auto split: prod.splits simp: keys safe_def[of _ _ "return_prog _"]
        intro!: safe_bind[OF safe_write_index])
qed simp

section \<open>An invocation is claimed once\<close>

text \<open>What the run of a successful bind looks like, for the state-changing steps of the ledger.\<close>

lemma run_lift: "lift_result g d = (Inr x, d') \<longleftrightarrow> g d = Inr x \<and> d' = d"
  by auto

lemma write_json_Inr:
  "write_json n v d = (Inr u, d') \<longleftrightarrow> map_of (rd_files d) n \<noteq> Some DirNode
     \<and> d' = d\<lparr>rd_files := AList.update n (JsonFile v) (rd_files d), rd_past := rd_past d @ [rd_files d]\<rparr>"
  by (auto simp: write_json_def change_files_def)

lemma unlink_other: "unlink n d = (r, d') \<Longrightarrow> m \<noteq> n \<Longrightarrow> map_of (rd_files d') m = map_of (rd_files d) m"
  by (auto simp: unlink_def change_files_def delete_conv' split: option.splits node.splits)

lemma remove_other:
  assumes "remove_record rk n d = (r, d')" "m \<noteq> n" "m \<noteq> outcome_name n"
  shows "map_of (rd_files d') m = map_of (rd_files d) m"
  using assms(1) unfolding remove_record_def
proof (cases rule: bind_prog_cases)
  case (1 e)
  then show ?thesis using assms(2,3) unlink_other by (auto split: if_splits)
next
  case (2 x d1)
  from 2(1) have "map_of (rd_files d1) m = map_of (rd_files d) m"
    using assms(3) unlink_other by (auto split: if_splits)
  moreover have "map_of (rd_files d') m = map_of (rd_files d1) m"
    using 2(2) assms(2) by (rule unlink_other)
  ultimately show ?thesis by simp
qed

lemma expire_entries_run:
  assumes "expire_entries rk cutoff ix d = (Inr (kept, k), d')"
  shows "set kept \<subseteq> set ix \<and> (distinct (map fst ix) \<longrightarrow> distinct (map fst kept))
     \<and> ((\<forall>t. (receipt_name hx r, t) \<in> set ix \<longrightarrow> \<not> older t cutoff) \<longrightarrow>
          map_of (rd_files d') (receipt_name hx r) = map_of (rd_files d) (receipt_name hx r))"
  using assms
proof (induction ix arbitrary: d kept k)
  case (Cons e ix)
  obtain n t where e: "e = (n, t)" by (cases e)
  show ?case
  proof (cases "older t cutoff")
    case True
    with Cons.prems e obtain u d1 k' where rm: "remove_record rk n d = (Inr u, d1)"
      and rest: "expire_entries rk cutoff ix d1 = (Inr (kept, k'), d')"
      by (auto simp: bind_prog_Inr)
    from Cons.IH[OF rest] remove_other[OF rm, of "receipt_name hx r"] True e show ?thesis by auto
  next
    case False
    with Cons.prems e obtain kept' k' where rest: "expire_entries rk cutoff ix d = (Inr (kept', k'), d')"
      and kept: "kept = (n, t) # kept'"
      by (auto simp: bind_prog_Inr)
    from Cons.IH[OF rest] kept e show ?thesis by (auto simp: image_iff)
  qed
qed auto

lemma expire_index_run:
  assumes "expire_index rk pol now ix d = (Inr kept, d')"
  shows "set (fst kept) \<subseteq> set ix" "distinct (map fst ix) \<Longrightarrow> distinct (map fst (fst kept))"
    "(\<And>t. (receipt_name hx r, t) \<in> set ix \<Longrightarrow> \<not> older t (stamp_minus now (rp_retention pol))) \<Longrightarrow>
       map_of (rd_files d') (receipt_name hx r) = map_of (rd_files d) (receipt_name hx r)"
  using assms expire_entries_run[of rk "stamp_minus now (rp_retention pol)" ix d "fst kept" "snd kept" d' hx r]
  by (auto simp: expire_index_def split: if_splits)

lemma collect_entries:
  assumes "collect_results (map (decode_entry tf) (map (\<lambda>(n, t). (n, JStr (tf_iso tf t))) es)) = Inr ix"
    and "faithful_format tf"
  shows "ix = es"
  using assms(1)
proof (induction es arbitrary: ix)
  case (Cons e es)
  then show ?case
    by (cases e) (auto simp: bind_result_Inr decode_entry_def faithful_formatD[OF assms(2)] split: if_splits)
qed simp

lemma decode_encode_index:
  assumes "decode_index tf (encode_index tf ix) = Inr ix'" "faithful_format tf"
  shows "set ix' = set ix"
proof -
  have "ix' = sort_key fst ix"
    using assms collect_entries[OF _ assms(2), of "sort_key fst ix" ix']
    by (simp add: decode_index_def encode_index_def object_with_def bind_result_Inr)
  then show ?thesis by simp
qed

text \<open>
  The claim of an invocation: its intent is on disk under its owner, and the index, when it can be
  read, lists it at its own time only.
\<close>

definition claimed :: "owned_store \<Rightarrow> admission_intent \<Rightarrow> receipt_dir \<Rightarrow> bool" where
  "claimed os intent d =
     (let name = receipt_name (os_hex os) (ai_reference intent) in
      map_of (rd_files d) name = Some (JsonFile (encode_stored os intent))
      \<and> (\<exists>ix. map_of (rd_files d) INDEX_NAME = Some (JsonFile (encode_index (os_format os) ix))
           \<and> (\<forall>t. (name, t) \<in> set ix \<longrightarrow> t = ai_recorded_at intent)))"

definition plain_dir :: "receipt_dir \<Rightarrow> bool" where
  "plain_dir d = (distinct (map fst (rd_files d))
     \<and> (\<forall>v. JsonFile v \<in> snd ` set (rd_files d) \<longrightarrow> distinct_keys v))"

lemma read_records_own:
  "read_records hx rk fs ns = Inr rs \<Longrightarrow> (n, x) \<in> set rs \<Longrightarrow> read_path rk fs n = Inr (Some x)"
proof (induction ns arbitrary: rs)
  case (Cons m ns)
  from Cons.prems(1) obtain found where found: "read_path rk fs m = Inr found"
    and rest: "(case found of None \<Rightarrow> read_records hx rk fs ns
      | Some y \<Rightarrow> if m \<noteq> receipt_name hx (rk_reference rk y) then Inl ValueError
          else bind_result (read_records hx rk fs ns) (\<lambda>rs. Inr ((m, y) # rs))) = Inr rs"
    unfolding read_records.simps bind_result_Inr by blast
  show ?case
  proof (cases found)
    case None
    with rest Cons show ?thesis by simp
  next
    case (Some y)
    with rest obtain rs' where "read_records hx rk fs ns = Inr rs'" "rs = (m, y) # rs'"
      by (auto simp: bind_result_Inr split: if_splits)
    with Cons Some found show ?thesis by auto
  qed
qed simp

lemma rebuild_run:
  assumes "rebuild_index hx tf rk d = (Inr ix, d')"
  shows "map_of (rd_files d') (receipt_name hx' r) = map_of (rd_files d) (receipt_name hx' r)"
    "(n, t) \<in> set ix \<Longrightarrow> \<exists>x. read_path rk (rd_files d) n = Inr (Some x) \<and> t = rk_recorded_at rk x"
    "distinct (map fst (rd_files d)) \<Longrightarrow> distinct (map fst ix)"
proof -
  from assms obtain rs where rs: "records_locked hx rk (rd_files d) = Inr rs"
    and ix: "ix = map (\<lambda>(n, r). (n, rk_recorded_at rk r)) rs"
    and d': "rd_files d' = AList.update INDEX_NAME (JsonFile (encode_index tf ix)) (rd_files d)"
    unfolding rebuild_index_def Let_def
    by (auto simp: bind_prog_Inr run_lift write_index_def write_json_Inr simp del: lift_result_eq)
  show "map_of (rd_files d') (receipt_name hx' r) = map_of (rd_files d) (receipt_name hx' r)"
    by (simp add: d' update_conv')
  show "\<exists>x. read_path rk (rd_files d) n = Inr (Some x) \<and> t = rk_recorded_at rk x" if "(n, t) \<in> set ix"
    using that read_records_own[OF rs[unfolded records_locked_def]] by (auto simp: ix)
  have "map fst ix = map fst rs" by (simp add: ix comp_def split_def)
  then show "distinct (map fst ix)" if "distinct (map fst (rd_files d))"
    using that records_locked_keys(1)[OF rs] by simp
qed

lemma load_run:
  assumes "load_index hx tf rk d = (Inr ix, d')"
  shows "map_of (rd_files d') (receipt_name hx' r) = map_of (rd_files d) (receipt_name hx' r)"
    and "(\<exists>v. map_of (rd_files d) INDEX_NAME = Some (JsonFile v) \<and> decode_index tf v = Inr ix)
       \<or> rebuild_index hx tf rk d = (Inr ix, d')"
proof -
  show r: "(\<exists>v. map_of (rd_files d) INDEX_NAME = Some (JsonFile v) \<and> decode_index tf v = Inr ix)
       \<or> rebuild_index hx tf rk d = (Inr ix, d')"
    using assms by (auto simp: load_index_def split: option.splits node.splits sum.splits if_splits)
  have "d' = d \<or> rebuild_index hx tf rk d = (Inr ix, d')"
    using assms by (auto simp: load_index_def split: option.splits node.splits sum.splits if_splits)
  then show "map_of (rd_files d') (receipt_name hx' r) = map_of (rd_files d) (receipt_name hx' r)"
    using rebuild_run(1) by auto
qed

lemma decode_index_distinct:
  assumes "decode_index tf v = Inr ix" "distinct_keys v"
  shows "distinct (map fst ix)"
proof -
  from assms(1) obtain kvs where "object_with {''schema'', ''records''} v = Inr kvs"
    and body: "(case field ''records'' kvs of JObj records \<Rightarrow> collect_results (map (decode_entry tf) records)
       | _ \<Rightarrow> Inl ValueError) = Inr ix"
    unfolding decode_index_def bind_result_Inr by blast
  then have v: "v = JObj kvs" by (auto simp: object_with_def split: json.splits if_splits)
  from body obtain es where "field ''records'' kvs = JObj es"
    and ix: "collect_results (map (decode_entry tf) es) = Inr ix"
    by (cases "field ''records'' kvs") auto
  then have es: "map_of kvs ''records'' = Some (JObj es)" by (auto simp: field_def split: option.splits)
  from map_of_SomeD[OF es] have "JObj es \<in> set (map snd kvs)" by force
  moreover have "list_all distinct_keys (map snd kvs)" using assms(2) v by simp
  ultimately have "distinct_keys (JObj es)" unfolding list_all_iff by blast
  then show ?thesis using collect_keys[OF ix] by simp
qed

text \<open>The three parts of a \<open>begin\<close> that returns.\<close>

lemma begin_run:
  assumes "owned_begin os legacy now intent d = (Inr b, d')"
  obtains d0 ix d1 kept d2 existing where "d0 = d\<lparr>rd_exists := True\<rparr>"
    "load_index (os_hex os) (os_format os) (owned_kind (os_format os)) d0 = (Inr ix, d1)"
    "expire_index (owned_kind (os_format os)) (os_policy os) now ix d1 = (Inr kept, d2)"
    "read_path (owned_kind (os_format os)) (rd_files d2) (receipt_name (os_hex os) (ai_reference intent)) = Inr existing"
    "begin_check os legacy intent existing d2 = Inr ()"
    "begin_publish os intent existing (fst kept) d2 = (Inr b, d')"
  using assms unfolding owned_begin_def locked_def Let_def
  by (auto simp: bind_prog_Inr run_lift simp del: lift_result_eq)

lemma publish_flag: "begin_publish os intent existing ix d = (Inr b, d') \<Longrightarrow> b = (existing = None)"
  by (auto simp: begin_publish_def Let_def bind_prog_Inr)

lemma begin_index_distinct:
  assumes "load_index hx tf rk d0 = (Inr ix, d1)" "d0 = d\<lparr>rd_exists := True\<rparr>" "plain_dir d"
  shows "distinct (map fst ix)"
  using load_run(2)[OF assms(1)]
proof
  assume "\<exists>v. map_of (rd_files d0) INDEX_NAME = Some (JsonFile v) \<and> decode_index tf v = Inr ix"
  then obtain v where "map_of (rd_files d) INDEX_NAME = Some (JsonFile v)" "decode_index tf v = Inr ix"
    by (auto simp: assms(2))
  moreover from this(1) have "JsonFile v \<in> snd ` set (rd_files d)" by (force dest: map_of_SomeD)
  ultimately show ?thesis using assms(3) decode_index_distinct by (auto simp: plain_dir_def)
next
  assume "rebuild_index hx tf rk d0 = (Inr ix, d1)"
  then show ?thesis using assms(2,3) by (auto simp: plain_dir_def intro: rebuild_run(3))
qed

lemma begin_claims:
  assumes "owned_begin os legacy now intent d = (Inr True, d')" "plain_dir d"
  shows "claimed os intent d'"
  using assms(1)
proof (rule begin_run)
  fix d0 ix d1 d2 existing and kept :: "receipt_index \<times> int"
  let ?name = "receipt_name (os_hex os) (ai_reference intent)"
  let ?new = "AList.update ?name (ai_recorded_at intent) (fst kept)"
  assume d0: "d0 = d\<lparr>rd_exists := True\<rparr>"
    and load: "load_index (os_hex os) (os_format os) (owned_kind (os_format os)) d0 = (Inr ix, d1)"
    and exp: "expire_index (owned_kind (os_format os)) (os_policy os) now ix d1 = (Inr kept, d2)"
    and pub: "begin_publish os intent existing (fst kept) d2 = (Inr True, d')"
  have "distinct (map fst ix)" by (rule begin_index_distinct[OF load d0 assms(2)])
  then have "distinct (map fst (fst kept))" by (rule expire_index_run(2)[OF exp])
  then have own: "t = ai_recorded_at intent" if "(?name, t) \<in> set ?new" for t
    using that distinct_update[of "fst kept" ?name "ai_recorded_at intent"]
    by (auto dest!: map_of_is_SomeI[rotated] simp: update_conv')
  from publish_flag[OF pub] have "existing = None" by simp
  with pub obtain d3 ix' where trim: "trim_index (owned_kind (os_format os)) (os_policy os) ?new d2 = (Inr ix', d3)"
    and d': "rd_files d' = AList.update ?name (JsonFile (encode_stored os intent))
       (AList.update INDEX_NAME (JsonFile (encode_index (os_format os) ix')) (rd_files d3))"
    unfolding begin_publish_def Let_def
    by (auto simp: bind_prog_Inr write_index_def write_json_Inr run_lift simp del: lift_result_eq)
  from trim have "set ix' \<subseteq> set ?new" by (auto simp: trim_index_def bind_prog_Inr)
  with own show ?thesis
    by (auto simp: claimed_def Let_def d' update_conv')
qed

lemma stored_round_trip:
  assumes "valid_intent intent" "check_ownership (os_ownership os) = Inr (os_ownership os)"
    and "faithful_format (os_format os)"
    and "map_of fs n = Some (JsonFile (encode_stored os intent))"
  shows "read_path (owned_kind (os_format os)) fs n =
    Inr (Some \<lparr>si_ownership = os_ownership os, si_intent = intent\<rparr>)"
  using assms(4) intent_round_trip_lemma[OF assms(1,3)] owned_round_trip[OF assms(2), of "''intent''" INTENT_SCHEMA]
  by (simp add: read_path_def read_json_path_def bind_result_def owned_kind_def decode_stored_def encode_stored_def
      encode_owned_def split: json.splits)

lemma claimed_again:
  assumes claim: "claimed os intent d" and run: "owned_begin os' legacy now intent' d = (Inr b, d')"
    and ok: "valid_intent intent" "check_ownership (os_ownership os) = Inr (os_ownership os)"
      "faithful_format (os_format os)"
    and same: "os_hex os' = os_hex os" "os_format os' = os_format os" "ai_reference intent' = ai_reference intent"
    and fresh: "\<not> older (ai_recorded_at intent) (stamp_minus now (rp_retention (os_policy os')))"
  shows "b = False \<and> intent' = intent \<and> os_ownership os' = os_ownership os"
  using run
proof (rule begin_run)
  fix d0 ix d1 d2 existing and kept :: "receipt_index \<times> int"
  let ?name = "receipt_name (os_hex os) (ai_reference intent)"
  let ?rk = "owned_kind (os_format os)"
  assume d0: "d0 = d\<lparr>rd_exists := True\<rparr>"
    and load: "load_index (os_hex os') (os_format os') (owned_kind (os_format os')) d0 = (Inr ix, d1)"
    and exp: "expire_index (owned_kind (os_format os')) (os_policy os') now ix d1 = (Inr kept, d2)"
    and read: "read_path (owned_kind (os_format os')) (rd_files d2) (receipt_name (os_hex os') (ai_reference intent')) = Inr existing"
    and chk: "begin_check os' legacy intent' existing d2 = Inr ()"
    and pub: "begin_publish os' intent' existing (fst kept) d2 = (Inr b, d')"
  have on_disk: "map_of (rd_files d0) ?name = Some (JsonFile (encode_stored os intent))"
    using claim by (simp add: claimed_def Let_def d0)
  have own: "t = ai_recorded_at intent" if "(?name, t) \<in> set ix" for t
    using load_run(2)[OF load]
  proof
    assume "\<exists>v. map_of (rd_files d0) INDEX_NAME = Some (JsonFile v) \<and> decode_index (os_format os') v = Inr ix"
    then show ?thesis
      using claim decode_encode_index[OF _ ok(3)] that same by (auto simp: claimed_def Let_def d0)
  next
    assume "rebuild_index (os_hex os') (os_format os') (owned_kind (os_format os')) d0 = (Inr ix, d1)"
    from rebuild_run(2)[OF this that] stored_round_trip[OF ok on_disk] same show ?thesis
      by (auto simp: owned_kind_def)
  qed
  have "map_of (rd_files d2) ?name = map_of (rd_files d1) ?name"
    using expire_index_run(3)[OF exp] own fresh by auto
  with load_run(1)[OF load] on_disk
  have "map_of (rd_files d2) ?name = Some (JsonFile (encode_stored os intent))" by simp
  from stored_round_trip[OF ok this] read same
  have "existing = Some \<lparr>si_ownership = os_ownership os, si_intent = intent\<rparr>" by simp
  with publish_flag[OF pub] chk show ?thesis
    by (auto simp: begin_check_def bind_result_Inr require_owner_def)
qed

section \<open>An outcome is final\<close>

lemma read_outcome_written:
  assumes "valid_outcome x" "check_ownership (os_ownership os) = Inr (os_ownership os)" "faithful_format (os_format os)"
    and "map_of fs n = Some (JsonFile (encode_owned (os_ownership os) OUTCOME_SCHEMA ''outcome'' (encode_outcome (os_format os) x)))"
  shows "read_outcome os fs n = Inr (Some x)"
  using assms(4) outcome_round_trip_lemma[OF assms(1,3)] owned_round_trip[OF assms(2), of "''outcome''" OUTCOME_SCHEMA]
  by (simp add: read_outcome_def read_json_path_def bind_result_def require_owner_def encode_owned_def)

lemma finalise_run:
  assumes "owned_finalise os legacy now x d = (Inr u, d')"
  obtains e where "read_path (owned_kind (os_format os)) (rd_files d)
        (receipt_name (os_hex os) (rc_reference (io_receipt x))) = Inr (Some e)"
    "si_ownership e = os_ownership os"
    "read_outcome os (rd_files d) (outcome_name (receipt_name (os_hex os) (rc_reference (io_receipt x)))) = Inr (Some x)
       \<and> rd_files d' = rd_files d
     \<or> rd_files d' = AList.update (outcome_name (receipt_name (os_hex os) (rc_reference (io_receipt x))))
          (JsonFile (encode_owned (os_ownership os) OUTCOME_SCHEMA ''outcome'' (encode_outcome (os_format os) x))) (rd_files d)"
proof -
  let ?rk = "owned_kind (os_format os)" and ?name = "receipt_name (os_hex os) (rc_reference (io_receipt x))"
  from assms obtain found where read: "read_path ?rk (rd_files d) ?name = Inr found"
    and rest: "(case found of
       None \<Rightarrow> bind_prog (lift_result (\<lambda>d. deny_legacy os legacy (rc_reference (io_receipt x)))) (\<lambda>_. raise_prog ValueError)
     | Some e \<Rightarrow> finalise_intent os now x ?name e) (d\<lparr>rd_exists := True\<rparr>) = (Inr u, d')"
    unfolding owned_finalise_def locked_def Let_def bind_prog_Inr run_lift by auto
  show thesis
  proof (cases found)
    case None
    with rest show thesis by (simp add: bind_prog_Inr)
  next
    case (Some e)
    from rest[unfolded Some option.case finalise_intent_def bind_prog_Inr run_lift]
    obtain existing where own: "si_ownership e = os_ownership os"
      and old: "read_outcome os (rd_files d) (outcome_name ?name) = Inr existing"
      and put: "(case existing of
         Some o' \<Rightarrow> if o' \<noteq> x then raise_prog ValueError else return_prog ()
       | None \<Rightarrow> write_json (outcome_name ?name)
           (encode_owned (os_ownership os) OUTCOME_SCHEMA ''outcome'' (encode_outcome (os_format os) x)))
         (d\<lparr>rd_exists := True\<rparr>) = (Inr u, d')"
      by (auto simp: require_owner_def)
    show thesis
    proof (rule that[OF read[unfolded Some] own])
      show "read_outcome os (rd_files d) (outcome_name ?name) = Inr (Some x) \<and> rd_files d' = rd_files d
       \<or> rd_files d' = AList.update (outcome_name ?name)
          (JsonFile (encode_owned (os_ownership os) OUTCOME_SCHEMA ''outcome'' (encode_outcome (os_format os) x))) (rd_files d)"
        using put old by (cases existing) (auto simp: write_json_Inr split: if_splits)
    qed
  qed
qed

lemma finalise_published:
  assumes "owned_finalise os legacy now x d = (Inr u, d')" "valid_outcome x"
    and "check_ownership (os_ownership os) = Inr (os_ownership os)" "faithful_format (os_format os)"
  shows "read_outcome os (rd_files d') (outcome_name (receipt_name (os_hex os) (rc_reference (io_receipt x)))) = Inr (Some x)"
    "n \<noteq> outcome_name (receipt_name (os_hex os) (rc_reference (io_receipt x))) \<Longrightarrow>
       map_of (rd_files d') n = map_of (rd_files d) n"
  by (rule finalise_run[OF assms(1)]; use read_outcome_written[OF assms(2-4)] in \<open>auto simp: update_conv'\<close>)+

lemma finalise_refused:
  assumes "owned_finalise os legacy now y d = (r, d')" "rc_reference (io_receipt y) = ref"
    and "read_outcome os (rd_files d) (outcome_name (receipt_name (os_hex os) ref)) = Inr (Some x)" "y \<noteq> x"
  shows "r \<noteq> Inr () \<and> rd_files d' = rd_files d"
proof -
  let ?rk = "owned_kind (os_format os)" and ?name = "receipt_name (os_hex os) ref"
  let ?d = "d\<lparr>rd_exists := True\<rparr>"
  from assms(1) have "bind_prog (lift_result (\<lambda>d. read_path ?rk (rd_files d) ?name)) (\<lambda>found.
     case found of
       None \<Rightarrow> bind_prog (lift_result (\<lambda>d. deny_legacy os legacy ref)) (\<lambda>_. raise_prog ValueError)
     | Some e \<Rightarrow> finalise_intent os now y ?name e) ?d = (r, d')"
    unfolding owned_finalise_def locked_def Let_def assms(2) .
  then show ?thesis
  proof (cases rule: bind_prog_cases)
    case (1 e)
    then show ?thesis by auto
  next
    case (2 found d1)
    then have d1: "d1 = ?d" by simp
    show ?thesis
    proof (cases found)
      case None
      with 2 d1 show ?thesis by (auto elim!: bind_prog_cases)
    next
      case (Some e)
      with 2 d1 have "finalise_intent os now y ?name e ?d = (r, d')" by simp
      then show ?thesis
        unfolding finalise_intent_def using assms(3,4)
        by (auto elim!: bind_prog_cases)
    qed
  qed
qed

end
