(* ===== verification/Sample_Format.thy ===== *)
theory Sample_Format
  imports Receipt_Codec
begin

text \<open>
  A concrete time format for the witnesses: a tag for aware or naive and the microseconds in
  decimal. It is faithful, so the hypotheses about \<open>isoformat\<close> and \<open>fromisoformat\<close> can hold.
\<close>

fun demo_iso :: "stamp \<Rightarrow> string" where
  "demo_iso (Aware n) = CHR ''a'' # int_str n"
| "demo_iso (Naive n) = CHR ''n'' # int_str n"

definition int_value :: "string \<Rightarrow> int" where
  "int_value s = (if s \<noteq> [] \<and> hd s = CHR ''-'' then - int (digits_value (tl s)) else int (digits_value s))"

definition demo_from_iso :: "string \<Rightarrow> exn + stamp" where
  "demo_from_iso s = (case s of [] \<Rightarrow> Inl ValueError
     | c # r \<Rightarrow> if c = CHR ''a'' then Inr (Aware (int_value r))
                else if c = CHR ''n'' then Inr (Naive (int_value r)) else Inl ValueError)"

definition demo_format :: time_format where
  "demo_format = \<lparr>tf_iso = demo_iso, tf_from_iso = demo_from_iso\<rparr>"

lemma int_value_str: "int_value (int_str i) = i"
proof (cases "i < 0")
  case True
  then show ?thesis by (simp add: int_value_def int_str_def)
next
  case False
  have "hd (nat_str (nat i)) \<noteq> CHR ''-''"
    using nat_str_digits[of "nat i"] by (cases "nat_str (nat i)") (auto simp: ascii_digit_def Let_def)
  with False show ?thesis by (simp add: int_value_def int_str_def)
qed

lemma demo_format_faithful: "faithful_format demo_format"
proof -
  have "demo_from_iso (demo_iso t) = Inr t \<and> \<not> py_blank (demo_iso t)" for t
    by (cases t) (simp_all add: demo_from_iso_def int_value_str visible_not_blank del: py_blank.simps)
  then show ?thesis by (simp add: faithful_format_def demo_format_def)
qed

end
