(* ===== verification/Ledger_Properties.thy ===== *)
theory Ledger_Properties
  imports Ledger_Safety Sample_Format
begin

text \<open>
  What receipts promise: records survive the trip through their files, an invocation is claimed
  once, no crash leaves an unindexed claim, the ledger is bounded, outcomes are immutable and only
  their owner reads them.
\<close>

section \<open>A sample ledger\<close>

definition demo_owner :: "string \<Rightarrow> receipt_ownership" where
  "demo_owner p = \<lparr>ro_brain_id = ''b'', ro_principal = p, ro_kind = ''standalone'', ro_context_id = None\<rparr>"

definition demo_ledger :: "string \<Rightarrow> owned_store" where
  "demo_ledger p = \<lparr>os_hex = (\<lambda>_. replicate 64 (CHR ''a'')), os_format = demo_format,
     os_policy = \<lparr>rp_retention = 100, rp_max_records = 2\<rparr>, os_ownership = demo_owner p\<rparr>"

definition demo_dir :: receipt_dir where
  "demo_dir = \<lparr>rd_exists = False, rd_files = [], rd_past = []\<rparr>"

definition demo_intent :: admission_intent where
  "demo_intent = \<lparr>ai_reference = ''i'', ai_command_id = ''a.b'', ai_command_version = 1,
     ai_recorded_at = Aware 1000, ai_basis = ''initial'', ai_generation = ''g'', ai_source = ''cli-request'',
     ai_grant_id = None, ai_operation_id = None, ai_operation_digest = None, ai_request_id = None,
     ai_permission_change = None\<rparr>"

definition demo_receipt :: outcome_receipt where
  "demo_receipt = \<lparr>rc_reference = ''i'', rc_command_id = ''a.b'', rc_command_version = 1, rc_state = Committed,
     rc_recorded_at = Aware 1010, rc_committed_effects = [\<lparr>ce_kind = ''document'', ce_subject = ''x.md''\<rparr>]\<rparr>"

definition demo_outcome :: invocation_outcome where
  "demo_outcome = \<lparr>io_receipt = demo_receipt, io_execution = Succeeded, io_config_revision = None\<rparr>"

lemma demo_valid:
  "valid_intent demo_intent" "valid_receipt demo_receipt" "valid_outcome demo_outcome"
  "check_ownership (demo_owner ''p'') = Inr (demo_owner ''p'')"
  by code_simp+

section \<open>Round trips\<close>

text \<open>
  C26. What the stores write they read back: a receipt, an admission intent and an invocation
  outcome that pass their own checks come back from their JSON form exactly as they were.
\<close>

theorem records_round_trip:
  assumes "faithful_format tf" "valid_receipt r" "valid_intent i" "valid_outcome x"
  shows "decode_receipt tf (encode_receipt tf r) = Inr r \<and> decode_intent tf (encode_intent tf i) = Inr i
     \<and> decode_outcome tf (encode_outcome tf x) = Inr x"
  using assms by (simp add: receipt_round_trip_lemma intent_round_trip_lemma outcome_round_trip_lemma)

theorem records_round_trip_witness:
  "decode_outcome demo_format (encode_outcome demo_format demo_outcome) = Inr demo_outcome"
  using records_round_trip[OF demo_format_faithful demo_valid(2,1,3)] by simp

section \<open>Claiming an invocation\<close>


definition demo_begun :: "(exn + bool) \<times> receipt_dir" where
  "demo_begun = owned_begin (demo_ledger ''p'') demo_dir (Aware 1000) demo_intent demo_dir"

lemma demo_begin_results:
  "fst demo_begun = Inr True"
  "fst (owned_begin (demo_ledger ''p'') demo_dir (Aware 1050) demo_intent (snd demo_begun)) = Inr False"
  by code_simp+

lemma demo_ledger_fields:
  "check_ownership (os_ownership (demo_ledger ''p'')) = Inr (os_ownership (demo_ledger ''p''))"
  "faithful_format (os_format (demo_ledger ''p''))"
  using demo_valid(4) demo_format_faithful by (simp_all add: demo_ledger_def)



text \<open>
  C7. No crash leaves a claim the index does not know. Started on a directory whose index lists
  every record (or is missing, or unreadable), \<open>begin\<close>, \<open>finalise\<close> and \<open>cleanup\<close> pass only through
  such directories, whatever they return and wherever they are interrupted.
\<close>

theorem ledger_is_crash_safe:
  assumes "crash_safe (os_format os) d"
  shows "crash_safe (os_format os) (snd (owned_begin os legacy now intent d))
     \<and> crash_safe (os_format os) (snd (owned_finalise os legacy now outcome d))
     \<and> crash_safe (os_format os) (snd (owned_cleanup os now d))"
  using safeD(1)[OF safe_begin assms] safeD(1)[OF safe_finalise assms]
    safeD(1)[OF safe_cleanup[of "os_format os"] assms]
  unfolding owned_cleanup_def by (metis prod.collapse)

theorem ledger_is_crash_safe_witness:
  "crash_safe demo_format (snd demo_begun) \<and> rd_past (snd demo_begun) \<noteq> []"
proof -
  have "crash_safe (os_format (demo_ledger ''p'')) demo_dir"
    by (simp add: crash_safe_def indexed_def demo_dir_def)
  from ledger_is_crash_safe[OF this, of demo_dir "Aware 1000" demo_intent]
  have "crash_safe demo_format (snd demo_begun)"
    by (simp add: demo_begun_def demo_ledger_def)
  moreover have "rd_past (snd demo_begun) \<noteq> []" by code_simp
  ultimately show ?thesis ..
qed

lemma length_filter_removed:
  "distinct (map fst xs) \<Longrightarrow> distinct vs \<Longrightarrow> set vs \<subseteq> fst ` set xs \<Longrightarrow>
   length (filter (\<lambda>(n, t). n \<notin> set vs) xs) = length xs - length vs"
proof -
  assume xs: "distinct (map fst xs)" and vs: "distinct vs" "set vs \<subseteq> fst ` set xs"
  have "map fst (filter (\<lambda>(n, t). n \<notin> set vs) xs) = filter (\<lambda>n. n \<notin> set vs) (map fst xs)"
    by (induction xs) auto
  then have "length (filter (\<lambda>(n, t). n \<notin> set vs) xs) = card (set (filter (\<lambda>n. n \<notin> set vs) (map fst xs)))"
    using xs by (metis distinct_card distinct_filter length_map)
  also have "set (filter (\<lambda>n. n \<notin> set vs) (map fst xs)) = fst ` set xs - set vs" by auto
  also have "card \<dots> = card (fst ` set xs) - card (set vs)"
    using vs by (simp add: card_Diff_subset)
  also have "card (fst ` set xs) = length xs"
    using distinct_card[OF xs] by simp
  finally show ?thesis using distinct_card[OF vs(1)] by simp
qed

lemma trimmed_index_length:
  assumes "distinct (map fst ix)" "0 \<le> rp_max_records (os_policy os)"
  shows "int (length (trimmed_index os intent ix)) \<le> rp_max_records (os_policy os)"
proof -
  let ?ix = "AList.update (receipt_name (os_hex os) (ai_reference intent)) (ai_recorded_at intent) ix"
  let ?vs = "trim_victims (os_policy os) ?ix"
  let ?sorted = "map fst (sort_key (\<lambda>(n, t). (instant t, n)) ?ix)"
  have d: "distinct (map fst ?ix)" using assms(1) by (rule distinct_update)
  have dv: "distinct ?sorted" using d by (simp add: distinct_map)
  then have "distinct ?vs" by (simp add: trim_victims_def)
  moreover have "set ?vs \<subseteq> fst ` set ?ix" by (auto simp: trim_victims_def dest!: in_set_takeD)
  ultimately have "length (trimmed_index os intent ix) = length ?ix - length ?vs"
    unfolding trimmed_index_def Let_def by (rule length_filter_removed[OF d])
  moreover have "length ?vs = min (length ?ix) (nat (int (length ?ix) - rp_max_records (os_policy os)))"
    by (simp add: trim_victims_def)
  ultimately show ?thesis using assms(2) by linarith
qed

text \<open>
  C24. The ledger is bounded: when \<open>begin\<close> returns, the directory holds at most the policy's number
  of intents, all owners together.
\<close>

theorem ledger_is_bounded:
  assumes "owned_begin os legacy now intent d = (Inr b, d')" "plain_dir d" "crash_safe (os_format os) d"
    and "0 \<le> rp_max_records (os_policy os)"
  shows "int (card (json_names (rd_files d'))) \<le> rp_max_records (os_policy os)"
  using assms(1)
proof (rule begin_run)
  fix d0 ix d1 d2 existing and kept :: "receipt_index \<times> int"
  assume d0: "d0 = d\<lparr>rd_exists := True\<rparr>"
    and load: "load_index (os_hex os) (os_format os) (owned_kind (os_format os)) d0 = (Inr ix, d1)"
    and exp: "expire_index (owned_kind (os_format os)) (os_policy os) now ix d1 = (Inr kept, d2)"
    and pub: "begin_publish os intent existing (fst kept) d2 = (Inr b, d')"
  have c0: "crash_safe (os_format os) d0" using assms(3) by (simp add: d0 crash_safe_def)
  note c1 = safeD[OF safe_load c0 TrueI load]
  note c2 = safeD(1)[OF safe_expire c1 exp] safeD(2)[OF safe_expire c1 exp]
  have "json_names (rd_files d2) \<subseteq> fst ` set (fst kept)" using c2(2) by (auto split: prod.splits)
  from safeD(2)[OF safe_publish c2(1) this pub]
  have sub: "json_names (rd_files d') \<subseteq> fst ` set (trimmed_index os intent (fst kept))" .
  have "distinct (map fst (fst kept))"
    using begin_index_distinct[OF load, of d] assms(2) d0 expire_index_run(2)[OF exp] by blast
  from trimmed_index_length[OF this assms(4)]
  have "int (length (trimmed_index os intent (fst kept))) \<le> rp_max_records (os_policy os)" .
  moreover have "card (json_names (rd_files d')) \<le> length (trimmed_index os intent (fst kept))"
    using card_mono[OF _ sub] card_length[of "map fst (trimmed_index os intent (fst kept))"] by simp
  ultimately show ?thesis by linarith
qed

theorem ledger_is_bounded_witness:
  "int (card (json_names (rd_files (snd demo_begun)))) \<le> 2"
proof -
  have run: "owned_begin (demo_ledger ''p'') demo_dir (Aware 1000) demo_intent demo_dir = (Inr True, snd demo_begun)"
    using demo_begin_results(1) by (simp add: demo_begun_def prod_eq_iff)
  have "plain_dir demo_dir" "crash_safe (os_format (demo_ledger ''p'')) demo_dir"
    by (simp_all add: plain_dir_def crash_safe_def indexed_def demo_dir_def)
  from ledger_is_bounded[OF run this] show ?thesis by (simp add: demo_ledger_def)
qed

section \<open>Outcomes\<close>

text \<open>
  C6. An outcome is final. After \<open>finalise\<close> succeeded, the outcome file holds exactly that outcome
  and no other file of the directory has changed; from then on, as long as that file is there, an
  attempt to publish a different outcome for the invocation fails and leaves every file as it was.
\<close>

theorem outcome_is_final:
  assumes "owned_finalise os legacy now x d = (Inr (), d')" "valid_outcome x"
    and "check_ownership (os_ownership os) = Inr (os_ownership os)" "faithful_format (os_format os)"
    and "name = outcome_name (receipt_name (os_hex os) (rc_reference (io_receipt x)))"
  shows "read_outcome os (rd_files d') name = Inr (Some x)
     \<and> (\<forall>n. n \<noteq> name \<longrightarrow> map_of (rd_files d') n = map_of (rd_files d) n)
     \<and> (\<forall>d1 legacy1 now1 y r d2.
          map_of (rd_files d1) name = map_of (rd_files d') name \<longrightarrow>
          owned_finalise os legacy1 now1 y d1 = (r, d2) \<longrightarrow>
          rc_reference (io_receipt y) = rc_reference (io_receipt x) \<longrightarrow> y \<noteq> x \<longrightarrow>
          r \<noteq> Inr () \<and> rd_files d2 = rd_files d1)"
proof (intro conjI allI impI)
  note pub = finalise_published[OF assms(1-4)]
  show here: "read_outcome os (rd_files d') name = Inr (Some x)" using pub(1) by (simp add: assms(5))
  show "map_of (rd_files d') n = map_of (rd_files d) n" if "n \<noteq> name" for n
    using pub(2) that by (simp add: assms(5))
  fix d1 legacy1 now1 y d2 and r :: "exn + unit"
  assume same: "map_of (rd_files d1) name = map_of (rd_files d') name"
    and run: "owned_finalise os legacy1 now1 y d1 = (r, d2)"
    and y: "rc_reference (io_receipt y) = rc_reference (io_receipt x)" "y \<noteq> x"
  have "read_outcome os (rd_files d1) name = Inr (Some x)"
    using here same by (simp add: read_outcome_def read_json_path_def)
  from finalise_refused[OF run y(1) this[unfolded assms(5)] y(2)]
  show "r \<noteq> Inr ()" "rd_files d2 = rd_files d1" by simp_all
qed

definition demo_finalised :: "(exn + unit) \<times> receipt_dir" where
  "demo_finalised = owned_finalise (demo_ledger ''p'') demo_dir (Aware 1020) demo_outcome (snd demo_begun)"

lemma demo_finalised_result: "fst demo_finalised = Inr ()"
  by code_simp

theorem outcome_is_final_witness:
  "read_outcome (demo_ledger ''p'') (rd_files (snd demo_finalised))
     (outcome_name (receipt_name (os_hex (demo_ledger ''p'')) ''i'')) = Inr (Some demo_outcome)"
proof -
  have run: "owned_finalise (demo_ledger ''p'') demo_dir (Aware 1020) demo_outcome (snd demo_begun) = (Inr (), snd demo_finalised)"
    using demo_finalised_result by (simp add: demo_finalised_def prod_eq_iff)
  have "rc_reference (io_receipt demo_outcome) = ''i''" by code_simp
  from conjunct1[OF outcome_is_final[OF run demo_valid(3) demo_ledger_fields refl], unfolded this]
  show ?thesis .
qed

text \<open>
  Reading is private and honest: a lookup that returns an intent returns the one stored for that
  invocation, owned by exactly the reader and still within its retention, and an outcome it returns
  belongs to that intent's invocation and command; a record of another owner is never returned.
\<close>

theorem reading_is_private:
  assumes "owned_read os legacy now reference d d' = Inr l"
  shows "ol_reference l = reference
     \<and> (\<forall>i. ol_intent l = Some i \<longrightarrow>
          read_path (owned_kind (os_format os)) (rd_files d) (receipt_name (os_hex os) reference)
            = Inr (Some \<lparr>si_ownership = os_ownership os, si_intent = i\<rparr>)
          \<and> ai_reference i = reference
          \<and> \<not> older (ai_recorded_at i) (stamp_minus now (rp_retention (os_policy os))))
     \<and> (\<forall>x. ol_outcome l = Some x \<longrightarrow>
          read_outcome os (rd_files d') (outcome_name (receipt_name (os_hex os) reference)) = Inr (Some x)
          \<and> rc_reference (io_receipt x) = reference
          \<and> (\<exists>i. ol_intent l = Some i \<and> rc_command_id (io_receipt x) = ai_command_id i))"
proof -
  have lookup: "check_owned_lookup k = Inr l \<Longrightarrow> l = k \<and> (\<forall>i. ol_intent k = Some i \<longrightarrow> ai_reference i = ol_reference k)
      \<and> (\<forall>x. ol_outcome k = Some x \<longrightarrow> (\<exists>i. ol_intent k = Some i \<and> rc_command_id (io_receipt x) = ai_command_id i
           \<and> rc_reference (io_receipt x) = ol_reference k))" for k
    by (auto simp: check_owned_lookup_def bind_result_Inr split: option.splits)
  let ?empty = "\<lparr>ol_reference = reference, ol_intent = None, ol_outcome = None\<rparr>"
  let ?name = "receipt_name (os_hex os) reference"
  consider "check_owned_lookup ?empty = Inr l"
    | e outcome where "read_path (owned_kind (os_format os)) (rd_files d) ?name = Inr (Some e)"
        "si_ownership e = os_ownership os"
        "\<not> older (ai_recorded_at (si_intent e)) (stamp_minus now (rp_retention (os_policy os)))"
        "read_outcome os (rd_files d') (outcome_name ?name) = Inr outcome"
        "check_owned_lookup \<lparr>ol_reference = reference, ol_intent = Some (si_intent e), ol_outcome = outcome\<rparr> = Inr l"
  proof (cases "rd_exists d")
    case False
    with assms that(1) show thesis by (auto simp: owned_read_def Let_def bind_result_Inr)
  next
    case True
    with assms obtain stored where stored: "read_path (owned_kind (os_format os)) (rd_files d) ?name = Inr stored"
      and rest: "(case stored of
           None \<Rightarrow> bind_result (deny_legacy os legacy reference) (\<lambda>_. check_owned_lookup ?empty)
         | Some e \<Rightarrow>
             bind_result (require_owner os (si_ownership e)) (\<lambda>_.
             bind_result (check_that (aware now) ValueError) (\<lambda>_.
             if older (ai_recorded_at (si_intent e)) (stamp_minus now (rp_retention (os_policy os)))
             then check_owned_lookup ?empty
             else bind_result (read_outcome os (rd_files d') (outcome_name ?name)) (\<lambda>outcome.
                  check_owned_lookup \<lparr>ol_reference = reference, ol_intent = Some (si_intent e), ol_outcome = outcome\<rparr>)))) = Inr l"
      unfolding owned_read_def Let_def by (auto simp: bind_result_Inr)
    show thesis
    proof (cases stored)
      case None
      with rest that(1) show thesis by (auto simp: bind_result_Inr)
    next
      case (Some e)
      show thesis
      proof (cases "older (ai_recorded_at (si_intent e)) (stamp_minus now (rp_retention (os_policy os)))")
        case True
        with rest Some that(1) show thesis by (auto simp: bind_result_Inr)
      next
        case False
        with rest Some obtain outcome where "si_ownership e = os_ownership os"
          "read_outcome os (rd_files d') (outcome_name ?name) = Inr outcome"
          "check_owned_lookup \<lparr>ol_reference = reference, ol_intent = Some (si_intent e), ol_outcome = outcome\<rparr> = Inr l"
          by (auto simp: bind_result_Inr require_owner_def)
        with that(2) False stored Some show thesis by blast
      qed
    qed
  qed
  then show ?thesis
  proof cases
    case 1
    from lookup[OF this] show ?thesis by simp
  next
    case (2 e outcome)
    then have "e = \<lparr>si_ownership = os_ownership os, si_intent = si_intent e\<rparr>" by simp
    with 2 lookup[OF 2(5)] show ?thesis by auto
  qed
qed

theorem reading_is_private_witness:
  "\<exists>l. owned_read (demo_ledger ''p'') demo_dir (Aware 1050) ''i'' (snd demo_begun) (snd demo_begun) = Inr l
     \<and> ol_intent l = Some demo_intent \<and> ol_reference l = ''i''
   \<and> owned_read (demo_ledger ''q'') demo_dir (Aware 1050) ''i'' (snd demo_begun) (snd demo_begun) = Inl ReceiptOwnershipError"
proof -
  have "case owned_read (demo_ledger ''p'') demo_dir (Aware 1050) ''i'' (snd demo_begun) (snd demo_begun) of
      Inl _ \<Rightarrow> False | Inr l \<Rightarrow> ol_intent l = Some demo_intent"
    by code_simp
  then obtain l where l: "owned_read (demo_ledger ''p'') demo_dir (Aware 1050) ''i'' (snd demo_begun) (snd demo_begun) = Inr l"
    "ol_intent l = Some demo_intent" by (auto split: sum.splits)
  moreover have "owned_read (demo_ledger ''q'') demo_dir (Aware 1050) ''i'' (snd demo_begun) (snd demo_begun) = Inl ReceiptOwnershipError"
    by code_simp
  ultimately show ?thesis using reading_is_private[OF l(1)] by auto
qed

section \<open>The process-local store\<close>

lemma distinct_filter_keys: "distinct (map fst xs) \<Longrightarrow> distinct (map fst (filter P xs))"
  by (induction xs) (auto dest: set_mp[OF filter_is_subset])

lemma map_of_filter_keys:
  "distinct (map fst xs) \<Longrightarrow> map_of (filter (\<lambda>(k, r). P k) xs) k = (if P k then map_of xs k else None)"
  by (induction xs) auto

text \<open>
  The memory store is bounded and immutable: a write that succeeds keeps keys unique and the
  number of records within the policy, and no record it keeps differs from what it was; a write
  that fails because the invocation has a different receipt changes no record that is kept.
\<close>

theorem memory_store_is_bounded:
  assumes "memory_write now receipt m = (r, m')" "distinct (map fst (mr_records m))"
    and "0 \<le> rp_max_records (mr_policy m)"
  shows "distinct (map fst (mr_records m'))
     \<and> (r = Inr () \<longrightarrow> int (length (mr_records m')) \<le> rp_max_records (mr_policy m))
     \<and> (\<forall>k x y. map_of (mr_records m) k = Some x \<longrightarrow> map_of (mr_records m') k = Some y
          \<longrightarrow> (k \<noteq> rc_reference receipt \<longrightarrow> y = x) \<and> (k = rc_reference receipt \<longrightarrow> y = x \<or> y = receipt))"
proof -
  let ?key = "rc_reference receipt"
  have clean: "mr_policy m1 = mr_policy m \<and> distinct (map fst (mr_records m1))
      \<and> (\<forall>k y. map_of (mr_records m1) k = Some y \<longrightarrow> map_of (mr_records m) k = Some y)"
    if "cleanup_locked now m = (q, m1)" for q m1
    using that assms(2)
    by (auto simp: cleanup_locked_def Let_def distinct_filter_keys map_of_filter_keys split: if_splits)
  have trim: "distinct (map fst (mr_records (trim_locked n))) \<and> int (length (mr_records (trim_locked n))) \<le> rp_max_records (mr_policy n)
      \<and> (\<forall>k y. map_of (mr_records (trim_locked n)) k = Some y \<longrightarrow> map_of (mr_records n) k = Some y)"
    if d: "distinct (map fst (mr_records n))" and pos: "0 \<le> rp_max_records (mr_policy n)" for n
  proof -
    let ?over = "int (length (mr_records n)) - rp_max_records (mr_policy n)"
    let ?sorted = "map fst (sort_key (\<lambda>(k, r). (instant (rc_recorded_at r), rc_reference r)) (mr_records n))"
    let ?vs = "take (nat ?over) ?sorted"
    have "distinct ?sorted" using d by (simp add: distinct_map)
    then have vs: "distinct ?vs" "set ?vs \<subseteq> fst ` set (mr_records n)" by (auto dest!: in_set_takeD)
    from length_filter_removed[OF d vs]
    have len: "length (filter (\<lambda>(k, r). k \<notin> set ?vs) (mr_records n)) = length (mr_records n) - length ?vs" .
    have "length ?vs = min (length (mr_records n)) (nat ?over)" by simp
    then have "int (length (filter (\<lambda>(k, r). k \<notin> set ?vs) (mr_records n))) \<le> rp_max_records (mr_policy n)"
      using pos unfolding len by linarith
    then show ?thesis using d
      by (auto simp: trim_locked_def Let_def distinct_filter_keys map_of_filter_keys split: if_splits)
  qed
  from assms(1) show ?thesis
    unfolding memory_write_def
  proof (cases rule: bind_prog_cases)
    case (1 e)
    with clean[OF 1(1)] show ?thesis by auto
  next
    case (2 q m1)
    note c = clean[OF 2(1)]
    let ?n = "m1\<lparr>mr_records := AList.update ?key receipt (mr_records m1)\<rparr>"
    consider "r = Inl ValueError" "m' = m1" | "r = Inr ()" "m' = trim_locked ?n"
      using 2(2) by (auto simp: Let_def split: if_splits)
    then show ?thesis
    proof cases
      case 1
      with c show ?thesis by auto
    next
      case 2
      have "distinct (map fst (mr_records ?n))" using c by (simp add: distinct_update)
      moreover have "0 \<le> rp_max_records (mr_policy ?n)" using c assms(3) by simp
      ultimately have tr: "distinct (map fst (mr_records m'))" "int (length (mr_records m')) \<le> rp_max_records (mr_policy m)"
        and kept: "\<And>k y. map_of (mr_records m') k = Some y \<Longrightarrow> map_of (mr_records ?n) k = Some y"
        using trim[of ?n] c 2(2) by simp_all
      have "(k \<noteq> ?key \<longrightarrow> y = x) \<and> (k = ?key \<longrightarrow> y = x \<or> y = receipt)"
        if "map_of (mr_records m) k = Some x" "map_of (mr_records m') k = Some y" for k x y
        using kept[OF that(2)] c that(1) by (auto simp: update_conv' split: if_splits)
      with tr show ?thesis by blast
    qed
  qed
qed

definition demo_memory :: memory_receipts where
  "demo_memory = \<lparr>mr_policy = \<lparr>rp_retention = 100, rp_max_records = 1\<rparr>,
     mr_records = [(''h'', demo_receipt\<lparr>rc_reference := ''h'', rc_recorded_at := Aware 1005\<rparr>)]\<rparr>"

theorem memory_store_is_bounded_witness:
  "int (length (mr_records (snd (memory_write (Aware 1010) demo_receipt demo_memory)))) \<le> 1
   \<and> mr_records (snd (memory_write (Aware 1010) demo_receipt demo_memory)) = [(''i'', demo_receipt)]"
proof -
  have run: "memory_write (Aware 1010) demo_receipt demo_memory = (Inr (), snd (memory_write (Aware 1010) demo_receipt demo_memory))"
    by code_simp
  have "distinct (map fst (mr_records demo_memory))" "0 \<le> rp_max_records (mr_policy demo_memory)"
    "rp_max_records (mr_policy demo_memory) = 1" by code_simp+
  with memory_store_is_bounded[OF run this(1,2)]
  have "int (length (mr_records (snd (memory_write (Aware 1010) demo_receipt demo_memory)))) \<le> 1" by simp
  moreover have "mr_records (snd (memory_write (Aware 1010) demo_receipt demo_memory)) = [(''i'', demo_receipt)]"
    by code_simp
  ultimately show ?thesis ..
qed

end
