(* ===== verification/Command_Results.thy ===== *)
theory Command_Results
  imports Receipt_Records Command_Types
begin

text \<open>
  \<open>_application/results.py\<close>: the values of \<open>brain.command-result/1\<close> and the checks their
  constructors make. Each \<open>check_...\<close> is the \<open>__post_init__\<close> of its class; a value of the model
  is what the class holds before that check.
\<close>

datatype error_code =
    InvalidRequest | NotFound | Conflict | AuthorityDenied | AuthorisationRequired
  | CapabilityUnavailable | CommandOutcomeUnknown | InternalError

datatype warning_code = DegradedCapability | StaleSnapshot | FollowUpRequired

section \<open>Recovery steps and warnings\<close>

record command_argument =
  ca_name :: string
  ca_value :: json

definition check_argument :: "command_argument \<Rightarrow> exn + command_argument" where
  "check_argument a = bind_result (check_that (\<not> py_blank (ca_name a)) ValueError) (\<lambda>_. Inr a)"

datatype next_action =
    CommandNextAction string "command_argument list"
  | InstructionNextAction string

fun check_next_action :: "next_action \<Rightarrow> exn + next_action" where
  "check_next_action (CommandNextAction command_id arguments) =
     bind_result (validate_command_id command_id) (\<lambda>_.
     bind_result (check_that (distinct (map ca_name arguments)) ValueError) (\<lambda>_.
     Inr (CommandNextAction command_id arguments)))"
| "check_next_action (InstructionNextAction instruction) =
     bind_result (check_that (\<not> py_blank instruction) ValueError) (\<lambda>_. Inr (InstructionNextAction instruction))"

record command_warning =
  cw_code :: warning_code
  cw_message :: string

definition check_warning :: "command_warning \<Rightarrow> exn + command_warning" where
  "check_warning w = bind_result (check_that (\<not> py_blank (cw_message w)) ValueError) (\<lambda>_. Inr w)"

section \<open>Error details\<close>

record request_error_details =
  rd_field :: "string option"
  rd_reason :: string

record cache_error_details =
  cd_cache :: string
  cd_reason :: string
  cd_source_path :: "string option"

record workspace_details =
  wd_reason :: string
  wd_folder :: string
  wd_detected_version :: "int option"
  wd_supported_version :: int
  wd_remediation_command :: string

record capability_details =
  cu_required_tier :: dependency_tier
  cu_current_tier :: dependency_tier
  cu_locality :: locality
  cu_missing :: "string list"
  cu_snapshot_freshness :: snapshot_freshness
  cu_recoverable :: bool

text \<open>\<open>AuthorityDeniedDetails.boundary\<close> is one of four literals.\<close>

datatype boundary = PermissionsBoundary | AuthorisationBoundary | ContextBoundary | PolicyBoundary

record authority_details =
  ad_profile :: string
  ad_required :: string
  ad_boundary :: boundary
  ad_requestable :: bool
  ad_reason :: "string option"

text \<open>\<open>RuntimeProgressDetails\<close> wraps a status snapshot this library does not look into.\<close>

datatype error_details =
    RequestDetails request_error_details
  | CacheDetails cache_error_details
  | WorkspaceDetails workspace_details
  | CapabilityDetails capability_details
  | AuthorityDetails authority_details
  | InternalDetails string
  | OutcomeUnknownDetails string
  | RuntimeProgressDetails json

fun check_details :: "error_details \<Rightarrow> exn + unit" where
  "check_details (RequestDetails d) = check_that (\<not> py_blank (rd_reason d)) ValueError"
| "check_details (CapabilityDetails d) =
     check_that (cu_missing d \<noteq> [] \<and> list_all (\<lambda>m. \<not> py_blank m) (cu_missing d) \<and> distinct (cu_missing d))
       ValueError"
| "check_details (AuthorityDetails d) =
     check_that (\<not> py_blank (ad_profile d) \<and> \<not> py_blank (ad_required d)
       \<and> (ad_requestable d \<longrightarrow> ad_boundary d = AuthorisationBoundary)) ValueError"
| "check_details (InternalDetails correlation_id) = check_that (\<not> py_blank correlation_id) ValueError"
| "check_details (OutcomeUnknownDetails reference) =
     bind_result (outcome_reference reference) (\<lambda>_. Inr ())"
| "check_details _ = Inr ()"

section \<open>Errors and results\<close>

record command_error =
  ce_code :: error_code
  ce_message :: string
  ce_details :: "error_details option"
  ce_next_action :: "next_action option"

text \<open>Building a \<open>CommandError\<close> builds its details and its recovery step first.\<close>

definition check_error :: "command_error \<Rightarrow> exn + command_error" where
  "check_error e =
     bind_result (case ce_details e of None \<Rightarrow> Inr () | Some d \<Rightarrow> check_details d) (\<lambda>_.
     bind_result (case ce_next_action e of None \<Rightarrow> Inr ()
                  | Some a \<Rightarrow> bind_result (check_next_action a) (\<lambda>_. Inr ())) (\<lambda>_.
     bind_result (check_that (\<not> py_blank (ce_message e)) ValueError) (\<lambda>_. Inr e)))"

record 'p ok_result =
  ok_command_id :: string
  ok_command_version :: int
  ok_payload :: 'p
  ok_effects :: "committed_effect list"
  ok_warnings :: "command_warning list"

record partial_result =
  pt_command_id :: string
  pt_command_version :: int
  pt_error :: command_error
  pt_effects :: "committed_effect list"
  pt_warnings :: "command_warning list"

record error_result =
  er_command_id :: string
  er_command_version :: int
  er_error :: command_error
  er_effects_unknown :: bool
  er_outcome_reference :: "string option"
  er_retryable :: bool
  er_warnings :: "command_warning list"

datatype 'p command_result = Ok "'p ok_result" | Partial partial_result | Error error_result

definition validate_identity :: "string \<Rightarrow> int \<Rightarrow> exn + unit" where
  "validate_identity command_id command_version =
     bind_result (validate_command_id command_id) (\<lambda>_. check_that (1 \<le> command_version) ValueError)"

text \<open>\<open>Error.__post_init__\<close> after the identity: uncertainty and its reference go together.\<close>

definition check_uncertainty :: "error_result \<Rightarrow> exn + unit" where
  "check_uncertainty r =
     (if ce_code (er_error r) = CommandOutcomeUnknown then
        bind_result (check_that (er_outcome_reference r \<noteq> None) ValueError) (\<lambda>_.
        bind_result (check_that (\<not> er_retryable r) ValueError) (\<lambda>_.
        (case ce_details (er_error r) of
           Some (OutcomeUnknownDetails reference) \<Rightarrow>
             check_that (er_outcome_reference r = Some reference) ValueError
         | _ \<Rightarrow> Inl ValueError)))
      else check_that (\<not> er_effects_unknown r \<and> er_outcome_reference r = None) ValueError)"

fun check_result :: "'p command_result \<Rightarrow> exn + 'p command_result" where
  "check_result (Ok r) =
     bind_result (validate_identity (ok_command_id r) (ok_command_version r)) (\<lambda>_. Inr (Ok r))"
| "check_result (Partial r) =
     bind_result (validate_identity (pt_command_id r) (pt_command_version r)) (\<lambda>_.
     bind_result (check_that (pt_effects r \<noteq> []) ValueError) (\<lambda>_. Inr (Partial r)))"
| "check_result (Error r) =
     bind_result (validate_identity (er_command_id r) (er_command_version r)) (\<lambda>_.
     bind_result (check_uncertainty r) (\<lambda>_. Inr (Error r)))"

fun result_command_id :: "'p command_result \<Rightarrow> string" where
  "result_command_id (Ok r) = ok_command_id r"
| "result_command_id (Partial r) = pt_command_id r"
| "result_command_id (Error r) = er_command_id r"

fun result_command_version :: "'p command_result \<Rightarrow> int" where
  "result_command_version (Ok r) = ok_command_version r"
| "result_command_version (Partial r) = pt_command_version r"
| "result_command_version (Error r) = er_command_version r"

text \<open>\<open>Error(command_id, version, CommandError(code, message, details, next_action), ...)\<close>\<close>

definition new_error ::
  "string \<Rightarrow> int \<Rightarrow> command_error \<Rightarrow> bool \<Rightarrow> string option \<Rightarrow> bool \<Rightarrow> exn + 'p command_result" where
  "new_error command_id version err unknown reference retryable =
     bind_result (check_error err) (\<lambda>e.
     check_result (Error \<lparr>er_command_id = command_id, er_command_version = version, er_error = e,
       er_effects_unknown = unknown, er_outcome_reference = reference, er_retryable = retryable,
       er_warnings = []\<rparr>))"

definition request_error ::
  "string \<Rightarrow> int \<Rightarrow> error_code \<Rightarrow> string \<Rightarrow> string option \<Rightarrow> bool \<Rightarrow> exn + 'p command_result" where
  "request_error command_id version code message at retryable =
     new_error command_id version
       \<lparr>ce_code = code, ce_message = message,
        ce_details = Some (RequestDetails \<lparr>rd_field = at, rd_reason = message\<rparr>), ce_next_action = None\<rparr>
       False None retryable"

text \<open>\<open>router_cache_error(state)\<close>, of the diagnostic's path, reason and source path.\<close>

definition router_cache_error :: "string \<Rightarrow> string \<Rightarrow> string option \<Rightarrow> command_error" where
  "router_cache_error path reason source_path =
     \<lparr>ce_code = Conflict,
      ce_message = ''Compiled router cache is stale or unreadable ('' @ reason
        @ ''). Run runtime.refresh-router; retry the original operation only after repair succeeds.'',
      ce_details = Some (CacheDetails \<lparr>cd_cache = path, cd_reason = reason, cd_source_path = source_path\<rparr>),
      ce_next_action = Some (CommandNextAction ''runtime.refresh-router'' [])\<rparr>"

section \<open>Facts\<close>

lemma check_result_same: "check_result r = Inr r' \<Longrightarrow> r' = r"
  by (cases r) (auto simp: bind_result_Inr)

lemma check_error_same: "check_error e = Inr e' \<Longrightarrow> e' = e"
  by (auto simp: check_error_def bind_result_Inr)

lemma new_error_Inr:
  "new_error c v e unknown ref retry = Inr r \<Longrightarrow>
   r = Error \<lparr>er_command_id = c, er_command_version = v, er_error = e, er_effects_unknown = unknown,
         er_outcome_reference = ref, er_retryable = retry, er_warnings = []\<rparr> \<and> check_result r = Inr r"
  unfolding new_error_def by (auto simp: bind_result_Inr dest!: check_error_same check_result_same)

text \<open>A checked error that may have had effects says so, and names the outcome to read.\<close>

lemma check_result_uncertain:
  assumes "check_result (Error r) = Inr x"
  shows "(ce_code (er_error r) = CommandOutcomeUnknown) = (er_outcome_reference r \<noteq> None)"
    "er_effects_unknown r \<Longrightarrow> er_outcome_reference r \<noteq> None"
    "er_outcome_reference r = Some ref \<Longrightarrow>
       \<not> er_retryable r \<and> ce_details (er_error r) = Some (OutcomeUnknownDetails ref)"
  using assms
  by (auto simp: bind_result_Inr check_uncertainty_def split: if_splits option.splits error_details.splits)

end
