(* ===== verification/Catalogue.thy ===== *)
theory Catalogue
  imports Command_Results Preparation
begin

text \<open>
  \<open>_application/catalogue.py\<close> and \<open>_application/identity.py\<close>: the entries of the command
  catalogue, the checks of their constructors, resolution of a typed request, exclusion of a
  projection, and the default summaries.

  A request class is its identity (\<open>module:qualname\<close>), its class constants and the names of its
  constructor fields. An entry's executor and preparation strategy are values of type parameters:
  the catalogue only stores them.
\<close>

section \<open>Request types\<close>

record request_type =
  rt_name :: string
  rt_command_id :: string
  rt_command_version :: int
  rt_result_type :: string
  rt_fields :: "string list"

record typed_request =
  rq_type :: request_type
  rq_wire :: json

text \<open>\<open>command_identity\<close>; the two other checks are about Python types.\<close>

definition command_identity :: "typed_request \<Rightarrow> exn + string \<times> int \<times> string" where
  "command_identity r =
     bind_result (check_that (rt_command_id (rq_type r) \<noteq> []) TypeError) (\<lambda>_.
     Inr (rt_command_id (rq_type r), rt_command_version (rq_type r), rt_result_type (rq_type r)))"

definition request_of :: "typed_request \<Rightarrow> command_request" where
  "request_of r = \<lparr>cr_command_id = rt_command_id (rq_type r),
     cr_command_version = rt_command_version (rq_type r), cr_wire_value = rq_wire r\<rparr>"

section \<open>Default summaries\<close>

definition known_summaries :: "(string \<times> string) list" where
  "known_summaries =
  [(''command.list'', ''Discover Brain commands, call names and access with pagination; use command.describe for schemas, not to refresh host MCP tools.''),
   (''command.describe'', ''Inspect one Brain command schema, permissions and examples; this does not refresh host MCP tools.''),
   (''session.start'', ''Load Brain instructions, preferences and discovery routes before doing vault work.''),
   (''artefact.read'', ''Read an active or archived note by path or reference, including its revision for safe edits.''),
   (''artefact.create'', ''Create a typed note from inline content or a staged source using its configured naming and frontmatter.''),
   (''artefact.list'', ''Browse active or archived notes with filters and stable pagination.''),
   (''artefact.search'', ''Find notes by lexical text search with optional semantic retrieval.''),
   (''artefact.archive'', ''Move a note to the archive while preserving its content and identity.''),
   (''artefact.unarchive'', ''Restore an archived note to the active vault.''),
   (''artefact.delete'', ''Permanently remove a note through an administrator-authorized command.''),
   (''artefact.outline'', ''Read a note heading outline to target a structural edit.''),
   (''artefact.rename'', ''Rename a note and repair links that point to it.''),
   (''document.replace-text'', ''Replace a selected text match in a document using its expected revision.''),
   (''document.structured-edit'', ''Edit a heading section or other structural target using its expected revision.''),
   (''document.update-frontmatter'', ''Update document frontmatter fields using its expected revision.''),
   (''document.write-body'', ''Replace a document body while retaining frontmatter and checking its expected revision.''),
   (''invocation.read'', ''Look up the recorded outcome of an interrupted mutation by invocation ID before retrying.''),
   (''runtime.refresh-router'', ''Recompile the vault router after configuration or artefact metadata changes.''),
   (''retrieval.refresh-lexical'', ''Refresh the lexical search index after note changes or external file removal.''),
   (''vault.read-file'', ''Read a vault-relative file, including Brain core documentation and configuration sources.''),
   (''vault.read-router'', ''Read compiled router metadata, always rules and source digests.''),
   (''vault.read-config'', ''Read the selected Brain configuration through the filtered command surface.''),
   (''shaping.start'', ''Load the version-matched workflow for shaping an artefact through questions and answers.''),
   (''links.check'', ''Find broken or inconsistent links in a note or vault scope.''),
   (''links.fix'', ''Repair supported broken or inconsistent links in a note or vault scope.'')]"

text \<open>The table \<open>direct\<close>: what stands before and after the noun.\<close>

definition direct_summaries :: "(string \<times> string \<times> string) list" where
  "direct_summaries =
    [(''create'', ''Create one '', ''''), (''read'', ''Read one '', ''''),
     (''list'', ''List '', '' resources''), (''search'', ''Search '', '' resources''),
     (''delete'', ''Delete one '', ''''), (''append'', ''Append content to one '', ''''),
     (''prepend'', ''Prepend content to one '', ''''), (''edit'', ''Edit one '', ''''),
     (''check'', ''Check '', '' state''), (''fix'', ''Fix '', '' state''),
     (''resolve'', ''Resolve '', '' state''), (''start'', ''Start '', ''''),
     (''upload'', ''Upload one '', ''''), (''discard'', ''Discard one '', '''')]"

definition spaced :: "string \<Rightarrow> string" where
  "spaced s = map (\<lambda>c. if c = CHR ''-'' then CHR '' '' else c) s"

text \<open>\<open>str.capitalize\<close> of the lower-case ASCII words of a command identifier.\<close>

definition capitalise :: "string \<Rightarrow> string" where
  "capitalise s = (case s of [] \<Rightarrow> [] | c # r \<Rightarrow> (if lower_letter c then char_of (of_char c - 32 :: nat) else c) # r)"

definition summary_of :: "string \<Rightarrow> string" where
  "summary_of command_id =
     (case map_of known_summaries command_id of
        Some s \<Rightarrow> s
      | None \<Rightarrow>
          let noun = takeWhile (\<lambda>c. c \<noteq> CHR ''.'') command_id;
              verb = drop (length noun + 1) command_id;
              noun_words = spaced noun; verb_words = spaced verb in
          (case map_of direct_summaries verb of
             Some (before, after) \<Rightarrow> before @ noun_words @ after @ ''.''
           | None \<Rightarrow> capitalise verb_words @ '' for '' @ noun_words @ ''.''))"

section \<open>Entries\<close>

record ('e, 'q) entry =
  en_request_type :: request_type
  en_executor :: 'e
  en_dependency_tier :: dependency_tier
  en_locality :: locality
  en_required :: "string list"
  en_optional :: "string list"
  en_authority :: authority
  en_effect_class :: effect_class
  en_initial_class :: initial_authorisation_class
  en_retry_class :: retry_class
  en_projections :: "projection_eligibility list"
  en_summary :: string
  en_open_world :: bool
  en_lifecycle :: command_lifecycle
  en_replacement :: "string option"
  en_preparation :: "'q option"
  en_retain_output :: bool
  en_output_owner_bound :: bool

definition en_command_id :: "('e, 'q) entry \<Rightarrow> string" where
  "en_command_id e = rt_command_id (en_request_type e)"

definition en_command_version :: "('e, 'q) entry \<Rightarrow> int" where
  "en_command_version e = rt_command_version (en_request_type e)"

definition APPLICATION_PROJECTIONS :: "projection list" where
  "APPLICATION_PROJECTIONS = [Mcp, Cli, Script, Python]"

definition RESERVED_FIELDS :: "string list" where
  "RESERVED_FIELDS = [''command_id'', ''command_version'', ''brain_operation'', ''brain_session'']"

text \<open>The checks on the two tuples of provider names, in the code's order.\<close>

definition check_providers :: "string list \<Rightarrow> string list \<Rightarrow> exn + unit" where
  "check_providers required optional =
     bind_result (check_that (list_all (\<lambda>p. \<not> py_blank p) (required @ optional)) ValueError) (\<lambda>_.
     bind_result (check_that (distinct required \<and> distinct optional) ValueError) (\<lambda>_.
     bind_result (check_that (set required \<inter> set optional = {}) ValueError) (\<lambda>_.
     check_that (required = sort required \<and> optional = sort optional) ValueError)))"

definition check_lifecycle :: "command_lifecycle \<Rightarrow> string option \<Rightarrow> exn + unit" where
  "check_lifecycle lifecycle replacement =
     (if lifecycle = ReplacedCommand
      then (case replacement of None \<Rightarrow> Inl ValueError | Some r \<Rightarrow> validate_command_id r)
      else check_that (replacement = None) ValueError)"

definition one_sentence :: "string \<Rightarrow> bool" where
  "one_sentence s = (\<not> py_blank s \<and> s \<noteq> [] \<and> last s = CHR ''.'')"

text \<open>\<open>ApplicationEntry.__post_init__\<close>: an empty summary is replaced by the default one.\<close>

definition with_summary :: "('e, 'q) entry \<Rightarrow> ('e, 'q) entry" where
  "with_summary e = (if en_summary e = [] then e\<lparr>en_summary := summary_of (en_command_id e)\<rparr> else e)"

definition check_entry :: "('e, 'q) entry \<Rightarrow> exn + ('e, 'q) entry" where
  "check_entry e =
     bind_result (validate_command_id (en_command_id e)) (\<lambda>_.
     bind_result (check_that (list_all (\<lambda>f. f \<notin> set RESERVED_FIELDS) (rt_fields (en_request_type e))) ValueError) (\<lambda>_.
     bind_result (check_that (1 \<le> en_command_version e) ValueError) (\<lambda>_.
     bind_result (check_that (en_locality e \<noteq> MachineLocal) ValueError) (\<lambda>_.
     bind_result (check_providers (en_required e) (en_optional e)) (\<lambda>_.
     bind_result (check_that (map pe_projection (en_projections e) = APPLICATION_PROJECTIONS) ValueError) (\<lambda>_.
     bind_result (check_that (one_sentence (en_summary (with_summary e))) ValueError) (\<lambda>_.
     bind_result (check_lifecycle (en_lifecycle e) (en_replacement e)) (\<lambda>_.
     Inr (with_summary e)))))))))"

definition eligible_projections :: "('e, 'q) entry \<Rightarrow> projection list" where
  "eligible_projections e = map pe_projection (filter pe_supported (en_projections e))"

section \<open>The catalogue\<close>

definition CATALOGUE_SCHEMA :: string where "CATALOGUE_SCHEMA = ''brain.command-catalogue/1''"
definition RESULT_SCHEMA :: string where "RESULT_SCHEMA = ''brain.command-result/1''"

record ('e, 'q) catalogue =
  ct_entries :: "('e, 'q) entry list"
  ct_schema :: string
  ct_result_schema :: string
  ct_interface_epoch :: int

text \<open>\<open>ApplicationCatalogue.__post_init__\<close>; the class identity of a request type is its name.\<close>

definition check_catalogue :: "('e, 'q) catalogue \<Rightarrow> exn + ('e, 'q) catalogue" where
  "check_catalogue c =
     (let es = ct_entries c; ids = map en_command_id es; types = map (rt_name \<circ> en_request_type) es in
      bind_result (check_that (ct_schema c = CATALOGUE_SCHEMA) ValueError) (\<lambda>_.
      bind_result (check_that (ct_result_schema c = RESULT_SCHEMA) ValueError) (\<lambda>_.
      bind_result (check_that (1 \<le> ct_interface_epoch c) ValueError) (\<lambda>_.
      bind_result (check_that (list_all (\<lambda>e. (en_initial_class e = ControlClass) = (case en_preparation e of None \<Rightarrow> True | Some _ \<Rightarrow> False)) es)
                    ValueError) (\<lambda>_.
      bind_result (check_that (distinct ids) ValueError) (\<lambda>_.
      bind_result (check_that (distinct types) ValueError) (\<lambda>_.
      bind_result (check_that (ids = sort ids) ValueError) (\<lambda>_. Inr c))))))))"

text \<open>\<open>resolve\<close>: the entry of the request's class, whose constants are compared again.\<close>

definition resolve :: "('e, 'q) catalogue \<Rightarrow> typed_request \<Rightarrow> exn + ('e, 'q) entry" where
  "resolve c r =
     bind_result (command_identity r) (\<lambda>(command_id, version, result_type).
     case find (\<lambda>e. rt_name (en_request_type e) = rt_name (rq_type r)) (ct_entries c) of
       None \<Rightarrow> Inl KeyError
     | Some e \<Rightarrow>
         bind_result (check_that ((en_command_id e, en_command_version e, rt_result_type (en_request_type e))
                         = (command_id, version, result_type)) RuntimeError) (\<lambda>_. Inr e))"

section \<open>Excluding a projection\<close>

definition exclude_projection :: "('e, 'q) entry \<Rightarrow> projection \<Rightarrow> string \<Rightarrow> exn + ('e, 'q) entry" where
  "exclude_projection e p reason =
     bind_result (check_that (\<not> py_blank reason) ValueError) (\<lambda>_.
     bind_result (collect_results (map (\<lambda>i. if pe_projection i = p
                    then new_projection_eligibility p False (Some (py_strip reason)) else Inr i)
                  (en_projections e))) (\<lambda>projections.
     bind_result (check_that (projections \<noteq> en_projections e) ValueError) (\<lambda>_.
     check_entry (e\<lparr>en_projections := projections\<rparr>))))"

section \<open>The fingerprint\<close>

fun tier_name :: "dependency_tier \<Rightarrow> string" where
  "tier_name Bootstrap = ''bootstrap''" | "tier_name Portable = ''portable''" | "tier_name Managed = ''managed''"

fun locality_value :: "locality \<Rightarrow> string" where
  "locality_value SelectedBrainLocal = ''selected_brain_local''"
| "locality_value SelectedBrainAndCallerLocal = ''selected_brain_and_caller_local''"
| "locality_value CallerLocal = ''caller_local''"
| "locality_value MachineLocal = ''machine_local''"

fun authority_value :: "authority \<Rightarrow> string" where
  "authority_value Reader = ''reader''"
| "authority_value Contributor = ''contributor''"
| "authority_value Maintainer = ''maintainer''"
| "authority_value Operator = ''operator''"
| "authority_value Administrator = ''administrator''"

fun effect_value :: "effect_class \<Rightarrow> string" where
  "effect_value NoEffect = ''none''"
| "effect_value DerivedCacheWrite = ''derived_cache_write''"
| "effect_value SelectedBrainMutation = ''selected_brain_mutation''"
| "effect_value SelectedBrainAndCallerLocalMutation = ''selected_brain_and_caller_local_mutation''"
| "effect_value CallerLocalMutation = ''caller_local_mutation''"
| "effect_value MachineMutation = ''machine_mutation''"

fun initial_value :: "initial_authorisation_class \<Rightarrow> string" where
  "initial_value ControlClass = ''control''"
| "initial_value ObservationClass = ''observation''"
| "initial_value ContentClass = ''content''"
| "initial_value ExceptionalClass = ''exceptional''"

fun retry_value :: "retry_class \<Rightarrow> string" where
  "retry_value SafeRetry = ''safe''" | "retry_value ReceiptRequired = ''receipt_required''"

fun projection_value :: "projection \<Rightarrow> string" where
  "projection_value Mcp = ''mcp''" | "projection_value Cli = ''cli''" | "projection_value Script = ''script''"
| "projection_value Python = ''python''" | "projection_value Launcher = ''launcher''"

fun lifecycle_value :: "command_lifecycle \<Rightarrow> string" where
  "lifecycle_value ActiveCommand = ''active''" | "lifecycle_value DeprecatedCommand = ''deprecated''"
| "lifecycle_value ReplacedCommand = ''replaced''"

definition opt_string :: "string option \<Rightarrow> json" where
  "opt_string v = (case v of None \<Rightarrow> JNull | Some s \<Rightarrow> JStr s)"

definition entry_payload :: "('e, 'q) entry \<Rightarrow> json" where
  "entry_payload e = JObj
    [(''command_id'', JStr (en_command_id e)), (''command_version'', JInt (en_command_version e)),
     (''request_type'', JStr (rt_name (en_request_type e))),
     (''result_type'', JStr (rt_result_type (en_request_type e))),
     (''dependency_tier'', JStr (tier_name (en_dependency_tier e))),
     (''locality'', JStr (locality_value (en_locality e))),
     (''required_providers'', JArr (map JStr (en_required e))),
     (''optional_providers'', JArr (map JStr (en_optional e))),
     (''authority'', JStr (authority_value (en_authority e))),
     (''effect_class'', JStr (effect_value (en_effect_class e))),
     (''initial_class'', JStr (initial_value (en_initial_class e))),
     (''retain_output'', JBool (en_retain_output e)),
     (''output_owner_bound'', JBool (en_output_owner_bound e)),
     (''retry_class'', JStr (retry_value (en_retry_class e))),
     (''summary'', JStr (en_summary e)), (''open_world'', JBool (en_open_world e)),
     (''lifecycle'', JStr (lifecycle_value (en_lifecycle e))),
     (''replacement_command_id'', opt_string (en_replacement e)),
     (''projections'', JArr (map (\<lambda>i. JArr [JStr (projection_value (pe_projection i)),
        JBool (pe_supported i), opt_string (pe_reason i)]) (en_projections e)))]"

definition catalogue_payload :: "('e, 'q) catalogue \<Rightarrow> json" where
  "catalogue_payload c = JObj
    [(''schema'', JStr (ct_schema c)), (''result_schema'', JStr (ct_result_schema c)),
     (''interface_epoch'', JInt (ct_interface_epoch c)), (''entries'', JArr (map entry_payload (ct_entries c)))]"

text \<open>
  \<open>json.dumps\<close> with its default \<open>ensure_ascii\<close>: outside ASCII, characters become \<open>\uXXXX\<close> escapes,
  a pair of surrogates above the basic plane. Such bytes occur inside string literals only, so the
  escapes can be applied to the finished text.
\<close>

definition unicode_escape :: "nat \<Rightarrow> string" where
  "unicode_escape n = [CHR 92, CHR ''u'', hex_digit (n div 4096 mod 16), hex_digit (n div 256 mod 16),
     hex_digit (n div 16 mod 16), hex_digit (n mod 16)]"

fun ascii_escape :: "string \<Rightarrow> string" where
  "ascii_escape [] = []"
| "ascii_escape (c # cs) = (let n = (of_char c :: nat) in
     if n < 128 then c # ascii_escape cs
     else case cs of
       [] \<Rightarrow> [c]
     | d # ds \<Rightarrow> (let m = (of_char d :: nat) mod 64 in
         if n < 224 then unicode_escape ((n - 192) * 64 + m) @ ascii_escape ds
         else case ds of
           [] \<Rightarrow> c # d # []
         | e # es \<Rightarrow> (let k = (of_char e :: nat) mod 64 in
             if n < 240 then unicode_escape ((n - 224) * 4096 + m * 64 + k) @ ascii_escape es
             else case es of
               [] \<Rightarrow> c # d # e # []
             | f # fs \<Rightarrow> (let p = (n - 240) * 262144 + m * 4096 + k * 64 + (of_char f :: nat) mod 64 - 65536 in
                 unicode_escape (55296 + p div 1024) @ unicode_escape (56320 + p mod 1024) @ ascii_escape fs))))"

definition fingerprint :: "(string \<Rightarrow> string) \<Rightarrow> ('e, 'q) catalogue \<Rightarrow> string" where
  "fingerprint hx c = ''sha256:'' @ hx (ascii_escape (canonical_json (catalogue_payload c)))"

section \<open>Facts\<close>

lemma not_blank_head: "(of_char c :: nat) < 128 \<Longrightarrow> \<not> ascii_space c \<Longrightarrow> \<not> py_blank (c # s)"
  by (auto simp: two_byte_space_def three_byte_space_def Let_def split: list.splits)

lemma lower_head_not_blank:
  assumes "lower_letter c"
  shows "\<not> py_blank (char_of (of_char c - 32 :: nat) # s)" "\<not> py_blank (c # s)"
proof -
  let ?n = "of_char c :: nat"
  from assms have n: "97 \<le> ?n" "?n \<le> 122" by (simp_all add: lower_letter_def Let_def)
  then have m: "(?n - 32) mod 256 = ?n - 32" by simp
  show "\<not> py_blank (c # s)"
    by (rule not_blank_head) (use n in \<open>auto simp: ascii_space_def Let_def\<close>)
  show "\<not> py_blank (char_of (?n - 32) # s)"
    by (rule not_blank_head) (use n in \<open>auto simp: ascii_space_def Let_def m simp del: of_char_mod_256\<close>)
qed

lemma known_sentences: "list_all one_sentence (map snd known_summaries)"
  by code_simp

lemma direct_heads:
  "list_all (\<lambda>(v, before, after). before \<noteq> [] \<and> (of_char (hd before) :: nat) < 128 \<and> \<not> ascii_space (hd before)) direct_summaries"
  by code_simp

lemma command_id_verb:
  assumes "command_id_pattern c"
  obtains noun verb where "c = noun @ CHR ''.'' # verb" "takeWhile (\<lambda>x. x \<noteq> CHR ''.'') c = noun"
    "drop (length (takeWhile (\<lambda>x. x \<noteq> CHR ''.'') c) + 1) c = verb" "command_part verb"
proof -
  from assms obtain noun verb where c: "c = noun @ CHR ''.'' # verb" and p: "command_part noun" "command_part verb"
    by (auto simp: command_id_pattern_iff)
  have "CHR ''.'' \<notin> set noun" using p(1) by (simp add: command_part_def slug_pattern_no_dot)
  then have tw: "takeWhile (\<lambda>x. x \<noteq> CHR ''.'') c = noun" unfolding c by (subst takeWhile_append2) auto
  show thesis by (rule that[OF c tw _ p(2)]) (simp only: tw, simp add: c)
qed

lemma summary_sentence:
  assumes "command_id_pattern c"
  shows "one_sentence (summary_of c)"
proof (cases "map_of known_summaries c")
  case (Some s)
  then have "one_sentence s" using known_sentences map_of_SomeD[OF Some] by (force simp: list_all_iff)
  with Some show ?thesis by (simp add: summary_of_def)
next
  case None
  from assms obtain noun verb where cv: "takeWhile (\<lambda>x. x \<noteq> CHR ''.'') c = noun"
    "drop (length (takeWhile (\<lambda>x. x \<noteq> CHR ''.'') c) + 1) c = verb" "command_part verb"
    by (rule command_id_verb)
  show ?thesis
  proof (cases "map_of direct_summaries verb")
    case (Some ba)
    obtain before after where ba: "ba = (before, after)" by (cases ba)
    with Some have "before \<noteq> []" "(of_char (hd before) :: nat) < 128" "\<not> ascii_space (hd before)"
      using direct_heads by (auto simp: list_all_iff dest!: map_of_SomeD)
    then have "\<not> py_blank (before @ x)" for x by (cases before) (simp_all add: not_blank_head del: py_blank.simps)
    with None Some ba cv show ?thesis by (simp add: summary_of_def Let_def one_sentence_def)
  next
    case none: None
    from cv(3) obtain d r where "verb = d # r" "lower_letter d"
      by (cases verb) (auto simp: command_part_def)
    moreover from this have "d \<noteq> CHR ''-''" by (auto simp: lower_letter_def)
    ultimately have "\<not> py_blank (capitalise (spaced verb) @ x)" for x
      by (simp add: spaced_def capitalise_def lower_head_not_blank del: py_blank.simps)
    with None none cv show ?thesis by (simp add: summary_of_def Let_def one_sentence_def)
  qed
qed

lemma check_entry_Inr:
  "check_entry e = Inr e' \<longleftrightarrow> e' = with_summary e \<and> command_id_pattern (en_command_id e)
     \<and> list_all (\<lambda>f. f \<notin> set RESERVED_FIELDS) (rt_fields (en_request_type e)) \<and> 1 \<le> en_command_version e
     \<and> en_locality e \<noteq> MachineLocal \<and> check_providers (en_required e) (en_optional e) = Inr ()
     \<and> map pe_projection (en_projections e) = APPLICATION_PROJECTIONS
     \<and> one_sentence (en_summary (with_summary e)) \<and> check_lifecycle (en_lifecycle e) (en_replacement e) = Inr ()"
  by (auto simp: check_entry_def bind_result_Inr)

lemma with_summary_fields [simp]:
  "en_command_id (with_summary e) = en_command_id e" "en_command_version (with_summary e) = en_command_version e"
  "en_projections (with_summary e) = en_projections e" "en_request_type (with_summary e) = en_request_type e"
  "with_summary (with_summary e) = with_summary e" "en_locality (with_summary e) = en_locality e"
  "en_required (with_summary e) = en_required e" "en_optional (with_summary e) = en_optional e"
  "en_lifecycle (with_summary e) = en_lifecycle e" "en_replacement (with_summary e) = en_replacement e"
  by (simp_all add: with_summary_def en_command_id_def en_command_version_def)

lemma check_entry_checked: "check_entry e = Inr e' \<Longrightarrow> check_entry e' = Inr e'"
  by (auto simp: check_entry_Inr)

lemma find_distinct:
  "distinct (map f xs) \<Longrightarrow> x \<in> set xs \<Longrightarrow> find (\<lambda>y. f y = f x) xs = Some x"
  by (induction xs) auto

lemma resolve_Inr:
  "resolve c r = Inr e \<Longrightarrow> e \<in> set (ct_entries c) \<and> rt_name (en_request_type e) = rt_name (rq_type r)
     \<and> en_command_id e = rt_command_id (rq_type r) \<and> en_command_version e = rt_command_version (rq_type r)"
  by (auto simp: resolve_def command_identity_def bind_result_Inr find_Some_iff split: option.splits)

lemma collect_map_Inr:
  "collect_results (map f xs) = Inr ys \<Longrightarrow> length ys = length xs \<and> (\<forall>i < length xs. f (xs ! i) = Inr (ys ! i))"
proof (induction xs arbitrary: ys)
  case (Cons x xs)
  then obtain y zs where "f x = Inr y" "collect_results (map f xs) = Inr zs" "ys = y # zs"
    by (auto simp: bind_result_Inr)
  with Cons.IH[of zs] show ?case by (auto simp: nth_Cons split: nat.splits)
qed simp

section \<open>Two catalogues with the same fingerprint payload\<close>

text \<open>What the fingerprint covers of an entry: everything but its callbacks and the constructor fields of its request.\<close>

definition same_contract :: "('e, 'q) entry \<Rightarrow> ('e, 'q) entry \<Rightarrow> bool" where
  "same_contract e f =
     (en_command_id e = en_command_id f \<and> en_command_version e = en_command_version f
      \<and> rt_name (en_request_type e) = rt_name (en_request_type f)
      \<and> rt_result_type (en_request_type e) = rt_result_type (en_request_type f)
      \<and> en_dependency_tier e = en_dependency_tier f \<and> en_locality e = en_locality f
      \<and> en_required e = en_required f \<and> en_optional e = en_optional f
      \<and> en_authority e = en_authority f \<and> en_effect_class e = en_effect_class f
      \<and> en_initial_class e = en_initial_class f \<and> en_retain_output e = en_retain_output f
      \<and> en_output_owner_bound e = en_output_owner_bound f \<and> en_retry_class e = en_retry_class f
      \<and> en_summary e = en_summary f \<and> en_open_world e = en_open_world f
      \<and> en_lifecycle e = en_lifecycle f \<and> en_replacement e = en_replacement f
      \<and> en_projections e = en_projections f)"

lemma enum_values_inj:
  "tier_name a = tier_name b \<longleftrightarrow> a = b" "locality_value l = locality_value m \<longleftrightarrow> l = m"
  "authority_value u = authority_value v \<longleftrightarrow> u = v" "effect_value e = effect_value f \<longleftrightarrow> e = f"
  "initial_value i = initial_value j \<longleftrightarrow> i = j" "retry_value r = retry_value t \<longleftrightarrow> r = t"
  "projection_value p = projection_value q \<longleftrightarrow> p = q" "lifecycle_value x = lifecycle_value y \<longleftrightarrow> x = y"
proof -
  show "tier_name a = tier_name b \<longleftrightarrow> a = b" by (cases a; cases b) simp_all
  show "locality_value l = locality_value m \<longleftrightarrow> l = m" by (cases l; cases m) simp_all
  show "authority_value u = authority_value v \<longleftrightarrow> u = v" by (cases u; cases v) simp_all
  show "effect_value e = effect_value f \<longleftrightarrow> e = f" by (cases e; cases f) simp_all
  show "initial_value i = initial_value j \<longleftrightarrow> i = j" by (cases i; cases j) simp_all
  show "retry_value r = retry_value t \<longleftrightarrow> r = t" by (cases r; cases t) simp_all
  show "projection_value p = projection_value q \<longleftrightarrow> p = q" by (cases p; cases q) simp_all
  show "lifecycle_value x = lifecycle_value y \<longleftrightarrow> x = y" by (cases x; cases y) simp_all
qed

lemma opt_string_inj: "opt_string v = opt_string w \<longleftrightarrow> v = w"
  by (auto simp: opt_string_def split: option.splits)

lemma sort_opt_string [simp]: "sort_json (opt_string v) = opt_string v"
  by (simp add: opt_string_def split: option.splits)

definition projection_json :: "projection_eligibility \<Rightarrow> json" where
  "projection_json i = JArr [JStr (projection_value (pe_projection i)), JBool (pe_supported i), opt_string (pe_reason i)]"

lemma projection_json_inj: "inj projection_json"
  by (rule injI) (auto simp: projection_json_def enum_values_inj opt_string_inj intro: projection_eligibility.equality)

lemma JStr_inj: "inj JStr"
  by (simp add: inj_on_def)

lemma sort_items_strings [simp]: "sort_items (map JStr xs) = map JStr xs"
  by (induction xs) simp_all

lemma sort_items_projections [simp]: "sort_items (map projection_json xs) = map projection_json xs"
  by (induction xs) (simp_all add: projection_json_def)

lemma sort_entry_payload: "sort_json (entry_payload e) = JObj
  [(''authority'', JStr (authority_value (en_authority e))),
   (''command_id'', JStr (en_command_id e)), (''command_version'', JInt (en_command_version e)),
   (''dependency_tier'', JStr (tier_name (en_dependency_tier e))),
   (''effect_class'', JStr (effect_value (en_effect_class e))),
   (''initial_class'', JStr (initial_value (en_initial_class e))),
   (''lifecycle'', JStr (lifecycle_value (en_lifecycle e))),
   (''locality'', JStr (locality_value (en_locality e))),
   (''open_world'', JBool (en_open_world e)),
   (''optional_providers'', JArr (map JStr (en_optional e))),
   (''output_owner_bound'', JBool (en_output_owner_bound e)),
   (''projections'', JArr (map projection_json (en_projections e))),
   (''replacement_command_id'', opt_string (en_replacement e)),
   (''request_type'', JStr (rt_name (en_request_type e))),
   (''required_providers'', JArr (map JStr (en_required e))),
   (''result_type'', JStr (rt_result_type (en_request_type e))),
   (''retain_output'', JBool (en_retain_output e)),
   (''retry_class'', JStr (retry_value (en_retry_class e))),
   (''summary'', JStr (en_summary e))]"
  unfolding entry_payload_def projection_json_def[symmetric] by simp

lemma entry_payload_contract:
  "sort_json (entry_payload e) = sort_json (entry_payload f) \<Longrightarrow> same_contract e f"
  unfolding sort_entry_payload same_contract_def
  by (simp add: enum_values_inj opt_string_inj inj_map_eq_map[OF projection_json_inj] inj_map_eq_map[OF JStr_inj])

lemma sort_catalogue_payload: "sort_json (catalogue_payload c) = JObj
  [(''entries'', JArr (map (sort_json \<circ> entry_payload) (ct_entries c))), (''interface_epoch'', JInt (ct_interface_epoch c)),
   (''result_schema'', JStr (ct_result_schema c)), (''schema'', JStr (ct_schema c))]"
  by (simp add: catalogue_payload_def sort_items_map)

lemma same_payload_contracts:
  assumes "sort_json (catalogue_payload c) = sort_json (catalogue_payload d)"
  shows "list_all2 same_contract (ct_entries c) (ct_entries d) \<and> ct_interface_epoch c = ct_interface_epoch d"
  using assms unfolding sort_catalogue_payload
  by (auto simp: list_all2_conv_all_nth list_eq_iff_nth_eq intro!: entry_payload_contract)

lemma ascii_escape_id: "list_all (\<lambda>c. (of_char c :: nat) < 128) s \<Longrightarrow> ascii_escape s = s"
  by (induction s rule: ascii_escape.induct) (auto simp: Let_def)

end
