(* ===== verification/Catalogue_Properties.thy ===== *)
theory Catalogue_Properties
  imports Catalogue
begin

text \<open>
  What the command catalogue promises: a request resolves to its one entry, default summaries are
  sentences, excluding a projection changes only that projection, and the fingerprint covers the
  whole contract.
\<close>

definition demo_type :: request_type where
  "demo_type = \<lparr>rt_name = ''m:R'', rt_command_id = ''note.read'', rt_command_version = 1,
     rt_result_type = ''m:P'', rt_fields = [''path'']\<rparr>"

definition demo_entry :: "(unit, unit) entry" where
  "demo_entry = \<lparr>en_request_type = demo_type, en_executor = (), en_dependency_tier = Portable,
     en_locality = SelectedBrainLocal, en_required = [], en_optional = [], en_authority = Reader,
     en_effect_class = NoEffect, en_initial_class = ObservationClass, en_retry_class = SafeRetry,
     en_projections = map (\<lambda>p. \<lparr>pe_projection = p, pe_supported = True, pe_reason = None\<rparr>) APPLICATION_PROJECTIONS,
     en_summary = ''Read one note.'', en_open_world = False, en_lifecycle = ActiveCommand, en_replacement = None,
     en_preparation = Some (), en_retain_output = True, en_output_owner_bound = False\<rparr>"

definition demo_catalogue :: "(unit, unit) catalogue" where
  "demo_catalogue = \<lparr>ct_entries = [demo_entry], ct_schema = CATALOGUE_SCHEMA,
     ct_result_schema = RESULT_SCHEMA, ct_interface_epoch = 3\<rparr>"

lemma demo_catalogue_checks:
  "check_entry demo_entry = Inr demo_entry" "check_catalogue demo_catalogue = Inr demo_catalogue"
  by code_simp+

text \<open>
  Resolution in a checked catalogue: a request of an entry's class resolves to that entry and
  to no other, with the identity of the class; a request of a class that has no entry is refused
  with a \<open>KeyError\<close>. The second comparison of identities never fails.
\<close>

theorem requests_resolve:
  assumes "check_catalogue c = Inr c'" "rt_command_id (rq_type r) \<noteq> []"
    and "\<forall>e \<in> set (ct_entries c). rt_name (en_request_type e) = rt_name (rq_type r) \<longrightarrow> en_request_type e = rq_type r"
  shows "resolve c r =
     (case filter (\<lambda>e. en_request_type e = rq_type r) (ct_entries c) of e # _ \<Rightarrow> Inr e | [] \<Rightarrow> Inl KeyError)
   \<and> length (filter (\<lambda>e. en_request_type e = rq_type r) (ct_entries c)) \<le> 1"
proof -
  let ?P = "\<lambda>e. rt_name (en_request_type e) = rt_name (rq_type r)"
  from assms(1) have d: "distinct (map (rt_name \<circ> en_request_type) (ct_entries c))"
    by (auto simp: check_catalogue_def bind_result_Inr Let_def)
  have f: "filter (\<lambda>e. en_request_type e = rq_type r) (ct_entries c) = filter ?P (ct_entries c)"
    by (rule filter_cong) (use assms(3) in auto)
  have one: "length (filter ?P es) \<le> 1 \<and> find ?P es = (case filter ?P es of [] \<Rightarrow> None | e # _ \<Rightarrow> Some e)"
    if "distinct (map (rt_name \<circ> en_request_type) es)" for es :: "('a, 'b) entry list"
    using that
  proof (induction es)
    case (Cons e es)
    then have "rt_name (en_request_type e) \<notin> (rt_name \<circ> en_request_type) ` set es" by simp
    then have "?P e \<Longrightarrow> filter ?P es = []" by (force simp: filter_empty_conv)
    with Cons show ?case by auto
  qed simp
  show ?thesis
  proof (cases "filter ?P (ct_entries c)")
    case Nil
    then show ?thesis using one[OF d] assms(2) by (simp add: f resolve_def command_identity_def)
  next
    case (Cons e rest)
    then have "e \<in> set (filter ?P (ct_entries c))" by simp
    then have "en_request_type e = rq_type r" using assms(3) by auto
    then show ?thesis using one[OF d] Cons assms(2)
      by (simp add: f resolve_def command_identity_def en_command_id_def en_command_version_def)
  qed
qed

theorem requests_resolve_witness:
  "resolve demo_catalogue \<lparr>rq_type = demo_type, rq_wire = JObj []\<rparr> = Inr demo_entry"
  using requests_resolve[OF demo_catalogue_checks(2), of "\<lparr>rq_type = demo_type, rq_wire = JObj []\<rparr>"]
  by (simp add: demo_catalogue_def demo_type_def demo_entry_def)

text \<open>
  Every command gets a usable summary: the default summary of a well-formed command identifier
  is one non-empty sentence, so an entry without a summary of its own is never refused for it.
\<close>

theorem default_summary_is_a_sentence:
  assumes "command_id_pattern c"
  shows "one_sentence (summary_of c)"
  using assms by (rule summary_sentence)

theorem default_summary_is_a_sentence_witness:
  "one_sentence (summary_of ''note.mark-done'') \<and> summary_of ''note.mark-done'' = ''Mark done for note.''"
proof
  have "command_id_pattern ''note.mark-done''" by code_simp
  then show "one_sentence (summary_of ''note.mark-done'')" by (rule default_summary_is_a_sentence)
  show "summary_of ''note.mark-done'' = ''Mark done for note.''" by code_simp
qed

text \<open>
  Excluding a projection removes it from the eligible ones, with the stripped reason, keeps
  every other projection and every other field, and yields an entry that passes its checks.
\<close>

theorem exclusion_is_local:
  assumes "exclude_projection e p reason = Inr e'" "check_entry e = Inr e"
  shows "check_entry e' = Inr e' \<and> e' = e\<lparr>en_projections := en_projections e'\<rparr>
     \<and> eligible_projections e' = filter (\<lambda>q. q \<noteq> p) (eligible_projections e)
     \<and> (\<forall>i \<in> set (en_projections e'). pe_projection i = p \<longrightarrow> pe_reason i = Some (py_strip reason))"
proof -
  let ?f = "\<lambda>i. if pe_projection i = p then new_projection_eligibility p False (Some (py_strip reason)) else Inr i"
  from assms(1) obtain ps where ps: "collect_results (map ?f (en_projections e)) = Inr ps"
    and e': "check_entry (e\<lparr>en_projections := ps\<rparr>) = Inr e'"
    by (auto simp: exclude_projection_def bind_result_Inr)
  from assms(2) have "with_summary e = e" "one_sentence (en_summary (with_summary e))" by (auto simp: check_entry_Inr)
  then have "en_summary e \<noteq> []" by (simp add: one_sentence_def)
  then have upd: "e' = e\<lparr>en_projections := ps\<rparr>" using e' by (simp add: check_entry_Inr with_summary_def)
  have "collect_results (map ?f is) = Inr ps \<Longrightarrow>
      map pe_projection (filter pe_supported ps) = filter (\<lambda>q. q \<noteq> p) (map pe_projection (filter pe_supported is))
      \<and> (\<forall>i \<in> set ps. pe_projection i = p \<longrightarrow> pe_reason i = Some (py_strip reason))" for "is"
  proof (induction "is" arbitrary: ps)
    case (Cons i "is")
    from Cons.prems obtain q qs where i: "?f i = Inr q" and qs: "collect_results (map ?f is) = Inr qs" and "ps = q # qs"
      by (auto simp: bind_result_Inr simp del: split_paired_Ex)
    with Cons.IH[OF qs] show ?case
      by (auto simp: new_projection_eligibility_def bind_result_Inr split: if_splits)
  qed simp
  from this[OF ps] show ?thesis using check_entry_checked[OF e'] by (simp add: upd eligible_projections_def)
qed

theorem exclusion_is_local_witness:
  "\<exists>e'. exclude_projection demo_entry Script '' no '' = Inr e' \<and> eligible_projections e' = [Mcp, Cli, Python]"
proof -
  have "case exclude_projection demo_entry Script '' no '' of Inl _ \<Rightarrow> False | Inr _ \<Rightarrow> True" by code_simp
  then obtain e' where e': "exclude_projection demo_entry Script '' no '' = Inr e'" by (auto split: sum.splits)
  have "eligible_projections demo_entry = [Mcp, Cli, Script, Python]" by code_simp
  with exclusion_is_local[OF e' demo_catalogue_checks(1)] e' show ?thesis by auto
qed

text \<open>
  The fingerprint identifies the interface: two catalogues in ASCII with the same fingerprint
  agree, entry by entry, on every field of the contract, unless their texts collide under SHA-256.
\<close>

theorem fingerprint_covers_contract:
  assumes "fingerprint hx c = fingerprint hx d"
    and "list_all (\<lambda>b. (of_char b :: nat) < 128) (canonical_json (catalogue_payload c))"
    and "list_all (\<lambda>b. (of_char b :: nat) < 128) (canonical_json (catalogue_payload d))"
    and "inj_on hx {canonical_json (catalogue_payload c), canonical_json (catalogue_payload d)}"
  shows "list_all2 same_contract (ct_entries c) (ct_entries d) \<and> ct_interface_epoch c = ct_interface_epoch d"
proof -
  from assms(1) have "hx (canonical_json (catalogue_payload c)) = hx (canonical_json (catalogue_payload d))"
    unfolding fingerprint_def ascii_escape_id[OF assms(2)] ascii_escape_id[OF assms(3)] by (rule same_append_eq[THEN iffD1])
  then have "canonical_json (catalogue_payload c) = canonical_json (catalogue_payload d)"
    by (rule inj_onD[OF assms(4)]) (rule insertI1, rule insertI2, rule singletonI)
  then show ?thesis by (rule same_payload_contracts[OF canonical_json_inj])
qed

theorem fingerprint_covers_contract_witness:
  "list_all2 same_contract (ct_entries demo_catalogue) (ct_entries demo_catalogue)"
proof -
  have ascii: "list_all (\<lambda>b. (of_char b :: nat) < 128) (canonical_json (catalogue_payload demo_catalogue))"
    unfolding canonical_json_def sort_catalogue_payload o_def sort_entry_payload by code_simp
  have "inj_on (\<lambda>t. t) {canonical_json (catalogue_payload demo_catalogue), canonical_json (catalogue_payload demo_catalogue)}"
    by simp
  from fingerprint_covers_contract[OF refl ascii ascii this] show ?thesis by simp
qed

end
