(* ===== verification/Invocation.thy ===== *)
theory Invocation
  imports Consent_Service Receipt_Ledger Catalogue
begin

text \<open>
  \<open>_application/authorisation.py\<close>, with the trusted facts of \<open>_application/context.py\<close>: preparing
  an operation through its installed owner, and one command's admission, durable attribution and
  final consumption of its consent.

  The state of an invocation extends that of the consent service (\<open>svc\<close>, so that its operations
  apply unchanged) by the owned ledger, the clock, the fields of \<open>InvocationAuthorisation\<close> that
  change, and everything else (\<open>iv_world\<close>), which only command owners touch. Between two accesses
  of this process to the ledger other processes may change it: \<open>iv_others\<close>. Diagnostics reports
  never change a result and are left out.
\<close>

section \<open>Trusted context\<close>

record capability_snapshot =
  cs_token :: string
  cs_freshness :: snapshot_freshness
  cs_observed_at :: stamp
  cs_capabilities :: "(string \<times> availability) list"

definition check_snapshot :: "capability_snapshot \<Rightarrow> exn + capability_snapshot" where
  "check_snapshot c =
     bind_result (check_that (list_all (\<lambda>(n, _). \<not> py_blank n) (cs_capabilities c)) ValueError) (\<lambda>_.
     bind_result (check_that (\<not> py_blank (cs_token c)) ValueError) (\<lambda>_.
     bind_result (check_that (aware (cs_observed_at c)) ValueError) (\<lambda>_.
     bind_result (check_that (distinct (map fst (cs_capabilities c))) ValueError) (\<lambda>_. Inr c))))"

definition availability_of :: "capability_snapshot \<Rightarrow> string \<Rightarrow> availability" where
  "availability_of c name =
     (case map_of (cs_capabilities c) name of None \<Rightarrow> UnknownAvailability | Some a \<Rightarrow> a)"

text \<open>\<open>ProviderBindings\<close> by the identities of its providers.\<close>

definition check_bindings :: "string list \<Rightarrow> exn + string list" where
  "check_bindings names =
     bind_result (check_that (list_all (\<lambda>n. \<not> py_blank n) names) ValueError) (\<lambda>_.
     bind_result (check_that (distinct names) ValueError) (\<lambda>_. Inr names))"

text \<open>Paths are given resolved, as text.\<close>

record invocation_context =
  ic_brain_id :: string
  ic_vault_root :: string
  ic_profile :: string
  ic_tier :: dependency_tier
  ic_capabilities :: capability_snapshot
  ic_providers :: "string list"
  ic_correlation_id :: string
  ic_invocation_id :: string
  ic_operation_id :: "string option"
  ic_dry_run :: bool
  ic_workspace_dir :: "string option"

definition absolute :: "string \<Rightarrow> bool" where
  "absolute p = starts_with ''/'' p"

definition check_invocation_context :: "invocation_context \<Rightarrow> exn + invocation_context" where
  "check_invocation_context c =
     bind_result (check_that (\<not> py_blank (ic_brain_id c) \<and> absolute (ic_vault_root c)) ValueError) (\<lambda>_.
     bind_result (check_that (\<not> py_blank (ic_profile c)) ValueError) (\<lambda>_.
     bind_result (check_that (\<not> py_blank (ic_correlation_id c) \<and> \<not> py_blank (ic_invocation_id c)) ValueError) (\<lambda>_.
     bind_result (check_that (case ic_workspace_dir c of None \<Rightarrow> True | Some w \<Rightarrow> absolute w) ValueError) (\<lambda>_.
     Inr c))))"

section \<open>State\<close>

record invocation_authorisation =
  ia_operation_id :: "string option"
  ia_source :: string
  ia_frozen_inputs :: "json option"
  ia_pin_namespace :: "string option"

text \<open>\<open>requires_binding\<close>\<close>

definition requires_binding :: "invocation_authorisation \<Rightarrow> bool" where
  "requires_binding ia = (ia_operation_id ia \<noteq> None)"

record 'w invocation = svc +
  iv_ledger :: receipt_dir
  iv_legacy :: receipt_dir
  iv_others :: "nat \<Rightarrow> receipt_dir \<Rightarrow> receipt_dir"
  iv_accesses :: nat
  iv_clock :: "nat \<Rightarrow> stamp"
  iv_readings :: nat
  iv_authorisation :: "invocation_authorisation option"
  iv_control :: "admission_intent option"
  iv_proof :: "admission_proof option"
  iv_intent :: "admission_intent option"
  iv_finalised :: bool
  iv_world :: 'w

type_synonym ('w, 'a) step = "('w invocation, 'a) prog"

definition read_clock :: "('w, stamp) step" where
  "read_clock s = (Inr (iv_clock s (iv_readings s)), s\<lparr>iv_readings := iv_readings s + 1\<rparr>)"

text \<open>One locked operation of the ledger, after whatever other processes did to it.\<close>

definition on_ledger :: "(receipt_dir \<Rightarrow> receipt_dir \<Rightarrow> (exn + 'a) \<times> receipt_dir) \<Rightarrow> ('w, 'a) step" where
  "on_ledger f s =
     (let (r, d) = f (iv_legacy s) (iv_others s (iv_accesses s) (iv_ledger s))
      in (r, s\<lparr>iv_ledger := d, iv_accesses := iv_accesses s + 1\<rparr>))"

definition ledger_begin :: "owned_store \<Rightarrow> admission_intent \<Rightarrow> ('w, bool) step" where
  "ledger_begin os intent = bind_prog read_clock (\<lambda>now. on_ledger (\<lambda>legacy. owned_begin os legacy now intent))"

definition ledger_finalise :: "owned_store \<Rightarrow> invocation_outcome \<Rightarrow> ('w, unit) step" where
  "ledger_finalise os outcome =
     bind_prog read_clock (\<lambda>now. on_ledger (\<lambda>legacy. owned_finalise os legacy now outcome))"

definition ledger_read :: "owned_store \<Rightarrow> string \<Rightarrow> ('w, owned_lookup) step" where
  "ledger_read os reference =
     bind_prog read_clock (\<lambda>now.
     on_ledger (\<lambda>legacy d. (owned_read os legacy now reference d d, d)))"

section \<open>Bindings of an execution\<close>

text \<open>\<open>_execution_binding\<close>: the execution options become part of what was reviewed.\<close>

definition execution_options :: "invocation_context \<Rightarrow> json" where
  "execution_options c = JObj [(''dry_run'', JBool (ic_dry_run c)),
     (''workspace_dir'', case ic_workspace_dir c of None \<Rightarrow> JNull | Some w \<Rightarrow> JStr w)]"

definition with_execution :: "json \<Rightarrow> json \<Rightarrow> json" where
  "with_execution options v =
     (case v of JObj kvs \<Rightarrow> sort_json (JObj (AList.update ''execution'' options kvs)) | _ \<Rightarrow> v)"

definition execution_binding :: "operation_binding \<Rightarrow> invocation_context \<Rightarrow> exn + operation_binding" where
  "execution_binding b c =
     (let options = execution_options c in
      check_binding (b\<lparr>ob_request := with_execution options (ob_request b),
                       ob_review := with_execution options (ob_review b)\<rparr>))"

text \<open>\<open>_check_context\<close>\<close>

definition check_owner :: "invocation_context \<Rightarrow> ('w, unit) step" where
  "check_owner c = lift_result (\<lambda>s. check_that
     (ic_brain_id c = ci_brain_id (sv_identity s) \<and> ic_vault_root c = ci_vault_root (sv_identity s)) ValueError)"

section \<open>Preparation\<close>

text \<open>
  \<open>OperationPreparation\<close>: the planner of a command family. It is given the context, the private
  namespace it may retain content in (none once inputs are frozen), the request and the frozen inputs.
\<close>

record 'w preparation =
  pr_planner :: "invocation_context \<Rightarrow> string option \<Rightarrow> typed_request \<Rightarrow> json option \<Rightarrow> ('w, operation_binding) step"
  pr_owner_guarded :: bool

definition same_command :: "('e, 'q) entry \<Rightarrow> operation_binding \<Rightarrow> bool" where
  "same_command e b = (ob_command_id b = en_command_id e \<and> ob_command_version b = en_command_version e)"

text \<open>\<open>_discard_after_failure\<close>: a failing disposal is only reported.\<close>

definition discard_quietly :: "('w, unit) step \<Rightarrow> ('w, unit) step" where
  "discard_quietly discard s = (Inr (), snd (discard s))"

text \<open>The owner's plan for the request, bound to the execution options.\<close>

definition plan_operation ::
  "invocation_context \<Rightarrow> ('e, 'w preparation) entry \<Rightarrow> 'w preparation \<Rightarrow> string \<Rightarrow> typed_request \<Rightarrow>
   ('w, operation_binding) step" where
  "plan_operation c e q namespace request =
     bind_prog (pr_planner q c (Some namespace) request None) (\<lambda>b.
     bind_prog (lift_result (\<lambda>s. check_that (same_command e b) RuntimeError)) (\<lambda>_.
     lift_result (\<lambda>s. execution_binding b c)))"

definition request_digest :: "invocation_context \<Rightarrow> typed_request \<Rightarrow> 'x svc_scheme \<Rightarrow> exn + string" where
  "request_digest c request s =
     bind_result (bind_operation (sv_hex s) (request_of request) [] [] []) (\<lambda>b.
     bind_result (execution_binding b c) (\<lambda>b'.
     Inr (content_digest (sv_hex s) (request_text b'))))"

text \<open>The end of \<open>prepare\<close>: a copy that lost against a concurrent identical request is disposed of.\<close>

definition settle_copy ::
  "(string \<Rightarrow> ('w, unit) step) \<Rightarrow> string \<Rightarrow> prepared_view \<Rightarrow> ('w, prepared_view) step" where
  "settle_copy discard namespace view =
     (case view of
        DiscardedView oid digest \<Rightarrow> bind_prog (discard namespace) (\<lambda>_. return_prog view)
      | LiveView v \<Rightarrow>
          if ov_state v = Discarded then bind_prog (discard namespace) (\<lambda>_. return_prog view)
          else (\<lambda>s. case svc_inspect (ov_operation_id v) s of
             (Inl e, s1) \<Rightarrow>
               if e = ConsentError ''operation_missing''
               then bind_prog (discard namespace) (\<lambda>_.
                    return_prog (DiscardedView (ov_operation_id v) (ov_digest v))) s1
               else (Inl e, s1)
           | (Inr (retained, valid), s1) \<Rightarrow>
               if op_pin_namespace retained \<noteq> Some namespace
               then bind_prog (discard namespace) (\<lambda>_. return_prog view) s1
               else (Inr view, s1)))"

text \<open>\<open>PreparationCoordinator.prepare\<close>; \<open>discard n\<close> is \<open>content_for(n).discard()\<close>.\<close>

definition coordinator_prepare ::
  "('e, 'w preparation) catalogue \<Rightarrow> (string \<Rightarrow> ('w, unit) step) \<Rightarrow> invocation_context \<Rightarrow> typed_request \<Rightarrow>
   string \<Rightarrow> (operation_view \<Rightarrow> exn + unit) \<Rightarrow> ('w, prepared_view) step" where
  "coordinator_prepare cat discard c request request_id validate_view =
     bind_prog (check_owner c) (\<lambda>_.
     bind_prog (lift_result (\<lambda>s. resolve cat request)) (\<lambda>e.
     bind_prog (check_permission (en_command_id e) True) (\<lambda>_.
     case en_preparation e of
       None \<Rightarrow> raise_prog (ConsentError ''unsupported_preparation'')
     | Some q \<Rightarrow>
         bind_prog (lift_result (request_digest c request)) (\<lambda>digest.
         bind_prog (preparation_retry request_id digest) (\<lambda>prior.
         case prior of
           Some view \<Rightarrow> return_prog view
         | None \<Rightarrow>
             bind_prog draw_uuid (\<lambda>u.
             let namespace = ''preparation-'' @ u in
             bind_prog (on_error (\<lambda>_. True) (plan_operation c e q namespace request)
                         (discard_quietly (discard namespace))) (\<lambda>binding.
             bind_prog (on_error (\<lambda>x. is_consent_error x \<or> is_value_error x)
                         (svc_prepare binding request_id (Some namespace) validate_view)
                         (discard_quietly (discard namespace))) (\<lambda>view.
             settle_copy discard namespace view)))))))) "

text \<open>\<open>PreparationCoordinator.discard\<close>; \<open>None\<close> when a listing of the store would not end.\<close>

fun discard_each ::
  "(string \<Rightarrow> ('w, unit) step) \<Rightarrow> operation_record list \<Rightarrow> bool \<Rightarrow> ('w, bool option) step" where
  "discard_each discard [] changed = return_prog (Some changed)"
| "discard_each discard (r # rs) changed =
     bind_prog (case truthy (op_pin_namespace r) of None \<Rightarrow> return_prog () | Some n \<Rightarrow> discard n) (\<lambda>_.
     bind_prog (svc_reduce [] [op_operation_id r] [] False) (\<lambda>reduced.
     case reduced of
       None \<Rightarrow> return_prog None
     | Some b \<Rightarrow> discard_each discard rs (b \<or> changed)))"

definition coordinator_discard :: "(string \<Rightarrow> ('w, unit) step) \<Rightarrow> string list \<Rightarrow> ('w, bool option) step" where
  "coordinator_discard discard operation_ids =
     bind_prog (begin_discard operation_ids) (\<lambda>rs. discard_each discard rs False)"

section \<open>One command's admission\<close>

definition default_source :: "consent_identity \<Rightarrow> string" where
  "default_source i = (if ci_kind i = ''mcp-instance'' then ''host-request'' else ''cli-request'')"

definition new_authorisation :: "string option \<Rightarrow> string option \<Rightarrow> ('w, invocation_authorisation) step" where
  "new_authorisation operation_id source s =
     (Inr \<lparr>ia_operation_id = operation_id,
       ia_source = (case truthy source of Some x \<Rightarrow> x | None \<Rightarrow> default_source (sv_identity s)),
       ia_frozen_inputs = None, ia_pin_namespace = None\<rparr>, s)"

text \<open>\<open>InvocationAuthorisation.__init__\<close>\<close>

definition init_authorisation ::
  "invocation_context \<Rightarrow> ('e, 'q) entry \<Rightarrow> string option \<Rightarrow> string option \<Rightarrow> ('w, invocation_authorisation) step" where
  "init_authorisation c e operation_id source =
     bind_prog (check_owner c) (\<lambda>_.
     bind_prog (new_authorisation operation_id source) (\<lambda>ia.
     bind_prog (check_permission (en_command_id e) False) (\<lambda>_.
     case operation_id of
       None \<Rightarrow> return_prog ia
     | Some oid \<Rightarrow>
         bind_prog (svc_inspect oid) (\<lambda>(descriptor, valid).
         bind_prog (lift_result (\<lambda>s. binding_from_wire (binding_to_wire (op_binding descriptor)))) (\<lambda>b.
         bind_prog (lift_result (\<lambda>s. check_that (same_command e b) (ConsentError ''stale_operation''))) (\<lambda>_.
         bind_prog (lift_result (\<lambda>s. check_that valid (ConsentError ''stale_operation''))) (\<lambda>_.
         return_prog (ia\<lparr>ia_frozen_inputs := Some (ob_frozen_inputs b),
                         ia_pin_namespace := truthy (op_pin_namespace descriptor)\<rparr>))))))))"

definition basis_value :: "admission_basis \<Rightarrow> string" where
  "basis_value b = (case b of InitialBasis \<Rightarrow> ''initial'' | GrantBasis sc \<Rightarrow> scope_value sc)"

definition intent_of ::
  "(string \<Rightarrow> string) \<Rightarrow> invocation_authorisation \<Rightarrow> operation_binding option \<Rightarrow> admission_proof \<Rightarrow> stamp \<Rightarrow> admission_intent" where
  "intent_of hx ia binding p now =
     \<lparr>ai_reference = ap_invocation_id p, ai_command_id = ap_command_id p,
      ai_command_version = ap_command_version p, ai_recorded_at = now, ai_basis = basis_value (ap_basis p),
      ai_generation = ap_generation p, ai_source = ia_source ia, ai_grant_id = ap_grant_id p,
      ai_operation_id = ap_operation_id p, ai_operation_digest = map_option (binding_digest hx) binding,
      ai_request_id = ap_request_id p, ai_permission_change = None\<rparr>"

text \<open>A claim on the ledger that must be a new one: a conflict and a retry are both \<open>operation_entered\<close>.\<close>

definition claim_intent :: "owned_store \<Rightarrow> admission_intent \<Rightarrow> ('w, unit) step" where
  "claim_intent os intent s =
     (case ledger_begin os intent s of
        (Inl e, s1) \<Rightarrow> (Inl (if e = ReceiptIntentConflict then ConsentError ''operation_entered'' else e), s1)
      | (Inr created, s1) \<Rightarrow> (check_that created (ConsentError ''operation_entered''), s1))"

text \<open>The nested function \<open>record_intent\<close> of \<open>admit\<close>.\<close>

definition record_intent ::
  "owned_store \<Rightarrow> invocation_authorisation \<Rightarrow> operation_binding option \<Rightarrow> admission_proof \<Rightarrow> ('w, unit) step" where
  "record_intent os ia binding p =
     bind_prog (lift_result (\<lambda>s. outcome_reference (ap_invocation_id p))) (\<lambda>_.
     bind_prog read_clock (\<lambda>now s.
     bind_prog (lift_result (\<lambda>s. check_intent (intent_of (sv_hex s) ia binding p now))) (\<lambda>intent.
     bind_prog (claim_intent os intent) (\<lambda>_ s.
     (Inr (), s\<lparr>iv_intent := Some intent\<rparr>))) s))"

definition optional_binding ::
  "invocation_context \<Rightarrow> operation_binding option \<Rightarrow> exn + operation_binding option" where
  "optional_binding c binding =
     (case binding of None \<Rightarrow> Inr None | Some b \<Rightarrow> bind_result (execution_binding b c) (\<lambda>x. Inr (Some x)))"

text \<open>\<open>InvocationAuthorisation.admit\<close>\<close>

definition inv_admit ::
  "owned_store \<Rightarrow> invocation_context \<Rightarrow> ('e, 'q) entry \<Rightarrow> invocation_authorisation \<Rightarrow> operation_binding option \<Rightarrow>
   ('w, unit) step" where
  "inv_admit os c e ia binding =
     bind_prog (lift_result (\<lambda>s. check_that
        (iv_proof s = None \<and> iv_intent s = None \<and> \<not> iv_finalised s) RuntimeError)) (\<lambda>_.
     bind_prog (lift_result (\<lambda>s. optional_binding c binding)) (\<lambda>bound.
     bind_prog (svc_admit
        \<lparr>aq_command_id = en_command_id e, aq_command_version = en_command_version e,
         aq_invocation_id = ic_invocation_id c, aq_operation_id = ia_operation_id ia, aq_binding = bound\<rparr>
        (if en_effect_class e \<noteq> NoEffect then Some (record_intent os ia bound) else None)) (\<lambda>p s.
     (Inr (), s\<lparr>iv_proof := Some p\<rparr>))))"

text \<open>\<open>admit_query\<close>: live queries enter before dispatch; guarded owners enter by themselves.\<close>

definition admit_query ::
  "owned_store \<Rightarrow> invocation_context \<Rightarrow> ('e, 'w preparation) entry \<Rightarrow> invocation_authorisation \<Rightarrow> typed_request \<Rightarrow>
   ('w, unit) step" where
  "admit_query os c e ia request =
     (case en_preparation e of
        None \<Rightarrow> return_prog ()
      | Some q \<Rightarrow>
          if pr_owner_guarded q then return_prog ()
          else bind_prog (if requires_binding ia
                          then bind_prog (pr_planner q c None request (ia_frozen_inputs ia)) (\<lambda>b. return_prog (Some b))
                          else return_prog None) (\<lambda>binding.
               inv_admit os c e ia binding))"

section \<open>Outcomes\<close>

text \<open>\<open>invocation_outcome\<close>: what the outcome says of execution, state and effects.\<close>

definition outcome_facts ::
  "effect_class \<Rightarrow> 'p command_result option \<Rightarrow> execution_state \<times> receipt_state \<times> committed_effect list" where
  "outcome_facts effect result =
     (case result of
        Some (Ok r) \<Rightarrow> (Succeeded, if ok_effects r = [] then NoneState else Committed, ok_effects r)
      | Some (Partial r) \<Rightarrow> (PartialRun, KnownPartial, pt_effects r)
      | None \<Rightarrow> (UnknownRun, if effect = NoEffect then NoneState else UnknownState, [])
      | Some (Error r) \<Rightarrow>
          if ce_code (er_error r) = CommandOutcomeUnknown
          then (UnknownRun, if effect = NoEffect then NoneState else UnknownState, [])
          else if er_effects_unknown r then (UnknownRun, UnknownState, [])
          else (Failed, NoneState, []))"

definition invocation_outcome_of ::
  "('e, 'q) entry \<Rightarrow> invocation_context \<Rightarrow> 'p command_result option \<Rightarrow> ('w, invocation_outcome) step" where
  "invocation_outcome_of e c result =
     (let (execution, state, effects) = outcome_facts (en_effect_class e) result in
      bind_prog (lift_result (\<lambda>s. outcome_reference (ic_invocation_id c))) (\<lambda>_.
      bind_prog read_clock (\<lambda>now.
      bind_prog (lift_result (\<lambda>s. check_receipt
         \<lparr>rc_reference = ic_invocation_id c, rc_command_id = en_command_id e,
          rc_command_version = en_command_version e, rc_state = state, rc_recorded_at = now,
          rc_committed_effects = effects\<rparr>)) (\<lambda>receipt.
      lift_result (\<lambda>s. check_outcome
         \<lparr>io_receipt = receipt, io_execution = execution, io_config_revision = None\<rparr>)))))"

definition publish_outcome ::
  "owned_store \<Rightarrow> ('e, 'q) entry \<Rightarrow> invocation_context \<Rightarrow> 'p command_result option \<Rightarrow> ('w, unit) step" where
  "publish_outcome os e c result =
     bind_prog (invocation_outcome_of e c result) (\<lambda>outcome. ledger_finalise os outcome)"

fun successful :: "'p command_result option \<Rightarrow> bool" where
  "successful (Some (Ok r)) = True"
| "successful (Some (Partial r)) = True"
| "successful _ = False"

text \<open>The \<open>finally\<close> of \<open>finalise\<close>: consent is spent whatever happened to the outcome.\<close>

definition spend_consent :: "'w invocation \<Rightarrow> 'w invocation" where
  "spend_consent s =
     (let s1 = s\<lparr>iv_finalised := True\<rparr> in
      case iv_proof s1 of None \<Rightarrow> s1 | Some p \<Rightarrow> snd (svc_finish p s1))"

definition inv_finalise ::
  "owned_store \<Rightarrow> ('e, 'q) entry \<Rightarrow> invocation_context \<Rightarrow> 'p command_result option \<Rightarrow> ('w, unit) step" where
  "inv_finalise os e c result =
     bind_prog (lift_result (\<lambda>s. check_that (\<not> iv_finalised s) RuntimeError)) (\<lambda>_.
     bind_prog (lift_result (\<lambda>s. check_that (\<not> (iv_proof s = None \<and> successful result)) RuntimeError)) (\<lambda>_ s.
     let (r, s1) = (if iv_intent s = None then (Inr (), s) else publish_outcome os e c result s)
     in (r, spend_consent s1)))"

end
