(* ===== verification/Application.thy ===== *)
theory Application
  imports Invocation
begin

text \<open>
  \<open>_application/application.py\<close>: the one enforced boundary through which typed requests run, and
  the part of \<open>_application/access_session.py\<close> it consults.

  \<open>invoke\<close> is a program over the invocation state; the two local variables \<open>admission\<close> and
  \<open>control_intent\<close> are its fields \<open>iv_authorisation\<close> and \<open>iv_control\<close>. The executor of an entry is
  the command owner's program: it is given the context and the admission object, and may do
  anything. \<open>str(exc)\<close>, the error value of \<open>text_refusal\<close> (which reads the vault) and the delivery of
  the result are fields of the application record.
\<close>

section \<open>Access to a command\<close>

datatype authorisation_state = AuthorisedState | RequiredState | DeniedState

definition authorisation_state_of :: "string \<Rightarrow> exn + authorisation_state" where
  "authorisation_state_of v =
     (if v = ''authorised'' then Inr AuthorisedState
      else if v = ''authorisation_required'' then Inr RequiredState
      else if v = ''denied'' then Inr DeniedState else Inl ValueError)"

record command_access =
  cm_command_id :: string
  cm_state :: authorisation_state
  cm_boundary :: boundary
  cm_requestable :: bool
  cm_review :: "string option"
  cm_next_action :: "next_action option"

definition requestable :: "'x svc_scheme \<Rightarrow> bool \<Rightarrow> string \<Rightarrow> bool" where
  "requestable s available command =
     (command \<in> cp_permissions (sv_policy s) \<and> command \<in> set (map fst (sv_versions s))
      \<and> command \<notin> cp_controls (sv_policy s) \<and> cp_request_policy (sv_policy s) = ''allowed'' \<and> available)"

definition access_boundary :: "'x svc_scheme \<Rightarrow> bool \<Rightarrow> string \<Rightarrow> string \<Rightarrow> boundary" where
  "access_boundary s available command state =
     (if \<not> (command \<in> cp_permissions (sv_policy s) \<and> command \<in> set (map fst (sv_versions s)))
      then PermissionsBoundary
      else if state = ''authorised'' then AuthorisationBoundary
      else if cp_request_policy (sv_policy s) \<noteq> ''allowed'' then PolicyBoundary
      else if \<not> available then ContextBoundary else AuthorisationBoundary)"

text \<open>The body of the loop in \<open>command_access_many\<close>.\<close>

definition access_of :: "'x svc_scheme \<Rightarrow> bool \<Rightarrow> string \<Rightarrow> string \<Rightarrow> exn + command_access" where
  "access_of s available command state0 =
     (let ask = requestable s available command;
          bd = access_boundary s available command state0;
          state = (if state0 \<noteq> ''authorised'' \<and> \<not> ask then ''denied'' else state0) in
      bind_result (authorisation_state_of state) (\<lambda>st.
      bind_result (if ask then bind_result (command_review s command) (\<lambda>r. Inr (Some r)) else Inr None) (\<lambda>review.
      bind_result (if state \<noteq> ''authorised'' \<and> ask
                   then bind_result (check_next_action (CommandNextAction ''access.status''
                          [\<lparr>ca_name = ''target_command_id'', ca_value = JStr command\<rparr>])) (\<lambda>a. Inr (Some a))
                   else if state \<noteq> ''authorised'' \<and> bd = PolicyBoundary
                   then bind_result (check_next_action (CommandNextAction ''vault.read-config'' [])) (\<lambda>a. Inr (Some a))
                   else Inr None) (\<lambda>next.
      Inr \<lparr>cm_command_id = command, cm_state = st, cm_boundary = bd, cm_requestable = ask,
           cm_review = review, cm_next_action = next\<rparr>))))"

definition command_access_many :: "bool \<Rightarrow> string list \<Rightarrow> ('x svc_scheme, command_access list) prog" where
  "command_access_many available command_ids =
     bind_prog (command_states command_ids) (\<lambda>states.
     lift_result (\<lambda>s. collect_results (map (\<lambda>command.
        case map_of states command of None \<Rightarrow> Inl KeyError | Some st \<Rightarrow> access_of s available command st) command_ids)))"

definition command_access :: "bool \<Rightarrow> string \<Rightarrow> ('x svc_scheme, command_access) prog" where
  "command_access available command_id =
     bind_prog (command_access_many available [command_id]) (\<lambda>as.
     case as of a # _ \<Rightarrow> return_prog a | [] \<Rightarrow> raise_prog KeyError)"

section \<open>The application\<close>

record ('w, 'p) application =
  ap_store :: owned_store
  ap_context_available :: bool
  ap_source :: string
  ap_message :: "exn \<Rightarrow> string"
  ap_isinstance :: "string \<Rightarrow> 'p \<Rightarrow> bool"
  ap_text_refusal :: "'w invocation \<Rightarrow> command_error"
  ap_deliver :: "'p command_result \<Rightarrow> 'w invocation \<Rightarrow> 'w invocation"

type_synonym ('w, 'p) executor =
  "invocation_context \<Rightarrow> invocation_authorisation option \<Rightarrow> typed_request \<Rightarrow> ('w, 'p command_result option) step"

type_synonym ('w, 'p) command_entry = "(('w, 'p) executor, 'w preparation) entry"

section \<open>Failure results\<close>

definition internal_error_result :: "invocation_context \<Rightarrow> string \<Rightarrow> int \<Rightarrow> exn + 'p command_result" where
  "internal_error_result c command_id version =
     new_error command_id version
       \<lparr>ce_code = InternalError, ce_message = ''The command failed unexpectedly.'',
        ce_details = Some (InternalDetails (ic_correlation_id c)), ce_next_action = None\<rparr> False None False"

definition read_invocation :: "string \<Rightarrow> next_action" where
  "read_invocation invocation_id =
     CommandNextAction ''invocation.read'' [\<lparr>ca_name = ''invocation_id'', ca_value = JStr invocation_id\<rparr>]"

text \<open>\<open>_unknown_result\<close>\<close>

definition unknown_result :: "invocation_context \<Rightarrow> ('e, 'q) entry \<Rightarrow> exn + 'p command_result" where
  "unknown_result c e =
     (if en_effect_class e = NoEffect then internal_error_result c (en_command_id e) (en_command_version e)
      else bind_result (outcome_reference (ic_invocation_id c)) (\<lambda>reference.
           new_error (en_command_id e) (en_command_version e)
             \<lparr>ce_code = CommandOutcomeUnknown,
              ce_message = ''Execution may have entered; inspect the owned invocation outcome before any further action.'',
              ce_details = Some (OutcomeUnknownDetails reference),
              ce_next_action = Some (read_invocation reference)\<rparr> True (Some reference) False))"

text \<open>\<open>consent_error_result\<close>: a refusal of authority names its boundary, any other its reason.\<close>

definition permission_reasons :: "string list" where
  "permission_reasons = [''permission'', ''authorisation_required'', ''denied'', ''migration_required'',
     ''context_required'', ''context_unavailable'', ''context_changed'', ''foreign_context'']"

definition conflict_reasons :: "string list" where
  "conflict_reasons = [''conflict'', ''stale_cursor'', ''stale_operation'', ''request_conflict'',
     ''operation_entered'', ''invalidated'', ''revoked'', ''contract_changed'', ''review_mismatch'']"

definition consent_boundary :: "string \<Rightarrow> boundary" where
  "consent_boundary reason =
     (if reason = ''permission'' then PermissionsBoundary
      else if reason = ''authorisation_required'' then AuthorisationBoundary
      else if reason \<in> {''denied'', ''migration_required''} then PolicyBoundary else ContextBoundary)"

definition consent_error_details ::
  "('w, 'p) application \<Rightarrow> 'w invocation \<Rightarrow> string \<Rightarrow> string \<Rightarrow> error_code \<times> error_details" where
  "consent_error_details ap s command_id reason =
     (if reason \<in> set permission_reasons
      then let bd = consent_boundary reason;
               ask = (bd = AuthorisationBoundary \<and> ap_context_available ap)
           in (if ask then AuthorisationRequired else AuthorityDenied,
               AuthorityDetails \<lparr>ad_profile = cp_ceiling_profile (sv_policy s), ad_required = command_id,
                 ad_boundary = bd, ad_requestable = ask, ad_reason = Some reason\<rparr>)
      else (if reason \<in> set conflict_reasons then Conflict else InvalidRequest,
            RequestDetails \<lparr>rd_field = None, rd_reason = reason\<rparr>))"

definition consent_error_result ::
  "('w, 'p) application \<Rightarrow> invocation_context \<Rightarrow> 'w invocation \<Rightarrow> string \<Rightarrow> int \<Rightarrow> string \<Rightarrow> exn + 'p command_result" where
  "consent_error_result ap c s command_id version reason =
     (let (code, details) = consent_error_details ap s command_id reason in
      new_error command_id version
        \<lparr>ce_code = code, ce_message = ap_message ap (ConsentError reason), ce_details = Some details,
         ce_next_action = Some (if reason = ''operation_entered'' then read_invocation (ic_invocation_id c)
            else if reason \<in> {''migration_required'', ''denied''} then CommandNextAction ''vault.read-config'' []
            else CommandNextAction ''access.status'' [])\<rparr> False None False)"

section \<open>Preflight\<close>

definition boundary_message :: "boundary \<Rightarrow> string" where
  "boundary_message b = (case b of
     PermissionsBoundary \<Rightarrow> ''Credential permissions deny this command; an authorised administrator must change permissions through CLI.''
   | PolicyBoundary \<Rightarrow> ''Brain policy does not permit this authorisation request; inspect vault.read-config.''
   | ContextBoundary \<Rightarrow> ''Exceptional authorisation requires an available MCP instance or an explicit brain session run job.''
   | AuthorisationBoundary \<Rightarrow> ''The command is permitted but this operation requires explicit authorisation.'')"

text \<open>A prepared operation some invocation has already used.\<close>

definition consumed_result :: "('e, 'q) entry \<Rightarrow> string \<Rightarrow> exn + 'p command_result" where
  "consumed_result e invocation_id =
     (if en_effect_class e = NoEffect
      then new_error (en_command_id e) (en_command_version e)
             \<lparr>ce_code = Conflict, ce_message = ''This prepared observation has already been consumed; prepare and authorise a new operation.'',
              ce_details = Some (RequestDetails \<lparr>rd_field = Some ''brain_operation'', rd_reason = ''operation_consumed''\<rparr>),
              ce_next_action = None\<rparr> False None False
      else new_error (en_command_id e) (en_command_version e)
             \<lparr>ce_code = Conflict, ce_message = ''This prepared operation has already entered; inspect its owned outcome.'',
              ce_details = Some (RequestDetails \<lparr>rd_field = Some ''brain_operation'', rd_reason = ''operation_entered''\<rparr>),
              ce_next_action = Some (read_invocation invocation_id)\<rparr> False None False)"

definition denied_result ::
  "('e, 'q) entry \<Rightarrow> command_access \<Rightarrow> 'x svc_scheme \<Rightarrow> exn + 'p command_result" where
  "denied_result e a s =
     new_error (en_command_id e) (en_command_version e)
       \<lparr>ce_code = (if cm_requestable a then AuthorisationRequired else AuthorityDenied),
        ce_message = boundary_message (cm_boundary a),
        ce_details = Some (AuthorityDetails \<lparr>ad_profile = cp_ceiling_profile (sv_policy s),
           ad_required = authority_value (en_authority e), ad_boundary = cm_boundary a,
           ad_requestable = cm_requestable a, ad_reason = None\<rparr>),
        ce_next_action = (case cm_next_action a of Some n \<Rightarrow> Some n
          | None \<Rightarrow> if cm_requestable a
                    then Some (CommandNextAction ''access.status''
                           [\<lparr>ca_name = ''target_command_id'', ca_value = JStr (en_command_id e)\<rparr>])
                    else None)\<rparr> False None False"

text \<open>\<open>authority_denied_result\<close>: a stored operation may have been authorised or used meanwhile.\<close>

definition operation_verdict ::
  "('e, 'q) entry \<Rightarrow> command_access \<Rightarrow> string \<Rightarrow> ('x svc_scheme, 'p command_result option) prog" where
  "operation_verdict e a oid =
     bind_prog (svc_state (en_command_id e) (Some oid)) (\<lambda>st.
     if st = ''authorised'' then return_prog None
     else bind_prog (svc_inspect oid) (\<lambda>(descriptor, valid).
          case truthy (op_invocation_id descriptor) of
            Some user \<Rightarrow> bind_prog (lift_result (\<lambda>s. consumed_result e user)) (\<lambda>r. return_prog (Some r))
          | None \<Rightarrow> bind_prog (lift_result (denied_result e a)) (\<lambda>r. return_prog (Some r))))"

definition authority_denied_result ::
  "bool \<Rightarrow> invocation_context \<Rightarrow> ('e, 'q) entry \<Rightarrow> ('x svc_scheme, 'p command_result option) prog" where
  "authority_denied_result available c e =
     bind_prog (command_access available (en_command_id e)) (\<lambda>a.
     if cm_state a = AuthorisedState \<and> (ic_operation_id c = None \<or> en_initial_class e = ControlClass)
     then return_prog None
     else (case ic_operation_id c of
         Some oid \<Rightarrow>
           if cm_boundary a \<noteq> PermissionsBoundary then operation_verdict e a oid
           else bind_prog (lift_result (denied_result e a)) (\<lambda>r. return_prog (Some r))
       | None \<Rightarrow> bind_prog (lift_result (denied_result e a)) (\<lambda>r. return_prog (Some r))))"

definition missing_capabilities :: "invocation_context \<Rightarrow> ('e, 'q) entry \<Rightarrow> string list" where
  "missing_capabilities c e =
     (if supports (ic_tier c) (en_dependency_tier e) then [] else [''tier:'' @ tier_name (en_dependency_tier e)])
     @ List.map_filter (\<lambda>p. if p \<notin> set (ic_providers c) then Some (''provider:'' @ p)
          else if availability_of (ic_capabilities c) p \<noteq> Available then Some (''capability:'' @ p)
          else None) (en_required e)"

definition unavailable_result :: "invocation_context \<Rightarrow> ('e, 'q) entry \<Rightarrow> exn + 'p command_result" where
  "unavailable_result c e =
     new_error (en_command_id e) (en_command_version e)
       \<lparr>ce_code = CapabilityUnavailable,
        ce_message = ''The command is installed but its required capability is unavailable.'',
        ce_details = Some (CapabilityDetails \<lparr>cu_required_tier = en_dependency_tier e, cu_current_tier = ic_tier c,
           cu_locality = en_locality e, cu_missing = missing_capabilities c e,
           cu_snapshot_freshness = cs_freshness (ic_capabilities c), cu_recoverable = True\<rparr>),
        ce_next_action = Some (InstructionNextAction
          ''Restore the named tier or provider, refresh capabilities, then invoke again.'')\<rparr> False None False"

definition preflight ::
  "bool \<Rightarrow> invocation_context \<Rightarrow> ('e, 'q) entry \<Rightarrow> ('w, 'p command_result option) step" where
  "preflight available c e =
     bind_prog (check_permission (en_command_id e) False) (\<lambda>_.
     bind_prog (if en_initial_class e \<noteq> ControlClass then authority_denied_result available c e
                else return_prog None) (\<lambda>denied.
     case denied of
       Some r \<Rightarrow> return_prog (Some r)
     | None \<Rightarrow>
         if missing_capabilities c e = [] then return_prog None
         else bind_prog (lift_result (\<lambda>s. unavailable_result c e)) (\<lambda>r. return_prog (Some r))))"

section \<open>Control commands\<close>

definition control_intent ::
  "('w, 'p) application \<Rightarrow> invocation_context \<Rightarrow> ('e, 'q) entry \<Rightarrow> string \<Rightarrow> stamp \<Rightarrow> string \<Rightarrow> admission_intent" where
  "control_intent ap c e digest now generation =
     \<lparr>ai_reference = ic_invocation_id c, ai_command_id = en_command_id e, ai_command_version = en_command_version e,
      ai_recorded_at = now, ai_basis = ''initial'', ai_generation = generation, ai_source = ap_source ap,
      ai_grant_id = None, ai_operation_id = None, ai_operation_digest = Some digest,
      ai_request_id = Some (ic_invocation_id c), ai_permission_change = None\<rparr>"

text \<open>\<open>_begin_control\<close>: a repeated invocation is recovery, never a new control effect.\<close>

definition begin_control ::
  "('w, 'p) application \<Rightarrow> invocation_context \<Rightarrow> ('e, 'q) entry \<Rightarrow> typed_request \<Rightarrow> ('w, admission_intent) step" where
  "begin_control ap c e request =
     bind_prog (lift_result (\<lambda>s. bind_result (bind_operation (sv_hex s) (request_of request) [] [] [])
                  (\<lambda>b. Inr (content_digest (sv_hex s) (request_text b))))) (\<lambda>digest.
     bind_prog (lift_result (\<lambda>s. outcome_reference (ic_invocation_id c))) (\<lambda>reference.
     bind_prog (ledger_read (ap_store ap) reference) (\<lambda>previous.
     bind_prog (lift_result (\<lambda>s. check_that (ol_intent previous = None) (ConsentError ''operation_entered''))) (\<lambda>_.
     bind_prog read_clock (\<lambda>now.
     bind_prog svc_generation (\<lambda>generation.
     bind_prog (lift_result (\<lambda>s. check_intent (control_intent ap c e digest now generation))) (\<lambda>intent.
     bind_prog (claim_intent (ap_store ap) intent) (\<lambda>_.
     bind_prog (check_permission (en_command_id e) False) (\<lambda>_.
     return_prog intent)))))))))"

text \<open>\<open>isinstance(request, AccessPrepareRequest) and isinstance(request.preparation, InspectOperation)\<close>\<close>

definition pure_inspection :: "typed_request \<Rightarrow> bool" where
  "pure_inspection r =
     (rt_command_id (rq_type r) = ''access.prepare'' \<and>
      (case rq_wire r of
         JObj kvs \<Rightarrow> (case field ''preparation'' kvs of
             JObj p \<Rightarrow> field ''kind'' p = JStr ''inspect'' | _ \<Rightarrow> False)
       | _ \<Rightarrow> False))"

section \<open>Running a command\<close>

text \<open>\<open>_validate_result\<close>; \<open>None\<close> is a value that is no result variant.\<close>

fun payload_ok :: "(string \<Rightarrow> 'p \<Rightarrow> bool) \<Rightarrow> string \<Rightarrow> 'p command_result \<Rightarrow> bool" where
  "payload_ok isinst t (Ok r) = isinst t (ok_payload r)"
| "payload_ok isinst t _ = True"

fun effect_free :: "'p command_result \<Rightarrow> bool" where
  "effect_free (Ok r) = (ok_effects r = [])"
| "effect_free (Partial r) = False"
| "effect_free (Error r) = (\<not> er_effects_unknown r)"

definition validate_result ::
  "('w, 'p) application \<Rightarrow> ('e, 'q) entry \<Rightarrow> 'p command_result option \<Rightarrow> exn + 'p command_result" where
  "validate_result ap e value =
     (case value of
        None \<Rightarrow> Inl TypeError
      | Some r \<Rightarrow>
          bind_result (check_that (result_command_id r = en_command_id e
                         \<and> result_command_version r = en_command_version e) ValueError) (\<lambda>_.
          bind_result (check_that (payload_ok (ap_isinstance ap) (rt_result_type (en_request_type e)) r) TypeError) (\<lambda>_.
          bind_result (check_that (en_effect_class e = NoEffect \<longrightarrow> effect_free r) ValueError) (\<lambda>_.
          Inr r))))"

definition run_owner ::
  "('w, 'p) application \<Rightarrow> invocation_context \<Rightarrow> ('w, 'p) command_entry \<Rightarrow> typed_request \<Rightarrow>
   ('w, 'p command_result) step" where
  "run_owner ap c e request s =
     bind_prog (en_executor e c (iv_authorisation s) request) (\<lambda>value.
     lift_result (\<lambda>s. validate_result ap e value)) s"

text \<open>The two branches of the \<open>try\<close>: a control command claims its invocation itself ...\<close>

definition run_control ::
  "('w, 'p) application \<Rightarrow> invocation_context \<Rightarrow> ('w, 'p) command_entry \<Rightarrow> typed_request \<Rightarrow>
   ('w, 'p command_result) step" where
  "run_control ap c e request =
     bind_prog (lift_result (\<lambda>s. check_that (ic_operation_id c = None) (ConsentError ''invalid_request''))) (\<lambda>_.
     bind_prog (if en_effect_class e \<noteq> NoEffect \<and> \<not> pure_inspection request
                then bind_prog (begin_control ap c e request) (\<lambda>i s. (Inr (), s\<lparr>iv_control := Some i\<rparr>))
                else return_prog ()) (\<lambda>_.
     run_owner ap c e request))"

text \<open>... and an ordinary one through its admission object.\<close>

definition run_ordinary ::
  "('w, 'p) application \<Rightarrow> invocation_context \<Rightarrow> ('w, 'p) command_entry \<Rightarrow> typed_request \<Rightarrow>
   ('w, 'p command_result) step" where
  "run_ordinary ap c e request =
     bind_prog (init_authorisation c e (ic_operation_id c) (Some (ap_source ap))) (\<lambda>ia.
     bind_prog (\<lambda>s. (Inr (), s\<lparr>iv_authorisation := Some ia\<rparr>)) (\<lambda>_.
     bind_prog (admit_query (ap_store ap) c e ia request) (\<lambda>_.
     run_owner ap c e request)))"

definition run_command ::
  "('w, 'p) application \<Rightarrow> invocation_context \<Rightarrow> ('w, 'p) command_entry \<Rightarrow> typed_request \<Rightarrow>
   ('w, 'p command_result) step" where
  "run_command ap c e request =
     (if en_initial_class e = ControlClass then run_control ap c e request else run_ordinary ap c e request)"

section \<open>Failures while running\<close>

definition entered :: "'w invocation \<Rightarrow> bool" where
  "entered s = (iv_control s \<noteq> None \<or> (iv_authorisation s \<noteq> None \<and> iv_proof s \<noteq> None))"

definition uncertain :: "'w invocation \<Rightarrow> bool" where
  "uncertain s = (iv_control s \<noteq> None
     \<or> (iv_authorisation s \<noteq> None \<and> (iv_proof s \<noteq> None \<or> iv_intent s \<noteq> None)))"

fun failure_result ::
  "('w, 'p) application \<Rightarrow> invocation_context \<Rightarrow> ('e, 'q) entry \<Rightarrow> 'w invocation \<Rightarrow> exn \<Rightarrow> exn + 'p command_result"
where
  "failure_result ap c e s UnsafeLayoutError =
     (if uncertain s then unknown_result c e
      else new_error (en_command_id e) (en_command_version e)
             \<lparr>ce_code = Conflict, ce_message = ap_message ap UnsafeLayoutError,
              ce_details = Some (RequestDetails \<lparr>rd_field = None, rd_reason = ap_message ap UnsafeLayoutError\<rparr>),
              ce_next_action = None\<rparr> False None False)"
| "failure_result ap c e s (RouterCacheUnavailable path reason source) =
     (if entered s then unknown_result c e
      else new_error (en_command_id e) (en_command_version e) (router_cache_error path reason source) False None False)"
| "failure_result ap c e s (ConsentError reason) =
     consent_error_result ap c s (en_command_id e) (en_command_version e) reason"
| "failure_result ap c e s NonStandardTextError =
     new_error (en_command_id e) (en_command_version e) (ap_text_refusal ap s) False None False"
| "failure_result ap c e s _ =
     (if uncertain s then unknown_result c e
      else internal_error_result c (en_command_id e) (en_command_version e))"

section \<open>invoke\<close>

definition finalise_result ::
  "('w, 'p) application \<Rightarrow> invocation_context \<Rightarrow> ('e, 'q) entry \<Rightarrow> 'p command_result \<Rightarrow> ('w, unit) step" where
  "finalise_result ap c e r s =
     (if iv_authorisation s \<noteq> None then inv_finalise (ap_store ap) e c (Some r) s
      else if iv_control s \<noteq> None then publish_outcome (ap_store ap) e c (Some r) s
      else (Inr (), s))"

definition settle_result ::
  "('w, 'p) application \<Rightarrow> invocation_context \<Rightarrow> ('e, 'q) entry \<Rightarrow> 'p command_result \<Rightarrow> ('w, 'p command_result) step" where
  "settle_result ap c e r s =
     (case finalise_result ap c e r s of
        (Inl x, s1) \<Rightarrow>
          (if iv_control s1 \<noteq> None \<or> (iv_authorisation s1 \<noteq> None \<and> iv_intent s1 \<noteq> None)
           then unknown_result c e else internal_error_result c (en_command_id e) (en_command_version e), s1)
      | (Inr _, s1) \<Rightarrow> (Inr r, ap_deliver ap r s1))"

definition execute ::
  "('w, 'p) application \<Rightarrow> invocation_context \<Rightarrow> ('w, 'p) command_entry \<Rightarrow> typed_request \<Rightarrow>
   ('w, 'p command_result) step" where
  "execute ap c e request =
     bind_prog (\<lambda>s. case run_command ap c e request s of
          (Inl x, s1) \<Rightarrow> (failure_result ap c e s1 x, s1)
        | (Inr r, s1) \<Rightarrow> (Inr r, s1)) (\<lambda>r.
     settle_result ap c e r)"

text \<open>A fresh invocation: no admission object, no control intent.\<close>

definition fresh :: "'w invocation \<Rightarrow> 'w invocation" where
  "fresh s = s\<lparr>iv_authorisation := None, iv_control := None, iv_proof := None, iv_intent := None,
     iv_finalised := False\<rparr>"

definition preflight_failure ::
  "('w, 'p) application \<Rightarrow> invocation_context \<Rightarrow> 'w invocation \<Rightarrow> string \<Rightarrow> int \<Rightarrow> exn \<Rightarrow> exn + 'p command_result" where
  "preflight_failure ap c s command_id version x =
     (case x of ConsentError reason \<Rightarrow> consent_error_result ap c s command_id version reason
      | _ \<Rightarrow> internal_error_result c command_id version)"

definition invoke ::
  "('w, 'p) application \<Rightarrow> (('w, 'p) executor, 'w preparation) catalogue \<Rightarrow> invocation_context \<Rightarrow> typed_request \<Rightarrow>
   ('w, 'p command_result) step" where
  "invoke ap cat c request s =
     (case command_identity request of
        Inl x \<Rightarrow> (Inl x, s)
      | Inr (command_id, version, _) \<Rightarrow>
          (case resolve cat request of
             Inl x \<Rightarrow> (preflight_failure ap c s command_id version x, s)
           | Inr e \<Rightarrow>
               (case preflight (ap_context_available ap) c e (fresh s) of
                  (Inl x, s1) \<Rightarrow> (preflight_failure ap c s1 command_id version x, s1)
                | (Inr (Some r), s1) \<Rightarrow> (Inr r, s1)
                | (Inr None, s1) \<Rightarrow> execute ap c e request s1)))"

end
