(* ===== verification/Application_Runs.thy ===== *)
theory Application_Runs
  imports Application Consent_Runs Ledger_Safety
begin

text \<open>
  What an invocation goes through: the programs of the service leave everything outside the service
  alone, admission fields change only in \<open>inv_admit\<close>, and every result of \<open>invoke\<close> comes from one of
  a few places.
\<close>

section \<open>Framing\<close>

text \<open>
  A preorder on states that contains every step of the consent service; \<open>keeps\<close> it holds for a
  program built from service calls once it holds for the rest of its parts.
\<close>

locale framing =
  fixes frame :: "'x svc_scheme \<Rightarrow> 'x svc_scheme \<Rightarrow> bool"
  assumes frame_refl: "frame s s"
    and frame_trans: "frame a b \<Longrightarrow> frame b c \<Longrightarrow> frame a c"
    and frame_serves: "serves s t \<Longrightarrow> frame s t"
begin

lemma frame_bind: "keeps frame m \<Longrightarrow> (\<And>x. keeps frame (f x)) \<Longrightarrow> keeps frame (bind_prog m f)"
  by (rule keeps_bind[OF frame_trans])

lemma frame_pure:
  "keeps frame (return_prog x)" "keeps frame (raise_prog e)" "keeps frame (lift_result g)"
  "keeps frame (\<lambda>s. (h s, s))"
  by (rule keeps_pure, rule frame_refl)+

lemma frame_service: "keeps serves m \<Longrightarrow> keeps frame m"
  by (auto simp: keeps_def dest: frame_serves)

lemma frame_option:
  "(v = None \<Longrightarrow> keeps frame A) \<Longrightarrow> (\<And>x. v = Some x \<Longrightarrow> keeps frame (B x)) \<Longrightarrow>
   keeps frame (case v of None \<Rightarrow> A | Some x \<Rightarrow> B x)"
  by (cases v) auto

lemma frame_cond: "keeps frame A \<Longrightarrow> keeps frame B \<Longrightarrow> keeps frame (if b then A else B)"
  by (cases b) auto

lemma frame_on_error: "keeps frame m \<Longrightarrow> keeps frame h \<Longrightarrow> keeps frame (on_error C m h)"
  unfolding keeps_def on_error_def
  by (auto split: prod.splits sum.splits if_splits) (blast intro: frame_trans)+

lemma frame_specific: "keeps frame (on_specific change p)"
  unfolding on_specific_def
  by (intro frame_cond frame_pure frame_bind frame_service[OF serves_transaction])

lemma frame_enter: "keeps frame (svc_enter p)"
  unfolding svc_enter_def by (intro frame_pure frame_bind frame_service[OF serves_transaction])

lemma frame_admit:
  assumes "\<And>f q. hook = Some f \<Longrightarrow> keeps frame (f q)"
  shows "keeps frame (svc_admit a hook)"
  unfolding svc_admit_def Let_def cancel_admission_def
  by (intro frame_bind frame_pure frame_option frame_on_error frame_specific frame_enter
      frame_service[OF serves_permission] frame_service[OF serves_snapshot] frame_service[OF serves_transaction] assms)

end

interpretation steady: framing steady
  by unfold_locales (simp, blast intro: steady_trans, rule serves_steady)

text \<open>The fields of an invocation that only its own methods write, without the recorded intent.\<close>

definition same_call :: "'w invocation \<Rightarrow> 'w invocation \<Rightarrow> bool" where
  "same_call s t = (steady s t \<and> iv_authorisation t = iv_authorisation s \<and> iv_control t = iv_control s
     \<and> iv_proof t = iv_proof s \<and> iv_finalised t = iv_finalised s)"

lemma more_fields:
  assumes "svc.more t = svc.more (s :: 'w invocation)"
  shows "iv_authorisation t = iv_authorisation s" "iv_control t = iv_control s" "iv_proof t = iv_proof s"
    "iv_intent t = iv_intent s" "iv_finalised t = iv_finalised s" "iv_world t = iv_world s"
    "iv_ledger t = iv_ledger s"
  using assms by (cases s; cases t; simp)+

interpretation call: framing same_call
proof
  show "same_call s s" for s :: "'a invocation" by (simp add: same_call_def)
  show "same_call a c" if "same_call a b" "same_call b c" for a b c :: "'a invocation"
    using that steady_trans[of a b c] by (simp add: same_call_def)
  show "same_call s t" if "serves s t" for s t :: "'a invocation"
  proof -
    have "svc.more t = svc.more s" using that by (simp add: serves_def)
    from more_fields[OF this] serves_steady[OF that] show ?thesis by (simp add: same_call_def)
  qed
qed

lemma same_callD: "same_call s t \<Longrightarrow> steady s t"
  by (simp add: same_call_def)

lemma call_clock: "keeps same_call read_clock"
  by (auto simp: keeps_def read_clock_def same_call_def steady_def mem.evolves_refl)

lemma call_ledger: "keeps same_call (on_ledger f)"
  by (auto simp: keeps_def on_ledger_def same_call_def steady_def mem.evolves_refl Let_def split: prod.splits)

lemma call_claim: "keeps same_call (claim_intent os i)"
proof -
  have "keeps same_call (ledger_begin os i)"
    unfolding ledger_begin_def by (intro call.frame_bind call_clock call_ledger)
  then show ?thesis by (auto simp: keeps_def claim_intent_def split: prod.splits sum.splits)
qed

lemma call_record: "keeps same_call (record_intent os ia b p)"
proof -
  have "keeps same_call (\<lambda>s. (Inr (), s\<lparr>iv_intent := i\<rparr>))" for i
    by (simp add: keeps_def same_call_def steady_def mem.evolves_refl)
  then show ?thesis
    unfolding record_intent_def by (intro call.frame_bind call.frame_pure call_clock call_claim)
qed

lemma steady_record: "keeps steady (record_intent os ia b p)"
  using call_record[of os ia b p] by (auto simp: keeps_def dest: same_callD)

section \<open>Where an admission comes from\<close>

text \<open>
  What the boundary relies on of command owners: the admission object is changed through its
  method \<open>admit\<close> only, and the trusted service only through its own operations.
\<close>

inductive owner_moves ::
  "owned_store \<Rightarrow> invocation_context \<Rightarrow> ('e, 'q) entry \<Rightarrow> invocation_authorisation \<Rightarrow> 'w invocation \<Rightarrow> 'w invocation \<Rightarrow> bool"
  for os c e ia where
  moves_refl: "owner_moves os c e ia s s"
| moves_admit: "owner_moves os c e ia s s1 \<Longrightarrow> inv_admit os c e ia b s1 = (r, s2) \<Longrightarrow> owner_moves os c e ia s s2"
| moves_other: "owner_moves os c e ia s s1 \<Longrightarrow> same_call s1 s2 \<Longrightarrow> owner_moves os c e ia s s2"

definition owner_admits ::
  "owned_store \<Rightarrow> ('w, 'p) command_entry \<Rightarrow> bool" where
  "owner_admits os e =
     ((\<forall>c ia r s x s'. en_executor e c (Some ia) r s = (x, s') \<longrightarrow> owner_moves os c e ia s s')
      \<and> (\<forall>q c n r f. en_preparation e = Some q \<longrightarrow> keeps same_call (pr_planner q c n r f)))"

lemma owner_moves_trans:
  "owner_moves os c e ia s1 s2 \<Longrightarrow> owner_moves os c e ia s s1 \<Longrightarrow> owner_moves os c e ia s s2"
  by (induction rule: owner_moves.induct) (auto intro: owner_moves.intros)

definition admission_request_of ::
  "invocation_context \<Rightarrow> ('e, 'q) entry \<Rightarrow> invocation_authorisation \<Rightarrow> operation_binding option \<Rightarrow> admission_request" where
  "admission_request_of c e ia bound =
     \<lparr>aq_command_id = en_command_id e, aq_command_version = en_command_version e,
      aq_invocation_id = ic_invocation_id c, aq_operation_id = ia_operation_id ia, aq_binding = bound\<rparr>"

lemma admit_hook_steady:
  "(if E then Some (record_intent os ia bound) else None) = Some f \<Longrightarrow> keeps steady (f q)"
  by (auto simp: steady_record split: if_splits)

lemma admit_hook_call:
  "(if E then Some (record_intent os ia bound) else None) = Some f \<Longrightarrow> keeps same_call (f q)"
  by (auto simp: call_record split: if_splits)

lemma inv_admit_run:
  assumes "inv_admit os c e ia b s = (r, s')"
  obtains "same_call s s'" "r \<noteq> Inr ()"
  | bound p s1 where "r = Inr ()" "s' = s1\<lparr>iv_proof := Some p\<rparr>"
      "svc_admit (admission_request_of c e ia bound)
         (if en_effect_class e \<noteq> NoEffect then Some (record_intent os ia bound) else None) s = (Inr p, s1)"
proof -
  have call: "keeps same_call (svc_admit a (if en_effect_class e \<noteq> NoEffect then Some (record_intent os ia bound) else None))"
    for a bound by (rule call.frame_admit) (rule admit_hook_call)
  have refl: "same_call s s" by (rule call.frame_refl)
  from assms show thesis
    unfolding inv_admit_def
  proof (cases rule: bind_prog_cases)
    case (1 x)
    then show thesis using that(1) refl by (auto simp: check_that_def split: if_splits)
  next
    case (2 u s1)
    then have s1: "s1 = s" by simp
    from 2(2) show thesis
    proof (cases rule: bind_prog_cases)
      case (1 x)
      then show thesis using that(1) refl s1 by auto
    next
      case (2 bound s2)
      then have s2: "s2 = s" using s1 by simp
      from 2(2) show thesis
      proof (cases rule: bind_prog_cases)
        case (1 x)
        then show thesis using that(1) keepsD[OF call] s2 by blast
      next
        case (2 p s3)
        then show thesis using that(2)[where bound = bound and p = p and ?s1.0 = s3] s2 by (simp add: admission_request_of_def)
      qed
    qed
  qed
qed

lemma inv_admit_steady: "inv_admit os c e ia b s = (r, s') \<Longrightarrow> steady s s'"
proof (erule inv_admit_run)
  fix bound p s1
  assume s': "s' = s1\<lparr>iv_proof := Some p\<rparr>"
    and run: "svc_admit (admission_request_of c e ia bound)
        (if en_effect_class e \<noteq> NoEffect then Some (record_intent os ia bound) else None) s = (Inr p, s1)"
  have "keeps steady (svc_admit (admission_request_of c e ia bound)
        (if en_effect_class e \<noteq> NoEffect then Some (record_intent os ia bound) else None))"
    by (rule steady.frame_admit) (rule admit_hook_steady)
  from keepsD[OF this run] s' show "steady s s'" by (simp add: steady_def)
qed (simp add: same_callD)

lemma owner_moves_steady: "owner_moves os c e ia s s' \<Longrightarrow> steady s s'"
  by (induction rule: owner_moves.induct) (auto dest: inv_admit_steady same_callD intro: steady_trans)

text \<open>A proof held at the end was obtained by an admission that succeeded under live authority.\<close>

lemma admission_origin:
  assumes "owner_moves os c e ia (s :: 'w invocation) s'" "iv_proof s = None" "iv_proof s' = Some p" "env_ok (sv_env s)"
  shows "\<exists>bound (s1 :: 'w invocation). authorised_entry (admission_request_of c e ia bound) p s1
     \<and> map_of (sv_versions s) (en_command_id e) = Some (en_command_version e)"
  using assms
proof (induction rule: owner_moves.induct)
  case (moves_admit s s1 b r s2)
  show ?case
    using moves_admit.hyps(2)
  proof (cases rule: inv_admit_run)
    case 1
    then show ?thesis using moves_admit by (simp add: same_call_def)
  next
    case (2 bound q t)
    have st: "steady s s1" using moves_admit.hyps(1) by (rule owner_moves_steady)
    then have env: "env_ok (sv_env s1)" and v: "sv_versions s1 = sv_versions s"
      using moves_admit.prems(3) by (simp_all add: steady_def)
    have "authorised_entry (admission_request_of c e ia bound) q t
       \<and> map_of (sv_versions s1) (aq_command_id (admission_request_of c e ia bound))
         = Some (aq_command_version (admission_request_of c e ia bound))"
      by (rule admitted_authority[OF 2(3) env]) (rule admit_hook_steady)
    then show ?thesis using 2(2) moves_admit.prems(2) v by (auto simp: admission_request_of_def)
  qed
next
  case (moves_other s s1 s2)
  then show ?case by (simp add: same_call_def)
qed simp

section \<open>Where a result comes from\<close>

lemma serves_option' [serving]:
  "keeps serves A \<Longrightarrow> (\<And>x. keeps serves (B x)) \<Longrightarrow> keeps serves (case v of None \<Rightarrow> A | Some x \<Rightarrow> B x)"
  by (cases v) auto

lemma serves_cond [serving]: "keeps serves A \<Longrightarrow> keeps serves B \<Longrightarrow> keeps serves (if b then A else B)"
  by (cases b) auto

lemma serves_let_if [serving]:
  "keeps serves A \<Longrightarrow> keeps serves B \<Longrightarrow> keeps serves (\<lambda>s. if P s then A s else B s)"
  by (rule serves_if)

lemma serves_inspect [serving]: "keeps serves (svc_inspect oid)"
  unfolding svc_inspect_def by (intro serving)

lemma serves_states_round [serving]: "keeps serves (states_round commands keys)"
  unfolding states_round_def Let_def by (intro serving)

lemma serves_states_loop [serving]: "keeps serves (states_loop n commands keys)"
  by (induction n) (auto intro!: serving)

lemma serves_states [serving]: "keeps serves (command_states ids)"
  unfolding command_states_def Let_def by (intro serving)

lemma serves_prod [serving]: "(\<And>a b. keeps serves (f a b)) \<Longrightarrow> keeps serves (case x of (a, b) \<Rightarrow> f a b)"
  by (cases x) simp

lemma serves_list [serving]:
  "keeps serves A \<Longrightarrow> (\<And>x xs. keeps serves (B x xs)) \<Longrightarrow> keeps serves (case l of [] \<Rightarrow> A | x # xs \<Rightarrow> B x xs)"
  by (cases l) auto

lemma serves_state [serving]: "keeps serves (svc_state command oid)"
proof -
  have "keeps serves (\<lambda>s. if valid_grant s g c command then (Inr ''authorised'', s)
      else if cp_request_policy (sv_policy s) \<noteq> ''allowed'' \<or> command \<in> cp_controls (sv_policy s)
      then (Inr ''denied'', s) else (Inr ''authorisation_required'', s))" for g c
    by (auto simp: keeps_def split: if_splits)
  then show ?thesis unfolding svc_state_def by (intro serving)
qed

lemma serves_access [serving]: "keeps serves (command_access available command)"
  unfolding command_access_def command_access_many_def by (intro serving)

lemma serves_verdict [serving]: "keeps serves (operation_verdict e a oid)"
  unfolding operation_verdict_def by (intro serving)

lemma serves_denied [serving]: "keeps serves (authority_denied_result available c e)"
  unfolding authority_denied_result_def by (intro serving)

lemma serves_preflight [serving]: "keeps serves (preflight available c e)"
  unfolding preflight_def by (intro serving)

lemma serves_init [serving]: "keeps serves (init_authorisation c e oid src)"
proof -
  have "keeps serves (new_authorisation oid src)"
    by (simp add: keeps_def new_authorisation_def)
  then show ?thesis unfolding init_authorisation_def check_owner_def by (intro serving)
qed

text \<open>What every constructed failure is: unsuccessful, and identified as its command.\<close>

definition failure_of :: "string \<Rightarrow> int \<Rightarrow> 'p command_result \<Rightarrow> bool" where
  "failure_of command_id version r =
     (\<not> successful (Some r) \<and> result_command_id r = command_id \<and> result_command_version r = version)"

named_theorems failing \<open>results that are failures of their command\<close>

lemma failure_new_error [failing]: "new_error c v e u ref rt = Inr r \<Longrightarrow> failure_of c v r"
  by (drule new_error_Inr) (auto simp: failure_of_def)

lemma failure_internal [failing]: "internal_error_result c cid v = Inr r \<Longrightarrow> failure_of cid v r"
  by (simp add: internal_error_result_def failing)

lemma failure_unknown [failing]:
  "unknown_result c e = Inr r \<Longrightarrow> failure_of (en_command_id e) (en_command_version e) r"
  by (auto simp: unknown_result_def bind_result_Inr failing split: if_splits)

lemma failure_consent [failing]: "consent_error_result ap c s cid v reason = Inr r \<Longrightarrow> failure_of cid v r"
  by (auto simp: consent_error_result_def Let_def failing split: prod.splits)

lemma failure_denied [failing]:
  "denied_result e a s = Inr r \<Longrightarrow> failure_of (en_command_id e) (en_command_version e) r"
  by (simp add: denied_result_def failing)

lemma failure_consumed [failing]:
  "consumed_result e u = Inr r \<Longrightarrow> failure_of (en_command_id e) (en_command_version e) r"
  by (auto simp: consumed_result_def failing split: if_splits)

lemma failure_unavailable [failing]:
  "unavailable_result c e = Inr r \<Longrightarrow> failure_of (en_command_id e) (en_command_version e) r"
  by (simp add: unavailable_result_def failing)

lemma failure_failure [failing]:
  "failure_result ap c e s x = Inr r \<Longrightarrow> failure_of (en_command_id e) (en_command_version e) r"
  by (cases x) (auto simp: failing split: if_splits)

lemma failure_preflight [failing]: "preflight_failure ap c s cid v x = Inr r \<Longrightarrow> failure_of cid v r"
  by (auto simp: preflight_failure_def failing split: exn.splits)

lemma failure_verdict:
  "operation_verdict e a oid s = (Inr (Some r), s') \<Longrightarrow> failure_of (en_command_id e) (en_command_version e) r"
  by (auto simp: operation_verdict_def bind_prog_Inr failing split: if_splits option.splits)

lemma failure_denial:
  "authority_denied_result available c e s = (Inr (Some r), s') \<Longrightarrow> failure_of (en_command_id e) (en_command_version e) r"
  by (auto simp: authority_denied_result_def bind_prog_Inr failing failure_verdict split: if_splits option.splits)

lemma preflight_result:
  "preflight available c e s = (Inr (Some r), s') \<Longrightarrow> failure_of (en_command_id e) (en_command_version e) r"
  by (auto simp: preflight_def bind_prog_Inr failing dest: failure_denial split: if_splits option.splits)

lemma preflight_passed:
  "preflight available c e s = (Inr None, s') \<Longrightarrow>
   missing_capabilities c e = [] \<and> (\<exists>s1. check_permission (en_command_id e) False s = (Inr (), s1))"
  by (auto simp: preflight_def bind_prog_Inr split: if_splits option.splits)

lemma validate_result_Inr:
  "validate_result ap e v = Inr r \<Longrightarrow> v = Some r \<and> result_command_id r = en_command_id e
     \<and> result_command_version r = en_command_version e \<and> (en_effect_class e = NoEffect \<longrightarrow> effect_free r)"
  by (auto simp: validate_result_def bind_result_Inr split: option.splits)

lemma run_owner_Inr:
  "run_owner ap c e request s = (Inr r, s') \<Longrightarrow>
   en_executor e c (iv_authorisation s) request s = (Inr (Some r), s') \<and> validate_result ap e (Some r) = Inr r"
  by (auto simp: run_owner_def bind_prog_Inr dest: validate_result_Inr)

lemma run_command_owner:
  "run_command ap c e request s = (Inr r, s') \<Longrightarrow> \<exists>s0. run_owner ap c e request s0 = (Inr r, s')"
  by (auto simp: run_command_def run_control_def run_ordinary_def bind_prog_Inr split: if_splits)

lemma execute_result:
  assumes "execute ap c e request s = (Inr r, s')"
  obtains "failure_of (en_command_id e) (en_command_version e) r"
  | s1 s2 where "run_command ap c e request s = (Inr r, s1)" "finalise_result ap c e r s1 = (Inr (), s2)"
      "s' = ap_deliver ap r s2"
proof -
  from assms obtain r0 s1 where start: "(case run_command ap c e request s of
          (Inl x, s1) \<Rightarrow> (failure_result ap c e s1 x, s1) | (Inr r, s1) \<Rightarrow> (Inr r, s1)) = (Inr r0, s1)"
    and settle: "settle_result ap c e r0 s1 = (Inr r, s')"
    by (auto simp: execute_def bind_prog_Inr)
  show thesis
  proof (cases "finalise_result ap c e r0 s1")
    case (Pair q s2)
    show thesis
    proof (cases q)
      case (Inl x)
      with settle Pair that(1) show thesis
        by (auto simp: settle_result_def failing split: if_splits)
    next
      case (Inr u)
      then have r: "r = r0" "s' = ap_deliver ap r0 s2" using settle Pair by (auto simp: settle_result_def)
      show thesis
      proof (cases "run_command ap c e request s")
        case (Pair q' t)
        then show thesis
          using start r that \<open>finalise_result ap c e r0 s1 = (q, s2)\<close> Inr
          by (cases q') (auto simp: failing)
      qed
    qed
  qed
qed

lemma invoke_result:
  fixes ap :: "('w, 'p) application" and s :: "'w invocation"
  assumes "invoke ap cat c request s = (Inr r, s')"
  obtains "failure_of (rt_command_id (rq_type request)) (rt_command_version (rq_type request)) r"
  | e s1 s2 s3 where "resolve cat request = Inr e" "preflight (ap_context_available ap) c e (fresh s) = (Inr (None :: 'p command_result option), s1)"
      "run_command ap c e request s1 = (Inr r, s2)" "finalise_result ap c e r s2 = (Inr (), s3)"
      "s' = ap_deliver ap r s3"
proof -
  let ?cid = "rt_command_id (rq_type request)" and ?v = "rt_command_version (rq_type request)"
  from assms have "rt_command_id (rq_type request) \<noteq> []"
    by (auto simp: invoke_def command_identity_def split: if_splits sum.splits)
  then have id: "command_identity request = Inr (?cid, ?v, rt_result_type (rq_type request))"
    by (simp add: command_identity_def)
  show thesis
  proof (cases "resolve cat request")
    case (Inl x)
    with assms id that(1) show thesis by (auto simp: invoke_def failing)
  next
    case (Inr e)
    note same = resolve_Inr[OF Inr]
    show thesis
    proof (cases "preflight (ap_context_available ap) c e (fresh s) :: (exn + 'p command_result option) \<times> 'w invocation")
      case (Pair q s1)
      consider x where "q = Inl x" | r0 where "q = Inr (Some r0)" | "q = Inr None"
        by (metis obj_sumE option.exhaust)
      then show thesis
      proof cases
        case 1
        with assms id Inr Pair that(1) show thesis by (auto simp: invoke_def failing)
      next
        case (2 r0)
        with assms id Inr Pair have "r = r0" by (simp add: invoke_def)
        with preflight_result Pair 2 same that(1) show thesis by metis
      next
        case 3
        then have "execute ap c e request s1 = (Inr r, s')" using assms id Inr Pair by (simp add: invoke_def)
        then show thesis
        proof (cases rule: execute_result)
          case 1
          with same that(1) show thesis by simp
        next
          case (2 s2 s3)
          with that(2) Inr Pair 3 show thesis by blast
        qed
      qed
    qed
  qed
qed

lemma init_authorisation_operation:
  "init_authorisation c e oid src s = (Inr ia, s') \<Longrightarrow> ia_operation_id ia = oid"
  unfolding init_authorisation_def new_authorisation_def
  by (cases oid) (auto simp: bind_prog_Inr)

lemma run_ordinary_moves:
  fixes ap :: "('w, 'p) application" and s s' :: "'w invocation"
  assumes "run_ordinary ap c e request s = (Inr r, s')" "owner_admits (ap_store ap) e"
  obtains ia s0 where "steady s s0" "iv_proof s0 = iv_proof s" "iv_authorisation s' = Some ia"
    "ia_operation_id ia = ic_operation_id c"
    "owner_moves (ap_store ap) c e ia s0 s'"
proof -
  from assms(1) obtain ia s1 s2 where init: "init_authorisation c e (ic_operation_id c) (Some (ap_source ap)) s = (Inr ia, s1)"
    and query: "admit_query (ap_store ap) c e ia request (s1\<lparr>iv_authorisation := Some ia\<rparr>) = (Inr (), s2)"
    and owner: "run_owner ap c e request s2 = (Inr r, s')"
    by (auto simp: run_ordinary_def bind_prog_Inr)
  have serves: "serves s s1" using init by (rule keepsD[OF serves_init])
  then have more: "svc.more s1 = svc.more s" by (simp add: serves_def)
  let ?s = "s1\<lparr>iv_authorisation := Some ia\<rparr>"
  have st: "steady s ?s" using serves_steady[OF serves] by (simp add: steady_def)
  have pr: "iv_proof ?s = iv_proof s" using more_fields(3)[OF more] by simp
  have m1: "owner_moves (ap_store ap) c e ia ?s s2"
  proof (cases "en_preparation e")
    case None
    with query show ?thesis by (auto simp: admit_query_def intro: moves_refl)
  next
    case (Some q)
    show ?thesis
    proof (cases "pr_owner_guarded q")
      case True
      with query Some show ?thesis by (auto simp: admit_query_def intro: moves_refl)
    next
      case False
      with query Some obtain b t where "inv_admit (ap_store ap) c e ia b t = (Inr (), s2)"
        and "t = ?s \<or> (\<exists>x. pr_planner q c None request (ia_frozen_inputs ia) ?s = (x, t))"
        by (auto simp: admit_query_def bind_prog_Inr split: if_splits)
      moreover have "keeps same_call (pr_planner q c None request (ia_frozen_inputs ia))"
        using assms(2) Some by (simp add: owner_admits_def)
      ultimately have "same_call ?s t" by (auto dest: keepsD simp: call.frame_refl)
      then have "owner_moves (ap_store ap) c e ia ?s t" by (rule moves_other[OF moves_refl])
      then show ?thesis using \<open>inv_admit _ _ _ _ b t = _\<close> by (rule moves_admit)
    qed
  qed
  have keeps_ia: "iv_authorisation y = iv_authorisation x" if "owner_moves (ap_store ap) c e ia x y" for x y :: "'w invocation"
    using that
  proof (induction rule: owner_moves.induct)
    case (moves_admit s s1 b r s2)
    from moves_admit.hyps(2) have "iv_authorisation s2 = iv_authorisation s1"
    proof (cases rule: inv_admit_run)
      case (2 bound p t)
      have "keeps same_call (svc_admit (admission_request_of c e ia bound)
          (if en_effect_class e \<noteq> NoEffect then Some (record_intent (ap_store ap) ia bound) else None))"
        by (rule call.frame_admit) (rule admit_hook_call)
      from keepsD[OF this 2(3)] 2(2) show ?thesis by (simp add: same_call_def)
    qed (simp add: same_call_def)
    with moves_admit.IH show ?case by simp
  qed (simp_all add: same_call_def)
  have "iv_authorisation s2 = Some ia" using keeps_ia[OF m1] by simp
  with run_owner_Inr[OF owner] assms(2) have m2: "owner_moves (ap_store ap) c e ia s2 s'"
    by (auto simp: owner_admits_def)
  from owner_moves_trans[OF m2 m1] have m: "owner_moves (ap_store ap) c e ia ?s s'" .
  from that[OF st pr _ init_authorisation_operation[OF init] m] keeps_ia[OF m] show thesis by simp
qed

lemma finalised_success:
  assumes "finalise_result ap c e r s = (Inr (), s')" "iv_authorisation s \<noteq> None" "successful (Some r)"
  shows "iv_proof s \<noteq> None"
  using assms by (auto simp: finalise_result_def inv_finalise_def bind_prog_Inr)

section \<open>What finalisation keeps\<close>

definition same_claims :: "'w invocation \<Rightarrow> 'w invocation \<Rightarrow> bool" where
  "same_claims s t = (iv_authorisation t = iv_authorisation s \<and> iv_control t = iv_control s
     \<and> iv_intent t = iv_intent s \<and> iv_world t = iv_world s)"

interpretation claims: framing same_claims
proof
  show "same_claims s t" if "serves s t" for s t :: "'a invocation"
    using that more_fields[of t s] by (simp add: serves_def same_claims_def)
qed (simp_all add: same_claims_def)

lemma claims_publish: "keeps same_claims (publish_outcome os e c r)"
proof -
  have "keeps same_claims read_clock" by (auto simp: keeps_def read_clock_def same_claims_def)
  moreover have "keeps same_claims (on_ledger f)" for f :: "receipt_dir \<Rightarrow> receipt_dir \<Rightarrow> (exn + 'x) \<times> receipt_dir"
    by (auto simp: keeps_def on_ledger_def same_claims_def Let_def split: prod.splits)
  ultimately show ?thesis
    unfolding publish_outcome_def invocation_outcome_of_def ledger_finalise_def split_beta Let_def
    by (intro claims.frame_bind claims.frame_pure)
qed

lemma spend_more:
  "same_claims s (spend_consent s) \<and> iv_ledger (spend_consent s) = iv_ledger s"
proof -
  have "iv_authorisation t = iv_authorisation s \<and> iv_control t = iv_control s \<and> iv_intent t = iv_intent s
      \<and> iv_world t = iv_world s \<and> iv_ledger t = iv_ledger s"
    if "svc_finish p (s\<lparr>iv_finalised := True\<rparr>) = (q, t)" for p q and t :: "'a invocation"
  proof -
    have "keeps serves (svc_finish p :: ('a invocation, unit) prog)"
      unfolding svc_finish_def on_specific_def by (intro serving)
    from keepsD[OF this that] have "svc.more t = svc.more (s\<lparr>iv_finalised := True\<rparr>)" by (simp add: serves_def)
    from more_fields[OF this] show ?thesis by simp
  qed
  then show ?thesis
    by (auto simp: spend_consent_def same_claims_def Let_def split: option.splits)
      (metis prod.collapse)+
qed

lemma finalise_claims:
  assumes "finalise_result ap c e r s = (q, s')"
  shows "same_claims s s'"
proof -
  have inv: "same_claims s s'" if "inv_finalise (ap_store ap) e c (Some r) s = (q, s')"
  proof -
    have step: "(let (r', s1) = (if iv_intent s = None then (Inr (), s) else publish_outcome (ap_store ap) e c (Some r) s)
          in (r', spend_consent s1)) = (q, s') \<Longrightarrow> same_claims s s'" for q
      using keepsD[OF claims_publish] spend_more claims.frame_trans claims.frame_refl
      by (auto simp: Let_def split: prod.splits if_splits) blast+
    from that show ?thesis
      unfolding inv_finalise_def using step
      by (auto elim!: bind_prog_cases simp: check_that_def claims.frame_refl split: if_splits)
  qed
  from assms inv keepsD[OF claims_publish] show ?thesis
    by (auto simp: finalise_result_def claims.frame_refl split: if_splits)
qed

section \<open>What a published outcome says\<close>

fun result_effects :: "'p command_result \<Rightarrow> committed_effect list" where
  "result_effects (Ok r) = ok_effects r"
| "result_effects (Partial r) = pt_effects r"
| "result_effects (Error r) = []"

fun result_execution :: "'p command_result \<Rightarrow> execution_state" where
  "result_execution (Ok r) = Succeeded"
| "result_execution (Partial r) = PartialRun"
| "result_execution (Error r) = Failed"

definition describes :: "('e, 'q) entry \<Rightarrow> invocation_context \<Rightarrow> 'p command_result \<Rightarrow> invocation_outcome \<Rightarrow> bool" where
  "describes e c r x =
     (rc_reference (io_receipt x) = ic_invocation_id c \<and> rc_command_id (io_receipt x) = en_command_id e
      \<and> rc_command_version (io_receipt x) = en_command_version e
      \<and> rc_committed_effects (io_receipt x) = result_effects r \<and> io_execution x = result_execution r)"

lemma outcome_facts_success:
  assumes "successful (Some r)"
  shows "\<exists>st. outcome_facts effect (Some r) = (result_execution r, st, result_effects r)"
  using assms by (cases r) (auto simp: outcome_facts_def)

lemma outcome_of_success:
  assumes "invocation_outcome_of e c (Some r) s = (Inr x, s')" "successful (Some r)"
    and "list_all (\<lambda>f. check_effect f = Inr f) (result_effects r)"
  shows "describes e c r x \<and> valid_outcome x"
proof -
  obtain st where facts: "outcome_facts (en_effect_class e) (Some r) = (result_execution r, st, result_effects r)"
    using outcome_facts_success[OF assms(2)] by blast
  from assms(1) obtain now rc where "outcome_reference (ic_invocation_id c) = Inr (ic_invocation_id c)"
    and rc: "check_receipt \<lparr>rc_reference = ic_invocation_id c, rc_command_id = en_command_id e,
          rc_command_version = en_command_version e, rc_state = st, rc_recorded_at = now,
          rc_committed_effects = result_effects r\<rparr> = Inr rc"
    and "check_outcome \<lparr>io_receipt = rc, io_execution = result_execution r, io_config_revision = None\<rparr> = Inr x"
    unfolding invocation_outcome_of_def facts split_beta Let_def fst_conv snd_conv
    by (auto simp: bind_prog_Inr outcome_reference_def bind_result_Inr)
  then show ?thesis using assms(3)
    by (auto simp: check_receipt_Inr check_outcome_Inr describes_def valid_outcome_def valid_receipt_def)
qed

lemma on_ledger_run:
  "on_ledger f s = (r, t) \<longleftrightarrow> (\<exists>d. f (iv_legacy s) (iv_others s (iv_accesses s) (iv_ledger s)) = (r, d)
     \<and> t = s\<lparr>iv_ledger := d, iv_accesses := iv_accesses s + 1\<rparr>)"
  by (cases "f (iv_legacy s) (iv_others s (iv_accesses s) (iv_ledger s))") (auto simp: on_ledger_def)

lemma publish_success:
  assumes "publish_outcome os e c (Some r) s = (Inr (), t)" "successful (Some r)"
    and "list_all (\<lambda>f. check_effect f = Inr f) (result_effects r)"
    and "check_ownership (os_ownership os) = Inr (os_ownership os)" "faithful_format (os_format os)"
  shows "\<exists>x. describes e c r x
     \<and> read_outcome os (rd_files (iv_ledger t)) (outcome_name (receipt_name (os_hex os) (ic_invocation_id c))) = Inr (Some x)"
proof -
  from assms(1) obtain x s1 where out: "invocation_outcome_of e c (Some r) s = (Inr x, s1)"
    and fin: "ledger_finalise os x s1 = (Inr (), t)"
    by (auto simp: publish_outcome_def bind_prog_Inr)
  note x = outcome_of_success[OF out assms(2,3)]
  from fin obtain legacy now d d' where "owned_finalise os legacy now x d = (Inr (), d')" and "iv_ledger t = d'"
    by (auto simp: ledger_finalise_def bind_prog_Inr on_ledger_run)
  then have "owned_finalise os legacy now x d = (Inr (), iv_ledger t)" by simp
  from finalise_published(1)[OF this _ assms(4,5)] x show ?thesis by (auto simp: describes_def)
qed

end
