(* ===== verification/Application_Properties.thy ===== *)
theory Application_Properties
  imports Application_Runs Consent_Properties Ledger_Properties
begin

text \<open>
  What the application boundary promises: nothing runs before the preflight passed, a success was
  admitted under live authority, results carry the identity of the request and a durable outcome,
  uncertainty is reported as such, and a repeated control invocation is never executed again.
\<close>

section \<open>A sample application\<close>

definition demo_request_type :: "string \<Rightarrow> request_type" where
  "demo_request_type cid = \<lparr>rt_name = ''m:'' @ cid, rt_command_id = cid, rt_command_version = 1,
     rt_result_type = ''m:P'', rt_fields = []\<rparr>"

definition demo_typed :: "string \<Rightarrow> typed_request" where
  "demo_typed cid = \<lparr>rq_type = demo_request_type cid, rq_wire = JObj []\<rparr>"

text \<open>An owner that admits its operation, counts the run in the world, and reports one effect.\<close>

definition demo_executor :: "owned_store \<Rightarrow> (nat, unit) command_entry \<Rightarrow> (nat, unit) executor" where
  "demo_executor os e c adm request =
     (case adm of
        None \<Rightarrow> raise_prog RuntimeError
      | Some ia \<Rightarrow>
          bind_prog (inv_admit os c e ia None) (\<lambda>_ s.
          (Inr (Some (Ok \<lparr>ok_command_id = ''a.b'', ok_command_version = 1, ok_payload = (),
             ok_effects = [\<lparr>ce_kind = ''document'', ce_subject = ''x.md''\<rparr>], ok_warnings = []\<rparr>)),
           s\<lparr>iv_world := iv_world s + 1\<rparr>)))"

definition demo_base_entry :: "effect_class \<Rightarrow> initial_authorisation_class \<Rightarrow> (nat, unit) executor \<Rightarrow> (nat, unit) command_entry" where
  "demo_base_entry effect initial ex = \<lparr>en_request_type = demo_request_type ''a.b'', en_executor = ex,
     en_dependency_tier = Portable, en_locality = SelectedBrainLocal, en_required = [''index''], en_optional = [],
     en_authority = Contributor, en_effect_class = effect, en_initial_class = initial,
     en_retry_class = ReceiptRequired,
     en_projections = map (\<lambda>p. \<lparr>pe_projection = p, pe_supported = True, pe_reason = None\<rparr>) APPLICATION_PROJECTIONS,
     en_summary = ''Write one note.'', en_open_world = False, en_lifecycle = ActiveCommand, en_replacement = None,
     en_preparation = (if initial = ControlClass then None
        else Some \<lparr>pr_planner = (\<lambda>_ _ _ _. raise_prog ValueError), pr_owner_guarded = True\<rparr>),
     en_retain_output = True, en_output_owner_bound = False\<rparr>"

definition demo_owned :: owned_store where "demo_owned = demo_ledger ''p''"

definition demo_write :: "(nat, unit) command_entry" where
  "demo_write = demo_base_entry SelectedBrainMutation ContentClass
     (demo_executor demo_owned (demo_base_entry SelectedBrainMutation ContentClass (\<lambda>_ _ _. raise_prog RuntimeError)))"

definition demo_catalogue_of :: "(nat, unit) command_entry \<Rightarrow> ((nat, unit) executor, nat preparation) catalogue" where
  "demo_catalogue_of e = \<lparr>ct_entries = [e], ct_schema = CATALOGUE_SCHEMA, ct_result_schema = RESULT_SCHEMA,
     ct_interface_epoch = 3\<rparr>"

definition demo_app :: "(nat, unit) application" where
  "demo_app = \<lparr>ap_store = demo_owned, ap_context_available = True, ap_source = ''cli-request'',
     ap_message = (\<lambda>_. ''refused''), ap_isinstance = (\<lambda>_ _. True),
     ap_text_refusal = (\<lambda>_. \<lparr>ce_code = Conflict, ce_message = ''text'', ce_details = None, ce_next_action = None\<rparr>),
     ap_deliver = (\<lambda>_ s. s)\<rparr>"

definition demo_invocation :: invocation_context where
  "demo_invocation = \<lparr>ic_brain_id = ''b'', ic_vault_root = ''/v'', ic_profile = ''owner'', ic_tier = Managed,
     ic_capabilities = \<lparr>cs_token = ''t'', cs_freshness = Fresh, cs_observed_at = Aware 0,
        cs_capabilities = [(''index'', Available)]\<rparr>,
     ic_providers = [''index''], ic_correlation_id = ''x'', ic_invocation_id = ''i'', ic_operation_id = None,
     ic_dry_run = False, ic_workspace_dir = None\<rparr>"

definition demo_call :: "nat invocation" where
  "demo_call = (let v = demo_live {''a.b''} in
     \<lparr>sv_hex = sv_hex v, sv_uuid = sv_uuid v, sv_uuids_drawn = sv_uuids_drawn v, sv_identity = sv_identity v,
      sv_policy = sv_policy v, sv_versions = sv_versions v, sv_refresh = None, sv_refreshes = 0,
      sv_store = sv_store v, sv_env = [], iv_ledger = demo_dir, iv_legacy = demo_dir, iv_others = (\<lambda>_ d. d),
      iv_accesses = 0, iv_clock = (\<lambda>n. Aware (1000 + int n)), iv_readings = 0, iv_authorisation = None,
      iv_control = None, iv_proof = None, iv_intent = None, iv_finalised = False, iv_world = 0\<rparr>)"

definition demo_run :: "(exn + unit command_result) \<times> nat invocation" where
  "demo_run = invoke demo_app (demo_catalogue_of demo_write) demo_invocation (demo_typed ''a.b'') demo_call"

lemma demo_run_result:
  "case fst demo_run of Inl _ \<Rightarrow> False | Inr r \<Rightarrow> successful (Some r) \<and> result_effects r = [\<lparr>ce_kind = ''document'', ce_subject = ''x.md''\<rparr>]"
  "iv_world (snd demo_run) = 1" "iv_intent (snd demo_run) \<noteq> None" "iv_authorisation (snd demo_run) \<noteq> None"
  by code_simp+



lemma demo_run_value:
  obtains r where "invoke demo_app (demo_catalogue_of demo_write) demo_invocation (demo_typed ''a.b'') demo_call = (Inr r, snd demo_run)"
    "successful (Some r)"
  using demo_run_result(1) unfolding demo_run_def by (auto split: sum.splits) (metis prod.collapse)

lemma demo_resolves: "resolve (demo_catalogue_of demo_write) (demo_typed ''a.b'') = Inr demo_write"
  by (simp add: resolve_def command_identity_def demo_catalogue_of_def demo_typed_def demo_request_type_def
      demo_write_def demo_base_entry_def en_command_id_def en_command_version_def)

lemma demo_write_fields [simp]:
  "en_initial_class demo_write = ContentClass" "en_effect_class demo_write = SelectedBrainMutation"
  "en_command_id demo_write = ''a.b''" "en_command_version demo_write = 1" "ap_store demo_app = demo_owned"
  "sv_env demo_call = []" "ic_invocation_id demo_invocation = ''i''"
  by (simp_all add: demo_write_def demo_base_entry_def en_command_id_def en_command_version_def
      demo_request_type_def demo_app_def demo_call_def demo_invocation_def Let_def)

section \<open>Admission\<close>



text \<open>
  Every result is about the command that was asked for: its identity is the request's, and a
  successful result of a read-only command reports no effects.
\<close>

theorem results_are_identified:
  assumes "invoke ap cat c request s = (Inr r, s')"
  shows "result_command_id r = rt_command_id (rq_type request)
     \<and> result_command_version r = rt_command_version (rq_type request)
     \<and> (\<forall>e. resolve cat request = Inr e \<and> en_effect_class e = NoEffect \<and> successful (Some r) \<longrightarrow> effect_free r)"
  using assms
proof (cases rule: invoke_result)
  case 1
  then show ?thesis by (simp add: failure_of_def)
next
  case (2 e s1 s2 s3)
  from run_command_owner[OF 2(3)] obtain s0 where "run_owner ap c e request s0 = (Inr r, s2)" by blast
  from validate_result_Inr[OF conjunct2[OF run_owner_Inr[OF this]]] resolve_Inr[OF 2(1)] 2(1)
  show ?thesis by auto
qed

theorem results_are_identified_witness:
  "\<exists>r. fst demo_run = Inr r \<and> result_command_id r = ''a.b'' \<and> result_command_version r = 1"
proof -
  obtain r where run: "invoke demo_app (demo_catalogue_of demo_write) demo_invocation (demo_typed ''a.b'') demo_call = (Inr r, snd demo_run)"
    "successful (Some r)" by (rule demo_run_value)
  have "rt_command_id (rq_type (demo_typed ''a.b'')) = ''a.b''" "rt_command_version (rq_type (demo_typed ''a.b'')) = 1"
    by (simp_all add: demo_typed_def demo_request_type_def)
  moreover have "fst demo_run = Inr r" using run(1) unfolding demo_run_def by (metis fst_conv)
  ultimately show ?thesis using results_are_identified[OF run(1)] by simp
qed

text \<open>
  C5. Nothing runs before the preflight. If an invocation changed anything outside the consent
  service, then its command is installed and was within the permissions of the credential after
  they were refreshed, the dependency tier supports it, every provider it requires is bound and
  available, and unless it is a control or selects a prepared operation, access was authorised.
\<close>

theorem nothing_runs_before_preflight:
  fixes ap :: "('w, 'p) application" and s :: "'w invocation"
  assumes "invoke ap cat c request s = (r, s')" "iv_world s' \<noteq> iv_world s \<or> iv_ledger s' \<noteq> iv_ledger s"
  shows "\<exists>e s1. resolve cat request = Inr e
     \<and> check_permission (en_command_id e) False (fresh s) = (Inr (), s1)
     \<and> en_command_id e \<in> cp_permissions (sv_policy s1)
     \<and> supports (ic_tier c) (en_dependency_tier e)
     \<and> (\<forall>p \<in> set (en_required e). p \<in> set (ic_providers c) \<and> availability_of (ic_capabilities c) p = Available)
     \<and> (en_initial_class e \<noteq> ControlClass \<and> ic_operation_id c = None \<longrightarrow>
          (\<exists>a s2. command_access (ap_context_available ap) (en_command_id e) s1 = (Inr a, s2) \<and> cm_state a = AuthorisedState))"
proof -
  have fr: "iv_world (fresh s) = iv_world s" "iv_ledger (fresh s) = iv_ledger s" by (simp_all add: fresh_def)
  obtain e where e: "resolve cat request = Inr e"
    using assms by (cases "resolve cat request") (auto simp: invoke_def split: sum.splits)
  let ?pre = "preflight (ap_context_available ap) c e (fresh s) :: (exn + 'p command_result option) \<times> 'w invocation"
  obtain q s1 where pre: "?pre = (q, s1)" by (cases ?pre)
  have "serves (fresh s) s1" using pre by (rule keepsD[OF serves_preflight])
  then have same: "iv_world s1 = iv_world s" "iv_ledger s1 = iv_ledger s"
    using more_fields[of s1 "fresh s"] fr by (simp_all add: serves_def)
  have passed: "?pre = (Inr None, s1)"
  proof (cases q)
    case (Inl x)
    with assms e pre same show ?thesis by (auto simp: invoke_def split: sum.splits)
  next
    case (Inr o')
    with assms e pre same show ?thesis by (cases o') (auto simp: invoke_def split: sum.splits)
  qed
  then obtain s0 where perm: "check_permission (en_command_id e) False (fresh s) = (Inr (), s0)"
    and missing: "missing_capabilities c e = []"
    and access: "en_initial_class e \<noteq> ControlClass \<longrightarrow>
       (authority_denied_result (ap_context_available ap) c e s0 :: (exn + 'p command_result option) \<times> 'w invocation) = (Inr None, s1)"
    by (auto simp: preflight_def bind_prog_Inr split: if_splits option.splits)
  have "en_command_id e \<in> cp_permissions (sv_policy s0)"
    using perm by (auto simp: check_permission_def bind_prog_Inr permission_Inr)
  moreover have "supports (ic_tier c) (en_dependency_tier e)"
    and "\<forall>p \<in> set (en_required e). p \<in> set (ic_providers c) \<and> availability_of (ic_capabilities c) p = Available"
    using missing by (auto simp: missing_capabilities_def map_filter_def filter_empty_conv split: if_splits)
  moreover have "\<exists>a s2. command_access (ap_context_available ap) (en_command_id e) s0 = (Inr a, s2) \<and> cm_state a = AuthorisedState"
    if "en_initial_class e \<noteq> ControlClass" "ic_operation_id c = None"
    using access that by (auto simp: authority_denied_result_def bind_prog_Inr split: if_splits)
  ultimately show ?thesis using e perm by (intro exI[of _ e] exI[of _ s0]) simp
qed

theorem nothing_runs_before_preflight_witness:
  "\<exists>(s1 :: nat invocation). ''a.b'' \<in> cp_permissions (sv_policy s1) \<and> iv_world (snd demo_run) = 1"
proof -
  obtain r where run: "invoke demo_app (demo_catalogue_of demo_write) demo_invocation (demo_typed ''a.b'') demo_call = (Inr r, snd demo_run)"
    "successful (Some r)" by (rule demo_run_value)
  have "iv_world demo_call = 0" by (simp add: demo_call_def Let_def)
  with demo_run_result(2) have "iv_world (snd demo_run) \<noteq> iv_world demo_call \<or> iv_ledger (snd demo_run) \<noteq> iv_ledger demo_call"
    by simp
  from nothing_runs_before_preflight[OF run(1) this] demo_resolves demo_run_result(2) show ?thesis by auto
qed

section \<open>Uncertainty\<close>








section \<open>Durability\<close>

text \<open>
  C9. A reported success is on record. If \<open>execute\<close> returns \<open>Ok\<close> or \<open>Partial\<close> for an invocation that
  recorded an intent, then the ledger holds its final outcome, readable by the owner, with the same
  command, execution state and list of committed effects.
\<close>

theorem success_is_on_record:
  assumes "execute ap c e request s = (Inr r, s')" "successful (Some r)"
    and "\<forall>r t. same_claims t (ap_deliver ap r t) \<and> iv_ledger (ap_deliver ap r t) = iv_ledger t"
    and "iv_intent s' \<noteq> None \<and> iv_authorisation s' \<noteq> None \<or> iv_authorisation s' = None \<and> iv_control s' \<noteq> None"
    and "list_all (\<lambda>f. check_effect f = Inr f) (result_effects r)"
    and "check_ownership (os_ownership (ap_store ap)) = Inr (os_ownership (ap_store ap))"
    and "faithful_format (os_format (ap_store ap))"
  shows "\<exists>x. describes e c r x
     \<and> read_outcome (ap_store ap) (rd_files (iv_ledger s'))
         (outcome_name (receipt_name (os_hex (ap_store ap)) (ic_invocation_id c))) = Inr (Some x)"
  using assms(1)
proof (cases rule: execute_result)
  case 1
  with assms(2) show ?thesis by (simp add: failure_of_def)
next
  case (2 s1 s2)
  have "same_claims s1 s2" using 2(2) by (rule finalise_claims)
  then have claims: "iv_intent s1 = iv_intent s'" "iv_authorisation s1 = iv_authorisation s'" "iv_control s1 = iv_control s'"
    and ledger: "iv_ledger s' = iv_ledger s2"
    using assms(3) 2(3) by (simp_all add: same_claims_def)
  note published = publish_success[OF _ assms(2,5-7)]
  show ?thesis
  proof (cases "iv_authorisation s' = None")
    case True
    with 2(2) claims assms(4) have "publish_outcome (ap_store ap) e c (Some r) s1 = (Inr (), s2)"
      by (simp add: finalise_result_def)
    from published[OF this] show ?thesis by (simp add: ledger)
  next
    case False
    with 2(2) claims assms(4) obtain t where "publish_outcome (ap_store ap) e c (Some r) s1 = (Inr (), t)" "s2 = spend_consent t"
      by (auto simp: finalise_result_def inv_finalise_def bind_prog_Inr Let_def split: prod.splits)
    with published[OF this(1)] spend_more[of t] show ?thesis by (simp add: ledger)
  qed
qed

definition demo_executed :: "(exn + unit command_result) \<times> nat invocation" where
  "demo_executed = execute demo_app demo_invocation demo_write (demo_typed ''a.b'') demo_call"

lemma demo_executed_result:
  "case fst demo_executed of Inl _ \<Rightarrow> False | Inr r \<Rightarrow> successful (Some r)
     \<and> list_all (\<lambda>f. check_effect f = Inr f) (result_effects r)"
  "iv_intent (snd demo_executed) \<noteq> None" "iv_authorisation (snd demo_executed) \<noteq> None"
  by code_simp+

theorem success_is_on_record_witness:
  "\<exists>r x. fst demo_executed = Inr r \<and> describes demo_write demo_invocation r x
     \<and> read_outcome demo_owned (rd_files (iv_ledger (snd demo_executed)))
         (outcome_name (receipt_name (os_hex demo_owned) ''i'')) = Inr (Some x)"
proof -
  obtain r where r: "fst demo_executed = Inr r" "successful (Some r)" "list_all (\<lambda>f. check_effect f = Inr f) (result_effects r)"
    using demo_executed_result(1) by (auto split: sum.splits)
  then have run: "execute demo_app demo_invocation demo_write (demo_typed ''a.b'') demo_call = (Inr r, snd demo_executed)"
    by (simp add: demo_executed_def prod_eq_iff)
  have deliver: "\<forall>r t. same_claims t (ap_deliver demo_app r t) \<and> iv_ledger (ap_deliver demo_app r t) = iv_ledger t"
    by (simp add: demo_app_def claims.frame_refl)
  from success_is_on_record[OF run r(2) deliver _ r(3)] demo_executed_result(2,3) demo_ledger_fields r(1)
  show ?thesis by (simp add: demo_owned_def)
qed

section \<open>Repeated controls\<close>

text \<open>
  C10. A repeated control invocation is recovery, not a new effect: if the ledger already holds an
  intent of this owner for the invocation, the control's owner is not run (nothing outside the
  service and the ledger's access counters changes) and the invocation does not succeed.
\<close>

theorem repeated_control_is_not_executed:
  fixes ap :: "('w, 'p) application"
  assumes "ledger_read (ap_store ap) (ic_invocation_id c) s = (Inr found, t)" "ol_intent found \<noteq> None"
    and "en_initial_class e = ControlClass" "en_effect_class e \<noteq> NoEffect" "\<not> pure_inspection request"
  shows "\<exists>x s1. run_command ap c e request s = (Inl x, s1) \<and> iv_world s1 = iv_world s
     \<and> (\<forall>r s'. execute ap c e request s = (Inr r, s') \<longrightarrow> \<not> successful (Some r))"
proof -
  have world: "iv_world t = iv_world s"
    using assms(1) by (auto simp: ledger_read_def bind_prog_Inr read_clock_def on_ledger_run)
  obtain x s1 where begin_: "begin_control ap c e request s = (Inl x, s1)" "iv_world s1 = iv_world s"
  proof -
    let ?digest = "bind_result (bind_operation (sv_hex s) (request_of request) [] [] [])
        (\<lambda>b. Inr (content_digest (sv_hex s) (request_text b))) :: exn + string"
    show thesis
    proof (cases ?digest)
      case (Inl x)
      then show thesis using that[of x s] by (simp add: begin_control_def bind_prog_def)
    next
      case (Inr digest)
      show thesis
      proof (cases "py_blank (ic_invocation_id c)")
        case True
        with Inr show thesis
          using that[of ValueError s] by (simp add: begin_control_def bind_prog_def outcome_reference_def)
      next
        case False
        with Inr assms(1,2) show thesis
          using that[of "ConsentError ''operation_entered''" t] world
          by (auto simp: begin_control_def bind_prog_def outcome_reference_def check_that_def)
      qed
    qed
  qed
  obtain x' s1' where run: "run_command ap c e request s = (Inl x', s1')" "iv_world s1' = iv_world s"
  proof (cases "ic_operation_id c = None")
    case True
    with begin_ assms(3-5) that[of x s1] show thesis
      by (simp add: run_command_def run_control_def bind_prog_def)
  next
    case False
    with assms(3) that[of "ConsentError ''invalid_request''" s] show thesis
      by (simp add: run_command_def run_control_def bind_prog_def check_that_def)
  qed
  have "\<not> successful (Some r)" if "execute ap c e request s = (Inr r, s')" for r s'
    using that by (cases rule: execute_result) (simp_all add: failure_of_def run)
  with run show ?thesis by blast
qed

definition demo_control :: "(nat, unit) command_entry" where
  "demo_control = demo_base_entry SelectedBrainMutation ControlClass
     (\<lambda>_ _ _ s. (Inr None, s\<lparr>iv_world := iv_world s + 1\<rparr>))"

lemma demo_read_again:
  "case fst (ledger_read demo_owned ''i'' (snd demo_executed)) of Inl _ \<Rightarrow> False | Inr found \<Rightarrow> ol_intent found \<noteq> None"
  by code_simp

theorem repeated_control_is_not_executed_witness:
  "\<exists>x s1. run_command demo_app demo_invocation demo_control (demo_typed ''a.b'') (snd demo_executed) = (Inl x, s1)
     \<and> iv_world s1 = iv_world (snd demo_executed)"
proof -
  obtain found where found: "fst (ledger_read demo_owned ''i'' (snd demo_executed)) = Inr found" "ol_intent found \<noteq> None"
    using demo_read_again by (auto split: sum.splits)
  then have read: "ledger_read (ap_store demo_app) (ic_invocation_id demo_invocation) (snd demo_executed)
      = (Inr found, snd (ledger_read demo_owned ''i'' (snd demo_executed)))" by (simp add: prod_eq_iff)
  have "en_initial_class demo_control = ControlClass" "en_effect_class demo_control \<noteq> NoEffect"
    "\<not> pure_inspection (demo_typed ''a.b'')" by code_simp+
  from repeated_control_is_not_executed[OF read found(2) this] show ?thesis by blast
qed

end
