(* ===== verification/Maintenance_Findings.thy ===== *)
theory Maintenance_Findings
  imports Preparation
begin

text \<open>
  \<open>_bootstrap/maintenance_findings.py\<close>: the vocabulary of maintenance findings, how a finding is
  identified and fingerprinted, and how findings are collapsed into the groups that decisions
  attach to. A mapping of JSON scalars (subject, evidence) is its list of items; \<open>hx\<close> is the
  hexadecimal SHA-256 of a text.
\<close>

section \<open>Vocabulary\<close>

datatype disposition = Automatic | Judgement | ReportOnly

datatype finding_owner = BrainOwner | MachineOwner

datatype identity = SubjectIdentity | EvidenceIdentity | KindOnly

type_synonym mapping = "(string \<times> json) list"

text \<open>\<open>Identity.admits\<close>\<close>

definition has_subject :: "mapping \<Rightarrow> bool" where
  "has_subject subject = list_ex (\<lambda>(k, v). v \<noteq> JNull) subject"

fun admits :: "identity \<Rightarrow> mapping \<Rightarrow> mapping option \<Rightarrow> bool" where
  "admits SubjectIdentity subject evidence = (has_subject subject \<and> evidence = None)"
| "admits EvidenceIdentity subject evidence = (case evidence of None \<Rightarrow> False | Some e \<Rightarrow> 0 < length e)"
| "admits KindOnly subject evidence = (\<not> has_subject subject \<and> evidence = None)"

text \<open>\<open>Identity.honoured\<close>: \<open>next\<close> over a generator raises \<open>StopIteration\<close> when none admits.\<close>

definition honoured :: "mapping \<Rightarrow> mapping option \<Rightarrow> exn + identity" where
  "honoured subject evidence =
     (case find (\<lambda>i. admits i subject evidence) [EvidenceIdentity, SubjectIdentity, KindOnly] of
        None \<Rightarrow> Inl StopIteration
      | Some i \<Rightarrow> Inr i)"

section \<open>Keys and fingerprints\<close>

definition KEY_LENGTH :: nat where "KEY_LENGTH = 16"

definition finding_digest :: "(string \<Rightarrow> string) \<Rightarrow> json \<Rightarrow> string" where
  "finding_digest hx value = take KEY_LENGTH (hx (canonical_json value))"

definition finding_key :: "(string \<Rightarrow> string) \<Rightarrow> string \<Rightarrow> string \<Rightarrow> mapping \<Rightarrow> exn + string" where
  "finding_key hx namespace kind subject =
     (if py_blank namespace \<or> py_blank kind then Inl ValueError
      else Inr (finding_digest hx (JArr [JStr namespace, JStr kind, JObj subject])))"

definition finding_fingerprint :: "(string \<Rightarrow> string) \<Rightarrow> string \<Rightarrow> mapping option \<Rightarrow> string" where
  "finding_fingerprint hx key evidence =
     (case evidence of
        None \<Rightarrow> key
      | Some e \<Rightarrow> finding_digest hx (JArr [JStr key, JObj e]))"

definition family_key :: "(string \<Rightarrow> string) \<Rightarrow> string \<Rightarrow> string \<Rightarrow> exn + string" where
  "family_key hx namespace scope = finding_key hx namespace ''family'' [(''scope'', JStr scope)]"

section \<open>Findings\<close>

record finding =
  mf_check :: string
  mf_severity :: string
  mf_file :: "string option"
  mf_message :: string
  mf_disposition :: disposition
  mf_code :: "string option"
  mf_scope :: "string option"
  mf_owner :: "finding_owner option"
  mf_key :: "string option"
  mf_subject :: "mapping option"
  mf_evidence :: "mapping option"
  mf_identity :: "identity option"
  mf_breach :: "string option"

text \<open>\<open>value or {}\<close>\<close>

definition or_empty :: "mapping option \<Rightarrow> mapping" where
  "or_empty m = (case m of None \<Rightarrow> [] | Some kvs \<Rightarrow> kvs)"

definition check_finding :: "finding \<Rightarrow> exn + finding" where
  "check_finding f =
     bind_result (check_that (\<not> (mf_disposition f \<noteq> ReportOnly \<and> (mf_key f = None \<or> mf_owner f = None))) ValueError) (\<lambda>_.
     if mf_disposition f = Judgement \<and> mf_scope f = None
     then (case mf_identity f of
             None \<Rightarrow> Inl ValueError
           | Some i \<Rightarrow>
               bind_result (check_that (\<not> (i \<noteq> KindOnly \<and> \<not> admits i (or_empty (mf_subject f)) (mf_evidence f))) ValueError)
                 (\<lambda>_. Inr f))
     else Inr f)"

section \<open>Groups\<close>

record finding_group =
  fg_key :: string
  fg_fingerprint :: string
  fg_disposition :: disposition
  fg_owner :: "finding_owner option"
  fg_scope :: "string option"
  fg_members :: "finding list"

text \<open>\<open>self.members[0]\<close>\<close>

definition first_member :: "finding_group \<Rightarrow> exn + finding" where
  "first_member g = (case fg_members g of [] \<Rightarrow> Inl IndexError | m # _ \<Rightarrow> Inr m)"

definition is_family :: "finding_group \<Rightarrow> bool" where
  "is_family g = (fg_scope g \<noteq> None)"

definition group_check :: "finding_group \<Rightarrow> exn + string" where
  "group_check g = bind_result (first_member g) (\<lambda>m. Inr (mf_check m))"

definition group_code :: "finding_group \<Rightarrow> exn + string option" where
  "group_code g = bind_result (first_member g) (\<lambda>m. Inr (mf_code m))"

definition group_file :: "finding_group \<Rightarrow> exn + string option" where
  "group_file g =
     (if length (fg_members g) = 1 \<or> \<not> is_family g then bind_result (first_member g) (\<lambda>m. Inr (mf_file m))
      else Inr None)"

definition group_subject :: "finding_group \<Rightarrow> exn + mapping" where
  "group_subject g = bind_result (first_member g) (\<lambda>m. Inr (or_empty (mf_subject m)))"

definition group_message :: "finding_group \<Rightarrow> exn + string" where
  "group_message g = bind_result (first_member g) (\<lambda>m. Inr (mf_message m))"

definition dismissible :: "finding_group \<Rightarrow> exn + bool" where
  "dismissible g =
     (if fg_disposition g \<noteq> Judgement then Inr False
      else if is_family g then Inr True
      else bind_result (first_member g) (\<lambda>m. Inr (mf_identity m \<noteq> Some KindOnly)))"

definition breaches :: "finding_group \<Rightarrow> string list" where
  "breaches g = List.map_filter mf_breach (fg_members g)"

section \<open>Grouping\<close>

text \<open>\<open>groups.setdefault(key, []).append(finding)\<close>, in the order of the first member of each key.\<close>

definition add_member :: "string \<Rightarrow> finding \<Rightarrow> (string \<times> finding list) list \<Rightarrow> (string \<times> finding list) list" where
  "add_member k f d = AList.update k ((case map_of d k of None \<Rightarrow> [] | Some fs \<Rightarrow> fs) @ [f]) d"

text \<open>The key of a counted finding: \<open>check_finding\<close> refuses one without.\<close>

definition counted_key :: "finding \<Rightarrow> string" where
  "counted_key f = (case mf_key f of Some k \<Rightarrow> k | None \<Rightarrow> [])"

definition collect_members :: "finding list \<Rightarrow> (string \<times> finding list) list" where
  "collect_members fs = fold (\<lambda>f. add_member (counted_key f) f) fs []"

definition counted :: "finding list \<Rightarrow> finding list" where
  "counted fs = filter (\<lambda>f. mf_disposition f \<noteq> ReportOnly) fs"

definition family_files :: "finding list \<Rightarrow> string list" where
  "family_files members = sort (remdups (List.map_filter mf_file members))"

definition family_group :: "(string \<Rightarrow> string) \<Rightarrow> string \<times> finding list \<Rightarrow> finding_group" where
  "family_group hx entry =
     (let (key, members) = entry; first = hd members in
      \<lparr>fg_key = key,
       fg_fingerprint =
         (if mf_disposition first = Automatic then key
          else finding_fingerprint hx key (Some [(''files'', JArr (map JStr (family_files members)))])),
       fg_disposition = mf_disposition first, fg_owner = mf_owner first, fg_scope = mf_scope first,
       fg_members = members\<rparr>)"

definition evidence_json :: "finding \<Rightarrow> json" where
  "evidence_json f = (case mf_evidence f of None \<Rightarrow> JNull | Some e \<Rightarrow> JObj e)"

definition single_group :: "(string \<Rightarrow> string) \<Rightarrow> string \<times> finding list \<Rightarrow> finding_group" where
  "single_group hx entry =
     (let (key, members) = entry; first = hd members in
      \<lparr>fg_key = key,
       fg_fingerprint =
         (if length members = 1 then finding_fingerprint hx key (mf_evidence first)
          else finding_fingerprint hx key
                 (Some [(''members'', JArr (sort_key canonical_json (map evidence_json members)))])),
       fg_disposition = mf_disposition first, fg_owner = mf_owner first, fg_scope = None,
       fg_members = members\<rparr>)"

definition group_by_family :: "(string \<Rightarrow> string) \<Rightarrow> finding list \<Rightarrow> finding_group list" where
  "group_by_family hx findings =
     (let fs = counted findings;
          families = collect_members (filter (\<lambda>f. mf_scope f \<noteq> None) fs);
          singles = collect_members (filter (\<lambda>f. mf_scope f = None) fs)
      in map (family_group hx) families @ map (single_group hx) singles)"

section \<open>What grouping does\<close>

lemma admits_exclusive:
  "admits i subject evidence \<Longrightarrow> admits j subject evidence \<Longrightarrow> i = j"
  by (cases i; cases j) (auto split: option.splits)

lemma add_member_keys: "distinct (map fst d) \<Longrightarrow> distinct (map fst (add_member k f d))"
  by (simp add: add_member_def AList.distinct_update)

lemma map_of_add_member:
  "map_of (add_member k f d) k' =
     (if k' = k then Some ((case map_of d k of None \<Rightarrow> [] | Some fs \<Rightarrow> fs) @ [f]) else map_of d k')"
  by (simp add: add_member_def AList.update_conv)

text \<open>Grouping by key is: distinct keys, each with the findings of that key in their order.\<close>

lemma collect_members_fold:
  assumes "distinct (map fst d)" "\<forall>k. map_of d k = (let gs = filter (\<lambda>f. counted_key f = k) hs in if gs = [] then None else Some gs)"
  shows "distinct (map fst (fold (\<lambda>f. add_member (counted_key f) f) fs d))
    \<and> (\<forall>k. map_of (fold (\<lambda>f. add_member (counted_key f) f) fs d) k =
         (let gs = filter (\<lambda>f. counted_key f = k) (hs @ fs) in if gs = [] then None else Some gs))"
  using assms
proof (induction fs arbitrary: d hs)
  case Nil
  then show ?case by simp
next
  case (Cons f fs)
  have "\<forall>k. map_of (add_member (counted_key f) f d) k =
     (let gs = filter (\<lambda>f. counted_key f = k) (hs @ [f]) in if gs = [] then None else Some gs)"
    using Cons.prems(2) by (auto simp: map_of_add_member Let_def)
  from Cons.IH[OF add_member_keys[OF Cons.prems(1)] this] show ?case by simp
qed

lemma collect_members_distinct: "distinct (map fst (collect_members fs))"
  unfolding collect_members_def by (rule conjunct1[OF collect_members_fold[where hs = "[]"]]) simp_all

lemma collect_members_lookup:
  "map_of (collect_members fs) k = (let gs = filter (\<lambda>f. counted_key f = k) fs in if gs = [] then None else Some gs)"
  unfolding collect_members_def
  using collect_members_fold[where hs = "[]" and d = "[]" and fs = fs] by simp

lemma collect_members_entry:
  "(k, ms) \<in> set (collect_members fs) \<longleftrightarrow> ms = filter (\<lambda>f. counted_key f = k) fs \<and> ms \<noteq> []"
proof -
  have "(k, ms) \<in> set (collect_members fs) \<longleftrightarrow> map_of (collect_members fs) k = Some ms"
    by (simp add: collect_members_distinct)
  then show ?thesis unfolding collect_members_lookup Let_def by (auto split: if_splits)
qed

lemma family_group_fields [simp]:
  "fg_key (family_group hx (k, ms)) = k" "fg_members (family_group hx (k, ms)) = ms"
  "fg_scope (family_group hx (k, ms)) = mf_scope (hd ms)"
  "fg_disposition (family_group hx (k, ms)) = mf_disposition (hd ms)"
  by (simp_all add: family_group_def Let_def)

lemma single_group_fields [simp]:
  "fg_key (single_group hx (k, ms)) = k" "fg_members (single_group hx (k, ms)) = ms"
  "fg_scope (single_group hx (k, ms)) = None"
  "fg_disposition (single_group hx (k, ms)) = mf_disposition (hd ms)"
  by (simp_all add: single_group_def Let_def)

lemma group_by_family_member:
  "g \<in> set (group_by_family hx fs) \<longleftrightarrow>
     (\<exists>k ms. ms \<noteq> [] \<and> (g = family_group hx (k, ms) \<and> ms = filter (\<lambda>f. counted_key f = k) (filter (\<lambda>f. mf_scope f \<noteq> None) (counted fs))
       \<or> g = single_group hx (k, ms) \<and> ms = filter (\<lambda>f. counted_key f = k) (filter (\<lambda>f. mf_scope f = None) (counted fs))))"
  unfolding group_by_family_def Let_def set_append set_map Un_iff image_iff Bex_def split_paired_Ex collect_members_entry
  by blast

text \<open>The members of a group, read off its key and kind.\<close>

lemma group_members:
  assumes "g \<in> set (group_by_family hx fs)"
  shows "fg_members g = filter (\<lambda>f. counted_key f = fg_key g \<and> (mf_scope f \<noteq> None \<longleftrightarrow> is_family g)) (counted fs)"
    and "fg_members g \<noteq> []"
proof -
  from assms obtain k ms where ms: "ms \<noteq> []"
    and g: "g = family_group hx (k, ms) \<and> ms = filter (\<lambda>f. counted_key f = k) (filter (\<lambda>f. mf_scope f \<noteq> None) (counted fs))
       \<or> g = single_group hx (k, ms) \<and> ms = filter (\<lambda>f. counted_key f = k) (filter (\<lambda>f. mf_scope f = None) (counted fs))"
    unfolding group_by_family_member by blast
  have hd: "hd ms \<in> set ms" using ms by simp
  from g show "fg_members g = filter (\<lambda>f. counted_key f = fg_key g \<and> (mf_scope f \<noteq> None \<longleftrightarrow> is_family g)) (counted fs)"
  proof
    assume l: "g = family_group hx (k, ms) \<and> ms = filter (\<lambda>f. counted_key f = k) (filter (\<lambda>f. mf_scope f \<noteq> None) (counted fs))"
    then have "mf_scope (hd ms) \<noteq> None" using hd by (metis (mono_tags, lifting) filter_is_subset mem_Collect_eq set_filter subsetD)
    with l have "is_family g" by (simp add: is_family_def)
    with l show ?thesis by (auto intro!: filter_cong)
  next
    assume r: "g = single_group hx (k, ms) \<and> ms = filter (\<lambda>f. counted_key f = k) (filter (\<lambda>f. mf_scope f = None) (counted fs))"
    then have "\<not> is_family g" by (simp add: is_family_def)
    with r show ?thesis by (auto intro!: filter_cong)
  qed
  from g ms show "fg_members g \<noteq> []" by auto
qed

end
