(* ===== verification/Maintenance_Detection.thy ===== *)
theory Maintenance_Detection
  imports Maintenance_Findings
begin

text \<open>
  The repair table of \<open>_repair_common.py\<close> and the classification of raw findings of
  \<open>_application/maintenance/_detection.py\<close>. The checks themselves (\<open>check.run_checks\<close>) are not
  modelled: the raw findings they return are the argument of \<open>classify\<close>.
\<close>

section \<open>The repair table\<close>

record repair_family =
  rf_scope :: string
  rf_command_id :: string
  rf_request :: mapping
  rf_disposition :: disposition
  rf_owner :: finding_owner
  rf_recovery :: bool
  rf_description :: string
  rf_exceptional :: bool
  rf_holdable :: bool
  rf_clears_embeddings :: bool

definition check_family :: "repair_family \<Rightarrow> exn + repair_family" where
  "check_family f =
     bind_result (check_that (\<not> py_blank (rf_scope f)) ValueError) (\<lambda>_.
     bind_result (check_that (CHR ''.'' \<in> set (rf_command_id f)) ValueError) (\<lambda>_.
     bind_result (check_that (\<not> (rf_exceptional f \<and> rf_disposition f = Automatic)) ValueError) (\<lambda>_.
     bind_result (check_that (\<not> py_blank (rf_description f)) ValueError) (\<lambda>_. Inr f))))"

definition brain_family ::
  "string \<Rightarrow> string \<Rightarrow> mapping \<Rightarrow> disposition \<Rightarrow> string \<Rightarrow> bool \<Rightarrow> bool \<Rightarrow> bool \<Rightarrow> bool \<Rightarrow> repair_family" where
  "brain_family scope command_id request disp description recovery exceptional holdable clears =
     \<lparr>rf_scope = scope, rf_command_id = command_id, rf_request = request, rf_disposition = disp,
      rf_owner = BrainOwner, rf_recovery = recovery, rf_description = description,
      rf_exceptional = exceptional, rf_holdable = holdable, rf_clears_embeddings = clears\<rparr>"

definition machine_family :: "string \<Rightarrow> string \<Rightarrow> string \<Rightarrow> repair_family" where
  "machine_family scope command_id description =
     \<lparr>rf_scope = scope, rf_command_id = command_id, rf_request = [], rf_disposition = Judgement,
      rf_owner = MachineOwner, rf_recovery = True, rf_description = description,
      rf_exceptional = False, rf_holdable = True, rf_clears_embeddings = False\<rparr>"

definition REPAIR_FAMILIES :: "repair_family list" where
  "REPAIR_FAMILIES =
     [
      brain_family ''text_encoding'' ''vault.repair-text'' [] Judgement
        ''Repair clear text encoding findings after previewing the byte changes.''
        False False True False,
      brain_family ''router'' ''runtime.refresh-router'' [] Automatic
        ''Rebuild the compiled router cache.''
        True False False True,
      brain_family ''lexical'' ''retrieval.refresh-lexical'' [] Automatic
        ''Rebuild the lexical retrieval index cache.''
        True False True True,
      brain_family ''temporaries'' ''runtime.remove-temporaries'' [] Automatic
        ''Remove stranded atomic-write temporary files from .brain/local.''
        False False True False,
      brain_family ''frontmatter'' ''artefact.repair'' [(''scope'', JStr ''frontmatter'')] Judgement
        ''Repair duplicate artefact frontmatter blocks by merging nested frontmatter into the document frontmatter.''
        True False True False,
      brain_family ''ownership'' ''artefact.repair'' [(''scope'', JStr ''ownership'')] Judgement
        ''Reconcile derived owner folders and paths towards valid authoritative parent metadata.''
        True False True False,
      brain_family ''empty_folders'' ''artefact.repair'' [(''scope'', JStr ''empty_folders'')] Judgement
        ''Remove vacated-empty artefact folders (junk-only contents) under type roots and _Archive.''
        True False True False,
      brain_family ''semantic'' ''retrieval.repair-semantic'' [] Judgement
        ''Repair semantic runtime provisioning and embeddings sidecars for this vault.''
        True True True False,
      brain_family ''registry'' ''workspace.repair-registry'' [] Automatic
        ''Rebuild a malformed linked workspace registry without its invalid rows and drop rows whose manifest names another Brain or workspace.''
        True False True False,
      machine_family ''runtime'' ''runtime.repair''
        ''Repair the central managed Brain runtime and its baseline packages via bootstrap, then verify the result.'',
      machine_family ''mcp'' ''mcp.repair''
        ''Repair current-vault Claude/Codex MCP registration state against a usable managed runtime.''
     ]"

text \<open>\<open>_table\<close>: the families by scope.\<close>

definition REPAIR_SCOPES :: "(string \<times> repair_family) list" where
  "REPAIR_SCOPES = map (\<lambda>f. (rf_scope f, f)) REPAIR_FAMILIES"

definition JUDGEMENT_FINDINGS :: "((string \<times> string option) \<times> identity) list" where
  "JUDGEMENT_FINDINGS =
     [
      ((''temporaries'', Some ''unsafe_filesystem_layout''), SubjectIdentity),
      ((''unreadable_file'', Some ''os_error''), EvidenceIdentity),
      ((''unreadable_file'', Some ''not_utf8''), SubjectIdentity),
      ((''unreadable_file'', Some ''not_text''), SubjectIdentity),
      ((''text_scan'', Some ''skill_ownership_unavailable''), EvidenceIdentity),
      ((''root_files'', None), SubjectIdentity),
      ((''living_key_fields'', None), EvidenceIdentity),
      ((''workspace_contract'', Some ''workspace_scan_unreadable''), KindOnly),
      ((''workspace_contract'', Some ''workspace_reference_malformed''), EvidenceIdentity),
      ((''workspace_contract'', Some ''workspace_reference_missing''), EvidenceIdentity),
      ((''workspace_contract'', Some ''workspace_reference_archived''), EvidenceIdentity),
      ((''workspace_contract'', Some ''workspace_reference_wrong_type''), EvidenceIdentity),
      ((''workspace_contract'', Some ''workspace_hub_invalid''), EvidenceIdentity),
      ((''workspace_contract'', Some ''workspace_ownership_invalid''), EvidenceIdentity),
      ((''workspace_contract'', Some ''workspace_policy_invalid''), EvidenceIdentity),
      ((''workspace_contract'', Some ''workspace_binding_terminal_inactive''), EvidenceIdentity),
      ((''workspace_contract'', Some ''workspace_binding_configured_invalid''), EvidenceIdentity),
      ((''workspace_registry'', Some ''workspace_link_unverifiable''), EvidenceIdentity),
      ((''workspace_registry'', Some ''workspace_folder_unreachable''), EvidenceIdentity),
      ((''workspace_registry'', Some ''workspace_links_unverified''), EvidenceIdentity),
      ((''workspace_registry'', Some ''workspace_registry_unreadable''), EvidenceIdentity),
      ((''workspace_registry'', Some ''workspace_registry_unparseable''), EvidenceIdentity)
     ]"

definition AUTOMATIC_SCOPES :: "string list" where
  "AUTOMATIC_SCOPES = map fst (filter (\<lambda>(s, f). rf_disposition f = Automatic) REPAIR_SCOPES)"

definition RECOVERY_SCOPES :: "string list" where
  "RECOVERY_SCOPES = map fst (filter (\<lambda>(s, f). rf_recovery f) REPAIR_SCOPES)"

definition NEVER_HELD :: "string set" where
  "NEVER_HELD = set (map fst (filter (\<lambda>(s, f). \<not> rf_holdable f) REPAIR_SCOPES))"

section \<open>Classification\<close>

text \<open>A raw finding: \<open>rw_evidence\<close> is \<open>JNull\<close> where none is declared, \<open>rw_repair\<close> is \<open>None\<close> where the key is absent.\<close>

record raw_finding =
  rw_check :: string
  rw_severity :: string
  rw_message :: string
  rw_code :: "string option"
  rw_file :: "string option"
  rw_evidence :: json
  rw_repair :: "json option"

text \<open>\<open>REPAIR_SCOPES[repair["scope"]]\<close> raises a \<open>TypeError\<close> for a list or a dictionary.\<close>

definition family_for_finding :: "raw_finding \<Rightarrow> exn + repair_family option" where
  "family_for_finding raw =
     (case rw_repair raw of
        None \<Rightarrow> Inr None
      | Some (JObj kvs) \<Rightarrow>
          (case map_of kvs ''scope'' of
             None \<Rightarrow> Inl KeyError
           | Some (JStr scope) \<Rightarrow>
               (case map_of REPAIR_SCOPES scope of None \<Rightarrow> Inl KeyError | Some f \<Rightarrow> Inr (Some f))
           | Some (JArr _) \<Rightarrow> Inl TypeError
           | Some (JObj _) \<Rightarrow> Inl TypeError
           | Some _ \<Rightarrow> Inl KeyError)
      | Some _ \<Rightarrow> Inl ValueError)"

definition NAMESPACE :: string where "NAMESPACE = ''brain''"

fun identity_value :: "identity \<Rightarrow> string" where
  "identity_value SubjectIdentity = ''subject''"
| "identity_value EvidenceIdentity = ''evidence''"
| "identity_value KindOnly = ''kind_only''"

definition promised_identity ::
  "string \<Rightarrow> identity option \<Rightarrow> mapping \<Rightarrow> mapping option \<Rightarrow> identity \<times> string option" where
  "promised_identity kind row subject evidence =
     (case row of
        None \<Rightarrow> (KindOnly, Some (kind @ '' is an error with no repair family that JUDGEMENT_FINDINGS does not classify''))
      | Some i \<Rightarrow>
          if admits i subject evidence then (i, None)
          else (KindOnly, Some (kind @ '' is classified as '' @ identity_value i @ '' but declares ''
                 @ (if has_subject subject then ''a file'' else ''no file'') @ '' and ''
                 @ (case evidence of None \<Rightarrow> ''no evidence'' | Some [] \<Rightarrow> ''empty evidence'' | Some _ \<Rightarrow> ''evidence''))))"

definition optional_string :: "string option \<Rightarrow> json" where
  "optional_string v = (case v of None \<Rightarrow> JNull | Some s \<Rightarrow> JStr s)"

definition kind_of :: "raw_finding \<Rightarrow> string" where
  "kind_of raw = (case rw_code raw of
     Some (c # cs) \<Rightarrow> rw_check raw @ '':'' @ (c # cs)
   | _ \<Rightarrow> rw_check raw)"

definition plain_finding :: "raw_finding \<Rightarrow> mapping option \<Rightarrow> finding" where
  "plain_finding raw evidence =
     \<lparr>mf_check = rw_check raw, mf_severity = rw_severity raw, mf_file = rw_file raw, mf_message = rw_message raw,
      mf_disposition = ReportOnly, mf_code = rw_code raw, mf_scope = None, mf_owner = None, mf_key = None,
      mf_subject = None, mf_evidence = evidence, mf_identity = None, mf_breach = None\<rparr>"

definition family_finding :: "(string \<Rightarrow> string) \<Rightarrow> raw_finding \<Rightarrow> mapping option \<Rightarrow> repair_family \<Rightarrow> exn + finding" where
  "family_finding hx raw evidence f =
     bind_result (family_key hx NAMESPACE (rf_scope f)) (\<lambda>key.
     check_finding ((plain_finding raw evidence)
       \<lparr>mf_disposition := rf_disposition f, mf_scope := Some (rf_scope f), mf_owner := Some (rf_owner f),
        mf_key := Some key, mf_subject := Some [(''scope'', JStr (rf_scope f))]\<rparr>))"

definition judgement_finding :: "(string \<Rightarrow> string) \<Rightarrow> raw_finding \<Rightarrow> mapping option \<Rightarrow> exn + finding" where
  "judgement_finding hx raw evidence =
     (let subject = [(''file'', optional_string (rw_file raw))];
          (identity, breach) = promised_identity (kind_of raw)
             (map_of JUDGEMENT_FINDINGS (rw_check raw, rw_code raw)) subject evidence in
      bind_result (finding_key hx NAMESPACE (kind_of raw) subject) (\<lambda>key.
      check_finding ((plain_finding raw evidence)
        \<lparr>mf_disposition := Judgement, mf_owner := Some BrainOwner, mf_key := Some key, mf_subject := Some subject,
         mf_identity := Some identity, mf_breach := breach\<rparr>)))"

definition raw_evidence :: "raw_finding \<Rightarrow> exn + mapping option" where
  "raw_evidence raw =
     (case rw_evidence raw of JNull \<Rightarrow> Inr None | JObj kvs \<Rightarrow> Inr (Some kvs) | _ \<Rightarrow> Inl ValueError)"

definition classify_one :: "(string \<Rightarrow> string) \<Rightarrow> raw_finding \<Rightarrow> exn + finding" where
  "classify_one hx raw =
     bind_result (case family_for_finding raw of
                    Inl e \<Rightarrow> Inl (if e = KeyError then ValueError else e)
                  | Inr f \<Rightarrow> Inr f) (\<lambda>family.
     bind_result (raw_evidence raw) (\<lambda>evidence.
     case family of
       Some f \<Rightarrow> family_finding hx raw evidence f
     | None \<Rightarrow>
         if rw_severity raw = ''error'' \<or> map_of JUDGEMENT_FINDINGS (rw_check raw, rw_code raw) \<noteq> None
         then judgement_finding hx raw evidence
         else check_finding (plain_finding raw evidence)))"

definition classify :: "(string \<Rightarrow> string) \<Rightarrow> raw_finding list \<Rightarrow> exn + finding list" where
  "classify hx raws = collect_results (map (classify_one hx) raws)"

text \<open>
  \<open>detect\<close>: what the checks returned (or raised), classified. \<open>None\<close> stands for the
  \<open>DetectionFailed\<close> that replaces an \<open>OSError\<close> (\<open>UnsafeLayoutError\<close> is one) or a \<open>ValueError\<close>.
\<close>

definition detect :: "(string \<Rightarrow> string) \<Rightarrow> exn + raw_finding list \<Rightarrow> exn + finding list option" where
  "detect hx checked =
     (case bind_result checked (classify hx) of
        Inl e \<Rightarrow> if e = OSError \<or> e = UnsafeLayoutError \<or> is_value_error e then Inr None else Inl e
      | Inr fs \<Rightarrow> Inr (Some fs))"

section \<open>What classification guarantees\<close>

lemma repair_families_checked: "\<forall>f \<in> set REPAIR_FAMILIES. check_family f = Inr f"
  by code_simp

lemma repair_scope_Some:
  assumes "map_of REPAIR_SCOPES s = Some f"
  shows "rf_scope f = s \<and> rf_disposition f \<noteq> ReportOnly \<and> \<not> py_blank s"
proof -
  from map_of_SomeD[OF assms] have f: "f \<in> set REPAIR_FAMILIES" "rf_scope f = s"
    by (auto simp: REPAIR_SCOPES_def)
  have "\<forall>f \<in> set REPAIR_FAMILIES. rf_disposition f \<noteq> ReportOnly \<and> \<not> py_blank (rf_scope f)" by code_simp
  with f show ?thesis by auto
qed

lemma check_finding_Inr: "check_finding f = Inr g \<Longrightarrow> g = f"
  by (auto simp: check_finding_def bind_result_Inr split: if_splits option.splits)

lemma promised_identity_admits:
  assumes "promised_identity kind row subject evidence = (i, b)"
  shows "i \<noteq> KindOnly \<longrightarrow> admits i subject evidence"
    and "b = None \<longleftrightarrow> (\<exists>r. row = Some r \<and> admits r subject evidence \<and> i = r)"
    and "b \<noteq> None \<longrightarrow> i = KindOnly"
  using assms by (auto simp: promised_identity_def split: option.splits if_splits)

lemma collect_results_set:
  "collect_results (map f xs) = Inr ys \<Longrightarrow> set ys = {y. \<exists>x \<in> set xs. f x = Inr y}"
proof (induction xs arbitrary: ys)
  case Nil
  then show ?case by simp
next
  case (Cons x xs)
  then obtain y zs where "f x = Inr y" "collect_results (map f xs) = Inr zs" "ys = y # zs"
    by (auto simp: bind_result_Inr)
  with Cons.IH[of zs] show ?case by auto
qed

end
