(* ===== verification/Maintenance_Decisions.thy ===== *)
theory Maintenance_Decisions
  imports Maintenance_Findings Receipt_Codec
begin

text \<open>
  \<open>_bootstrap/maintenance_decisions.py\<close>: claims and dismissals, their file, and the rules that read
  and change them. The dictionaries \<open>claims\<close> and \<open>dismissals\<close> are association lists in insertion
  order; a time is a \<open>stamp\<close> (every time read from the file or taken from the clock is aware).
\<close>

section \<open>Records\<close>

datatype item_state = OpenItem | Held | ClaimExpired | Quiet

record claim =
  cl_claimant :: string
  cl_expires_at :: stamp

record dismissal =
  di_fingerprint :: string
  di_dismissed_by :: string
  di_reason :: string
  di_dismissed_at :: stamp

record decisions =
  de_claims :: "(string \<times> claim) list"
  de_dismissals :: "(string \<times> dismissal) list"

fun stamp_plus :: "stamp \<Rightarrow> int \<Rightarrow> stamp" where
  "stamp_plus (Aware a) d = Aware (a + d)"
| "stamp_plus (Naive a) d = Naive (a + d)"

definition CLAIM_LEASE :: int where "CLAIM_LEASE = 3600 * 1000000"
definition DISMISSAL_RETENTION :: int where "DISMISSAL_RETENTION = 30 * 24 * 3600 * 1000000"
definition EXPIRED_CLAIM_RETENTION :: int where "EXPIRED_CLAIM_RETENTION = 30 * 24 * 3600 * 1000000"

definition claim_live :: "claim \<Rightarrow> stamp \<Rightarrow> bool" where
  "claim_live c now = older now (cl_expires_at c)"

definition claim_retained :: "claim \<Rightarrow> stamp \<Rightarrow> bool" where
  "claim_retained c now = older now (stamp_plus (cl_expires_at c) EXPIRED_CLAIM_RETENTION)"

definition dismissal_retained :: "dismissal \<Rightarrow> stamp \<Rightarrow> bool" where
  "dismissal_retained d now = older now (stamp_plus (di_dismissed_at d) DISMISSAL_RETENTION)"

definition with_claim :: "decisions \<Rightarrow> string \<Rightarrow> claim \<Rightarrow> decisions" where
  "with_claim d key c = d\<lparr>de_claims := AList.update key c (de_claims d)\<rparr>"

definition without_claim :: "decisions \<Rightarrow> string \<Rightarrow> decisions" where
  "without_claim d key = d\<lparr>de_claims := filter (\<lambda>(k, v). k \<noteq> key) (de_claims d)\<rparr>"

definition with_dismissal :: "decisions \<Rightarrow> string \<Rightarrow> dismissal \<Rightarrow> decisions" where
  "with_dismissal d key x =
     \<lparr>de_claims = filter (\<lambda>(k, v). k \<noteq> key) (de_claims d), de_dismissals = AList.update key x (de_dismissals d)\<rparr>"

definition held_by_other :: "decisions \<Rightarrow> string \<Rightarrow> string \<Rightarrow> stamp \<Rightarrow> claim option" where
  "held_by_other d key actor now =
     (case map_of (de_claims d) key of
        None \<Rightarrow> None
      | Some c \<Rightarrow> if claim_live c now \<and> cl_claimant c \<noteq> actor then Some c else None)"

definition EMPTY :: decisions where
  "EMPTY = \<lparr>de_claims = [], de_dismissals = []\<rparr>"

record decision_state =
  ds_state :: item_state
  ds_claimant :: "string option"
  ds_expires_at :: "stamp option"
  ds_dismissed_by :: "string option"
  ds_reason :: "string option"

definition new_state :: "item_state \<Rightarrow> decision_state" where
  "new_state st = \<lparr>ds_state = st, ds_claimant = None, ds_expires_at = None, ds_dismissed_by = None, ds_reason = None\<rparr>"

section \<open>Request fields\<close>

text \<open>
  \<open>len\<close> of a string counts code points: the bytes that do not continue a UTF-8 sequence. \<open>printable\<close>
  is the character table behind \<open>str.isprintable\<close>. Every white-space character but the blank is
  unprintable in that table, so \<open>isspace() or not isprintable()\<close> is a blank or an unprintable one.
\<close>

definition py_len :: "string \<Rightarrow> nat" where
  "py_len s = length (filter (\<lambda>b. let n = (of_char b :: nat) in n < 128 \<or> 192 \<le> n) s)"

definition MAX_KEY_CHARS :: nat where "MAX_KEY_CHARS = 64"
definition MAX_ACTOR_BYTES :: nat where "MAX_ACTOR_BYTES = 128"
definition MAX_REASON_CHARS :: nat where "MAX_REASON_CHARS = 512"

definition validate_key :: "(string \<Rightarrow> bool) \<Rightarrow> json \<Rightarrow> exn + unit" where
  "validate_key printable value =
     (case value of
        JStr v \<Rightarrow> check_that (\<not> (py_blank v \<or> MAX_KEY_CHARS < py_len v \<or> CHR '' '' \<in> set v \<or> \<not> printable v)) ValueError
      | _ \<Rightarrow> Inl ValueError)"

definition validate_actor :: "json \<Rightarrow> exn + unit" where
  "validate_actor value =
     (case value of
        JStr v \<Rightarrow> check_that (\<not> (py_blank v \<or> MAX_ACTOR_BYTES < length v)) ValueError
      | _ \<Rightarrow> Inl ValueError)"

definition validate_reason :: "json \<Rightarrow> exn + unit" where
  "validate_reason value =
     (case value of
        JStr v \<Rightarrow> check_that (\<not> (py_blank v \<or> MAX_REASON_CHARS < py_len v)) ValueError
      | _ \<Rightarrow> Inl ValueError)"

section \<open>Storage\<close>

text \<open>
  What the path holds: nothing, a link, something \<open>read_text\<close> fails on with an \<open>OSError\<close>, bytes
  that are not UTF-8 (\<open>read_text\<close> raises a \<open>UnicodeDecodeError\<close>, which is a \<open>ValueError\<close> and no
  \<open>OSError\<close>), text that is not JSON, or a JSON value.
\<close>

datatype decisions_file = NoFile | LinkFile | IoErrorFile | UndecodableFile | UnparsableFile | ParsedFile json

definition DECISIONS_SCHEMA :: string where "DECISIONS_SCHEMA = ''brain.maintenance-decisions/1''"

definition parse_time :: "time_format \<Rightarrow> json \<Rightarrow> exn + stamp" where
  "parse_time tf value =
     (case value of
        JStr v \<Rightarrow>
          (case tf_from_iso tf v of
             Inl e \<Rightarrow> Inl (if is_value_error e then DecisionsUnreadable else e)
           | Inr t \<Rightarrow> bind_result (check_that (aware t) DecisionsUnreadable) (\<lambda>_. Inr t))
      | _ \<Rightarrow> Inl DecisionsUnreadable)"

definition text_value :: "json \<Rightarrow> exn + string" where
  "text_value value =
     (case value of
        JStr v \<Rightarrow> if py_blank v then Inl DecisionsUnreadable else Inr v
      | _ \<Rightarrow> Inl DecisionsUnreadable)"

definition decode_claim :: "time_format \<Rightarrow> string \<times> json \<Rightarrow> exn + string \<times> claim" where
  "decode_claim tf item =
     (case snd item of
        JObj kvs \<Rightarrow>
          bind_result (text_value (field ''claimant'' kvs)) (\<lambda>claimant.
          bind_result (parse_time tf (field ''expires_at'' kvs)) (\<lambda>expires.
          bind_result (text_value (JStr (fst item))) (\<lambda>key.
          Inr (key, \<lparr>cl_claimant = claimant, cl_expires_at = expires\<rparr>))))
      | _ \<Rightarrow> Inl DecisionsUnreadable)"

definition decode_dismissal :: "time_format \<Rightarrow> string \<times> json \<Rightarrow> exn + string \<times> dismissal" where
  "decode_dismissal tf item =
     (case snd item of
        JObj kvs \<Rightarrow>
          bind_result (text_value (field ''fingerprint'' kvs)) (\<lambda>fingerprint.
          bind_result (text_value (field ''dismissed_by'' kvs)) (\<lambda>by.
          bind_result (text_value (field ''reason'' kvs)) (\<lambda>reason.
          bind_result (parse_time tf (field ''dismissed_at'' kvs)) (\<lambda>at.
          bind_result (text_value (JStr (fst item))) (\<lambda>key.
          Inr (key, \<lparr>di_fingerprint = fingerprint, di_dismissed_by = by, di_reason = reason, di_dismissed_at = at\<rparr>))))))
      | _ \<Rightarrow> Inl DecisionsUnreadable)"

text \<open>\<open>raw.get(name, {})\<close>, which must be a dictionary.\<close>

definition section_of :: "string \<Rightarrow> (string \<times> json) list \<Rightarrow> exn + (string \<times> json) list" where
  "section_of name kvs =
     (case map_of kvs name of
        None \<Rightarrow> Inr []
      | Some (JObj items) \<Rightarrow> Inr items
      | Some _ \<Rightarrow> Inl DecisionsUnreadable)"

definition decode_decisions :: "time_format \<Rightarrow> json \<Rightarrow> exn + decisions" where
  "decode_decisions tf raw =
     (case raw of
        JObj kvs \<Rightarrow>
          bind_result (check_that (field ''schema'' kvs = JStr DECISIONS_SCHEMA) DecisionsUnreadable) (\<lambda>_.
          bind_result (section_of ''claims'' kvs) (\<lambda>claims_raw.
          bind_result (section_of ''dismissals'' kvs) (\<lambda>dismissals_raw.
          bind_result (collect_results (map (decode_claim tf) claims_raw)) (\<lambda>claims.
          bind_result (collect_results (map (decode_dismissal tf) dismissals_raw)) (\<lambda>dismissals.
          Inr \<lparr>de_claims = claims, de_dismissals = dismissals\<rparr>)))))
      | _ \<Rightarrow> Inl DecisionsUnreadable)"

definition read_decisions :: "time_format \<Rightarrow> decisions_file \<Rightarrow> exn + decisions" where
  "read_decisions tf file =
     (case file of
        LinkFile \<Rightarrow> Inl DecisionsUnreadable
      | NoFile \<Rightarrow> Inr EMPTY
      | IoErrorFile \<Rightarrow> Inl DecisionsUnreadable
      | UndecodableFile \<Rightarrow> Inl ValueError
      | UnparsableFile \<Rightarrow> Inl DecisionsUnreadable
      | ParsedFile raw \<Rightarrow> decode_decisions tf raw)"

definition encode_claim :: "time_format \<Rightarrow> claim \<Rightarrow> json" where
  "encode_claim tf c = JObj [(''claimant'', JStr (cl_claimant c)), (''expires_at'', JStr (tf_iso tf (cl_expires_at c)))]"

definition encode_dismissal :: "time_format \<Rightarrow> dismissal \<Rightarrow> json" where
  "encode_dismissal tf d = JObj
     [(''fingerprint'', JStr (di_fingerprint d)), (''dismissed_by'', JStr (di_dismissed_by d)),
      (''reason'', JStr (di_reason d)), (''dismissed_at'', JStr (tf_iso tf (di_dismissed_at d)))]"

definition encode_decisions :: "time_format \<Rightarrow> decisions \<Rightarrow> json" where
  "encode_decisions tf d = JObj
     [(''schema'', JStr DECISIONS_SCHEMA),
      (''claims'', JObj (map (\<lambda>(k, c). (k, encode_claim tf c)) (sort_key fst (de_claims d)))),
      (''dismissals'', JObj (map (\<lambda>(k, x). (k, encode_dismissal tf x)) (sort_key fst (de_dismissals d))))]"

text \<open>\<open>write_decisions\<close>: an atomic replacement, which does not go through a link; it fails on what
  cannot be replaced.\<close>

definition write_decisions :: "time_format \<Rightarrow> decisions \<Rightarrow> (decisions_file, unit) prog" where
  "write_decisions tf d file =
     (if file = IoErrorFile then (Inl OSError, file) else (Inr (), ParsedFile (encode_decisions tf d)))"

definition prune :: "decisions \<Rightarrow> stamp \<Rightarrow> decisions" where
  "prune d now =
     \<lparr>de_claims = filter (\<lambda>(k, c). claim_retained c now) (de_claims d),
      de_dismissals = filter (\<lambda>(k, x). dismissal_retained x now) (de_dismissals d)\<rparr>"

section \<open>Reading decisions against detection\<close>

text \<open>Whether a recorded dismissal quiets the group; \<open>and\<close> evaluates \<open>group.dismissible\<close> only for one that exists.\<close>

definition quieting :: "decisions \<Rightarrow> stamp \<Rightarrow> finding_group \<Rightarrow> exn + dismissal option" where
  "quieting d now g =
     (case map_of (de_dismissals d) (fg_key g) of
        None \<Rightarrow> Inr None
      | Some x \<Rightarrow>
          bind_result (dismissible g) (\<lambda>ok.
          Inr (if ok \<and> di_fingerprint x = fg_fingerprint g \<and> dismissal_retained x now then Some x else None)))"

definition claim_state :: "string set \<Rightarrow> decisions \<Rightarrow> stamp \<Rightarrow> finding_group \<Rightarrow> decision_state" where
  "claim_state never_held d now g =
     (case map_of (de_claims d) (fg_key g) of
        None \<Rightarrow> new_state OpenItem
      | Some c \<Rightarrow>
          if (case fg_scope g of None \<Rightarrow> False | Some s \<Rightarrow> s \<in> never_held) \<or> \<not> claim_retained c now then new_state OpenItem
          else (new_state (if claim_live c now then Held else ClaimExpired))
                 \<lparr>ds_claimant := Some (cl_claimant c), ds_expires_at := Some (cl_expires_at c)\<rparr>)"

definition group_state :: "string set \<Rightarrow> decisions \<Rightarrow> stamp \<Rightarrow> finding_group \<Rightarrow> exn + decision_state" where
  "group_state never_held d now g =
     bind_result (quieting d now g) (\<lambda>quiet.
     case quiet of
       Some x \<Rightarrow> Inr ((new_state Quiet)\<lparr>ds_dismissed_by := Some (di_dismissed_by x), ds_reason := Some (di_reason x)\<rparr>)
     | None \<Rightarrow> Inr (claim_state never_held d now g))"

definition apply_decisions ::
  "string set \<Rightarrow> decisions \<Rightarrow> stamp \<Rightarrow> finding_group list \<Rightarrow> exn + (string \<times> decision_state) list" where
  "apply_decisions never_held d now groups =
     fold_results (\<lambda>g states.
       bind_result (group_state never_held d now g) (\<lambda>st. Inr (AList.update (fg_key g) st states))) groups []"

section \<open>The decision rules\<close>

datatype refusal_code = InvalidRequestRefusal | ConflictRefusal | NotFoundRefusal

text \<open>A \<open>Refusal\<close>, without its message; its code is one of the three the constructor accepts.\<close>

record refusal =
  rf_code :: refusal_code
  rf_field :: "string option"

definition refuse :: "refusal_code \<Rightarrow> string \<Rightarrow> exn + (refusal + decisions)" where
  "refuse code name = Inr (Inl \<lparr>rf_code = code, rf_field = Some name\<rparr>)"

definition decide_claim ::
  "string set \<Rightarrow> string \<Rightarrow> finding_group \<Rightarrow> decisions \<Rightarrow> stamp \<Rightarrow> exn + (refusal + decisions)" where
  "decide_claim never_held claimant g d now =
     (if (case fg_scope g of None \<Rightarrow> False | Some s \<Rightarrow> s \<in> never_held) then refuse InvalidRequestRefusal ''key''
      else if held_by_other d (fg_key g) claimant now \<noteq> None then refuse ConflictRefusal ''key''
      else Inr (Inr (with_claim d (fg_key g) \<lparr>cl_claimant = claimant, cl_expires_at = stamp_plus now CLAIM_LEASE\<rparr>)))"

definition decide_dismiss ::
  "string \<Rightarrow> string \<Rightarrow> string \<Rightarrow> finding_group \<Rightarrow> decisions \<Rightarrow> stamp \<Rightarrow> exn + (refusal + decisions)" where
  "decide_dismiss actor reason expected g d now =
     (if fg_disposition g = Automatic then refuse InvalidRequestRefusal ''key''
      else if breaches g \<noteq> [] then refuse InvalidRequestRefusal ''key''
      else bind_result (dismissible g) (\<lambda>ok.
        if \<not> ok then refuse InvalidRequestRefusal ''key''
        else if fg_fingerprint g \<noteq> expected then refuse ConflictRefusal ''expected_fingerprint''
        else if held_by_other d (fg_key g) actor now \<noteq> None then refuse ConflictRefusal ''actor''
        else Inr (Inr (with_dismissal d (fg_key g)
               \<lparr>di_fingerprint = fg_fingerprint g, di_dismissed_by = actor, di_reason = reason, di_dismissed_at = now\<rparr>))))"

definition decide_release :: "string \<Rightarrow> finding_group \<Rightarrow> decisions \<Rightarrow> stamp \<Rightarrow> exn + (refusal + decisions)" where
  "decide_release actor g d now =
     (if map_of (de_claims d) (fg_key g) = None then refuse NotFoundRefusal ''key''
      else if held_by_other d (fg_key g) actor now \<noteq> None then refuse ConflictRefusal ''actor''
      else Inr (Inr (without_claim d (fg_key g))))"

end
