(* ===== verification/Maintenance_Summary.thy ===== *)
theory Maintenance_Summary
  imports Maintenance_Decisions
begin

text \<open>
  \<open>_bootstrap/maintenance_summary.py\<close>: the outcome vocabulary of a maintenance pass, the advisory
  counts, and the validated \<open>last-pass\<close> summary. A summary document is a JSON value.
\<close>

section \<open>Outcomes\<close>

datatype group_outcome =
  Repaired | AlreadyClean | PartlyRepaired | Deferred | NeedsPerson | RepairFailed | UnknownOutcome

fun group_outcome_value :: "group_outcome \<Rightarrow> string" where
  "group_outcome_value Repaired = ''repaired''"
| "group_outcome_value AlreadyClean = ''already_clean''"
| "group_outcome_value PartlyRepaired = ''partial''"
| "group_outcome_value Deferred = ''deferred''"
| "group_outcome_value NeedsPerson = ''needs_person''"
| "group_outcome_value RepairFailed = ''failed''"
| "group_outcome_value UnknownOutcome = ''unknown''"

definition ALL_OUTCOMES :: "group_outcome list" where
  "ALL_OUTCOMES = [Repaired, AlreadyClean, PartlyRepaired, Deferred, NeedsPerson, RepairFailed, UnknownOutcome]"

definition GROUP_OUTCOMES :: "string list" where
  "GROUP_OUTCOMES = map group_outcome_value ALL_OUTCOMES"

text \<open>\<open>GroupOutcome(value)\<close>\<close>

definition group_outcome_of :: "string \<Rightarrow> exn + group_outcome" where
  "group_outcome_of v =
     (case find (\<lambda>x. group_outcome_value x = v) ALL_OUTCOMES of None \<Rightarrow> Inl ValueError | Some x \<Rightarrow> Inr x)"

definition SETTLED :: "group_outcome list" where "SETTLED = [Repaired, AlreadyClean]"
definition SHOWN_AUTOMATIC :: "group_outcome list" where
  "SHOWN_AUTOMATIC = [RepairFailed, UnknownOutcome, Deferred, NeedsPerson]"
definition UNSUCCESSFUL :: "group_outcome list" where "UNSUCCESSFUL = [PartlyRepaired, RepairFailed]"
definition WITHHELD :: "item_state list" where "WITHHELD = [Held]"

definition classify_outcome :: "string \<Rightarrow> bool \<Rightarrow> string option \<Rightarrow> bool \<Rightarrow> string set \<Rightarrow> group_outcome" where
  "classify_outcome status committed code retryable needs_person_codes =
     (if status = ''ok'' then (if committed then Repaired else AlreadyClean)
      else if status = ''partial'' then PartlyRepaired
      else if code = Some ''conflict'' \<and> retryable then Deferred
      else if (case code of None \<Rightarrow> False | Some c \<Rightarrow> c \<in> needs_person_codes) then NeedsPerson
      else if code = Some ''command_outcome_unknown'' then UnknownOutcome
      else RepairFailed)"

section \<open>Counts\<close>

record counts =
  co_needs_person :: int
  co_claim_expired :: int
  co_failed :: int
  co_deferred :: int

definition COUNT_FIELDS :: "string list" where
  "COUNT_FIELDS = [''needs_person'', ''claim_expired'', ''failed'', ''deferred'']"

definition as_mapping :: "counts \<Rightarrow> (string \<times> int) list" where
  "as_mapping c = [(''needs_person'', co_needs_person c), (''claim_expired'', co_claim_expired c),
     (''failed'', co_failed c), (''deferred'', co_deferred c)]"

definition empty_counts :: "(string \<times> int) list" where
  "empty_counts = map (\<lambda>name. (name, 0)) COUNT_FIELDS"

text \<open>\<open>states[group.key]\<close>\<close>

definition state_of_group :: "(string \<times> decision_state) list \<Rightarrow> finding_group \<Rightarrow> exn + item_state" where
  "state_of_group states g = (case map_of states (fg_key g) of None \<Rightarrow> Inl KeyError | Some st \<Rightarrow> Inr (ds_state st))"

definition count_one ::
  "(finding_group \<Rightarrow> group_outcome option) \<Rightarrow> item_state \<Rightarrow> finding_group \<Rightarrow> counts \<Rightarrow> counts" where
  "count_one outcome_of st g c =
     (if st = ClaimExpired then c\<lparr>co_claim_expired := co_claim_expired c + 1\<rparr>
      else case fg_disposition g of
        Judgement \<Rightarrow> if st = OpenItem then c\<lparr>co_needs_person := co_needs_person c + 1\<rparr> else c
      | Automatic \<Rightarrow>
          (case outcome_of g of
             Some NeedsPerson \<Rightarrow> c\<lparr>co_needs_person := co_needs_person c + 1\<rparr>
           | Some RepairFailed \<Rightarrow> c\<lparr>co_failed := co_failed c + 1\<rparr>
           | Some UnknownOutcome \<Rightarrow> c\<lparr>co_failed := co_failed c + 1\<rparr>
           | Some Deferred \<Rightarrow> c\<lparr>co_deferred := co_deferred c + 1\<rparr>
           | _ \<Rightarrow> c)
      | ReportOnly \<Rightarrow> c)"

definition count_groups ::
  "finding_group list \<Rightarrow> (string \<times> decision_state) list \<Rightarrow> (finding_group \<Rightarrow> group_outcome option) \<Rightarrow> int \<Rightarrow> exn + counts" where
  "count_groups groups states outcome_of extra =
     fold_results (\<lambda>g c. bind_result (state_of_group states g) (\<lambda>st. Inr (count_one outcome_of st g c))) groups
       \<lparr>co_needs_person = extra, co_claim_expired = 0, co_failed = 0, co_deferred = 0\<rparr>"

section \<open>The summary document\<close>

definition SUMMARY_SCHEMA :: string where "SUMMARY_SCHEMA = ''brain.maintenance-pass/1''"
definition PASS_OUTCOMES :: "string list" where "PASS_OUTCOMES = [''ok'', ''partial'', ''error'']"
definition BLOCKED_REASONS :: "string list" where "BLOCKED_REASONS = [''decisions_unreadable'', ''detection_failed'']"

definition visible_string :: "json \<Rightarrow> bool" where
  "visible_string v = (case v of JStr s \<Rightarrow> \<not> py_blank s | _ \<Rightarrow> False)"

definition string_among :: "string list \<Rightarrow> json \<Rightarrow> bool" where
  "string_among xs v = (case v of JStr s \<Rightarrow> s \<in> set xs | _ \<Rightarrow> False)"

text \<open>\<open>fromisoformat\<close> raises a \<open>TypeError\<close> or a \<open>ValueError\<close>, which are both caught.\<close>

definition time_problem :: "time_format \<Rightarrow> json \<Rightarrow> string option" where
  "time_problem tf v =
     (case v of
        JStr s \<Rightarrow> (case tf_from_iso tf s of
            Inl _ \<Rightarrow> Some ''finished_at''
          | Inr t \<Rightarrow> if aware t then None else Some ''finished_at is not timezone-aware'')
      | _ \<Rightarrow> Some ''finished_at'')"

definition is_count :: "json \<Rightarrow> bool" where
  "is_count v = (case v of JInt n \<Rightarrow> 0 \<le> n | _ \<Rightarrow> False)"

definition counts_ok :: "json \<Rightarrow> bool" where
  "counts_ok v =
     (case v of
        JObj kvs \<Rightarrow> set (map fst kvs) = set COUNT_FIELDS \<and> list_all (\<lambda>(k, x). is_count x) kvs
      | _ \<Rightarrow> False)"

definition groups_ok :: "json \<Rightarrow> bool" where
  "groups_ok v = (case v of JObj kvs \<Rightarrow> list_all (\<lambda>(k, x). string_among GROUP_OUTCOMES x) kvs | _ \<Rightarrow> False)"

definition carries_results :: "json \<Rightarrow> json \<Rightarrow> bool" where
  "carries_results groups cs =
     ((case groups of JObj kvs \<Rightarrow> kvs \<noteq> [] | _ \<Rightarrow> False)
      \<or> (case cs of JObj kvs \<Rightarrow> list_ex (\<lambda>(k, x). x \<noteq> JInt 0) kvs | _ \<Rightarrow> False))"

definition summary_problem :: "time_format \<Rightarrow> json \<Rightarrow> string option" where
  "summary_problem tf raw =
     (case raw of
        JObj kvs \<Rightarrow>
          if field ''schema'' kvs \<noteq> JStr SUMMARY_SCHEMA then Some ''schema''
          else if \<not> visible_string (field ''pass_id'' kvs) then Some ''pass_id''
          else if \<not> visible_string (field ''host'' kvs) then Some ''host''
          else if time_problem tf (field ''finished_at'' kvs) \<noteq> None then time_problem tf (field ''finished_at'' kvs)
          else if \<not> string_among PASS_OUTCOMES (field ''outcome'' kvs) then Some ''outcome''
          else if field ''blocked'' kvs \<noteq> JNull \<and> \<not> string_among BLOCKED_REASONS (field ''blocked'' kvs) then Some ''blocked''
          else if \<not> groups_ok (field ''groups'' kvs) then Some ''groups''
          else if \<not> counts_ok (field ''counts'' kvs) then Some ''counts''
          else if field ''blocked'' kvs \<noteq> JNull \<and> carries_results (field ''groups'' kvs) (field ''counts'' kvs)
          then Some ''a blocked summary carries no groups and zero counts''
          else None
      | _ \<Rightarrow> Some ''schema'')"

text \<open>\<open>finished_at\<close> is a \<open>datetime\<close> or an already formatted string; \<open>counts.get(name)\<close> may be \<open>None\<close>.\<close>

definition summary_document ::
  "time_format \<Rightarrow> string \<Rightarrow> string \<Rightarrow> stamp + string \<Rightarrow> string \<Rightarrow> (string \<times> string) list \<Rightarrow> (string \<times> int) list
   \<Rightarrow> string option \<Rightarrow> json" where
  "summary_document tf pass_id host finished outcome groups cs blocked = JObj
     [(''schema'', JStr SUMMARY_SCHEMA), (''pass_id'', JStr pass_id), (''host'', JStr host),
      (''finished_at'', JStr (case finished of Inl t \<Rightarrow> tf_iso tf t | Inr s \<Rightarrow> s)),
      (''outcome'', JStr outcome),
      (''blocked'', case blocked of None \<Rightarrow> JNull | Some b \<Rightarrow> JStr b),
      (''groups'', JObj (map (\<lambda>(k, v). (k, JStr v)) (sort_key fst groups))),
      (''counts'', JObj (map (\<lambda>name. (name, case map_of cs name of None \<Rightarrow> JNull | Some n \<Rightarrow> JInt n)) COUNT_FIELDS))]"

definition build_summary ::
  "time_format \<Rightarrow> string \<Rightarrow> string \<Rightarrow> stamp + string \<Rightarrow> string \<Rightarrow> (string \<times> string) list \<Rightarrow> (string \<times> int) list
   \<Rightarrow> string option \<Rightarrow> exn + json" where
  "build_summary tf pass_id host finished outcome groups cs blocked =
     (let document = summary_document tf pass_id host finished outcome groups cs blocked in
      if summary_problem tf document \<noteq> None then Inl ValueError else Inr document)"

definition write_last_pass :: "time_format \<Rightarrow> json \<Rightarrow> (decisions_file, unit) prog" where
  "write_last_pass tf summary file =
     (if summary_problem tf summary \<noteq> None then (Inl ValueError, file)
      else if file = IoErrorFile then (Inl OSError, file)
      else (Inr (), ParsedFile summary))"

definition read_last_pass :: "time_format \<Rightarrow> decisions_file \<Rightarrow> json option" where
  "read_last_pass tf file =
     (case file of ParsedFile raw \<Rightarrow> if summary_problem tf raw = None then Some raw else None | _ \<Rightarrow> None)"

text \<open>\<open>read_advisory\<close>: the counts, the block reason, and the age in whole seconds.\<close>

definition summary_time :: "time_format \<Rightarrow> json \<Rightarrow> int" where
  "summary_time tf v =
     (case v of JStr s \<Rightarrow> (case tf_from_iso tf s of Inr (Aware t) \<Rightarrow> t | Inr (Naive t) \<Rightarrow> t | Inl _ \<Rightarrow> 0) | _ \<Rightarrow> 0)"

definition read_advisory :: "time_format \<Rightarrow> decisions_file \<Rightarrow> stamp \<Rightarrow> exn + (json \<times> json \<times> json \<times> int) option" where
  "read_advisory tf file now =
     (case now of
        Naive _ \<Rightarrow> Inl ValueError
      | Aware a \<Rightarrow>
          (case read_last_pass tf file of
             Some (JObj kvs) \<Rightarrow> Inr (Some (field ''counts'' kvs, field ''blocked'' kvs, field ''finished_at'' kvs,
                                  max 0 ((a - summary_time tf (field ''finished_at'' kvs)) div 1000000)))
           | _ \<Rightarrow> Inr None))"

section \<open>Facts\<close>

lemma fold_counts_bound:
  assumes "fold_results (\<lambda>g c. bind_result (state_of_group states g) (\<lambda>st. Inr (count_one outcome_of st g c))) groups c = Inr c'"
  shows "co_needs_person c' + co_claim_expired c' + co_failed c' + co_deferred c'
      \<le> co_needs_person c + co_claim_expired c + co_failed c + co_deferred c + int (length groups)
    \<and> co_needs_person c \<le> co_needs_person c' \<and> co_claim_expired c \<le> co_claim_expired c'
    \<and> co_failed c \<le> co_failed c' \<and> co_deferred c \<le> co_deferred c'"
  using assms
proof (induction groups arbitrary: c)
  case Nil
  then show ?case by simp
next
  case (Cons g gs)
  then obtain st where step: "fold_results (\<lambda>g c. bind_result (state_of_group states g) (\<lambda>st. Inr (count_one outcome_of st g c)))
      gs (count_one outcome_of st g c) = Inr c'"
    by (auto simp: bind_result_Inr)
  have "co_needs_person (count_one outcome_of st g c) + co_claim_expired (count_one outcome_of st g c)
      + co_failed (count_one outcome_of st g c) + co_deferred (count_one outcome_of st g c)
      \<le> co_needs_person c + co_claim_expired c + co_failed c + co_deferred c + 1
    \<and> co_needs_person c \<le> co_needs_person (count_one outcome_of st g c) \<and> co_claim_expired c \<le> co_claim_expired (count_one outcome_of st g c)
    \<and> co_failed c \<le> co_failed (count_one outcome_of st g c) \<and> co_deferred c \<le> co_deferred (count_one outcome_of st g c)"
    by (simp add: count_one_def split: disposition.splits option.splits group_outcome.splits)
  with Cons.IH[OF step] show ?case by (simp only: length_Cons of_nat_Suc) linarith
qed

end
