(* ===== verification/Maintenance_Commands.thy ===== *)
theory Maintenance_Commands
  imports Maintenance_Detection Maintenance_Summary Command_Results
begin

text \<open>
  The maintenance commands of \<open>_application/maintenance\<close> that record and show decisions:
  \<open>_items.py\<close> (detection joined with decisions), \<open>_decisions.py\<close>, \<open>claim.py\<close>, \<open>dismiss.py\<close>,
  \<open>release.py\<close> and \<open>list.py\<close>. A reply keeps the code, field and retry flag of an error; its texts
  are not modelled. The decisions lock makes the locked part of a command one step on the file.
\<close>

section \<open>Requests\<close>

datatype decision_request =
    ClaimRequest (dr_key: string) (dr_actor: string)
  | DismissRequest (dr_key: string) string string (dr_actor: string)
  | ReleaseRequest (dr_key: string) (dr_actor: string)

definition text_of :: "json \<Rightarrow> exn + string" where
  "text_of v = (case v of JStr s \<Rightarrow> Inr s | _ \<Rightarrow> Inl ValueError)"

definition new_claim_request :: "(string \<Rightarrow> bool) \<Rightarrow> json \<Rightarrow> json \<Rightarrow> exn + decision_request" where
  "new_claim_request printable key claimant =
     bind_result (validate_key printable key) (\<lambda>_. bind_result (validate_actor claimant) (\<lambda>_.
     bind_result (text_of key) (\<lambda>k. bind_result (text_of claimant) (\<lambda>a. Inr (ClaimRequest k a)))))"

definition new_dismiss_request :: "(string \<Rightarrow> bool) \<Rightarrow> json \<Rightarrow> json \<Rightarrow> json \<Rightarrow> json \<Rightarrow> exn + decision_request" where
  "new_dismiss_request printable key expected reason actor =
     bind_result (validate_key printable key) (\<lambda>_. bind_result (validate_key printable expected) (\<lambda>_.
     bind_result (validate_reason reason) (\<lambda>_. bind_result (validate_actor actor) (\<lambda>_.
     bind_result (text_of key) (\<lambda>k. bind_result (text_of expected) (\<lambda>e.
     bind_result (text_of reason) (\<lambda>r. bind_result (text_of actor) (\<lambda>a.
     Inr (DismissRequest k e r a)))))))))"

definition new_release_request :: "(string \<Rightarrow> bool) \<Rightarrow> json \<Rightarrow> json \<Rightarrow> exn + decision_request" where
  "new_release_request printable key actor =
     bind_result (validate_key printable key) (\<lambda>_. bind_result (validate_actor actor) (\<lambda>_.
     bind_result (text_of key) (\<lambda>k. bind_result (text_of actor) (\<lambda>a. Inr (ReleaseRequest k a)))))"

text \<open>The \<open>decide\<close> each executor passes to \<open>apply_decision\<close>.\<close>

fun decide :: "decision_request \<Rightarrow> finding_group \<Rightarrow> decisions \<Rightarrow> stamp \<Rightarrow> exn + (refusal + decisions)" where
  "decide (ClaimRequest key claimant) g d now = decide_claim NEVER_HELD claimant g d now"
| "decide (DismissRequest key expected reason actor) g d now = decide_dismiss actor reason expected g d now"
| "decide (ReleaseRequest key actor) g d now = decide_release actor g d now"

section \<open>Detection joined with decisions\<close>

record detected_state =
  dt_groups :: "finding_group list"
  dt_states :: "(string \<times> decision_state) list"
  dt_decisions :: decisions
  dt_last_pass :: "json option"

definition brain_groups :: "detected_state \<Rightarrow> finding_group list" where
  "brain_groups s = filter (\<lambda>g. fg_owner g = Some BrainOwner) (dt_groups s)"

definition contract_warnings :: "detected_state \<Rightarrow> string list" where
  "contract_warnings s = concat (map breaches (dt_groups s))"

definition group_named :: "detected_state \<Rightarrow> string \<Rightarrow> finding_group option" where
  "group_named s key = find (\<lambda>g. fg_key g = key) (brain_groups s)"

text \<open>What a command meets: the findings of the checks, the two clock readings, whether the lock
  is busy, the verdict of its admission, and the files as its reads see them.\<close>

record decision_context =
  dc_format :: time_format
  dc_hex :: "string \<Rightarrow> string"
  dc_checked :: "exn + raw_finding list"
  dc_seen :: stamp
  dc_now :: stamp
  dc_busy :: bool
  dc_admit :: "exn + unit"
  dc_dry_run :: bool
  dc_before :: decisions_file
  dc_last_pass :: decisions_file

datatype reply_error = ReplyError error_code "string option" bool

text \<open>\<open>read_decisions_or_error\<close>: the inner error is the command's reply, the outer one escapes.\<close>

definition read_decisions_or_error :: "time_format \<Rightarrow> decisions_file \<Rightarrow> exn + (reply_error + decisions)" where
  "read_decisions_or_error tf file =
     (case read_decisions tf file of
        Inr d \<Rightarrow> Inr (Inr d)
      | Inl e \<Rightarrow> if e = DecisionsUnreadable then Inr (Inl (ReplyError InternalError None False)) else Inl e)"

definition detect_or_error :: "(string \<Rightarrow> string) \<Rightarrow> exn + raw_finding list \<Rightarrow> exn + (reply_error + finding list)" where
  "detect_or_error hx checked =
     bind_result (detect hx checked) (\<lambda>found.
     Inr (case found of None \<Rightarrow> Inl (ReplyError Conflict None False) | Some fs \<Rightarrow> Inr fs))"

definition join_state ::
  "(string \<Rightarrow> string) \<Rightarrow> finding list \<Rightarrow> decisions \<Rightarrow> stamp \<Rightarrow> json option \<Rightarrow> exn + detected_state" where
  "join_state hx findings d now last_pass =
     (let groups = group_by_family hx findings in
      bind_result (apply_decisions NEVER_HELD d now groups) (\<lambda>states.
      Inr \<lparr>dt_groups = groups, dt_states = states, dt_decisions = d, dt_last_pass = last_pass\<rparr>))"

definition load_state :: "decision_context \<Rightarrow> exn + (reply_error + detected_state)" where
  "load_state c =
     bind_result (read_decisions_or_error (dc_format c) (dc_before c)) (\<lambda>r1.
     case r1 of Inl e \<Rightarrow> Inr (Inl e) | Inr d \<Rightarrow>
       bind_result (detect_or_error (dc_hex c) (dc_checked c)) (\<lambda>r2.
       case r2 of Inl e \<Rightarrow> Inr (Inl e) | Inr fs \<Rightarrow>
         bind_result (join_state (dc_hex c) fs d (dc_seen c) (read_last_pass (dc_format c) (dc_last_pass c))) (\<lambda>s.
         Inr (Inr s))))"

definition last_outcome_for :: "finding_group \<Rightarrow> json option \<Rightarrow> exn + group_outcome option" where
  "last_outcome_for g last_pass =
     (case (last_pass, fg_scope g) of
        (Some (JObj kvs), Some scope) \<Rightarrow>
          (case field ''groups'' kvs of
             JObj outcomes \<Rightarrow>
               (case map_of outcomes scope of
                  None \<Rightarrow> Inr None
                | Some (JStr v) \<Rightarrow> bind_result (group_outcome_of v) (\<lambda>x. Inr (Some x))
                | Some _ \<Rightarrow> Inl ValueError)
           | _ \<Rightarrow> Inl TypeError)
      | _ \<Rightarrow> Inr None)"

text \<open>A \<open>MaintenanceItem\<close>, without the text of its guidance command.\<close>

record maintenance_item =
  mi_key :: string
  mi_fingerprint :: string
  mi_family :: bool
  mi_disposition :: disposition
  mi_owner :: "finding_owner option"
  mi_scope :: "string option"
  mi_check :: string
  mi_code :: "string option"
  mi_file :: "string option"
  mi_message :: string
  mi_members :: nat
  mi_state :: item_state
  mi_claimant :: "string option"
  mi_expires_at :: "stamp option"
  mi_last_outcome :: "group_outcome option"

definition describe :: "finding_group \<Rightarrow> decision_state \<Rightarrow> group_outcome option \<Rightarrow> exn + maintenance_item" where
  "describe g st last_outcome =
     bind_result (group_check g) (\<lambda>chk. bind_result (group_code g) (\<lambda>code.
     bind_result (group_file g) (\<lambda>path. bind_result (group_message g) (\<lambda>message.
     Inr \<lparr>mi_key = fg_key g, mi_fingerprint = fg_fingerprint g, mi_family = is_family g,
       mi_disposition = fg_disposition g, mi_owner = fg_owner g, mi_scope = fg_scope g, mi_check = chk,
       mi_code = code, mi_file = path, mi_message = message, mi_members = length (fg_members g),
       mi_state = ds_state st, mi_claimant = ds_claimant st, mi_expires_at = ds_expires_at st,
       mi_last_outcome = last_outcome\<rparr>))))"

section \<open>Recording a decision\<close>

datatype decision_reply =
    Decided maintenance_item bool
  | Failed reply_error

fun refusal_error :: "refusal_code \<Rightarrow> error_code" where
  "refusal_error InvalidRequestRefusal = InvalidRequest"
| "refusal_error ConflictRefusal = Conflict"
| "refusal_error NotFoundRefusal = NotFound"

text \<open>\<open>_ok\<close>: the item as the given decisions show it; the second component is \<open>committed\<close>.\<close>

definition decided :: "finding_group \<Rightarrow> detected_state \<Rightarrow> decisions \<Rightarrow> stamp \<Rightarrow> bool \<Rightarrow> exn + decision_reply" where
  "decided g s d now committed =
     bind_result (group_state NEVER_HELD d now g) (\<lambda>st.
     bind_result (last_outcome_for g (dt_last_pass s)) (\<lambda>last_outcome.
     bind_result (describe g st last_outcome) (\<lambda>item. Inr (Decided item committed))))"

text \<open>The body of the \<open>with\<close> block, on the file as it is under the lock: read, prune, decide, admit, write.\<close>

definition decide_locked ::
  "decision_context \<Rightarrow> decision_request \<Rightarrow> detected_state \<Rightarrow> finding_group \<Rightarrow> (decisions_file, decision_reply) prog" where
  "decide_locked c request s g =
     bind_prog (lift_result (read_decisions_or_error (dc_format c))) (\<lambda>r.
     case r of
       Inl e \<Rightarrow> return_prog (Failed e)
     | Inr recorded \<Rightarrow>
         let d = prune recorded (dc_now c) in
         bind_prog (lift_result (\<lambda>_. decide request g d (dc_now c))) (\<lambda>verdict.
         case verdict of
           Inl x \<Rightarrow> return_prog (Failed (ReplyError (refusal_error (rf_code x)) (rf_field x) False))
         | Inr updated \<Rightarrow>
             bind_prog (lift_result (\<lambda>_. dc_admit c)) (\<lambda>_.
             if dc_dry_run c then lift_result (\<lambda>_. decided g s d (dc_now c) False)
             else bind_prog (write_decisions (dc_format c) updated) (\<lambda>_.
                  lift_result (\<lambda>_. decided g s updated (dc_now c) True)))))"

definition apply_decision :: "decision_context \<Rightarrow> decision_request \<Rightarrow> (decisions_file, decision_reply) prog" where
  "apply_decision c request =
     bind_prog (lift_result (\<lambda>_. load_state c)) (\<lambda>r.
     case r of
       Inl e \<Rightarrow> return_prog (Failed e)
     | Inr s \<Rightarrow>
         (case group_named s (dr_key request) of
            None \<Rightarrow> return_prog (Failed (ReplyError NotFound (Some ''key'') False))
          | Some g \<Rightarrow>
              if dc_busy c then return_prog (Failed (ReplyError Conflict None True))
              else decide_locked c request s g))"

section \<open>Listing\<close>

text \<open>One group of \<open>maintenance.list\<close>: shown, or counted among the hidden quiet ones.\<close>

definition list_group ::
  "bool \<Rightarrow> detected_state \<Rightarrow> finding_group \<Rightarrow> maintenance_item list \<times> int \<Rightarrow> exn + maintenance_item list \<times> int" where
  "list_group everything s g acc =
     bind_result (case map_of (dt_states s) (fg_key g) of None \<Rightarrow> Inl KeyError | Some st \<Rightarrow> Inr st) (\<lambda>st.
     bind_result (last_outcome_for g (dt_last_pass s)) (\<lambda>last_outcome.
     bind_result (describe g st last_outcome) (\<lambda>item.
     let (items, hidden) = acc in
     Inr (if fg_owner g = Some MachineOwner then (items @ [item], hidden)
          else if fg_disposition g = Automatic
          then (if everything \<or> ds_state st = ClaimExpired
                   \<or> (case last_outcome of None \<Rightarrow> False | Some x \<Rightarrow> x \<in> set SHOWN_AUTOMATIC)
                then (items @ [item], hidden) else (items, hidden))
          else if ds_state st = Quiet \<and> \<not> everything then (items, hidden + 1)
          else (items @ [item], hidden)))))"

definition list_maintenance :: "decision_context \<Rightarrow> bool \<Rightarrow> exn + (reply_error + maintenance_item list \<times> int)" where
  "list_maintenance c everything =
     bind_result (load_state c) (\<lambda>r.
     case r of
       Inl e \<Rightarrow> Inr (Inl e)
     | Inr s \<Rightarrow> bind_result (fold_results (list_group everything s) (dt_groups s) ([], 0)) (\<lambda>x. Inr (Inr x)))"

end
