(* ===== verification/Maintenance_Runs.thy ===== *)
theory Maintenance_Runs
  imports Maintenance_Commands
begin

text \<open>
  Facts about the decision records: pruning drops only what readers ignore, the file reads back
  what was written, and the effect of a decision command on the file, from one command to runs of
  commands by many actors.
\<close>

section \<open>Times\<close>

text \<open>Aware times in order: \<open>now \<le> later\<close>.\<close>

definition not_after :: "stamp \<Rightarrow> stamp \<Rightarrow> bool" where
  "not_after now later = (\<exists>a b. now = Aware a \<and> later = Aware b \<and> a \<le> b)"

lemma older_aware [simp]: "older (Aware a) (Aware b) \<longleftrightarrow> a < b"
  by (simp add: older_def)

lemma older_aware_left: "older (Aware a) t \<longleftrightarrow> (\<exists>b. t = Aware b \<and> a < b)"
  by (cases t) (simp_all add: older_def)

lemma retained_earlier:
  assumes "not_after now later"
  shows "claim_retained c later \<Longrightarrow> claim_retained c now" "dismissal_retained x later \<Longrightarrow> dismissal_retained x now"
    "claim_live c later \<Longrightarrow> claim_live c now"
  using assms
  by (cases "cl_expires_at c"; cases "di_dismissed_at x"; auto simp: not_after_def claim_retained_def
      dismissal_retained_def claim_live_def older_aware_left)+

lemma live_retained:
  assumes "claim_live c now" "aware now"
  shows "claim_retained c now"
  using assms
  by (cases now; cases "cl_expires_at c") (auto simp: claim_live_def claim_retained_def EXPIRED_CLAIM_RETENTION_def older_aware_left)

section \<open>Filtered dictionaries\<close>

lemma map_of_filter:
  "distinct (map fst xs) \<Longrightarrow>
   map_of (filter (\<lambda>(k, v). P k v) xs) k = (case map_of xs k of None \<Rightarrow> None | Some v \<Rightarrow> if P k v then Some v else None)"
proof (induction xs)
  case Nil
  then show ?case by simp
next
  case (Cons x xs)
  obtain a b where x: "x = (a, b)" by (cases x)
  from Cons.prems x have "map_of xs a = None" by (simp add: map_of_eq_None_iff)
  with Cons x show ?case by (auto split: option.splits)
qed

lemma distinct_filter_keys': "distinct (map fst xs) \<Longrightarrow> distinct (map fst (filter P xs))"
  by (induction xs) (auto dest: set_mp[OF filter_is_subset])

lemma map_of_sort_key:
  assumes "distinct (map fst xs)"
  shows "map_of (sort_key fst xs) k = map_of xs k"
proof -
  have "distinct (map fst (sort_key fst xs))"
    using assms by (metis distinct_map distinct_sort set_sort)
  then show ?thesis
    using assms by (metis map_of_eq_None_iff map_of_eq_Some_iff option.exhaust set_map set_sort)
qed

lemma fold_results_cong:
  "(\<And>x a. x \<in> set xs \<Longrightarrow> f x a = g x a) \<Longrightarrow> fold_results f xs acc = fold_results g xs acc"
proof (induction xs arbitrary: acc)
  case Nil
  then show ?case by simp
next
  case (Cons x xs)
  have "fold_results f xs = fold_results g xs" using Cons by (intro ext) simp
  with Cons.prems show ?case by simp
qed

section \<open>Pruning\<close>

definition distinct_decisions :: "decisions \<Rightarrow> bool" where
  "distinct_decisions d = (distinct (map fst (de_claims d)) \<and> distinct (map fst (de_dismissals d)))"

lemma prune_lookup:
  assumes "distinct_decisions d"
  shows "map_of (de_claims (prune d now)) k =
      (case map_of (de_claims d) k of None \<Rightarrow> None | Some c \<Rightarrow> if claim_retained c now then Some c else None)"
    "map_of (de_dismissals (prune d now)) k =
      (case map_of (de_dismissals d) k of None \<Rightarrow> None | Some x \<Rightarrow> if dismissal_retained x now then Some x else None)"
  using assms by (simp_all add: prune_def distinct_decisions_def map_of_filter)

lemma dismissible_total: "fg_members g \<noteq> [] \<Longrightarrow> \<exists>b. dismissible g = Inr b"
  by (cases "dismissible g"; cases "fg_members g") (simp_all add: dismissible_def first_member_def split: if_splits)

lemma prune_group_state:
  assumes "distinct_decisions d" "not_after now later" "fg_members g \<noteq> []"
  shows "group_state nh (prune d now) later g = group_state nh d later g"
proof -
  from dismissible_total[OF assms(3)] obtain b where b: "dismissible g = Inr b" ..
  have q: "quieting (prune d now) later g = quieting d later g"
    using retained_earlier(2)[OF assms(2)]
    by (auto simp: quieting_def prune_lookup[OF assms(1)] b split: option.splits)
  have c: "claim_state nh (prune d now) later g = claim_state nh d later g"
    using retained_earlier(1)[OF assms(2)]
    by (auto simp: claim_state_def prune_lookup[OF assms(1)] split: option.splits)
  show ?thesis unfolding group_state_def q c ..
qed

section \<open>The file\<close>

definition valid_claim :: "string \<times> claim \<Rightarrow> bool" where
  "valid_claim e = (\<not> py_blank (fst e) \<and> \<not> py_blank (cl_claimant (snd e)) \<and> aware (cl_expires_at (snd e)))"

definition valid_dismissal :: "string \<times> dismissal \<Rightarrow> bool" where
  "valid_dismissal e = (\<not> py_blank (fst e) \<and> \<not> py_blank (di_fingerprint (snd e)) \<and> \<not> py_blank (di_dismissed_by (snd e))
     \<and> \<not> py_blank (di_reason (snd e)) \<and> aware (di_dismissed_at (snd e)))"

definition valid_decisions :: "decisions \<Rightarrow> bool" where
  "valid_decisions d = (distinct_decisions d \<and> list_all valid_claim (de_claims d) \<and> list_all valid_dismissal (de_dismissals d))"

definition sorted_decisions :: "decisions \<Rightarrow> decisions" where
  "sorted_decisions d = \<lparr>de_claims = sort_key fst (de_claims d), de_dismissals = sort_key fst (de_dismissals d)\<rparr>"

lemma field_Cons: "field k ((k', v) # kvs) = (if k = k' then v else field k kvs)"
  by (simp add: field_def)

lemma parse_time_iso: "faithful_format tf \<Longrightarrow> aware t \<Longrightarrow> parse_time tf (JStr (tf_iso tf t)) = Inr t"
  by (simp add: parse_time_def faithful_formatD)

lemma decode_claims:
  assumes "faithful_format tf" "list_all valid_claim cs"
  shows "collect_results (map (decode_claim tf) (map (\<lambda>(k, c). (k, encode_claim tf c)) cs)) = Inr cs"
  using assms(2)
  by (induction cs) (auto simp: decode_claim_def encode_claim_def valid_claim_def field_Cons text_value_def
      parse_time_iso[OF assms(1)])

lemma decode_dismissals:
  assumes "faithful_format tf" "list_all valid_dismissal ds"
  shows "collect_results (map (decode_dismissal tf) (map (\<lambda>(k, x). (k, encode_dismissal tf x)) ds)) = Inr ds"
  using assms(2)
  by (induction ds) (auto simp: decode_dismissal_def encode_dismissal_def valid_dismissal_def field_Cons text_value_def
      parse_time_iso[OF assms(1)])

lemma read_written:
  assumes "faithful_format tf" "valid_decisions d"
  shows "read_decisions tf (ParsedFile (encode_decisions tf d)) = Inr (sorted_decisions d)"
proof -
  have "list_all valid_claim (sort_key fst (de_claims d))" "list_all valid_dismissal (sort_key fst (de_dismissals d))"
    using assms(2) by (simp_all add: valid_decisions_def list_all_iff)
  from decode_claims[OF assms(1) this(1)] decode_dismissals[OF assms(1) this(2)] show ?thesis
    by (simp add: read_decisions_def decode_decisions_def encode_decisions_def field_Cons section_of_def sorted_decisions_def)
qed

lemma distinct_sorted_decisions: "distinct_decisions d \<Longrightarrow> distinct_decisions (sorted_decisions d)"
  by (simp add: distinct_decisions_def sorted_decisions_def) (metis distinct_map distinct_sort set_sort)

lemma sorted_lookup:
  assumes "distinct_decisions d"
  shows "map_of (de_claims (sorted_decisions d)) k = map_of (de_claims d) k"
    "map_of (de_dismissals (sorted_decisions d)) k = map_of (de_dismissals d) k"
  using assms by (simp_all add: sorted_decisions_def distinct_decisions_def map_of_sort_key)

lemma valid_sorted: "valid_decisions d \<Longrightarrow> valid_decisions (sorted_decisions d)"
  by (simp add: valid_decisions_def distinct_sorted_decisions) (simp add: sorted_decisions_def list_all_iff)

lemma valid_prune: "valid_decisions d \<Longrightarrow> valid_decisions (prune d now)"
  by (auto simp: valid_decisions_def distinct_decisions_def prune_def list_all_iff distinct_filter_keys')

section \<open>One decision\<close>

lemma held_by_otherI:
  "map_of (de_claims d) key = Some c \<Longrightarrow> claim_live c now \<Longrightarrow> cl_claimant c \<noteq> actor \<Longrightarrow> held_by_other d key actor now = Some c"
  by (simp add: held_by_other_def)

lemma decide_claim_Inr:
  "decide_claim nh claimant g d now = Inr (Inr u) \<Longrightarrow>
     held_by_other d (fg_key g) claimant now = None
   \<and> u = with_claim d (fg_key g) \<lparr>cl_claimant = claimant, cl_expires_at = stamp_plus now CLAIM_LEASE\<rparr>"
  by (simp add: decide_claim_def refuse_def split: if_splits option.splits)

lemma decide_dismiss_Inr:
  "decide_dismiss actor reason expected g d now = Inr (Inr u) \<Longrightarrow>
     held_by_other d (fg_key g) actor now = None \<and> fg_disposition g \<noteq> Automatic \<and> breaches g = []
   \<and> dismissible g = Inr True \<and> fg_fingerprint g = expected
   \<and> u = with_dismissal d (fg_key g)
       \<lparr>di_fingerprint = expected, di_dismissed_by = actor, di_reason = reason, di_dismissed_at = now\<rparr>"
  by (auto simp: decide_dismiss_def refuse_def bind_result_Inr split: if_splits)

lemma decide_release_Inr:
  "decide_release actor g d now = Inr (Inr u) \<Longrightarrow>
     held_by_other d (fg_key g) actor now = None \<and> map_of (de_claims d) (fg_key g) \<noteq> None \<and> u = without_claim d (fg_key g)"
  by (simp add: decide_release_def refuse_def split: if_splits)

lemma decide_unheld: "decide r g d now = Inr (Inr u) \<Longrightarrow> held_by_other d (fg_key g) (dr_actor r) now = None"
  by (cases r) (auto dest: decide_claim_Inr decide_dismiss_Inr decide_release_Inr)

text \<open>A decision changes the records of its own key only.\<close>

lemma map_of_filter_other: "map_of (filter (\<lambda>(k, v). k \<noteq> key) xs) k = (if k = key then None else map_of xs k)"
  by (induction xs) auto

lemma decide_other_keys:
  assumes "decide r g d now = Inr (Inr u)" "k \<noteq> fg_key g"
  shows "map_of (de_claims u) k = map_of (de_claims d) k" "map_of (de_dismissals u) k = map_of (de_dismissals d) k"
  using assms
  by (cases r; auto dest!: decide_claim_Inr decide_dismiss_Inr decide_release_Inr
      simp: with_claim_def with_dismissal_def without_claim_def map_of_filter_other update_conv)+

text \<open>What the constructor of a request guarantees.\<close>

definition valid_request :: "decision_request \<Rightarrow> bool" where
  "valid_request r = (\<not> py_blank (dr_key r) \<and> \<not> py_blank (dr_actor r)
     \<and> (case r of DismissRequest key expected reason actor \<Rightarrow> \<not> py_blank expected \<and> \<not> py_blank reason | _ \<Rightarrow> True))"

lemma new_requests_valid:
  "new_claim_request pr k a = Inr r \<Longrightarrow> valid_request r"
  "new_release_request pr k a = Inr r \<Longrightarrow> valid_request r"
  "new_dismiss_request pr k e w a = Inr r \<Longrightarrow> valid_request r"
  by (auto simp: new_claim_request_def new_release_request_def new_dismiss_request_def validate_key_def validate_actor_def
      validate_reason_def text_of_def valid_request_def bind_result_Inr split: json.splits)

lemma valid_alist_update:
  assumes "list_all P xs" "P (k, v)"
  shows "list_all P (AList.update k v xs)"
  using assms by (induction xs) auto

lemma list_all_filter: "list_all P xs \<Longrightarrow> list_all P (filter Q xs)"
  by (simp add: list_all_iff)

lemma valid_decide:
  assumes "decide r g d now = Inr (Inr u)" "valid_decisions d" "valid_request r" "aware now" "fg_key g = dr_key r"
  shows "valid_decisions u"
proof -
  have "aware (stamp_plus now CLAIM_LEASE)" using assms(4) by (cases now) simp_all
  with assms show ?thesis
    by (cases r) (auto dest!: decide_claim_Inr decide_dismiss_Inr decide_release_Inr
        simp: valid_decisions_def distinct_decisions_def with_claim_def with_dismissal_def without_claim_def
          valid_request_def valid_claim_def valid_dismissal_def distinct_update
        intro!: valid_alist_update list_all_filter distinct_filter_keys')
qed

section \<open>One command\<close>

lemma apply_decision_effect:
  assumes "apply_decision c r file = (res, file')"
  obtains "file' = file"
    | s g d u where "load_state c = Inr (Inr s)" "group_named s (dr_key r) = Some g" "\<not> dc_busy c"
      "dc_admit c = Inr ()" "\<not> dc_dry_run c" "read_decisions (dc_format c) file = Inr d"
      "decide r g (prune d (dc_now c)) (dc_now c) = Inr (Inr u)"
      "file' = ParsedFile (encode_decisions (dc_format c) u)" "res = decided g s u (dc_now c) True"
proof -
  from assms[unfolded apply_decision_def] show thesis
  proof (cases rule: bind_prog_cases)
    case (1 e)
    then show ?thesis using that(1) by simp
  next
    case (2 x s1)
    then have s1: "s1 = file" and x: "load_state c = Inr x" by simp_all
    show ?thesis
    proof (cases "\<exists>s g. x = Inr s \<and> group_named s (dr_key r) = Some g \<and> \<not> dc_busy c")
      case False
      with 2 s1 show ?thesis using that(1) by (auto split: sum.splits option.splits if_splits)
    next
      case True
      then obtain s g where sg: "x = Inr s" "group_named s (dr_key r) = Some g" "\<not> dc_busy c" by blast
      with 2 s1 have run: "decide_locked c r s g file = (res, file')" by simp
      from this[unfolded decide_locked_def] show ?thesis
      proof (cases rule: bind_prog_cases)
        case (1 e)
        then show ?thesis using that(1) by simp
      next
        case (2 y s2)
        then have s2: "s2 = file" and y: "read_decisions_or_error (dc_format c) file = Inr y" by auto
        show ?thesis
        proof (cases y)
          case (Inl e)
          with 2 s2 show ?thesis using that(1) by simp
        next
          case (Inr d)
          with y have d: "read_decisions (dc_format c) file = Inr d"
            by (simp add: read_decisions_or_error_def split: sum.splits if_splits)
          from 2 s2 Inr have run2: "bind_prog (lift_result (\<lambda>_. decide r g (prune d (dc_now c)) (dc_now c))) (\<lambda>verdict.
             case verdict of
               Inl x \<Rightarrow> return_prog (Failed (ReplyError (refusal_error (rf_code x)) (rf_field x) False))
             | Inr updated \<Rightarrow>
                 bind_prog (lift_result (\<lambda>_. dc_admit c)) (\<lambda>_.
                 if dc_dry_run c then lift_result (\<lambda>_. decided g s (prune d (dc_now c)) (dc_now c) False)
                 else bind_prog (write_decisions (dc_format c) updated) (\<lambda>_.
                      lift_result (\<lambda>_. decided g s updated (dc_now c) True)))) file = (res, file')"
            by (simp add: Let_def)
          show ?thesis
          proof (cases "decide r g (prune d (dc_now c)) (dc_now c)")
            case (Inl e)
            with run2 show ?thesis using that(1) by (simp add: bind_prog_def)
          next
            case (Inr v)
            show ?thesis
            proof (cases "(\<exists>u. v = Inr u) \<and> dc_admit c = Inr () \<and> \<not> dc_dry_run c \<and> file \<noteq> IoErrorFile")
              case False
              with run2 Inr show ?thesis using that(1)
                by (auto simp: bind_prog_def write_decisions_def split: sum.splits if_splits)
            next
              case True
              then obtain u where u: "v = Inr u" by blast
              from run2 Inr True u have "file' = ParsedFile (encode_decisions (dc_format c) u)" "res = decided g s u (dc_now c) True"
                by (simp_all add: bind_prog_def write_decisions_def)
              with that(2)[OF x[unfolded sg(1)] sg(2,3) _ _ d] Inr u True show ?thesis by simp
            qed
          qed
        qed
      qed
    qed
  qed
qed

lemma group_named_key: "group_named s key = Some g \<Longrightarrow> fg_key g = key"
  by (simp add: group_named_def find_Some_iff) blast

section \<open>Runs of commands\<close>

definition run_decisions :: "(decision_context \<times> decision_request) list \<Rightarrow> decisions_file \<Rightarrow> decisions_file" where
  "run_decisions cmds file = fold (\<lambda>(c, r) f. snd (apply_decision c r f)) cmds file"

text \<open>What one command of another actor leaves of a live claim, and of a dismissal of that key.\<close>

lemma other_actor_step:
  assumes "read_decisions tf file = Inr d" "valid_decisions d" "map_of (de_claims d) k = Some cl"
    and "dc_format c = tf" "faithful_format tf" "valid_request r" "aware (dc_now c)"
    and "dr_actor r \<noteq> cl_claimant cl" "older (dc_now c) (cl_expires_at cl)"
  shows "\<exists>d'. read_decisions tf (snd (apply_decision c r file)) = Inr d' \<and> valid_decisions d'
     \<and> map_of (de_claims d') k = Some cl \<and> map_of (de_dismissals d') k \<in> {None, map_of (de_dismissals d) k}"
proof -
  obtain res file' where run: "apply_decision c r file = (res, file')" by fastforce
  from run show ?thesis
  proof (cases rule: apply_decision_effect)
    case 1
    with run assms(1-3) show ?thesis by auto
  next
    case (2 s g d0 u)
    have d0: "d0 = d" using 2(6) assms(1,4) by simp
    have live: "claim_live cl (dc_now c)" using assms(9) by (simp add: claim_live_def)
    have distinct: "distinct_decisions d" using assms(2) by (simp add: valid_decisions_def)
    have kept: "map_of (de_claims (prune d (dc_now c))) k = Some cl"
      using live_retained[OF live assms(7)] by (simp add: prune_lookup[OF distinct] assms(3))
    have "fg_key g \<noteq> k"
    proof
      assume "fg_key g = k"
      with held_by_otherI[OF kept live, of "dr_actor r"] assms(8) decide_unheld[OF 2(7)[unfolded d0]] show False by auto
    qed
    note other = decide_other_keys[OF 2(7)[unfolded d0] this[symmetric]]
    have valid: "valid_decisions u"
      by (rule valid_decide[OF 2(7)[unfolded d0] valid_prune[OF assms(2)] assms(6,7) group_named_key[OF 2(2)]])
    then have du: "distinct_decisions u" by (simp add: valid_decisions_def)
    have "read_decisions tf file' = Inr (sorted_decisions u)"
      using read_written[OF assms(5) valid] 2(8) assms(4) by simp
    moreover have "map_of (de_claims (sorted_decisions u)) k = Some cl"
      by (simp add: sorted_lookup[OF du] other kept)
    moreover have "map_of (de_dismissals (sorted_decisions u)) k \<in> {None, map_of (de_dismissals d) k}"
      by (auto simp: sorted_lookup[OF du] other prune_lookup[OF distinct] split: option.splits)
    ultimately show ?thesis using valid_sorted[OF valid] run by auto
  qed
qed

section \<open>Detection and grouping\<close>

text \<open>The evidence a group's fingerprint is taken over.\<close>

definition grouped_evidence :: "finding_group \<Rightarrow> mapping option" where
  "grouped_evidence g =
     (if is_family g then Some [(''files'', JArr (map JStr (family_files (fg_members g))))]
      else if length (fg_members g) = 1 then mf_evidence (hd (fg_members g))
      else Some [(''members'', JArr (sort_key canonical_json (map evidence_json (fg_members g))))])"

definition evidence_text :: "string \<Rightarrow> mapping \<Rightarrow> string" where
  "evidence_text key e = canonical_json (JArr [JStr key, JObj e])"

lemma family_group_is_family:
  assumes "ms \<noteq> []" "ms = filter (\<lambda>f. counted_key f = k) (filter (\<lambda>f. mf_scope f \<noteq> None) (counted fs))"
  shows "is_family (family_group hx (k, ms))"
proof -
  have "hd ms \<in> set ms" using assms(1) by simp
  then have "mf_scope (hd ms) \<noteq> None"
    unfolding assms(2) by (metis (mono_tags, lifting) filter_is_subset mem_Collect_eq set_filter subsetD)
  then show ?thesis by (simp add: is_family_def)
qed

lemma group_fingerprint:
  assumes "g \<in> set (group_by_family hx fs)" "fg_disposition g = Judgement"
  shows "fg_fingerprint g = finding_fingerprint hx (fg_key g) (grouped_evidence g)"
proof -
  from assms(1) obtain k ms where ms: "ms \<noteq> []"
    and g: "g = family_group hx (k, ms) \<and> ms = filter (\<lambda>f. counted_key f = k) (filter (\<lambda>f. mf_scope f \<noteq> None) (counted fs))
       \<or> g = single_group hx (k, ms) \<and> ms = filter (\<lambda>f. counted_key f = k) (filter (\<lambda>f. mf_scope f = None) (counted fs))"
    unfolding group_by_family_member by blast
  from g show ?thesis
  proof
    assume l: "g = family_group hx (k, ms) \<and> ms = filter (\<lambda>f. counted_key f = k) (filter (\<lambda>f. mf_scope f \<noteq> None) (counted fs))"
    then have "is_family g" using family_group_is_family[OF ms] by blast
    moreover have "mf_disposition (hd ms) = Judgement" using l assms(2) by simp
    ultimately show ?thesis using conjunct1[OF l] by (simp add: grouped_evidence_def) (simp add: family_group_def Let_def)
  next
    assume r: "g = single_group hx (k, ms) \<and> ms = filter (\<lambda>f. counted_key f = k) (filter (\<lambda>f. mf_scope f = None) (counted fs))"
    then have "\<not> is_family g" by (simp add: is_family_def)
    then show ?thesis using conjunct1[OF r] by (simp add: grouped_evidence_def) (simp add: single_group_def Let_def)
  qed
qed

lemma set_map_filter: "set (List.map_filter f xs) = {y. \<exists>x \<in> set xs. f x = Some y}"
  by (induction xs) (auto simp: List.map_filter_simps split: option.splits)

lemma map_filter_nonempty: "List.map_filter f xs \<noteq> [] \<longleftrightarrow> (\<exists>x \<in> set xs. f x \<noteq> None)"
  by (induction xs) (auto simp: List.map_filter_simps split: option.splits)

lemma set_family_files: "set (family_files ms) = {f. \<exists>m \<in> set ms. mf_file m = Some f}"
  by (simp add: family_files_def set_map_filter)

lemma group_keys_distinct: "distinct (map (\<lambda>g. (is_family g, fg_key g)) (group_by_family hx fs))"
proof -
  let ?fam = "collect_members (filter (\<lambda>f. mf_scope f \<noteq> None) (counted fs))"
  let ?one = "collect_members (filter (\<lambda>f. mf_scope f = None) (counted fs))"
  have fam: "is_family (family_group hx e)" if "e \<in> set ?fam" for e
  proof -
    obtain k ms where e: "e = (k, ms)" by (cases e)
    from that[unfolded e collect_members_entry] show ?thesis unfolding e using family_group_is_family by blast
  qed
  have a: "map (\<lambda>g. (is_family g, fg_key g)) (map (family_group hx) ?fam) = map (\<lambda>e. (True, fst e)) ?fam"
    using fam by (auto simp: family_group_def Let_def)
  have b: "map (\<lambda>g. (is_family g, fg_key g)) (map (single_group hx) ?one) = map (\<lambda>e. (False, fst e)) ?one"
    by (auto simp: single_group_def Let_def is_family_def)
  have pair: "distinct (map (\<lambda>e. (b, fst e)) xs)" if "distinct (map fst xs)" for b :: bool and xs :: "(string \<times> finding list) list"
    using that by (induction xs) auto
  show ?thesis
    unfolding group_by_family_def Let_def map_append a b distinct_append
    using pair[OF collect_members_distinct] by auto
qed

lemma counted_in_group:
  assumes "f \<in> set fs" "mf_disposition f \<noteq> ReportOnly"
  shows "\<exists>g \<in> set (group_by_family hx fs). f \<in> set (fg_members g)"
proof -
  from assms have c: "f \<in> set (counted fs)" by (simp add: counted_def)
  show ?thesis
  proof (cases "mf_scope f = None")
    case True
    let ?ms = "filter (\<lambda>h. counted_key h = counted_key f) (filter (\<lambda>h. mf_scope h = None) (counted fs))"
    have "f \<in> set ?ms" using c True by simp
    then have "single_group hx (counted_key f, ?ms) \<in> set (group_by_family hx fs)"
      unfolding group_by_family_member by (metis empty_iff empty_set)
    with \<open>f \<in> set ?ms\<close> show ?thesis by (metis single_group_fields(2))
  next
    case False
    let ?ms = "filter (\<lambda>h. counted_key h = counted_key f) (filter (\<lambda>h. mf_scope h \<noteq> None) (counted fs))"
    have "f \<in> set ?ms" using c False by simp
    then have "family_group hx (counted_key f, ?ms) \<in> set (group_by_family hx fs)"
      unfolding group_by_family_member by (metis empty_iff empty_set)
    with \<open>f \<in> set ?ms\<close> show ?thesis by (metis family_group_fields(2))
  qed
qed

lemma collect_classified:
  "collect_results (map (classify_one hx) raws) = Inr fs \<Longrightarrow> raw \<in> set raws \<Longrightarrow> \<exists>f. classify_one hx raw = Inr f \<and> f \<in> set fs"
  by (induction raws arbitrary: fs) (auto simp: bind_result_Inr)

lemma classified_error:
  assumes "classify_one hx raw = Inr f" "rw_severity raw = ''error''"
  shows "mf_disposition f \<noteq> ReportOnly"
    and "mf_check f = rw_check raw \<and> mf_file f = rw_file raw \<and> mf_message f = rw_message raw"
    and "rw_repair raw = None \<Longrightarrow> map_of JUDGEMENT_FINDINGS (rw_check raw, rw_code raw) = None \<Longrightarrow> mf_breach f \<noteq> None"
proof -
  from assms(1) obtain family where fam: "family_for_finding raw = Inr family"
    by (cases "family_for_finding raw") (simp_all add: classify_one_def)
  obtain evidence where f: "(case family of Some fm \<Rightarrow> family_finding hx raw evidence fm | None \<Rightarrow> judgement_finding hx raw evidence) = Inr f"
    using assms fam by (cases family) (auto simp: classify_one_def bind_result_Inr)
  have j: "mf_disposition f = Judgement \<and> mf_check f = rw_check raw \<and> mf_file f = rw_file raw \<and> mf_message f = rw_message raw
      \<and> mf_breach f = snd (promised_identity (kind_of raw) (map_of JUDGEMENT_FINDINGS (rw_check raw, rw_code raw))
           [(''file'', optional_string (rw_file raw))] evidence)" if "family = None"
    using f that by (auto simp: judgement_finding_def Let_def bind_result_Inr plain_finding_def split: prod.splits dest!: check_finding_Inr)
  have r: "mf_disposition f = rf_disposition fm \<and> mf_check f = rw_check raw \<and> mf_file f = rw_file raw \<and> mf_message f = rw_message raw"
    if "family = Some fm" for fm
    using f that by (auto simp: family_finding_def bind_result_Inr plain_finding_def dest!: check_finding_Inr)
  have known: "rf_disposition fm \<noteq> ReportOnly" if "family = Some fm" for fm
  proof -
    have "\<exists>scope. map_of REPAIR_SCOPES scope = Some fm"
      using fam that by (auto simp: family_for_finding_def split: option.splits json.splits)
    then show ?thesis using repair_scope_Some by blast
  qed
  show "mf_disposition f \<noteq> ReportOnly" using j r known by (cases family) auto
  show "mf_check f = rw_check raw \<and> mf_file f = rw_file raw \<and> mf_message f = rw_message raw" using j r by (cases family) auto
  assume "rw_repair raw = None" "map_of JUDGEMENT_FINDINGS (rw_check raw, rw_code raw) = None"
  then show "mf_breach f \<noteq> None" using fam j by (auto simp: family_for_finding_def promised_identity_def)
qed

end
