(* ===== verification/Maintenance_Properties.thy ===== *)
theory Maintenance_Properties
  imports Maintenance_Runs Sample_Format
begin

text \<open>
  What the maintenance decisions promise: a live claim keeps others away over any run, a recorded
  decision takes effect, pruning is invisible, the file survives a round trip, a dismissal lasts
  exactly as long as its evidence, and no error is silenced by classification or grouping.
\<close>

section \<open>Sample findings\<close>

definition demo_hx :: "string \<Rightarrow> string" where
  "demo_hx s = ''h'' @ rev s"

definition demo_raw :: "string \<Rightarrow> raw_finding" where
  "demo_raw chk = \<lparr>rw_check = chk, rw_severity = ''error'', rw_message = ''m'', rw_code = None,
     rw_file = Some ''a.md'', rw_evidence = JNull, rw_repair = None\<rparr>"

text \<open>The key and fingerprint of the finding of a root file: it is identified by its subject.\<close>

definition demo_key :: string where
  "demo_key = finding_digest demo_hx (JArr [JStr NAMESPACE, JStr ''root_files'', JObj [(''file'', JStr ''a.md'')]])"

definition demo_call :: "int \<Rightarrow> decision_context" where
  "demo_call t = \<lparr>dc_format = demo_format, dc_hex = demo_hx, dc_checked = Inr [demo_raw ''root_files''],
     dc_seen = Aware t, dc_now = Aware t, dc_busy = False, dc_admit = Inr (), dc_dry_run = False,
     dc_before = NoFile, dc_last_pass = NoFile\<rparr>"

definition demo_claim :: claim where
  "demo_claim = \<lparr>cl_claimant = ''ann'', cl_expires_at = Aware 3600000000\<rparr>"

definition demo_decisions :: decisions where
  "demo_decisions = \<lparr>de_claims = [(demo_key, demo_claim)], de_dismissals = []\<rparr>"

lemma demo_visible: "\<not> py_blank demo_key" "\<not> py_blank ''ann''" "\<not> py_blank ''bob''" "\<not> py_blank ''fine''"
  by code_simp+

lemma demo_decisions_valid: "valid_decisions demo_decisions"
  by (simp add: valid_decisions_def distinct_decisions_def demo_decisions_def valid_claim_def demo_visible demo_claim_def del: py_blank.simps)

section \<open>Claims\<close>

text \<open>
  C14. A live claim keeps everybody else away. If the file holds a claim, then after any sequence of
  claim, dismiss and release commands of other actors, all decided before the claim expires, the
  file still holds exactly that claim, and no dismissal of its finding has been recorded.
\<close>

theorem live_claim_excludes_others:
  assumes "read_decisions tf fl = Inr d" "valid_decisions d" "map_of (de_claims d) k = Some cl"
    and "faithful_format tf"
    and "\<forall>(c, r) \<in> set cmds. dc_format c = tf \<and> valid_request r \<and> dr_actor r \<noteq> cl_claimant cl
           \<and> aware (dc_now c) \<and> older (dc_now c) (cl_expires_at cl)"
  shows "\<exists>d'. read_decisions tf (run_decisions cmds fl) = Inr d' \<and> map_of (de_claims d') k = Some cl
     \<and> map_of (de_dismissals d') k \<in> {None, map_of (de_dismissals d) k}"
  using assms
proof (induction cmds arbitrary: fl d)
  case Nil
  then show ?case by (simp add: run_decisions_def)
next
  case (Cons x cmds)
  obtain c r where x: "x = (c, r)" by (cases x)
  let ?file = "snd (apply_decision c r fl)"
  from Cons.prems(5) x have "dc_format c = tf" "valid_request r" "dr_actor r \<noteq> cl_claimant cl" "aware (dc_now c)"
    "older (dc_now c) (cl_expires_at cl)" by auto
  from other_actor_step[OF Cons.prems(1-3) this(1) Cons.prems(4) this(2,4,3,5)] obtain d1
    where d1: "read_decisions tf ?file = Inr d1" "valid_decisions d1" "map_of (de_claims d1) k = Some cl"
      "map_of (de_dismissals d1) k \<in> {None, map_of (de_dismissals d) k}" by blast
  have "\<forall>(c, r) \<in> set cmds. dc_format c = tf \<and> valid_request r \<and> dr_actor r \<noteq> cl_claimant cl
      \<and> aware (dc_now c) \<and> older (dc_now c) (cl_expires_at cl)" using Cons.prems(5) by simp
  from Cons.IH[OF d1(1-3) Cons.prems(4) this] obtain d' where "read_decisions tf (run_decisions cmds ?file) = Inr d'"
    "map_of (de_claims d') k = Some cl" "map_of (de_dismissals d') k \<in> {None, map_of (de_dismissals d1) k}" by blast
  moreover have "run_decisions (x # cmds) fl = run_decisions cmds ?file" by (simp add: run_decisions_def x)
  ultimately show ?case using d1(4) by auto
qed

definition demo_attempts :: "(decision_context \<times> decision_request) list" where
  "demo_attempts = [(demo_call 10, ClaimRequest demo_key ''bob''), (demo_call 20, ReleaseRequest demo_key ''bob''),
     (demo_call 30, DismissRequest demo_key demo_key ''fine'' ''bob'')]"

theorem live_claim_excludes_others_witness:
  "\<exists>d'. read_decisions demo_format (run_decisions demo_attempts (ParsedFile (encode_decisions demo_format demo_decisions))) = Inr d'
     \<and> map_of (de_claims d') demo_key = Some demo_claim"
proof -
  let ?d = "sorted_decisions demo_decisions"
  have dd: "distinct_decisions demo_decisions" using demo_decisions_valid by (simp add: valid_decisions_def)
  have "map_of (de_claims ?d) demo_key = Some demo_claim"
    by (simp add: sorted_lookup[OF dd]) (simp add: demo_decisions_def)
  moreover have "\<forall>(c, r) \<in> set demo_attempts. dc_format c = demo_format \<and> valid_request r \<and> dr_actor r \<noteq> cl_claimant demo_claim
      \<and> aware (dc_now c) \<and> older (dc_now c) (cl_expires_at demo_claim)"
    by (simp add: demo_attempts_def demo_call_def demo_claim_def valid_request_def demo_visible del: py_blank.simps)
  ultimately show ?thesis
    using live_claim_excludes_others[OF read_written[OF demo_format_faithful demo_decisions_valid]
        valid_sorted[OF demo_decisions_valid] _ demo_format_faithful] by blast
qed

text \<open>
  C15. A decision is recorded only when it was admitted, and then it takes effect. If a command changes
  the file, it named a detected finding of this Brain, its owner admitted it, it was no dry run, and
  the new file reads as the pruned records with exactly this decision applied: the claim for one
  lease, the dismissal without the claim, or no claim; every other key is as it was.
\<close>

theorem decision_takes_effect:
  assumes "apply_decision c r file = (res, file')" "file' \<noteq> file"
    and "read_decisions (dc_format c) file = Inr d" "valid_decisions d" "valid_request r" "aware (dc_now c)"
    and "faithful_format (dc_format c)"
  shows "\<exists>s g d'. load_state c = Inr (Inr s) \<and> g \<in> set (dt_groups s) \<and> fg_owner g = Some BrainOwner
     \<and> fg_key g = dr_key r \<and> dc_admit c = Inr () \<and> \<not> dc_dry_run c \<and> \<not> dc_busy c
     \<and> read_decisions (dc_format c) file' = Inr d'
     \<and> (case r of
          ClaimRequest k a \<Rightarrow> map_of (de_claims d') k
              = Some \<lparr>cl_claimant = a, cl_expires_at = stamp_plus (dc_now c) CLAIM_LEASE\<rparr>
        | DismissRequest k e w a \<Rightarrow> map_of (de_claims d') k = None \<and> e = fg_fingerprint g
            \<and> map_of (de_dismissals d') k = Some \<lparr>di_fingerprint = e, di_dismissed_by = a, di_reason = w,
                 di_dismissed_at = dc_now c\<rparr>
        | ReleaseRequest k a \<Rightarrow> map_of (de_claims d') k = None)
     \<and> (\<forall>k. k \<noteq> dr_key r \<longrightarrow> map_of (de_claims d') k = map_of (de_claims (prune d (dc_now c))) k
          \<and> map_of (de_dismissals d') k = map_of (de_dismissals (prune d (dc_now c))) k)"
  using assms(1)
proof (cases rule: apply_decision_effect)
  case 1
  with assms(2) show ?thesis by simp
next
  case (2 s g d0 u)
  have d0: "d0 = d" using 2(6) assms(3) by simp
  note run = 2(7)[unfolded d0]
  have key: "fg_key g = dr_key r" by (rule group_named_key[OF 2(2)])
  have valid: "valid_decisions u" by (rule valid_decide[OF run valid_prune[OF assms(4)] assms(5,6) key])
  then have du: "distinct_decisions u" by (simp add: valid_decisions_def)
  have "g \<in> set (brain_groups s)" using 2(2) by (auto simp: group_named_def find_Some_iff)
  then have g: "g \<in> set (dt_groups s)" "fg_owner g = Some BrainOwner" by (auto simp: brain_groups_def)
  have "case r of
      ClaimRequest k a \<Rightarrow> map_of (de_claims u) k = Some \<lparr>cl_claimant = a, cl_expires_at = stamp_plus (dc_now c) CLAIM_LEASE\<rparr>
    | DismissRequest k e w a \<Rightarrow> map_of (de_claims u) k = None \<and> e = fg_fingerprint g
        \<and> map_of (de_dismissals u) k = Some \<lparr>di_fingerprint = e, di_dismissed_by = a, di_reason = w, di_dismissed_at = dc_now c\<rparr>
    | ReleaseRequest k a \<Rightarrow> map_of (de_claims u) k = None"
    using run key by (cases r) (auto dest!: decide_claim_Inr decide_dismiss_Inr decide_release_Inr
        simp: with_claim_def with_dismissal_def without_claim_def map_of_filter_other update_conv)
  moreover have "read_decisions (dc_format c) file' = Inr (sorted_decisions u)"
    using read_written[OF assms(7) valid] 2(8) by simp
  ultimately show ?thesis
    using 2(1,3,4,5) g key decide_other_keys[OF run] sorted_lookup[OF du]
    by (intro exI[of _ s] exI[of _ g] exI[of _ "sorted_decisions u"]) (simp split: decision_request.splits)
qed

lemma demo_detected:
  "case load_state (demo_call 5) of Inr (Inr s) \<Rightarrow>
     (case group_named s demo_key of None \<Rightarrow> False | Some g \<Rightarrow> fg_scope g = None \<and> fg_key g = demo_key) | _ \<Rightarrow> False"
  by code_simp

lemma demo_claimed: "snd (apply_decision (demo_call 5) (ClaimRequest demo_key ''ann'') NoFile) \<noteq> NoFile"
proof -
  from demo_detected obtain s g where s: "load_state (demo_call 5) = Inr (Inr s)" "group_named s demo_key = Some g"
    "fg_scope g = None" by (auto split: sum.splits option.splits)
  then have "decide (ClaimRequest demo_key ''ann'') g EMPTY (Aware 5)
      = Inr (Inr (with_claim EMPTY (fg_key g) \<lparr>cl_claimant = ''ann'', cl_expires_at = stamp_plus (Aware 5) CLAIM_LEASE\<rparr>))"
    by (simp add: decide_claim_def held_by_other_def EMPTY_def)
  moreover have "prune EMPTY (Aware 5) = EMPTY" by (simp add: prune_def EMPTY_def)
  moreover have "dc_now (demo_call 5) = Aware 5" "dc_admit (demo_call 5) = Inr ()" "\<not> dc_dry_run (demo_call 5)"
    "\<not> dc_busy (demo_call 5)" by (simp_all add: demo_call_def)
  ultimately show ?thesis
    using s by (simp add: apply_decision_def decide_locked_def bind_prog_def read_decisions_or_error_def read_decisions_def
        write_decisions_def)
qed

theorem decision_takes_effect_witness:
  "\<exists>d'. read_decisions demo_format (snd (apply_decision (demo_call 5) (ClaimRequest demo_key ''ann'') NoFile)) = Inr d'
     \<and> map_of (de_claims d') demo_key = Some \<lparr>cl_claimant = ''ann'', cl_expires_at = Aware 3600000005\<rparr>"
proof -
  let ?c = "demo_call 5" let ?r = "ClaimRequest demo_key ''ann''"
  have f: "dc_format ?c = demo_format" "aware (dc_now ?c)" "faithful_format (dc_format ?c)"
    "stamp_plus (dc_now ?c) CLAIM_LEASE = Aware 3600000005"
    by (simp_all add: demo_call_def demo_format_faithful CLAIM_LEASE_def)
  have "read_decisions (dc_format ?c) NoFile = Inr EMPTY" "valid_decisions EMPTY"
    by (simp_all add: read_decisions_def valid_decisions_def distinct_decisions_def EMPTY_def)
  moreover have "valid_request ?r" by (simp add: valid_request_def demo_visible del: py_blank.simps)
  ultimately show ?thesis
    using decision_takes_effect[OF surjective_pairing demo_claimed _ _ _ f(2,3), of EMPTY] f(1,4) by auto
qed

section \<open>Pruning and storage\<close>

text \<open>
  Pruning is invisible: for every reader at the same or a later time, detection joined with the
  pruned records gives the same states as with the records themselves, and it never drops a live
  claim.
\<close>

theorem pruning_is_invisible:
  assumes "distinct_decisions d" "not_after now later" "\<forall>g \<in> set groups. fg_members g \<noteq> []"
  shows "apply_decisions nh (prune d now) later groups = apply_decisions nh d later groups
     \<and> (\<forall>k cl. map_of (de_claims d) k = Some cl \<and> claim_live cl now \<longrightarrow> map_of (de_claims (prune d now)) k = Some cl)"
proof
  show "apply_decisions nh (prune d now) later groups = apply_decisions nh d later groups"
    unfolding apply_decisions_def
    by (rule fold_results_cong) (use assms(3) in \<open>simp add: prune_group_state[OF assms(1,2)]\<close>)
  have "aware now" using assms(2) by (auto simp: not_after_def)
  then show "\<forall>k cl. map_of (de_claims d) k = Some cl \<and> claim_live cl now \<longrightarrow> map_of (de_claims (prune d now)) k = Some cl"
    using live_retained by (auto simp: prune_lookup[OF assms(1)])
qed

theorem pruning_is_invisible_witness:
  "map_of (de_claims (prune demo_decisions (Aware 7))) demo_key = Some demo_claim"
proof -
  have "distinct_decisions demo_decisions" using demo_decisions_valid by (simp add: valid_decisions_def)
  moreover have "map_of (de_claims demo_decisions) demo_key = Some demo_claim" "claim_live demo_claim (Aware 7)"
    by (simp_all add: demo_decisions_def demo_claim_def claim_live_def)
  ultimately show ?thesis
    using pruning_is_invisible[of demo_decisions "Aware 7" "Aware 8" "[]"] by (simp add: not_after_def)
qed

text \<open>
  The decisions file reads back what was written: the same records, in the order of their keys.
\<close>

theorem decisions_round_trip:
  assumes "faithful_format tf" "valid_decisions d" "write_decisions tf d file = (Inr (), file')"
  shows "read_decisions tf file' = Inr \<lparr>de_claims = sort_key fst (de_claims d), de_dismissals = sort_key fst (de_dismissals d)\<rparr>
     \<and> (\<forall>k. map_of (sort_key fst (de_claims d)) k = map_of (de_claims d) k
          \<and> map_of (sort_key fst (de_dismissals d)) k = map_of (de_dismissals d) k)"
proof -
  have "file' = ParsedFile (encode_decisions tf d)"
    using assms(3) by (simp add: write_decisions_def split: if_splits)
  with read_written[OF assms(1,2)] sorted_lookup[of d] assms(2) show ?thesis
    by (simp add: sorted_decisions_def valid_decisions_def)
qed

theorem decisions_round_trip_witness:
  "read_decisions demo_format (snd (write_decisions demo_format demo_decisions LinkFile))
     = Inr \<lparr>de_claims = [(demo_key, demo_claim)], de_dismissals = []\<rparr>"
proof -
  have "write_decisions demo_format demo_decisions LinkFile = (Inr (), snd (write_decisions demo_format demo_decisions LinkFile))"
    by (simp add: write_decisions_def)
  from conjunct1[OF decisions_round_trip[OF demo_format_faithful demo_decisions_valid this]] show ?thesis
    by (simp add: demo_decisions_def)
qed

section \<open>Dismissals\<close>

text \<open>
  A dismissal lasts exactly as long as its evidence. After a dismissal was recorded, a detected
  group of that key is quiet if and only if it is dismissible, its fingerprint is still the one
  the dismissal was given for, and thirty days have not passed.
\<close>

theorem dismissal_follows_its_evidence:
  assumes "decide_dismiss actor reason expected g d now = Inr (Inr d')" "not_after now later"
    and "fg_key g' = fg_key g" "fg_members g' \<noteq> []"
  shows "\<exists>b st. dismissible g' = Inr b \<and> group_state nh d' later g' = Inr st
     \<and> (ds_state st = Quiet \<longleftrightarrow> b \<and> fg_fingerprint g' = expected \<and> older later (stamp_plus now DISMISSAL_RETENTION))"
proof -
  note d = decide_dismiss_Inr[OF assms(1)]
  from dismissible_total[OF assms(4)] obtain b where b: "dismissible g' = Inr b" ..
  have recorded: "map_of (de_dismissals d') (fg_key g') =
      Some \<lparr>di_fingerprint = expected, di_dismissed_by = actor, di_reason = reason, di_dismissed_at = now\<rparr>"
    using d by (simp add: assms(3) with_dismissal_def update_conv)
  have open_: "ds_state (claim_state nh d' later g') \<noteq> Quiet"
    by (simp add: claim_state_def new_state_def split: option.splits)
  show ?thesis
    using open_ by (auto simp: b group_state_def quieting_def recorded dismissal_retained_def new_state_def)
qed

definition demo_group :: finding_group where
  "demo_group = \<lparr>fg_key = demo_key, fg_fingerprint = demo_key, fg_disposition = Judgement, fg_owner = Some BrainOwner,
     fg_scope = None, fg_members = [(plain_finding (demo_raw ''root_files'') None)
       \<lparr>mf_disposition := Judgement, mf_owner := Some BrainOwner, mf_key := Some demo_key, mf_identity := Some SubjectIdentity\<rparr>]\<rparr>"

theorem dismissal_follows_its_evidence_witness:
  "\<exists>st. group_state NEVER_HELD (with_dismissal demo_decisions demo_key \<lparr>di_fingerprint = demo_key, di_dismissed_by = ''ann'',
       di_reason = ''fine'', di_dismissed_at = Aware 7\<rparr>) (Aware 8) demo_group = Inr st \<and> ds_state st = Quiet"
proof -
  have "dismissible demo_group = Inr True" "breaches demo_group = []"
    by (simp_all add: demo_group_def dismissible_def is_family_def first_member_def breaches_def plain_finding_def List.map_filter_def)
  then have run: "decide_dismiss ''ann'' ''fine'' demo_key demo_group demo_decisions (Aware 7) = Inr (Inr
      (with_dismissal demo_decisions demo_key \<lparr>di_fingerprint = demo_key, di_dismissed_by = ''ann'',
         di_reason = ''fine'', di_dismissed_at = Aware 7\<rparr>))"
    by (simp add: decide_dismiss_def held_by_other_def demo_decisions_def demo_claim_def) (simp add: demo_group_def)
  have "not_after (Aware 7) (Aware 8)" "fg_members demo_group \<noteq> []" by (simp_all add: not_after_def demo_group_def)
  from dismissal_follows_its_evidence[OF run this(1) refl this(2), of NEVER_HELD] \<open>dismissible demo_group = Inr True\<close>
  show ?thesis by (auto simp: DISMISSAL_RETENTION_def demo_group_def)
qed

text \<open>
  A fingerprint follows its evidence: if two detections give a judgement group of the same key the
  same fingerprint, then the evidence declared for it is the same up to the order of its fields (for
  a repair family: the set of its files is the same), unless the shortened digests collide.
\<close>

theorem fingerprint_follows_evidence:
  assumes "g \<in> set (group_by_family hx fs)" "g' \<in> set (group_by_family hx fs')" "fg_key g = fg_key g'"
    and "fg_disposition g = Judgement" "fg_disposition g' = Judgement" "fg_fingerprint g = fg_fingerprint g'"
    and "grouped_evidence g = Some e" "grouped_evidence g' = Some e'"
    and "inj_on (\<lambda>s. take KEY_LENGTH (hx s)) {evidence_text (fg_key g) e, evidence_text (fg_key g) e'}"
  shows "sort_json (JObj e) = sort_json (JObj e')
     \<and> (is_family g \<and> is_family g' \<longrightarrow> {f. \<exists>m \<in> set (fg_members g). mf_file m = Some f} = {f. \<exists>m \<in> set (fg_members g'). mf_file m = Some f})"
proof -
  from assms(6) have "take KEY_LENGTH (hx (evidence_text (fg_key g) e)) = take KEY_LENGTH (hx (evidence_text (fg_key g) e'))"
    by (simp add: group_fingerprint[OF assms(1,4)] group_fingerprint[OF assms(2,5)] assms(3,7,8) finding_fingerprint_def
        finding_digest_def evidence_text_def)
  from inj_onD[OF assms(9) this] have "evidence_text (fg_key g) e = evidence_text (fg_key g) e'" by simp
  from canonical_json_inj[OF this[unfolded evidence_text_def]] have same: "sort_json (JObj e) = sort_json (JObj e')"
    by simp
  moreover have "{f. \<exists>m \<in> set (fg_members g). mf_file m = Some f} = {f. \<exists>m \<in> set (fg_members g'). mf_file m = Some f}"
    if fam: "is_family g" "is_family g'"
  proof -
    have "map (sort_json \<circ> JStr) (family_files (fg_members g)) = map (sort_json \<circ> JStr) (family_files (fg_members g'))"
      using assms(7,8) fam same by (auto simp: grouped_evidence_def sort_items_map)
    then have "family_files (fg_members g) = family_files (fg_members g')"
      by (rule map_injective) (auto simp: inj_def)
    from arg_cong[OF this, of set] show ?thesis by (simp add: set_family_files)
  qed
  ultimately show ?thesis by blast
qed

definition demo_finding :: "mapping \<Rightarrow> finding" where
  "demo_finding e = (plain_finding (demo_raw ''workspace_registry'') (Some e))
     \<lparr>mf_disposition := Judgement, mf_owner := Some BrainOwner, mf_key := Some ''k'', mf_identity := Some EvidenceIdentity\<rparr>"

lemma demo_finding_group: "group_by_family hx [demo_finding e] = [single_group hx (''k'', [demo_finding e])]"
  by (simp add: group_by_family_def counted_def collect_members_def add_member_def demo_finding_def plain_finding_def
      counted_key_def)

theorem fingerprint_follows_evidence_witness:
  "sort_json (JObj [(''a'', JInt 1), (''b'', JNull)]) = sort_json (JObj [(''b'', JNull), (''a'', JInt 1)])"
proof -
  let ?e = "[(''a'', JInt 1), (''b'', JNull)]" let ?e' = "[(''b'', JNull), (''a'', JInt 1)]"
  let ?g = "\<lambda>e. single_group demo_hx (''k'', [demo_finding e])"
  have "?g e \<in> set (group_by_family demo_hx [demo_finding e])" for e by (simp add: demo_finding_group)
  moreover have "fg_disposition (?g e) = Judgement" "fg_key (?g e) = ''k''" for e
    by (simp_all add: demo_finding_def)
  moreover have "grouped_evidence (?g e) = Some e" for e
    by (simp add: grouped_evidence_def is_family_def) (simp add: demo_finding_def plain_finding_def)
  moreover have "fg_fingerprint (?g ?e) = fg_fingerprint (?g ?e')" by code_simp
  moreover have "evidence_text ''k'' ?e = evidence_text ''k'' ?e'" by code_simp
  ultimately show ?thesis
    using fingerprint_follows_evidence[of "?g ?e" demo_hx "[demo_finding ?e]" "?g ?e'" "[demo_finding ?e']" ?e ?e'] by simp
qed

text \<open>
  Grouping loses and repeats nothing: the groups have distinct keys within their kind, each holds
  exactly the counted findings of its key and kind in the order they were found, no group is empty,
  and every finding that is not report-only is in one.
\<close>

theorem grouping_partitions_findings:
  shows "distinct (map (\<lambda>g. (is_family g, fg_key g)) (group_by_family hx fs))
     \<and> (\<forall>g \<in> set (group_by_family hx fs). fg_members g \<noteq> []
          \<and> fg_members g = filter (\<lambda>f. counted_key f = fg_key g \<and> (mf_scope f \<noteq> None \<longleftrightarrow> is_family g)) (counted fs))
     \<and> (\<forall>f \<in> set fs. mf_disposition f \<noteq> ReportOnly \<longrightarrow> (\<exists>g \<in> set (group_by_family hx fs). f \<in> set (fg_members g)))"
  using group_keys_distinct group_members[of _ hx fs] counted_in_group[of _ fs hx] by blast

theorem grouping_partitions_findings_witness:
  "\<exists>g \<in> set (group_by_family demo_hx [demo_finding [(''a'', JInt 1)]]). demo_finding [(''a'', JInt 1)] \<in> set (fg_members g)"
proof -
  have "mf_disposition (demo_finding [(''a'', JInt 1)]) \<noteq> ReportOnly" by (simp add: demo_finding_def)
  then show ?thesis
    using conjunct2[OF conjunct2[OF grouping_partitions_findings[of demo_hx "[demo_finding [(''a'', JInt 1)]]"]]] by simp
qed

text \<open>
  No error is silenced. Every raw finding of severity \<open>error\<close> is a member of a group that a person
  or the pass sees, and if no repair family owns it and no row of \<open>JUDGEMENT_FINDINGS\<close> classifies
  it, no command can dismiss that group.
\<close>

theorem errors_are_never_silenced:
  assumes "classify hx raws = Inr fs" "raw \<in> set raws" "rw_severity raw = ''error''"
  shows "\<exists>g \<in> set (group_by_family hx fs). \<exists>f \<in> set (fg_members g).
       mf_check f = rw_check raw \<and> mf_file f = rw_file raw \<and> mf_message f = rw_message raw
     \<and> (rw_repair raw = None \<and> map_of JUDGEMENT_FINDINGS (rw_check raw, rw_code raw) = None
          \<longrightarrow> (\<forall>actor reason expected d now u. decide_dismiss actor reason expected g d now \<noteq> Inr (Inr u)))"
proof -
  from assms(1,2) obtain f where f: "classify_one hx raw = Inr f" "f \<in> set fs"
    using collect_classified[of hx raws fs raw] by (auto simp: classify_def)
  note fields = classified_error[OF f(1) assms(3)]
  from counted_in_group[OF f(2) fields(1), of hx] obtain g where g: "g \<in> set (group_by_family hx fs)" "f \<in> set (fg_members g)" ..
  have "decide_dismiss actor reason expected g d now \<noteq> Inr (Inr u)"
    if "rw_repair raw = None" "map_of JUDGEMENT_FINDINGS (rw_check raw, rw_code raw) = None" for actor reason expected d now u
  proof
    assume run: "decide_dismiss actor reason expected g d now = Inr (Inr u)"
    have "breaches g \<noteq> []" using g(2) fields(3)[OF that] by (auto simp: breaches_def map_filter_nonempty)
    with decide_dismiss_Inr[OF run] show False by simp
  qed
  with g fields(2) show ?thesis by blast
qed

theorem errors_are_never_silenced_witness:
  "\<exists>fs. classify demo_hx [demo_raw ''odd''] = Inr fs \<and> (\<exists>g \<in> set (group_by_family demo_hx fs).
     \<forall>actor reason expected d now u. decide_dismiss actor reason expected g d now \<noteq> Inr (Inr u))"
proof -
  have "case classify demo_hx [demo_raw ''odd''] of Inl _ \<Rightarrow> False | Inr _ \<Rightarrow> True" by code_simp
  then obtain fs where fs: "classify demo_hx [demo_raw ''odd''] = Inr fs" by (auto split: sum.splits)
  have "map_of JUDGEMENT_FINDINGS (''odd'', None) = None" by (simp add: JUDGEMENT_FINDINGS_def)
  with errors_are_never_silenced[OF fs, of "demo_raw ''odd''"] fs show ?thesis by (auto simp: demo_raw_def)
qed

text \<open>
  What tells occurrences apart is determined by what a producer declares: at most one identity
  admits a shape, and \<open>honoured\<close> returns it, failing only for evidence declared as an empty mapping.
\<close>

theorem identity_is_determined:
  "(\<forall>i j. admits i subject evidence \<and> admits j subject evidence \<longrightarrow> i = j)
   \<and> (case honoured subject evidence of
        Inr i \<Rightarrow> admits i subject evidence
      | Inl x \<Rightarrow> x = StopIteration \<and> evidence = Some [])"
proof
  show "\<forall>i j. admits i subject evidence \<and> admits j subject evidence \<longrightarrow> i = j"
    using admits_exclusive by blast
  show "case honoured subject evidence of Inr i \<Rightarrow> admits i subject evidence | Inl x \<Rightarrow> x = StopIteration \<and> evidence = Some []"
    by (auto simp: honoured_def split: option.splits)
qed

theorem identity_is_determined_witness:
  "honoured [(''file'', JStr ''a'')] None = Inr SubjectIdentity \<and> \<not> admits KindOnly [(''file'', JStr ''a'')] None"
  using identity_is_determined[of "[(''file'', JStr ''a'')]" None] by (simp add: honoured_def has_subject_def)

end
