(* ===== verification/Maintenance_Pass.thy ===== *)
theory Maintenance_Pass
  imports Maintenance_Commands
begin

text \<open>
  The maintenance pass of \<open>_application/maintenance/run.py\<close>: which automatic groups it plans, the
  repairs it invokes one after the other, and how it closes. The invoker of sibling commands is the
  parameter \<open>repair\<close>, a function on the world \<open>'w\<close>; message texts, timing and the operational log are
  left out.
\<close>

section \<open>Planning\<close>

text \<open>\<open>_ordered\<close>: the automatic groups of this Brain, in the order of \<open>AUTOMATIC_SCOPES\<close>.\<close>

definition automatic_groups :: "detected_state \<Rightarrow> (string option \<times> finding_group) list" where
  "automatic_groups s =
     fold (\<lambda>g. AList.update (fg_scope g) g) (filter (\<lambda>g. fg_disposition g = Automatic) (brain_groups s)) []"

definition ordered :: "detected_state \<Rightarrow> finding_group list" where
  "ordered s = List.map_filter (\<lambda>scope. map_of (automatic_groups s) (Some scope)) AUTOMATIC_SCOPES"

fun planned_among :: "(string \<times> decision_state) list \<Rightarrow> finding_group list \<Rightarrow> exn + finding_group list" where
  "planned_among states [] = Inr []"
| "planned_among states (g # gs) =
     bind_result (state_of_group states g) (\<lambda>st.
     bind_result (planned_among states gs) (\<lambda>rest.
     Inr (if st \<in> set WITHHELD then rest else g # rest)))"

definition planned :: "detected_state \<Rightarrow> exn + finding_group list" where
  "planned s = planned_among (dt_states s) (ordered s)"

section \<open>Invoking\<close>

text \<open>What a sibling command answers, as far as the pass looks at it.\<close>

record sibling_result =
  sr_status :: string
  sr_committed_effects :: "committed_effect list"
  sr_error_code :: "string option"
  sr_retryable :: bool

definition NEEDS_PERSON_CODES :: "string set" where
  "NEEDS_PERSON_CODES = {''authority_denied'', ''authorisation_required''}"

definition classify_sibling :: "sibling_result \<Rightarrow> group_outcome \<times> string option" where
  "classify_sibling r =
     (classify_outcome (sr_status r) (sr_committed_effects r \<noteq> []) (sr_error_code r) (sr_retryable r) NEEDS_PERSON_CODES,
      sr_error_code r)"

record group_result =
  gr_scope :: string
  gr_outcome :: group_outcome
  gr_invocation_id :: "string option"
  gr_error_code :: "string option"

type_synonym 'w invoker = "repair_family \<Rightarrow> string \<Rightarrow> 'w \<Rightarrow> (exn + sibling_result) \<times> 'w"

definition repair_invocation :: "string \<Rightarrow> string \<Rightarrow> string" where
  "repair_invocation pass_id scope = ''maint-'' @ pass_id @ ''-'' @ scope"

text \<open>\<open>REPAIR_SCOPES[group.scope]\<close>\<close>

definition family_of :: "finding_group \<Rightarrow> exn + repair_family" where
  "family_of g = (case fg_scope g of None \<Rightarrow> Inl KeyError
     | Some scope \<Rightarrow> (case map_of REPAIR_SCOPES scope of None \<Rightarrow> Inl KeyError | Some f \<Rightarrow> Inr f))"

text \<open>The scope of a planned group; \<open>ordered\<close> only holds groups of a scope of the table.\<close>

definition scope_of :: "finding_group \<Rightarrow> string" where
  "scope_of g = (case fg_scope g of Some scope \<Rightarrow> scope | None \<Rightarrow> [])"

definition deferred_result :: "finding_group \<Rightarrow> group_result" where
  "deferred_result g = \<lparr>gr_scope = scope_of g, gr_outcome = Deferred, gr_invocation_id = None, gr_error_code = None\<rparr>"

text \<open>The loop of \<open>_invoke\<close>; after the first deferral the remaining groups are deferred unseen.\<close>

fun invoke_groups ::
  "'w invoker \<Rightarrow> string \<Rightarrow> bool \<Rightarrow> finding_group list \<Rightarrow> ('w, group_result list \<times> committed_effect list) prog" where
  "invoke_groups repair pass_id deferring [] = return_prog ([], [])"
| "invoke_groups repair pass_id deferring (g # gs) =
     (if deferring
      then bind_prog (invoke_groups repair pass_id True gs) (\<lambda>(results, effects).
           return_prog (deferred_result g # results, effects))
      else
        let invocation = repair_invocation pass_id (scope_of g) in
        bind_prog (lift_result (\<lambda>_. family_of g)) (\<lambda>f.
        bind_prog (repair f invocation) (\<lambda>r.
        let (outcome, code) = classify_sibling r in
        bind_prog (invoke_groups repair pass_id (outcome = Deferred) gs) (\<lambda>(results, effects).
        return_prog (\<lparr>gr_scope = scope_of g, gr_outcome = outcome, gr_invocation_id = Some invocation, gr_error_code = code\<rparr> # results,
          sr_committed_effects r @ effects)))))"

definition invoke_planned ::
  "'w invoker \<Rightarrow> string \<Rightarrow> bool \<Rightarrow> detected_state \<Rightarrow> ('w, group_result list \<times> committed_effect list) prog" where
  "invoke_planned repair pass_id dry_run s =
     (if dry_run then return_prog ([], [])
      else bind_prog (lift_result (\<lambda>_. planned s)) (invoke_groups repair pass_id False))"

section \<open>Closing the pass\<close>

text \<open>\<open>outcomes.get(group.scope)\<close>; two results of one scope would leave the later one.\<close>

definition outcome_of :: "group_result list \<Rightarrow> finding_group \<Rightarrow> group_outcome option" where
  "outcome_of results g =
     (case fg_scope g of None \<Rightarrow> None | Some scope \<Rightarrow> map_of (rev (map (\<lambda>r. (gr_scope r, gr_outcome r)) results)) scope)"

definition degrades_semantics :: "group_result list \<Rightarrow> bool" where
  "degrades_semantics results =
     list_ex (\<lambda>(s, f). rf_clears_embeddings f
        \<and> map_of (rev (map (\<lambda>r. (gr_scope r, gr_outcome r)) results)) (rf_scope f) \<in> {Some Repaired, Some PartlyRepaired})
       REPAIR_SCOPES"

text \<open>\<open>_attention\<close>: what is left for a person, and one extra item for the semantic degradation.\<close>

definition listed :: "group_result list \<Rightarrow> finding_group \<Rightarrow> decision_state \<Rightarrow> bool" where
  "listed results g st =
     (if fg_owner g = Some MachineOwner then True
      else if fg_disposition g = Automatic
      then ds_state st \<in> set WITHHELD \<or> outcome_of results g \<notin> set (map Some SETTLED) \<union> {None}
      else ds_state st \<noteq> Quiet)"

fun attention_items ::
  "group_result list \<Rightarrow> (string \<times> decision_state) list \<Rightarrow> finding_group list \<Rightarrow> exn + maintenance_item list" where
  "attention_items results states [] = Inr []"
| "attention_items results states (g # gs) =
     bind_result (case map_of states (fg_key g) of None \<Rightarrow> Inl KeyError | Some st \<Rightarrow> Inr st) (\<lambda>st.
     bind_result (if listed results g st then bind_result (describe g st (outcome_of results g)) (\<lambda>i. Inr [i]) else Inr []) (\<lambda>item.
     bind_result (attention_items results states gs) (\<lambda>rest. Inr (item @ rest))))"

definition semantic_item :: "(string \<Rightarrow> string) \<Rightarrow> exn + maintenance_item" where
  "semantic_item hx =
     bind_result (case map_of REPAIR_SCOPES ''semantic'' of None \<Rightarrow> Inl KeyError | Some f \<Rightarrow> Inr f) (\<lambda>f.
     bind_result (family_key hx NAMESPACE (rf_scope f)) (\<lambda>key.
     Inr \<lparr>mi_key = key, mi_fingerprint = key, mi_family = True, mi_disposition = rf_disposition f,
       mi_owner = Some (rf_owner f), mi_scope = Some (rf_scope f), mi_check = ''semantic'',
       mi_code = Some ''pass_cleared_embeddings'', mi_file = None,
       mi_message = ''A cache repair cleared the semantic embeddings; run the semantic repair to restore them.'',
       mi_members = 0, mi_state = OpenItem, mi_claimant = None, mi_expires_at = None,
       mi_last_outcome = Some NeedsPerson\<rparr>))"

definition attention ::
  "(string \<Rightarrow> string) \<Rightarrow> detected_state \<Rightarrow> group_result list \<Rightarrow> bool \<Rightarrow> exn + maintenance_item list \<times> int" where
  "attention hx s results semantic_degraded =
     bind_result (attention_items results (dt_states s) (dt_groups s)) (\<lambda>items.
     if semantic_degraded \<and> \<not> list_ex (\<lambda>i. mi_scope i = Some ''semantic'') items
     then bind_result (semantic_item hx) (\<lambda>i. Inr (items @ [i], 1))
     else Inr (items, 0))"

definition pass_outcome :: "group_result list \<Rightarrow> string" where
  "pass_outcome results =
     (if list_ex (\<lambda>r. gr_outcome r = UnknownOutcome) results then ''error''
      else if list_ex (\<lambda>r. gr_outcome r \<in> set UNSUCCESSFUL) results then ''partial''
      else ''ok'')"

text \<open>The context of one pass: identity, clock, whether semantic retrieval is configured.\<close>

record pass_context =
  pc_format :: time_format
  pc_hex :: "string \<Rightarrow> string"
  pc_pass_id :: string
  pc_host :: string
  pc_finished_at :: stamp
  pc_dry_run :: bool
  pc_semantic :: bool

text \<open>\<open>_write_summary\<close>: the new pass outcome and the effect of the write, on the \<open>last-pass\<close> file.\<close>

definition write_summary ::
  "pass_context \<Rightarrow> group_result list \<Rightarrow> counts \<Rightarrow> string \<Rightarrow> committed_effect list
   \<Rightarrow> (decisions_file, string \<times> committed_effect list) prog" where
  "write_summary c results cs outcome effects file =
     (case build_summary (pc_format c) (pc_pass_id c) (pc_host c) (Inl (pc_finished_at c)) outcome
             (fold (\<lambda>r. AList.update (gr_scope r) (group_outcome_value (gr_outcome r))) results []) (as_mapping cs) None of
        Inl e \<Rightarrow> (Inl e, file)
      | Inr summary \<Rightarrow>
          (case write_last_pass (pc_format c) summary file of
             (Inr _, file') \<Rightarrow> (Inr (outcome, effects @ [\<lparr>ce_kind = ''maintenance.summary'', ce_subject = pc_pass_id c\<rparr>]), file')
           | (Inl e, file') \<Rightarrow>
               if e = OSError then (Inr (if outcome = ''ok'' then ''partial'' else outcome, effects), file')
               else (Inl e, file')))"

record pass_payload =
  pp_outcome :: string
  pp_groups :: "group_result list"
  pp_planned :: "string list"
  pp_counts :: counts
  pp_attention :: "maintenance_item list"
  pp_semantic_degraded :: bool

text \<open>The result: an error whose effects are unknown names the invocation; a partial one its effects.\<close>

datatype pass_reply =
    PassOk pass_payload "committed_effect list"
  | PassPartial "committed_effect list"
  | PassUnknown "string option" "committed_effect list"
  | PassError reply_error

definition final_reply :: "group_result list \<Rightarrow> pass_payload \<Rightarrow> committed_effect list \<Rightarrow> pass_reply" where
  "final_reply results payload effects =
     (case find (\<lambda>r. gr_outcome r = UnknownOutcome) results of
        Some r \<Rightarrow> PassUnknown (gr_invocation_id r) effects
      | None \<Rightarrow> if pp_outcome payload = ''partial'' then PassPartial effects else PassOk payload effects)"

definition close_pass ::
  "pass_context \<Rightarrow> detected_state \<Rightarrow> group_result list \<Rightarrow> committed_effect list \<Rightarrow> (decisions_file, pass_reply) prog" where
  "close_pass c s results effects =
     (let semantic_degraded = degrades_semantics results \<and> pc_semantic c in
      bind_prog (lift_result (\<lambda>_. attention (pc_hex c) s results semantic_degraded)) (\<lambda>(items, extra).
      bind_prog (lift_result (\<lambda>_. count_groups (brain_groups s) (dt_states s) (outcome_of results) extra)) (\<lambda>cs.
      bind_prog (if pc_dry_run c then return_prog (pass_outcome results, effects)
                 else write_summary c results cs (pass_outcome results) effects) (\<lambda>(outcome, effects').
      bind_prog (lift_result (\<lambda>_. planned s)) (\<lambda>plan.
      return_prog (final_reply results
        \<lparr>pp_outcome = outcome, pp_groups = results, pp_planned = List.map_filter fg_scope plan, pp_counts = cs,
         pp_attention = items, pp_semantic_degraded = semantic_degraded\<rparr> effects'))))))"

section \<open>The whole pass\<close>

text \<open>\<open>_blocked\<close>: a blocked summary, so that the advisory never shows a stale count as current.\<close>

definition block_pass :: "pass_context \<Rightarrow> string \<Rightarrow> reply_error \<Rightarrow> (decisions_file, pass_reply) prog" where
  "block_pass c reason error file =
     (if pc_dry_run c then (Inr (PassError error), file)
      else case build_summary (pc_format c) (pc_pass_id c) (pc_host c) (Inl (pc_finished_at c)) ''error'' []
                  empty_counts (Some reason) of
             Inl e \<Rightarrow> (Inl e, file)
           | Inr summary \<Rightarrow>
               (case write_last_pass (pc_format c) summary file of
                  (Inl e, file') \<Rightarrow> if e = OSError then (Inr (PassError error), file') else (Inl e, file')
                | (Inr _, file') \<Rightarrow> (Inr (PassError error), file')))"

text \<open>Steps 1 and 2; an exception of detection is a block, never an unknown outcome.\<close>

definition prepare_pass :: "decision_context \<Rightarrow> exn + ((string \<times> reply_error) + detected_state)" where
  "prepare_pass c =
     bind_result (read_decisions_or_error (dc_format c) (dc_before c)) (\<lambda>r1.
     case r1 of Inl e \<Rightarrow> Inr (Inl (''decisions_unreadable'', e)) | Inr d \<Rightarrow>
       (case (case detect_or_error (dc_hex c) (dc_checked c) of
                Inl _ \<Rightarrow> Inl (ReplyError InternalError None False) | Inr r2 \<Rightarrow> r2) of
          Inl e \<Rightarrow> Inr (Inl (''detection_failed'', e))
        | Inr fs \<Rightarrow>
            bind_result (join_state (dc_hex c) fs d (dc_seen c) (read_last_pass (dc_format c) (dc_last_pass c))) (\<lambda>s.
            Inr (Inr s))))"

definition on_world :: "('w, 'a) prog \<Rightarrow> ('w \<times> decisions_file, 'a) prog" where
  "on_world m = (\<lambda>(w, file). let (r, w') = m w in (r, (w', file)))"

definition on_summary :: "(decisions_file, 'a) prog \<Rightarrow> ('w \<times> decisions_file, 'a) prog" where
  "on_summary m = (\<lambda>(w, file). let (r, file') = m file in (r, (w, file')))"

text \<open>\<open>execute\<close> under the pass lock and \<open>_Pass.run\<close>; the state is the world and the \<open>last-pass\<close> file.\<close>

definition run_pass ::
  "'w invoker \<Rightarrow> decision_context \<Rightarrow> pass_context \<Rightarrow> ('w \<times> decisions_file, pass_reply) prog" where
  "run_pass repair dc pc =
     (if dc_busy dc then return_prog (PassError (ReplyError Conflict None True))
      else
        bind_prog (lift_result (\<lambda>_. dc_admit dc)) (\<lambda>_.
        bind_prog (lift_result (\<lambda>_. prepare_pass dc)) (\<lambda>prepared.
        case prepared of
          Inl (reason, e) \<Rightarrow> on_summary (block_pass pc reason e)
        | Inr s \<Rightarrow>
            bind_prog (on_world (invoke_planned repair (pc_pass_id pc) (pc_dry_run pc) s)) (\<lambda>(results, effects).
            on_summary (close_pass pc s results effects)))))"

end
