(* ===== verification/Pass_Properties.thy ===== *)
theory Pass_Properties
  imports Maintenance_Pass Maintenance_Runs Sample_Format
begin

text \<open>
  What a maintenance pass promises: it repairs only automatic families nobody holds, each once and
  in table order; it defers after the first busy answer; it accounts for every effect and names an
  unknown one; and its summary reads back.
\<close>

section \<open>Planning\<close>

lemma automatic_fold:
  "map_of (fold (\<lambda>g. AList.update (fg_scope g) g) gs d) k = Some g
   \<Longrightarrow> map_of d k = Some g \<or> g \<in> set gs \<and> fg_scope g = k"
proof (induction gs arbitrary: d)
  case Nil
  then show ?case by simp
next
  case (Cons a gs)
  from Cons.IH[OF Cons.prems[simplified fold.simps comp_apply]] show ?case by (auto simp: update_conv split: if_splits)
qed

lemma automatic_groups_Some:
  assumes "map_of (automatic_groups s) k = Some g"
  shows "g \<in> set (dt_groups s)" "fg_owner g = Some BrainOwner" "fg_disposition g = Automatic" "fg_scope g = k"
  using automatic_fold[OF assms[unfolded automatic_groups_def]] by (auto simp: brain_groups_def)

lemma ordered_scopes: "List.map_filter fg_scope (ordered s) = filter (\<lambda>scope. map_of (automatic_groups s) (Some scope) \<noteq> None) AUTOMATIC_SCOPES"
proof -
  have "List.map_filter fg_scope (List.map_filter (\<lambda>scope. map_of (automatic_groups s) (Some scope)) xs)
      = filter (\<lambda>scope. map_of (automatic_groups s) (Some scope) \<noteq> None) xs" for xs
    by (induction xs) (auto simp: List.map_filter_simps automatic_groups_Some(4) split: option.splits)
  then show ?thesis by (simp add: ordered_def)
qed

lemma ordered_member:
  assumes "g \<in> set (ordered s)"
  shows "g \<in> set (dt_groups s)" "fg_owner g = Some BrainOwner" "fg_disposition g = Automatic"
    "\<exists>scope \<in> set AUTOMATIC_SCOPES. fg_scope g = Some scope"
  using assms automatic_groups_Some by (auto simp: ordered_def set_map_filter)

lemma automatic_scopes_distinct: "distinct AUTOMATIC_SCOPES"
  by code_simp

lemma planned_among_Inr:
  "planned_among states gs = Inr ps \<Longrightarrow>
   ps = filter (\<lambda>g. state_of_group states g \<noteq> Inr Held) gs \<and> (\<forall>g \<in> set gs. \<exists>st. state_of_group states g = Inr st)"
  by (induction gs arbitrary: ps) (auto simp: bind_result_Inr WITHHELD_def)

lemma map_filter_filter: "List.map_filter f (filter P xs) = List.map_filter (\<lambda>x. if P x then f x else None) xs"
  by (induction xs) (simp_all add: List.map_filter_simps split: option.splits)

lemma distinct_map_filter_filter:
  "distinct (List.map_filter f xs) \<Longrightarrow> distinct (List.map_filter f (filter P xs))"
proof (induction xs)
  case Nil
  then show ?case by (simp add: List.map_filter_simps)
next
  case (Cons x xs)
  then show ?case by (auto simp: List.map_filter_simps set_map_filter split: option.splits)
qed

text \<open>The state a group is shown with, when every group has its own key.\<close>

lemma apply_states_fold:
  assumes "fold_results (\<lambda>g states. bind_result (group_state nh d now g) (\<lambda>st. Inr (AList.update (fg_key g) st states))) gs acc = Inr states"
  shows "(\<forall>k. k \<notin> set (map fg_key gs) \<longrightarrow> map_of states k = map_of acc k)
    \<and> (distinct (map fg_key gs) \<longrightarrow> (\<forall>g \<in> set gs. \<exists>st. group_state nh d now g = Inr st \<and> map_of states (fg_key g) = Some st))"
  using assms
proof (induction gs arbitrary: acc)
  case Nil
  then show ?case by simp
next
  case (Cons g gs)
  then obtain st where st: "group_state nh d now g = Inr st"
    and rest: "fold_results (\<lambda>g states. bind_result (group_state nh d now g) (\<lambda>st. Inr (AList.update (fg_key g) st states))) gs
      (AList.update (fg_key g) st acc) = Inr states" by (auto simp: bind_result_Inr)
  from Cons.IH[OF rest] st show ?case by (auto simp: update_conv)
qed

lemma joined_state:
  assumes "join_state hx fs d now lp = Inr s" "distinct (map fg_key (dt_groups s))" "g \<in> set (dt_groups s)"
  shows "\<exists>st. group_state NEVER_HELD d now g = Inr st \<and> map_of (dt_states s) (fg_key g) = Some st"
  using assms apply_states_fold[of NEVER_HELD d now "group_by_family hx fs" "[]" "dt_states s"]
  by (auto simp: join_state_def Let_def bind_result_Inr apply_decisions_def)

text \<open>A live claim holds an automatic group, unless its family is never held.\<close>

lemma live_claim_holds:
  assumes "group_state NEVER_HELD d now g = Inr st" "fg_disposition g = Automatic" "fg_scope g = Some scope"
    and "scope \<notin> NEVER_HELD" "map_of (de_claims d) (fg_key g) = Some cl" "claim_live cl now" "aware now"
  shows "ds_state st = Held"
proof -
  have "dismissible g = Inr False" using assms(2) by (simp add: dismissible_def)
  then have "quieting d now g = Inr None" by (simp add: quieting_def split: option.splits)
  with assms live_retained[OF assms(6,7)] show ?thesis
    by (auto simp: group_state_def claim_state_def new_state_def)
qed

section \<open>Invoking\<close>

text \<open>An invoker that logs what it is asked to run.\<close>

definition recording :: "'w invoker \<Rightarrow> ('w \<times> (string \<times> string) list) invoker" where
  "recording repair = (\<lambda>f i (w, log). let (r, w') = repair f i w in (r, (w', log @ [(rf_scope f, i)])))"

definition invoked_of :: "group_result list \<Rightarrow> (string \<times> string) list" where
  "invoked_of results = List.map_filter (\<lambda>r. map_option (\<lambda>i. (gr_scope r, i)) (gr_invocation_id r)) results"

lemma family_of_scope: "family_of g = Inr f \<Longrightarrow> rf_scope f = scope_of g"
  by (auto simp: family_of_def scope_of_def repair_scope_Some split: option.splits)

lemma invoke_deferring: "invoke_groups repair pass_id True gs s = (Inr (map deferred_result gs, []), s)"
  by (induction gs arbitrary: s) (simp_all add: bind_prog_def)

lemma deferred_result_fields [simp]:
  "gr_scope (deferred_result g) = scope_of g" "gr_outcome (deferred_result g) = Deferred"
  "gr_invocation_id (deferred_result g) = None"
  by (simp_all add: deferred_result_def)

lemma invoked_of_simps [simp]:
  "invoked_of [] = []"
  "invoked_of (r # rs) = (case gr_invocation_id r of None \<Rightarrow> invoked_of rs | Some i \<Rightarrow> (gr_scope r, i) # invoked_of rs)"
  by (simp_all add: invoked_of_def List.map_filter_simps split: option.splits)

lemma invoked_of_deferred: "invoked_of (map deferred_result gs) = []"
  by (induction gs) simp_all

lemma invoke_step:
  assumes "invoke_groups repair pass_id False (g # gs) s = (Inr (results, effects), s')"
  obtains f r s1 rest eff where "family_of g = Inr f" "repair f (repair_invocation pass_id (scope_of g)) s = (Inr r, s1)"
    "invoke_groups repair pass_id (fst (classify_sibling r) = Deferred) gs s1 = (Inr (rest, eff), s')"
    "results = \<lparr>gr_scope = scope_of g, gr_outcome = fst (classify_sibling r),
       gr_invocation_id = Some (repair_invocation pass_id (scope_of g)), gr_error_code = snd (classify_sibling r)\<rparr> # rest"
    "effects = sr_committed_effects r @ eff"
  using assms by (clarsimp simp: bind_prog_Inr case_prod_beta Let_def)

lemma recording_step:
  "recording repair f i (w, log) = (Inr r, s1) \<Longrightarrow> \<exists>w1. repair f i w = (Inr r, w1) \<and> s1 = (w1, log @ [(rf_scope f, i)])"
  by (auto simp: recording_def Let_def split: prod.splits)

lemma invoke_groups_run:
  assumes "invoke_groups (recording repair) pass_id b gs (w, log) = (Inr (results, effects), (w', log'))"
  shows "map gr_scope results = map scope_of gs \<and> log' = log @ invoked_of results
    \<and> (\<forall>r \<in> set results. gr_invocation_id r \<in> {None, Some (repair_invocation pass_id (gr_scope r))}
         \<and> (gr_invocation_id r = None \<longrightarrow> gr_outcome r = Deferred))
    \<and> (\<forall>xs r ys. results = xs @ r # ys \<and> gr_outcome r = Deferred \<longrightarrow> (\<forall>y \<in> set ys. gr_invocation_id y = None))"
  using assms
proof (induction gs arbitrary: b w log results effects)
  case Nil
  then show ?case by simp
next
  case (Cons g gs)
  show ?case
  proof (cases b)
    case True
    with Cons.prems have eq: "results = map deferred_result (g # gs)" "log' = log"
      using invoke_deferring[of "recording repair" pass_id "g # gs" "(w, log)"] by simp_all
    have "\<forall>r \<in> set results. gr_invocation_id r = None \<and> gr_outcome r = Deferred" by (simp add: eq)
    moreover have "map gr_scope results = map scope_of (g # gs)" by (simp add: eq)
    moreover have "invoked_of results = []" unfolding eq(1) by (rule invoked_of_deferred)
    ultimately show ?thesis using eq(2) by simp
  next
    case False
    let ?i = "repair_invocation pass_id (scope_of g)"
    from Cons.prems False have "invoke_groups (recording repair) pass_id False (g # gs) (w, log) = (Inr (results, effects), (w', log'))"
      by simp
    then obtain f r s1 rest eff where f: "family_of g = Inr f" and rep: "recording repair f ?i (w, log) = (Inr r, s1)"
      and go: "invoke_groups (recording repair) pass_id (fst (classify_sibling r) = Deferred) gs s1 = (Inr (rest, eff), (w', log'))"
      and res: "results = \<lparr>gr_scope = scope_of g, gr_outcome = fst (classify_sibling r), gr_invocation_id = Some ?i,
         gr_error_code = snd (classify_sibling r)\<rparr> # rest" by (rule invoke_step)
    from recording_step[OF rep] obtain w1 where s1: "s1 = (w1, log @ [(rf_scope f, ?i)])" by blast
    note IH = Cons.IH[OF go[unfolded s1]]
    have after: "\<forall>y \<in> set rest. gr_invocation_id y = None" if "fst (classify_sibling r) = Deferred"
      using go that invoke_deferring[of "recording repair" pass_id gs s1] by auto
    show ?thesis
    proof (intro conjI allI impI ballI)
      show "map gr_scope results = map scope_of (g # gs)" using IH res by simp
      show "log' = log @ invoked_of results" using IH res family_of_scope[OF f] by simp
    next
      fix x assume "x \<in> set results"
      then show "gr_invocation_id x \<in> {None, Some (repair_invocation pass_id (gr_scope x))}" using IH res by auto
    next
      fix x assume "x \<in> set results" "gr_invocation_id x = None"
      then show "gr_outcome x = Deferred" using IH res by auto
    next
      fix xs x ys y assume split: "results = xs @ x # ys \<and> gr_outcome x = Deferred" and y: "y \<in> set ys"
      show "gr_invocation_id y = None"
      proof (cases xs)
        case Nil
        with split y res after show ?thesis by auto
      next
        case (Cons a as)
        with split res have "rest = as @ x # ys" by simp
        with IH split y show ?thesis by blast
      qed
    qed
  qed
qed

section \<open>The pass and the claims\<close>

lemma invoked_of_member:
  "(scope, i) \<in> set (invoked_of results) \<longleftrightarrow> (\<exists>r \<in> set results. gr_scope r = scope \<and> gr_invocation_id r = Some i)"
  by (auto simp: invoked_of_def set_map_filter)

lemma invoked_of_distinct: "distinct (map gr_scope rs) \<Longrightarrow> distinct (map fst (invoked_of rs))"
proof (induction rs)
  case Nil
  then show ?case by simp
next
  case (Cons r rs)
  have "fst ` set (invoked_of rs) \<subseteq> set (map gr_scope rs)" by (auto simp: invoked_of_member)
  with Cons show ?case by (auto split: option.splits)
qed

lemma planned_scopes:
  assumes "planned s = Inr ps"
  shows "distinct (map scope_of ps)" "\<forall>g \<in> set ps. g \<in> set (ordered s) \<and> state_of_group (dt_states s) g \<noteq> Inr Held"
proof -
  note ps = planned_among_Inr[OF assms[unfolded planned_def]]
  then show "\<forall>g \<in> set ps. g \<in> set (ordered s) \<and> state_of_group (dt_states s) g \<noteq> Inr Held" by auto
  have "distinct (List.map_filter fg_scope (ordered s))"
    unfolding ordered_scopes using automatic_scopes_distinct by simp
  then have d: "distinct (List.map_filter fg_scope ps)" using ps distinct_map_filter_filter by auto
  have scoped: "\<forall>g \<in> set ps. fg_scope g = Some (scope_of g)"
  proof
    fix g assume "g \<in> set ps"
    then have "g \<in> set (ordered s)" using ps by simp
    from ordered_member(4)[OF this] show "fg_scope g = Some (scope_of g)" by (auto simp: scope_of_def)
  qed
  have "List.map_filter fg_scope gs = map scope_of gs" if "\<forall>g \<in> set gs. fg_scope g = Some (scope_of g)" for gs
    using that by (induction gs) (auto simp: List.map_filter_simps)
  with scoped d show "distinct (map scope_of ps)" by simp
qed

text \<open>
  C16. A pass never works behind somebody's back. Whatever the repairs answer, the commands a pass
  invokes are, each at most once and under the invocation identity derived from the pass, those of
  automatic families detected in this Brain that no live claim holds (or that can never be held);
  a dry run invokes none.
\<close>

theorem pass_repairs_only_unclaimed:
  assumes "join_state hx fs d now lp = Inr s" "distinct (map fg_key (dt_groups s))" "aware now"
    and "invoke_planned (recording repair) pass_id dry s (w, []) = (Inr (results, effects), (w', log))"
  shows "distinct (map fst log) \<and> (dry \<longrightarrow> log = [])
     \<and> (\<forall>(scope, i) \<in> set log. i = repair_invocation pass_id scope \<and> scope \<in> set AUTOMATIC_SCOPES
         \<and> (\<exists>g \<in> set (dt_groups s). fg_scope g = Some scope \<and> fg_owner g = Some BrainOwner \<and> fg_disposition g = Automatic
              \<and> (scope \<in> NEVER_HELD \<or> (\<forall>cl. map_of (de_claims d) (fg_key g) = Some cl \<longrightarrow> \<not> claim_live cl now))))"
proof (cases dry)
  case True
  with assms(4) show ?thesis by (simp add: invoke_planned_def)
next
  case False
  with assms(4) obtain ps where ps: "planned s = Inr ps"
    and run: "invoke_groups (recording repair) pass_id False ps (w, []) = (Inr (results, effects), (w', log))"
    by (auto simp: invoke_planned_def bind_prog_Inr)
  note r = invoke_groups_run[OF run] and p = planned_scopes[OF ps]
  have log: "log = invoked_of results" using r by simp
  have "distinct (map fst log)" unfolding log using r p(1) by (intro invoked_of_distinct) simp
  moreover have "i = repair_invocation pass_id scope \<and> scope \<in> set AUTOMATIC_SCOPES
      \<and> (\<exists>g \<in> set (dt_groups s). fg_scope g = Some scope \<and> fg_owner g = Some BrainOwner \<and> fg_disposition g = Automatic
           \<and> (scope \<in> NEVER_HELD \<or> (\<forall>cl. map_of (de_claims d) (fg_key g) = Some cl \<longrightarrow> \<not> claim_live cl now)))"
    if entry: "(scope, i) \<in> set log" for scope i
  proof -
    from entry[unfolded log invoked_of_member] obtain x where x: "x \<in> set results" "gr_scope x = scope" "gr_invocation_id x = Some i" by blast
    have "scope \<in> set (map scope_of ps)" using r x(1,2) by (metis image_eqI list.set_map)
    then obtain g where g: "g \<in> set ps" "scope = scope_of g" by auto
    note m = ordered_member[of g s]
    have in_order: "g \<in> set (ordered s)" and free: "state_of_group (dt_states s) g \<noteq> Inr Held" using p(2) g(1) by auto
    from m(4)[OF in_order] g(2) have scope: "fg_scope g = Some scope" "scope \<in> set AUTOMATIC_SCOPES" by (auto simp: scope_of_def)
    from joined_state[OF assms(1,2) m(1)[OF in_order]] obtain st where st: "group_state NEVER_HELD d now g = Inr st"
      "map_of (dt_states s) (fg_key g) = Some st" by blast
    have "ds_state st \<noteq> Held" using free st(2) by (simp add: state_of_group_def)
    then have "scope \<in> NEVER_HELD \<or> (\<forall>cl. map_of (de_claims d) (fg_key g) = Some cl \<longrightarrow> \<not> claim_live cl now)"
      using live_claim_holds[OF st(1) m(3)[OF in_order] scope(1) _ _ _ assms(3)] by blast
    moreover have "i = repair_invocation pass_id scope" using r x by fastforce
    ultimately show ?thesis using m(1-3)[OF in_order] scope by blast
  qed
  ultimately show ?thesis using False by blast
qed

text \<open>A Brain whose router cache and temporaries need a repair, the latter under a claim.\<close>

definition demo_broken :: "string \<Rightarrow> raw_finding" where
  "demo_broken scope = \<lparr>rw_check = scope, rw_severity = ''warning'', rw_message = ''m'', rw_code = None, rw_file = None,
     rw_evidence = JNull, rw_repair = Some (JObj [(''scope'', JStr scope)])\<rparr>"

definition demo_digest :: "string \<Rightarrow> string" where
  "demo_digest s = rev s"

definition demo_scope_key :: "string \<Rightarrow> string" where
  "demo_scope_key scope = (case family_key demo_digest NAMESPACE scope of Inr k \<Rightarrow> k | Inl _ \<Rightarrow> [])"

definition demo_held :: decisions where
  "demo_held = \<lparr>de_claims = [(demo_scope_key ''temporaries'', \<lparr>cl_claimant = ''ann'', cl_expires_at = Aware 100\<rparr>)], de_dismissals = []\<rparr>"

definition demo_detected :: "exn + detected_state" where
  "demo_detected = bind_result (classify demo_digest [demo_broken ''temporaries'', demo_broken ''router''])
     (\<lambda>fs. join_state demo_digest fs demo_held (Aware 50) None)"

definition demo_repair :: "nat invoker" where
  "demo_repair f i n = (Inr \<lparr>sr_status = ''ok'', sr_committed_effects = [], sr_error_code = None, sr_retryable = False\<rparr>, n + 1)"

theorem pass_repairs_only_unclaimed_witness:
  "\<exists>s results effects w log. demo_detected = Inr s
     \<and> invoke_planned (recording demo_repair) ''p'' False s (0, []) = (Inr (results, effects), (w, log))
     \<and> log = [(''router'', ''maint-p-router'')] \<and> distinct (map fst log)"
proof -
  have run: "case demo_detected of Inl _ \<Rightarrow> False | Inr s \<Rightarrow> distinct (map fg_key (dt_groups s))
      \<and> (case invoke_planned (recording demo_repair) ''p'' False s (0, []) of
          (Inr _, (_, log)) \<Rightarrow> log = [(''router'', ''maint-p-router'')] | _ \<Rightarrow> False)"
    by code_simp
  then obtain s fs where fs: "join_state demo_digest fs demo_held (Aware 50) None = Inr s" and d: "demo_detected = Inr s"
    by (auto simp: demo_detected_def bind_result_Inr split: sum.splits)
  obtain r w log where r: "invoke_planned (recording demo_repair) ''p'' False s (0, []) = (r, (w, log))"
    by (metis surj_pair)
  have keys: "distinct (map fg_key (dt_groups s))" and log: "r \<noteq> Inl x \<and> log = [(''router'', ''maint-p-router'')]" for x
    using run[unfolded d sum.case r] by (auto split: sum.splits)
  from log obtain results effects where "r = Inr (results, effects)" by (cases r) auto
  with r have inv: "invoke_planned (recording demo_repair) ''p'' False s (0, []) = (Inr (results, effects), (w, log))" by simp
  from pass_repairs_only_unclaimed[OF fs keys _ inv] have "distinct (map fst log)" by simp
  with d inv log show ?thesis by blast
qed

section \<open>Closing\<close>



definition demo_pass :: "bool \<Rightarrow> pass_context" where
  "demo_pass dry = \<lparr>pc_format = demo_format, pc_hex = demo_digest, pc_pass_id = ''p'', pc_host = ''h'',
     pc_finished_at = Aware 60, pc_dry_run = dry, pc_semantic = False\<rparr>"




text \<open>
  The advisory shows the pass that ran: after a summary was built and written, a reader with a
  later clock gets its counts, its block reason, its finishing time, and the age in whole seconds.
\<close>

theorem advisory_shows_the_last_pass:
  assumes "build_summary tf pass_id host (Inl t) outcome groups cs blocked = Inr doc"
    and "write_last_pass tf doc fl = (Inr (), fl')" "faithful_format tf" "t = Aware a" "now = Aware b" "a \<le> b"
  shows "read_advisory tf fl' now = Inr (Some
      (JObj (map (\<lambda>name. (name, case map_of cs name of None \<Rightarrow> JNull | Some n \<Rightarrow> JInt n)) COUNT_FIELDS),
       case blocked of None \<Rightarrow> JNull | Some r \<Rightarrow> JStr r, JStr (tf_iso tf t), (b - a) div 1000000))"
proof -
  have doc: "doc = summary_document tf pass_id host (Inl t) outcome groups cs blocked" "summary_problem tf doc = None"
    using assms(1) by (auto simp: build_summary_def Let_def split: if_splits)
  have "fl' = ParsedFile doc" using assms(2) by (auto simp: write_last_pass_def split: if_splits)
  then have "read_last_pass tf fl' = Some doc" using doc(2) by (simp add: read_last_pass_def)
  then show ?thesis
    using assms(6) by (simp add: read_advisory_def assms(4,5) doc(1) summary_document_def field_Cons summary_time_def
        faithful_formatD[OF assms(3)])
qed

theorem advisory_shows_the_last_pass_witness:
  "\<exists>doc fl. build_summary demo_format ''p'' ''h'' (Inl (Aware 60)) ''ok'' [] empty_counts None = Inr doc
     \<and> write_last_pass demo_format doc NoFile = (Inr (), fl)
     \<and> (\<exists>c. read_advisory demo_format fl (Aware 5000060) = Inr (Some (c, JNull, JStr (tf_iso demo_format (Aware 60)), 5)))"
proof -
  have "case build_summary demo_format ''p'' ''h'' (Inl (Aware 60)) ''ok'' [] empty_counts None of
      Inl _ \<Rightarrow> False | Inr doc \<Rightarrow> summary_problem demo_format doc = None"
    by code_simp
  then obtain doc where doc: "build_summary demo_format ''p'' ''h'' (Inl (Aware 60)) ''ok'' [] empty_counts None = Inr doc"
    "summary_problem demo_format doc = None" by (auto split: sum.splits)
  from doc(2) have w: "write_last_pass demo_format doc NoFile = (Inr (), ParsedFile doc)" by (simp add: write_last_pass_def)
  from advisory_shows_the_last_pass[OF doc(1) w demo_format_faithful refl refl, of 5000060] doc(1) w show ?thesis by simp
qed

text \<open>
  C18. A pass that cannot trust the decisions repairs nothing. If the decisions file is unreadable, an
  admitted pass leaves the world as it was, reports an internal error, and (unless it is a dry run)
  leaves a summary that says so, so that no stale count is shown.
\<close>

theorem unreadable_decisions_block_the_pass:
  assumes "run_pass repair dc pc (w, fl) = (Inr reply, (w', fl'))" "\<not> dc_busy dc"
    and "read_decisions (dc_format dc) (dc_before dc) = Inl DecisionsUnreadable" "fl \<noteq> IoErrorFile"
  shows "w' = w \<and> reply = PassError (ReplyError InternalError None False)
     \<and> (if pc_dry_run pc then fl' = fl
        else \<exists>kvs. read_last_pass (pc_format pc) fl' = Some (JObj kvs) \<and> field ''blocked'' kvs = JStr ''decisions_unreadable'')"
proof -
  have prep: "prepare_pass dc = Inr (Inl (''decisions_unreadable'', ReplyError InternalError None False))"
    by (simp add: prepare_pass_def read_decisions_or_error_def assms(3))
  have run: "on_summary (block_pass pc ''decisions_unreadable'' (ReplyError InternalError None False)) (w, fl) = (Inr reply, (w', fl'))"
    using assms(1,2) prep by (simp add: run_pass_def bind_prog_Inr)
  then have w: "w' = w" and b: "block_pass pc ''decisions_unreadable'' (ReplyError InternalError None False) fl = (Inr reply, fl')"
    by (auto simp: on_summary_def Let_def split: prod.splits)
  show ?thesis
  proof (cases "pc_dry_run pc")
    case True
    with w b show ?thesis by (simp add: block_pass_def)
  next
    case False
    let ?doc = "summary_document (pc_format pc) (pc_pass_id pc) (pc_host pc) (Inl (pc_finished_at pc)) ''error'' [] empty_counts
        (Some ''decisions_unreadable'')"
    from b False assms(4) have "reply = PassError (ReplyError InternalError None False)" "fl' = ParsedFile ?doc"
      "summary_problem (pc_format pc) ?doc = None"
      by (auto simp: block_pass_def build_summary_def write_last_pass_def Let_def split: if_splits)
    with w False show ?thesis by (simp add: read_last_pass_def) (simp add: summary_document_def field_Cons)
  qed
qed

definition demo_call_of :: "decisions_file \<Rightarrow> decision_context" where
  "demo_call_of fl = \<lparr>dc_format = demo_format, dc_hex = demo_digest, dc_checked = Inr [demo_broken ''router''],
     dc_seen = Aware 50, dc_now = Aware 50, dc_busy = False, dc_admit = Inr (), dc_dry_run = False,
     dc_before = fl, dc_last_pass = NoFile\<rparr>"

theorem unreadable_decisions_block_the_pass_witness:
  "\<exists>reply w fl. run_pass demo_repair (demo_call_of LinkFile) (demo_pass False) (0, NoFile) = (Inr reply, (w, fl)) \<and> w = 0
     \<and> (\<exists>kvs. read_last_pass demo_format fl = Some (JObj kvs) \<and> field ''blocked'' kvs = JStr ''decisions_unreadable'')"
proof -
  have "case run_pass demo_repair (demo_call_of LinkFile) (demo_pass False) (0, NoFile) of (Inr _, _) \<Rightarrow> True | _ \<Rightarrow> False"
    by code_simp
  then obtain reply w fl where run: "run_pass demo_repair (demo_call_of LinkFile) (demo_pass False) (0, NoFile) = (Inr reply, (w, fl))"
    by (auto split: prod.splits sum.splits)
  have "\<not> dc_busy (demo_call_of LinkFile)" "pc_format (demo_pass False) = demo_format" "\<not> pc_dry_run (demo_pass False)"
    "read_decisions (dc_format (demo_call_of LinkFile)) (dc_before (demo_call_of LinkFile)) = Inl DecisionsUnreadable"
    by (simp_all add: demo_call_of_def demo_pass_def read_decisions_def)
  with unreadable_decisions_block_the_pass[OF run] run show ?thesis by simp
qed

text \<open>
  Bytes that are not UTF-8 escape that rule: \<open>read_text\<close> raises a \<open>UnicodeDecodeError\<close>, which
  \<open>read_decisions\<close> does not turn into \<open>DecisionsUnreadable\<close>, so the pass raises and the previous summary stays.
\<close>

lemma undecodable_decisions_escape:
  assumes "dc_before dc = UndecodableFile" "\<not> dc_busy dc" "dc_admit dc = Inr ()"
  shows "run_pass repair dc pc (w, fl) = (Inl ValueError, (w, fl))"
  by (simp add: run_pass_def bind_prog_def assms prepare_pass_def read_decisions_or_error_def read_decisions_def)

end
