(* ===== verification/Disk.thy ===== *)
theory Disk
  imports Prelude
begin

text \<open>
  The part of a file system the bootstrap modules rely on: what is at a path, and operations that
  may fail. A path is the list of its components, the root is the empty list. Every operation that
  touches the disk takes the next \<open>fault\<close>: it may raise before or after it did its work, with any
  exception; a run without faults left does what it is asked. Temporary files behind an atomic
  replacement are below this model: a replacement happens or it does not.
\<close>

type_synonym path = "string list"

text \<open>A directory carries its identity, the pair \<open>(st_dev, st_ino)\<close>; a link's target is not modelled.\<close>

datatype disk_node = Regular string | Directory int | Link

text \<open>\<open>FaultAmid k e\<close> stops an operation of several parts after the first \<open>k\<close>; the others are not begun.\<close>

datatype fault = NoFault | FaultBefore exn | FaultAfter exn | FaultAmid nat exn

record disk =
  dk_nodes :: "(path \<times> disk_node) list"
  dk_faults :: "fault list"
  dk_fresh :: int

definition faulty :: "('x disk_scheme, 'a) prog \<Rightarrow> ('x disk_scheme, 'a) prog" where
  "faulty m d =
     (case dk_faults d of
        [] \<Rightarrow> m d
      | f # fs \<Rightarrow>
          (let d' = d\<lparr>dk_faults := fs\<rparr> in
           case f of
             NoFault \<Rightarrow> m d'
           | FaultBefore e \<Rightarrow> (Inl e, d')
           | FaultAmid k e \<Rightarrow> (Inl e, d')
           | FaultAfter e \<Rightarrow> (Inl e, snd (m d'))))"

definition fault_raises :: "fault \<Rightarrow> exn \<Rightarrow> bool" where
  "fault_raises f e = (f = FaultBefore e \<or> f = FaultAfter e \<or> (\<exists>k. f = FaultAmid k e))"

text \<open>\<open>except ...\<close>: the handler gets the exception.\<close>

definition catching :: "('s, 'a) prog \<Rightarrow> (exn \<Rightarrow> ('s, 'a) prog) \<Rightarrow> ('s, 'a) prog" where
  "catching m h s = (case m s of (Inl e, s') \<Rightarrow> h e s' | (Inr x, s') \<Rightarrow> (Inr x, s'))"

fun is_os_error :: "exn \<Rightarrow> bool" where
  "is_os_error OSError = True"
| "is_os_error UnsafeLayoutError = True"
| "is_os_error _ = False"

section \<open>Looking\<close>

definition path_str :: "path \<Rightarrow> string" where
  "path_str p = (if p = [] then ''/'' else concat (map (\<lambda>c. ''/'' @ c) p))"


definition node :: "'x disk_scheme \<Rightarrow> path \<Rightarrow> disk_node option" where
  "node d p = (if p = [] then Some (Directory 0) else map_of (dk_nodes d) p)"

text \<open>\<open>path.parents\<close>, from the nearest one to the root.\<close>

definition parents :: "path \<Rightarrow> path list" where
  "parents p = map (\<lambda>i. take i p) (rev [0 ..< length p])"

definition exists_at :: "'x disk_scheme \<Rightarrow> path \<Rightarrow> bool" where
  "exists_at d p = (node d p \<noteq> None)"

fun is_directory :: "disk_node option \<Rightarrow> bool" where
  "is_directory (Some (Directory i)) = True"
| "is_directory _ = False"

fun is_regular :: "disk_node option \<Rightarrow> bool" where
  "is_regular (Some (Regular b)) = True"
| "is_regular _ = False"

text \<open>Reading: a file in the way of the path, a directory or a link there is an \<open>OSError\<close>.\<close>

definition look :: "path \<Rightarrow> 'x disk_scheme \<Rightarrow> exn + string option" where
  "look p d =
     (case node d p of
        Some (Regular b) \<Rightarrow> Inr (Some b)
      | Some _ \<Rightarrow> Inl OSError
      | None \<Rightarrow> if list_ex (\<lambda>q. is_regular (node d q)) (parents p) then Inl OSError else Inr None)"

section \<open>Changing\<close>

definition set_node :: "path \<Rightarrow> disk_node \<Rightarrow> 'x disk_scheme \<Rightarrow> 'x disk_scheme" where
  "set_node p n d = d\<lparr>dk_nodes := AList.update p n (dk_nodes d)\<rparr>"

definition drop_node :: "path \<Rightarrow> 'x disk_scheme \<Rightarrow> 'x disk_scheme" where
  "drop_node p d = d\<lparr>dk_nodes := AList.delete p (dk_nodes d)\<rparr>"

text \<open>\<open>unlink\<close>, where a missing file is fine.\<close>

definition unlink_file :: "path \<Rightarrow> ('x disk_scheme, unit) prog" where
  "unlink_file p = faulty (\<lambda>d.
     case node d p of
       None \<Rightarrow> if list_ex (\<lambda>q. is_regular (node d q)) (parents p) then (Inl OSError, d) else (Inr (), d)
     | Some (Directory _) \<Rightarrow> (Inl OSError, d)
     | Some _ \<Rightarrow> (Inr (), drop_node p d))"

text \<open>One level of \<open>mkdir(parents=True, exist_ok=True)\<close>.\<close>

definition make_directory :: "path \<Rightarrow> ('x disk_scheme, unit) prog" where
  "make_directory p d =
     (if is_directory (node d p) then (Inr (), d)
      else faulty (\<lambda>d.
        if node d p = None \<and> is_directory (node d (butlast p))
        then (Inr (), (set_node p (Directory (dk_fresh d)) d)\<lparr>dk_fresh := dk_fresh d + 1\<rparr>)
        else (Inl OSError, d)) d)"

fun make_directories :: "path list \<Rightarrow> ('x disk_scheme, unit) prog" where
  "make_directories [] = return_prog ()"
| "make_directories (p # ps) = bind_prog (make_directory p) (\<lambda>_. make_directories ps)"

text \<open>\<open>os.replace(temporary, path)\<close> of a temporary file beside it.\<close>

definition replace_file :: "path \<Rightarrow> string \<Rightarrow> ('x disk_scheme, unit) prog" where
  "replace_file p content = faulty (\<lambda>d.
     if p = [] \<or> is_directory (node d p) \<or> \<not> is_directory (node d (butlast p)) then (Inl OSError, d)
     else (Inr (), set_node p (Regular content) d))"

text \<open>\<open>rmdir\<close>, where a missing directory is fine.\<close>

definition remove_directory :: "path \<Rightarrow> ('x disk_scheme, unit) prog" where
  "remove_directory p = faulty (\<lambda>d.
     case node d p of
       None \<Rightarrow> (Inr (), d)
     | Some (Directory _) \<Rightarrow>
         if p = [] \<or> list_ex (\<lambda>(q, n). q \<noteq> [] \<and> butlast q = p) (dk_nodes d) then (Inl OSError, d)
         else (Inr (), drop_node p d)
     | Some _ \<Rightarrow> (Inl OSError, d))"

section \<open>Facts\<close>

text \<open>The contents of the regular files: what a transaction is about.\<close>

definition content :: "'x disk_scheme \<Rightarrow> path \<Rightarrow> string option" where
  "content d p = (case node d p of Some (Regular b) \<Rightarrow> Some b | _ \<Rightarrow> None)"

lemma look_content: "look p d = Inr x \<Longrightarrow> content d p = x"
  by (auto simp: look_def content_def split: option.splits disk_node.splits if_splits)

lemma node_faults [simp]: "node (d\<lparr>dk_faults := fs\<rparr>) p = node d p" "node (d\<lparr>dk_fresh := i\<rparr>) p = node d p"
  by (simp_all add: node_def)

lemma content_faults [simp]: "content (d\<lparr>dk_faults := fs\<rparr>) p = content d p" "content (d\<lparr>dk_fresh := i\<rparr>) p = content d p"
  by (simp_all add: content_def)

lemma node_set: "node (set_node p n d) q = (if q = p \<and> q \<noteq> [] then Some n else node d q)"
  by (simp add: node_def set_node_def update_conv)

lemma node_drop: "node (drop_node p d) q = (if q = p \<and> q \<noteq> [] then None else node d q)"
  by (simp add: node_def drop_node_def delete_conv)

lemma faults_set [simp]: "dk_faults (set_node p n d) = dk_faults d"
  by (simp add: set_node_def)

lemma faults_drop [simp]: "dk_faults (drop_node p d) = dk_faults d"
  by (simp add: drop_node_def)

lemma node_Nil [simp]: "node d [] = Some (Directory 0)"
  by (simp add: node_def)

lemma faulty_calm: "dk_faults d = [] \<Longrightarrow> faulty m d = m d"
  by (simp add: faulty_def)

text \<open>What an operation reaches under faults, it reaches without them, from the same disk.\<close>

lemma faulty_cases:
  assumes "faulty m d = (r, d')"
  obtains (calm) "dk_faults d = []" "m d = (r, d')"
    | (fault) f fs where "dk_faults d = f # fs"
        "d' = d\<lparr>dk_faults := fs\<rparr> \<or> d' = snd (m (d\<lparr>dk_faults := fs\<rparr>))"
        "(r, d') = m (d\<lparr>dk_faults := fs\<rparr>) \<or> (\<exists>e. r = Inl e \<and> fault_raises f e)"
proof (cases "dk_faults d")
  case Nil
  with assms calm show ?thesis by (simp add: faulty_def)
next
  case (Cons f fs)
  show ?thesis
  proof (rule fault[OF Cons])
    show "d' = d\<lparr>dk_faults := fs\<rparr> \<or> d' = snd (m (d\<lparr>dk_faults := fs\<rparr>))"
      using assms Cons by (cases f) (auto simp: faulty_def Let_def fault_raises_def)
    show "(r, d') = m (d\<lparr>dk_faults := fs\<rparr>) \<or> (\<exists>e. r = Inl e \<and> fault_raises f e)"
      using assms Cons by (cases f) (auto simp: faulty_def Let_def fault_raises_def)
  qed
qed

end
