(* ===== verification/File_Transaction.thy ===== *)
theory File_Transaction
  imports Disk
begin

text \<open>
  \<open>_bootstrap/file_transaction.py\<close>: plans of file changes and their application with rollback. Paths
  are taken as normalised; file modes are left out. \<open>before_write\<close> is the parameter \<open>hook\<close> (for a
  plan, its \<open>validate_dependencies\<close>), which does nothing where the code passes \<open>None\<close>.
\<close>

record file_change =
  fc_path :: path
  fc_before :: "string option"
  fc_after :: "string option"

section \<open>Guards and single changes\<close>

definition refuse_symlink_path :: "path \<Rightarrow> disk \<Rightarrow> exn + unit" where
  "refuse_symlink_path p d = check_that (\<not> list_ex (\<lambda>q. node d q = Some Link) (p # parents p)) ValueError"

definition current :: "path \<Rightarrow> (disk, string option) prog" where
  "current p = faulty (\<lambda>d. (look p d, d))"

text \<open>\<open>path.stat()\<close> before a write, for the mode: a missing file is fine.\<close>

definition stat_mode :: "path \<Rightarrow> (disk, unit) prog" where
  "stat_mode p = faulty (\<lambda>d. (check_that (\<not> list_ex (\<lambda>q. is_regular (node d q)) (parents p)) OSError, d))"

definition write_bytes :: "path \<Rightarrow> string \<Rightarrow> (disk, unit) prog" where
  "write_bytes p bytes =
     bind_prog (lift_result (refuse_symlink_path p)) (\<lambda>_.
     bind_prog (stat_mode p) (\<lambda>_.
     bind_prog (make_directories (rev (parents p))) (\<lambda>_.
     bind_prog (lift_result (refuse_symlink_path p)) (\<lambda>_.
     replace_file p bytes))))"

definition apply_content :: "path \<Rightarrow> string option \<Rightarrow> (disk, unit) prog" where
  "apply_content p bytes =
     bind_prog (lift_result (refuse_symlink_path p)) (\<lambda>_.
     case bytes of None \<Rightarrow> unlink_file p | Some b \<Rightarrow> write_bytes p b)"

text \<open>\<open>_missing_parent_dirs\<close>: the parents up to the first one that exists.\<close>

definition missing_parent_dirs :: "disk \<Rightarrow> path \<Rightarrow> path list" where
  "missing_parent_dirs d p = takeWhile (\<lambda>q. \<not> exists_at d q) (parents p)"

section \<open>Applying\<close>

text \<open>The preflight of all changes; an \<open>OSError\<close> while looking is a refusal too.\<close>

fun verify_changes :: "file_change list \<Rightarrow> (disk, unit) prog" where
  "verify_changes [] = return_prog ()"
| "verify_changes (c # cs) =
     bind_prog (catching
         (bind_prog (lift_result (refuse_symlink_path (fc_path c))) (\<lambda>_. current (fc_path c)))
         (\<lambda>e. raise_prog (if is_os_error e then FileTransactionError [] else e))) (\<lambda>now.
     if now \<noteq> fc_before c then raise_prog (FileTransactionError []) else verify_changes cs)"

text \<open>\<open>created_dirs\<close>: the deepest first.\<close>

definition created_directories :: "disk \<Rightarrow> file_change list \<Rightarrow> path list" where
  "created_directories d cs =
     rev (sort_key length (remdups (concat (map (\<lambda>c. missing_parent_dirs d (fc_path c)) cs))))"

text \<open>What happens before a change counts as attempted.\<close>

definition ready_to_change :: "(disk, unit) prog \<Rightarrow> file_change \<Rightarrow> (disk, unit) prog" where
  "ready_to_change hook c =
     bind_prog hook (\<lambda>_.
     bind_prog (lift_result (refuse_symlink_path (fc_path c))) (\<lambda>_.
     bind_prog (current (fc_path c)) (\<lambda>now.
     if now \<noteq> fc_before c then raise_prog OSError else return_prog ())))"

text \<open>The writing loop: the exception that ended it, if any, and the changes attempted.\<close>

fun run_changes ::
  "(disk, unit) prog \<Rightarrow> file_change list \<Rightarrow> file_change list \<Rightarrow> disk \<Rightarrow> (exn option \<times> file_change list) \<times> disk" where
  "run_changes hook [] attempted d = ((None, attempted), d)"
| "run_changes hook (c # cs) attempted d =
     (case ready_to_change hook c d of
        (Inl e, d1) \<Rightarrow> ((Some e, attempted), d1)
      | (Inr _, d1) \<Rightarrow>
          (case apply_content (fc_path c) (fc_after c) d1 of
             (Inl e, d2) \<Rightarrow> ((Some e, attempted @ [c]), d2)
           | (Inr _, d2) \<Rightarrow> run_changes hook cs (attempted @ [c]) d2))"

text \<open>Rolling one change back; a failure is noted in the message, after one more look at the file.\<close>

definition undo_change :: "(disk, unit) prog \<Rightarrow> file_change \<Rightarrow> (disk, unit) prog" where
  "undo_change hook c =
     catching
       (bind_prog hook (\<lambda>_.
        bind_prog (current (fc_path c)) (\<lambda>now.
        if now = fc_before c then return_prog ()
        else if now \<noteq> fc_after c then raise_prog OSError
        else apply_content (fc_path c) (fc_before c))))
       (\<lambda>_. catching (bind_prog (current (fc_path c)) (\<lambda>_. return_prog ()))
              (\<lambda>e. if is_os_error e then return_prog () else raise_prog e))"

fun undo_changes :: "(disk, unit) prog \<Rightarrow> file_change list \<Rightarrow> (disk, unit) prog" where
  "undo_changes hook [] = return_prog ()"
| "undo_changes hook (c # cs) = bind_prog (undo_change hook c) (\<lambda>_. undo_changes hook cs)"

fun remove_directories :: "path list \<Rightarrow> (disk, unit) prog" where
  "remove_directories [] = return_prog ()"
| "remove_directories (p # ps) =
     bind_prog (catching (remove_directory p) (\<lambda>_. return_prog ())) (\<lambda>_. remove_directories ps)"

fun surviving_files :: "file_change list \<Rightarrow> (disk, path list) prog" where
  "surviving_files [] = return_prog []"
| "surviving_files (c # cs) =
     bind_prog (catching (bind_prog (current (fc_path c)) (\<lambda>now. return_prog (now \<noteq> fc_before c)))
                  (\<lambda>e. if is_os_error e then return_prog True else raise_prog e)) (\<lambda>survives.
     bind_prog (surviving_files cs) (\<lambda>rest.
     return_prog (if survives then fc_path c # rest else rest)))"

definition roll_back ::
  "(disk, unit) prog \<Rightarrow> exn \<Rightarrow> file_change list \<Rightarrow> path list \<Rightarrow> (disk, unit) prog" where
  "roll_back hook cause attempted created =
     bind_prog (undo_changes hook (rev attempted)) (\<lambda>_.
     bind_prog (remove_directories created) (\<lambda>_.
     bind_prog (surviving_files attempted) (\<lambda>files.
     bind_prog (lift_result (\<lambda>d. Inr (filter (exists_at d) created))) (\<lambda>dirs.
     raise_prog (if cause = KeyboardInterrupt then KeyboardInterrupt
                 else FileTransactionError (sort_key path_str (remdups (files @ dirs))))))))"

definition apply_file_changes :: "(disk, unit) prog \<Rightarrow> file_change list \<Rightarrow> (disk, unit) prog" where
  "apply_file_changes hook changes =
     bind_prog (verify_changes changes) (\<lambda>_ d.
     let created = created_directories d changes in
     case run_changes hook changes [] d of
       ((None, _), d1) \<Rightarrow> (Inr (), d1)
     | ((Some e, attempted), d1) \<Rightarrow> roll_back hook e attempted created d1)"

section \<open>Plans\<close>

record file_plan =
  pl_before :: "(path \<times> string option) list"
  pl_after :: "(path \<times> string option) list"
  pl_directories :: "(path \<times> int) list"

definition new_plan :: file_plan where
  "new_plan = \<lparr>pl_before = [], pl_after = [], pl_directories = []\<rparr>"

text \<open>\<open>path.stat()\<close> of a directory: its identity. A missing path is a \<open>FileNotFoundError\<close>, an \<open>OSError\<close>.\<close>

definition directory_identity :: "path \<Rightarrow> disk \<Rightarrow> exn + int option" where
  "directory_identity p d =
     (case node d p of Some (Directory i) \<Rightarrow> Inr (Some i) | Some _ \<Rightarrow> Inr None | None \<Rightarrow> Inl OSError)"

definition observe_directory :: "path \<Rightarrow> file_plan \<Rightarrow> (disk, file_plan) prog" where
  "observe_directory p plan =
     bind_prog (lift_result (refuse_symlink_path p)) (\<lambda>_.
     bind_prog (faulty (\<lambda>d. (directory_identity p d, d))) (\<lambda>info.
     case info of
       None \<Rightarrow> raise_prog ValueError
     | Some i \<Rightarrow> return_prog (plan\<lparr>pl_directories := AList.update p i (pl_directories plan)\<rparr>)))"

text \<open>The first reading of a path is remembered; a directory there is a \<open>ValueError\<close>.\<close>

definition plan_read :: "path \<Rightarrow> file_plan \<Rightarrow> (disk, string option \<times> file_plan) prog" where
  "plan_read p plan =
     (case map_of (pl_after plan) p of
        Some bytes \<Rightarrow> return_prog (bytes, plan)
      | None \<Rightarrow>
          (case map_of (pl_before plan) p of
             Some bytes \<Rightarrow> return_prog (bytes, plan)
           | None \<Rightarrow>
               bind_prog (lift_result (refuse_symlink_path p)) (\<lambda>_.
               bind_prog (faulty (\<lambda>d. (if is_directory (node d p) then Inl ValueError else look p d, d))) (\<lambda>bytes.
               return_prog (bytes, plan\<lparr>pl_before := AList.update p bytes (pl_before plan)\<rparr>)))))"

text \<open>\<open>require_bom_free_text\<close>: the byte-order mark in UTF-8.\<close>

definition bom :: string where
  "bom = [CHR 0xEF, CHR 0xBB, CHR 0xBF]"

definition write_text :: "path \<Rightarrow> string \<Rightarrow> file_plan \<Rightarrow> (disk, file_plan) prog" where
  "write_text p text plan =
     bind_prog (lift_result (\<lambda>_. check_that (\<not> starts_with bom text) ValueError)) (\<lambda>_.
     bind_prog (plan_read p plan) (\<lambda>(_, plan').
     return_prog (plan'\<lparr>pl_after := AList.update p (Some text) (pl_after plan')\<rparr>)))"

definition delete_path :: "path \<Rightarrow> file_plan \<Rightarrow> (disk, file_plan) prog" where
  "delete_path p plan =
     bind_prog (plan_read p plan) (\<lambda>(_, plan').
     return_prog (plan'\<lparr>pl_after := AList.update p None (pl_after plan')\<rparr>))"

text \<open>\<open>self._before[path]\<close>; every path with an after value has been read.\<close>

definition before_of :: "file_plan \<Rightarrow> path \<Rightarrow> string option" where
  "before_of plan p = (case map_of (pl_before plan) p of Some b \<Rightarrow> b | None \<Rightarrow> None)"

definition plan_changes :: "file_plan \<Rightarrow> file_change list" where
  "plan_changes plan =
     map (\<lambda>(p, after). \<lparr>fc_path = p, fc_before = before_of plan p, fc_after = after\<rparr>)
       (filter (\<lambda>(p, after). before_of plan p \<noteq> after) (sort_key (\<lambda>(p, after). path_str p) (pl_after plan)))"

fun validate_files :: "(path \<times> string option) list \<Rightarrow> (disk, unit) prog" where
  "validate_files [] = return_prog ()"
| "validate_files ((p, before) # rest) =
     bind_prog (lift_result (refuse_symlink_path p)) (\<lambda>_.
     bind_prog (current p) (\<lambda>now.
     if now \<noteq> before then raise_prog (FileTransactionError []) else validate_files rest))"

fun validate_directories :: "(path \<times> int) list \<Rightarrow> (disk, unit) prog" where
  "validate_directories [] = return_prog ()"
| "validate_directories ((p, i) # rest) =
     bind_prog (lift_result (refuse_symlink_path p)) (\<lambda>_.
     bind_prog (faulty (\<lambda>d. (directory_identity p d, d))) (\<lambda>info.
     if info \<noteq> Some i then raise_prog (FileTransactionError []) else validate_directories rest))"

definition validate_dependencies :: "file_plan \<Rightarrow> (disk, unit) prog" where
  "validate_dependencies plan =
     bind_prog (validate_files (filter (\<lambda>(p, b). map_of (pl_after plan) p = None) (pl_before plan))) (\<lambda>_.
     validate_directories (pl_directories plan))"

definition validate_plan :: "file_plan \<Rightarrow> (disk, unit) prog" where
  "validate_plan plan = bind_prog (validate_files (pl_before plan)) (\<lambda>_. validate_dependencies plan)"

end
