(* ===== verification/File_Safety.thy ===== *)
theory File_Safety
  imports File_Transaction
begin

text \<open>
  How the operations of a file transaction move the disk: \<open>moves P\<close> says that only the contents at
  the paths \<open>P\<close> changed, that directories only appeared above them, and that no link appeared. Every
  operation keeps it, whatever faults it meets.
\<close>

section \<open>Well-formed disks\<close>

text \<open>Everything lies in a directory.\<close>

definition well_formed :: "'x disk_scheme \<Rightarrow> bool" where
  "well_formed d = (\<forall>p. p \<noteq> [] \<and> node d p \<noteq> None \<longrightarrow> is_directory (node d (butlast p)))"

lemma parents_iff: "q \<in> set (parents p) \<longleftrightarrow> (\<exists>r. r \<noteq> [] \<and> p = q @ r)"
proof
  assume "q \<in> set (parents p)"
  then obtain i where i: "i < length p" "q = take i p" by (auto simp: parents_def)
  then have "p = q @ drop i p" "drop i p \<noteq> []" by simp_all
  then show "\<exists>r. r \<noteq> [] \<and> p = q @ r" by blast
next
  assume "\<exists>r. r \<noteq> [] \<and> p = q @ r"
  then obtain r where "r \<noteq> []" "p = q @ r" by blast
  then have "length q < length p" "q = take (length q) p" by simp_all
  then show "q \<in> set (parents p)" by (auto simp: parents_def)
qed

lemma ancestors_directories:
  assumes "well_formed d" "node d (q @ r) \<noteq> None" "r \<noteq> []"
  shows "is_directory (node d q)"
  using assms(2,3)
proof (induction r rule: rev_induct)
  case Nil
  then show ?case by simp
next
  case (snoc x xs)
  have dir: "is_directory (node d (q @ xs))"
    using assms(1) snoc.prems(1) unfolding well_formed_def by (metis append_assoc append_is_Nil_conv butlast_snoc not_Cons_self2)
  show ?case
  proof (cases "xs = []")
    case True
    with dir show ?thesis by simp
  next
    case False
    from dir have "node d (q @ xs) \<noteq> None" by (cases "node d (q @ xs)") auto
    from snoc.IH[OF this False] show ?thesis .
  qed
qed

lemma node_same: "dk_nodes d' = dk_nodes d \<Longrightarrow> node d' p = node d p"
  by (simp add: node_def)

section \<open>Moves\<close>

definition moves :: "path set \<Rightarrow> 'x disk_scheme \<Rightarrow> 'x disk_scheme \<Rightarrow> bool" where
  "moves P d d' \<longleftrightarrow>
     (well_formed d \<longrightarrow> well_formed d')
   \<and> (\<forall>q. is_directory (node d q) \<longrightarrow> is_directory (node d' q))
   \<and> (\<forall>q. is_directory (node d' q) \<longrightarrow> is_directory (node d q) \<or> (\<exists>p \<in> P. q \<in> set (parents p)))
   \<and> (\<forall>q. node d' q = Some Link \<longrightarrow> node d q = Some Link)
   \<and> (\<forall>q. q \<notin> P \<longrightarrow> content d' q = content d q)
   \<and> set (dk_faults d') \<subseteq> set (dk_faults d)"

lemma moves_other: "moves P d d' \<Longrightarrow> q \<notin> P \<Longrightarrow> content d' q = content d q"
  by (simp add: moves_def)

lemma moves_refl: "moves P d d"
  by (simp add: moves_def)

lemma moves_trans: "moves P a b \<Longrightarrow> moves P b c \<Longrightarrow> moves P a c"
proof -
  assume a: "moves P a b" and b: "moves P b c"
  have "well_formed a \<longrightarrow> well_formed c" using a b by (simp add: moves_def)
  moreover have "\<forall>q. is_directory (node a q) \<longrightarrow> is_directory (node c q)" using a b by (simp add: moves_def)
  moreover have "\<forall>q. is_directory (node c q) \<longrightarrow> is_directory (node a q) \<or> (\<exists>p \<in> P. q \<in> set (parents p))"
    using a b unfolding moves_def by meson
  moreover have "\<forall>q. node c q = Some Link \<longrightarrow> node a q = Some Link" using a b by (simp add: moves_def)
  moreover have "\<forall>q. q \<notin> P \<longrightarrow> content c q = content a q" using a b by (simp add: moves_def)
  moreover have "set (dk_faults c) \<subseteq> set (dk_faults a)" using a b by (auto simp: moves_def)
  ultimately show ?thesis unfolding moves_def by blast
qed

lemma moves_mono: "moves P d d' \<Longrightarrow> P \<subseteq> Q \<Longrightarrow> moves Q d d'"
  unfolding moves_def by blast

lemma moves_faults: "moves P d (d\<lparr>dk_faults := fs\<rparr>) \<longleftrightarrow> set fs \<subseteq> set (dk_faults d)"
  by (simp add: moves_def well_formed_def)

lemmas keeps_moves_bind = keeps_bind[where R = "moves P" for P, OF moves_trans]
lemmas keeps_moves_pure = keeps_pure[where R = "moves P" for P, OF moves_refl]

lemma keeps_mono: "keeps (moves P) m \<Longrightarrow> P \<subseteq> Q \<Longrightarrow> keeps (moves Q) m"
  unfolding keeps_def using moves_mono by blast

lemma catching_cases:
  assumes "catching m h d = (r, d')"
  obtains (raised) e d1 where "m d = (Inl e, d1)" "h e d1 = (r, d')"
    | (returned) x where "m d = (Inr x, d')" "r = Inr x"
  using assms by (auto simp: catching_def split: prod.splits sum.splits)

lemma keeps_catching_any:
  assumes trans: "\<And>a b c. R a b \<Longrightarrow> R b c \<Longrightarrow> R a c" and m: "keeps R m" and h: "\<And>e. keeps R (h e)"
  shows "keeps R (catching m h)"
  unfolding keeps_def
proof (intro allI impI)
  fix d r d' assume "catching m h d = (r, d')"
  then show "R d d'"
  proof (cases rule: catching_cases)
    case (raised e d1)
    with keepsD[OF m] keepsD[OF h] trans show ?thesis by blast
  next
    case (returned x)
    with keepsD[OF m] show ?thesis by blast
  qed
qed

lemma keeps_faulty_any:
  assumes trans: "\<And>a b c. R a b \<Longrightarrow> R b c \<Longrightarrow> R a c"
    and step: "\<And>d fs. set fs \<subseteq> set (dk_faults d) \<Longrightarrow> R d (d\<lparr>dk_faults := fs\<rparr>)"
    and m: "keeps R m"
  shows "keeps R (faulty m)"
  unfolding keeps_def
proof (intro allI impI)
  fix d r d' assume "faulty m d = (r, d')"
  then show "R d d'"
  proof (cases rule: faulty_cases)
    case calm
    with m show ?thesis by (auto dest: keepsD)
  next
    case (fault f fs)
    let ?d = "d\<lparr>dk_faults := fs\<rparr>"
    have "R d ?d" using fault(1) by (intro step) auto
    moreover have "R ?d (snd (m ?d))"
      using m by (cases "m ?d") (auto dest: keepsD)
    ultimately show ?thesis using fault(2) trans by blast
  qed
qed

lemmas keeps_catching = keeps_catching_any[where R = "moves P" for P, OF moves_trans]
lemma keeps_faulty: "keeps (moves P) m \<Longrightarrow> keeps (moves P) (faulty m)"
  by (rule keeps_faulty_any) (auto intro: moves_trans simp: moves_faults)

lemma keeps_if: "(b \<Longrightarrow> keeps R m) \<Longrightarrow> (\<not> b \<Longrightarrow> keeps R n) \<Longrightarrow> keeps R (if b then m else n)"
  by simp

section \<open>The operations\<close>

lemma moves_set_directory:
  assumes "node d q = None" "is_directory (node d (butlast q))" "p \<in> P" "q \<in> set (parents p)"
  shows "moves P d ((set_node q (Directory i) d)\<lparr>dk_fresh := j\<rparr>)"
proof -
  have "q \<noteq> []" using assms(1) by auto
  have "butlast q \<noteq> q" using \<open>q \<noteq> []\<close> by (metis append_butlast_last_id not_Cons_self2 self_append_conv)
  then show ?thesis
    using assms \<open>q \<noteq> []\<close> by (auto simp: moves_def well_formed_def content_def node_set)
qed

lemma keeps_make_directory:
  assumes "p \<in> P" "q \<in> set (parents p)"
  shows "keeps (moves P) (make_directory q)"
proof -
  have "keeps (moves P) (\<lambda>d. if node d q = None \<and> is_directory (node d (butlast q))
      then (Inr (), (set_node q (Directory (dk_fresh d)) d)\<lparr>dk_fresh := dk_fresh d + 1\<rparr>) else (Inl OSError, d))"
    unfolding keeps_def using assms by (auto intro: moves_set_directory moves_refl split: if_splits)
  from keeps_faulty[OF this] show ?thesis
    unfolding keeps_def make_directory_def using moves_refl by (auto split: if_splits)
qed

lemma keeps_make_directories:
  assumes "p \<in> P" "set qs \<subseteq> set (parents p)"
  shows "keeps (moves P) (make_directories qs)"
  using assms(2)
  by (induction qs) (auto intro!: keeps_moves_bind keeps_moves_pure keeps_make_directory[OF assms(1)])

lemma keeps_replace_file: "p \<in> P \<Longrightarrow> keeps (moves P) (replace_file p b)"
  unfolding replace_file_def
proof (rule keeps_faulty)
  assume p: "p \<in> P"
  have "moves P d (set_node p (Regular b) d)"
    if "p \<noteq> []" "\<not> is_directory (node d p)" "is_directory (node d (butlast p))" for d
  proof -
    have n: "node (set_node p (Regular b) d) r = (if r = p then Some (Regular b) else node d r)" for r
      using that(1) by (simp add: node_set)
    have "butlast p \<noteq> p" using that(1) by (metis append_butlast_last_id not_Cons_self2 self_append_conv)
    moreover have "butlast r \<noteq> p" if "well_formed d" "r \<noteq> []" "node d r \<noteq> None" for r
      using that \<open>\<not> is_directory (node d p)\<close> by (auto simp: well_formed_def)
    ultimately show ?thesis
      using that p by (auto simp: moves_def well_formed_def content_def n)
  qed
  then show "keeps (moves P) (\<lambda>d. if p = [] \<or> is_directory (node d p) \<or> \<not> is_directory (node d (butlast p)) then (Inl OSError, d)
     else (Inr (), set_node p (Regular b) d))"
    unfolding keeps_def by (auto intro: moves_refl split: if_splits)
qed

lemma keeps_unlink_file: "p \<in> P \<Longrightarrow> keeps (moves P) (unlink_file p)"
  unfolding unlink_file_def
proof (rule keeps_faulty)
  assume p: "p \<in> P"
  have drop: "moves P d (drop_node p d)" if "node d p = Some n" "\<not> is_directory (Some n)" for d n
  proof -
    have "p \<noteq> []" using that by auto
    then have nd: "node (drop_node p d) r = (if r = p then None else node d r)" for r
      by (simp add: node_drop)
    have "butlast r \<noteq> p" if "well_formed d" "r \<noteq> []" "node d r \<noteq> None" for r
      using that \<open>node d p = Some n\<close> \<open>\<not> is_directory (Some n)\<close> by (auto simp: well_formed_def)
    then show ?thesis
      using that p by (auto simp: moves_def well_formed_def content_def nd)
  qed
  show "keeps (moves P) (\<lambda>d. case node d p of
       None \<Rightarrow> if list_ex (\<lambda>q. is_regular (node d q)) (parents p) then (Inl OSError, d) else (Inr (), d)
     | Some (Directory _) \<Rightarrow> (Inl OSError, d)
     | Some _ \<Rightarrow> (Inr (), drop_node p d))"
    unfolding keeps_def
  proof (intro allI impI)
    fix d r d'
    assume run: "(case node d p of
       None \<Rightarrow> if list_ex (\<lambda>q. is_regular (node d q)) (parents p) then (Inl OSError, d) else (Inr (), d)
     | Some (Directory _) \<Rightarrow> (Inl OSError, d)
     | Some _ \<Rightarrow> (Inr (), drop_node p d)) = (r, d')"
    show "moves P d d'"
    proof (cases "node d p")
      case None
      with run show ?thesis by (auto intro: moves_refl split: if_splits)
    next
      case (Some n)
      with run drop[OF Some] show ?thesis by (cases n) (auto intro: moves_refl)
    qed
  qed
qed

lemma keeps_current: "keeps (moves P) (current p)"
  unfolding current_def by (intro keeps_faulty keeps_moves_pure(4))

lemma keeps_stat_mode: "keeps (moves P) (stat_mode p)"
  unfolding stat_mode_def by (intro keeps_faulty keeps_moves_pure(4))

lemma keeps_apply_content: "p \<in> P \<Longrightarrow> keeps (moves P) (apply_content p b)"
  unfolding apply_content_def write_bytes_def
  by (cases b) (auto intro!: keeps_moves_bind keeps_moves_pure keeps_unlink_file keeps_replace_file keeps_make_directories keeps_stat_mode)

text \<open>Removing an empty directory is no move, but it changes no content either.\<close>

definition same_contents :: "'x disk_scheme \<Rightarrow> 'x disk_scheme \<Rightarrow> bool" where
  "same_contents d d' \<longleftrightarrow> content d' = content d \<and> set (dk_faults d') \<subseteq> set (dk_faults d)"

lemma same_contents_refl: "same_contents d d"
  by (simp add: same_contents_def)

lemma same_contents_trans: "same_contents a b \<Longrightarrow> same_contents b c \<Longrightarrow> same_contents a c"
  by (auto simp: same_contents_def)

lemma keeps_remove_directory: "keeps same_contents (remove_directory p)"
  unfolding remove_directory_def
proof (rule keeps_faulty_any[where R = same_contents, OF same_contents_trans])
  show "same_contents d (d\<lparr>dk_faults := fs\<rparr>)" if "set fs \<subseteq> set (dk_faults d)" for d fs
    using that by (simp add: same_contents_def fun_eq_iff)
  show "keeps same_contents (\<lambda>d. case node d p of
         None \<Rightarrow> (Inr (), d)
       | Some (Directory _) \<Rightarrow>
           if p = [] \<or> list_ex (\<lambda>(q, n). q \<noteq> [] \<and> butlast q = p) (dk_nodes d) then (Inl OSError, d)
           else (Inr (), drop_node p d)
       | Some _ \<Rightarrow> (Inl OSError, d))"
    unfolding keeps_def
    by (auto simp: same_contents_def fun_eq_iff content_def node_drop split: option.splits disk_node.splits if_splits)
qed

lemma keeps_remove_directories: "keeps same_contents (remove_directories ps)"
proof (induction ps)
  case (Cons p ps)
  have "keeps same_contents (catching (remove_directory p) (\<lambda>_. return_prog ()))"
    by (rule keeps_catching_any[OF same_contents_trans keeps_remove_directory])
      (auto intro: keeps_pure[where R = same_contents, OF same_contents_refl])
  with Cons show ?case by (auto intro: keeps_bind[where R = same_contents, OF same_contents_trans])
qed (auto intro: keeps_pure[where R = same_contents, OF same_contents_refl])

end
