(* ===== verification/File_Transaction_Runs.thy ===== *)
theory File_Transaction_Runs
  imports File_Safety
begin

text \<open>
  What the phases of a file transaction reach: the preflight establishes the recorded contents, the
  writing loop leaves a prefix of the changes attempted, and undoing a change without faults brings
  its recorded content back.
\<close>

section \<open>Operations that only look\<close>

definition still :: "'x disk_scheme \<Rightarrow> 'x disk_scheme \<Rightarrow> bool" where
  "still d d' \<longleftrightarrow> dk_nodes d' = dk_nodes d \<and> set (dk_faults d') \<subseteq> set (dk_faults d)"

lemma still_refl: "still d d"
  by (simp add: still_def)

lemma still_trans: "still a b \<Longrightarrow> still b c \<Longrightarrow> still a c"
  by (auto simp: still_def)

lemma still_node: "still d d' \<Longrightarrow> node d' p = node d p"
  by (simp add: still_def node_def)

lemma still_content: "still d d' \<Longrightarrow> content d' = content d"
  by (rule ext) (simp add: still_node content_def)

lemma still_look: "still d d' \<Longrightarrow> look p d' = look p d"
  by (simp add: look_def still_node)

lemma still_refuse: "still d d' \<Longrightarrow> refuse_symlink_path p d' = refuse_symlink_path p d"
  by (simp add: refuse_symlink_path_def still_node)

lemma still_moves: "still d d' \<Longrightarrow> moves P d d'"
  by (simp add: moves_def still_node still_content well_formed_def) (simp add: still_def)

lemmas keeps_still_bind = keeps_bind[where R = still, OF still_trans]
lemmas keeps_still_pure = keeps_pure[where R = still, OF still_refl]

lemma keeps_still_moves: "keeps still m \<Longrightarrow> keeps (moves P) m"
  unfolding keeps_def using still_moves by blast

lemma keeps_still_faulty: "keeps still (faulty (\<lambda>d. (g d, d)))"
  unfolding keeps_def
proof (intro allI impI)
  fix d r d' assume "faulty (\<lambda>d. (g d, d)) d = (r, d')"
  then show "still d d'"
    by (cases rule: faulty_cases) (auto simp: still_def)
qed

lemma keeps_still_catching:
  assumes "keeps still m" "\<And>e. keeps still (h e)"
  shows "keeps still (catching m h)"
  unfolding keeps_def
proof (intro allI impI)
  fix d r d' assume "catching m h d = (r, d')"
  then show "still d d'"
    by (cases rule: catching_cases) (use assms in \<open>auto dest: keepsD intro: still_trans\<close>)
qed

lemma keeps_still_current: "keeps still (current p)"
  unfolding current_def by (rule keeps_still_faulty)

lemmas keeps_still = keeps_still_bind keeps_still_pure keeps_still_catching keeps_still_current keeps_still_faulty

lemma keeps_still_verify: "keeps still (verify_changes cs)"
  by (induction cs) (auto intro!: keeps_still)

lemma keeps_still_ready: "keeps still hook \<Longrightarrow> keeps still (ready_to_change hook c)"
  unfolding ready_to_change_def by (auto intro!: keeps_still)

lemma keeps_still_surviving: "keeps still (surviving_files cs)"
  by (induction cs) (auto intro!: keeps_still)

lemma keeps_still_validate_files: "keeps still (validate_files fs)"
proof (induction fs)
  case (Cons f fs)
  then show ?case by (cases f) (auto intro!: keeps_still)
qed (auto intro!: keeps_still)

lemma keeps_still_validate_directories: "keeps still (validate_directories ds)"
proof (induction ds)
  case (Cons f ds)
  then show ?case by (cases f) (auto intro!: keeps_still)
qed (auto intro!: keeps_still)

lemma keeps_still_validate_dependencies: "keeps still (validate_dependencies plan)"
  unfolding validate_dependencies_def
  by (auto intro!: keeps_still_bind keeps_still_validate_files keeps_still_validate_directories)

lemma keeps_undo_change:
  assumes "keeps still hook"
  shows "keeps (moves {fc_path c}) (undo_change hook c)"
  unfolding undo_change_def
  using keeps_still_moves[OF assms]
  by (intro keeps_catching keeps_moves_bind keeps_if keeps_moves_pure keeps_current keeps_apply_content) auto

lemma keeps_undo_changes:
  assumes "keeps still hook"
  shows "keeps (moves (fc_path ` set cs)) (undo_changes hook cs)"
proof (induction cs)
  case Nil
  then show ?case by (auto intro!: keeps_moves_pure)
next
  case (Cons c cs)
  have "keeps (moves (fc_path ` set (c # cs))) (undo_change hook c)"
    by (rule keeps_mono[OF keeps_undo_change[OF assms]]) simp
  moreover have "keeps (moves (fc_path ` set (c # cs))) (undo_changes hook cs)"
    by (rule keeps_mono[OF Cons.IH]) auto
  ultimately show ?case by (auto intro!: keeps_moves_bind)
qed

section \<open>Exceptions\<close>

definition fault_errors :: "'x disk_scheme \<Rightarrow> exn set" where
  "fault_errors d = {e. \<exists>f \<in> set (dk_faults d). fault_raises f e}"

lemma fault_errors_still: "still d d' \<Longrightarrow> fault_errors d' \<subseteq> fault_errors d"
  by (auto simp: still_def fault_errors_def)

lemma fault_errors_moves: "moves P d d' \<Longrightarrow> fault_errors d' \<subseteq> fault_errors d"
  by (auto simp: moves_def fault_errors_def)

lemma look_error: "look p d = Inl e \<Longrightarrow> e = OSError"
  by (auto simp: look_def split: option.splits disk_node.splits if_splits)

lemma current_cases:
  assumes "current p d = (r, d')"
  obtains (seen) x where "r = Inr x" "look p d = Inr x" "still d d'"
    | (failed) e where "r = Inl e" "e = OSError \<or> e \<in> fault_errors d" "still d d'"
proof -
  have st: "still d d'" using keepsD[OF keeps_still_current assms] .
  from assms have run: "faulty (\<lambda>d. (look p d, d)) d = (r, d')" by (simp add: current_def)
  then have "r = look p d \<or> (\<exists>e \<in> fault_errors d. r = Inl e)"
  proof (cases rule: faulty_cases)
    case (fault f fs)
    from fault(3) show ?thesis
    proof
      assume "(r, d') = (look p (d\<lparr>dk_faults := fs\<rparr>), d\<lparr>dk_faults := fs\<rparr>)"
      then show ?thesis by (simp add: look_def)
    next
      assume "\<exists>e. r = Inl e \<and> fault_raises f e"
      then show ?thesis using fault(1) by (auto simp: fault_errors_def)
    qed
  qed auto
  then show ?thesis
  proof
    assume r: "r = look p d"
    show ?thesis
    proof (cases r)
      case (Inl e)
      with r look_error[of p d e] st failed show ?thesis by metis
    next
      case (Inr x)
      with r st seen show ?thesis by metis
    qed
  next
    assume "\<exists>e \<in> fault_errors d. r = Inl e"
    then show ?thesis using st failed by blast
  qed
qed

lemma undo_change_errors:
  assumes "undo_change hook c d = (Inl e, d')" "keeps still hook"
  shows "e \<in> fault_errors d"
  using assms(1) unfolding undo_change_def
proof (cases rule: catching_cases)
  case (raised e1 d1)
  let ?m = "bind_prog hook (\<lambda>_. bind_prog (current (fc_path c)) (\<lambda>now.
        if now = fc_before c then return_prog () else if now \<noteq> fc_after c then raise_prog OSError
        else apply_content (fc_path c) (fc_before c)))"
  have "keeps (moves {fc_path c}) ?m"
    using keeps_still_moves[OF assms(2)]
    by (intro keeps_moves_bind keeps_if keeps_moves_pure keeps_current keeps_apply_content) auto
  then have sub: "fault_errors d1 \<subseteq> fault_errors d"
    using raised(1) by (auto dest!: keepsD fault_errors_moves)
  from raised(2) show ?thesis
  proof (cases rule: catching_cases)
    case (raised e2 d2)
    from raised(1) have "current (fc_path c) d1 = (Inl e2, d2)"
      by (cases "current (fc_path c) d1"; cases "fst (current (fc_path c) d1)")
        (auto simp: bind_prog_def return_prog_def)
    then have "e2 = OSError \<or> e2 \<in> fault_errors d1" by (cases rule: current_cases) auto
    with raised(2) sub show ?thesis by (auto simp: return_prog_def raise_prog_def split: if_splits)
  qed simp
qed simp

lemma undo_changes_errors:
  assumes "undo_changes hook cs d = (Inl e, d')" "keeps still hook"
  shows "e \<in> fault_errors d"
  using assms(1)
proof (induction cs arbitrary: d)
  case (Cons c cs)
  then have "bind_prog (undo_change hook c) (\<lambda>_. undo_changes hook cs) d = (Inl e, d')" by simp
  then show ?case
  proof (cases rule: bind_prog_cases)
    case (1 e')
    then show ?thesis using undo_change_errors[OF _ assms(2)] by auto
  next
    case (2 x d1)
    from keepsD[OF keeps_undo_change[OF assms(2)] 2(1)] have "fault_errors d1 \<subseteq> fault_errors d"
      by (rule fault_errors_moves)
    with Cons.IH[OF 2(2)] show ?thesis by blast
  qed
qed (simp add: return_prog_def)

lemma remove_directories_returns: "fst (remove_directories ps d) = Inr ()"
proof (induction ps arbitrary: d)
  case (Cons p ps)
  show ?case
    by (cases "remove_directory p d"; cases "fst (remove_directory p d)")
      (auto simp: bind_prog_def catching_def return_prog_def Cons.IH)
qed (simp add: return_prog_def)

section \<open>The survivors\<close>

lemma surviving_files_sound:
  assumes "surviving_files cs d = (r, d')"
  shows "(\<exists>e. r = Inl e \<and> e \<in> fault_errors d) \<or>
    (\<exists>ps. r = Inr ps \<and> (\<forall>c \<in> set cs. content d (fc_path c) \<noteq> fc_before c \<longrightarrow> fc_path c \<in> set ps))"
  using assms
proof (induction cs arbitrary: d r d')
  case Nil
  then show ?case by (auto simp: return_prog_def)
next
  case (Cons c cs)
  let ?one = "catching (bind_prog (current (fc_path c)) (\<lambda>now. return_prog (now \<noteq> fc_before c)))
                  (\<lambda>e. if is_os_error e then return_prog True else raise_prog e)"
  obtain r1 d1 where one: "?one d = (r1, d1)" by fastforce
  have "keeps still ?one" by (auto intro!: keeps_still)
  from keepsD[OF this one] have st: "still d d1" .
  obtain rc dc where cur: "current (fc_path c) d = (rc, dc)" by fastforce
  have first: "(\<exists>e \<in> fault_errors d. r1 = Inl e) \<or>
      (\<exists>b. r1 = Inr b \<and> (content d (fc_path c) \<noteq> fc_before c \<longrightarrow> b))"
    using cur
  proof (cases rule: current_cases)
    case (seen x)
    with cur one look_content[of "fc_path c" d x] show ?thesis
      by (auto simp: catching_def bind_prog_def return_prog_def)
  next
    case (failed e)
    with cur one show ?thesis
      by (auto simp: catching_def bind_prog_def return_prog_def raise_prog_def split: if_splits)
  qed
  obtain r2 d2 where two: "surviving_files cs d1 = (r2, d2)" by fastforce
  note rest = Cons.IH[OF two]
  have run: "(r, d') = bind_prog ?one (\<lambda>survives. bind_prog (surviving_files cs) (\<lambda>rest.
      return_prog (if survives then fc_path c # rest else rest))) d"
    using Cons.prems by simp
  show ?case
  proof (cases r1)
    case (Inl e)
    with first run one show ?thesis by (auto simp: bind_prog_def)
  next
    case (Inr b)
    note b = this
    show ?thesis
    proof (cases r2)
      case (Inl e)
      with rest have "e \<in> fault_errors d" using fault_errors_still[OF st] by auto
      with run one b two Inl show ?thesis by (simp add: bind_prog_def)
    next
      case (Inr ps)
      then have r: "r = Inr (if b then fc_path c # ps else ps)"
        using run one b two by (simp add: bind_prog_def return_prog_def)
      from rest Inr still_content[OF st]
      have "\<forall>x \<in> set cs. content d (fc_path x) \<noteq> fc_before x \<longrightarrow> fc_path x \<in> set ps" by auto
      with r first b show ?thesis by auto
    qed
  qed
qed

section \<open>The preflight and the writing loop\<close>

definition recorded :: "disk \<Rightarrow> file_change \<Rightarrow> bool" where
  "recorded d c \<longleftrightarrow> look (fc_path c) d = Inr (fc_before c) \<and> refuse_symlink_path (fc_path c) d = Inr ()"

lemma recorded_content: "recorded d c \<Longrightarrow> content d (fc_path c) = fc_before c"
  by (simp add: recorded_def look_content)

lemma recorded_still: "still d d' \<Longrightarrow> recorded d' c = recorded d c"
  by (simp add: recorded_def still_look still_refuse)

lemma verify_changes_recorded:
  assumes "verify_changes cs d = (Inr u, d')"
  shows "\<forall>c \<in> set cs. recorded d c"
  using assms
proof (induction cs arbitrary: d)
  case (Cons c cs)
  let ?look = "bind_prog (lift_result (refuse_symlink_path (fc_path c))) (\<lambda>_. current (fc_path c))"
  let ?one = "catching ?look (\<lambda>e. raise_prog (if is_os_error e then FileTransactionError [] else e))"
  from Cons.prems obtain now d1 where one: "?one d = (Inr now, d1)"
    and rest: "(if now \<noteq> fc_before c then raise_prog (FileTransactionError []) else verify_changes cs) d1 = (Inr u, d')"
    by (auto elim: bind_prog_cases)
  from one have look: "?look d = (Inr now, d1)" by (cases rule: catching_cases) (auto simp: raise_prog_def)
  then obtain d0 where ref: "lift_result (refuse_symlink_path (fc_path c)) d = (Inr (), d0)" and cur: "current (fc_path c) d0 = (Inr now, d1)"
    by (auto elim: bind_prog_cases)
  then have d0: "d0 = d" "refuse_symlink_path (fc_path c) d = Inr ()" by (auto simp: lift_result_def)
  from cur have seen: "look (fc_path c) d = Inr now" "still d d1" unfolding d0 by (cases rule: current_cases; simp)+
  from rest have now: "now = fc_before c" "verify_changes cs d1 = (Inr u, d')" by (auto simp: raise_prog_def split: if_splits)
  from Cons.IH[OF now(2)] have "\<forall>x \<in> set cs. recorded d x" using recorded_still[OF seen(2)] by simp
  with seen now d0 show ?case by (simp add: recorded_def)
qed simp

lemma run_changes_failed:
  assumes "run_changes hook cs att d = ((Some e, att'), d')" "keeps still hook"
  shows "\<exists>don rest. cs = don @ rest \<and> att' = att @ don \<and> moves (fc_path ` set don) d d'"
  using assms(1)
proof (induction cs arbitrary: att d)
  case (Cons c cs)
  obtain r1 d1 where ready: "ready_to_change hook c d = (r1, d1)" by fastforce
  then have st: "still d d1" using keepsD[OF keeps_still_ready[OF assms(2)]] by blast
  show ?case
  proof (cases r1)
    case (Inl e1)
    with Cons.prems ready still_moves[OF st] show ?thesis by auto
  next
    case (Inr u)
    obtain r2 d2 where app: "apply_content (fc_path c) (fc_after c) d1 = (r2, d2)" by fastforce
    have mv: "moves {fc_path c} d d2"
      using moves_trans[OF still_moves[OF st] keepsD[OF keeps_apply_content[of "fc_path c" "{fc_path c}"] app]] by simp
    show ?thesis
    proof (cases r2)
      case (Inl e2)
      with Cons.prems ready Inr app mv have "c # cs = [c] @ cs \<and> att' = att @ [c] \<and> moves (fc_path ` set [c]) d d'"
        by simp
      then show ?thesis by blast
    next
      case (Inr u2)
      with Cons.prems ready \<open>r1 = Inr u\<close> app have "run_changes hook cs (att @ [c]) d2 = ((Some e, att'), d')" by simp
      from Cons.IH[OF this] obtain don rest where ih: "cs = don @ rest" "att' = (att @ [c]) @ don" "moves (fc_path ` set don) d2 d'"
        by blast
      have "moves (fc_path ` set (c # don)) d d'"
        by (rule moves_trans[OF moves_mono[OF mv] moves_mono[OF ih(3)]]) auto
      with ih show ?thesis by (intro exI[of _ "c # don"] exI[of _ rest]) simp
    qed
  qed
qed simp

section \<open>A single change\<close>

text \<open>Whatever happens, the file ends with what it had or with what it was given.\<close>

definition either_content :: "path \<Rightarrow> string option \<Rightarrow> 'x disk_scheme \<Rightarrow> 'x disk_scheme \<Rightarrow> bool" where
  "either_content p b d d' \<longleftrightarrow> content d' p = content d p \<or> content d' p = b"

lemma either_refl: "either_content p b d d"
  by (simp add: either_content_def)

lemma either_trans: "either_content p b d e \<Longrightarrow> either_content p b e f \<Longrightarrow> either_content p b d f"
  by (auto simp: either_content_def)

lemma either_faults: "set fs \<subseteq> set (dk_faults d) \<Longrightarrow> either_content p b d (d\<lparr>dk_faults := fs\<rparr>)"
  by (simp add: either_content_def)

lemmas keeps_either_bind = keeps_bind[where R = "either_content p b" for p b, OF either_trans]
lemmas keeps_either_pure = keeps_pure[where R = "either_content p b" for p b, OF either_refl]
lemma keeps_either_faulty: "keeps (either_content p b) m \<Longrightarrow> keeps (either_content p b) (faulty m)"
  by (rule keeps_faulty_any) (auto intro: either_trans either_faults)

lemma keeps_either_make_directory: "keeps (either_content p b) (make_directory q)"
proof -
  have "keeps (either_content p b) (\<lambda>d. if node d q = None \<and> is_directory (node d (butlast q))
      then (Inr (), (set_node q (Directory (dk_fresh d)) d)\<lparr>dk_fresh := dk_fresh d + 1\<rparr>) else (Inl OSError, d))"
    unfolding keeps_def by (auto simp: either_content_def content_def node_set split: if_splits)
  from keeps_either_faulty[OF this] show ?thesis
    unfolding keeps_def make_directory_def using either_refl by (auto split: if_splits)
qed

lemma keeps_either_make_directories: "keeps (either_content p b) (make_directories qs)"
  by (induction qs) (auto intro!: keeps_either_bind keeps_either_pure keeps_either_make_directory)

lemma keeps_either_apply: "keeps (either_content p b) (apply_content p b)"
proof (cases b)
  case None
  have "keeps (either_content p None) (unlink_file p)"
    unfolding unlink_file_def
    by (rule keeps_either_faulty)
      (auto simp: keeps_def either_content_def content_def node_drop split: option.splits disk_node.splits if_splits)
  with None show ?thesis
    unfolding apply_content_def by (auto intro!: keeps_either_bind keeps_either_pure)
next
  case (Some x)
  have "keeps (either_content p (Some x)) (replace_file p x)"
    unfolding replace_file_def
    by (rule keeps_either_faulty) (auto simp: keeps_def either_content_def content_def node_set split: if_splits)
  moreover have "keeps (either_content p (Some x)) (stat_mode p)"
    unfolding stat_mode_def by (intro keeps_either_faulty keeps_either_pure(4))
  ultimately show ?thesis
    unfolding apply_content_def write_bytes_def Some
    by (auto intro!: keeps_either_bind keeps_either_pure keeps_either_make_directories)
qed

lemma faulty_Inr:
  assumes "faulty m d = (Inr x, d')"
  obtains fs where "m (d\<lparr>dk_faults := fs\<rparr>) = (Inr x, d')"
  using assms
proof (cases rule: faulty_cases)
  case calm
  then have "d\<lparr>dk_faults := []\<rparr> = d" by simp
  with calm that[of "[]"] show ?thesis by simp
next
  case (fault f fs)
  with that[of fs] show ?thesis by auto
qed

lemma apply_content_done:
  assumes "apply_content p b d = (Inr u, d')"
  shows "content d' p = b"
proof (cases b)
  case None
  with assms have "unlink_file p d = (Inr u, d')" by (auto simp: apply_content_def lift_result_def elim: bind_prog_cases)
  then show ?thesis
    unfolding unlink_file_def None
    by (elim faulty_Inr) (auto simp: content_def node_drop split: option.splits disk_node.splits if_splits)
next
  case (Some x)
  with assms obtain d1 where "replace_file p x d1 = (Inr u, d')"
    by (auto simp: apply_content_def write_bytes_def elim!: bind_prog_cases)
  then show ?thesis
    unfolding replace_file_def Some
    by (elim faulty_Inr) (auto simp: content_def node_set split: if_splits)
qed

section \<open>The writing loop on distinct paths\<close>

lemma ready_to_change_seen:
  assumes "ready_to_change hook c d = (Inr u, d')" "keeps still hook"
  shows "content d' (fc_path c) = fc_before c"
proof -
  from assms(1) obtain d0 now d1 where cur: "current (fc_path c) d0 = (Inr now, d1)"
    and rest: "(if now \<noteq> fc_before c then raise_prog OSError else return_prog ()) d1 = (Inr u, d')"
    unfolding ready_to_change_def by (auto elim!: bind_prog_cases)
  from rest have "now = fc_before c" "d' = d1" by (auto simp: raise_prog_def return_prog_def split: if_splits)
  moreover have "look (fc_path c) d0 = Inr now" "still d0 d1" using cur by (cases rule: current_cases; simp)+
  ultimately show ?thesis by (simp add: still_content look_content)
qed

text \<open>After an attempted write the file holds the old or the new content; later writes go elsewhere.\<close>

lemma run_changes_between:
  assumes "run_changes hook cs att d = ((Some e, att'), d')" "keeps still hook" "distinct (map fc_path cs)"
  shows "\<forall>c \<in> set (drop (length att) att'). content d' (fc_path c) \<in> {fc_before c, fc_after c}"
  using assms(1,3)
proof (induction cs arbitrary: att d)
  case (Cons c cs)
  obtain r1 d1 where ready: "ready_to_change hook c d = (r1, d1)" by fastforce
  show ?case
  proof (cases r1)
    case (Inl e1)
    with Cons.prems ready show ?thesis by auto
  next
    case (Inr u)
    note seen = ready_to_change_seen[OF ready[unfolded Inr] assms(2)]
    obtain r2 d2 where app: "apply_content (fc_path c) (fc_after c) d1 = (r2, d2)" by fastforce
    have c: "content d2 (fc_path c) \<in> {fc_before c, fc_after c}"
      using keepsD[OF keeps_either_apply app] seen by (auto simp: either_content_def)
    show ?thesis
    proof (cases r2)
      case (Inl e2)
      with Cons.prems ready Inr app have "att' = att @ [c]" "d2 = d'" by simp_all
      with c show ?thesis by auto
    next
      case (Inr u2)
      with Cons.prems ready \<open>r1 = Inr u\<close> app have run: "run_changes hook cs (att @ [c]) d2 = ((Some e, att'), d')" by simp
      from run_changes_failed[OF run assms(2)] obtain don rest
        where don: "cs = don @ rest" "att' = (att @ [c]) @ don" "moves (fc_path ` set don) d2 d'" by blast
      have "fc_path c \<notin> fc_path ` set don" using Cons.prems(2) don(1) by auto
      with don(3) c have "content d' (fc_path c) \<in> {fc_before c, fc_after c}" by (simp add: moves_def)
      with Cons.IH[OF run] Cons.prems(2) don(2) show ?thesis by auto
    qed
  qed
qed simp

lemma run_changes_done:
  assumes "run_changes hook cs att d = ((None, att'), d')" "keeps still hook" "distinct (map fc_path cs)"
  shows "(\<forall>c \<in> set cs. content d' (fc_path c) = fc_after c) \<and> moves (fc_path ` set cs) d d'"
  using assms(1,3)
proof (induction cs arbitrary: att d)
  case Nil
  then show ?case by (simp add: moves_refl)
next
  case (Cons c cs)
  obtain r1 d1 where ready: "ready_to_change hook c d = (r1, d1)" by fastforce
  obtain r2 d2 where app: "apply_content (fc_path c) (fc_after c) d1 = (r2, d2)" by fastforce
  from Cons.prems ready app have r: "r1 = Inr ()" "r2 = Inr ()"
    and run: "run_changes hook cs (att @ [c]) d2 = ((None, att'), d')" by (auto split: sum.splits)
  have mv: "moves {fc_path c} d d2"
    using moves_trans[OF still_moves[OF keepsD[OF keeps_still_ready[OF assms(2)] ready]]
        keepsD[OF keeps_apply_content[of "fc_path c" "{fc_path c}"] app]] by simp
  from Cons.IH[OF run] Cons.prems(2) have ih: "\<forall>x \<in> set cs. content d' (fc_path x) = fc_after x"
    "moves (fc_path ` set cs) d2 d'" by auto
  have "content d' (fc_path c) = content d2 (fc_path c)" using ih(2) Cons.prems(2) by (simp add: moves_def)
  also have "\<dots> = fc_after c" using apply_content_done app r by blast
  finally have "content d' (fc_path c) = fc_after c" .
  moreover have "moves (fc_path ` set (c # cs)) d d'"
    by (rule moves_trans[OF moves_mono[OF mv] moves_mono[OF ih(2)]]) auto
  ultimately show ?case using ih(1) by simp
qed

section \<open>Undoing without faults\<close>

lemma make_directories_present:
  "\<forall>q \<in> set qs. is_directory (node d q) \<Longrightarrow> make_directories qs d = (Inr (), d)"
  by (induction qs) (simp_all add: make_directory_def bind_prog_def return_prog_def)

lemma lift_refuse: "refuse_symlink_path p d = Inr () \<Longrightarrow> lift_result (refuse_symlink_path p) d = (Inr (), d)"
  by (simp add: lift_result_def)

lemma calm_apply_content:
  assumes "dk_faults d = []" "refuse_symlink_path p d = Inr ()" "look p d = Inr now" "now \<noteq> b"
    and "\<And>x. b = Some x \<Longrightarrow> p \<noteq> [] \<and> (\<forall>q \<in> set (parents p). is_directory (node d q)) \<and> \<not> is_directory (node d p)"
  shows "\<exists>d'. apply_content p b d = (Inr (), d') \<and> content d' p = b"
proof (cases b)
  case None
  with assms(3,4) obtain y where y: "node d p = Some (Regular y)"
    by (auto simp: look_def split: option.splits disk_node.splits if_splits)
  with assms(1,2) None have "apply_content p b d = (Inr (), drop_node p d)"
    by (simp add: apply_content_def bind_prog_def lift_refuse unlink_file_def faulty_calm)
  then show ?thesis using apply_content_done by blast
next
  case (Some x)
  with assms(5) have s: "p \<noteq> []" "\<forall>q \<in> set (parents p). is_directory (node d q)" "\<not> is_directory (node d p)" by auto
  then have "butlast p \<in> set (parents p)"
    by (auto simp: parents_iff) (metis append_butlast_last_id not_Cons_self2)
  with s have par: "is_directory (node d (butlast p))" by blast
  have noreg: "\<not> list_ex (\<lambda>q. is_regular (node d q)) (parents p)"
  proof
    assume "list_ex (\<lambda>q. is_regular (node d q)) (parents p)"
    then obtain q where "q \<in> set (parents p)" "is_regular (node d q)" by (auto simp: list_ex_iff)
    with s(2) show False by (cases "node d q" rule: is_regular.cases) auto
  qed
  have "apply_content p b d = (Inr (), set_node p (Regular x) d)"
    using assms(1,2) Some s par noreg
    by (simp add: apply_content_def write_bytes_def bind_prog_def lift_refuse stat_mode_def check_that_def
        faulty_calm make_directories_present replace_file_def)
  then show ?thesis using apply_content_done by blast
qed

text \<open>What the preflight saw of a change still holds where it is needed to bring the content back.\<close>

lemma recorded_later:
  assumes "well_formed d0" "recorded d0 c" "moves P d0 d" "\<forall>p \<in> P. \<exists>x. look p d0 = Inr x" "fc_before c = Some x"
  shows "fc_path c \<noteq> []" "\<forall>q \<in> set (parents (fc_path c)). is_directory (node d q)" "\<not> is_directory (node d (fc_path c))"
proof -
  let ?p = "fc_path c"
  have reg: "node d0 ?p = Some (Regular x)"
    using assms(2,5) by (auto simp: recorded_def look_def split: option.splits disk_node.splits if_splits)
  then show "?p \<noteq> []" by auto
  show "\<forall>q \<in> set (parents ?p). is_directory (node d q)"
  proof
    fix q assume "q \<in> set (parents ?p)"
    then obtain r where r: "r \<noteq> []" "?p = q @ r" by (auto simp: parents_iff)
    with ancestors_directories[OF assms(1), of q r] reg have "is_directory (node d0 q)" by simp
    with assms(3) show "is_directory (node d q)" by (simp add: moves_def)
  qed
  show "\<not> is_directory (node d ?p)"
  proof
    assume "is_directory (node d ?p)"
    with assms(3) reg obtain p' where p': "p' \<in> P" "?p \<in> set (parents p')" by (auto simp: moves_def)
    then obtain r where r: "r \<noteq> []" "p' = ?p @ r" by (auto simp: parents_iff)
    have "node d0 p' = None"
    proof (rule ccontr)
      assume "node d0 p' \<noteq> None"
      with ancestors_directories[OF assms(1), of ?p r] r reg show False by simp
    qed
    moreover have "list_ex (\<lambda>q. is_regular (node d0 q)) (parents p')"
      using p'(2) reg unfolding list_ex_iff by (metis is_regular.simps(1))
    ultimately have "look p' d0 = Inl OSError" by (simp add: look_def)
    with p'(1) assms(4) show False by auto
  qed
qed

lemma refuse_later:
  assumes "refuse_symlink_path p d0 = Inr ()" "moves P d0 d"
  shows "refuse_symlink_path p d = Inr ()"
  using assms unfolding refuse_symlink_path_def moves_def
  by (auto simp: check_that_def list_ex_iff split: if_splits)

lemma undo_change_restores:
  assumes d0: "well_formed d0" "recorded d0 c" "moves P d0 d" "\<forall>p \<in> P. \<exists>x. look p d0 = Inr x"
    and calm: "dk_faults d = []" and now: "content d (fc_path c) \<in> {fc_before c, fc_after c}"
  shows "\<exists>d'. undo_change (return_prog ()) c d = (Inr (), d') \<and> content d' (fc_path c) = fc_before c"
proof -
  let ?p = "fc_path c"
  have cur: "current ?p d = (look ?p d, d)" using calm by (simp add: current_def faulty_calm)
  have ref: "refuse_symlink_path ?p d = Inr ()" using d0(2,3) refuse_later by (auto simp: recorded_def)
  note later = recorded_later[OF d0]
  show ?thesis
  proof (cases "look ?p d")
    case (Inl e)
    then have e: "e = OSError" by (rule look_error)
    have "content d ?p = None"
      using Inl by (auto simp: look_def content_def split: option.splits disk_node.splits if_splits)
    moreover have "fc_before c = None"
    proof (rule ccontr)
      assume "fc_before c \<noteq> None"
      then obtain x where x: "fc_before c = Some x" by auto
      have "node d ?p \<noteq> Some Link" using ref by (auto simp: refuse_symlink_path_def check_that_def split: if_splits)
      then have "node d ?p = None" "list_ex (\<lambda>q. is_regular (node d q)) (parents ?p)"
        using Inl later(3)[OF x] by (auto simp: look_def split: option.splits disk_node.splits if_splits)
      then obtain q where "q \<in> set (parents ?p)" "is_regular (node d q)" by (auto simp: list_ex_iff)
      with later(2)[OF x] show False by (cases "node d q" rule: is_regular.cases) auto
    qed
    moreover have "undo_change (return_prog ()) c d = (Inr (), d)"
      unfolding undo_change_def
      by (simp add: catching_def bind_prog_def return_prog_def cur Inl e)
    ultimately show ?thesis by simp
  next
    case (Inr now)
    then have n: "content d ?p = now" by (rule look_content)
    show ?thesis
    proof (cases "now = fc_before c")
      case True
      with Inr n cur have "undo_change (return_prog ()) c d = (Inr (), d)"
        unfolding undo_change_def by (simp add: catching_def bind_prog_def return_prog_def)
      with n True show ?thesis by simp
    next
      case False
      with now n have "now = fc_after c" by auto
      from calm_apply_content[OF calm ref Inr False] later obtain d'
        where "apply_content ?p (fc_before c) d = (Inr (), d')" "content d' ?p = fc_before c" by blast
      with False \<open>now = fc_after c\<close> Inr cur show ?thesis
        unfolding undo_change_def by (simp add: catching_def bind_prog_def return_prog_def)
    qed
  qed
qed

lemma undo_changes_restore:
  assumes d0: "well_formed d0" "\<forall>p \<in> P. \<exists>x. look p d0 = Inr x"
    and "moves P d0 d" "dk_faults d = []" "\<forall>c \<in> set cs. recorded d0 c \<and> fc_path c \<in> P"
      "\<forall>c \<in> set cs. content d (fc_path c) \<in> {fc_before c, fc_after c}" "distinct (map fc_path cs)"
  shows "\<exists>d'. undo_changes (return_prog ()) cs d = (Inr (), d') \<and> moves (fc_path ` set cs) d d'
    \<and> (\<forall>c \<in> set cs. content d' (fc_path c) = fc_before c)"
  using assms(3-)
proof (induction cs arbitrary: d)
  case Nil
  then show ?case by (simp add: return_prog_def moves_refl)
next
  case (Cons c cs)
  from undo_change_restores[OF d0(1) _ Cons.prems(1) d0(2) Cons.prems(2), of c] Cons.prems
  obtain d1 where one: "undo_change (return_prog ()) c d = (Inr (), d1)" "content d1 (fc_path c) = fc_before c" by auto
  have mv: "moves {fc_path c} d d1"
    by (rule keepsD[OF keeps_undo_change one(1)]) (rule keeps_still_pure)
  have p: "moves P d0 d1"
    by (rule moves_trans[OF Cons.prems(1) moves_mono[OF mv]]) (use Cons.prems(3) in auto)
  have f: "dk_faults d1 = []" using mv Cons.prems(2) by (simp add: moves_def)
  have same: "\<forall>x \<in> set cs. content d1 (fc_path x) = content d (fc_path x)"
  proof
    fix x assume "x \<in> set cs"
    then have "fc_path x \<notin> {fc_path c}" using Cons.prems(5) by (auto simp: rev_image_eqI)
    then show "content d1 (fc_path x) = content d (fc_path x)" by (rule moves_other[OF mv])
  qed
  have "\<forall>x \<in> set cs. content d1 (fc_path x) \<in> {fc_before x, fc_after x}" using same Cons.prems(4) by simp
  moreover have "\<forall>x \<in> set cs. recorded d0 x \<and> fc_path x \<in> P" "distinct (map fc_path cs)"
    using Cons.prems(3,5) by simp_all
  ultimately obtain d2 where two: "undo_changes (return_prog ()) cs d1 = (Inr (), d2)"
    "moves (fc_path ` set cs) d1 d2" "\<forall>x \<in> set cs. content d2 (fc_path x) = fc_before x" using Cons.IH[OF p f] by blast
  have "content d2 (fc_path c) = fc_before c"
    using two(2) one(2) Cons.prems(5) by (simp add: moves_def)
  moreover have "moves (fc_path ` set (c # cs)) d d2"
    by (rule moves_trans[OF moves_mono[OF mv] moves_mono[OF two(2)]]) auto
  moreover have "undo_changes (return_prog ()) (c # cs) d = (Inr (), d2)"
    using one two by (simp add: bind_prog_def)
  moreover from calculation(1) two(3) have "\<forall>x \<in> set (c # cs). content d2 (fc_path x) = fc_before x" by simp
  ultimately show ?case by blast
qed

section \<open>Runs without faults\<close>

lemma make_directories_append:
  "make_directories (xs @ ys) d = bind_prog (make_directories xs) (\<lambda>_. make_directories ys) d"
proof (induction xs arbitrary: d)
  case (Cons x xs)
  show ?case
    by (cases "make_directory x d"; cases "fst (make_directory x d)") (auto simp: bind_prog_def Cons.IH)
qed (simp add: bind_prog_def return_prog_def)

lemma rev_parents: "rev (parents p) = map (\<lambda>i. take i p) [0 ..< length p]"
  by (simp add: parents_def rev_map)

lemma take_not_shorter:
  assumes "n \<le> length p"
  shows "take n p \<notin> (\<lambda>i. take i p) ` {..<n}"
proof
  assume "take n p \<in> (\<lambda>i. take i p) ` {..<n}"
  then obtain i where i: "i < n" "take n p = take i p" by blast
  from arg_cong[OF i(2), of length] i(1) assms show False by simp
qed

lemma calm_make_directories:
  assumes "dk_faults d = []" "\<forall>q \<in> set (parents p). is_directory (node d q) \<or> node d q = None" "n \<le> length p"
  shows "\<exists>d'. make_directories (map (\<lambda>i. take i p) [0 ..< n]) d = (Inr (), d') \<and> dk_faults d' = []
    \<and> (\<forall>i < n. is_directory (node d' (take i p)))
    \<and> (\<forall>q. q \<notin> (\<lambda>i. take i p) ` {..<n} \<longrightarrow> node d' q = node d q)"
  using assms(3)
proof (induction n)
  case 0
  then show ?case using assms(1) by (simp add: return_prog_def)
next
  case (Suc n)
  then obtain d1 where d1: "make_directories (map (\<lambda>i. take i p) [0 ..< n]) d = (Inr (), d1)" "dk_faults d1 = []"
    "\<forall>i < n. is_directory (node d1 (take i p))" "\<forall>q. q \<notin> (\<lambda>i. take i p) ` {..<n} \<longrightarrow> node d1 q = node d q" by auto
  let ?q = "take n p"
  have new: "?q \<notin> (\<lambda>i. take i p) ` {..<n}" using Suc.prems by (intro take_not_shorter) simp
  have "?q \<in> set (parents p)" using Suc.prems by (auto simp: parents_def)
  with assms(2) d1(4) new have q: "is_directory (node d1 ?q) \<or> node d1 ?q = None" by auto
  have all: "make_directories (map (\<lambda>i. take i p) [0 ..< Suc n]) d = make_directories [?q] d1"
    using d1(1) by (simp add: make_directories_append bind_prog_eval)
  show ?case
  proof (cases "is_directory (node d1 ?q)")
    case True
    then have "make_directories [?q] d1 = (Inr (), d1)" by (intro make_directories_present) simp
    with all d1 True new show ?thesis by (auto simp: less_Suc_eq lessThan_Suc)
  next
    case False
    with q have none: "node d1 ?q = None" by simp
    then have "?q \<noteq> []" by (metis node_Nil option.distinct(1))
    then obtain m where m: "n = Suc m" by (cases n) auto
    have "butlast ?q = take m p" using Suc.prems m by (simp add: butlast_take)
    with d1(3) m have par: "is_directory (node d1 (butlast ?q))" by simp
    let ?d = "(set_node ?q (Directory (dk_fresh d1)) d1)\<lparr>dk_fresh := dk_fresh d1 + 1\<rparr>"
    have "make_directories [?q] d1 = (Inr (), ?d)"
      using False none par d1(2) by (simp add: make_directory_def faulty_calm bind_prog_def return_prog_def)
    moreover have "dk_faults ?d = []" using d1(2) by simp
    moreover have "\<forall>i < Suc n. is_directory (node ?d (take i p))"
    proof (intro allI impI)
      fix i assume "i < Suc n"
      then show "is_directory (node ?d (take i p))"
        using d1(3) \<open>?q \<noteq> []\<close> by (cases "i = n") (simp_all add: node_set)
    qed
    moreover have "\<forall>q. q \<notin> (\<lambda>i. take i p) ` {..<Suc n} \<longrightarrow> node ?d q = node d q"
    proof (intro allI impI)
      fix q assume "q \<notin> (\<lambda>i. take i p) ` {..<Suc n}"
      then have "q \<notin> (\<lambda>i. take i p) ` {..<n}" "q \<noteq> ?q" by (simp_all add: lessThan_Suc)
      with d1(4) show "node ?d q = node d q" by (simp add: node_set)
    qed
    ultimately show ?thesis using all by (intro exI[of _ ?d]) (simp only: simp_thms)
  qed
qed

lemma calm_write:
  assumes "dk_faults d = []" "well_formed d" "refuse_symlink_path p d = Inr ()" "look p d = Inr now"
  shows "\<exists>d'. apply_content p b d = (Inr (), d')"
proof -
  have "p \<noteq> []" using assms(4) by (auto simp: look_def)
  have parents: "\<forall>q \<in> set (parents p). is_directory (node d q) \<or> node d q = None"
  proof
    fix q assume q: "q \<in> set (parents p)"
    show "is_directory (node d q) \<or> node d q = None"
    proof (cases "node d p")
      case None
      with assms(4) have "\<not> list_ex (\<lambda>q. is_regular (node d q)) (parents p)" by (auto simp: look_def split: if_splits)
      with q have "\<not> is_regular (node d q)" by (auto simp: list_ex_iff)
      moreover have "node d q \<noteq> Some Link"
        using assms(3) q by (auto simp: refuse_symlink_path_def check_that_def list_ex_iff split: if_splits)
      ultimately show ?thesis by (cases "node d q" rule: is_regular.cases) simp_all
    next
      case (Some n)
      from q obtain r where "r \<noteq> []" "p = q @ r" by (auto simp: parents_iff)
      with ancestors_directories[OF assms(2), of q r] Some show ?thesis by simp
    qed
  qed
  have noreg: "\<not> list_ex (\<lambda>q. is_regular (node d q)) (parents p)"
  proof
    assume "list_ex (\<lambda>q. is_regular (node d q)) (parents p)"
    then obtain q where "q \<in> set (parents p)" "is_regular (node d q)" by (auto simp: list_ex_iff)
    with parents show False by (cases "node d q" rule: is_regular.cases) auto
  qed
  have nodir: "\<not> is_directory (node d p)"
    using assms(4) by (cases "node d p" rule: is_directory.cases) (auto simp: look_def)
  show ?thesis
  proof (cases b)
    case None
    have "\<exists>d'. unlink_file p d = (Inr (), d')"
      using assms(1,4) noreg
      by (auto simp: unlink_file_def faulty_calm look_def split: option.splits disk_node.splits)
    with assms(3) None show ?thesis by (auto simp: apply_content_def bind_prog_eval lift_refuse)
  next
    case (Some x)
    from calm_make_directories[OF assms(1) parents, of "length p"] obtain d' where d':
      "make_directories (rev (parents p)) d = (Inr (), d')" "dk_faults d' = []"
      "\<forall>i < length p. is_directory (node d' (take i p))" "\<forall>q. q \<notin> (\<lambda>i. take i p) ` {..<length p} \<longrightarrow> node d' q = node d q"
      unfolding rev_parents by blast
    have "keeps (moves {p}) (make_directories (rev (parents p)))" by (rule keeps_make_directories[of p]) auto
    from keepsD[OF this d'(1)] have mv: "moves {p} d d'" .
    have "p \<notin> (\<lambda>i. take i p) ` {..<length p}" using take_not_shorter[of "length p" p] by simp
    with d'(4) nodir have "\<not> is_directory (node d' p)" by simp
    moreover have "is_directory (node d' (butlast p))"
      using d'(3) \<open>p \<noteq> []\<close> by (simp add: butlast_conv_take)
    ultimately have "replace_file p x d' = (Inr (), set_node p (Regular x) d')"
      using d'(2) \<open>p \<noteq> []\<close> by (simp add: replace_file_def faulty_calm)
    moreover have "stat_mode p d = (Inr (), d)"
      using assms(1) noreg by (simp add: stat_mode_def faulty_calm check_that_def)
    ultimately show ?thesis
      using Some d'(1) lift_refuse[OF assms(3)] lift_refuse[OF refuse_later[OF assms(3) mv]]
      by (simp add: apply_content_def write_bytes_def bind_prog_eval)
  qed
qed

lemma recorded_elsewhere:
  assumes "recorded d c" "moves {p} d d'" "fc_path c \<noteq> p" "fc_path c \<notin> set (parents p)" "p \<notin> set (parents (fc_path c))"
  shows "recorded d' c"
proof -
  let ?q = "fc_path c"
  have ref: "refuse_symlink_path ?q d' = Inr ()" using assms(1,2) refuse_later by (auto simp: recorded_def)
  then have "node d' ?q \<noteq> Some Link" by (auto simp: refuse_symlink_path_def check_that_def split: if_splits)
  have look: "look ?q d = Inr (fc_before c)" using assms(1) by (simp add: recorded_def)
  have "\<not> is_directory (node d ?q)" using look by (cases "node d ?q" rule: is_directory.cases) (auto simp: look_def)
  with assms(2,4) have nodir: "\<not> is_directory (node d' ?q)" by (auto simp: moves_def)
  have same: "content d' r = content d r" if "r \<noteq> p" for r using moves_other[OF assms(2)] that by simp
  show ?thesis
  proof (cases "fc_before c")
    case (Some x)
    with look_content[OF look] same[OF assms(3)] have "node d' ?q = Some (Regular x)"
      by (auto simp: content_def split: option.splits disk_node.splits)
    with ref Some show ?thesis by (simp add: recorded_def look_def)
  next
    case None
    with look_content[OF look] same[OF assms(3)] nodir \<open>node d' ?q \<noteq> Some Link\<close> have "node d' ?q = None"
      by (auto simp: content_def split: option.splits disk_node.splits)
    moreover have "\<not> is_regular (node d' r)" if "r \<in> set (parents ?q)" for r
    proof
      assume "is_regular (node d' r)"
      then have "content d' r \<noteq> None" by (cases "node d' r" rule: is_regular.cases) (auto simp: content_def)
      moreover have "r \<noteq> p" using that assms(5) by auto
      ultimately have "content d r \<noteq> None" using same by simp
      then have "is_regular (node d r)" by (auto simp: content_def split: option.splits disk_node.splits)
      with look None that show False
        by (auto simp: look_def list_ex_iff split: option.splits disk_node.splits if_splits)
    qed
    ultimately show ?thesis using ref None by (simp add: recorded_def look_def list_ex_iff)
  qed
qed

lemma calm_verify:
  "dk_faults d = [] \<Longrightarrow> \<forall>c \<in> set cs. recorded d c \<Longrightarrow> verify_changes cs d = (Inr (), d)"
  by (induction cs)
    (simp_all add: recorded_def bind_prog_def catching_def lift_refuse current_def faulty_calm return_prog_def)

definition unrelated :: "file_change list \<Rightarrow> bool" where
  "unrelated cs \<longleftrightarrow> distinct (map fc_path cs) \<and> (\<forall>a \<in> set cs. \<forall>b \<in> set cs. fc_path a \<notin> set (parents (fc_path b)))"

lemma calm_run_changes:
  assumes "dk_faults d = []" "well_formed d" "\<forall>c \<in> set cs. recorded d c" "unrelated cs"
  shows "\<exists>d' att'. run_changes (return_prog ()) cs att d = ((None, att'), d')"
  using assms
proof (induction cs arbitrary: att d)
  case (Cons c cs)
  have rec: "recorded d c" using Cons.prems(3) by simp
  then have ready: "ready_to_change (return_prog ()) c d = (Inr (), d)"
    using Cons.prems(1)
    by (simp add: ready_to_change_def recorded_def bind_prog_def return_prog_def lift_refuse current_def faulty_calm)
  obtain d1 where app: "apply_content (fc_path c) (fc_after c) d = (Inr (), d1)"
    using calm_write[OF Cons.prems(1,2), of "fc_path c"] rec by (auto simp: recorded_def)
  have mv: "moves {fc_path c} d d1" by (rule keepsD[OF keeps_apply_content app]) simp
  have "dk_faults d1 = []" "well_formed d1" using mv Cons.prems(1,2) by (simp_all add: moves_def)
  moreover have "\<forall>x \<in> set cs. recorded d1 x"
  proof
    fix x assume x: "x \<in> set cs"
    with Cons.prems(4) have "fc_path x \<noteq> fc_path c" by (auto simp: unrelated_def rev_image_eqI)
    moreover have "fc_path x \<notin> set (parents (fc_path c))" "fc_path c \<notin> set (parents (fc_path x))"
      using Cons.prems(4) x by (simp_all add: unrelated_def)
    ultimately show "recorded d1 x" using recorded_elsewhere[OF _ mv] Cons.prems(3) x by simp
  qed
  moreover have "unrelated cs" using Cons.prems(4) by (simp add: unrelated_def)
  ultimately obtain d' att' where "run_changes (return_prog ()) cs (att @ [c]) d1 = ((None, att'), d')"
    using Cons.IH by blast
  with ready app have "run_changes (return_prog ()) (c # cs) att d = ((None, att'), d')"
    by (simp del: return_prog_def)
  then show ?case by blast
qed simp

end
