(* ===== verification/Upgrade_Journal.thy ===== *)
theory Upgrade_Journal
  imports Disk Json_Codec
begin

text \<open>
  \<open>_bootstrap/upgrade_journal.py\<close>: the write-ahead journal of an upgrade.

  The vault is on the \<open>Disk\<close>; the journal directory is the record \<open>journal_directory\<close>, reached through
  the same faults. A path is its list of components; where the code compares or stores it as text it
  is \<open>path_str\<close>, read back by \<open>path_of\<close> (paths spelled with two leading slashes are left out). The
  entries file is its complete lines (\<open>None\<close> for one that is no JSON) and whether an unterminated tail
  follows. Directory listings (\<open>os.walk\<close>) meet no faults, and syncing is folded into the write it
  completes. \<open>hx\<close> is the SHA-256 hex digest.
\<close>

section \<open>Paths\<close>

definition good_component :: "string \<Rightarrow> bool" where
  "good_component c = (c \<noteq> [] \<and> CHR ''/'' \<notin> set c \<and> c \<noteq> ''.'' \<and> c \<noteq> ''..'')"

text \<open>\<open>_normalised_absolute\<close>, with the path it spells.\<close>

definition path_of :: "string \<Rightarrow> path option" where
  "path_of s = (if s = ''/'' then Some []
     else case split_on (CHR ''/'') s of
       [] # cs \<Rightarrow> if cs \<noteq> [] \<and> list_all good_component cs then Some cs else None
     | _ \<Rightarrow> None)"

definition path_value :: "json option \<Rightarrow> path option" where
  "path_value v = (case v of Some (JStr s) \<Rightarrow> path_of s | _ \<Rightarrow> None)"

definition within :: "path \<Rightarrow> path \<Rightarrow> bool" where
  "within p root = (take (length root) p = root)"

definition EXCLUDED_LOCAL :: "string list" where
  "EXCLUDED_LOCAL = [''retrieval-index.json'', ''type-embeddings.npy'', ''doc-embeddings.npy'', ''embeddings-meta.json'',
     ''semantic-models'', ''command-outcomes'', ''diagnostics'', ''staging'', ''last-upgrade.json'']"

fun excluded_local :: "path \<Rightarrow> bool" where
  "excluded_local (a # b # c # r) =
     (a = ''.brain'' \<and> b = ''local'' \<and> c \<in> set EXCLUDED_LOCAL \<or> excluded_local (b # c # r))"
| "excluded_local _ = False"

definition is_excluded :: "path \<Rightarrow> bool" where
  "is_excluded p = (p \<noteq> [] \<and> starts_with (rev ''.lock'') (rev (last p)) \<or> excluded_local p)"

definition child_names :: "'x disk_scheme \<Rightarrow> path \<Rightarrow> string list" where
  "child_names d p = remdups (map (\<lambda>(q, n). last q) (filter (\<lambda>(q, n). q \<noteq> [] \<and> butlast q = p) (dk_nodes d)))"

text \<open>\<open>walk_root\<close>: every directory with its directories and files, from the top; the fuel bounds the depth.\<close>

fun walk :: "nat \<Rightarrow> 'x disk_scheme \<Rightarrow> path \<Rightarrow> (path \<times> string list \<times> string list) list" where
  "walk 0 d p = []"
| "walk (Suc n) d p =
     (let names = filter (\<lambda>x. \<not> is_excluded (p @ [x])) (child_names d p);
          dirs = filter (\<lambda>x. is_directory (node d (p @ [x]))) names;
          files = filter (\<lambda>x. \<not> is_directory (node d (p @ [x]))) names
      in (p, dirs, files) # concat (map (\<lambda>x. walk n d (p @ [x])) dirs))"

definition walk_depth :: "'x disk_scheme \<Rightarrow> nat" where
  "walk_depth d = Suc (foldr max (map (\<lambda>(q, n). length q) (dk_nodes d)) 0)"

definition walk_root :: "'x disk_scheme \<Rightarrow> path \<Rightarrow> (path \<times> string list \<times> string list) list" where
  "walk_root d root = (if is_directory (node d root) then walk (walk_depth d) d root else [])"

section \<open>The journal\<close>

datatype stage = PreCompile | PostCompile

fun stage_value :: "stage \<Rightarrow> string" where
  "stage_value PreCompile = ''pre_compile''"
| "stage_value PostCompile = ''post_compile''"

definition stage_of :: "json option \<Rightarrow> stage option" where
  "stage_of v =
     (if v = Some (JStr ''pre_compile'') then Some PreCompile
      else if v = Some (JStr ''post_compile'') then Some PostCompile else None)"

text \<open>An entry is a file's original state (the digest of its bytes, or absence) or a root's listing.\<close>

datatype entry = FileEntry (en_stage: stage) path "string option" | RootEntry (en_stage: stage) path "path list"

fun entry_json :: "entry \<Rightarrow> json" where
  "entry_json (FileEntry g p b) =
     JObj [(''stage'', JStr (stage_value g)), (''path'', JStr (path_str p)), (''exists'', JBool (b \<noteq> None)),
           (''blob'', case b of None \<Rightarrow> JNull | Some x \<Rightarrow> JStr x)]"
| "entry_json (RootEntry g p ds) =
     JObj [(''stage'', JStr (stage_value g)), (''root'', JStr (path_str p)), (''dirs'', JArr (map (JStr \<circ> path_str) ds))]"

datatype header_file = HeaderText json | BadHeader

record journal_directory =
  jd_exists :: bool
  jd_header :: "header_file option"
  jd_lines :: "json option list option"
  jd_tail :: bool
  jd_blobs :: "(string \<times> string) list"

record upgrade_journal =
  uj_vault :: path
  uj_given :: path
  uj_old_version :: "string option"
  uj_new_version :: string
  uj_entries :: "entry list"
  uj_captured :: "(stage \<times> path) list"
  uj_roots :: "(stage \<times> path) list"

text \<open>A recovery store: the copies by number, and the two dictionaries from paths to copies. The manifest
  is what the dictionaries were when it was last written.\<close>

record recovery =
  rc_open :: bool
  rc_sequence :: nat
  rc_files :: "(nat \<times> string) list"
  rc_preserved :: "(path \<times> nat) list"
  rc_originals :: "(path \<times> nat) list"
  rc_manifest :: "((path \<times> nat) list \<times> (path \<times> nat) list) option"

record upgrade = disk +
  up_directory :: journal_directory
  up_journal :: upgrade_journal
  up_recovery :: recovery

definition canonical :: "upgrade_journal \<Rightarrow> path \<Rightarrow> path" where
  "canonical j p = (if uj_given j \<noteq> uj_vault j \<and> within p (uj_given j) then uj_vault j @ drop (length (uj_given j)) p else p)"

definition header_json :: "path \<Rightarrow> string option \<Rightarrow> string \<Rightarrow> string \<Rightarrow> json" where
  "header_json vault old new started =
     JObj [(''schema'', JStr ''brain.upgrade-journal/1''), (''vault'', JStr (path_str vault)),
           (''old_version'', case old of None \<Rightarrow> JNull | Some v \<Rightarrow> JStr v), (''new_version'', JStr new),
           (''started_at'', JStr started)]"

definition new_journal :: "path \<Rightarrow> path \<Rightarrow> string option \<Rightarrow> string \<Rightarrow> entry list \<Rightarrow> upgrade_journal" where
  "new_journal vault given old new entries =
     \<lparr>uj_vault = vault, uj_given = given, uj_old_version = old, uj_new_version = new, uj_entries = entries,
      uj_captured = concat (map (\<lambda>e. case e of FileEntry g p b \<Rightarrow> [(g, p)] | RootEntry _ _ _ \<Rightarrow> []) entries),
      uj_roots = concat (map (\<lambda>e. case e of RootEntry g p ds \<Rightarrow> [(g, p)] | FileEntry _ _ _ \<Rightarrow> []) entries)\<rparr>"

definition with_directory :: "(journal_directory \<Rightarrow> journal_directory) \<Rightarrow> (upgrade, unit) prog" where
  "with_directory f = faulty (\<lambda>u. (Inr (), u\<lparr>up_directory := f (up_directory u)\<rparr>))"

definition no_directory :: journal_directory where
  "no_directory = \<lparr>jd_exists = False, jd_header = None, jd_lines = None, jd_tail = False, jd_blobs = []\<rparr>"

text \<open>\<open>vault\<close> is \<open>os.path.realpath(vault_root)\<close> and \<open>given\<close> its \<open>abspath\<close>.\<close>

definition open_journal :: "path \<Rightarrow> path \<Rightarrow> string option \<Rightarrow> string \<Rightarrow> string \<Rightarrow> (upgrade, unit) prog" where
  "open_journal vault given old new started =
     bind_prog (lift_result (\<lambda>u. check_that (jd_header (up_directory u) = None) OSError)) (\<lambda>_.
     bind_prog (\<lambda>u. if jd_exists (up_directory u) then with_directory (\<lambda>_. no_directory) u else (Inr (), u)) (\<lambda>_.
     bind_prog (with_directory (\<lambda>j. j\<lparr>jd_exists := True\<rparr>)) (\<lambda>_.
     bind_prog (with_directory (\<lambda>j. j\<lparr>jd_lines := Some [], jd_tail := False\<rparr>)) (\<lambda>_.
     bind_prog (with_directory (\<lambda>j. j\<lparr>jd_header := Some (HeaderText (header_json vault old new started))\<rparr>)) (\<lambda>_ u.
     (Inr (), u\<lparr>up_journal := new_journal vault given old new []\<rparr>))))))"

section \<open>Capture\<close>

definition mark_captured :: "stage \<Rightarrow> path \<Rightarrow> (upgrade, unit) prog" where
  "mark_captured g p u = (Inr (), u\<lparr>up_journal := (up_journal u)\<lparr>uj_captured := (g, p) # uj_captured (up_journal u)\<rparr>\<rparr>)"

text \<open>\<open>path.read_bytes()\<close>: a missing file is an \<open>OSError\<close> too.\<close>

definition read_bytes :: "path \<Rightarrow> 'x disk_scheme \<Rightarrow> exn + string" where
  "read_bytes p d = (case look p d of Inl e \<Rightarrow> Inl e | Inr None \<Rightarrow> Inl OSError | Inr (Some b) \<Rightarrow> Inr b)"

definition store_blob :: "string \<Rightarrow> string \<Rightarrow> (upgrade, unit) prog" where
  "store_blob digest bytes u =
     (if map_of (jd_blobs (up_directory u)) digest \<noteq> None then (Inr (), u)
      else with_directory (\<lambda>j. j\<lparr>jd_blobs := (digest, bytes) # jd_blobs j\<rparr>) u)"

definition capture_file :: "(string \<Rightarrow> string) \<Rightarrow> stage \<Rightarrow> path \<Rightarrow> (upgrade, entry) prog" where
  "capture_file hx g p =
     bind_prog (mark_captured g p) (\<lambda>_ u.
     if \<not> exists_at u p then (Inr (FileEntry g p None), u)
     else bind_prog (faulty (\<lambda>u. (read_bytes p u, u))) (\<lambda>bytes.
          bind_prog (store_blob (hx bytes) bytes) (\<lambda>_.
          return_prog (FileEntry g p (Some (hx bytes))))) u)"

fun file_entries :: "(string \<Rightarrow> string) \<Rightarrow> stage \<Rightarrow> path list \<Rightarrow> (upgrade, entry list) prog" where
  "file_entries hx g [] u = (Inr [], u)"
| "file_entries hx g (q # qs) u =
     (let p = canonical (up_journal u) q in
      if (g, p) \<in> set (uj_captured (up_journal u)) \<or> is_excluded p then file_entries hx g qs u
      else bind_prog (capture_file hx g p) (\<lambda>e.
           bind_prog (file_entries hx g qs) (\<lambda>es. return_prog (e # es))) u)"

text \<open>Appending lines in one write: an exception part way leaves some complete lines and a torn one.\<close>

definition lines_after :: "json option list \<Rightarrow> bool \<Rightarrow> json list \<Rightarrow> json option list" where
  "lines_after old tail new = old @ (case new of [] \<Rightarrow> [] | x # xs \<Rightarrow> (if tail then None else Some x) # map Some xs)"

definition append_lines :: "json list \<Rightarrow> (upgrade, unit) prog" where
  "append_lines new u =
     (let j = up_directory u;
          put = (\<lambda>ls torn u. u\<lparr>up_directory := j\<lparr>jd_lines := Some (lines_after (case jd_lines j of None \<Rightarrow> [] | Some old \<Rightarrow> old) (jd_tail j) ls),
                   jd_tail := torn \<or> jd_tail j \<and> ls = []\<rparr>\<rparr>)
      in case dk_faults u of
           FaultAmid k e # fs \<Rightarrow> (Inl e, put (take k new) (k < length new) (u\<lparr>dk_faults := fs\<rparr>))
         | _ \<Rightarrow> faulty (\<lambda>u. (Inr (), put new False u)) u)"

definition append_entries :: "entry list \<Rightarrow> (upgrade, unit) prog" where
  "append_entries es u =
     (if es = [] then (Inr (), u)
      else bind_prog (append_lines (map entry_json es)) (\<lambda>_ u.
        (Inr (), u\<lparr>up_journal := (up_journal u)\<lparr>uj_entries := uj_entries (up_journal u) @ es\<rparr>\<rparr>)) u)"

definition capture :: "(string \<Rightarrow> string) \<Rightarrow> stage \<Rightarrow> path list \<Rightarrow> (upgrade, unit) prog" where
  "capture hx g paths = bind_prog (file_entries hx g paths) append_entries"

definition mark_root :: "stage \<Rightarrow> path \<Rightarrow> (upgrade, unit) prog" where
  "mark_root g p u = (Inr (), u\<lparr>up_journal := (up_journal u)\<lparr>uj_roots := (g, p) # uj_roots (up_journal u)\<rparr>\<rparr>)"

definition capture_tree :: "(string \<Rightarrow> string) \<Rightarrow> stage \<Rightarrow> path \<Rightarrow> (upgrade, unit) prog" where
  "capture_tree hx g given u =
     (let root = canonical (up_journal u) given in
      if (g, root) \<in> set (uj_roots (up_journal u)) then (Inr (), u)
      else
        (let walked = walk_root u root;
             files = concat (map (\<lambda>(dir, ds, fs). map (\<lambda>x. dir @ [x]) fs) walked)
         in bind_prog (mark_root g root) (\<lambda>_.
            bind_prog (file_entries hx g files) (\<lambda>es.
            append_entries (es @ [RootEntry g root (map fst walked)]))) u))"

section \<open>Reading\<close>

definition hex_digit_char :: "char \<Rightarrow> bool" where
  "hex_digit_char c = (c \<in> set ''0123456789abcdef'')"

definition file_line :: "(string \<times> string) list \<Rightarrow> stage \<Rightarrow> (string \<times> json) list \<Rightarrow> exn + entry" where
  "file_line blobs g kvs =
     (case (path_value (map_of kvs ''path''), map_of kvs ''exists'') of
        (Some p, Some (JBool False)) \<Rightarrow> Inr (FileEntry g p None)
      | (Some p, Some (JBool True)) \<Rightarrow>
          (case map_of kvs ''blob'' of
             Some (JStr b) \<Rightarrow>
               if length b = 64 \<and> list_all hex_digit_char b \<and> map_of blobs b \<noteq> None
               then Inr (FileEntry g p (Some b)) else Inl UpgradeJournalUnreadable
           | _ \<Rightarrow> Inl UpgradeJournalUnreadable)
      | _ \<Rightarrow> Inl UpgradeJournalUnreadable)"

definition root_line :: "path \<Rightarrow> stage \<Rightarrow> (string \<times> json) list \<Rightarrow> exn + entry" where
  "root_line vault g kvs =
     (case (path_value (map_of kvs ''root''), map_of kvs ''dirs'') of
        (Some root, Some (JArr items)) \<Rightarrow>
          (let dirs = map (\<lambda>i. path_value (Some i)) items in
           if within root vault \<and> list_all (\<lambda>q. case q of None \<Rightarrow> False | Some p \<Rightarrow> within p root) dirs
           then Inr (RootEntry g root (map the dirs)) else Inl UpgradeJournalUnreadable)
      | _ \<Rightarrow> Inl UpgradeJournalUnreadable)"

definition read_line :: "path \<Rightarrow> (string \<times> string) list \<Rightarrow> json option \<Rightarrow> exn + entry" where
  "read_line vault blobs line =
     (case line of
        Some (JObj kvs) \<Rightarrow>
          (case stage_of (map_of kvs ''stage'') of
             None \<Rightarrow> Inl UpgradeJournalUnreadable
           | Some g \<Rightarrow> if map_of kvs ''root'' \<noteq> None then root_line vault g kvs else file_line blobs g kvs)
      | _ \<Rightarrow> Inl UpgradeJournalUnreadable)"

fun read_lines :: "path \<Rightarrow> (string \<times> string) list \<Rightarrow> json option list \<Rightarrow> exn + entry list" where
  "read_lines vault blobs [] = Inr []"
| "read_lines vault blobs (l # ls) =
     bind_result (read_line vault blobs l) (\<lambda>e. bind_result (read_lines vault blobs ls) (\<lambda>es. Inr (e # es)))"

text \<open>An \<open>OSError\<close> while reading is an unreadable journal.\<close>

definition reading :: "(upgrade, 'a) prog \<Rightarrow> (upgrade, 'a) prog" where
  "reading m = catching m (\<lambda>e. raise_prog (if is_os_error e then UpgradeJournalUnreadable else e))"

definition read_entries :: "path \<Rightarrow> (upgrade, entry list) prog" where
  "read_entries vault =
     bind_prog (reading (faulty (\<lambda>u. (case jd_lines (up_directory u) of None \<Rightarrow> Inl OSError | Some ls \<Rightarrow> Inr ls, u)))) (\<lambda>ls.
     lift_result (\<lambda>u. read_lines vault (jd_blobs (up_directory u)) ls))"

definition read_header :: "json \<Rightarrow> (string \<times> string \<times> string option) option" where
  "read_header v =
     (case v of
        JObj kvs \<Rightarrow>
          (case (map_of kvs ''schema'', map_of kvs ''vault'', map_of kvs ''new_version'', map_of kvs ''old_version'') of
             (Some (JStr schema), Some (JStr vault), Some (JStr new), old) \<Rightarrow>
               if schema \<noteq> ''brain.upgrade-journal/1'' then None
               else (case old of
                       None \<Rightarrow> Some (vault, new, None)
                     | Some JNull \<Rightarrow> Some (vault, new, None)
                     | Some (JStr x) \<Rightarrow> Some (vault, new, Some x)
                     | _ \<Rightarrow> None)
           | _ \<Rightarrow> None)
      | _ \<Rightarrow> None)"

definition load_journal :: "path \<Rightarrow> path \<Rightarrow> (upgrade, upgrade_journal option) prog" where
  "load_journal vault given u =
     (case jd_header (up_directory u) of
        None \<Rightarrow> (Inr None, u)
      | Some h \<Rightarrow>
          bind_prog (reading (faulty (\<lambda>u. (case h of BadHeader \<Rightarrow> Inl UpgradeJournalUnreadable | HeaderText v \<Rightarrow> Inr v, u)))) (\<lambda>v.
          case read_header v of
            None \<Rightarrow> raise_prog UpgradeJournalUnreadable
          | Some (name, new, old) \<Rightarrow>
              if name \<noteq> path_str vault then raise_prog UpgradeJournalUnreadable
              else bind_prog (read_entries vault) (\<lambda>es.
                return_prog (Some (new_journal vault given old new es)))) u)"

text \<open>The first entry of a path, and of a root, wins.\<close>

fun stage_files :: "stage \<Rightarrow> entry list \<Rightarrow> (path \<times> string option) list" where
  "stage_files g [] = []"
| "stage_files g (FileEntry h p b # es) =
     (let rest = stage_files g es in if h = g then (p, b) # filter (\<lambda>(q, c). q \<noteq> p) rest else rest)"
| "stage_files g (RootEntry h p ds # es) = stage_files g es"

fun stage_roots :: "stage \<Rightarrow> entry list \<Rightarrow> (path \<times> path list) list" where
  "stage_roots g [] = []"
| "stage_roots g (RootEntry h p ds # es) =
     (let rest = stage_roots g es in if h = g then (p, ds) # filter (\<lambda>(q, c). q \<noteq> p) rest else rest)"
| "stage_roots g (FileEntry h p b # es) = stage_roots g es"

definition blob_bytes :: "(string \<Rightarrow> string) \<Rightarrow> string \<Rightarrow> (upgrade, string) prog" where
  "blob_bytes hx digest =
     bind_prog (reading (faulty (\<lambda>u. (case map_of (jd_blobs (up_directory u)) digest of None \<Rightarrow> Inl OSError | Some b \<Rightarrow> Inr b, u)))) (\<lambda>bytes.
     if hx bytes = digest then return_prog bytes else raise_prog UpgradeJournalUnreadable)"

text \<open>A snapshot: the bytes of a path that existed, \<open>None\<close> for one that did not.\<close>

definition snapshot_of :: "(string \<Rightarrow> string) \<Rightarrow> string option \<Rightarrow> (upgrade, string option) prog" where
  "snapshot_of hx b = (case b of None \<Rightarrow> return_prog None | Some x \<Rightarrow> bind_prog (blob_bytes hx x) (\<lambda>c. return_prog (Some c)))"

fun snapshots_of :: "(string \<Rightarrow> string) \<Rightarrow> (path \<times> string option) list \<Rightarrow> (upgrade, (path \<times> string option) list) prog" where
  "snapshots_of hx [] = return_prog []"
| "snapshots_of hx ((p, b) # fs) =
     bind_prog (snapshot_of hx b) (\<lambda>s. bind_prog (snapshots_of hx fs) (\<lambda>rest. return_prog ((p, s) # rest)))"

definition stage_snapshots ::
  "(string \<Rightarrow> string) \<Rightarrow> upgrade_journal \<Rightarrow> stage \<Rightarrow> (upgrade, (path \<times> string option) list \<times> (path \<times> path list) list) prog" where
  "stage_snapshots hx j g =
     bind_prog (snapshots_of hx (stage_files g (uj_entries j))) (\<lambda>s. return_prog (s, stage_roots g (uj_entries j)))"

definition path_state :: "(string \<Rightarrow> string) \<Rightarrow> upgrade_journal \<Rightarrow> stage \<Rightarrow> path \<Rightarrow> (upgrade, string option option) prog" where
  "path_state hx j g p =
     (case map_of (stage_files g (uj_entries j)) (canonical j p) of
        None \<Rightarrow> return_prog None
      | Some b \<Rightarrow> bind_prog (snapshot_of hx b) (\<lambda>s. return_prog (Some s)))"

text \<open>The header goes first; what \<open>rmtree(ignore_errors=True)\<close> leaves is a remnant.\<close>

definition discard :: "(upgrade, unit) prog" where
  "discard =
     bind_prog (with_directory (\<lambda>j. j\<lparr>jd_header := None\<rparr>)) (\<lambda>_.
     catching (with_directory (\<lambda>_. no_directory)) (\<lambda>e. if is_os_error e then return_prog () else raise_prog e))"

end
