(* ===== verification/Upgrade_Restore.thy ===== *)
theory Upgrade_Restore
  imports Upgrade_Journal
begin

text \<open>
  The restore of \<open>_bootstrap/upgrade_journal.py\<close>: \<open>RecoveryStore\<close>, \<open>restore_snapshots\<close> and
  \<open>restore_journal\<close>. The copy of a preserved file is kept under its path; the names of copies are left
  out. A report keeps what failed where, not the texts.
\<close>

section \<open>The recovery store\<close>

definition new_recovery :: recovery where
  "new_recovery = \<lparr>rc_open = False, rc_sequence = 0, rc_files = [], rc_preserved = [], rc_originals = [], rc_manifest = None\<rparr>"

definition with_recovery :: "(recovery \<Rightarrow> recovery) \<Rightarrow> (upgrade, unit) prog" where
  "with_recovery f = faulty (\<lambda>u. (Inr (), u\<lparr>up_recovery := f (up_recovery u)\<rparr>))"

definition in_recovery :: "(recovery \<Rightarrow> recovery) \<Rightarrow> (upgrade, unit) prog" where
  "in_recovery f u = (Inr (), u\<lparr>up_recovery := f (up_recovery u)\<rparr>)"

text \<open>\<open>_copy\<close>: the directory on first use, the next number, the copy.\<close>

definition copy_bytes :: "string \<Rightarrow> (upgrade, nat) prog" where
  "copy_bytes bytes =
     bind_prog (\<lambda>u. if rc_open (up_recovery u) then (Inr (), u) else with_recovery (\<lambda>r. r\<lparr>rc_open := True\<rparr>) u) (\<lambda>_.
     bind_prog (in_recovery (\<lambda>r. r\<lparr>rc_sequence := rc_sequence r + 1\<rparr>)) (\<lambda>_.
     bind_prog (with_recovery (\<lambda>r. r\<lparr>rc_files := (rc_sequence r, bytes) # rc_files r\<rparr>)) (\<lambda>_ u.
     (Inr (rc_sequence (up_recovery u)), u))))"

definition preserve :: "path \<Rightarrow> string \<Rightarrow> (upgrade, unit) prog" where
  "preserve p bytes =
     bind_prog (copy_bytes bytes) (\<lambda>n. in_recovery (\<lambda>r. r\<lparr>rc_preserved := AList.update p n (rc_preserved r)\<rparr>))"

text \<open>\<open>keep_original\<close>: whether the copy was made; an \<open>OSError\<close> is not raised.\<close>

definition keep_original :: "path \<Rightarrow> string \<Rightarrow> (upgrade, bool) prog" where
  "keep_original p bytes =
     catching
       (bind_prog (copy_bytes bytes) (\<lambda>n.
        bind_prog (in_recovery (\<lambda>r. r\<lparr>rc_originals := AList.update p n (rc_originals r)\<rparr>)) (\<lambda>_.
        return_prog True)))
       (\<lambda>e. if is_os_error e then return_prog False else raise_prog e)"

definition commit_recovery :: "(upgrade, unit) prog" where
  "commit_recovery u =
     (if \<not> rc_open (up_recovery u) then (Inr (), u)
      else with_recovery (\<lambda>r. r\<lparr>rc_manifest := Some (rc_preserved r, rc_originals r)\<rparr>) u)"

section \<open>Reports\<close>

datatype restore_error = FailedAt string path | OriginalLost path
datatype recovery_path = VaultPath path | OriginalCopy path

record restore_report =
  rr_restored :: "path list"
  rr_errors :: "restore_error list"
  rr_recovery :: "recovery_path list"

definition verified :: "restore_report \<Rightarrow> bool" where
  "verified r = (rr_errors r = [])"

definition no_report :: restore_report where
  "no_report = \<lparr>rr_restored = [], rr_errors = [], rr_recovery = []\<rparr>"

definition merged :: "restore_report \<Rightarrow> restore_report \<Rightarrow> restore_report" where
  "merged a b =
     \<lparr>rr_restored = rr_restored a @ rr_restored b, rr_errors = rr_errors a @ rr_errors b,
      rr_recovery = dict_fromkeys (rr_recovery a @ rr_recovery b)\<rparr>"

text \<open>The local variables of a restore: the report so far and the paths that failed.\<close>

record progress = restore_report +
  pg_failed :: "path list"

definition no_progress :: progress where
  "no_progress = \<lparr>rr_restored = [], rr_errors = [], rr_recovery = [], pg_failed = []\<rparr>"

definition restored_at :: "path \<Rightarrow> progress \<Rightarrow> progress" where
  "restored_at p g = g\<lparr>rr_restored := p # rr_restored g\<rparr>"

text \<open>\<open>fail\<close>; \<open>state\<close> is the snapshot it is given, if any, and \<open>stored\<close> whether there is a store.\<close>

definition fail_at :: "bool \<Rightarrow> string \<Rightarrow> path \<Rightarrow> string option \<Rightarrow> progress \<Rightarrow> (upgrade, progress) prog" where
  "fail_at stored action p state g =
     (if p \<in> set (pg_failed g) then return_prog g
      else
        (let g' = g\<lparr>pg_failed := p # pg_failed g, rr_errors := rr_errors g @ [FailedAt action p],
                    rr_recovery := rr_recovery g @ [VaultPath p]\<rparr>
         in case state of
              Some bytes \<Rightarrow>
                if stored
                then bind_prog (keep_original p bytes) (\<lambda>kept. return_prog
                       (if kept then g'\<lparr>rr_recovery := rr_recovery g' @ [OriginalCopy p]\<rparr>
                        else g'\<lparr>rr_errors := rr_errors g' @ [OriginalLost p]\<rparr>))
                else return_prog g'
            | None \<Rightarrow> return_prog g'))"

section \<open>Planning\<close>

text \<open>\<open>_current_bytes\<close>: nothing to read is \<open>None\<close>, and so is an \<open>OSError\<close>.\<close>

definition current_bytes :: "path \<Rightarrow> (upgrade, string option) prog" where
  "current_bytes p =
     catching (bind_prog (faulty (\<lambda>u. (read_bytes p u, u))) (\<lambda>b. return_prog (Some b)))
              (\<lambda>e. if is_os_error e then return_prog None else raise_prog e)"

record restore_plan =
  pn_writes :: "(path \<times> string) list"
  pn_removals :: "path list"
  pn_prunes :: "path list"
  pn_foreign :: "(path \<times> string) list"

definition no_plan :: restore_plan where
  "no_plan = \<lparr>pn_writes = [], pn_removals = [], pn_prunes = [], pn_foreign = []\<rparr>"

definition note_foreign :: "path \<Rightarrow> string option \<Rightarrow> restore_plan \<Rightarrow> restore_plan" where
  "note_foreign p current n =
     (case current of None \<Rightarrow> n | Some b \<Rightarrow> n\<lparr>pn_foreign := AList.update p b (pn_foreign n)\<rparr>)"

definition plan_snapshot :: "path \<Rightarrow> string option \<Rightarrow> string option \<Rightarrow> restore_plan \<Rightarrow> restore_plan" where
  "plan_snapshot p state current n =
     (case state of
        Some bytes \<Rightarrow>
          if current = state then n
          else note_foreign p current (n\<lparr>pn_writes := AList.update p bytes (pn_writes n)\<rparr>)
      | None \<Rightarrow>
          if current = None then n
          else note_foreign p current (n\<lparr>pn_removals := pn_removals n @ [p]\<rparr>))"

fun plan_snapshots :: "(path \<times> string option) list \<Rightarrow> restore_plan \<Rightarrow> (upgrade, restore_plan) prog" where
  "plan_snapshots [] n = return_prog n"
| "plan_snapshots ((p, state) # ss) n =
     bind_prog (current_bytes p) (\<lambda>current. plan_snapshots ss (plan_snapshot p state current n))"

fun plan_files :: "(path \<times> string option) list \<Rightarrow> path list \<Rightarrow> restore_plan \<Rightarrow> (upgrade, restore_plan) prog" where
  "plan_files snaps [] n = return_prog n"
| "plan_files snaps (p # ps) n =
     (if map_of snaps p \<noteq> None then plan_files snaps ps n
      else bind_prog (current_bytes p) (\<lambda>current.
        plan_files snaps ps (note_foreign p current (n\<lparr>pn_removals := pn_removals n @ [p]\<rparr>))))"

fun plan_directories ::
  "(path \<times> string option) list \<Rightarrow> path list \<Rightarrow> (path \<times> string list \<times> string list) list \<Rightarrow> restore_plan \<Rightarrow> (upgrade, restore_plan) prog" where
  "plan_directories snaps original [] n = return_prog n"
| "plan_directories snaps original ((dir, ds, fs) # rest) n =
     bind_prog (plan_files snaps (map (\<lambda>x. dir @ [x]) fs) n) (\<lambda>n.
     plan_directories snaps original rest
       (n\<lparr>pn_prunes := pn_prunes n @ filter (\<lambda>q. q \<notin> set original) (map (\<lambda>x. dir @ [x]) ds)\<rparr>))"

text \<open>Each root with its walk, taken before any of them is planned.\<close>

fun plan_roots ::
  "(path \<times> string option) list \<Rightarrow> (path \<times> path list \<times> (path \<times> string list \<times> string list) list) list \<Rightarrow> restore_plan
   \<Rightarrow> (upgrade, restore_plan) prog" where
  "plan_roots snaps [] n = return_prog n"
| "plan_roots snaps ((root, original, walked) # rest) n =
     bind_prog (plan_directories snaps original (rev walked) n) (\<lambda>n.
     plan_roots snaps rest
       (if walked \<noteq> [] \<and> root \<notin> set original then n\<lparr>pn_prunes := pn_prunes n @ [root]\<rparr> else n))"

definition plan_restore ::
  "(path \<times> string option) list \<Rightarrow> (path \<times> path list) list \<Rightarrow> (upgrade, restore_plan) prog" where
  "plan_restore snaps roots =
     bind_prog (plan_snapshots snaps no_plan) (\<lambda>n u.
     plan_roots snaps (map (\<lambda>(root, original). (root, original, walk_root u root)) roots) n u)"

section \<open>Preserving and applying\<close>

fun preserve_all :: "(path \<times> string) list \<Rightarrow> (upgrade, unit) prog" where
  "preserve_all [] = return_prog ()"
| "preserve_all ((p, b) # fs) = bind_prog (preserve p b) (\<lambda>_. preserve_all fs)"

definition preserve_foreign :: "bool \<Rightarrow> (path \<times> string) list \<Rightarrow> (upgrade, unit) prog" where
  "preserve_foreign stored foreign =
     (if stored \<and> foreign \<noteq> [] then bind_prog (preserve_all foreign) (\<lambda>_. commit_recovery) else return_prog ())"

definition restore_file :: "path \<Rightarrow> string \<Rightarrow> (upgrade, unit) prog" where
  "restore_file p bytes = bind_prog (make_directories (rev (parents p))) (\<lambda>_. replace_file p bytes)"

definition apply_write ::
  "bool \<Rightarrow> (path \<times> string option) list \<Rightarrow> path \<Rightarrow> string \<Rightarrow> progress \<Rightarrow> (upgrade, progress) prog" where
  "apply_write stored snaps p bytes g =
     catching
       (bind_prog (restore_file p bytes) (\<lambda>_. return_prog (restored_at p g)))
       (\<lambda>_. bind_prog (current_bytes p) (\<lambda>now.
        if now = Some bytes then return_prog g
        else fail_at stored ''restore original file'' p (case map_of snaps p of Some s \<Rightarrow> s | None \<Rightarrow> None) g))"

fun apply_writes ::
  "bool \<Rightarrow> (path \<times> string option) list \<Rightarrow> (path \<times> string) list \<Rightarrow> progress \<Rightarrow> (upgrade, progress) prog" where
  "apply_writes stored snaps [] g = return_prog g"
| "apply_writes stored snaps ((p, bytes) # ws) g =
     bind_prog (apply_write stored snaps p bytes g) (apply_writes stored snaps ws)"

text \<open>\<open>os.remove\<close>: whether there was something; \<open>os.rmdir\<close>, where a missing directory is an error.\<close>

definition remove_file :: "path \<Rightarrow> ('x disk_scheme, bool) prog" where
  "remove_file p = faulty (\<lambda>d.
     case node d p of
       None \<Rightarrow> if list_ex (\<lambda>q. is_regular (node d q)) (parents p) then (Inl OSError, d) else (Inr False, d)
     | Some (Directory _) \<Rightarrow> (Inl OSError, d)
     | Some _ \<Rightarrow> (Inr True, drop_node p d))"

definition rmdir :: "path \<Rightarrow> ('x disk_scheme, unit) prog" where
  "rmdir p = faulty (\<lambda>d.
     if is_directory (node d p) \<and> p \<noteq> [] \<and> child_names d p = [] then (Inr (), drop_node p d) else (Inl OSError, d))"

definition apply_removal :: "bool \<Rightarrow> path \<Rightarrow> progress \<Rightarrow> (upgrade, progress) prog" where
  "apply_removal stored p g =
     catching (bind_prog (remove_file p) (\<lambda>gone. return_prog (if gone then restored_at p g else g)))
              (\<lambda>_. fail_at stored ''remove introduced file'' p None g)"

fun apply_removals :: "bool \<Rightarrow> path list \<Rightarrow> progress \<Rightarrow> (upgrade, progress) prog" where
  "apply_removals stored [] g = return_prog g"
| "apply_removals stored (p # ps) g = bind_prog (apply_removal stored p g) (apply_removals stored ps)"

definition apply_prune :: "bool \<Rightarrow> path \<Rightarrow> progress \<Rightarrow> (upgrade, progress) prog" where
  "apply_prune stored p g =
     catching (bind_prog (rmdir p) (\<lambda>_. return_prog (restored_at p g)))
              (\<lambda>_ u. if exists_at u p then fail_at stored ''remove new directory'' p None g u else (Inr g, u))"

fun apply_prunes :: "bool \<Rightarrow> path list \<Rightarrow> progress \<Rightarrow> (upgrade, progress) prog" where
  "apply_prunes stored [] g = return_prog g"
| "apply_prunes stored (p # ps) g = bind_prog (apply_prune stored p g) (apply_prunes stored ps)"

section \<open>Verifying\<close>

definition verify_snapshot :: "bool \<Rightarrow> path \<Rightarrow> string option \<Rightarrow> progress \<Rightarrow> (upgrade, progress) prog" where
  "verify_snapshot stored p state g =
     (if p \<in> set (pg_failed g) then return_prog g
      else bind_prog (current_bytes p) (\<lambda>current u.
        if current = state \<and> (state \<noteq> None \<or> \<not> exists_at u p) then (Inr g, u)
        else fail_at stored ''verify restored file'' p state g u))"

fun verify_snapshots :: "bool \<Rightarrow> (path \<times> string option) list \<Rightarrow> progress \<Rightarrow> (upgrade, progress) prog" where
  "verify_snapshots stored [] g = return_prog g"
| "verify_snapshots stored ((p, state) # ss) g =
     bind_prog (verify_snapshot stored p state g) (verify_snapshots stored ss)"

fun fail_all :: "bool \<Rightarrow> string \<Rightarrow> path list \<Rightarrow> progress \<Rightarrow> (upgrade, progress) prog" where
  "fail_all stored action [] g = return_prog g"
| "fail_all stored action (p # ps) g = bind_prog (fail_at stored action p None g) (fail_all stored action ps)"

definition expected_files :: "(path \<times> string option) list \<Rightarrow> path \<Rightarrow> path list" where
  "expected_files snaps root = map fst (filter (\<lambda>(p, s). s \<noteq> None \<and> within p root) snaps)"

definition walked_files :: "(path \<times> string list \<times> string list) list \<Rightarrow> path list" where
  "walked_files walked = concat (map (\<lambda>(dir, ds, fs). map (\<lambda>x. dir @ [x]) fs) walked)"

definition verify_root ::
  "bool \<Rightarrow> (path \<times> string option) list \<Rightarrow> path \<Rightarrow> path list \<Rightarrow> progress \<Rightarrow> (upgrade, progress) prog" where
  "verify_root stored snaps root original g u =
     (if \<not> exists_at u root
      then (if original = [] then (Inr g, u) else fail_at stored ''verify restored directory'' root None g u)
      else
        (let walked = walk_root u root; dirs = map fst walked
         in bind_prog
              (fail_all stored ''verify removed file'' (filter (\<lambda>p. p \<notin> set (expected_files snaps root)) (walked_files walked)) g)
              (fail_all stored ''verify restored directory''
                (sort_key path_str (remdups (filter (\<lambda>p. p \<notin> set original) dirs @ filter (\<lambda>p. p \<notin> set dirs) original)))) u))"

fun verify_roots ::
  "bool \<Rightarrow> (path \<times> string option) list \<Rightarrow> (path \<times> path list) list \<Rightarrow> progress \<Rightarrow> (upgrade, progress) prog" where
  "verify_roots stored snaps [] g = return_prog g"
| "verify_roots stored snaps ((root, original) # rs) g =
     bind_prog (verify_root stored snaps root original g) (verify_roots stored snaps rs)"

section \<open>The whole restore\<close>

definition apply_plan :: "bool \<Rightarrow> (path \<times> string option) list \<Rightarrow> restore_plan \<Rightarrow> (upgrade, progress) prog" where
  "apply_plan stored snaps n =
     bind_prog (apply_writes stored snaps (pn_writes n) no_progress) (\<lambda>g.
     bind_prog (apply_removals stored (pn_removals n) g)
       (apply_prunes stored (pn_prunes n)))"

definition report_of :: "progress \<Rightarrow> restore_report" where
  "report_of g = \<lparr>rr_restored = rr_restored g, rr_errors = rr_errors g, rr_recovery = dict_fromkeys (rr_recovery g)\<rparr>"

definition restore_snapshots ::
  "bool \<Rightarrow> (path \<times> string option) list \<Rightarrow> (path \<times> path list) list \<Rightarrow> (upgrade, restore_report) prog" where
  "restore_snapshots stored snaps roots =
     bind_prog (plan_restore snaps roots) (\<lambda>n.
     bind_prog (preserve_foreign stored (pn_foreign n)) (\<lambda>_.
     bind_prog (apply_plan stored snaps n) (\<lambda>g.
     bind_prog (verify_snapshots stored snaps g) (\<lambda>g.
     bind_prog (verify_roots stored snaps roots g) (\<lambda>g.
     return_prog (report_of g))))))"

definition restore_stage :: "(string \<Rightarrow> string) \<Rightarrow> upgrade_journal \<Rightarrow> stage \<Rightarrow> (upgrade, restore_report) prog" where
  "restore_stage hx j g =
     bind_prog (stage_snapshots hx j g) (\<lambda>(snaps, roots).
     if snaps = [] \<and> roots = [] then return_prog no_report else restore_snapshots True snaps roots)"

definition restore_journal :: "(string \<Rightarrow> string) \<Rightarrow> upgrade_journal \<Rightarrow> path \<Rightarrow> (upgrade, restore_report) prog" where
  "restore_journal hx j given =
     (let ledger_path = canonical j given in
      bind_prog (path_state hx j PreCompile ledger_path) (\<lambda>ledger.
      bind_prog (case ledger of None \<Rightarrow> return_prog no_report
                 | Some s \<Rightarrow> restore_snapshots True [(ledger_path, s)] []) (\<lambda>first.
      bind_prog (restore_stage hx j PostCompile) (\<lambda>second.
      bind_prog (restore_stage hx j PreCompile) (\<lambda>third.
      return_prog (merged (merged first second) third))))))"

end
