(* ===== verification/Restore_Safety.thy ===== *)
theory Restore_Safety
  imports Upgrade_Restore File_Transaction_Runs
begin

text \<open>
  What a restore does to the disk and what its report says: verification only looks, a report without
  errors means every snapshot and every root was found as captured, and writes and removals stay
  within the plan.
\<close>

section \<open>Looking\<close>

lemma exists_still: "still u u' \<Longrightarrow> exists_at u' p = exists_at u p"
  by (simp add: exists_at_def still_node)

lemma child_names_still: "still u u' \<Longrightarrow> child_names u' p = child_names u p"
  by (simp add: child_names_def still_def)

lemma walk_still: "still u u' \<Longrightarrow> walk n u' p = walk n u p"
  by (induction n arbitrary: p) (simp_all add: child_names_still still_node Let_def)

lemma walk_root_still: "still u u' \<Longrightarrow> walk_root u' p = walk_root u p"
proof -
  assume st: "still u u'"
  then have "walk_depth u' = walk_depth u" by (simp add: walk_depth_def still_def)
  then show ?thesis by (simp only: walk_root_def walk_still[OF st] still_node[OF st])
qed

lemma keeps_still_current_bytes: "keeps still (current_bytes p)"
  unfolding current_bytes_def by (auto intro!: keeps_still)

lemma keeps_still_with_recovery: "keeps still (with_recovery f)"
  unfolding with_recovery_def
  by (rule keeps_faulty_any[OF still_trans]) (auto simp: still_def keeps_def)

lemma keeps_still_in_recovery: "keeps still (in_recovery f)"
  by (simp add: keeps_def in_recovery_def still_def)

lemma keeps_still_copy: "keeps still (copy_bytes b)"
proof -
  have a: "keeps still (\<lambda>u. if rc_open (up_recovery u) then (Inr (), u) else with_recovery (\<lambda>r. r\<lparr>rc_open := True\<rparr>) u)"
    using keeps_still_with_recovery still_refl by (auto simp: keeps_def split: if_splits)
  show ?thesis
    unfolding copy_bytes_def
    by (intro keeps_still_bind a keeps_still_with_recovery keeps_still_in_recovery keeps_still_pure)
qed

lemma keeps_still_preserve: "keeps still (preserve p b)"
  unfolding preserve_def by (intro keeps_still_bind keeps_still_copy keeps_still_in_recovery)

lemma keeps_still_keep_original: "keeps still (keep_original p b)"
  unfolding keep_original_def
  by (intro keeps_still_catching keeps_still_bind keeps_still_copy keeps_still_in_recovery keeps_still_pure keeps_if)

lemma keeps_still_commit: "keeps still commit_recovery"
  using keeps_still_with_recovery still_refl by (auto simp: keeps_def commit_recovery_def split: if_splits)

lemma keeps_still_fail: "keeps still (fail_at stored a p s g)"
  unfolding fail_at_def Let_def
  by (cases s) (auto intro!: keeps_still_bind keeps_still_keep_original keeps_still_pure)

text \<open>
  A relation that reading a file and noting a failure keep is kept by planning and verifying, which do
  nothing else.
\<close>

locale restore_frame =
  fixes R :: "upgrade \<Rightarrow> upgrade \<Rightarrow> bool"
  assumes refl: "R u u"
    and trans: "R u v \<Longrightarrow> R v w \<Longrightarrow> R u w"
    and reads: "keeps R (current_bytes p)"
    and fails: "keeps R (fail_at stored a p s g)"
begin

lemma bind: "keeps R m \<Longrightarrow> (\<And>x. keeps R (f x)) \<Longrightarrow> keeps R (bind_prog m f)"
  by (rule keeps_bind) (auto intro: trans)

lemma pure: "keeps R (return_prog x)"
  by (rule keeps_pure) (rule refl)

lemma plan_snapshots: "keeps R (plan_snapshots ss n)"
proof (induction ss arbitrary: n)
  case (Cons x ss)
  then show ?case by (cases x) (auto intro!: bind reads)
qed (auto intro!: pure)

lemma plan_files: "keeps R (plan_files snaps ps n)"
  by (induction ps arbitrary: n) (auto intro!: bind reads pure)

lemma plan_directories: "keeps R (plan_directories snaps original ws n)"
proof (induction ws arbitrary: n)
  case (Cons x ws)
  then show ?case by (cases x) (auto intro!: bind plan_files)
qed (auto intro!: pure)

lemma plan_roots: "keeps R (plan_roots snaps rs n)"
proof (induction rs arbitrary: n)
  case (Cons x rs)
  then show ?case by (cases x) (auto intro!: bind plan_directories)
qed (auto intro!: pure)

lemma plan_restore: "keeps R (plan_restore snaps roots)"
  unfolding plan_restore_def
proof (rule bind[OF plan_snapshots])
  show "keeps R (\<lambda>u. plan_roots snaps (map (\<lambda>(root, original). (root, original, walk_root u root)) roots) n u)" for n
    using plan_roots by (auto simp: keeps_def)
qed

lemma verify_snapshot: "keeps R (verify_snapshot stored p s g)"
proof -
  have "keeps R (\<lambda>u. if current = s \<and> (s \<noteq> None \<or> \<not> exists_at u p) then (Inr g, u)
        else fail_at stored ''verify restored file'' p s g u)" for current
    using fails refl by (auto simp: keeps_def split: if_splits)
  then show ?thesis
    unfolding verify_snapshot_def by (auto intro!: bind reads pure)
qed

lemma verify_snapshots: "keeps R (verify_snapshots stored ss g)"
proof (induction ss arbitrary: g)
  case (Cons x ss)
  then show ?case by (cases x) (auto intro!: bind verify_snapshot)
qed (auto intro!: pure)

lemma fail_all: "keeps R (fail_all stored a ps g)"
  by (induction ps arbitrary: g) (auto intro!: bind fails pure)

lemma verify_root: "keeps R (verify_root stored snaps root original g)"
proof -
  have "keeps R (bind_prog (fail_all stored a ps g) (fail_all stored b qs))" for a ps b qs
    by (intro bind fail_all)
  then show ?thesis
    using fails refl unfolding keeps_def verify_root_def Let_def by (auto split: if_splits)
qed

lemma verify_roots: "keeps R (verify_roots stored snaps rs g)"
proof (induction rs arbitrary: g)
  case (Cons x rs)
  then show ?case by (cases x) (auto intro!: bind verify_root)
qed (auto intro!: pure)

end

interpretation looking: restore_frame still
  by unfold_locales (rule still_refl still_trans keeps_still_current_bytes keeps_still_fail; assumption)+

lemma keeps_still_preserve_all: "keeps still (preserve_all fs)"
proof (induction fs)
  case (Cons x fs)
  then show ?case by (cases x) (auto intro!: keeps_still_bind keeps_still_preserve)
qed (auto intro!: keeps_still_pure)

lemma keeps_still_preserve_foreign: "keeps still (preserve_foreign stored fs)"
  unfolding preserve_foreign_def
  by (auto intro!: keeps_still_bind keeps_still_preserve_all keeps_still_commit keeps_still_pure)

lemma current_bytes_seen:
  assumes "current_bytes p u = (Inr (Some b), u')"
  shows "content u p = Some b"
  using assms unfolding current_bytes_def
proof (cases rule: catching_cases)
  case (raised e u1)
  then show ?thesis by (auto simp: return_prog_def raise_prog_def split: if_splits)
next
  case (returned x)
  then obtain u1 where "faulty (\<lambda>u. (read_bytes p u, u)) u = (Inr b, u1)"
    by (auto elim!: bind_prog_cases)
  then obtain fs where "read_bytes p (u\<lparr>dk_faults := fs\<rparr>) = Inr b" by (elim faulty_Inr) auto
  then have "look p u = Inr (Some b)"
    by (auto simp: read_bytes_def look_def split: sum.splits option.splits disk_node.splits if_splits)
  then show ?thesis by (rule look_content)
qed

section \<open>A report without errors\<close>

text \<open>A path only counts as failed when an error was noted.\<close>

definition honest :: "progress \<Rightarrow> bool" where
  "honest g \<longleftrightarrow> (pg_failed g = [] \<or> rr_errors g \<noteq> [])"

lemma fail_at_errors:
  assumes "fail_at stored a p s g u = (Inr g', u')" "honest g"
  shows "rr_errors g' \<noteq> [] \<and> honest g'"
  using assms unfolding fail_at_def Let_def honest_def
  by (cases s) (auto simp: return_prog_def elim!: bind_prog_cases split: if_splits)

definition grows :: "progress \<Rightarrow> progress \<Rightarrow> bool" where
  "grows g g' \<longleftrightarrow> honest g' \<and> (rr_errors g' = [] \<longrightarrow> rr_errors g = [])"

lemma grows_refl: "honest g \<Longrightarrow> grows g g"
  by (simp add: grows_def)

lemma grows_trans: "grows a b \<Longrightarrow> grows b c \<Longrightarrow> grows a c"
  by (simp add: grows_def)

lemma grows_honest: "grows a b \<Longrightarrow> honest b"
  by (simp add: grows_def)

lemma fail_at_grows: "fail_at stored a p s g u = (Inr g', u') \<Longrightarrow> honest g \<Longrightarrow> grows g g'"
  using fail_at_errors by (auto simp: grows_def)

lemma apply_write_grows:
  assumes "apply_write stored snaps p b g u = (Inr g', u')" "honest g"
  shows "grows g g'"
  using assms(1) unfolding apply_write_def
proof (cases rule: catching_cases)
  case (raised e u1)
  then show ?thesis using assms(2) fail_at_grows
    by (auto simp: return_prog_def grows_refl elim!: bind_prog_cases split: if_splits)
next
  case (returned g1)
  then show ?thesis using assms(2)
    by (auto simp: return_prog_def restored_at_def grows_def honest_def elim!: bind_prog_cases)
qed

lemma apply_removal_grows:
  assumes "apply_removal stored p g u = (Inr g', u')" "honest g"
  shows "grows g g'"
  using assms(1) unfolding apply_removal_def
proof (cases rule: catching_cases)
  case (raised e u1)
  then show ?thesis using assms(2) fail_at_grows by blast
next
  case (returned g1)
  then show ?thesis using assms(2)
    by (auto simp: return_prog_def restored_at_def grows_def honest_def elim!: bind_prog_cases split: if_splits)
qed

lemma apply_prune_grows:
  assumes "apply_prune stored p g u = (Inr g', u')" "honest g"
  shows "grows g g'"
  using assms(1) unfolding apply_prune_def
proof (cases rule: catching_cases)
  case (raised e u1)
  then show ?thesis using assms(2) fail_at_grows grows_refl by (auto split: if_splits)
next
  case (returned g1)
  then show ?thesis using assms(2)
    by (auto simp: return_prog_def restored_at_def grows_def honest_def elim!: bind_prog_cases)
qed

text \<open>A loop whose steps let the report grow lets it grow.\<close>

lemma apply_writes_grows: "apply_writes stored snaps ws g u = (Inr g', u') \<Longrightarrow> honest g \<Longrightarrow> grows g g'"
proof (induction ws arbitrary: g u)
  case (Cons w ws)
  obtain p b where w: "w = (p, b)" by (cases w)
  from Cons.prems(1) obtain g1 u1 where one: "apply_write stored snaps p b g u = (Inr g1, u1)"
    and rest: "apply_writes stored snaps ws g1 u1 = (Inr g', u')" unfolding w by (auto elim!: bind_prog_cases)
  have "grows g g1" by (rule apply_write_grows[OF one Cons.prems(2)])
  with Cons.IH[OF rest] show ?case using grows_honest grows_trans by blast
qed (simp add: return_prog_def grows_refl)

lemma apply_removals_grows: "apply_removals stored ps g u = (Inr g', u') \<Longrightarrow> honest g \<Longrightarrow> grows g g'"
proof (induction ps arbitrary: g u)
  case (Cons p ps)
  from Cons.prems(1) obtain g1 u1 where one: "apply_removal stored p g u = (Inr g1, u1)"
    and rest: "apply_removals stored ps g1 u1 = (Inr g', u')" by (auto elim!: bind_prog_cases)
  have "grows g g1" by (rule apply_removal_grows[OF one Cons.prems(2)])
  with Cons.IH[OF rest] show ?case using grows_honest grows_trans by blast
qed (simp add: return_prog_def grows_refl)

lemma apply_prunes_grows: "apply_prunes stored ps g u = (Inr g', u') \<Longrightarrow> honest g \<Longrightarrow> grows g g'"
proof (induction ps arbitrary: g u)
  case (Cons p ps)
  from Cons.prems(1) obtain g1 u1 where one: "apply_prune stored p g u = (Inr g1, u1)"
    and rest: "apply_prunes stored ps g1 u1 = (Inr g', u')" by (auto elim!: bind_prog_cases)
  have "grows g g1" by (rule apply_prune_grows[OF one Cons.prems(2)])
  with Cons.IH[OF rest] show ?case using grows_honest grows_trans by blast
qed (simp add: return_prog_def grows_refl)

lemma fail_all_grows:
  "fail_all stored a ps g u = (Inr g', u') \<Longrightarrow> honest g \<Longrightarrow> grows g g' \<and> (rr_errors g' = [] \<longrightarrow> ps = [])"
proof (induction ps arbitrary: g u)
  case (Cons p ps)
  from Cons.prems(1) obtain g1 u1 where one: "fail_at stored a p None g u = (Inr g1, u1)"
    and rest: "fail_all stored a ps g1 u1 = (Inr g', u')" by (auto elim!: bind_prog_cases)
  have g1: "grows g g1" "rr_errors g1 \<noteq> []"
    using fail_at_grows[OF one Cons.prems(2)] fail_at_errors[OF one Cons.prems(2)] by simp_all
  from Cons.IH[OF rest grows_honest[OF g1(1)]] g1 show ?case
    using grows_trans by (auto simp: grows_def)
qed (simp add: return_prog_def grows_refl)

lemma verify_snapshot_grows:
  assumes "verify_snapshot stored p s g u = (Inr g', u')" "honest g"
  shows "grows g g' \<and> (rr_errors g' = [] \<longrightarrow> content u p = s \<and> (s = None \<longrightarrow> \<not> exists_at u p))"
proof (cases "p \<in> set (pg_failed g)")
  case True
  with assms have "g' = g" "rr_errors g \<noteq> []" by (auto simp: verify_snapshot_def return_prog_def honest_def)
  with assms(2) show ?thesis by (simp add: grows_refl)
next
  case False
  with assms(1) obtain current u1 where cur: "current_bytes p u = (Inr current, u1)"
    and rest: "(if current = s \<and> (s \<noteq> None \<or> \<not> exists_at u1 p) then (Inr g, u1)
        else fail_at stored ''verify restored file'' p s g u1) = (Inr g', u')"
    by (auto simp: verify_snapshot_def elim!: bind_prog_cases)
  have st: "still u u1" by (rule keepsD[OF keeps_still_current_bytes cur])
  show ?thesis
  proof (cases "current = s \<and> (s \<noteq> None \<or> \<not> exists_at u1 p)")
    case True
    with rest have "g' = g" by simp
    moreover have "content u p = s \<and> (s = None \<longrightarrow> \<not> exists_at u p)"
      using True cur current_bytes_seen exists_still[OF st, of p]
      by (cases s) (auto simp: exists_at_def content_def)
    ultimately show ?thesis using assms(2) by (simp add: grows_refl)
  next
    case False
    from rest have "fail_at stored ''verify restored file'' p s g u1 = (Inr g', u')" unfolding if_not_P[OF False] .
    from fail_at_errors[OF this assms(2)] fail_at_grows[OF this assms(2)] show ?thesis by simp
  qed
qed

lemma verify_snapshots_grows:
  "verify_snapshots stored ss g u = (Inr g', u') \<Longrightarrow> honest g \<Longrightarrow>
   grows g g' \<and> (rr_errors g' = [] \<longrightarrow> (\<forall>(p, s) \<in> set ss. content u p = s \<and> (s = None \<longrightarrow> \<not> exists_at u p)))"
proof (induction ss arbitrary: g u)
  case (Cons x ss)
  obtain p s where x: "x = (p, s)" by (cases x)
  from Cons.prems(1) obtain g1 u1 where one: "verify_snapshot stored p s g u = (Inr g1, u1)"
    and rest: "verify_snapshots stored ss g1 u1 = (Inr g', u')" unfolding x by (auto elim!: bind_prog_cases)
  have st: "still u u1" by (rule keepsD[OF looking.verify_snapshot one])
  note first = verify_snapshot_grows[OF one Cons.prems(2)]
  note second = Cons.IH[OF rest grows_honest[OF conjunct1[OF first]]]
  have "grows g g'" using first second grows_trans by blast
  moreover have "\<forall>(p, s) \<in> set (x # ss). content u p = s \<and> (s = None \<longrightarrow> \<not> exists_at u p)" if "rr_errors g' = []"
  proof -
    have "rr_errors g1 = []" using second that by (simp add: grows_def)
    with first second that x show ?thesis
      using still_content[OF st] exists_still[OF st] by auto
  qed
  ultimately show ?case by blast
qed (simp add: return_prog_def grows_refl)

definition root_exact :: "'x disk_scheme \<Rightarrow> (path \<times> string option) list \<Rightarrow> path \<Rightarrow> path list \<Rightarrow> bool" where
  "root_exact u snaps root original \<longleftrightarrow>
     (if exists_at u root
      then set (walked_files (walk_root u root)) \<subseteq> set (expected_files snaps root)
        \<and> set (map fst (walk_root u root)) = set original
      else original = [])"

lemma root_exact_still: "still u u' \<Longrightarrow> root_exact u' snaps root original = root_exact u snaps root original"
  by (simp add: root_exact_def exists_still walk_root_still)

lemma verify_root_grows:
  assumes "verify_root stored snaps root original g u = (Inr g', u')" "honest g"
  shows "grows g g' \<and> (rr_errors g' = [] \<longrightarrow> root_exact u snaps root original)"
proof (cases "exists_at u root")
  case False
  show ?thesis
  proof (cases "original = []")
    case True
    with assms False show ?thesis by (auto simp: verify_root_def root_exact_def grows_refl)
  next
    case nonempty: False
    with assms(1) False have "fail_at stored ''verify restored directory'' root None g u = (Inr g', u')"
      by (simp add: verify_root_def)
    from fail_at_errors[OF this assms(2)] fail_at_grows[OF this assms(2)] show ?thesis by simp
  qed
next
  case True
  let ?walked = "walk_root u root"
  let ?dirs = "map fst ?walked"
  let ?extra = "filter (\<lambda>p. p \<notin> set (expected_files snaps root)) (walked_files ?walked)"
  let ?odd = "sort_key path_str (remdups (filter (\<lambda>p. p \<notin> set original) ?dirs @ filter (\<lambda>p. p \<notin> set ?dirs) original))"
  from assms(1) True obtain g1 u1 where one: "fail_all stored ''verify removed file'' ?extra g u = (Inr g1, u1)"
    and two: "fail_all stored ''verify restored directory'' ?odd g1 u1 = (Inr g', u')"
    by (auto simp: verify_root_def Let_def elim!: bind_prog_cases)
  note first = fail_all_grows[OF one assms(2)]
  note second = fail_all_grows[OF two grows_honest[OF conjunct1[OF first]]]
  have "grows g g'" using first second grows_trans by blast
  moreover have "root_exact u snaps root original" if "rr_errors g' = []"
  proof -
    have "?extra = []" using first second that by (simp add: grows_def)
    then have sub: "set (walked_files ?walked) \<subseteq> set (expected_files snaps root)"
      by (auto simp: filter_empty_conv)
    have "set ?odd = {}" using second that by simp
    then have "set ?dirs = set original" by auto
    with sub True show ?thesis by (simp add: root_exact_def)
  qed
  ultimately show ?thesis by blast
qed

lemma verify_roots_grows:
  "verify_roots stored snaps rs g u = (Inr g', u') \<Longrightarrow> honest g \<Longrightarrow>
   grows g g' \<and> (rr_errors g' = [] \<longrightarrow> (\<forall>(root, original) \<in> set rs. root_exact u snaps root original))"
proof (induction rs arbitrary: g u)
  case (Cons x rs)
  obtain root original where x: "x = (root, original)" by (cases x)
  from Cons.prems(1) obtain g1 u1 where one: "verify_root stored snaps root original g u = (Inr g1, u1)"
    and rest: "verify_roots stored snaps rs g1 u1 = (Inr g', u')" unfolding x by (auto elim!: bind_prog_cases)
  have st: "still u u1" by (rule keepsD[OF looking.verify_root one])
  note first = verify_root_grows[OF one Cons.prems(2)]
  note second = Cons.IH[OF rest grows_honest[OF conjunct1[OF first]]]
  have "grows g g'" using first second grows_trans by blast
  moreover have "\<forall>(root, original) \<in> set (x # rs). root_exact u snaps root original" if "rr_errors g' = []"
  proof -
    have "rr_errors g1 = []" using second that by (simp add: grows_def)
    with first second that x show ?thesis using root_exact_still[OF st] by auto
  qed
  ultimately show ?case by blast
qed (simp add: return_prog_def grows_refl)

section \<open>The walk misses no file\<close>

lemma child_listed:
  assumes "node d (p @ [x]) \<noteq> None"
  shows "x \<in> set (child_names d p)"
proof -
  from assms have "map_of (dk_nodes d) (p @ [x]) \<noteq> None" by (simp add: node_def)
  then obtain n where "(p @ [x], n) \<in> set (dk_nodes d)" by (auto dest: map_of_SomeD)
  then have "(p @ [x], n) \<in> set (filter (\<lambda>(q, n). q \<noteq> [] \<and> butlast q = p) (dk_nodes d))" by simp
  then have "last (p @ [x]) \<in> (\<lambda>(q, n). last q) ` set (filter (\<lambda>(q, n). q \<noteq> [] \<and> butlast q = p) (dk_nodes d))"
    by (metis (no_types, lifting) image_eqI case_prod_conv)
  then show ?thesis by (simp add: child_names_def)
qed

lemma walk_below:
  assumes "c \<in> set (child_names d p)" "\<not> is_excluded (p @ [c])" "is_directory (node d (p @ [c]))"
  shows "set (walked_files (walk m d (p @ [c]))) \<subseteq> set (walked_files (walk (Suc m) d p))"
proof
  fix q assume "q \<in> set (walked_files (walk m d (p @ [c])))"
  then obtain dir ds fs y where q: "(dir, ds, fs) \<in> set (walk m d (p @ [c]))" "y \<in> set fs" "q = dir @ [y]"
    by (auto simp: walked_files_def)
  with assms have "(dir, ds, fs) \<in> set (walk (Suc m) d p)" by (auto simp: Let_def)
  with q show "q \<in> set (walked_files (walk (Suc m) d p))"
    unfolding walked_files_def by (force simp del: walk.simps)
qed

lemma walk_lists_files:
  assumes "node d (p @ r @ [x]) = Some (Regular b)" "length r < n"
    and "\<forall>i \<le> length r. is_directory (node d (p @ take i r))" "\<forall>i \<le> length r. \<not> is_excluded (p @ take (Suc i) (r @ [x]))"
  shows "p @ r @ [x] \<in> set (walked_files (walk n d p))"
  using assms
proof (induction r arbitrary: p n)
  case Nil
  then obtain m where n: "n = Suc m" by (cases n) auto
  have "x \<in> set (child_names d p)" by (rule child_listed) (use Nil.prems(1) in simp)
  with Nil.prems n show ?case by (auto simp: walked_files_def Let_def)
next
  case (Cons c r)
  then obtain m where n: "n = Suc m" by (cases n) auto
  have dir: "is_directory (node d (p @ [c]))" using Cons.prems(3)[rule_format, of 1] by simp
  then have "node d (p @ [c]) \<noteq> None" by (cases "node d (p @ [c])") auto
  then have c: "c \<in> set (child_names d p)" by (rule child_listed)
  have ex: "\<not> is_excluded (p @ [c])" using Cons.prems(4)[rule_format, of 0] by simp
  have "(p @ [c]) @ r @ [x] \<in> set (walked_files (walk m d (p @ [c])))"
  proof (rule Cons.IH)
    show "node d ((p @ [c]) @ r @ [x]) = Some (Regular b)" using Cons.prems(1) by simp
    show "length r < m" using Cons.prems(2) n by simp
    show "\<forall>i \<le> length r. is_directory (node d ((p @ [c]) @ take i r))"
    proof (intro allI impI)
      fix i assume "i \<le> length r"
      then show "is_directory (node d ((p @ [c]) @ take i r))" using Cons.prems(3)[rule_format, of "Suc i"] by simp
    qed
    show "\<forall>i \<le> length r. \<not> is_excluded ((p @ [c]) @ take (Suc i) (r @ [x]))"
    proof (intro allI impI)
      fix i assume "i \<le> length r"
      then show "\<not> is_excluded ((p @ [c]) @ take (Suc i) (r @ [x]))" using Cons.prems(4)[rule_format, of "Suc i"] by simp
    qed
  qed
  then show ?case using walk_below[OF c ex dir, of m] n by auto
qed

lemma foldr_max_member: "x \<in> set xs \<Longrightarrow> x \<le> foldr max xs (0::nat)"
  by (induction xs) auto

text \<open>A file under a root, none of whose ancestors up to the root is excluded, is in the walk.\<close>

lemma walk_root_lists:
  assumes "well_formed d" "content d (root @ r) = Some b" "r \<noteq> []" "\<forall>i < length r. \<not> is_excluded (root @ take (Suc i) r)"
  shows "exists_at d root \<and> root @ r \<in> set (walked_files (walk_root d root))"
proof -
  obtain r' x where r: "r = r' @ [x]" using assms(3) by (metis rev_exhaust)
  have reg: "node d (root @ r' @ [x]) = Some (Regular b)"
    using assms(2) r by (auto simp: content_def split: option.splits disk_node.splits)
  have dirs: "\<forall>i \<le> length r'. is_directory (node d (root @ take i r'))"
  proof (intro allI impI)
    fix i assume "i \<le> length r'"
    have "root @ r' @ [x] = (root @ take i r') @ (drop i r' @ [x])"
      by (metis append.assoc append_take_drop_id)
    with reg ancestors_directories[OF assms(1), of "root @ take i r'" "drop i r' @ [x]"]
    show "is_directory (node d (root @ take i r'))" by simp
  qed
  have "map_of (dk_nodes d) (root @ r' @ [x]) \<noteq> None" using reg by (simp add: node_def)
  then obtain n where "(root @ r' @ [x], n) \<in> set (dk_nodes d)" by (auto dest: map_of_SomeD)
  then have "length (root @ r' @ [x]) \<in> set (map (\<lambda>(q, n). length q) (dk_nodes d))" by force
  from foldr_max_member[OF this] have deep: "length r' < walk_depth d" by (simp add: walk_depth_def)
  have "is_directory (node d root)" using dirs[rule_format, of 0] by simp
  moreover have "root @ r' @ [x] \<in> set (walked_files (walk (walk_depth d) d root))"
  proof (rule walk_lists_files[OF reg deep dirs])
    show "\<forall>i \<le> length r'. \<not> is_excluded (root @ take (Suc i) (r' @ [x]))" using assms(4) r by simp
  qed
  ultimately show ?thesis using r by (cases "node d root") (auto simp: walk_root_def exists_at_def)
qed

section \<open>What applying a plan changes\<close>

definition applied :: "path set \<Rightarrow> upgrade \<Rightarrow> upgrade \<Rightarrow> bool" where
  "applied P u u' \<longleftrightarrow>
     (\<forall>p. p \<notin> P \<longrightarrow> content u' p = content u p) \<and> (well_formed u \<longrightarrow> well_formed u')
   \<and> rc_manifest (up_recovery u') = rc_manifest (up_recovery u)
   \<and> set (rc_files (up_recovery u)) \<subseteq> set (rc_files (up_recovery u'))
   \<and> set (dk_faults u') \<subseteq> set (dk_faults u)"

lemma applied_refl: "applied P u u"
  by (simp add: applied_def)

lemma applied_trans: "applied P a b \<Longrightarrow> applied P b c \<Longrightarrow> applied P a c"
  by (auto simp: applied_def)

lemma applied_faults: "set fs \<subseteq> set (dk_faults u) \<Longrightarrow> applied P u (u\<lparr>dk_faults := fs\<rparr>)"
  by (simp add: applied_def well_formed_def)

lemmas keeps_applied_bind = keeps_bind[where R = "applied P" for P, OF applied_trans]
lemmas keeps_applied_pure = keeps_pure[where R = "applied P" for P, OF applied_refl]
lemmas keeps_applied_catching = keeps_catching_any[where R = "applied P" for P, OF applied_trans]

lemma keeps_applied_faulty: "keeps (applied P) m \<Longrightarrow> keeps (applied P) (faulty m)"
  by (rule keeps_faulty_any) (auto intro: applied_trans applied_faults)

lemma up_recovery_nodes [simp]: "up_recovery (set_node p n u) = up_recovery u" "up_recovery (drop_node p u) = up_recovery u"
  by (simp_all add: set_node_def drop_node_def)

text \<open>Operations on the vault leave the store alone.\<close>

definition same_recovery :: "upgrade \<Rightarrow> upgrade \<Rightarrow> bool" where
  "same_recovery u u' \<longleftrightarrow> up_recovery u' = up_recovery u"

lemma keeps_same_recovery_faulty: "keeps same_recovery m \<Longrightarrow> keeps same_recovery (faulty m)"
  by (rule keeps_faulty_any) (auto simp: same_recovery_def)

lemmas keeps_same_recovery_bind = keeps_bind[where R = same_recovery]
lemmas keeps_same_recovery_pure = keeps_pure[where R = same_recovery]

lemma same_recovery_make_directory: "keeps same_recovery (make_directory q)"
proof -
  have "keeps same_recovery (\<lambda>d. if node d q = None \<and> is_directory (node d (butlast q))
      then (Inr (), (set_node q (Directory (dk_fresh d)) d)\<lparr>dk_fresh := dk_fresh d + 1\<rparr>) else (Inl OSError, d))"
    by (auto simp: keeps_def same_recovery_def)
  from keeps_same_recovery_faulty[OF this] show ?thesis
    unfolding keeps_def make_directory_def by (auto simp: same_recovery_def split: if_splits)
qed

lemma same_recovery_make_directories: "keeps same_recovery (make_directories qs)"
proof (induction qs)
  case Nil
  show ?case by (simp add: keeps_def same_recovery_def)
next
  case (Cons q qs)
  have "keeps same_recovery (bind_prog (make_directory q) (\<lambda>_. make_directories qs))"
    by (rule keeps_bind[OF _ same_recovery_make_directory Cons]) (simp add: same_recovery_def)
  then show ?case by simp
qed

lemma same_recovery_replace: "keeps same_recovery (replace_file p b)"
  unfolding replace_file_def
  by (rule keeps_same_recovery_faulty) (auto simp: keeps_def same_recovery_def)

lemma keeps_restore_file:
  assumes "p \<in> P"
  shows "keeps (applied P) (restore_file p b)"
  unfolding keeps_def
proof (intro allI impI)
  fix u r u' assume run: "restore_file p b u = (r, u')"
  have "keeps (moves P) (restore_file p b)"
    unfolding restore_file_def using assms
    by (intro keeps_moves_bind keeps_make_directories[of p] keeps_replace_file) auto
  from keepsD[OF this run] have "moves P u u'" .
  moreover have "keeps same_recovery (restore_file p b)"
    unfolding restore_file_def
    by (rule keeps_bind[OF _ same_recovery_make_directories same_recovery_replace]) (simp add: same_recovery_def)
  from keepsD[OF this run] have "up_recovery u' = up_recovery u" by (simp add: same_recovery_def)
  ultimately show "applied P u u'" by (simp add: applied_def moves_def)
qed

lemma well_formed_drop:
  assumes "well_formed d" "\<And>q. q \<noteq> [] \<Longrightarrow> node d q \<noteq> None \<Longrightarrow> butlast q \<noteq> p"
  shows "well_formed (drop_node p d)"
  using assms unfolding well_formed_def by (auto simp: node_drop split: if_splits)

lemma keeps_remove_file:
  assumes "p \<in> P"
  shows "keeps (applied P) (remove_file p)"
  unfolding remove_file_def
proof (rule keeps_applied_faulty)
  have drop: "applied P u (drop_node p u)" if "node u p = Some n" "\<not> is_directory (Some n)" for u :: upgrade and n
  proof -
    have "butlast q \<noteq> p" if "well_formed u" "q \<noteq> []" "node u q \<noteq> None" for q
      using that \<open>node u p = Some n\<close> \<open>\<not> is_directory (Some n)\<close> by (auto simp: well_formed_def)
    with assms show ?thesis by (auto simp: applied_def content_def node_drop intro: well_formed_drop)
  qed
  show "keeps (applied P) (\<lambda>d. case node d p of
       None \<Rightarrow> if list_ex (\<lambda>q. is_regular (node d q)) (parents p) then (Inl OSError, d) else (Inr False, d)
     | Some (Directory _) \<Rightarrow> (Inl OSError, d)
     | Some _ \<Rightarrow> (Inr True, drop_node p d))"
    unfolding keeps_def
  proof (intro allI impI)
    fix u u' :: upgrade and r
    assume run: "(case node u p of
       None \<Rightarrow> if list_ex (\<lambda>q. is_regular (node u q)) (parents p) then (Inl OSError, u) else (Inr False, u)
     | Some (Directory _) \<Rightarrow> (Inl OSError, u)
     | Some _ \<Rightarrow> (Inr True, drop_node p u)) = (r, u')"
    show "applied P u u'"
    proof (cases "node u p")
      case None
      with run show ?thesis by (auto intro: applied_refl split: if_splits)
    next
      case (Some n)
      with run drop[OF Some] show ?thesis by (cases n) (auto intro: applied_refl)
    qed
  qed
qed

lemma keeps_rmdir: "keeps (applied P) (rmdir p)"
  unfolding rmdir_def
proof (rule keeps_applied_faulty)
  have "applied P u (drop_node p u)" if "is_directory (node u p)" "p \<noteq> []" "child_names u p = []" for u :: upgrade
  proof -
    have "butlast q \<noteq> p" if "q \<noteq> []" "node u q \<noteq> None" for q
    proof
      assume "butlast q = p"
      then have "node u (p @ [last q]) \<noteq> None" using that by (metis append_butlast_last_id)
      from child_listed[OF this] \<open>child_names u p = []\<close> show False by simp
    qed
    then have "well_formed u \<longrightarrow> well_formed (drop_node p u)" using well_formed_drop by blast
    moreover have "content (drop_node p u) q = content u q" for q
      using that(1) by (cases "node u p") (auto simp: content_def node_drop elim: is_directory.elims)
    ultimately show ?thesis by (simp add: applied_def)
  qed
  then show "keeps (applied P) (\<lambda>d. if is_directory (node d p) \<and> p \<noteq> [] \<and> child_names d p = [] then (Inr (), drop_node p d) else (Inl OSError, d))"
    unfolding keeps_def by (auto intro: applied_refl split: if_splits)
qed

lemma keeps_applied_look: "keeps (applied P) (faulty (\<lambda>u :: upgrade. (g u, u)))"
  by (intro keeps_applied_faulty) (simp add: keeps_def applied_refl)

lemma keeps_applied_current: "keeps (applied P) (current_bytes p)"
  unfolding current_bytes_def
  by (intro keeps_applied_catching keeps_applied_bind keeps_applied_look keeps_applied_pure keeps_if)

lemma keeps_applied_recovery:
  assumes "\<And>r. rc_manifest (f r) = rc_manifest r \<and> set (rc_files r) \<subseteq> set (rc_files (f r))"
  shows "keeps (applied P) (with_recovery f)" "keeps (applied P) (in_recovery f)"
proof -
  have "applied P u (u\<lparr>up_recovery := f (up_recovery u)\<rparr>)" for u
    using assms[of "up_recovery u"] by (simp add: applied_def content_def node_def well_formed_def)
  then have step: "keeps (applied P) (\<lambda>u. (Inr (), u\<lparr>up_recovery := f (up_recovery u)\<rparr>))" by (simp add: keeps_def)
  from keeps_applied_faulty[OF step] show "keeps (applied P) (with_recovery f)" by (simp add: with_recovery_def[abs_def])
  from step show "keeps (applied P) (in_recovery f)" by (simp add: in_recovery_def[abs_def])
qed

lemma keeps_applied_copy: "keeps (applied P) (copy_bytes b)"
proof -
  have "keeps (applied P) (\<lambda>u. if rc_open (up_recovery u) then (Inr (), u) else with_recovery (\<lambda>r. r\<lparr>rc_open := True\<rparr>) u)"
    using keeps_applied_recovery(1)[of "\<lambda>r. r\<lparr>rc_open := True\<rparr>" P] applied_refl by (auto simp: keeps_def split: if_splits)
  then show ?thesis
    unfolding copy_bytes_def
    by (intro keeps_applied_bind keeps_applied_recovery keeps_applied_pure) auto
qed

lemma keeps_applied_keep_original: "keeps (applied P) (keep_original p b)"
  unfolding keep_original_def
  by (intro keeps_applied_catching keeps_applied_bind keeps_applied_copy keeps_applied_recovery keeps_applied_pure keeps_if) auto

lemma keeps_applied_fail: "keeps (applied P) (fail_at stored a p s g)"
  unfolding fail_at_def Let_def
  by (cases s) (auto intro!: keeps_applied_bind keeps_applied_keep_original keeps_applied_pure)

interpretation applying: restore_frame "applied P" for P
  by unfold_locales (rule applied_refl applied_trans keeps_applied_current keeps_applied_fail; assumption)+

lemma keeps_apply_writes: "fst ` set ws \<subseteq> P \<Longrightarrow> keeps (applied P) (apply_writes stored snaps ws g)"
proof (induction ws arbitrary: g)
  case (Cons w ws)
  obtain p b where w: "w = (p, b)" by (cases w)
  have "keeps (applied P) (apply_write stored snaps p b g)" for g
    unfolding apply_write_def using Cons.prems w
    by (intro keeps_applied_catching keeps_applied_bind keeps_restore_file keeps_applied_pure keeps_applied_current
        keeps_if keeps_applied_fail) auto
  with Cons w show ?case by (auto intro!: keeps_applied_bind)
qed (auto intro!: keeps_applied_pure)

lemma keeps_apply_removals: "set ps \<subseteq> P \<Longrightarrow> keeps (applied P) (apply_removals stored ps g)"
proof (induction ps arbitrary: g)
  case (Cons p ps)
  have "keeps (applied P) (apply_removal stored p g)" for g
    unfolding apply_removal_def using Cons.prems
    by (intro keeps_applied_catching keeps_applied_bind keeps_remove_file keeps_applied_pure keeps_applied_fail) auto
  with Cons show ?case by (auto intro!: keeps_applied_bind)
qed (auto intro!: keeps_applied_pure)

lemma keeps_apply_prunes: "keeps (applied P) (apply_prunes stored ps g)"
proof (induction ps arbitrary: g)
  case (Cons p ps)
  have "keeps (applied P) (\<lambda>u. if exists_at u p then fail_at stored a p None g u else (Inr g, u))" for a g
    using keeps_applied_fail applied_refl by (auto simp: keeps_def split: if_splits)
  then have "keeps (applied P) (apply_prune stored p g)" for g
    unfolding apply_prune_def
    by (intro keeps_applied_catching keeps_applied_bind keeps_rmdir keeps_applied_pure) auto
  with Cons show ?case by (auto intro!: keeps_applied_bind)
qed (auto intro!: keeps_applied_pure)

definition touched :: "restore_plan \<Rightarrow> path set" where
  "touched n = fst ` set (pn_writes n) \<union> set (pn_removals n)"

lemma keeps_apply_plan: "keeps (applied (touched n)) (apply_plan stored snaps n)"
  unfolding apply_plan_def touched_def
  by (intro keeps_applied_bind keeps_apply_writes keeps_apply_removals keeps_apply_prunes) auto

end
