(* ===== verification/Restore_Copies.thy ===== *)
theory Restore_Copies
  imports Restore_Safety
begin

text \<open>
  What a restore keeps: every byte the plan is going to replace or remove is copied and listed in the
  manifest before the first change, so nothing is lost wherever the restore stops.
\<close>

section \<open>Reading without errors\<close>

definition calm_reads :: "'x disk_scheme \<Rightarrow> bool" where
  "calm_reads u \<longleftrightarrow> (\<forall>e \<in> fault_errors u. \<not> is_os_error e)"

lemma calm_reads_faults: "calm_reads u \<Longrightarrow> set (dk_faults u') \<subseteq> set (dk_faults u) \<Longrightarrow> calm_reads u'"
  by (auto simp: calm_reads_def fault_errors_def)

lemma calm_reads_still: "calm_reads u \<Longrightarrow> still u u' \<Longrightarrow> calm_reads u'"
  by (auto simp: calm_reads_def still_def fault_errors_def)

lemma read_bytes_error: "read_bytes p u = Inl e \<Longrightarrow> content u p = None"
  by (auto simp: read_bytes_def look_def content_def split: sum.splits option.splits disk_node.splits if_splits)

lemma current_bytes_calm:
  assumes "current_bytes p u = (Inr x, u')" "calm_reads u"
  shows "x = content u p"
  using assms(1) unfolding current_bytes_def
proof (cases rule: catching_cases)
  case (raised e u1)
  then have x: "is_os_error e" "x = None" by (auto simp: return_prog_def raise_prog_def split: if_splits)
  from raised(1) have "faulty (\<lambda>u. (read_bytes p u, u)) u = (Inl e, u1)"
    by (auto simp: return_prog_def elim!: bind_prog_cases)
  then have "content u p = None"
  proof (cases rule: faulty_cases)
    case calm
    then show ?thesis by (auto dest: read_bytes_error)
  next
    case (fault f fs)
    from fault(3) show ?thesis
    proof
      assume "(Inl e, u1) = (read_bytes p (u\<lparr>dk_faults := fs\<rparr>), u\<lparr>dk_faults := fs\<rparr>)"
      then show ?thesis using read_bytes_error[of p "u\<lparr>dk_faults := fs\<rparr>" e] by simp
    next
      assume "\<exists>e'. Inl e = Inl e' \<and> fault_raises f e'"
      then have "e \<in> fault_errors u" using fault(1) by (auto simp: fault_errors_def)
      with x(1) assms(2) show ?thesis by (simp add: calm_reads_def)
    qed
  qed
  with x show ?thesis by simp
next
  case (returned y)
  then obtain b where "x = Some b" by (auto simp: return_prog_def elim!: bind_prog_cases)
  with current_bytes_seen[of p u b u'] assms(1) show ?thesis by simp
qed

section \<open>The plan knows what it touches\<close>

definition planned :: "restore_plan \<Rightarrow> upgrade \<Rightarrow> bool" where
  "planned n u \<longleftrightarrow> distinct (map fst (pn_foreign n))
     \<and> (\<forall>p b. map_of (pn_foreign n) p = Some b \<longrightarrow> content u p = Some b)
     \<and> (\<forall>p \<in> touched n. map_of (pn_foreign n) p = content u p)"

lemma planned_still: "planned n u \<Longrightarrow> still u u' \<Longrightarrow> planned n u'"
  unfolding planned_def by (metis still_content)

lemma planned_note:
  assumes "planned n u" "pn_foreign m = pn_foreign n" "touched m \<subseteq> insert p (touched n)"
  shows "planned (note_foreign p (content u p) m) u"
proof (cases "content u p")
  case None
  then have "map_of (pn_foreign n) p = None" using assms(1) by (cases "map_of (pn_foreign n) p") (auto simp: planned_def)
  with None assms show ?thesis by (auto simp: planned_def note_foreign_def)
next
  case (Some b)
  then have f: "pn_foreign (note_foreign p (content u p) m) = AList.update p b (pn_foreign n)"
    and t: "touched (note_foreign p (content u p) m) = touched m"
    using assms(2) by (simp_all add: note_foreign_def touched_def)
  have d: "distinct (map fst (AList.update p b (pn_foreign n)))"
    using assms(1) by (simp add: planned_def distinct_update)
  have known: "map_of (pn_foreign n) q = Some c \<Longrightarrow> content u q = Some c" for q c
    using assms(1) unfolding planned_def by blast
  have found: "q \<in> touched n \<Longrightarrow> map_of (pn_foreign n) q = content u q" for q
    using assms(1) unfolding planned_def by blast
  show ?thesis unfolding planned_def f t
  proof (intro conjI allI impI ballI)
    show "distinct (map fst (AList.update p b (pn_foreign n)))" by (rule d)
    show "content u q = Some c" if "map_of (AList.update p b (pn_foreign n)) q = Some c" for q c
      using that Some known by (cases "q = p") (simp_all add: update_conv')
    show "map_of (AList.update p b (pn_foreign n)) q = content u q" if "q \<in> touched m" for q
      using that Some found assms(3) by (cases "q = p") (auto simp: update_conv')
  qed
qed

lemma planned_snapshot:
  assumes "planned n u"
  shows "planned (plan_snapshot p s (content u p) n) u"
proof (cases s)
  case (Some b)
  have "planned (note_foreign p (content u p) (n\<lparr>pn_writes := AList.update p b (pn_writes n)\<rparr>)) u"
    by (rule planned_note[OF assms]) (auto simp: touched_def dom_update)
  with Some assms show ?thesis by (simp add: plan_snapshot_def)
next
  case None
  have "planned (note_foreign p (content u p) (n\<lparr>pn_removals := pn_removals n @ [p]\<rparr>)) u"
    by (rule planned_note[OF assms]) (auto simp: touched_def)
  with None assms show ?thesis by (simp add: plan_snapshot_def)
qed

lemma planned_prunes: "planned (n\<lparr>pn_prunes := x\<rparr>) u = planned n u"
  by (simp add: planned_def touched_def)

lemma plan_snapshots_planned:
  "plan_snapshots ss n u = (Inr n', u') \<Longrightarrow> planned n u \<Longrightarrow> calm_reads u \<Longrightarrow> planned n' u'"
proof (induction ss arbitrary: n u)
  case (Cons x ss)
  obtain p s where x: "x = (p, s)" by (cases x)
  from Cons.prems(1) obtain c u1 where cur: "current_bytes p u = (Inr c, u1)"
    and rest: "plan_snapshots ss (plan_snapshot p s c n) u1 = (Inr n', u')" unfolding x by (auto elim!: bind_prog_cases)
  have st: "still u u1" by (rule keepsD[OF keeps_still_current_bytes cur])
  have "planned (plan_snapshot p s c n) u1"
    using planned_still[OF planned_snapshot[OF Cons.prems(2)] st] current_bytes_calm[OF cur Cons.prems(3)] by simp
  from Cons.IH[OF rest this calm_reads_still[OF Cons.prems(3) st]] show ?case .
qed (simp add: return_prog_def)

lemma plan_files_planned:
  "plan_files snaps ps n u = (Inr n', u') \<Longrightarrow> planned n u \<Longrightarrow> calm_reads u \<Longrightarrow> planned n' u'"
proof (induction ps arbitrary: n u)
  case (Cons p ps)
  show ?case
  proof (cases "map_of snaps p")
    case (Some s)
    with Cons show ?thesis by simp
  next
    case None
    let ?m = "n\<lparr>pn_removals := pn_removals n @ [p]\<rparr>"
    from Cons.prems(1) None obtain c u1 where cur: "current_bytes p u = (Inr c, u1)"
      and rest: "plan_files snaps ps (note_foreign p c ?m) u1 = (Inr n', u')" by (auto elim!: bind_prog_cases)
    have st: "still u u1" by (rule keepsD[OF keeps_still_current_bytes cur])
    have "planned (note_foreign p (content u p) ?m) u" by (rule planned_note[OF Cons.prems(2)]) (auto simp: touched_def)
    then have "planned (note_foreign p c ?m) u1"
      using planned_still[OF _ st] current_bytes_calm[OF cur Cons.prems(3)] by simp
    from Cons.IH[OF rest this calm_reads_still[OF Cons.prems(3) st]] show ?thesis .
  qed
qed (simp add: return_prog_def)

lemma plan_directories_planned:
  "plan_directories snaps original ws n u = (Inr n', u') \<Longrightarrow> planned n u \<Longrightarrow> calm_reads u \<Longrightarrow> planned n' u'"
proof (induction ws arbitrary: n u)
  case (Cons x ws)
  obtain dir ds fs where x: "x = (dir, ds, fs)" by (cases x)
  let ?files = "map (\<lambda>x. dir @ [x]) fs"
  from Cons.prems(1) obtain m u1 where one: "plan_files snaps ?files n u = (Inr m, u1)"
    and rest: "plan_directories snaps original ws
       (m\<lparr>pn_prunes := pn_prunes m @ filter (\<lambda>q. q \<notin> set original) (map (\<lambda>x. dir @ [x]) ds)\<rparr>) u1 = (Inr n', u')"
    unfolding x by (auto elim!: bind_prog_cases)
  have "planned m u1" by (rule plan_files_planned[OF one Cons.prems(2,3)])
  from Cons.IH[OF rest] this calm_reads_still[OF Cons.prems(3) keepsD[OF looking.plan_files one]]
  show ?case by (simp add: planned_prunes)
qed (simp add: return_prog_def)

lemma plan_roots_planned:
  "plan_roots snaps rs n u = (Inr n', u') \<Longrightarrow> planned n u \<Longrightarrow> calm_reads u \<Longrightarrow> planned n' u'"
proof (induction rs arbitrary: n u)
  case (Cons x rs)
  obtain root original walked where x: "x = (root, original, walked)" by (cases x)
  from Cons.prems(1) obtain m u1 where one: "plan_directories snaps original (rev walked) n u = (Inr m, u1)"
    and rest: "plan_roots snaps rs (if walked \<noteq> [] \<and> root \<notin> set original then m\<lparr>pn_prunes := pn_prunes m @ [root]\<rparr> else m) u1 = (Inr n', u')"
    unfolding x by (auto elim!: bind_prog_cases)
  have "planned m u1" by (rule plan_directories_planned[OF one Cons.prems(2,3)])
  from Cons.IH[OF rest] this calm_reads_still[OF Cons.prems(3) keepsD[OF looking.plan_directories one]]
  show ?case by (simp add: planned_prunes)
qed (simp add: return_prog_def)

lemma plan_restore_planned:
  assumes "plan_restore snaps roots u = (Inr n, u')" "calm_reads u"
  shows "planned n u'"
proof -
  from assms(1) obtain m u1 where one: "plan_snapshots snaps no_plan u = (Inr m, u1)"
    and rest: "plan_roots snaps (map (\<lambda>(root, original). (root, original, walk_root u1 root)) roots) m u1 = (Inr n, u')"
    unfolding plan_restore_def by (auto elim!: bind_prog_cases)
  have "planned no_plan u" by (simp add: planned_def no_plan_def touched_def)
  from plan_snapshots_planned[OF one this assms(2)] have "planned m u1" .
  from plan_roots_planned[OF rest this calm_reads_still[OF assms(2) keepsD[OF looking.plan_snapshots one]]] show ?thesis .
qed

section \<open>Copies\<close>

text \<open>The manifest names a copy of the bytes for the path.\<close>

definition kept :: "upgrade \<Rightarrow> path \<Rightarrow> string \<Rightarrow> bool" where
  "kept u p b \<longleftrightarrow> (\<exists>preserved originals k. rc_manifest (up_recovery u) = Some (preserved, originals)
     \<and> map_of preserved p = Some k \<and> (k, b) \<in> set (rc_files (up_recovery u)))"

definition held_copy :: "upgrade \<Rightarrow> path \<Rightarrow> string \<Rightarrow> bool" where
  "held_copy u p b \<longleftrightarrow> (\<exists>k. map_of (rc_preserved (up_recovery u)) p = Some k \<and> (k, b) \<in> set (rc_files (up_recovery u)))"

definition copies :: "upgrade \<Rightarrow> string set" where
  "copies u = snd ` set (rc_files (up_recovery u))"

text \<open>Copies are only added.\<close>

definition more_copies :: "upgrade \<Rightarrow> upgrade \<Rightarrow> bool" where
  "more_copies u u' \<longleftrightarrow> set (rc_files (up_recovery u)) \<subseteq> set (rc_files (up_recovery u'))
     \<and> (rc_open (up_recovery u) \<longrightarrow> rc_open (up_recovery u'))
     \<and> set (dk_faults u') \<subseteq> set (dk_faults u) \<and> content u' = content u"

lemma more_refl: "more_copies u u"
  by (simp add: more_copies_def)

lemma more_trans: "more_copies a b \<Longrightarrow> more_copies b c \<Longrightarrow> more_copies a c"
  by (auto simp: more_copies_def)

lemma keeps_more_faulty: "keeps more_copies m \<Longrightarrow> keeps more_copies (faulty m)"
  by (rule keeps_faulty_any) (auto intro: more_trans simp: more_copies_def fun_eq_iff)

lemma content_recovery [simp]: "content (u\<lparr>up_recovery := r\<rparr>) = content u"
  by (rule ext) (simp add: content_def node_def)

lemma keeps_more_recovery:
  assumes "\<And>r. set (rc_files r) \<subseteq> set (rc_files (f r)) \<and> (rc_open r \<longrightarrow> rc_open (f r))"
  shows "keeps more_copies (with_recovery f)" "keeps more_copies (in_recovery f)"
proof -
  have "more_copies u (u\<lparr>up_recovery := f (up_recovery u)\<rparr>)" for u
    using assms[of "up_recovery u"] by (simp add: more_copies_def)
  then have step: "keeps more_copies (\<lambda>u. (Inr (), u\<lparr>up_recovery := f (up_recovery u)\<rparr>))" by (simp add: keeps_def)
  from keeps_more_faulty[OF step] show "keeps more_copies (with_recovery f)" by (simp add: with_recovery_def[abs_def])
  from step show "keeps more_copies (in_recovery f)" by (simp add: in_recovery_def[abs_def])
qed

lemma with_recovery_done:
  assumes "with_recovery f u = (Inr x, u')"
  shows "up_recovery u' = f (up_recovery u)"
  using assms unfolding with_recovery_def by (elim faulty_Inr) auto

text \<open>The first step of a copy.\<close>

definition open_step :: "(upgrade, unit) prog" where
  "open_step u = (if rc_open (up_recovery u) then (Inr (), u) else with_recovery (\<lambda>r. r\<lparr>rc_open := True\<rparr>) u)"

lemma copy_bytes_open:
  "copy_bytes b = bind_prog open_step (\<lambda>_.
     bind_prog (in_recovery (\<lambda>r. r\<lparr>rc_sequence := rc_sequence r + 1\<rparr>)) (\<lambda>_.
     bind_prog (with_recovery (\<lambda>r. r\<lparr>rc_files := (rc_sequence r, b) # rc_files r\<rparr>)) (\<lambda>_ u.
     (Inr (rc_sequence (up_recovery u)), u))))"
  by (simp add: copy_bytes_def open_step_def[abs_def])

lemma keeps_more_copy: "keeps more_copies (copy_bytes b)"
proof -
  have "keeps more_copies open_step"
    using keeps_more_recovery(1)[of "\<lambda>r. r\<lparr>rc_open := True\<rparr>"] more_refl by (auto simp: keeps_def open_step_def split: if_splits)
  moreover have "keeps more_copies (\<lambda>u. (Inr (rc_sequence (up_recovery u)), u))" by (simp add: keeps_def more_refl)
  ultimately show ?thesis
    unfolding copy_bytes_open
    by (intro keeps_bind[where R = more_copies] keeps_more_recovery) (auto intro: more_trans)
qed

lemma copy_bytes_done:
  assumes "copy_bytes b u = (Inr k, u')"
  shows "(k, b) \<in> set (rc_files (up_recovery u')) \<and> rc_open (up_recovery u')
    \<and> rc_preserved (up_recovery u') = rc_preserved (up_recovery u)
    \<and> rc_originals (up_recovery u') = rc_originals (up_recovery u)"
proof -
  from assms obtain u1 u2 u3 where one: "open_step u = (Inr (), u1)"
    and two: "in_recovery (\<lambda>r. r\<lparr>rc_sequence := rc_sequence r + 1\<rparr>) u1 = (Inr (), u2)"
    and three: "with_recovery (\<lambda>r. r\<lparr>rc_files := (rc_sequence r, b) # rc_files r\<rparr>) u2 = (Inr (), u3)"
    and k: "k = rc_sequence (up_recovery u3)" "u' = u3"
    unfolding copy_bytes_open by (auto elim!: bind_prog_cases)
  have "rc_open (up_recovery u1)" "rc_preserved (up_recovery u1) = rc_preserved (up_recovery u)"
    "rc_originals (up_recovery u1) = rc_originals (up_recovery u)"
    using one with_recovery_done[of "\<lambda>r. r\<lparr>rc_open := True\<rparr>" u "()" u1] by (auto simp: open_step_def split: if_splits)
  with two with_recovery_done[OF three] k show ?thesis by (auto simp: in_recovery_def)
qed

lemma keeps_more_preserve: "keeps more_copies (preserve p b)"
  unfolding preserve_def
  by (intro keeps_bind[where R = more_copies] keeps_more_copy keeps_more_recovery) (auto intro: more_trans)

lemma preserve_done:
  assumes "preserve p b u = (Inr x, u')"
  shows "held_copy u' p b \<and> rc_open (up_recovery u') \<and> (\<forall>q c. q \<noteq> p \<longrightarrow> held_copy u q c \<longrightarrow> held_copy u' q c)
    \<and> rc_originals (up_recovery u') = rc_originals (up_recovery u)"
proof -
  from assms obtain k u1 where one: "copy_bytes b u = (Inr k, u1)"
    and u': "u' = u1\<lparr>up_recovery := (up_recovery u1)\<lparr>rc_preserved := AList.update p k (rc_preserved (up_recovery u1))\<rparr>\<rparr>"
    unfolding preserve_def by (auto simp: in_recovery_def elim!: bind_prog_cases)
  have "set (rc_files (up_recovery u)) \<subseteq> set (rc_files (up_recovery u1))"
    using keepsD[OF keeps_more_copy one] by (simp add: more_copies_def)
  with copy_bytes_done[OF one] u' show ?thesis by (auto simp: held_copy_def update_conv')
qed

lemma preserve_all_done:
  "preserve_all fs u = (Inr x, u') \<Longrightarrow> distinct (map fst fs) \<Longrightarrow>
   (\<forall>(p, b) \<in> set fs. held_copy u' p b) \<and> (fs \<noteq> [] \<longrightarrow> rc_open (up_recovery u'))
   \<and> (\<forall>q c. q \<notin> fst ` set fs \<longrightarrow> held_copy u q c \<longrightarrow> held_copy u' q c) \<and> more_copies u u'"
proof (induction fs arbitrary: u)
  case (Cons f fs)
  obtain p b where f: "f = (p, b)" by (cases f)
  from Cons.prems(1) obtain u1 where one: "preserve p b u = (Inr (), u1)" and rest: "preserve_all fs u1 = (Inr x, u')"
    unfolding f by (auto elim!: bind_prog_cases)
  from Cons.prems(2) f have d: "p \<notin> fst ` set fs" "distinct (map fst fs)" by simp_all
  note first = preserve_done[OF one]
  note second = Cons.IH[OF rest d(2)]
  have "held_copy u' p b" using first second d(1) by blast
  moreover have "rc_open (up_recovery u')" using first second by (simp add: more_copies_def)
  moreover have "more_copies u u'" using more_trans[OF keepsD[OF keeps_more_preserve one]] second by blast
  moreover have "\<forall>q c. q \<notin> fst ` set (f # fs) \<longrightarrow> held_copy u q c \<longrightarrow> held_copy u' q c" using first second f by auto
  ultimately show ?case using second f by auto
qed (simp add: return_prog_def more_refl)

lemma keeps_more_preserve_foreign: "keeps more_copies (preserve_foreign stored fs)"
proof -
  have trans: "more_copies a b \<Longrightarrow> more_copies b c \<Longrightarrow> more_copies a c" for a b c by (rule more_trans)
  have all: "keeps more_copies (preserve_all fs)"
  proof (induction fs)
    case (Cons f fs)
    then show ?case by (cases f) (auto intro!: keeps_bind[where R = more_copies, OF trans] keeps_more_preserve)
  qed (simp add: keeps_def return_prog_def more_refl)
  have commit: "keeps more_copies commit_recovery"
    using keeps_more_recovery(1)[of "\<lambda>r. r\<lparr>rc_manifest := Some (rc_preserved r, rc_originals r)\<rparr>"] more_refl
    by (auto simp: keeps_def commit_recovery_def split: if_splits)
  have "keeps more_copies (bind_prog (preserve_all fs) (\<lambda>_. commit_recovery))"
    by (rule keeps_bind[where R = more_copies]) (auto intro: trans all commit)
  moreover have "keeps more_copies (return_prog ())" by (simp add: keeps_def more_refl)
  ultimately show ?thesis unfolding preserve_foreign_def by (simp only: keeps_if split: if_split)
qed

lemma preserve_foreign_done:
  assumes "preserve_foreign True fs u = (Inr x, u')" "distinct (map fst fs)" "(p, b) \<in> set fs"
  shows "kept u' p b"
proof -
  from assms(1,3) obtain u1 where one: "preserve_all fs u = (Inr (), u1)" and two: "commit_recovery u1 = (Inr x, u')"
    unfolding preserve_foreign_def by (auto elim!: bind_prog_cases split: if_splits)
  note all = preserve_all_done[OF one assms(2)]
  then have open1: "rc_open (up_recovery u1)" and held: "held_copy u1 p b" using assms(3) by auto
  have "up_recovery u' = (up_recovery u1)\<lparr>rc_manifest := Some (rc_preserved (up_recovery u1), rc_originals (up_recovery u1))\<rparr>"
    using two open1 by (auto simp: commit_recovery_def dest: with_recovery_done)
  with held show ?thesis by (auto simp: kept_def held_copy_def)
qed

section \<open>The whole restore\<close>

lemma restore_snapshots_phases:
  assumes "restore_snapshots stored snaps roots u = (r, u')"
  obtains (unplanned) e where "r = Inl e" "plan_restore snaps roots u = (Inl e, u')"
    | (unpreserved) e n u1 where "r = Inl e" "plan_restore snaps roots u = (Inr n, u1)"
        "preserve_foreign stored (pn_foreign n) u1 = (Inl e, u')"
    | (changed) n u1 u2 where "plan_restore snaps roots u = (Inr n, u1)"
        "preserve_foreign stored (pn_foreign n) u1 = (Inr (), u2)" "applied (touched n) u2 u'"
proof -
  let ?tail = "\<lambda>n. bind_prog (apply_plan stored snaps n) (\<lambda>g.
     bind_prog (verify_snapshots stored snaps g) (\<lambda>g.
     bind_prog (verify_roots stored snaps roots g) (\<lambda>g. return_prog (report_of g))))"
  have tail: "keeps (applied (touched n)) (?tail n)" for n
    by (intro keeps_applied_bind keeps_apply_plan applying.verify_snapshots applying.verify_roots keeps_applied_pure)
  from assms show ?thesis unfolding restore_snapshots_def
  proof (cases rule: bind_prog_cases)
    case (1 e)
    with unplanned show ?thesis by blast
  next
    case (2 n u1)
    from 2(2) show ?thesis
    proof (cases rule: bind_prog_cases)
      case (1 e)
      with unpreserved 2(1) show ?thesis by blast
    next
      case (2 x u2)
      have "applied (touched n) u2 u'" by (rule keepsD[OF tail 2(2)])
      with changed \<open>plan_restore snaps roots u = (Inr n, u1)\<close> 2(1) show ?thesis by simp
    qed
  qed
qed

end
