(* ===== verification/Journal_Runs.thy ===== *)
theory Journal_Runs
  imports Upgrade_Journal File_Transaction_Runs
begin

text \<open>
  The journal over a run of an upgrade: what a capture appends, what any sequence of captures and
  vault changes leaves in the journal directory, and that a kill anywhere leaves at worst some more
  complete lines and a torn one, all of which the next run reads back.
\<close>

section \<open>Paths and lines round trip\<close>

abbreviation good_path :: "path \<Rightarrow> bool" where
  "good_path p \<equiv> list_all good_component p"

lemma split_on_word: "x \<notin> set c \<Longrightarrow> split_on x c = [c]"
  by (induction c) auto

lemma split_on_join: "x \<notin> set c \<Longrightarrow> split_on x (c @ x # r) = c # split_on x r"
  by (induction c) auto

lemma split_path:
  "CHR ''/'' \<notin> set c \<Longrightarrow> list_all good_component cs \<Longrightarrow>
   split_on (CHR ''/'') (c @ concat (map ((#) (CHR ''/'')) cs)) = c # cs"
proof (induction cs arbitrary: c)
  case Nil
  then show ?case by (simp add: split_on_word)
next
  case (Cons d cs)
  then have "CHR ''/'' \<notin> set d" by (simp add: good_component_def)
  with Cons.IH[of d] Cons.prems show ?case by (simp add: split_on_join)
qed

lemma path_of_str: "good_path p \<Longrightarrow> path_of (path_str p) = Some p"
proof (cases p)
  case Nil
  then show ?thesis by (simp add: path_of_def path_str_def)
next
  case (Cons c cs)
  assume good: "good_path p"
  with Cons have c: "CHR ''/'' \<notin> set c" "c \<noteq> []" "list_all good_component cs" by (simp_all add: good_component_def)
  have "concat (map ((@) ''/'') cs) = concat (map ((#) (CHR ''/'')) cs)" by (induction cs) simp_all
  then have "path_str p = [] @ CHR ''/'' # (c @ concat (map ((#) (CHR ''/'')) cs))" using Cons by (simp add: path_str_def)
  moreover have "split_on (CHR ''/'') ([] @ CHR ''/'' # (c @ concat (map ((#) (CHR ''/'')) cs))) = [] # c # cs"
    using split_path[OF c(1,3)] by (simp only: split_on_join list.set empty_iff not_False_eq_True)
  moreover have "path_str p \<noteq> ''/''" using Cons c(2) by (simp add: path_str_def)
  ultimately show ?thesis using good Cons by (simp add: path_of_def)
qed

lemma stage_of_value [simp]: "stage_of (Some (JStr (stage_value g))) = Some g"
  by (cases g) (simp_all add: stage_of_def)

definition hexdigest :: "(string \<Rightarrow> string) \<Rightarrow> bool" where
  "hexdigest hx \<longleftrightarrow> (\<forall>s. length (hx s) = 64 \<and> list_all hex_digit_char (hx s))"

fun ok_entry :: "path \<Rightarrow> (string \<times> string) list \<Rightarrow> entry \<Rightarrow> bool" where
  "ok_entry vault blobs (FileEntry g p b) =
     (good_path p \<and> (case b of None \<Rightarrow> True | Some x \<Rightarrow> length x = 64 \<and> list_all hex_digit_char x \<and> map_of blobs x \<noteq> None))"
| "ok_entry vault blobs (RootEntry g p ds) =
     (good_path p \<and> within p vault \<and> list_all (\<lambda>q. good_path q \<and> within q p) ds)"

lemma read_entry_line:
  assumes "ok_entry vault blobs e"
  shows "read_line vault blobs (Some (entry_json e)) = Inr e"
proof (cases e)
  case (FileEntry g p b)
  with assms show ?thesis by (cases b) (simp_all add: read_line_def file_line_def path_value_def path_of_str)
next
  case (RootEntry g p ds)
  with assms have good: "\<forall>q \<in> set ds. path_of (path_str q) = Some q" "list_all (\<lambda>q. within q p) ds"
    by (auto simp: list_all_iff path_of_str)
  then have "map (\<lambda>x. the (path_of (path_str x))) ds = ds" by (intro map_idI) simp
  with RootEntry assms good show ?thesis
    by (simp add: read_line_def root_line_def path_value_def path_of_str Let_def list_all_iff comp_def)
qed

lemma read_entry_lines:
  "\<forall>e \<in> set es. ok_entry vault blobs e \<Longrightarrow> read_lines vault blobs (map (Some \<circ> entry_json) es) = Inr es"
  by (induction es) (simp_all add: read_entry_line bind_result_def)

lemma read_header_json: "read_header (header_json vault old new started) = Some (path_str vault, new, old)"
  by (cases old) (simp_all add: read_header_def header_json_def)

section \<open>The blobs\<close>

definition sound_blobs :: "(string \<Rightarrow> string) \<Rightarrow> (string \<times> string) list \<Rightarrow> bool" where
  "sound_blobs hx blobs \<longleftrightarrow> (\<forall>d c. map_of blobs d = Some c \<longrightarrow> hx c = d)"

definition more_blobs :: "(string \<times> string) list \<Rightarrow> (string \<times> string) list \<Rightarrow> bool" where
  "more_blobs a b \<longleftrightarrow> (\<forall>d c. map_of a d = Some c \<longrightarrow> map_of b d = Some c)"

lemma more_blobs_refl: "more_blobs a a"
  by (simp add: more_blobs_def)

lemma more_blobs_trans: "more_blobs a b \<Longrightarrow> more_blobs b c \<Longrightarrow> more_blobs a c"
  by (simp add: more_blobs_def)

lemma ok_entry_more: "ok_entry vault a e \<Longrightarrow> more_blobs a b \<Longrightarrow> ok_entry vault b e"
  by (cases e) (auto simp: more_blobs_def split: option.splits)

text \<open>What collecting entries may change: blobs are added, nothing else of the directory moves.\<close>

definition collects :: "(string \<Rightarrow> string) \<Rightarrow> upgrade \<Rightarrow> upgrade \<Rightarrow> bool" where
  "collects hx u u' \<longleftrightarrow>
     dk_nodes u' = dk_nodes u
   \<and> (\<exists>bs. up_directory u' = (up_directory u)\<lparr>jd_blobs := bs\<rparr> \<and> more_blobs (jd_blobs (up_directory u)) bs
        \<and> (sound_blobs hx (jd_blobs (up_directory u)) \<longrightarrow> sound_blobs hx bs))
   \<and> (\<exists>cs. up_journal u' = (up_journal u)\<lparr>uj_captured := cs\<rparr>)"

lemma collects_refl: "collects hx u u"
  unfolding collects_def by (intro conjI exI[of _ "jd_blobs (up_directory u)"] exI[of _ "uj_captured (up_journal u)"]) (auto simp: more_blobs_refl)

lemma collects_trans:
  assumes "collects hx a b" "collects hx b c"
  shows "collects hx a c"
proof -
  from assms(1) obtain bs cs where b: "dk_nodes b = dk_nodes a" "up_directory b = (up_directory a)\<lparr>jd_blobs := bs\<rparr>"
    "more_blobs (jd_blobs (up_directory a)) bs" "sound_blobs hx (jd_blobs (up_directory a)) \<longrightarrow> sound_blobs hx bs"
    "up_journal b = (up_journal a)\<lparr>uj_captured := cs\<rparr>" by (auto simp: collects_def)
  from assms(2) obtain bs' cs' where c: "dk_nodes c = dk_nodes b" "up_directory c = (up_directory b)\<lparr>jd_blobs := bs'\<rparr>"
    "more_blobs (jd_blobs (up_directory b)) bs'" "sound_blobs hx (jd_blobs (up_directory b)) \<longrightarrow> sound_blobs hx bs'"
    "up_journal c = (up_journal b)\<lparr>uj_captured := cs'\<rparr>" by (auto simp: collects_def)
  have "up_directory c = (up_directory a)\<lparr>jd_blobs := bs'\<rparr>" "up_journal c = (up_journal a)\<lparr>uj_captured := cs'\<rparr>"
    using b c by simp_all
  moreover have "more_blobs (jd_blobs (up_directory a)) bs'" using b(2,3) c(3) more_blobs_trans by simp
  ultimately show ?thesis using b c unfolding collects_def by auto
qed

lemma collects_faults: "collects hx u (u\<lparr>dk_faults := fs\<rparr>)"
  unfolding collects_def by (intro conjI exI[of _ "jd_blobs (up_directory u)"] exI[of _ "uj_captured (up_journal u)"]) (auto simp: more_blobs_refl)

lemma keeps_collects_bind:
  assumes "keeps (collects hx) m" "\<And>x. keeps (collects hx) (f x)"
  shows "keeps (collects hx) (bind_prog m f)"
  by (rule keeps_bind[OF collects_trans assms])

lemmas keeps_collects_pure = keeps_pure[where R = "collects hx" for hx, OF collects_refl]

lemma keeps_collects_faulty: "keeps (collects hx) m \<Longrightarrow> keeps (collects hx) (faulty m)"
  by (rule keeps_faulty_any) (auto intro: collects_trans collects_faults)

lemma collects_blob:
  fixes u :: upgrade
  assumes "map_of (jd_blobs (up_directory u)) (hx c) = None"
  shows "collects hx u (u\<lparr>up_directory := (up_directory u)\<lparr>jd_blobs := (hx c, c) # jd_blobs (up_directory u)\<rparr>\<rparr>)"
  using assms unfolding collects_def
  by (intro conjI exI[of _ "(hx c, c) # jd_blobs (up_directory u)"] exI[of _ "uj_captured (up_journal u)"])
    (auto simp: more_blobs_def sound_blobs_def)

lemma store_blob_collects: "keeps (collects hx) (store_blob (hx c) c)"
proof -
  show ?thesis
    unfolding keeps_def store_blob_def with_directory_def
  proof (intro allI impI)
    fix u u' :: upgrade and r
    assume run: "(if map_of (jd_blobs (up_directory u)) (hx c) \<noteq> None then (Inr (), u)
          else faulty (\<lambda>u. (Inr (), u\<lparr>up_directory := (up_directory u)\<lparr>jd_blobs := (hx c, c) # jd_blobs (up_directory u)\<rparr>\<rparr>)) u) = (r, u')"
    show "collects hx u u'"
    proof (cases "map_of (jd_blobs (up_directory u)) (hx c)")
      case (Some x)
      with run show ?thesis by (simp add: collects_refl)
    next
      case None
      let ?put = "\<lambda>u. (Inr () :: exn + unit, u\<lparr>up_directory := (up_directory u)\<lparr>jd_blobs := (hx c, c) # jd_blobs (up_directory u)\<rparr>\<rparr>)"
      from run None have "faulty ?put u = (r, u')" by simp
      then show ?thesis
      proof (cases rule: faulty_cases)
        case calm
        with collects_blob[of u hx c] None show ?thesis by auto
      next
        case (fault f fs)
        let ?u = "u\<lparr>dk_faults := fs\<rparr>"
        have "collects hx ?u (snd (?put ?u))" using collects_blob[of ?u hx c] None by simp
        with fault(2) collects_faults[of hx u fs] show ?thesis using collects_trans by blast
      qed
    qed
  qed
qed

lemma store_blob_done:
  assumes "store_blob (hx c) c u = (Inr x, u')" "sound_blobs hx (jd_blobs (up_directory u))"
  shows "\<exists>c'. map_of (jd_blobs (up_directory u')) (hx c) = Some c'"
proof (cases "map_of (jd_blobs (up_directory u)) (hx c)")
  case (Some c')
  with assms show ?thesis by (simp add: store_blob_def)
next
  case None
  with assms(1) have "with_directory (\<lambda>j. j\<lparr>jd_blobs := (hx c, c) # jd_blobs j\<rparr>) u = (Inr x, u')" by (simp add: store_blob_def)
  then show ?thesis unfolding with_directory_def by (elim faulty_Inr) auto
qed

lemma keeps_collects_capture: "keeps (collects hx) (capture_file hx g p)"
proof -
  have mark: "keeps (collects hx) (mark_captured g p)"
    unfolding keeps_def mark_captured_def collects_def
    by (auto simp: more_blobs_refl intro!: exI[of _ "jd_blobs (up_directory _)"])
  have "keeps (collects hx) (bind_prog (faulty (\<lambda>u. (read_bytes p u, u))) (\<lambda>bytes.
          bind_prog (store_blob (hx bytes) bytes) (\<lambda>_. return_prog (FileEntry g p (Some (hx bytes))))))"
    by (intro keeps_collects_bind keeps_collects_faulty store_blob_collects keeps_collects_pure)
  then have "keeps (collects hx) (\<lambda>u. if \<not> exists_at u p then (Inr (FileEntry g p None), u)
     else bind_prog (faulty (\<lambda>u. (read_bytes p u, u))) (\<lambda>bytes.
          bind_prog (store_blob (hx bytes) bytes) (\<lambda>_. return_prog (FileEntry g p (Some (hx bytes))))) u)"
    unfolding keeps_def using collects_refl by (auto split: if_splits)
  from keeps_collects_bind[OF mark this] show ?thesis by (simp add: capture_file_def[abs_def])
qed

lemma keeps_collects_entries: "keeps (collects hx) (file_entries hx g qs)"
proof (induction qs)
  case Nil
  then show ?case by (simp add: keeps_def collects_refl)
next
  case (Cons q qs)
  have "keeps (collects hx) (bind_prog (capture_file hx g p) (\<lambda>e. bind_prog (file_entries hx g qs) (\<lambda>es. return_prog (e # es))))" for p
    by (intro keeps_collects_bind keeps_collects_capture Cons keeps_collects_pure)
  with Cons show ?case unfolding keeps_def by (auto simp: Let_def split: if_splits)
qed

section \<open>What a capture records\<close>

text \<open>The digest of what is at a path.\<close>

definition digest_at :: "(string \<Rightarrow> string) \<Rightarrow> 'x disk_scheme \<Rightarrow> path \<Rightarrow> string option" where
  "digest_at hx u p = (if exists_at u p then map_option hx (content u p) else None)"

lemma read_bytes_content: "read_bytes p u = Inr b \<Longrightarrow> content u p = Some b"
  by (auto simp: read_bytes_def look_def content_def split: sum.splits option.splits disk_node.splits if_splits)

lemma capture_file_done:
  assumes "capture_file hx g p u = (Inr e, u')" "sound_blobs hx (jd_blobs (up_directory u))"
  shows "e = FileEntry g p (digest_at hx u p)
    \<and> (case digest_at hx u p of None \<Rightarrow> True | Some d \<Rightarrow> map_of (jd_blobs (up_directory u')) d \<noteq> None)
    \<and> (exists_at u p \<longrightarrow> content u p \<noteq> None)
    \<and> set (uj_captured (up_journal u')) = insert (g, p) (set (uj_captured (up_journal u)))"
proof -
  let ?u = "u\<lparr>up_journal := (up_journal u)\<lparr>uj_captured := (g, p) # uj_captured (up_journal u)\<rparr>\<rparr>"
  have same: "exists_at ?u p = exists_at u p" "content ?u p = content u p"
    by (simp_all add: exists_at_def content_def node_def)
  from assms(1) have run: "(if \<not> exists_at ?u p then (Inr (FileEntry g p None), ?u)
     else bind_prog (faulty (\<lambda>u. (read_bytes p u, u))) (\<lambda>bytes.
          bind_prog (store_blob (hx bytes) bytes) (\<lambda>_.
          return_prog (FileEntry g p (Some (hx bytes))))) ?u) = (Inr e, u')"
    by (simp add: capture_file_def bind_prog_def mark_captured_def)
  show ?thesis
  proof (cases "exists_at u p")
    case False
    with run same have "e = FileEntry g p None" "u' = ?u" by simp_all
    with False show ?thesis by (simp add: digest_at_def)
  next
    case True
    with run same have go: "bind_prog (faulty (\<lambda>u. (read_bytes p u, u))) (\<lambda>bytes.
          bind_prog (store_blob (hx bytes) bytes) (\<lambda>_. return_prog (FileEntry g p (Some (hx bytes))))) ?u = (Inr e, u')" by simp
    then obtain b u1 where rd: "faulty (\<lambda>u. (read_bytes p u, u)) ?u = (Inr b, u1)"
      and "bind_prog (store_blob (hx b) b) (\<lambda>_. return_prog (FileEntry g p (Some (hx b)))) u1 = (Inr e, u')"
      by (cases rule: bind_prog_cases) auto
    then obtain u2 where sb: "store_blob (hx b) b u1 = (Inr (), u2)" and e: "e = FileEntry g p (Some (hx b))" "u' = u2"
      by (auto simp: return_prog_def elim!: bind_prog_cases)
    from rd obtain fs where b: "read_bytes p (?u\<lparr>dk_faults := fs\<rparr>) = Inr b" and u1: "u1 = ?u\<lparr>dk_faults := fs\<rparr>"
      by (elim faulty_Inr) auto
    from read_bytes_content[OF b] same have c: "content u p = Some b" by simp
    have "sound_blobs hx (jd_blobs (up_directory u1))" using assms(2) u1 by simp
    from store_blob_done[OF sb this] have blob: "map_of (jd_blobs (up_directory u')) (hx b) \<noteq> None" using e(2) by auto
    have "up_journal u2 = up_journal u1"
      using sb unfolding store_blob_def with_directory_def by (auto split: if_splits elim: faulty_Inr)
    then have "set (uj_captured (up_journal u')) = insert (g, p) (set (uj_captured (up_journal u)))"
      using u1 e(2) by simp
    with c blob e True show ?thesis by (simp add: digest_at_def)
  qed
qed

text \<open>A batch of entries: one for each path that was not captured before, as the disk has it.\<close>

definition batch :: "(string \<Rightarrow> string) \<Rightarrow> stage \<Rightarrow> upgrade \<Rightarrow> path list \<Rightarrow> entry list \<Rightarrow> upgrade \<Rightarrow> bool" where
  "batch hx g u qs es u' \<longleftrightarrow>
     (\<forall>e \<in> set es. \<exists>q \<in> set qs. e = FileEntry g (canonical (up_journal u) q) (digest_at hx u (canonical (up_journal u) q))
        \<and> (g, canonical (up_journal u) q) \<notin> set (uj_captured (up_journal u))
        \<and> (case digest_at hx u (canonical (up_journal u) q) of None \<Rightarrow> True | Some d \<Rightarrow> map_of (jd_blobs (up_directory u')) d \<noteq> None))
   \<and> (\<forall>q \<in> set qs. is_excluded (canonical (up_journal u) q) \<or> (g, canonical (up_journal u) q) \<in> set (uj_captured (up_journal u))
        \<or> FileEntry g (canonical (up_journal u) q) (digest_at hx u (canonical (up_journal u) q)) \<in> set es
          \<and> (exists_at u (canonical (up_journal u) q) \<longrightarrow> content u (canonical (up_journal u) q) \<noteq> None))
   \<and> set (uj_captured (up_journal u')) = set (uj_captured (up_journal u)) \<union> {(g, p) | p. \<exists>b. FileEntry g p b \<in> set es}"

lemma collects_view:
  assumes "collects hx u u'"
  shows "digest_at hx u' p = digest_at hx u p" "canonical (up_journal u') q = canonical (up_journal u) q"
    "content u' p = content u p" "exists_at u' p = exists_at u p"
  using assms by (auto simp: collects_def digest_at_def exists_at_def content_def node_def canonical_def)

lemma file_entries_batch:
  "file_entries hx g qs u = (Inr es, u') \<Longrightarrow> sound_blobs hx (jd_blobs (up_directory u)) \<Longrightarrow> batch hx g u qs es u'"
proof (induction qs arbitrary: u es)
  case Nil
  then show ?case by (simp add: batch_def)
next
  case (Cons q qs)
  let ?p = "canonical (up_journal u) q"
  show ?case
  proof (cases "(g, ?p) \<in> set (uj_captured (up_journal u)) \<or> is_excluded ?p")
    case True
    with Cons.prems(1) have "file_entries hx g qs u = (Inr es, u')" by (simp add: Let_def)
    from Cons.IH[OF this Cons.prems(2)] True show ?thesis unfolding batch_def by auto
  next
    case False
    with Cons.prems(1) obtain e u1 es' where one: "capture_file hx g ?p u = (Inr e, u1)"
      and rest: "file_entries hx g qs u1 = (Inr es', u')" and es: "es = e # es'"
      by (auto simp: Let_def return_prog_def elim!: bind_prog_cases)
    have col: "collects hx u u1" by (rule keepsD[OF keeps_collects_capture one])
    note view = collects_view[OF col]
    have sound: "sound_blobs hx (jd_blobs (up_directory u1))" using col Cons.prems(2) by (auto simp: collects_def)
    note first = capture_file_done[OF one Cons.prems(2)]
    from Cons.IH[OF rest sound] have second: "batch hx g u1 qs es' u'" .
    have more: "more_blobs (jd_blobs (up_directory u1)) (jd_blobs (up_directory u'))"
      using keepsD[OF keeps_collects_entries rest] by (auto simp: collects_def)
    have blob: "case digest_at hx u ?p of None \<Rightarrow> True | Some d \<Rightarrow> map_of (jd_blobs (up_directory u')) d \<noteq> None"
      using first more by (auto simp: more_blobs_def split: option.splits)
    show ?thesis unfolding batch_def
    proof (intro conjI ballI)
      fix x assume "x \<in> set es"
      then show "\<exists>q \<in> set (q # qs). x = FileEntry g (canonical (up_journal u) q) (digest_at hx u (canonical (up_journal u) q))
        \<and> (g, canonical (up_journal u) q) \<notin> set (uj_captured (up_journal u))
        \<and> (case digest_at hx u (canonical (up_journal u) q) of None \<Rightarrow> True | Some d \<Rightarrow> map_of (jd_blobs (up_directory u')) d \<noteq> None)"
        using es first blob False second view unfolding batch_def by auto
    next
      fix x assume "x \<in> set (q # qs)"
      then show "is_excluded (canonical (up_journal u) x) \<or> (g, canonical (up_journal u) x) \<in> set (uj_captured (up_journal u))
        \<or> FileEntry g (canonical (up_journal u) x) (digest_at hx u (canonical (up_journal u) x)) \<in> set es
          \<and> (exists_at u (canonical (up_journal u) x) \<longrightarrow> content u (canonical (up_journal u) x) \<noteq> None)"
        using es first False second view unfolding batch_def by auto
    next
      show "set (uj_captured (up_journal u')) = set (uj_captured (up_journal u)) \<union> {(g, p) | p. \<exists>b. FileEntry g p b \<in> set es}"
        using es first second unfolding batch_def by auto
    qed
  qed
qed

section \<open>Guarded and readable journals\<close>

text \<open>A journal another process can read: its header and complete lines; a torn tail does not matter.\<close>

definition readable :: "upgrade \<Rightarrow> path \<Rightarrow> string option \<Rightarrow> string \<Rightarrow> entry list \<Rightarrow> bool" where
  "readable u vault old new es \<longleftrightarrow>
     (\<exists>started. jd_header (up_directory u) = Some (HeaderText (header_json vault old new started)))
   \<and> jd_lines (up_directory u) = Some (map (Some \<circ> entry_json) es)
   \<and> (\<forall>e \<in> set es. ok_entry vault (jd_blobs (up_directory u)) e)"

text \<open>The journal of the running upgrade: everything it knows is on disk.\<close>

definition guarded :: "(string \<Rightarrow> string) \<Rightarrow> upgrade \<Rightarrow> bool" where
  "guarded hx u \<longleftrightarrow>
     (let j = up_journal u in
      readable u (uj_vault j) (uj_old_version j) (uj_new_version j) (uj_entries j)
      \<and> \<not> jd_tail (up_directory u) \<and> sound_blobs hx (jd_blobs (up_directory u))
      \<and> (\<forall>g p. (g, p) \<in> set (uj_captured j) \<longleftrightarrow> (\<exists>b. FileEntry g p b \<in> set (uj_entries j))))"

lemma reading_calm: "dk_faults u = [] \<Longrightarrow> reading (faulty (\<lambda>u. (g u, u))) u = (case g u of Inr x \<Rightarrow> (Inr x, u) | Inl e \<Rightarrow> (Inl (if is_os_error e then UpgradeJournalUnreadable else e), u))"
  by (simp add: reading_def catching_def faulty_calm raise_prog_def split: sum.splits)

lemma load_readable:
  assumes "readable u vault old new es" "dk_faults u = []"
  shows "load_journal vault given u = (Inr (Some (new_journal vault given old new es)), u)"
proof -
  from assms(1) obtain started where h: "jd_header (up_directory u) = Some (HeaderText (header_json vault old new started))"
    and ls: "jd_lines (up_directory u) = Some (map (Some \<circ> entry_json) es)"
    and ok: "\<forall>e \<in> set es. ok_entry vault (jd_blobs (up_directory u)) e" by (auto simp: readable_def)
  have "read_entries vault u = (Inr es, u)"
    using ls read_entry_lines[OF ok] assms(2)
    by (simp add: read_entries_def bind_prog_def reading_calm lift_result_def)
  then show ?thesis
    using h assms(2)
    by (simp add: load_journal_def bind_prog_def reading_calm read_header_json return_prog_def)
qed

section \<open>Appending\<close>

lemma append_lines_result:
  assumes "append_lines new u = (r, u')" "jd_lines (up_directory u) = Some old" "\<not> jd_tail (up_directory u)"
  shows "\<exists>k torn. up_directory u' = (up_directory u)\<lparr>jd_lines := Some (old @ map Some (take k new)), jd_tail := torn\<rparr>
    \<and> (r = Inr () \<longrightarrow> take k new = new \<and> \<not> torn) \<and> up_journal u' = up_journal u \<and> dk_nodes u' = dk_nodes u"
proof -
  let ?j = "up_directory u"
  let ?put = "\<lambda>ls torn u. u\<lparr>up_directory := ?j\<lparr>jd_lines := Some (lines_after old False ls), jd_tail := torn \<or> False \<and> ls = []\<rparr>\<rparr>"
  have after: "lines_after old False ls = old @ map Some ls" for ls by (cases ls) (simp_all add: lines_after_def)
  have same: "?j = ?j\<lparr>jd_lines := Some (old @ map Some (take 0 new)), jd_tail := False\<rparr>" using assms(2,3) by simp
  show ?thesis
  proof (cases "dk_faults u")
    case Nil
    with assms have "r = Inr ()" "u' = ?put new False u" by (auto simp: append_lines_def faulty_def Let_def)
    then show ?thesis by (intro exI[of _ "length new"] exI[of _ False]) (simp add: after)
  next
    case (Cons f fs)
    show ?thesis
    proof (cases f)
      case NoFault
      with Cons assms have "r = Inr ()" "u' = ?put new False (u\<lparr>dk_faults := fs\<rparr>)" by (auto simp: append_lines_def faulty_def Let_def)
      then show ?thesis by (intro exI[of _ "length new"] exI[of _ False]) (simp add: after)
    next
      case (FaultBefore e)
      with Cons assms have "r = Inl e" "u' = u\<lparr>dk_faults := fs\<rparr>" by (auto simp: append_lines_def faulty_def Let_def)
      then show ?thesis using same by (intro exI[of _ 0] exI[of _ False]) simp
    next
      case (FaultAfter e)
      with Cons assms have "r = Inl e" "u' = ?put new False (u\<lparr>dk_faults := fs\<rparr>)" by (auto simp: append_lines_def faulty_def Let_def)
      then show ?thesis by (intro exI[of _ "length new"] exI[of _ False]) (simp add: after)
    next
      case (FaultAmid k e)
      with Cons assms have "r = Inl e" "u' = ?put (take k new) (k < length new) (u\<lparr>dk_faults := fs\<rparr>)" by (auto simp: append_lines_def Let_def)
      then show ?thesis by (intro exI[of _ k] exI[of _ "k < length new"]) (simp add: after)
    qed
  qed
qed

lemma readable_append:
  assumes "readable u vault old new es" "\<not> jd_tail (up_directory u)" "append_entries bs u = (r, u')"
    "\<forall>e \<in> set bs. ok_entry vault (jd_blobs (up_directory u)) e"
  shows "(\<exists>k. readable u' vault old new (es @ take k bs) \<and> (r = Inr () \<longrightarrow> take k bs = bs \<and> \<not> jd_tail (up_directory u')))
    \<and> jd_blobs (up_directory u') = jd_blobs (up_directory u)
    \<and> (r = Inr () \<longrightarrow> up_journal u' = (up_journal u)\<lparr>uj_entries := uj_entries (up_journal u) @ bs\<rparr>)"
proof (cases "bs = []")
  case True
  with assms show ?thesis by (auto simp: append_entries_def)
next
  case False
  obtain r1 u1 where app: "append_lines (map entry_json bs) u = (r1, u1)" by fastforce
  have lines: "jd_lines (up_directory u) = Some (map (Some \<circ> entry_json) es)" using assms(1) by (simp add: readable_def)
  from append_lines_result[OF app lines assms(2)] obtain k torn where d:
    "up_directory u1 = (up_directory u)\<lparr>jd_lines := Some (map (Some \<circ> entry_json) es @ map Some (take k (map entry_json bs))), jd_tail := torn\<rparr>"
    "r1 = Inr () \<longrightarrow> take k (map entry_json bs) = map entry_json bs \<and> \<not> torn" "up_journal u1 = up_journal u" by auto
  have full: "take k (map entry_json bs) = map entry_json bs \<Longrightarrow> take k bs = bs"
    by (metis length_map length_take min.absorb_iff1 take_all_iff)
  have read1: "readable u1 vault old new (es @ take k bs)"
    using assms(1,4) d(1) unfolding readable_def by (auto simp: take_map dest: in_set_takeD)
  show ?thesis
  proof (cases r1)
    case (Inl e)
    with app assms(3) False have "r = Inl e" "u' = u1" by (auto simp: append_entries_def bind_prog_def)
    with read1 d(1) show ?thesis by auto
  next
    case (Inr x)
    with app assms(3) False have "r = Inr ()"
      and u': "u' = u1\<lparr>up_journal := (up_journal u1)\<lparr>uj_entries := uj_entries (up_journal u1) @ bs\<rparr>\<rparr>"
      by (auto simp: append_entries_def bind_prog_def)
    moreover have "readable u' vault old new (es @ take k bs)" using read1 u' by (simp add: readable_def)
    ultimately show ?thesis using d Inr full by (intro conjI exI[of _ k]) simp_all
  qed
qed

section \<open>A capture\<close>

lemma ok_batch:
  assumes "batch hx g u qs es u'" "hexdigest hx" "\<forall>q \<in> set qs. good_path (canonical (up_journal u) q)"
  shows "\<forall>e \<in> set es. ok_entry vault (jd_blobs (up_directory u')) e"
proof
  fix e assume "e \<in> set es"
  with assms(1) obtain q where q: "q \<in> set qs"
    "e = FileEntry g (canonical (up_journal u) q) (digest_at hx u (canonical (up_journal u) q))"
    "case digest_at hx u (canonical (up_journal u) q) of None \<Rightarrow> True | Some d \<Rightarrow> map_of (jd_blobs (up_directory u')) d \<noteq> None"
    unfolding batch_def by blast
  moreover have "digest_at hx u p = Some d \<Longrightarrow> length d = 64 \<and> list_all hex_digit_char d" for p d
    using assms(2) by (auto simp: digest_at_def hexdigest_def split: if_splits)
  ultimately show "ok_entry vault (jd_blobs (up_directory u')) e"
    using assms(3) by (auto split: option.splits)
qed

lemma readable_collects:
  assumes "readable u vault old new es" "collects hx u u'"
  shows "readable u' vault old new es" "jd_tail (up_directory u') = jd_tail (up_directory u)"
    "sound_blobs hx (jd_blobs (up_directory u)) \<Longrightarrow> sound_blobs hx (jd_blobs (up_directory u'))"
    "uj_entries (up_journal u') = uj_entries (up_journal u)" "uj_vault (up_journal u') = uj_vault (up_journal u)"
    "uj_old_version (up_journal u') = uj_old_version (up_journal u)" "uj_new_version (up_journal u') = uj_new_version (up_journal u)"
    "uj_given (up_journal u') = uj_given (up_journal u)"
proof -
  from assms(2) obtain bs cs where d: "up_directory u' = (up_directory u)\<lparr>jd_blobs := bs\<rparr>" "more_blobs (jd_blobs (up_directory u)) bs"
    "sound_blobs hx (jd_blobs (up_directory u)) \<longrightarrow> sound_blobs hx bs" "up_journal u' = (up_journal u)\<lparr>uj_captured := cs\<rparr>"
    unfolding collects_def by blast
  show "readable u' vault old new es" using assms(1) d(1,2) ok_entry_more unfolding readable_def by auto
  show "jd_tail (up_directory u') = jd_tail (up_directory u)"
    "sound_blobs hx (jd_blobs (up_directory u)) \<Longrightarrow> sound_blobs hx (jd_blobs (up_directory u'))"
    "uj_entries (up_journal u') = uj_entries (up_journal u)" "uj_vault (up_journal u') = uj_vault (up_journal u)"
    "uj_old_version (up_journal u') = uj_old_version (up_journal u)" "uj_new_version (up_journal u') = uj_new_version (up_journal u)"
    "uj_given (up_journal u') = uj_given (up_journal u)"
    using d by simp_all
qed

text \<open>How a run goes on: entries are only appended, and the journal stays the same one.\<close>

definition extends_journal :: "upgrade \<Rightarrow> upgrade \<Rightarrow> bool" where
  "extends_journal u w \<longleftrightarrow>
     (\<exists>es. uj_entries (up_journal w) = uj_entries (up_journal u) @ es)
   \<and> uj_vault (up_journal w) = uj_vault (up_journal u) \<and> uj_old_version (up_journal w) = uj_old_version (up_journal u)
   \<and> uj_new_version (up_journal w) = uj_new_version (up_journal u)"

lemma extends_refl: "extends_journal u u"
  by (simp add: extends_journal_def)

lemma extends_trans: "extends_journal a b \<Longrightarrow> extends_journal b c \<Longrightarrow> extends_journal a c"
  by (auto simp: extends_journal_def)

definition left_behind :: "upgrade \<Rightarrow> upgrade \<Rightarrow> bool" where
  "left_behind u w \<longleftrightarrow>
     (\<exists>extra. readable w (uj_vault (up_journal u)) (uj_old_version (up_journal u)) (uj_new_version (up_journal u))
        (uj_entries (up_journal u) @ extra))"

lemma guarded_left_behind: "guarded hx u \<Longrightarrow> left_behind u u"
  unfolding guarded_def left_behind_def Let_def by (metis append_Nil2)

text \<open>One batch: collect the entries, then append them with some root entries.\<close>

lemma guarded_batch:
  assumes g: "guarded hx u" and hx: "hexdigest hx" and good: "\<forall>q \<in> set qs. good_path (canonical (up_journal u) q)"
    and roots: "\<forall>e \<in> set rs. \<exists>p ds. e = RootEntry st p ds \<and> (\<forall>blobs. ok_entry (uj_vault (up_journal u)) blobs e)"
    and run: "bind_prog (file_entries hx st qs) (\<lambda>es. append_entries (es @ rs)) u = (r, w)"
  shows "(r = Inr () \<longrightarrow> guarded hx w \<and> extends_journal u w
           \<and> (\<exists>es v. uj_entries (up_journal w) = uj_entries (up_journal u) @ es @ rs \<and> batch hx st u qs es v))
    \<and> left_behind u w"
proof -
  let ?j = "up_journal u"
  from g have read: "readable u (uj_vault ?j) (uj_old_version ?j) (uj_new_version ?j) (uj_entries ?j)"
    and tail: "\<not> jd_tail (up_directory u)" and sound: "sound_blobs hx (jd_blobs (up_directory u))"
    and cap: "\<And>g p. (g, p) \<in> set (uj_captured ?j) \<longleftrightarrow> (\<exists>b. FileEntry g p b \<in> set (uj_entries ?j))"
    by (auto simp: guarded_def Let_def)
  from run show ?thesis
  proof (cases rule: bind_prog_cases)
    case (1 e)
    from readable_collects(1)[OF read keepsD[OF keeps_collects_entries 1(1)]] have "left_behind u w"
      unfolding left_behind_def by (metis append_Nil2)
    with 1(2) show ?thesis by simp
  next
    case (2 es v)
    have col: "collects hx u v" by (rule keepsD[OF keeps_collects_entries 2(1)])
    note v = readable_collects[OF read col]
    have bat: "batch hx st u qs es v" by (rule file_entries_batch[OF 2(1) sound])
    have ok: "\<forall>e \<in> set (es @ rs). ok_entry (uj_vault ?j) (jd_blobs (up_directory v)) e"
      using ok_batch[OF bat hx good] roots by auto
    have "\<not> jd_tail (up_directory v)" using v(2) tail by simp
    from readable_append[OF v(1) this 2(2) ok] obtain k where
      k: "readable w (uj_vault ?j) (uj_old_version ?j) (uj_new_version ?j) (uj_entries ?j @ take k (es @ rs))"
        "r = Inr () \<longrightarrow> take k (es @ rs) = es @ rs \<and> \<not> jd_tail (up_directory w)"
        "jd_blobs (up_directory w) = jd_blobs (up_directory v)"
        "r = Inr () \<longrightarrow> up_journal w = (up_journal v)\<lparr>uj_entries := uj_entries (up_journal v) @ es @ rs\<rparr>" by auto
    have "left_behind u w" using k(1) unfolding left_behind_def by blast
    moreover have "guarded hx w \<and> extends_journal u w \<and>
        (\<exists>es v. uj_entries (up_journal w) = uj_entries ?j @ es @ rs \<and> batch hx st u qs es v)" if "r = Inr ()"
    proof -
      have w: "up_journal w = (up_journal v)\<lparr>uj_entries := uj_entries (up_journal v) @ es @ rs\<rparr>" using k(4) that by simp
      have "(g, p) \<in> set (uj_captured (up_journal w)) \<longleftrightarrow> (\<exists>b. FileEntry g p b \<in> set (uj_entries (up_journal w)))" for g p
      proof -
        have "set (uj_captured (up_journal v)) = set (uj_captured ?j) \<union> {(st, p) | p. \<exists>b. FileEntry st p b \<in> set es}"
          using bat by (simp add: batch_def)
        moreover have "FileEntry g p b \<in> set es \<Longrightarrow> g = st" for b using bat unfolding batch_def by auto
        moreover have "FileEntry g p b \<notin> set rs" for b using roots by auto
        ultimately show ?thesis using cap[of g p] w v(4) by auto
      qed
      moreover have "sound_blobs hx (jd_blobs (up_directory w))" using v(3)[OF sound] k(3) by simp
      ultimately have "guarded hx w"
        unfolding guarded_def Let_def using k that w v by simp
      moreover have "extends_journal u w" using w v by (simp add: extends_journal_def)
      ultimately show ?thesis using w v(4) bat by auto
    qed
    ultimately show ?thesis by blast
  qed
qed

lemma guarded_capture:
  assumes "guarded hx u" "hexdigest hx" "\<forall>q \<in> set qs. good_path (canonical (up_journal u) q)" "capture hx st qs u = (r, w)"
  shows "(r = Inr () \<longrightarrow> guarded hx w \<and> extends_journal u w
           \<and> (\<exists>es v. uj_entries (up_journal w) = uj_entries (up_journal u) @ es \<and> batch hx st u qs es v))
    \<and> left_behind u w"
proof -
  have "bind_prog (file_entries hx st qs) (\<lambda>es. append_entries (es @ [])) u = (r, w)"
    using assms(4) by (simp add: capture_def)
  from guarded_batch[OF assms(1-3) _ this] show ?thesis by simp
qed

section \<open>Capturing a tree\<close>

definition good_names :: "'x disk_scheme \<Rightarrow> bool" where
  "good_names d \<longleftrightarrow> (\<forall>(q, n) \<in> set (dk_nodes d). good_path q)"

lemma child_names_good:
  assumes "good_names d" "x \<in> set (child_names d p)"
  shows "good_component x"
proof -
  from assms(2) obtain q n where q: "(q, n) \<in> set (dk_nodes d)" "q \<noteq> []" "x = last q" by (auto simp: child_names_def)
  with assms(1) have "good_path q" by (auto simp: good_names_def)
  with q show ?thesis by (simp add: list_all_iff)
qed

lemma walk_good:
  "good_names d \<Longrightarrow> good_path p \<Longrightarrow> (dir, ds, fs) \<in> set (walk n d p) \<Longrightarrow>
   good_path dir \<and> within dir p \<and> list_all good_component fs"
proof (induction n arbitrary: p)
  case (Suc n)
  from Suc.prems(3) consider "dir = p" "set fs \<subseteq> set (child_names d p)"
    | x where "x \<in> set (child_names d p)" "(dir, ds, fs) \<in> set (walk n d (p @ [x]))" by (auto simp: Let_def)
  then show ?case
  proof cases
    case 1
    with Suc.prems child_names_good[OF Suc.prems(1)] show ?thesis by (auto simp: within_def list_all_iff)
  next
    case 2
    have "good_path (p @ [x])" using Suc.prems(2) child_names_good[OF Suc.prems(1) 2(1)] by simp
    from Suc.IH[OF Suc.prems(1) this 2(2)] have ih: "good_path dir" "within dir (p @ [x])" "list_all good_component fs" by auto
    then have "take (length p) (take (length p + 1) dir) = p" by (simp add: within_def)
    then have "within dir p" by (simp add: within_def)
    with ih show ?thesis by simp
  qed
qed simp

lemma walk_root_good:
  assumes "good_names d" "good_path p" "(dir, ds, fs) \<in> set (walk_root d p)"
  shows "good_path dir \<and> within dir p \<and> list_all good_component fs"
proof -
  have "(dir, ds, fs) \<in> set (walk (walk_depth d) d p)" using assms(3) by (simp add: walk_root_def split: if_splits)
  from walk_good[OF assms(1,2) this] show ?thesis .
qed

lemma guarded_tree:
  assumes g: "guarded hx u" and hx: "hexdigest hx" and names: "good_names u"
    and root: "good_path (canonical (up_journal u) given)" "within (canonical (up_journal u) given) (uj_vault (up_journal u))"
    and given: "uj_given (up_journal u) = uj_vault (up_journal u)"
    and run: "capture_tree hx st given u = (r, w)"
  shows "(r = Inr () \<longrightarrow> guarded hx w \<and> extends_journal u w) \<and> left_behind u w"
proof (cases "(st, canonical (up_journal u) given) \<in> set (uj_roots (up_journal u))")
  case True
  with run have "r = Inr ()" "w = u" by (simp_all add: capture_tree_def Let_def)
  with g guarded_left_behind[OF g] show ?thesis by (simp add: extends_refl)
next
  case False
  let ?root = "canonical (up_journal u) given"
  let ?walked = "walk_root u ?root"
  let ?files = "concat (map (\<lambda>(dir, ds, fs). map (\<lambda>x. dir @ [x]) fs) ?walked)"
  let ?u = "u\<lparr>up_journal := (up_journal u)\<lparr>uj_roots := (st, ?root) # uj_roots (up_journal u)\<rparr>\<rparr>"
  have good: "\<forall>(dir, ds, fs) \<in> set ?walked. good_path dir \<and> within dir ?root \<and> list_all good_component fs"
    using walk_root_good[OF names root(1)] by blast
  have g': "guarded hx ?u" using g by (simp add: guarded_def readable_def Let_def)
  have canon: "canonical (up_journal ?u) q = q" for q using given by (simp add: canonical_def)
  have files: "\<forall>q \<in> set ?files. good_path (canonical (up_journal ?u) q)"
  proof
    fix q assume "q \<in> set ?files"
    then obtain dir ds fs x where q: "(dir, ds, fs) \<in> set ?walked" "x \<in> set fs" "q = dir @ [x]" by auto
    from good q(1) have "good_path dir" "list_all good_component fs" by auto
    with q show "good_path (canonical (up_journal ?u) q)" unfolding canon by (simp add: list_all_iff)
  qed
  have "list_all (\<lambda>q. good_path q \<and> within q ?root) (map fst ?walked)" using good by (auto simp: list_all_iff)
  with root have roots: "\<forall>e \<in> set [RootEntry st ?root (map fst ?walked)].
      \<exists>p ds. e = RootEntry st p ds \<and> (\<forall>blobs. ok_entry (uj_vault (up_journal ?u)) blobs e)" by simp
  have "bind_prog (file_entries hx st ?files) (\<lambda>es. append_entries (es @ [RootEntry st ?root (map fst ?walked)])) ?u = (r, w)"
    using run False by (simp add: capture_tree_def Let_def bind_prog_def mark_root_def)
  from guarded_batch[OF g' hx files roots this] have
    "(r = Inr () \<longrightarrow> guarded hx w \<and> extends_journal ?u w) \<and> left_behind ?u w" by blast
  then show ?thesis by (simp add: extends_journal_def left_behind_def)
qed

section \<open>Runs\<close>

text \<open>
  Captures that returned, and any change of the vault between them (also by others).
\<close>

inductive upgrade_run :: "(string \<Rightarrow> string) \<Rightarrow> upgrade \<Rightarrow> upgrade \<Rightarrow> bool" for hx where
  run_start: "upgrade_run hx u u"
| run_capture: "upgrade_run hx u v \<Longrightarrow> \<forall>q \<in> set qs. good_path (canonical (up_journal v) q) \<Longrightarrow>
     capture hx g qs v = (Inr (), w) \<Longrightarrow> upgrade_run hx u w"
| run_tree: "upgrade_run hx u v \<Longrightarrow> good_names v \<Longrightarrow> uj_given (up_journal v) = uj_vault (up_journal v) \<Longrightarrow>
     good_path root \<Longrightarrow> within root (uj_vault (up_journal v)) \<Longrightarrow> capture_tree hx g root v = (Inr (), w) \<Longrightarrow> upgrade_run hx u w"
| run_vault: "upgrade_run hx u v \<Longrightarrow> up_directory w = up_directory v \<Longrightarrow> up_journal w = up_journal v \<Longrightarrow> upgrade_run hx u w"

text \<open>Where the process can die: between two steps, or inside one.\<close>

inductive killed :: "(string \<Rightarrow> string) \<Rightarrow> upgrade \<Rightarrow> upgrade \<Rightarrow> bool" for hx where
  killed_between: "killed hx v v"
| killed_capture: "\<forall>q \<in> set qs. good_path (canonical (up_journal v) q) \<Longrightarrow> capture hx g qs v = (Inl e, w) \<Longrightarrow> killed hx v w"
| killed_tree: "good_names v \<Longrightarrow> uj_given (up_journal v) = uj_vault (up_journal v) \<Longrightarrow> good_path root \<Longrightarrow>
     within root (uj_vault (up_journal v)) \<Longrightarrow> capture_tree hx g root v = (Inl e, w) \<Longrightarrow> killed hx v w"

lemma guarded_run:
  "upgrade_run hx u w \<Longrightarrow> guarded hx u \<Longrightarrow> hexdigest hx \<Longrightarrow> guarded hx w \<and> extends_journal u w"
proof (induction rule: upgrade_run.induct)
  case (run_start u)
  then show ?case by (simp add: extends_refl)
next
  case (run_capture u v qs g w)
  with guarded_capture[of hx v qs g "Inr ()" w] show ?case using extends_trans by blast
next
  case (run_tree u v root g w)
  then have "canonical (up_journal v) root = root" by (simp add: canonical_def)
  with run_tree guarded_tree[of hx v root g "Inr ()" w] show ?case using extends_trans by auto
next
  case (run_vault u v w)
  then show ?case by (simp add: guarded_def readable_def extends_journal_def)
qed

lemma killed_left_behind:
  "killed hx v w \<Longrightarrow> guarded hx v \<Longrightarrow> hexdigest hx \<Longrightarrow> left_behind v w"
proof (induction rule: killed.induct)
  case (killed_between v)
  then show ?case using guarded_left_behind by blast
next
  case (killed_capture qs v g e w)
  with guarded_capture[of hx v qs g "Inl e" w] show ?case by blast
next
  case (killed_tree v root g e w)
  then have "canonical (up_journal v) root = root" by (simp add: canonical_def)
  with killed_tree guarded_tree[of hx v root g "Inl e" w] show ?case by auto
qed

section \<open>First entries win\<close>

lemma map_of_filter_key: "map_of (filter (\<lambda>(q, c). q \<noteq> p) xs) q = (if q = p then None else map_of xs q)"
  by (induction xs) auto

lemma stage_files_append:
  "map_of (stage_files g (es @ fs)) p = (case map_of (stage_files g es) p of Some b \<Rightarrow> Some b | None \<Rightarrow> map_of (stage_files g fs) p)"
proof (induction es)
  case (Cons e es)
  then show ?case by (cases e) (auto simp: Let_def map_of_filter_key)
qed simp

lemma stage_files_member:
  "FileEntry g p b \<in> set es \<Longrightarrow> \<forall>c. FileEntry g p c \<in> set es \<longrightarrow> c = b \<Longrightarrow> map_of (stage_files g es) p = Some b"
proof (induction es)
  case (Cons e es)
  show ?case
  proof (cases e)
    case (FileEntry h q c)
    show ?thesis
    proof (cases "h = g \<and> q = p")
      case True
      with FileEntry Cons.prems(2) show ?thesis by (simp add: Let_def)
    next
      case False
      then have "FileEntry g p b \<noteq> e" using FileEntry by auto
      then have "FileEntry g p b \<in> set es" using Cons.prems(1) by simp
      moreover have "\<forall>c. FileEntry g p c \<in> set es \<longrightarrow> c = b" using Cons.prems(2) by simp
      ultimately have "map_of (stage_files g es) p = Some b" by (rule Cons.IH)
      with FileEntry False show ?thesis by (auto simp: Let_def map_of_filter_key)
    qed
  next
    case (RootEntry h q ds)
    then have "FileEntry g p b \<in> set es" using Cons.prems(1) by simp
    moreover have "\<forall>c. FileEntry g p c \<in> set es \<longrightarrow> c = b" using Cons.prems(2) by simp
    ultimately have "map_of (stage_files g es) p = Some b" by (rule Cons.IH)
    with RootEntry show ?thesis by simp
  qed
qed simp

lemma stage_files_none: "\<forall>b. FileEntry g p b \<notin> set es \<Longrightarrow> map_of (stage_files g es) p = None"
proof (induction es)
  case (Cons e es)
  then show ?case by (cases e) (auto simp: Let_def map_of_filter_key)
qed simp

end
