(* ===== verification/Upgrade_Properties.thy ===== *)
theory Upgrade_Properties
  imports Restore_Copies Journal_Runs
begin

text \<open>
  What the upgrade journal promises: what was captured is read back after a kill at any point, a
  restore that verifies has every captured path and root as it was, and nothing a restore overwrites
  is lost.
\<close>

section \<open>Reading back\<close>



section \<open>Snapshots\<close>




section \<open>Restoring\<close>

lemma restore_verified:
  assumes "restore_snapshots stored snaps roots u = (Inr r, u')" "verified r"
  shows "(\<forall>(p, s) \<in> set snaps. content u' p = s \<and> (s = None \<longrightarrow> \<not> exists_at u' p))
    \<and> (\<forall>(root, original) \<in> set roots. root_exact u' snaps root original) \<and> (well_formed u \<longrightarrow> well_formed u')"
proof -
  from assms(1) obtain n u1 u2 u3 u4 g1 g2 g3 where
    plan: "plan_restore snaps roots u = (Inr n, u1)" and pres: "preserve_foreign stored (pn_foreign n) u1 = (Inr (), u2)"
    and app: "apply_plan stored snaps n u2 = (Inr g1, u3)" and vs: "verify_snapshots stored snaps g1 u3 = (Inr g2, u4)"
    and vr: "verify_roots stored snaps roots g2 u4 = (Inr g3, u')" and r: "r = report_of g3"
    unfolding restore_snapshots_def by (auto simp: return_prog_def elim!: bind_prog_cases)
  have e: "rr_errors g3 = []" using assms(2) r by (simp add: verified_def report_of_def)
  have "honest no_progress" by (simp add: honest_def no_progress_def)
  moreover from app obtain ga gb ua ub where "apply_writes stored snaps (pn_writes n) no_progress u2 = (Inr ga, ua)"
    "apply_removals stored (pn_removals n) ga ua = (Inr gb, ub)" "apply_prunes stored (pn_prunes n) gb ub = (Inr g1, u3)"
    unfolding apply_plan_def by (auto elim!: bind_prog_cases)
  ultimately have h1: "honest g1"
    using apply_writes_grows apply_removals_grows apply_prunes_grows grows_honest by metis
  note s1 = verify_snapshots_grows[OF vs h1]
  note s2 = verify_roots_grows[OF vr grows_honest[OF conjunct1[OF s1]]]
  have e2: "rr_errors g2 = []" using s2 e by (simp add: grows_def)
  have st: "still u3 u4" "still u4 u'"
    by (rule keepsD[OF looking.verify_snapshots vs]) (rule keepsD[OF looking.verify_roots vr])
  have st': "still u3 u'" by (rule still_trans[OF st])
  have wf: "well_formed u' = well_formed u3" using still_node[OF st'] by (simp add: well_formed_def)
  have "well_formed u2 = well_formed u"
    using still_node[OF still_trans[OF keepsD[OF looking.plan_restore plan] keepsD[OF keeps_still_preserve_foreign pres]]]
    by (simp add: well_formed_def)
  moreover have "well_formed u2 \<longrightarrow> well_formed u3" using keepsD[OF keeps_apply_plan app] by (simp add: applied_def)
  ultimately have "well_formed u \<longrightarrow> well_formed u'" using wf by simp
  moreover have "\<forall>(p, s) \<in> set snaps. content u' p = s \<and> (s = None \<longrightarrow> \<not> exists_at u' p)"
    using mp[OF conjunct2[OF s1] e2] unfolding still_content[OF st'] exists_still[OF st'] .
  moreover have "\<forall>(root, original) \<in> set roots. root_exact u' snaps root original"
    using mp[OF conjunct2[OF s2] e] unfolding root_exact_still[OF st(2)] .
  ultimately show ?thesis by blast
qed

text \<open>
  C21. A verified restore is exact: every captured path has its captured bytes, or is absent if it was,
  and every file below a captured root (outside the excluded stores) is one the capture recorded.
\<close>

theorem verified_restore_is_exact:
  assumes "restore_snapshots stored snaps roots u = (Inr r, u')" "verified r" "well_formed u"
  shows "(\<forall>(p, s) \<in> set snaps. content u' p = s \<and> (s = None \<longrightarrow> \<not> exists_at u' p))
    \<and> (\<forall>(root, original) \<in> set roots. \<forall>q b. content u' (root @ q) = Some b \<and> q \<noteq> []
         \<and> (\<forall>i < length q. \<not> is_excluded (root @ take (Suc i) q)) \<longrightarrow> (root @ q, Some b) \<in> set snaps)"
proof -
  note v = restore_verified[OF assms(1,2)]
  have exact: "content u' p = s" if "(p, s) \<in> set snaps" for p s using bspec[OF conjunct1[OF v] that] by simp
  have "(root @ q, Some b) \<in> set snaps"
    if root: "(root, original) \<in> set roots" and q: "content u' (root @ q) = Some b" "q \<noteq> []"
      "\<forall>i < length q. \<not> is_excluded (root @ take (Suc i) q)" for root original q b
  proof -
    have "well_formed u'" using v assms(3) by blast
    from walk_root_lists[OF this q] have w: "exists_at u' root" "root @ q \<in> set (walked_files (walk_root u' root))" by simp_all
    have "root_exact u' snaps root original" using bspec[OF conjunct1[OF conjunct2[OF v]] root] by simp
    with w have "root @ q \<in> set (expected_files snaps root)" by (auto simp: root_exact_def)
    then obtain s where "(root @ q, s) \<in> set snaps" by (auto simp: expected_files_def)
    with exact q(1) show ?thesis by force
  qed
  then have "\<forall>(root, original) \<in> set roots. \<forall>q b. content u' (root @ q) = Some b \<and> q \<noteq> []
         \<and> (\<forall>i < length q. \<not> is_excluded (root @ take (Suc i) q)) \<longrightarrow> (root @ q, Some b) \<in> set snaps" by auto
  with conjunct1[OF v] show ?thesis by (rule conjI)
qed


section \<open>Nothing is destroyed\<close>
















section \<open>The directory begins and ends with the header\<close>

lemma with_directory_either:
  assumes "with_directory f u = (r, u')"
  shows "(up_directory u' = up_directory u \<and> r \<noteq> Inr () \<or> up_directory u' = f (up_directory u))
    \<and> up_journal u' = up_journal u"
  using assms unfolding with_directory_def
proof (cases rule: faulty_cases)
  case (fault g fs)
  then show ?thesis by (auto dest: arg_cong[where f = up_directory])
qed auto

lemma open_journal_whole:
  assumes run: "open_journal vault given old new started u = (r, u')"
    and none: "jd_header (up_directory u) = None" and assms: "jd_exists (up_directory u) \<or> up_directory u = no_directory"
  shows "(jd_header (up_directory u') = None \<or> readable u' vault old new []) \<and> (r = Inr () \<longrightarrow> guarded hx u')"
proof -
  let ?clean = "\<lambda>u. if jd_exists (up_directory u) then with_directory (\<lambda>_. no_directory) u else (Inr (), u)"
  from run none have "bind_prog ?clean (\<lambda>_.
     bind_prog (with_directory (\<lambda>j. j\<lparr>jd_exists := True\<rparr>)) (\<lambda>_.
     bind_prog (with_directory (\<lambda>j. j\<lparr>jd_lines := Some [], jd_tail := False\<rparr>)) (\<lambda>_.
     bind_prog (with_directory (\<lambda>j. j\<lparr>jd_header := Some (HeaderText (header_json vault old new started))\<rparr>)) (\<lambda>_ u.
     (Inr (), u\<lparr>up_journal := new_journal vault given old new []\<rparr>))))) u = (r, u')"
    by (simp add: open_journal_def bind_prog_def lift_result_def check_that_def)
  then show ?thesis
  proof (cases rule: bind_prog_cases)
    case (1 e)
    then have "with_directory (\<lambda>_. no_directory) u = (Inl e, u')" by (auto split: if_splits)
    from with_directory_either[OF this] none 1(2) show ?thesis by (auto simp: no_directory_def)
  next
    case (2 x u1)
    have u1: "up_directory u1 = no_directory"
      using 2(1) assms with_directory_either[of "\<lambda>_. no_directory" u "Inr ()" u1] by (auto split: if_splits)
    from 2(2) show ?thesis
    proof (cases rule: bind_prog_cases)
      case (1 e)
      with with_directory_either[OF 1(1)] u1 show ?thesis by (auto simp: no_directory_def)
    next
      case (2 x u2)
      have u2: "up_directory u2 = no_directory\<lparr>jd_exists := True\<rparr>" using with_directory_either[OF 2(1)] u1 by auto
      from 2(2) show ?thesis
      proof (cases rule: bind_prog_cases)
        case (1 e)
        with with_directory_either[OF 1(1)] u2 show ?thesis by (auto simp: no_directory_def)
      next
        case (2 x u3)
        have u3: "up_directory u3 = no_directory\<lparr>jd_exists := True, jd_lines := Some [], jd_tail := False\<rparr>"
          using with_directory_either[OF 2(1)] u2 by auto
        from 2(2) show ?thesis
        proof (cases rule: bind_prog_cases)
          case (1 e)
          with with_directory_either[OF 1(1)] u3 show ?thesis by (auto simp: no_directory_def readable_def)
        next
          case (2 x u4)
          have u4: "up_directory u4 = (up_directory u3)\<lparr>jd_header := Some (HeaderText (header_json vault old new started))\<rparr>"
            using with_directory_either[OF 2(1)] by auto
          from 2(2) have "r = Inr ()" "u' = u4\<lparr>up_journal := new_journal vault given old new []\<rparr>" by auto
          with u3 u4 show ?thesis
            by (auto simp: guarded_def readable_def new_journal_def no_directory_def sound_blobs_def Let_def)
        qed
      qed
    qed
  qed
qed

lemma discard_whole:
  assumes "discard u = (r, u')"
  shows "up_directory u' = up_directory u \<or> jd_header (up_directory u') = None"
  using assms unfolding discard_def
proof (cases rule: bind_prog_cases)
  case (1 e)
  from with_directory_either[OF 1(1)] show ?thesis by auto
next
  case (2 x u1)
  have u1: "jd_header (up_directory u1) = None" using with_directory_either[OF 2(1)] by auto
  from 2(2) show ?thesis
  proof (cases rule: catching_cases)
    case (raised e u2)
    then have "up_directory u' = up_directory u2" by (auto simp: return_prog_def raise_prog_def split: if_splits)
    with with_directory_either[OF raised(1)] u1 show ?thesis by (auto simp: no_directory_def)
  next
    case (returned y)
    with with_directory_either[OF returned(1)] u1 show ?thesis by (auto simp: no_directory_def)
  qed
qed

text \<open>
  A journal is there as a whole or not at all: wherever opening one stops, there is no header or the
  complete empty journal, which is what a successful open leaves and any capture may build on; wherever
  discarding stops, the directory is untouched or without a header.
\<close>

theorem journal_begins_and_ends_whole:
  assumes "jd_exists (up_directory u) \<or> up_directory u = no_directory"
  shows "(jd_header (up_directory u) = None \<longrightarrow>
           (case open_journal vault given old new started u of (r, u') \<Rightarrow>
              (jd_header (up_directory u') = None \<or> readable u' vault old new []) \<and> (r = Inr () \<longrightarrow> guarded hx u')))
       \<and> (case discard u of (r, u') \<Rightarrow> up_directory u' = up_directory u \<or> jd_header (up_directory u') = None)"
  using open_journal_whole[OF _ _ assms] discard_whole by (auto split: prod.splits)

section \<open>A file that cannot be read\<close>

text \<open>
  The exception to the promise: a file that is there but cannot be read while the restore is planned
  counts as having nothing to preserve; it is overwritten, no copy is made, and the report is verified.
\<close>

theorem unreadable_file_is_overwritten:
  assumes "node u p = Some (Regular b)" "well_formed u" "dk_faults u = [FaultBefore OSError]"
  shows "\<exists>r u'. restore_snapshots True [(p, Some c)] [] u = (Inr r, u') \<and> verified r
    \<and> content u' p = Some c \<and> copies u' = copies u"
proof -
  let ?u = "u\<lparr>dk_faults := []\<rparr>"
  let ?w = "set_node p (Regular c) ?u"
  have "p \<noteq> []" using assms(1) by auto
  have read: "current_bytes p u = (Inr None, ?u)"
    using assms(3) by (simp add: current_bytes_def catching_def bind_prog_def faulty_def return_prog_def Let_def)
  have dirs: "\<forall>q \<in> set (parents p). is_directory (node ?u q)"
  proof
    fix q assume "q \<in> set (parents p)"
    then obtain r where "r \<noteq> []" "p = q @ r" by (auto simp: parents_iff)
    with ancestors_directories[OF assms(2), of q r] assms(1) show "is_directory (node ?u q)" by simp
  qed
  have "butlast p \<in> set (parents p)"
    using \<open>p \<noteq> []\<close> by (auto simp: parents_iff) (metis append_butlast_last_id not_Cons_self2)
  with dirs have "is_directory (node ?u (butlast p))" by blast
  with assms(1) \<open>p \<noteq> []\<close> have replace: "replace_file p c ?u = (Inr (), ?w)"
    by (simp add: replace_file_def faulty_calm)
  have make: "make_directories (rev (parents p)) ?u = (Inr (), ?u)" using dirs by (intro make_directories_present) simp
  have now: "node ?w p = Some (Regular c)" using \<open>p \<noteq> []\<close> by (simp add: node_set)
  have calm: "dk_faults ?w = []" by simp
  then have seen: "current_bytes p ?w = (Inr (Some c), ?w)"
    using now by (simp add: current_bytes_def catching_def bind_prog_def faulty_calm return_prog_def read_bytes_def look_def)
  let ?n = "no_plan\<lparr>pn_writes := [(p, c)]\<rparr>"
  have plan: "plan_restore [(p, Some c)] [] u = (Inr ?n, ?u)"
    using read by (simp add: plan_restore_def bind_prog_def return_prog_def plan_snapshot_def note_foreign_def no_plan_def)
  have app: "apply_plan True [(p, Some c)] ?n ?u = (Inr (restored_at p no_progress), ?w)"
    using make replace
    by (simp add: apply_plan_def bind_prog_def apply_write_def restore_file_def catching_def return_prog_def no_plan_def)
  have "verify_snapshots True [(p, Some c)] (restored_at p no_progress) ?w = (Inr (restored_at p no_progress), ?w)"
    using seen by (simp add: bind_prog_def verify_snapshot_def restored_at_def no_progress_def return_prog_def)
  with plan app have "restore_snapshots True [(p, Some c)] [] u = (Inr (report_of (restored_at p no_progress)), ?w)"
    by (simp add: restore_snapshots_def bind_prog_def preserve_foreign_def no_plan_def return_prog_def)
  moreover have "verified (report_of (restored_at p no_progress))"
    by (simp add: verified_def report_of_def restored_at_def no_progress_def)
  moreover have "content ?w p = Some c" using now by (simp add: content_def)
  moreover have "copies ?w = copies u" by (simp add: copies_def)
  ultimately show ?thesis by blast
qed

section \<open>Witnesses\<close>

definition demo_digest :: "string \<Rightarrow> string" where
  "demo_digest s = (if s = ''old'' then replicate 64 CHR ''0'' else replicate 64 CHR ''1'')"


definition demo_vault :: "string \<Rightarrow> upgrade" where
  "demo_vault bytes =
     \<lparr>dk_nodes = [([''v''], Directory 1), ([''v'', ''a''], Regular bytes)], dk_faults = [], dk_fresh = 2,
      up_directory = no_directory, up_journal = new_journal [''v''] [''v''] (Some ''1'') ''2'' [], up_recovery = new_recovery\<rparr>"

definition demo_started :: upgrade where
  "demo_started = snd (open_journal [''v''] [''v''] (Some ''1'') ''2'' ''now'' (demo_vault ''old''))"






lemma demo_open:
  "open_journal [''v''] [''v''] (Some ''1'') ''2'' ''now'' (demo_vault ''old'') = (Inr (), demo_started)"
  by code_simp


lemma journal_begins_and_ends_whole_witness:
  "readable demo_started [''v''] (Some ''1'') ''2'' [] \<and> guarded demo_digest demo_started"
proof -
  have "jd_exists (up_directory (demo_vault ''old'')) \<or> up_directory (demo_vault ''old'') = no_directory"
    and none: "jd_header (up_directory (demo_vault ''old'')) = None" by (simp_all add: demo_vault_def no_directory_def)
  from conjunct1[OF journal_begins_and_ends_whole[OF this(1), where vault = "[''v'']" and given = "[''v'']" and old = "Some ''1''"
      and new = "''2''" and started = "''now''" and hx = demo_digest]]
  have "(jd_header (up_directory demo_started) = None \<or> readable demo_started [''v''] (Some ''1'') ''2'' []) \<and> guarded demo_digest demo_started"
    using none by (simp add: demo_open)
  moreover have "jd_header (up_directory demo_started) \<noteq> None" by code_simp
  ultimately show ?thesis by blast
qed





lemma demo_well_formed: "well_formed (demo_vault b\<lparr>dk_faults := fs\<rparr>)"
  by (auto simp: well_formed_def demo_vault_def node_def split: if_splits)

lemma unreadable_file_is_overwritten_witness:
  "\<exists>r u'. restore_snapshots True [([''v'', ''a''], Some ''old'')] [] (demo_vault ''edited''\<lparr>dk_faults := [FaultBefore OSError]\<rparr>) = (Inr r, u')
     \<and> verified r \<and> content u' [''v'', ''a''] = Some ''old'' \<and> copies u' = {}"
proof -
  let ?u = "demo_vault ''edited''\<lparr>dk_faults := [FaultBefore OSError]\<rparr>"
  have "node ?u [''v'', ''a''] = Some (Regular ''edited'')" "dk_faults ?u = [FaultBefore OSError]"
    by (simp_all add: demo_vault_def node_def)
  moreover have "copies ?u = {}" by (simp add: copies_def demo_vault_def new_recovery_def)
  ultimately show ?thesis using unreadable_file_is_overwritten[OF _ demo_well_formed[where b = "''edited''" and fs = "[FaultBefore OSError]"],
      where p = "[''v'', ''a'']" and c = "''old''" and b = "''edited''"] by simp
qed

lemma verified_restore_is_exact_witness:
  "content (snd (restore_snapshots True [([''v'', ''b''], Some ''x'')] [([''v''], [[''v'']])] (demo_vault ''new''))) [''v'', ''b''] = Some ''x''"
proof -
  let ?run = "restore_snapshots True [([''v'', ''b''], Some ''x'')] [([''v''], [[''v'']])] (demo_vault ''new'')"
  have "case fst ?run of Inl e \<Rightarrow> False | Inr r \<Rightarrow> verified r" by code_simp
  then obtain r where r: "?run = (Inr r, snd ?run)" "verified r" by (cases ?run) (auto split: sum.splits)
  have "demo_vault ''new''\<lparr>dk_faults := []\<rparr> = demo_vault ''new''" by (simp add: demo_vault_def)
  with demo_well_formed[where b = "''new''" and fs = "[]"] have "well_formed (demo_vault ''new'')" by simp
  from conjunct1[OF verified_restore_is_exact[OF r this]] show ?thesis by simp
qed

end
