(* ===== verification/Page_Text.thy ===== *)
theory Page_Text
  imports Json_Codec
begin

text \<open>
  Text as the paging code of \<open>_application/result_navigation.py\<close> measures it: the characters of
  a Python string (each the string of its UTF-8 bytes), its lines as \<open>str.splitlines\<close> cuts
  them, the two JSON encodings whose sizes bound a page body, and the measure \<open>body_fits\<close>.
\<close>

section \<open>Characters and lines\<close>

definition continuation_byte :: "char \<Rightarrow> bool" where
  "continuation_byte c \<longleftrightarrow> 128 \<le> (of_char c :: nat) \<and> (of_char c :: nat) < 192"

lemma dropWhile_shorter [termination_simp]: "length (dropWhile P xs) < Suc (length xs)"
  by (simp add: length_dropWhile_le less_Suc_eq_le)

fun text_chars :: "string \<Rightarrow> string list" where
  "text_chars [] = []"
| "text_chars (c # r) =
     (c # takeWhile continuation_byte r) # text_chars (dropWhile continuation_byte r)"

text \<open>\<open>str.splitlines(keepends=True)\<close>: a carriage return takes a following line feed with it.\<close>

definition line_break :: "string \<Rightarrow> bool" where
  "line_break c \<longleftrightarrow> c \<in> set [[byte 10], [byte 13], [byte 11], [byte 12], [byte 28], [byte 29],
     [byte 30], [byte 194, byte 133], [byte 226, byte 128, byte 168], [byte 226, byte 128, byte 169]]"

fun take_line :: "string list \<Rightarrow> string list \<times> string list" where
  "take_line [] = ([], [])"
| "take_line (c # r) =
     (if c = [byte 13] \<and> r \<noteq> [] \<and> hd r = [byte 10] then ([c, hd r], tl r)
      else if line_break c then ([c], r)
      else (case take_line r of (l, q) \<Rightarrow> (c # l, q)))"

lemma take_line_split: "fst (take_line cs) @ snd (take_line cs) = cs"
proof (induction cs)
  case (Cons c r)
  then show ?case by (cases r) (auto split: prod.splits)
qed simp

lemma take_line_nonempty: "cs \<noteq> [] \<Longrightarrow> fst (take_line cs) \<noteq> []"
  by (cases cs) (auto split: prod.splits)

lemma take_line_shorter: "cs \<noteq> [] \<Longrightarrow> length (snd (take_line cs)) < length cs"
  using take_line_split[of cs] take_line_nonempty[of cs]
  by (metis length_append length_greater_0_conv less_add_same_cancel2)

function split_lines :: "string list \<Rightarrow> string list list" where
  "split_lines cs = (if cs = [] then [] else fst (take_line cs) # split_lines (snd (take_line cs)))"
  by pat_completeness auto
termination
  by (relation "measure length") (auto intro: take_line_shorter)

declare split_lines.simps [simp del]

lemma concat_text_chars [simp]: "concat (text_chars s) = s"
  by (induction s rule: text_chars.induct) auto

lemma text_chars_nonempty: "[] \<notin> set (text_chars s)"
  by (induction s rule: text_chars.induct) auto

lemma split_lines_Nil [simp]: "split_lines [] = []"
  by (subst split_lines.simps) simp

lemma concat_split_lines [simp]: "concat (split_lines cs) = cs"
proof (induction cs rule: split_lines.induct)
  case (1 cs)
  show ?case
  proof (cases "cs = []")
    case False
    with 1 take_line_split[of cs] show ?thesis by (subst split_lines.simps) simp
  qed simp
qed

lemma split_lines_nonempty: "[] \<notin> set (split_lines cs)"
proof (induction cs rule: split_lines.induct)
  case (1 cs)
  show ?case
  proof (cases "cs = []")
    case False
    then show ?thesis
      using 1 take_line_nonempty[of cs] by (subst split_lines.simps) auto
  qed simp
qed

section \<open>The default JSON encoding\<close>

text \<open>\<open>json.dumps(v)\<close>: ASCII only, with the separators \<open>", "\<close> and \<open>": "\<close>.\<close>

fun code_point :: "string \<Rightarrow> nat" where
  "code_point [a] = of_char a"
| "code_point [a, b] = (of_char a - 192) * 64 + (of_char b - 128)"
| "code_point [a, b, c] = (of_char a - 224) * 4096 + (of_char b - 128) * 64 + (of_char c - 128)"
| "code_point [a, b, c, d] =
     (of_char a - 240) * 262144 + (of_char b - 128) * 4096 + (of_char c - 128) * 64 + (of_char d - 128)"
| "code_point _ = 0"

definition escape_unit :: "nat \<Rightarrow> string" where
  "escape_unit u = [CHR 92, CHR ''u'', hex_digit (u div 4096 mod 16), hex_digit (u div 256 mod 16),
     hex_digit (u div 16 mod 16), hex_digit (u mod 16)]"

definition escape_text_char :: "string \<Rightarrow> string" where
  "escape_text_char ch = (let n = code_point ch in
     case short_escape n of
       Some e \<Rightarrow> [CHR 92, e]
     | None \<Rightarrow>
         if 32 \<le> n \<and> n < 127 then ch
         else if n < 65536 then escape_unit n
         else escape_unit (55296 + (n - 65536) div 1024) @ escape_unit (56320 + (n - 65536) mod 1024))"

definition ascii_str :: "string \<Rightarrow> string" where
  "ascii_str s = CHR 34 # concat (map escape_text_char (text_chars s)) @ [CHR 34]"

fun dumps_ascii :: "json \<Rightarrow> string"
  and ascii_items :: "json list \<Rightarrow> string"
  and ascii_fields :: "(string \<times> json) list \<Rightarrow> string"
where
  "dumps_ascii JNull = ''null''"
| "dumps_ascii (JBool b) = (if b then ''true'' else ''false'')"
| "dumps_ascii (JInt i) = int_str i"
| "dumps_ascii (JStr s) = ascii_str s"
| "dumps_ascii (JArr xs) = CHR ''['' # ascii_items xs @ [CHR '']'']"
| "dumps_ascii (JObj kvs) = CHR ''{'' # ascii_fields kvs @ [CHR ''}'']"
| "ascii_items [] = []"
| "ascii_items (x # xs) = dumps_ascii x @ (if xs = [] then [] else '', '' @ ascii_items xs)"
| "ascii_fields [] = []"
| "ascii_fields (f # fs) =
     ascii_str (fst f) @ '': '' @ dumps_ascii (snd f) @ (if fs = [] then [] else '', '' @ ascii_fields fs)"

section \<open>The longest prefix that fits\<close>

text \<open>
  The bisection of the paging code: it keeps \<open>lo\<close> among the ends that fit (or where it began)
  and cuts off the ends above a probe that does not fit.
\<close>

function last_fit :: "(nat \<Rightarrow> bool) \<Rightarrow> nat \<Rightarrow> nat \<Rightarrow> nat" where
  "last_fit P lo hi =
     (if lo < hi then let middle = (lo + hi + 1) div 2 in
        if P middle then last_fit P middle hi else last_fit P lo (middle - 1)
      else lo)"
  by pat_completeness auto
termination
  by (relation "measure (\<lambda>(P, lo, hi). hi - lo)") auto

declare last_fit.simps [simp del]

lemma last_fit_range: "lo \<le> hi \<Longrightarrow> lo \<le> last_fit P lo hi \<and> last_fit P lo hi \<le> hi"
proof (induction P lo hi rule: last_fit.induct)
  case (1 P lo hi)
  let ?m = "(lo + hi + 1) div 2"
  show ?case
  proof (cases "lo < hi")
    case True
    define m where "m = ?m"
    with True have m: "lo < m" "m \<le> hi" "lo \<le> m - 1" "m - 1 \<le> hi" by auto
    with True "1.IH"[OF True refl, folded m_def] show ?thesis
      by (auto simp: last_fit.simps[of P lo hi] Let_def m_def[symmetric] intro: le_trans[of _ "m - 1" hi]
          simp del: One_nat_def add_Suc_right)
  next
    case False
    with "1.prems" show ?thesis by (simp add: last_fit.simps)
  qed
qed

lemma last_fit_fits: "last_fit P lo hi = lo \<or> P (last_fit P lo hi)"
proof (induction P lo hi rule: last_fit.induct)
  case (1 P lo hi)
  show ?case
  proof (cases "lo < hi")
    case True
    with "1.IH"[OF True refl] show ?thesis
      by (cases "P ((lo + hi + 1) div 2)") (auto simp: last_fit.simps[of P lo hi] Let_def)
  qed (simp add: last_fit.simps)
qed

text \<open>If everything below an end that fits also fits, the bisection finds the last one.\<close>

lemma last_fit_greatest:
  assumes "\<And>i j. lo \<le> i \<Longrightarrow> i \<le> j \<Longrightarrow> j \<le> hi \<Longrightarrow> P j \<Longrightarrow> P i" "last_fit P lo hi < k" "k \<le> hi"
  shows "\<not> P k"
  using assms
proof (induction P lo hi rule: last_fit.induct)
  case (1 P lo hi)
  let ?m = "(lo + hi + 1) div 2"
  have lt: "lo < hi"
  proof (rule ccontr)
    assume "\<not> lo < hi"
    with "1.prems" show False by (simp add: last_fit.simps)
  qed
  show ?case
  proof (cases "P ?m")
    case True
    with "1.prems" lt show ?thesis
      by (intro "1.IH"(1)[OF lt refl]) (auto simp: last_fit.simps[of P lo hi] Let_def)
  next
    case False
    note m = False
    show ?thesis
    proof (cases "k < ?m")
      case True
      with "1.prems" lt m show ?thesis
        by (intro "1.IH"(2)[OF lt refl]) (auto simp: last_fit.simps[of P lo hi] Let_def)
    next
      case False
      have "lo \<le> ?m" using lt by auto
      with False "1.prems"(1)[of ?m k] "1.prems"(3) m show ?thesis by (meson not_le)
    qed
  qed
qed

section \<open>The budget of a page body\<close>

definition CANONICAL_BODY_BYTES :: nat where
  "CANONICAL_BODY_BYTES = 4000"

definition ENCODED_BODY_BYTES :: nat where
  "ENCODED_BODY_BYTES = 12768"

definition text_part :: "string \<Rightarrow> string \<Rightarrow> json" where
  "text_part text audience = JObj [(''type'', JStr ''text''), (''text'', JStr text),
     (''annotations'', JObj [(''audience'', JArr [JStr audience])])]"

definition encoded_body :: "json \<Rightarrow> json" where
  "encoded_body value = JObj [
     (''content'', JArr [text_part (dumps value) ''assistant'', text_part [] ''user'']),
     (''structuredContent'', value), (''isError'', JBool False)]"

definition body_fits :: "json \<Rightarrow> bool" where
  "body_fits value \<longleftrightarrow>
     length (dumps value) \<le> CANONICAL_BODY_BYTES
     \<and> length (dumps_ascii (encoded_body value)) \<le> ENCODED_BODY_BYTES"

lemma body_fits_bounds:
  "body_fits v \<Longrightarrow> length (dumps v) \<le> 4000"
  "body_fits v \<Longrightarrow> length (dumps_ascii (encoded_body v)) \<le> 12768"
  by (simp_all add: body_fits_def CANONICAL_BODY_BYTES_def ENCODED_BODY_BYTES_def)

section \<open>Evaluation\<close>

text \<open>The same functions on the bits of a character, and lengths counted in binary.\<close>

lemma continuation_byte_code [code]:
  "continuation_byte (Char b0 b1 b2 b3 b4 b5 b6 b7) \<longleftrightarrow> b7 \<and> \<not> b6"
  by (cases b0; cases b1; cases b2; cases b3; cases b4; cases b5; cases b6; cases b7)
    (simp_all add: continuation_byte_def of_char_Char)

definition plain_ascii :: "char \<Rightarrow> bool" where
  "plain_ascii c \<longleftrightarrow> 32 \<le> (of_char c :: nat) \<and> (of_char c :: nat) < 127 \<and> c \<noteq> CHR 34 \<and> c \<noteq> CHR 92"

lemma plain_ascii_code [code]:
  "plain_ascii (Char b0 b1 b2 b3 b4 b5 b6 b7) \<longleftrightarrow> \<not> b7 \<and> (b5 \<or> b6)
     \<and> \<not> (b0 \<and> b1 \<and> b2 \<and> b3 \<and> b4 \<and> b5 \<and> b6)
     \<and> \<not> (\<not> b0 \<and> b1 \<and> \<not> b2 \<and> \<not> b3 \<and> \<not> b4 \<and> b5 \<and> \<not> b6)
     \<and> \<not> (\<not> b0 \<and> \<not> b1 \<and> b2 \<and> b3 \<and> b4 \<and> \<not> b5 \<and> b6)"
  by (cases b0; cases b1; cases b2; cases b3; cases b4; cases b5; cases b6; cases b7)
    (simp_all add: plain_ascii_def of_char_Char)

lemma plain_escape: "plain_ascii c \<Longrightarrow> escape_text_char [c] = [c]"
  using char_of_eq_iff[of c 34] char_of_eq_iff[of c 92]
  by (auto simp: plain_ascii_def escape_text_char_def short_escape_def Let_def char_of_def bit_0)

definition escape_code_point :: "string \<Rightarrow> string" where
  "escape_code_point = escape_text_char"

lemma escape_text_char_code [code]:
  "escape_text_char ch = (case ch of
     [c] \<Rightarrow> if plain_ascii c then [c] else if c = CHR 34 \<or> c = CHR 92 then [CHR 92, c] else escape_code_point ch
   | _ \<Rightarrow> escape_code_point ch)"
proof -
  have "escape_text_char [CHR 34] = [CHR 92, CHR 34]" "escape_text_char [CHR 92] = [CHR 92, CHR 92]"
    by (simp_all add: escape_text_char_def short_escape_def)
  then show ?thesis
    by (auto simp: escape_code_point_def plain_escape split: list.splits)
qed

lemma escape_code_point_code [code]:
  "escape_code_point ch = (let n = code_point ch in
     case short_escape n of
       Some e \<Rightarrow> [CHR 92, e]
     | None \<Rightarrow>
         if 32 \<le> n \<and> n < 127 then ch
         else if n < 65536 then escape_unit n
         else escape_unit (55296 + (n - 65536) div 1024) @ escape_unit (56320 + (n - 65536) mod 1024))"
  by (simp add: escape_code_point_def escape_text_char_def)

fun int_length :: "'a list \<Rightarrow> int" where
  "int_length [] = 0"
| "int_length (x # xs) = 1 + int_length xs"

lemma int_length: "int_length xs = int (length xs)"
  by (induction xs) auto

lemma body_fits_code [code]:
  "body_fits value \<longleftrightarrow>
     int_length (dumps value) \<le> 4000 \<and> int_length (dumps_ascii (encoded_body value)) \<le> 12768"
  by (auto simp: body_fits_def CANONICAL_BODY_BYTES_def ENCODED_BODY_BYTES_def int_length)

end
