(* ===== verification/Page_Selection.thy ===== *)
theory Page_Selection
  imports Page_Text
begin

text \<open>
  The navigation half of \<open>_application/result_navigation.py\<close> with the delivery descriptor of
  \<open>_bootstrap/result_metadata.py\<close>: which page a request addresses, what part of a view it
  selects, and the metadata that travels with the page. A frame (the envelope of one page) is
  the association list of its fields; \<open>hx\<close> stands for \<open>sha256(...).hexdigest()\<close>.
\<close>

type_synonym frame = "(string \<times> json) list"

definition LAYOUT_VERSION :: int where
  "LAYOUT_VERSION = 4"

text \<open>\<open>_identity(value)\<close>.\<close>

definition page_identity :: "(string \<Rightarrow> string) \<Rightarrow> json \<Rightarrow> string" where
  "page_identity hx v = take 32 (hx (dumps v))"

section \<open>Sizes and positions\<close>

text \<open>\<open>_positive\<close>: an integer (not a boolean) from 1 to the maximum.\<close>

fun positive :: "int option \<Rightarrow> json \<Rightarrow> exn + int" where
  "positive maximum (JInt v) =
     (if v < 1 \<or> (case maximum of None \<Rightarrow> False | Some m \<Rightarrow> m < v) then Inl ValueError else Inr v)"
| "positive maximum _ = Inl ValueError"

text \<open>\<open>_PAGE_SIZE_LIMITS\<close>; another unit is a \<open>KeyError\<close>.\<close>

definition page_size_limits :: "string \<Rightarrow> exn + int \<times> int" where
  "page_size_limits unit =
    (if unit = ''bytes'' then Inr (int CANONICAL_BODY_BYTES, int CANONICAL_BODY_BYTES)
     else if unit = ''lines'' then Inr (100, 500)
     else if unit = ''records'' \<or> unit = ''fields'' then Inr (25, 100)
     else Inl KeyError)"

definition resolve_page_size :: "string \<Rightarrow> json \<Rightarrow> exn + int" where
  "resolve_page_size unit requested =
     bind_result (page_size_limits unit) (\<lambda>(default, maximum).
       positive (Some maximum) (if requested = JNull then JInt default else requested))"

text \<open>\<open>resolve_page(page, origin)\<close>: relative navigation needs an origin.\<close>

fun resolve_page :: "json \<Rightarrow> json \<Rightarrow> exn + int" where
  "resolve_page (JStr s) origin =
     (if (s \<noteq> ''+1'' \<and> s \<noteq> ''-1'') \<or> origin = JNull then Inl ValueError
      else bind_result (positive None origin) (\<lambda>n.
        let resolved = n + (if s = ''+1'' then 1 else -1) in
        if resolved < 1 then Inl ValueError else Inr resolved))"
| "resolve_page (JInt p) origin = (if p < 0 then Inl ValueError else Inr p)"
| "resolve_page _ origin = Inl ValueError"

section \<open>Selections\<close>

record selection =
  sl_start :: int
  sl_max :: "int option"

definition check_selection :: "json \<Rightarrow> json \<Rightarrow> exn + selection" where
  "check_selection start_page max_pages =
     bind_result (positive None start_page) (\<lambda>s.
       if max_pages = JNull then Inr \<lparr>sl_start = s, sl_max = None\<rparr>
       else bind_result (positive None max_pages) (\<lambda>m. Inr \<lparr>sl_start = s, sl_max = Some m\<rparr>))"

definition selection_end :: "selection \<Rightarrow> int \<Rightarrow> int" where
  "selection_end s pages = (case sl_max s of None \<Rightarrow> pages | Some m \<Rightarrow> min pages (sl_start s + m - 1))"

fun int_json :: "int option \<Rightarrow> json" where
  "int_json None = JNull"
| "int_json (Some i) = JInt i"

fun str_json_option :: "string option \<Rightarrow> json" where
  "str_json_option None = JNull"
| "str_json_option (Some s) = JStr s"

text \<open>\<open>_record_field(envelope)\<close>: the countable list of a result.\<close>

definition obj_get :: "json \<Rightarrow> string \<Rightarrow> json option" where
  "obj_get v k = (case v of JObj kvs \<Rightarrow> map_of kvs k | _ \<Rightarrow> None)"

definition is_list :: "json option \<Rightarrow> bool" where
  "is_list v = (case v of Some (JArr _) \<Rightarrow> True | _ \<Rightarrow> False)"

definition record_field :: "frame \<Rightarrow> string option" where
  "record_field envelope = (case map_of envelope ''result'' of
       Some (JObj kvs) \<Rightarrow>
         if map_of envelope ''command'' = Some (JStr ''command.list'') \<and> is_list (map_of kvs ''entries'')
         then Some ''entries''
         else if (map_of envelope ''command'' = Some (JStr ''relationship.query'')
                  \<or> map_of envelope ''command'' = Some (JStr ''history.query''))
                 \<and> is_list (map_of kvs ''records'')
         then Some ''records''
         else if is_list (map_of kvs ''items'') then Some ''items'' else None
     | _ \<Rightarrow> None)"

section \<open>The delivery descriptor\<close>

text \<open>\<open>asdict(Delivery())\<close>: every field with its default, in declaration order.\<close>

definition delivery_defaults :: frame where
  "delivery_defaults = [(''status'', JStr ''unavailable''), (''availability'', JStr ''unavailable''),
     (''result_id'', JNull), (''view_id'', JNull), (''backing'', JStr ''retained''),
     (''consistency'', JStr ''immutable-output''), (''count_scope'', JStr ''produced-output''),
     (''unit'', JNull), (''requested_page_size'', JNull), (''page_size'', JNull), (''page'', JNull),
     (''first_item'', JNull), (''last_item'', JNull), (''total_items'', JNull), (''total_pages'', JNull),
     (''selection_id'', JNull), (''start_page'', JNull), (''max_pages'', JNull), (''end_page'', JNull),
     (''selected_pages'', JNull), (''remaining_pages'', JNull), (''has_more'', JBool False),
     (''pages_before_selection'', JNull), (''pages_after_selection'', JNull),
     (''has_more_outside_selection'', JBool False), (''continuation'', JNull),
     (''outside_continuation'', JNull), (''reason'', JNull), (''message'', JNull),
     (''source_revision'', JNull), (''change_notice'', JNull), (''requested_anchor'', JNull),
     (''overlap_notice'', JNull), (''superseded'', JBool False)]"

definition compact_delivery :: "frame \<Rightarrow> frame" where
  "compact_delivery values =
    (let whole = (case map_of values ''start_page'' of None \<Rightarrow> True | Some v \<Rightarrow> v = JInt 1)
                 \<and> (case map_of values ''max_pages'' of None \<Rightarrow> True | Some v \<Rightarrow> v = JNull);
         dropped = (if whole then [''selection_id'', ''start_page'', ''end_page'', ''selected_pages'',
                      ''pages_before_selection'', ''pages_after_selection''] else []);
         kept = filter (\<lambda>(k, v). k \<notin> set dropped) values;
         kept = (if map_of kept ''requested_page_size'' = map_of kept ''page_size''
                 then filter (\<lambda>(k, v). k \<noteq> ''requested_page_size'') kept else kept);
         defaults = [(''backing'', JStr ''retained''), (''consistency'', JStr ''immutable-output''),
                     (''count_scope'', JStr ''produced-output''), (''superseded'', JBool False)];
         compact = filter (\<lambda>(k, v). (v \<noteq> JNull \<or> k = ''continuation'') \<and> map_of defaults k \<noteq> Some v) kept
     in if map_of compact ''continuation'' = None then compact @ [(''continuation'', JNull)] else compact)"

section \<open>Selecting a page\<close>

text \<open>\<open>view_metadata(view)\<close>, the part of a view that is stored beside its pages.\<close>

record view_meta =
  vm_layout_version :: int
  vm_view_id :: string
  vm_unit :: string
  vm_page_size :: int
  vm_explicit_field_limit :: bool
  vm_requested_page_size :: "int option"
  vm_total_items :: int
  vm_total_pages :: int
  vm_source_lines :: "int option"
  vm_record_field :: "string option"
  vm_has_details :: bool

text \<open>Where a request stands: the page it addresses and what the selection holds around it.\<close>

record page_place =
  pp_number :: int
  pp_end :: int
  pp_count :: int
  pp_valid :: bool
  pp_remaining :: int
  pp_before :: int
  pp_after :: int

definition page_place_of :: "selection \<Rightarrow> int \<Rightarrow> int \<Rightarrow> page_place" where
  "page_place_of sel pages requested =
    (let start = sl_start sel;
         number = (if requested = 0 then start else requested);
         last = selection_end sel pages;
         valid = (start \<le> number \<and> number \<le> last \<or> pages = 0 \<and> number = start \<and> start = 1)
     in \<lparr>pp_number = number, pp_end = last, pp_count = max 0 (last - start + 1), pp_valid = valid,
         pp_remaining = (if valid then max 0 (last - number) else 0),
         pp_before = min pages (start - 1),
         pp_after = max 0 (pages - max last (start - 1))\<rparr>)"

definition selection_identity :: "(string \<Rightarrow> string) \<Rightarrow> string \<Rightarrow> int \<Rightarrow> int option \<Rightarrow> string" where
  "selection_identity hx view_id start max_pages =
     page_identity hx (JArr [JStr view_id, JInt start, int_json max_pages])"

definition page_continuation ::
  "(string \<Rightarrow> string) \<Rightarrow> string \<Rightarrow> selection \<Rightarrow> int \<Rightarrow> int \<Rightarrow> int \<Rightarrow> json"
where
  "page_continuation hx view_id sel number target start = JObj
     [(''view_id'', JStr view_id), (''selection_id'', JStr (selection_identity hx view_id start (sl_max sel))),
      (''page'', JInt target), (''origin_page'', JInt number), (''start_page'', JInt start),
      (''max_pages'', int_json (sl_max sel))]"

definition count_scope :: "view_meta \<Rightarrow> frame \<Rightarrow> string" where
  "count_scope m frame =
    (let command = map_of frame ''command'' in
     if vm_record_field m = Some ''items''
        \<and> (command = Some (JStr ''artefact.search'') \<or> command = Some (JStr ''resource.search''))
     then ''ranked-candidate-window''
     else if vm_record_field m = Some ''records''
        \<and> (command = Some (JStr ''relationship.query'') \<or> command = Some (JStr ''history.query''))
     then ''produced-traversal-window''
     else ''produced-output'')"

definition page_descriptor ::
  "(string \<Rightarrow> string) \<Rightarrow> frame \<Rightarrow> view_meta \<Rightarrow> selection \<Rightarrow> page_place \<Rightarrow> frame"
where
  "page_descriptor hx frame m sel p =
    (let start = sl_start sel; total = vm_total_pages m; vid = vm_view_id m;
         more = 0 < pp_remaining p; outside = 0 < pp_before p \<or> 0 < pp_after p;
         observed = (case map_of frame ''delivery'' of Some v \<Rightarrow> v | None \<Rightarrow> JObj []);
         bound = (\<lambda>k. if pp_valid p \<and> total \<noteq> 0
                      then (case obj_get observed k of Some v \<Rightarrow> v | None \<Rightarrow> JNull) else JNull)
     in dict_update delivery_defaults
      [(''count_scope'', JStr (count_scope m frame)),
       (''status'', JStr (if \<not> pp_valid p then ''out_of_range''
                          else if more \<or> outside then ''truncated'' else ''complete'')),
       (''availability'', JStr ''available''), (''view_id'', JStr vid), (''unit'', JStr (vm_unit m)),
       (''requested_page_size'', int_json (vm_requested_page_size m)),
       (''page_size'', JInt (vm_page_size m)), (''page'', JInt (pp_number p)),
       (''first_item'', bound ''first_item''), (''last_item'', bound ''last_item''),
       (''total_items'', JInt (vm_total_items m)), (''total_pages'', JInt total),
       (''selection_id'', JStr (selection_identity hx vid start (sl_max sel))),
       (''start_page'', JInt start), (''max_pages'', int_json (sl_max sel)),
       (''end_page'', JInt (pp_end p)), (''selected_pages'', JInt (pp_count p)),
       (''remaining_pages'', JInt (pp_remaining p)), (''has_more'', JBool more),
       (''pages_before_selection'', JInt (pp_before p)), (''pages_after_selection'', JInt (pp_after p)),
       (''has_more_outside_selection'', JBool outside),
       (''continuation'', if more then page_continuation hx vid sel (pp_number p) (pp_number p + 1) start else JNull),
       (''outside_continuation'', if 0 < pp_after p \<and> 0 < pp_count p
          then page_continuation hx vid sel (pp_number p) (pp_end p + 1) (pp_end p + 1) else JNull),
       (''reason'', if \<not> pp_valid p then JStr ''page_out_of_range''
          else if more \<or> outside then JStr ''bounded_page'' else JNull),
       (''message'', if \<not> pp_valid p then JStr ''Requested page is outside the current selection.'' else JNull)])"

text \<open>A record list states how many of its records the page returns and whether there are more.\<close>

definition note_records :: "string \<Rightarrow> bool \<Rightarrow> json \<Rightarrow> json" where
  "note_records field beyond payload = (case payload of
       JObj kvs \<Rightarrow>
         let returned = (case map_of kvs field of Some (JArr xs) \<Rightarrow> length xs | _ \<Rightarrow> 0);
             kvs = (if map_of kvs ''returned'' = None then kvs
                    else AList.update ''returned'' (JInt (int returned)) kvs)
         in JObj (case map_of kvs ''truncated'' of
                None \<Rightarrow> kvs
              | Some t \<Rightarrow> AList.update ''truncated'' (JBool (json_truthy t \<or> beyond)) kvs)
     | v \<Rightarrow> v)"

definition select_page ::
  "(string \<Rightarrow> string) \<Rightarrow> frame \<Rightarrow> view_meta \<Rightarrow> json \<Rightarrow> json \<Rightarrow> json \<Rightarrow> exn + frame"
where
  "select_page hx frame m page start_page max_pages =
    (if vm_layout_version m \<noteq> LAYOUT_VERSION then Inl ValueError
     else bind_result (check_selection start_page max_pages) (\<lambda>sel.
     bind_result (resolve_page page JNull) (\<lambda>requested.
       let p = page_place_of sel (vm_total_pages m) requested;
           beyond = (0 < pp_remaining p \<or> 0 < pp_before p \<or> 0 < pp_after p);
           result = (if pp_valid p then frame else AList.update ''result'' JNull frame);
           result = (case record_field result of
               Some field \<Rightarrow> if pp_valid p
                 then AList.update ''result'' (note_records field beyond (the (map_of result ''result''))) result
                 else result
             | None \<Rightarrow> result)
       in Inr (AList.update ''delivery'' (JObj (compact_delivery (page_descriptor hx frame m sel p))) result))))"

end
