(* ===== verification/Page_Layout.thy ===== *)
theory Page_Layout
  imports Page_Selection
begin

text \<open>
  \<open>ResultView\<close> and \<open>build_view\<close> of \<open>_application/result_navigation.py\<close>: the layout of a complete
  result as pages that fit the delivery budget. Values too large for a page are laid out as views
  of their own, whose pages are collected under content addresses (\<open>details\<close>), and replaced by a
  reference. The collection is the state of the programs below. \<open>build_view\<close> calls itself for the
  detail views; its first argument is how deep the interpreter may still recurse, and running out
  of it is the \<open>RuntimeError\<close> (\<open>RecursionError\<close>) of Python.
\<close>

section \<open>Views\<close>

record result_view =
  rv_pages :: "frame list"
  rv_details :: "(string \<times> frame) list"
  rv_unit :: string
  rv_page_size :: int
  rv_total_items :: nat
  rv_view_id :: string
  rv_envelope :: frame
  rv_requested :: "int option"
  rv_source_lines :: "nat option"

definition view_metadata :: "result_view \<Rightarrow> view_meta" where
  "view_metadata v = \<lparr>vm_layout_version = LAYOUT_VERSION, vm_view_id = rv_view_id v, vm_unit = rv_unit v,
     vm_page_size = rv_page_size v,
     vm_explicit_field_limit = (rv_unit v = ''fields'' \<and> rv_requested v \<noteq> None),
     vm_requested_page_size = rv_requested v, vm_total_items = int (rv_total_items v),
     vm_total_pages = int (length (rv_pages v)), vm_source_lines = map_option int (rv_source_lines v),
     vm_record_field = record_field (rv_envelope v), vm_has_details = (rv_details v \<noteq> [])\<rparr>"

text \<open>\<open>ResultView.page\<close>.\<close>

definition view_page ::
  "(string \<Rightarrow> string) \<Rightarrow> result_view \<Rightarrow> json \<Rightarrow> json \<Rightarrow> json \<Rightarrow> exn + frame"
where
  "view_page hx v page start_page max_pages =
     bind_result (check_selection start_page max_pages) (\<lambda>sel.
     bind_result (resolve_page page JNull) (\<lambda>requested.
       let number = (if requested = 0 then sl_start sel else requested);
           frame = (if 1 \<le> number \<and> number \<le> int (length (rv_pages v))
                    then rv_pages v ! nat (number - 1) else rv_envelope v)
       in select_page hx frame (view_metadata v) page start_page max_pages))"

fun map_results :: "('a \<Rightarrow> exn + 'b) \<Rightarrow> 'a list \<Rightarrow> exn + 'b list" where
  "map_results f [] = Inr []"
| "map_results f (x # xs) =
     bind_result (f x) (\<lambda>y. bind_result (map_results f xs) (\<lambda>ys. Inr (y # ys)))"

text \<open>\<open>replace(view, pages=tuple(view.page(i + 1) for i in range(len(frames))))\<close>.\<close>

definition finish_view :: "(string \<Rightarrow> string) \<Rightarrow> result_view \<Rightarrow> exn + result_view" where
  "finish_view hx v =
     bind_result (map_results (\<lambda>i. view_page hx v (JInt (int i)) (JInt 1) JNull) [1..<Suc (length (rv_pages v))])
       (\<lambda>pages. Inr (v\<lparr>rv_pages := pages\<rparr>))"

section \<open>Detail views\<close>

type_synonym details = "(string \<times> frame) list"
type_synonym 'a layout = "(details, 'a) prog"

definition with_delivery :: "frame \<Rightarrow> (string \<times> json) list \<Rightarrow> frame" where
  "with_delivery frame extra = (case map_of frame ''delivery'' of
       Some (JObj d) \<Rightarrow> AList.update ''delivery'' (JObj (dict_update d extra)) frame
     | _ \<Rightarrow> frame)"

definition detail_frame :: "string \<Rightarrow> nat \<Rightarrow> nat \<Rightarrow> frame \<Rightarrow> string \<times> frame" where
  "detail_frame key pages index frame =
    (let address = (if index = 0 then key else key @ '':'' @ nat_str (index + 1)) in
     (address, with_delivery frame
        [(''detail_id'', JStr address),
         (''next_detail'', if index + 1 < pages then JStr (key @ '':'' @ nat_str (index + 2)) else JNull)]))"

text \<open>The first part of \<open>detail(value)\<close>: lay the value out unless its address is known.\<close>

definition store_detail ::
  "(string \<Rightarrow> string) \<Rightarrow> (frame \<Rightarrow> exn + result_view) \<Rightarrow> string \<Rightarrow> frame \<Rightarrow> json \<Rightarrow> string layout"
where
  "store_detail hx sub view_id base value details =
    (let key = page_identity hx (JArr [JStr view_id, value]) in
     if map_of details key \<noteq> None then (Inr key, details)
     else (case sub (AList.update ''result'' value base) of
         Inl e \<Rightarrow> (Inl e, details)
       | Inr child \<Rightarrow>
           (Inr key, dict_update (dict_update details (rv_details child))
              (map (\<lambda>(i, frame). detail_frame key (length (rv_pages child)) i frame)
                 (enumerate 0 (rv_pages child))))))"

definition detail_reference :: "string \<Rightarrow> (string \<times> json) list" where
  "detail_reference key = [(''detail_reference'', JStr key), (''action'', JStr ''result.read''),
     (''detail'', JStr key), (''consistency'', JStr ''immutable-output'')]"

definition detail_value :: "json \<Rightarrow> json" where
  "detail_value v = (case v of JStr s \<Rightarrow> JObj [(''content'', v)] | _ \<Rightarrow> v)"

text \<open>\<open>detail(value)\<close>: the reference names the fields of an object and its identity.\<close>

fun detail ::
  "nat \<Rightarrow> (string \<Rightarrow> string) \<Rightarrow> (frame \<Rightarrow> exn + result_view) \<Rightarrow> string \<Rightarrow> frame \<Rightarrow> json \<Rightarrow> json layout"
where
  "detail 0 hx sub view_id base value = raise_prog RuntimeError"
| "detail (Suc n) hx sub view_id base value =
     bind_prog (store_detail hx sub view_id base (detail_value value)) (\<lambda>key.
       let reference = detail_reference key;
           bound = (\<lambda>v item. if body_fits item then return_prog v else detail n hx sub view_id base v)
       in (case detail_value value of
           JObj kvs \<Rightarrow>
             let names = JArr (map (\<lambda>kv. JStr (fst kv)) kvs) in
             bind_prog (bound names (JObj (reference @ [(''fields_available'', names)]))) (\<lambda>available.
               let reference = reference @ [(''fields_available'', available)] in
               (case map_of kvs ''id'' of
                  None \<Rightarrow> return_prog (JObj reference)
                | Some identity \<Rightarrow>
                    bind_prog (bound identity (JObj (reference @ [(''record_identity'', identity)])))
                      (\<lambda>i. return_prog (JObj (reference @ [(''record_identity'', i)])))))
         | _ \<Rightarrow> return_prog (JObj reference)))"

text \<open>\<open>bounded(value)\<close>.\<close>

definition bounded :: "(json \<Rightarrow> json layout) \<Rightarrow> json \<Rightarrow> json layout" where
  "bounded det v =
    (if body_fits v then return_prog v
     else (case v of
         JStr s \<Rightarrow> det (JObj [(''content'', v)])
       | JArr xs \<Rightarrow> det v
       | JObj kvs \<Rightarrow> det v
       | _ \<Rightarrow> raise_prog ValueError))"

fun map_layout :: "('a \<Rightarrow> 'b layout) \<Rightarrow> 'a list \<Rightarrow> 'b list layout" where
  "map_layout f [] = return_prog []"
| "map_layout f (x # xs) =
     bind_prog (f x) (\<lambda>y. bind_prog (map_layout f xs) (\<lambda>ys. return_prog (y # ys)))"

definition bounded_fields :: "(json \<Rightarrow> json layout) \<Rightarrow> (string \<times> json) list \<Rightarrow> (string \<times> json) list layout" where
  "bounded_fields det kvs =
     map_layout (\<lambda>(k, v). bind_prog (bounded det v) (\<lambda>w. return_prog (k, w))) kvs"

section \<open>Pages of text\<close>

record text_position =
  tp_start :: nat
  tp_line :: nat
  tp_line_end :: nat
  tp_bytes :: nat

definition slice :: "string list \<Rightarrow> nat \<Rightarrow> nat \<Rightarrow> string list" where
  "slice chars i j = take (j - i) (drop i chars)"

definition text_body :: "(string \<times> json) list \<Rightarrow> string list \<Rightarrow> nat \<Rightarrow> nat \<Rightarrow> json" where
  "text_body extras chars i j = JObj (dict_update extras
     [(''content'', JStr (concat (slice chars i j))),
      (''content_range'', JObj [(''start'', JInt (int i)), (''end'', JInt (int j)),
         (''total'', JInt (int (length chars)))])])"

text \<open>
  The inner loop of a page of lines: every line that ends within the page is passed. \<open>till\<close> is the
  end of the page, \<open>line_end\<close> the end of the line at \<open>index\<close>.
\<close>

function pass_lines :: "nat list \<Rightarrow> nat \<Rightarrow> nat \<Rightarrow> nat \<Rightarrow> nat \<Rightarrow> nat \<times> nat \<times> nat" where
  "pass_lines lens till line_end index last_item =
     (if line_end \<le> till \<and> index < length lens
      then pass_lines lens till
        (if index + 1 < length lens then line_end + lens ! (index + 1) else line_end) (index + 1) (index + 1)
      else (line_end, index, last_item))"
  by pat_completeness auto
termination
  by (relation "measure (\<lambda>(lens, till, line_end, index, last_item). length lens - index)") auto

declare pass_lines.simps [simp del]

text \<open>
  One page: where it may end at most, the longest prefix that fits, and the items it covers.
  \<open>lens\<close> are the lengths of the lines.
\<close>

definition text_stop :: "string \<Rightarrow> int \<Rightarrow> string list \<Rightarrow> nat list \<Rightarrow> text_position \<Rightarrow> exn + nat" where
  "text_stop unit limit chars lens p =
    (if unit = ''lines'' then
       (let stop_line = min (length lens) (tp_line p + nat limit)
        in Inr (tp_line_end p + sum_list (take (stop_line - (tp_line p + 1)) (drop (tp_line p + 1) lens))))
     else if limit < int (length (chars ! tp_start p)) then Inl ValueError
     else Inr (min (length chars) (tp_start p + nat limit)))"

definition text_end ::
  "string \<Rightarrow> int \<Rightarrow> (string \<times> json) list \<Rightarrow> string list \<Rightarrow> nat \<Rightarrow> nat \<Rightarrow> nat"
where
  "text_end unit limit extras chars start stop =
     last_fit (\<lambda>j. (unit = ''lines'' \<or> int (length (concat (slice chars start j))) \<le> limit)
                   \<and> body_fits (text_body extras chars start j))
       start (min stop (start + CANONICAL_BODY_BYTES))"

definition text_items ::
  "string \<Rightarrow> string list \<Rightarrow> nat list \<Rightarrow> text_position \<Rightarrow> nat \<Rightarrow> (nat \<times> nat) \<times> text_position"
where
  "text_items unit chars lens p till =
    (if unit = ''lines'' then
       (case pass_lines lens till (tp_line_end p) (tp_line p) (tp_line p + 1) of (line_end, index, last_item) \<Rightarrow>
          ((tp_line p + 1,
            if index < length lens \<and> line_end - lens ! index < till then index + 1 else last_item),
           p\<lparr>tp_start := till, tp_line := index, tp_line_end := line_end\<rparr>))
     else
       (let bytes = tp_bytes p + length (concat (slice chars (tp_start p) till)) in
        ((tp_bytes p + 1, bytes), p\<lparr>tp_start := till, tp_bytes := bytes\<rparr>)))"

definition text_step ::
  "string \<Rightarrow> int \<Rightarrow> (string \<times> json) list \<Rightarrow> string list \<Rightarrow> nat list \<Rightarrow> text_position \<Rightarrow>
   exn + (nat \<times> nat) \<times> text_position"
where
  "text_step unit limit extras chars lens p =
     bind_result (text_stop unit limit chars lens p) (\<lambda>stop.
       let till = text_end unit limit extras chars (tp_start p) stop in
       if till = tp_start p then Inl ValueError
       else Inr (text_items unit chars lens p till))"

text \<open>A page covers \<open>chars[start:end]\<close> and the items from first to last.\<close>

record text_page =
  tx_from :: nat
  tx_to :: nat
  tx_first :: nat
  tx_last :: nat

lemma last_fit_below: "lo \<le> last_fit P lo hi"
  using last_fit_range[of lo hi P] by (cases "lo \<le> hi") (auto simp: last_fit.simps)

lemma text_items_start [simp]: "tp_start (snd (text_items unit chars lens p till)) = till"
  by (simp add: text_items_def Let_def split: prod.splits)

lemma text_step_progress:
  assumes "text_step unit limit extras chars lens p = Inr (items, p')"
  shows "tp_start p < tp_start p'"
proof -
  from assms obtain stop where "text_end unit limit extras chars (tp_start p) stop \<noteq> tp_start p"
    and i: "text_items unit chars lens p (text_end unit limit extras chars (tp_start p) stop) = (items, p')"
    by (auto simp: text_step_def bind_result_Inr Let_def split: if_splits)
  moreover from i have "tp_start p' = text_end unit limit extras chars (tp_start p) stop"
    using text_items_start by (metis snd_conv)
  moreover have "tp_start p \<le> text_end unit limit extras chars (tp_start p) stop"
    by (simp add: text_end_def last_fit_below)
  ultimately show ?thesis by simp
qed

function text_pages ::
  "string \<Rightarrow> int \<Rightarrow> (string \<times> json) list \<Rightarrow> string list \<Rightarrow> nat list \<Rightarrow> text_position \<Rightarrow> exn + text_page list"
where
  "text_pages unit limit extras chars lens p =
     (if length chars \<le> tp_start p then Inr []
      else (case text_step unit limit extras chars lens p of
          Inl e \<Rightarrow> Inl e
        | Inr (items, q) \<Rightarrow>
            bind_result (text_pages unit limit extras chars lens q) (\<lambda>pages.
              Inr (\<lparr>tx_from = tp_start p, tx_to = tp_start q, tx_first = fst items, tx_last = snd items\<rparr> # pages))))"
  by pat_completeness auto
termination
  by (relation "measure (\<lambda>(unit, limit, extras, chars, lens, p). length chars - tp_start p)")
    (auto dest: text_step_progress)

declare text_pages.simps [simp del]

definition page_frame :: "frame \<Rightarrow> json \<Rightarrow> nat \<Rightarrow> nat \<Rightarrow> frame" where
  "page_frame base body first last_item =
     AList.update ''delivery'' (JObj [(''first_item'', JInt (int first)), (''last_item'', JInt (int last_item))])
       (AList.update ''result'' body base)"

definition text_extras ::
  "(json \<Rightarrow> json layout) \<Rightarrow> string list \<Rightarrow> (string \<times> json) list \<Rightarrow> (string \<times> json) list layout"
where
  "text_extras det chars payload =
     bind_prog (bounded_fields det (filter (\<lambda>(k, v). k \<noteq> ''content'') payload)) (\<lambda>extras.
       if body_fits (text_body extras chars 0 (min 1 (length chars))) then return_prog extras
       else bind_prog (det (JObj extras)) (\<lambda>c. return_prog [(''context'', c)]))"

section \<open>Pages of records and fields\<close>

text \<open>\<open>body(batch)\<close> for records, and for the fields of any other payload.\<close>

definition records_body :: "string \<Rightarrow> (string \<times> json) list \<Rightarrow> json list \<Rightarrow> json" where
  "records_body rf extras batch =
    (let result = dict_update [(rf, JArr batch)] extras in
     JObj (if map_of result ''returned'' = None then result
           else AList.update ''returned'' (JInt (int (length batch))) result))"

definition type_name :: "json \<Rightarrow> string" where
  "type_name v = (case v of JNull \<Rightarrow> ''NoneType'' | JBool _ \<Rightarrow> ''bool'' | JInt _ \<Rightarrow> ''int'' | JStr _ \<Rightarrow> ''str''
     | JArr _ \<Rightarrow> ''list'' | JObj _ \<Rightarrow> ''dict'')"

definition fields_body :: "json \<Rightarrow> json list \<Rightarrow> json" where
  "fields_body payload batch = JObj [(''fields'', JArr batch), (''root_type'', JStr (type_name payload))]"

definition field_units :: "(json \<Rightarrow> json layout) \<Rightarrow> json \<Rightarrow> json list layout" where
  "field_units det payload = (case payload of
       JObj kvs \<Rightarrow> map_layout (\<lambda>(k, v). bind_prog (bounded det (JStr k)) (\<lambda>f.
         bind_prog (bounded det v) (\<lambda>w. return_prog (JObj [(''field'', f), (''value'', w)])))) kvs
     | JArr xs \<Rightarrow> map_layout (\<lambda>(i, v). bind_prog (bounded det v) (\<lambda>w.
         return_prog (JObj [(''index'', JInt (int i)), (''value'', w)]))) (enumerate 0 xs)
     | JNull \<Rightarrow> return_prog []
     | v \<Rightarrow> bind_prog (bounded det v) (\<lambda>w. return_prog [JObj [(''value'', w)]]))"

text \<open>
  \<open>len(_json(value))\<close> counts characters, not bytes;
  \<open>sorted(names, key=..., reverse=True)\<close>: longest first, equal lengths in their order.
\<close>

definition json_length :: "json \<Rightarrow> nat" where
  "json_length v = length (text_chars (dumps v))"

definition longest_first :: "('a \<Rightarrow> nat) \<Rightarrow> 'a list \<Rightarrow> 'a list" where
  "longest_first f xs = sort_key (\<lambda>x. - int (f x)) xs"

text \<open>
  The fallback for an item that does not fit a page of its own: a field item has its largest
  components replaced one after another; a record becomes a reference.
\<close>

fun shrink_components ::
  "(json \<Rightarrow> json layout) \<Rightarrow> (json \<Rightarrow> bool) \<Rightarrow> string list \<Rightarrow> (string \<times> json) list \<Rightarrow> (string \<times> json) list layout"
where
  "shrink_components det fits [] item = return_prog item"
| "shrink_components det fits (k # ks) item =
     (if fits (JObj item) then return_prog item
      else (case map_of item k of
          None \<Rightarrow> raise_prog KeyError
        | Some v \<Rightarrow>
            if 512 < json_length v
            then bind_prog (det v) (\<lambda>w. shrink_components det fits ks (AList.update k w item))
            else shrink_components det fits ks item))"

definition shrink_item :: "(json \<Rightarrow> json layout) \<Rightarrow> (json \<Rightarrow> bool) \<Rightarrow> string \<Rightarrow> json \<Rightarrow> json layout" where
  "shrink_item det fits unit item = (case item of
       JObj kvs \<Rightarrow>
         if unit = ''fields'' then
           bind_prog (shrink_components det fits
               (longest_first (\<lambda>k. json_length (the (map_of kvs k))) (map fst kvs)) kvs)
             (\<lambda>kvs. return_prog (JObj kvs))
         else det item
     | v \<Rightarrow> det v)"

text \<open>The state of the batching loop.\<close>

record batching =
  ba_batches :: "json list list"
  ba_current :: "json list"
  ba_extras :: "(string \<times> json) list"

definition page_full :: "(json list \<Rightarrow> bool) \<Rightarrow> int \<Rightarrow> json list \<Rightarrow> json \<Rightarrow> bool" where
  "page_full fits limit current item \<longleftrightarrow>
     current \<noteq> [] \<and> (limit \<le> int (length current) \<or> \<not> fits (current @ [item]))"

text \<open>The item is settled on the current page, shrunk if it must be; \<open>place_item\<close> is one turn of the loop.\<close>

definition settle_item ::
  "(json \<Rightarrow> json layout) \<Rightarrow> string \<Rightarrow> ((string \<times> json) list \<Rightarrow> json list \<Rightarrow> json) \<Rightarrow>
   batching \<Rightarrow> json \<Rightarrow> (string \<times> json) list \<Rightarrow> batching layout"
where
  "settle_item det unit body b item extras =
    (let fits = (\<lambda>i. body_fits (body extras [i])) in
     bind_prog (if fits item then return_prog item else shrink_item det fits unit item) (\<lambda>item.
       if fits item then return_prog (b\<lparr>ba_current := ba_current b @ [item], ba_extras := extras\<rparr>)
       else raise_prog ValueError))"

definition place_item ::
  "(json \<Rightarrow> json layout) \<Rightarrow> string \<Rightarrow> int \<Rightarrow> ((string \<times> json) list \<Rightarrow> json list \<Rightarrow> json) \<Rightarrow>
   batching \<Rightarrow> json \<Rightarrow> batching layout"
where
  "place_item det unit limit body b item =
    (let b = (if page_full (\<lambda>c. body_fits (body (ba_extras b) c)) limit (ba_current b) item
              then b\<lparr>ba_batches := ba_batches b @ [ba_current b], ba_current := []\<rparr> else b)
     in if body_fits (body (ba_extras b) [item]) then return_prog (b\<lparr>ba_current := ba_current b @ [item]\<rparr>)
        else
          bind_prog (if unit = ''records'' \<and> ba_extras b \<noteq> []
                     then bind_prog (det (JObj (ba_extras b))) (\<lambda>c. return_prog [(''context'', c)])
                     else return_prog (ba_extras b)) (settle_item det unit body b item))"

fun place_items ::
  "(json \<Rightarrow> json layout) \<Rightarrow> string \<Rightarrow> int \<Rightarrow> ((string \<times> json) list \<Rightarrow> json list \<Rightarrow> json) \<Rightarrow>
   json list \<Rightarrow> batching \<Rightarrow> batching layout"
where
  "place_items det unit limit body [] b = return_prog b"
| "place_items det unit limit body (x # xs) b =
     bind_prog (place_item det unit limit body b x) (place_items det unit limit body xs)"

definition final_batches :: "batching \<Rightarrow> json list list" where
  "final_batches b = ba_batches b @ (if ba_current b = [] then [] else [ba_current b])"

fun batch_frames ::
  "frame \<Rightarrow> (json list \<Rightarrow> json) \<Rightarrow> nat \<Rightarrow> json list list \<Rightarrow> frame list"
where
  "batch_frames base body position [] = []"
| "batch_frames base body position (batch # rest) =
     page_frame base (body batch) position (position + length batch - 1)
     # batch_frames base body (position + length batch) rest"

section \<open>Building a view\<close>

definition field_count :: "json \<Rightarrow> nat" where
  "field_count payload = (case payload of JObj kvs \<Rightarrow> length kvs | JArr xs \<Rightarrow> length xs
     | JNull \<Rightarrow> 0 | _ \<Rightarrow> 1)"

text \<open>The parts of an envelope the layout works on.\<close>

record layout_input =
  li_base :: frame
  li_payload :: json
  li_unit :: string
  li_size :: int
  li_requested :: "int option"
  li_record_field :: "string option"
  li_view_id :: string

definition detected_unit :: "frame \<Rightarrow> string" where
  "detected_unit original = (case map_of original ''result'' of
       Some (JObj kvs) \<Rightarrow>
         if (case map_of kvs ''content'' of Some (JStr _) \<Rightarrow> True | _ \<Rightarrow> False) then ''bytes''
         else if record_field original \<noteq> None then ''records'' else ''fields''
     | _ \<Rightarrow> ''fields'')"

definition layout_base :: "frame \<Rightarrow> json \<Rightarrow> frame" where
  "layout_base original payload =
    (let base = AList.delete ''result'' original in
     case payload of
       JObj kvs \<Rightarrow> (case map_of kvs ''committed_effects'' of
           Some effects \<Rightarrow>
             if map_of original ''status'' = Some (JStr ''partial'')
                \<and> map_of base ''committed_effect_summary'' = None \<and> map_of base ''committed_effects'' = None
             then base @ [(''committed_effects'', effects)] else base
         | None \<Rightarrow> base)
     | _ \<Rightarrow> base)"

definition layout_of ::
  "(string \<Rightarrow> string) \<Rightarrow> frame \<Rightarrow> int option \<Rightarrow> string option \<Rightarrow> exn + layout_input"
where
  "layout_of hx envelope page_size requested_unit =
    (let original = AList.delete ''delivery'' envelope;
         payload = (case map_of original ''result'' of Some v \<Rightarrow> v | None \<Rightarrow> JNull);
         detected = detected_unit original;
         allowed = (if detected = ''bytes'' then [''bytes'', ''lines''] else [detected]);
         unit = (case requested_unit of None \<Rightarrow> detected | Some u \<Rightarrow> if u = [] then detected else u)
     in if requested_unit \<noteq> None \<and> the requested_unit \<notin> set allowed then Inl ValueError
        else bind_result (resolve_page_size unit (int_json page_size)) (\<lambda>limit.
          Inr \<lparr>li_base = layout_base original payload, li_payload = payload, li_unit = unit, li_size = limit,
            li_requested = page_size, li_record_field = record_field original,
            li_view_id = page_identity hx (JArr [JInt LAYOUT_VERSION, JObj original, JStr unit, JInt limit,
              JBool (unit = ''fields'' \<and> page_size \<noteq> None)])\<rparr>))"

definition make_view ::
  "layout_input \<Rightarrow> frame list \<Rightarrow> details \<Rightarrow> nat \<Rightarrow> frame \<Rightarrow> nat option \<Rightarrow> result_view"
where
  "make_view li frames details items blank lines =
     \<lparr>rv_pages = frames, rv_details = details, rv_unit = li_unit li, rv_page_size = li_size li,
      rv_total_items = items, rv_view_id = li_view_id li, rv_envelope = blank,
      rv_requested = li_requested li, rv_source_lines = lines\<rparr>"

text \<open>A fields result whose page holds it whole.\<close>

definition fields_fit_page :: "layout_input \<Rightarrow> bool" where
  "fields_fit_page li \<longleftrightarrow>
     (case li_requested li of None \<Rightarrow> True | Some _ \<Rightarrow> int (field_count (li_payload li)) \<le> li_size li)"

definition whole_view :: "layout_input \<Rightarrow> result_view" where
  "whole_view li =
    (let count = field_count (li_payload li) in
     make_view li (if count = 0 then [] else [page_frame (li_base li) (li_payload li) 1 count]) [] count
       (AList.update ''result'' (li_payload li) (li_base li)) None)"

text \<open>
  One page with the large fields of an object replaced: first the values that do not fit on their
  own, then the longest of the others until the page fits. \<open>None\<close>: it never does.
\<close>

definition is_reference :: "json \<Rightarrow> bool" where
  "is_reference v = (case v of JObj kvs \<Rightarrow> map_of kvs ''detail_reference'' \<noteq> None | _ \<Rightarrow> False)"

fun replace_fields ::
  "(json \<Rightarrow> json layout) \<Rightarrow> (string \<times> json) list \<Rightarrow> string list \<Rightarrow> (string \<times> json) list \<Rightarrow>
   (string \<times> json) list option layout"
where
  "replace_fields det payload [] compact = return_prog None"
| "replace_fields det payload (k # ks) compact =
     bind_prog (det (the (map_of payload k))) (\<lambda>w.
       let compact = AList.update k w compact in
       if body_fits (JObj compact) then return_prog (Some compact)
       else replace_fields det payload ks compact)"

definition compact_object ::
  "(json \<Rightarrow> json layout) \<Rightarrow> (string \<times> json) list \<Rightarrow> (string \<times> json) list option layout"
where
  "compact_object det payload =
     bind_prog (bounded_fields det payload) (\<lambda>compact.
       if body_fits (JObj compact) then return_prog (Some compact)
       else
         let candidates = map fst (filter (\<lambda>(k, v). 512 < json_length v \<and> \<not> is_reference v) compact)
         in replace_fields det payload
              (longest_first (\<lambda>k. json_length (the (map_of compact k))) candidates) compact)"

definition compact_view :: "layout_input \<Rightarrow> (string \<times> json) list \<Rightarrow> details \<Rightarrow> result_view" where
  "compact_view li compact details =
     make_view li [page_frame (li_base li) (JObj compact) 1 (length compact)] details (length compact)
       (AList.update ''result'' (JObj []) (li_base li)) None"

definition text_layout :: "layout_input \<Rightarrow> (string \<times> json) list \<Rightarrow> string list \<Rightarrow> exn + text_page list" where
  "text_layout li extras chars =
    (let lens = map length (split_lines chars) in
     text_pages (li_unit li) (li_size li) extras chars lens
       \<lparr>tp_start = 0, tp_line = 0, tp_line_end = (if lens = [] then 0 else hd lens), tp_bytes = 0\<rparr>)"

definition text_frames :: "layout_input \<Rightarrow> (string \<times> json) list \<Rightarrow> string list \<Rightarrow> text_page list \<Rightarrow> frame list" where
  "text_frames li extras chars pages =
     map (\<lambda>t. page_frame (li_base li) (text_body extras chars (tx_from t) (tx_to t)) (tx_first t) (tx_last t)) pages"

definition text_view :: "(json \<Rightarrow> json layout) \<Rightarrow> layout_input \<Rightarrow> (string \<times> json) list \<Rightarrow> string \<Rightarrow> result_view layout" where
  "text_view det li kvs content =
    (let chars = text_chars content; lines = split_lines chars
     in bind_prog (text_extras det chars kvs) (\<lambda>extras.
        bind_prog (lift_result (\<lambda>_. text_layout li extras chars)) (\<lambda>pages details.
          (Inr (make_view li (text_frames li extras chars pages) details
             (if li_unit li = ''bytes'' then length (concat chars) else length lines)
             (AList.update ''result'' (text_body extras chars 0 0) (li_base li)) (Some (length lines))),
           details))))"

definition batch_view ::
  "(json \<Rightarrow> json layout) \<Rightarrow> layout_input \<Rightarrow> json list \<Rightarrow> (string \<times> json) list \<Rightarrow>
   ((string \<times> json) list \<Rightarrow> json list \<Rightarrow> json) \<Rightarrow> result_view layout"
where
  "batch_view det li units extras body =
     bind_prog (if li_unit li = ''records'' \<and> \<not> body_fits (body extras [])
                then bind_prog (det (JObj extras)) (\<lambda>c. return_prog [(''context'', c)])
                else return_prog extras) (\<lambda>extras.
     bind_prog (place_items det (li_unit li) (li_size li) body units
                  \<lparr>ba_batches = [], ba_current = [], ba_extras = extras\<rparr>) (\<lambda>b details.
       (Inr (make_view li (batch_frames (li_base li) (body (ba_extras b)) 1 (final_batches b)) details
          (length units) (AList.update ''result'' (body (ba_extras b) []) (li_base li)) None), details)))"

definition records_view ::
  "(json \<Rightarrow> json layout) \<Rightarrow> layout_input \<Rightarrow> (string \<times> json) list \<Rightarrow> string \<Rightarrow> result_view layout"
where
  "records_view det li kvs rf =
     bind_prog (map_layout (bounded det) (case map_of kvs rf of Some (JArr xs) \<Rightarrow> xs | _ \<Rightarrow> [])) (\<lambda>units.
     bind_prog (bounded_fields det (filter (\<lambda>(k, v). k \<noteq> rf) kvs)) (\<lambda>extras.
       batch_view det li units extras (records_body rf)))"

definition fields_view :: "(json \<Rightarrow> json layout) \<Rightarrow> layout_input \<Rightarrow> result_view layout" where
  "fields_view det li =
     bind_prog (field_units det (li_payload li)) (\<lambda>units.
       batch_view det li units [] (\<lambda>_. fields_body (li_payload li)))"

definition laid_out :: "(json \<Rightarrow> json layout) \<Rightarrow> layout_input \<Rightarrow> result_view layout" where
  "laid_out det li =
    (if li_unit li = ''bytes'' \<or> li_unit li = ''lines'' then
       (case li_payload li of
          JObj kvs \<Rightarrow> (case map_of kvs ''content'' of
              Some (JStr content) \<Rightarrow> text_view det li kvs content | _ \<Rightarrow> raise_prog TypeError)
        | _ \<Rightarrow> raise_prog TypeError)
     else if li_unit li = ''records'' then
       (case (li_payload li, li_record_field li) of
          (JObj kvs, Some rf) \<Rightarrow> records_view det li kvs rf | _ \<Rightarrow> raise_prog TypeError)
     else fields_view det li)"

definition layout_view :: "(json \<Rightarrow> json layout) \<Rightarrow> layout_input \<Rightarrow> exn + result_view" where
  "layout_view det li =
    (if li_unit li = ''fields'' \<and> fields_fit_page li \<and> body_fits (li_payload li)
     then Inr (whole_view li)
     else case li_payload li of
         JObj kvs \<Rightarrow>
           if li_unit li = ''fields'' \<and> fields_fit_page li then
             (case compact_object det kvs [] of
                (Inl e, _) \<Rightarrow> Inl e
              | (Inr (Some compact), details) \<Rightarrow> Inr (compact_view li compact details)
              | (Inr None, _) \<Rightarrow> fst (laid_out det li []))
           else fst (laid_out det li [])
       | _ \<Rightarrow> fst (laid_out det li []))"

fun build_view ::
  "nat \<Rightarrow> (string \<Rightarrow> string) \<Rightarrow> frame \<Rightarrow> int option \<Rightarrow> string option \<Rightarrow> exn + result_view"
where
  "build_view 0 hx envelope page_size requested_unit = Inl RuntimeError"
| "build_view (Suc n) hx envelope page_size requested_unit =
     bind_result (layout_of hx envelope page_size requested_unit) (\<lambda>li.
     bind_result (layout_view
         (detail n hx (\<lambda>e. build_view n hx e None None) (li_view_id li) (li_base li)) li)
       (finish_view hx))"

end
