(* ===== verification/Page_Safety.thy ===== *)
theory Page_Safety
  imports Page_Layout
begin

text \<open>
  Lemmas on the layout: the pages of a text are adjacent slices of it that fit the budget, their
  line and byte numbers are those of the text, and the batches of records keep every record in
  its place.
\<close>

section \<open>Slices\<close>

lemma slice_append: "i \<le> j \<Longrightarrow> j \<le> k \<Longrightarrow> slice cs i j @ slice cs j k = slice cs i k"
proof -
  assume "i \<le> j" "j \<le> k"
  then have d: "drop j cs = drop (j - i) (drop i cs)" "k - i = (j - i) + (k - j)" by auto
  show ?thesis unfolding slice_def d by (simp add: take_add)
qed

lemma slice_rest: "length cs \<le> j \<Longrightarrow> slice cs i j = drop i cs"
  by (simp add: slice_def)

lemma slice_drop: "i \<le> j \<Longrightarrow> slice cs i j @ drop j cs = drop i cs"
  by (metis append_take_drop_id drop_drop le_add_diff_inverse2 slice_def)

lemma slice_take: "i \<le> j \<Longrightarrow> take i cs @ slice cs i j = take j cs"
  by (metis le_add_diff_inverse slice_def take_add)

lemma length_slice: "i \<le> j \<Longrightarrow> j \<le> length cs \<Longrightarrow> length (slice cs i j) = j - i"
  by (simp add: slice_def)

section \<open>Where a page of text ends\<close>

text \<open>The position of the loop: the end of its line, and its bytes, are those of the text.\<close>

definition in_step :: "string \<Rightarrow> string list \<Rightarrow> nat list \<Rightarrow> text_position \<Rightarrow> bool" where
  "in_step unit chars lens p \<longleftrightarrow>
     tp_start p \<le> length chars \<and> sum_list lens = length chars \<and> 0 \<notin> set lens
     \<and> (if unit = ''lines'' then
          tp_line_end p = sum_list (take (Suc (tp_line p)) lens)
          \<and> tp_line p \<le> length lens
          \<and> sum_list (take (tp_line p) lens) \<le> tp_start p
          \<and> (tp_line p < length lens \<longrightarrow> tp_start p < tp_line_end p)
        else tp_bytes p = length (concat (take (tp_start p) chars)))"

lemma sum_take_Suc: "i < length xs \<Longrightarrow> sum_list (take (Suc i) xs) = sum_list (take i xs) + (xs ! i :: nat)"
  by (simp add: take_Suc_conv_app_nth)

lemma sum_take_mono: "i \<le> j \<Longrightarrow> sum_list (take i xs) \<le> sum_list (take j (xs :: nat list))"
  by (metis le_add1 le_add_diff_inverse sum_list_append take_add)

lemma sum_take_bound: "sum_list (take i xs) \<le> sum_list (xs :: nat list)"
  by (metis append_take_drop_id le_add1 sum_list_append)

lemma pass_lines_place:
  assumes "line_end = sum_list (take (Suc i) lens)" "i \<le> length lens"
    and "sum_list (take i lens) \<le> till" "pass_lines lens till line_end i l = (e, j, m)"
  shows "e = sum_list (take (Suc j) lens) \<and> j \<le> length lens \<and> i \<le> j \<and> sum_list (take j lens) \<le> till
    \<and> (j < length lens \<longrightarrow> till < e) \<and> m = (if i < j then j else l)"
  using assms
proof (induction lens till line_end i l rule: pass_lines.induct)
  case (1 lens till line_end i l)
  show ?case
  proof (cases "line_end \<le> till \<and> i < length lens")
    case True
    let ?e = "if i + 1 < length lens then line_end + lens ! (i + 1) else line_end"
    have "?e = sum_list (take (Suc (i + 1)) lens)"
      using True "1.prems"(1) by (cases "i + 1 < length lens") (simp_all add: sum_take_Suc[of "Suc i"])
    moreover have "pass_lines lens till ?e (i + 1) (i + 1) = (e, j, m)"
      using "1.prems"(4) True by (simp add: pass_lines.simps[of lens till line_end])
    moreover have "sum_list (take (i + 1) lens) \<le> till"
      using True "1.prems"(1) by simp
    ultimately show ?thesis using "1.IH"[OF True] True by auto
  next
    case False
    then have "e = line_end" "j = i" "m = l"
      using "1.prems"(4) by (auto simp: pass_lines.simps[of lens till line_end] split: if_splits)
    with False "1.prems" show ?thesis by auto
  qed
qed

text \<open>A page ends within the text.\<close>

lemma text_stop_bound:
  assumes "in_step unit chars lens p" "text_stop unit limit chars lens p = Inr stop"
  shows "stop \<le> length chars"
proof (cases "unit = ''lines''")
  case True
  define k where "k = min (length lens) (tp_line p + nat limit) - (tp_line p + 1)"
  have "stop = tp_line_end p + sum_list (take k (drop (Suc (tp_line p)) lens))"
    using assms(2) True by (simp add: text_stop_def Let_def k_def)
  also have "\<dots> = sum_list (take (Suc (tp_line p) + k) lens)"
    using assms(1) True by (simp only: in_step_def take_add sum_list_append simp_thms if_True)
  also have "\<dots> \<le> length chars"
    using assms(1) sum_take_bound[of _ lens] by (metis in_step_def)
  finally show ?thesis .
next
  case False
  with assms(2) show ?thesis by (auto simp: text_stop_def split: if_splits)
qed

lemma last_fit_bound: "last_fit P lo hi \<le> max lo hi"
  using last_fit_range[of lo hi P] by (cases "lo \<le> hi") (auto simp: last_fit.simps)

lemma text_end_bound:
  "start \<le> length chars \<Longrightarrow> stop \<le> length chars \<Longrightarrow> text_end unit limit extras chars start stop \<le> length chars"
  using last_fit_bound[of _ start "min stop (start + CANONICAL_BODY_BYTES)"]
  unfolding text_end_def by (rule le_trans) auto

text \<open>The pages number the lines (or bytes) they cover.\<close>

definition numbered :: "string \<Rightarrow> string list \<Rightarrow> nat list \<Rightarrow> text_page \<Rightarrow> bool" where
  "numbered unit chars lens t \<longleftrightarrow>
     (if unit = ''lines'' then
        1 \<le> tx_first t \<and> tx_first t \<le> tx_last t \<and> tx_last t \<le> length lens
        \<and> sum_list (take (tx_first t - 1) lens) \<le> tx_from t \<and> tx_from t < sum_list (take (tx_first t) lens)
        \<and> sum_list (take (tx_last t - 1) lens) < tx_to t \<and> tx_to t \<le> sum_list (take (tx_last t) lens)
      else tx_first t = length (concat (take (tx_from t) chars)) + 1
        \<and> tx_last t = length (concat (take (tx_to t) chars)))"

definition page_ok ::
  "string \<Rightarrow> (string \<times> json) list \<Rightarrow> string list \<Rightarrow> nat list \<Rightarrow> text_page \<Rightarrow> bool"
where
  "page_ok unit extras chars lens t \<longleftrightarrow>
     tx_from t < tx_to t \<and> tx_to t \<le> length chars \<and> body_fits (text_body extras chars (tx_from t) (tx_to t))
     \<and> numbered unit chars lens t"

lemma step_page_ok:
  assumes ok: "in_step unit chars lens p" and lt: "tp_start p < length chars"
    and step: "text_step unit limit extras chars lens p = Inr (items, q)"
  shows "in_step unit chars lens q"
    "page_ok unit extras chars lens \<lparr>tx_from = tp_start p, tx_to = tp_start q, tx_first = fst items, tx_last = snd items\<rparr>"
proof -
  from step obtain stop till where stop: "text_stop unit limit chars lens p = Inr stop"
    and till: "till = text_end unit limit extras chars (tp_start p) stop" "till \<noteq> tp_start p"
    and items: "text_items unit chars lens p till = (items, q)"
    by (auto simp: text_step_def bind_result_Inr Let_def split: if_splits)
  have q: "tp_start q = till" using items text_items_start by (metis snd_conv)
  have bounds: "tp_start p < till" "till \<le> length chars"
    using text_step_progress[OF step] q text_end_bound[OF _ text_stop_bound[OF ok stop]] lt till by auto
  have fits: "body_fits (text_body extras chars (tp_start p) till)"
    using till last_fit_fits by (fastforce simp: text_end_def)
  have "in_step unit chars lens q \<and> numbered unit chars lens
      \<lparr>tx_from = tp_start p, tx_to = till, tx_first = fst items, tx_last = snd items\<rparr>"
  proof (cases "unit = ''lines''")
    case True
    obtain e j m where pl: "pass_lines lens till (tp_line_end p) (tp_line p) (tp_line p + 1) = (e, j, m)"
      by (cases "pass_lines lens till (tp_line_end p) (tp_line p) (tp_line p + 1)") auto
    have o: "tp_line_end p = sum_list (take (Suc (tp_line p)) lens)" "tp_line p \<le> length lens"
      "sum_list (take (tp_line p) lens) \<le> tp_start p" "sum_list lens = length chars" "0 \<notin> set lens"
      "tp_line p < length lens \<Longrightarrow> tp_start p < tp_line_end p"
      using ok True by (auto simp: in_step_def)
    have line: "tp_line p < length lens"
      using o lt by (metis le_neq_implies_less not_le take_all_iff order.refl)
    note place = pass_lines_place[OF o(1,2) _ pl]
    have pj: "e = sum_list (take (Suc j) lens)" "j \<le> length lens" "tp_line p \<le> j" "sum_list (take j lens) \<le> till"
      "j < length lens \<Longrightarrow> till < e" "m = (if tp_line p < j then j else tp_line p + 1)"
      using place o(3) bounds(1) by auto
    have q': "q = p\<lparr>tp_start := till, tp_line := j, tp_line_end := e\<rparr>"
      "items = (tp_line p + 1, if j < length lens \<and> e - lens ! j < till then j + 1 else m)"
      using items True pl by (auto simp: text_items_def)
    have dif: "j < length lens \<Longrightarrow> e - lens ! j = sum_list (take j lens)"
      using pj(1) by (simp add: sum_take_Suc)
    have "in_step unit chars lens q"
      using ok True q' pj bounds(2) by (auto simp: in_step_def)
    moreover have "numbered unit chars lens
      \<lparr>tx_from = tp_start p, tx_to = till, tx_first = fst items, tx_last = snd items\<rparr>"
    proof (cases "j < length lens \<and> sum_list (take j lens) < till")
      case True
      then have "snd items = j + 1" using q'(2) dif by auto
      with True \<open>unit = ''lines''\<close> q'(2) o pj line show ?thesis by (auto simp: numbered_def)
    next
      case False
      have jt: "sum_list (take j lens) = till"
      proof (cases "j < length lens")
        case True
        with False pj(4) show ?thesis by simp
      next
        case False
        with pj(2,4) o(4) bounds(2) show ?thesis by simp
      qed
      have lj: "tp_line p < j"
      proof (rule ccontr)
        assume "\<not> tp_line p < j"
        with pj(3) have "j = tp_line p" by simp
        with jt o(3) bounds(1) show False by simp
      qed
      then have l: "snd items = j" using q'(2) dif False pj(6) by auto
      obtain i where i: "j = Suc i" using lj by (cases j) auto
      have "lens ! i \<noteq> 0" using o(5) i pj(2) by (metis Suc_le_lessD nth_mem)
      then have "sum_list (take i lens) < till"
        using jt i pj(2) by (simp add: sum_take_Suc)
      with l \<open>unit = ''lines''\<close> q'(2) o pj line jt i lj show ?thesis
        by (auto simp: numbered_def)
    qed
    ultimately show ?thesis ..
  next
    case False
    have b: "tp_bytes p = length (concat (take (tp_start p) chars))"
      using ok False by (simp add: in_step_def)
    have sum: "length (concat (take (tp_start p) chars)) + length (concat (slice chars (tp_start p) till))
        = length (concat (take till chars))"
      using slice_take[of "tp_start p" till chars] bounds(1)
      by (metis concat_append length_append less_imp_le)
    have "q = p\<lparr>tp_start := till, tp_bytes := tp_bytes p + length (concat (slice chars (tp_start p) till))\<rparr>"
      "items = (tp_bytes p + 1, tp_bytes p + length (concat (slice chars (tp_start p) till)))"
      using items False by (auto simp: text_items_def Let_def)
    with ok False b sum bounds show ?thesis by (simp add: in_step_def numbered_def)
  qed
  with q bounds fits show "in_step unit chars lens q"
    "page_ok unit extras chars lens \<lparr>tx_from = tp_start p, tx_to = tp_start q, tx_first = fst items, tx_last = snd items\<rparr>"
    by (simp_all add: page_ok_def)
qed

section \<open>The pages of a text\<close>

text \<open>The pages from a position: each is sound, and together they are the rest of the text.\<close>

lemma text_pages_cover:
  "text_pages unit limit extras chars lens p = Inr pages \<Longrightarrow> in_step unit chars lens p \<Longrightarrow>
   concat (map (\<lambda>t. slice chars (tx_from t) (tx_to t)) pages) = drop (tp_start p) chars
   \<and> list_all (page_ok unit extras chars lens) pages"
proof (induction unit limit extras chars lens p arbitrary: pages rule: text_pages.induct)
  case (1 unit limit extras chars lens p)
  show ?case
  proof (cases "length chars \<le> tp_start p")
    case True
    with "1.prems"(1) show ?thesis by (simp add: text_pages.simps)
  next
    case False
    with "1.prems"(1) obtain items q rest where step: "text_step unit limit extras chars lens p = Inr (items, q)"
      and rest: "text_pages unit limit extras chars lens q = Inr rest"
      and pages: "pages = \<lparr>tx_from = tp_start p, tx_to = tp_start q, tx_first = fst items, tx_last = snd items\<rparr> # rest"
      by (auto simp: text_pages.simps[of unit limit extras chars lens p] bind_result_Inr
            split: sum.splits prod.splits)
    note ok = step_page_ok[OF "1.prems"(2) _ step]
    have "tp_start p \<le> tp_start q" using text_step_progress[OF step] by simp
    with "1.IH"[OF False step refl rest ok(1)] ok(2) False pages show ?thesis
      by (simp add: slice_drop)
  qed
qed

text \<open>Pages follow one another.\<close>

lemma text_pages_adjacent:
  "text_pages unit limit extras chars lens p = Inr pages \<Longrightarrow>
   (pages \<noteq> [] \<longrightarrow> tx_from (hd pages) = tp_start p) \<and>
   (\<forall>i. Suc i < length pages \<longrightarrow> tx_to (pages ! i) = tx_from (pages ! Suc i))"
proof (induction unit limit extras chars lens p arbitrary: pages rule: text_pages.induct)
  case (1 unit limit extras chars lens p)
  show ?case
  proof (cases "length chars \<le> tp_start p")
    case True
    with "1.prems"(1) show ?thesis by (simp add: text_pages.simps)
  next
    case False
    with "1.prems"(1) obtain items q rest where step: "text_step unit limit extras chars lens p = Inr (items, q)"
      and rest: "text_pages unit limit extras chars lens q = Inr rest"
      and pages: "pages = \<lparr>tx_from = tp_start p, tx_to = tp_start q, tx_first = fst items, tx_last = snd items\<rparr> # rest"
      by (auto simp: text_pages.simps[of unit limit extras chars lens p] bind_result_Inr
            split: sum.splits prod.splits)
    note ih = "1.IH"[OF False step refl rest]
    have "tx_to (pages ! i) = tx_from (pages ! Suc i)" if "Suc i < length pages" for i
      using that ih pages by (cases i; cases rest) auto
    with pages show ?thesis by simp
  qed
qed

text \<open>A page is produced as long as a single character fits.\<close>

definition char_fits :: "string \<Rightarrow> int \<Rightarrow> (string \<times> json) list \<Rightarrow> string list \<Rightarrow> nat \<Rightarrow> bool" where
  "char_fits unit limit extras chars i \<longleftrightarrow>
     body_fits (text_body extras chars i (Suc i)) \<and> (unit \<noteq> ''lines'' \<longrightarrow> int (length (chars ! i)) \<le> limit)"

lemma last_fit_progress: "lo < hi \<Longrightarrow> P (Suc lo) \<Longrightarrow> lo < last_fit P lo hi"
proof (induction P lo hi rule: last_fit.induct)
  case (1 P lo hi)
  define m where "m = (lo + hi + 1) div 2"
  have m: "lo < m" using "1.prems"(1) by (auto simp: m_def)
  show ?case
  proof (cases "P m")
    case True
    then have "last_fit P lo hi = last_fit P m hi"
      using "1.prems"(1) by (simp add: last_fit.simps[of P lo hi] Let_def m_def)
    with m last_fit_below[of m P hi] show ?thesis by simp
  next
    case False
    then have "m \<noteq> Suc lo" using "1.prems"(2) by auto
    with m have lt: "lo < m - 1" by simp
    have "last_fit P lo hi = last_fit P lo (m - 1)"
      using "1.prems"(1) False by (simp add: last_fit.simps[of P lo hi] Let_def m_def)
    with "1.IH"(2)[OF "1.prems"(1) m_def] False lt "1.prems"(2) show ?thesis by simp
  qed
qed

lemma text_step_runs:
  assumes ok: "in_step unit chars lens p" and lt: "tp_start p < length chars" and lim: "1 \<le> limit"
    and fits: "char_fits unit limit extras chars (tp_start p)"
  shows "\<exists>r. text_step unit limit extras chars lens p = Inr r"
proof -
  let ?s = "tp_start p"
  have one: "concat (slice chars ?s (Suc ?s)) = chars ! ?s"
    using lt by (simp add: slice_def Cons_nth_drop_Suc[symmetric])
  have "\<exists>stop > ?s. text_stop unit limit chars lens p = Inr stop"
  proof (cases "unit = ''lines''")
    case True
    have "?s < tp_line_end p"
      using ok True lt by (auto simp: in_step_def)
    with True show ?thesis by (auto simp: text_stop_def Let_def)
  next
    case False
    with fits lim lt show ?thesis by (auto simp: text_stop_def char_fits_def)
  qed
  then obtain stop where stop: "?s < stop" "text_stop unit limit chars lens p = Inr stop" by blast
  have "?s < text_end unit limit extras chars ?s stop"
    unfolding text_end_def
    by (rule last_fit_progress) (use stop fits one in \<open>auto simp: char_fits_def CANONICAL_BODY_BYTES_def\<close>)
  with stop show ?thesis by (simp add: text_step_def Let_def)
qed

lemma text_pages_run:
  "in_step unit chars lens p \<Longrightarrow> 1 \<le> limit \<Longrightarrow>
   (\<And>i. i < length chars \<Longrightarrow> char_fits unit limit extras chars i) \<Longrightarrow>
   \<exists>pages. text_pages unit limit extras chars lens p = Inr pages"
proof (induction unit limit extras chars lens p rule: text_pages.induct)
  case (1 unit limit extras chars lens p)
  show ?case
  proof (cases "length chars \<le> tp_start p")
    case True
    then show ?thesis by (simp add: text_pages.simps)
  next
    case False
    then obtain items q where step: "text_step unit limit extras chars lens p = Inr (items, q)"
      using text_step_runs[OF "1.prems"(1) _ "1.prems"(2)] "1.prems"(3) by fastforce
    have "\<exists>rest. text_pages unit limit extras chars lens q = Inr rest"
      using False step_page_ok(1)[OF "1.prems"(1) _ step] "1.prems"(2,3)
      by (intro "1.IH"[OF False step refl]) auto
    with step False show ?thesis
      by (auto simp: text_pages.simps[of unit limit extras chars lens p])
  qed
qed

lemma in_step_start:
  "in_step unit chars (map length (split_lines chars))
     \<lparr>tp_start = 0, tp_line = 0, tp_line_end = (if map length (split_lines chars) = [] then 0
        else hd (map length (split_lines chars))), tp_bytes = 0\<rparr>"
proof -
  have "sum_list (map length (split_lines chars)) = length chars"
    by (metis concat_split_lines length_concat)
  moreover have "0 \<notin> set (map length (split_lines chars))"
    using split_lines_nonempty[of chars] by auto
  ultimately show ?thesis
    by (cases "split_lines chars") (auto simp: in_step_def)
qed

section \<open>The finished pages of a view\<close>

lemma map_results_map: "(\<And>x. x \<in> set xs \<Longrightarrow> f x = Inr (g x)) \<Longrightarrow> map_results f xs = Inr (map g xs)"
  by (induction xs) auto

text \<open>Page \<open>i\<close> of \<open>n\<close> (from 1) when no selection is made: nothing is cut, and records are counted.\<close>

definition whole_place :: "int \<Rightarrow> int \<Rightarrow> page_place" where
  "whole_place n i = \<lparr>pp_number = i, pp_end = n, pp_count = n, pp_valid = True, pp_remaining = n - i,
     pp_before = 0, pp_after = 0\<rparr>"

lemma page_place_whole:
  "1 \<le> i \<Longrightarrow> i \<le> n \<Longrightarrow> page_place_of \<lparr>sl_start = 1, sl_max = None\<rparr> n i = whole_place n i"
  by (simp add: page_place_of_def whole_place_def selection_end_def Let_def)

definition finished_page :: "(string \<Rightarrow> string) \<Rightarrow> view_meta \<Rightarrow> int \<Rightarrow> frame \<Rightarrow> frame" where
  "finished_page hx m i frame =
     AList.update ''delivery'' (JObj (compact_delivery (page_descriptor hx frame m \<lparr>sl_start = 1, sl_max = None\<rparr>
         (whole_place (vm_total_pages m) i))))
       (case record_field frame of
          Some field \<Rightarrow> AList.update ''result''
            (note_records field (0 < vm_total_pages m - i) (the (map_of frame ''result''))) frame
        | None \<Rightarrow> frame)"

lemma select_whole_page:
  assumes "vm_layout_version m = LAYOUT_VERSION" "1 \<le> i" "i \<le> vm_total_pages m"
  shows "select_page hx frame m (JInt i) (JInt 1) JNull = Inr (finished_page hx m i frame)"
  using assms
  by (simp add: select_page_def check_selection_def Let_def page_place_whole finished_page_def whole_place_def
        split: option.splits)

lemma finish_view_pages:
  "finish_view hx v = Inr (v\<lparr>rv_pages :=
     map (\<lambda>i. finished_page hx (view_metadata v) (int (Suc i)) (rv_pages v ! i)) [0..<length (rv_pages v)]\<rparr>)"
proof -
  let ?n = "length (rv_pages v)"
  have "view_page hx v (JInt (int i)) (JInt 1) JNull =
      Inr (finished_page hx (view_metadata v) (int i) (rv_pages v ! (i - 1)))" if "i \<in> set [1..<Suc ?n]" for i
  proof -
    from that have i: "1 \<le> i" "i \<le> ?n" by auto
    then have "nat (int i - 1) = i - 1" by simp
    with i show ?thesis
      using select_whole_page[of "view_metadata v" "int i"]
      by (simp add: view_page_def check_selection_def Let_def view_metadata_def)
  qed
  then have "map_results (\<lambda>i. view_page hx v (JInt (int i)) (JInt 1) JNull) [1..<Suc ?n] =
      Inr (map (\<lambda>i. finished_page hx (view_metadata v) (int i) (rv_pages v ! (i - 1))) [1..<Suc ?n])"
    by (rule map_results_map)
  moreover have "map (\<lambda>i. finished_page hx (view_metadata v) (int i) (rv_pages v ! (i - 1))) [1..<Suc ?n]
      = map (\<lambda>i. finished_page hx (view_metadata v) (int (Suc i)) (rv_pages v ! i)) [0..<?n]"
    by (simp add: map_Suc_upt[symmetric] comp_def del: upt_Suc)
  ultimately show ?thesis by (simp add: finish_view_def)
qed

lemma note_records_other:
  "k \<noteq> ''returned'' \<Longrightarrow> k \<noteq> ''truncated'' \<Longrightarrow> obj_get (note_records f b v) k = obj_get v k"
  by (cases v) (auto simp: note_records_def obj_get_def Let_def update_conv' split: option.splits)

text \<open>What a page shows of its result.\<close>

definition page_result :: "frame \<Rightarrow> json" where
  "page_result frame = (case map_of frame ''result'' of Some v \<Rightarrow> v | None \<Rightarrow> JNull)"

lemma finished_page_field:
  "k \<noteq> ''returned'' \<Longrightarrow> k \<noteq> ''truncated'' \<Longrightarrow>
   obj_get (page_result (finished_page hx m i frame)) k = obj_get (page_result frame) k"
  by (auto simp: finished_page_def page_result_def update_conv' note_records_other record_field_def
        split: option.splits)

lemma finished_page_plain:
  "record_field frame = None \<Longrightarrow> page_result (finished_page hx m i frame) = page_result frame"
  by (simp add: finished_page_def page_result_def update_conv')

lemma page_result_frame [simp]: "page_result (page_frame base body i j) = body"
  by (simp add: page_result_def page_frame_def update_conv')

section \<open>Results small enough to be shown as they are\<close>

lemma bounded_fits: "body_fits v \<Longrightarrow> bounded det v s = (Inr v, s)"
  by (simp add: bounded_def)

lemma map_layout_id:
  "(\<And>x. x \<in> set xs \<Longrightarrow> f x s = (Inr (g x), s)) \<Longrightarrow> map_layout f xs s = (Inr (map g xs), s)"
  by (induction xs) (simp_all add: bind_prog_eval(1))

lemma bounded_fields_id:
  "list_all (\<lambda>kv. body_fits (snd kv)) kvs \<Longrightarrow> bounded_fields det kvs s = (Inr kvs, s)"
  unfolding bounded_fields_def
  by (subst map_layout_id[where g = "\<lambda>kv. kv"])
    (auto simp: list_all_iff bounded_fits bind_prog_eval(1))

lemma bind_lift: "bind_prog (lift_result f) g s = (case f s of Inl e \<Rightarrow> (Inl e, s) | Inr x \<Rightarrow> g x s)"
  by (simp add: bind_prog_def split: sum.splits)

lemma text_extras_id:
  assumes "list_all (\<lambda>kv. body_fits (snd kv)) (filter (\<lambda>(k, v). k \<noteq> ''content'') kvs)"
    and "body_fits (text_body (filter (\<lambda>(k, v). k \<noteq> ''content'') kvs) chars 0 (min 1 (length chars)))"
  shows "text_extras det chars kvs s = (Inr (filter (\<lambda>(k, v). k \<noteq> ''content'') kvs), s)"
  using assms by (simp add: text_extras_def bind_prog_eval(1)[OF bounded_fields_id])

lemma text_view_runs:
  fixes kvs content
  defines "extras \<equiv> filter (\<lambda>(k, v). k \<noteq> ''content'') kvs"
  assumes "list_all (\<lambda>kv. body_fits (snd kv)) extras"
    and "body_fits (text_body extras (text_chars content) 0 (min 1 (length (text_chars content))))"
    and "text_layout li extras (text_chars content) = Inr pages"
  obtains v where "text_view det li kvs content s = (Inr v, s)"
    "rv_pages v = text_frames li extras (text_chars content) pages"
    "rv_total_items v = (if li_unit li = ''bytes'' then length content else length (split_lines (text_chars content)))"
    "rv_view_id v = li_view_id li" "rv_unit v = li_unit li"
proof -
  note e = text_extras_id[of kvs "text_chars content", folded extras_def, OF assms(2,3)]
  show ?thesis
    by (rule that[of "make_view li (text_frames li extras (text_chars content) pages) s
        (if li_unit li = ''bytes'' then length (concat (text_chars content)) else length (split_lines (text_chars content)))
        (AList.update ''result'' (text_body extras (text_chars content) 0 0) (li_base li))
        (Some (length (split_lines (text_chars content))))"])
      (simp_all add: text_view_def Let_def bind_prog_eval(1)[OF e]
         bind_lift assms(4) make_view_def)
qed

definition page_content :: "frame \<Rightarrow> string" where
  "page_content frame = (case obj_get (page_result frame) ''content'' of Some (JStr s) \<Rightarrow> s | _ \<Rightarrow> [])"

lemma text_body_content: "obj_get (text_body extras chars i j) ''content'' = Some (JStr (concat (slice chars i j)))"
  by (simp add: text_body_def obj_get_def update_conv')

lemma layout_of_result:
  assumes "layout_of hx envelope page_size requested = Inr li" "map_of envelope ''result'' = Some p"
  shows "li_payload li = p"
  using assms by (auto simp: layout_of_def Let_def bind_result_Inr delete_conv' split: if_splits)

lemma layout_of_unit:
  assumes "layout_of hx envelope page_size requested = Inr li"
  shows "li_unit li = detected_unit (AList.delete ''delivery'' envelope)
    \<or> li_unit li = ''lines'' \<and> detected_unit (AList.delete ''delivery'' envelope) = ''bytes''"
  using assms by (auto simp: layout_of_def Let_def bind_result_Inr split: if_splits option.splits)

lemma layout_of_size: "layout_of hx envelope page_size requested = Inr li \<Longrightarrow> 1 \<le> li_size li"
  by (cases page_size) (auto simp: layout_of_def Let_def bind_result_Inr resolve_page_size_def page_size_limits_def
        CANONICAL_BODY_BYTES_def split: if_splits option.splits)

lemma layout_of_records: "layout_of hx envelope page_size requested = Inr li \<Longrightarrow>
   li_record_field li = record_field (AList.delete ''delivery'' envelope)"
  by (auto simp: layout_of_def Let_def bind_result_Inr split: if_splits)

section \<open>Batches\<close>

text \<open>The batches of items that each fit a page of their own: a page takes items while it can.\<close>

fun greedy_batches :: "(json list \<Rightarrow> bool) \<Rightarrow> int \<Rightarrow> json list \<Rightarrow> json list \<Rightarrow> json list list" where
  "greedy_batches fits limit current [] = (if current = [] then [] else [current])"
| "greedy_batches fits limit current (x # xs) =
     (if page_full fits limit current x
      then current # greedy_batches fits limit [x] xs
      else greedy_batches fits limit (current @ [x]) xs)"

lemma greedy_flush:
  "page_full fits limit current x \<Longrightarrow>
     greedy_batches fits limit current (x # xs) = current # greedy_batches fits limit [x] xs"
  "\<not> page_full fits limit current x \<Longrightarrow>
     greedy_batches fits limit current (x # xs) = greedy_batches fits limit (current @ [x]) xs"
  by simp_all

lemma concat_greedy: "concat (greedy_batches fits limit cur xs) = cur @ xs"
  by (induction fits limit cur xs rule: greedy_batches.induct) auto

lemma greedy_sound:
  assumes "1 \<le> limit" "int (length cur) \<le> limit" "cur \<noteq> [] \<longrightarrow> fits cur" "\<And>x. x \<in> set xs \<Longrightarrow> fits [x]"
  shows "\<forall>b \<in> set (greedy_batches fits limit cur xs). b \<noteq> [] \<and> int (length b) \<le> limit \<and> fits b"
  using assms
proof (induction fits limit cur xs rule: greedy_batches.induct)
  case (2 fits limit current x xs)
  show ?case
  proof (cases "page_full fits limit current x")
    case True
    have "\<forall>b \<in> set (greedy_batches fits limit [x] xs). b \<noteq> [] \<and> int (length b) \<le> limit \<and> fits b"
      by (rule "2.IH"(1)[OF True]) (use "2.prems" in auto)
    with "2.prems" True show ?thesis unfolding greedy_flush(1)[OF True] by (simp add: page_full_def)
  next
    case False
    have "\<forall>b \<in> set (greedy_batches fits limit (current @ [x]) xs). b \<noteq> [] \<and> int (length b) \<le> limit \<and> fits b"
      by (rule "2.IH"(2)[OF False]) (use "2.prems" False in \<open>auto simp: page_full_def\<close>)
    then show ?thesis unfolding greedy_flush(2)[OF False] .
  qed
qed simp

lemma greedy_hd: "cur \<noteq> [] \<Longrightarrow> \<exists>b r t. greedy_batches fits limit cur xs = b # r \<and> b = cur @ t"
proof (induction fits limit cur xs rule: greedy_batches.induct)
  case (2 fits limit current x xs)
  then show ?case by fastforce
qed simp

text \<open>No page could have taken the first item of the next one.\<close>

lemma greedy_full:
  "Suc i < length (greedy_batches fits limit cur xs) \<Longrightarrow>
   limit \<le> int (length (greedy_batches fits limit cur xs ! i)) \<or>
   \<not> fits (greedy_batches fits limit cur xs ! i @ [hd (greedy_batches fits limit cur xs ! Suc i)])"
proof (induction fits limit cur xs arbitrary: i rule: greedy_batches.induct)
  case (2 fits limit current x xs)
  show ?case
  proof (cases "page_full fits limit current x")
    case True
    obtain b r t where b: "greedy_batches fits limit [x] xs = b # r" "b = [x] @ t"
      using greedy_hd[of "[x]" fits limit xs] by blast
    show ?thesis
    proof (cases i)
      case 0
      with True b show ?thesis unfolding greedy_flush(1)[OF True] by (auto simp: page_full_def)
    next
      case (Suc j)
      with "2.IH"(1)[OF True, of j] "2.prems" show ?thesis unfolding greedy_flush(1)[OF True] by simp
    qed
  next
    case False
    from "2.IH"(2)[OF False, of i] "2.prems" show ?thesis unfolding greedy_flush(2)[OF False] by simp
  qed
qed (auto split: if_splits)

lemma place_items_greedy:
  assumes "\<And>x. x \<in> set xs \<Longrightarrow> body_fits (body (ba_extras b) [x])"
  shows "\<exists>b'. place_items det unit limit body xs b s = (Inr b', s) \<and> ba_extras b' = ba_extras b
    \<and> final_batches b' = ba_batches b @ greedy_batches (\<lambda>c. body_fits (body (ba_extras b) c)) limit (ba_current b) xs"
  using assms
proof (induction xs arbitrary: b)
  case Nil
  then show ?case by (simp add: final_batches_def)
next
  case (Cons x xs)
  let ?e = "ba_extras b"
  let ?flush = "page_full (\<lambda>c. body_fits (body ?e c)) limit (ba_current b) x"
  let ?b = "(if ?flush then b\<lparr>ba_batches := ba_batches b @ [ba_current b], ba_current := [x]\<rparr>
             else b\<lparr>ba_current := ba_current b @ [x]\<rparr>)"
  have step: "place_item det unit limit body b x s = (Inr ?b, s)"
    using Cons.prems[of x] by (auto simp: place_item_def Let_def)
  have "\<exists>b'. place_items det unit limit body xs ?b s = (Inr b', s) \<and> ba_extras b' = ba_extras ?b
    \<and> final_batches b' = ba_batches ?b @ greedy_batches (\<lambda>c. body_fits (body (ba_extras ?b) c)) limit (ba_current ?b) xs"
    by (rule Cons.IH) (use Cons.prems in auto)
  then show ?case by (cases ?flush) (simp_all add: bind_prog_def step)
qed

lemma batch_view_runs:
  assumes "\<And>x. x \<in> set units \<Longrightarrow> body_fits (body extras [x])" "li_unit li = ''records'' \<longrightarrow> body_fits (body extras [])"
  defines "batches \<equiv> greedy_batches (\<lambda>c. body_fits (body extras c)) (li_size li) [] units"
  obtains v where "batch_view det li units extras body s = (Inr v, s)"
    "rv_pages v = batch_frames (li_base li) (body extras) 1 batches" "rv_total_items v = length units"
    "rv_view_id v = li_view_id li"
proof -
  let ?b = "\<lparr>ba_batches = [], ba_current = [], ba_extras = extras\<rparr>"
  obtain b' where b': "place_items det (li_unit li) (li_size li) body units ?b s = (Inr b', s)"
    "ba_extras b' = extras" "final_batches b' = batches"
    using place_items_greedy[of units body ?b det "li_unit li" "li_size li" s] assms(1)
    by (auto simp: batches_def)
  have no: "\<not> (li_unit li = ''records'' \<and> \<not> body_fits (body extras []))"
    using assms(2) by simp
  show ?thesis
    by (rule that[of "make_view li (batch_frames (li_base li) (body extras) 1 batches) s (length units)
          (AList.update ''result'' (body extras []) (li_base li)) None"])
      (simp_all only: batch_view_def if_not_P[OF no], simp_all add: bind_prog_def b' make_view_def)
qed

section \<open>No record is lost\<close>

text \<open>A record is shown as it is or as the reference of a detail view.\<close>

definition shown_as :: "json \<Rightarrow> json \<Rightarrow> bool" where
  "shown_as x y \<longleftrightarrow> y = x \<or> is_reference y"

definition gives_references :: "(json \<Rightarrow> json layout) \<Rightarrow> bool" where
  "gives_references det \<longleftrightarrow> (\<forall>v s r s'. det v s = (Inr r, s') \<longrightarrow> is_reference r)"

lemma is_reference_built: "is_reference (JObj (detail_reference key @ kvs))"
  by (simp add: is_reference_def detail_reference_def)

lemma detail_gives_references: "gives_references (detail n hx sub view_id base)"
proof -
  have "is_reference r" if "detail n hx sub view_id base v s = (Inr r, s')" for v s r s'
  proof (cases n)
    case 0
    with that show ?thesis by simp
  next
    case (Suc m)
    with that obtain key t where
      "(case detail_value v of
          JObj kvs \<Rightarrow>
            let names = JArr (map (\<lambda>kv. JStr (fst kv)) kvs);
                bound = (\<lambda>v item. if body_fits item then return_prog v else detail m hx sub view_id base v)
            in bind_prog (bound names (JObj (detail_reference key @ [(''fields_available'', names)]))) (\<lambda>available.
              (case map_of kvs ''id'' of
                 None \<Rightarrow> return_prog (JObj (detail_reference key @ [(''fields_available'', available)]))
               | Some identity \<Rightarrow>
                   bind_prog (bound identity (JObj ((detail_reference key @ [(''fields_available'', available)])
                       @ [(''record_identity'', identity)])))
                     (\<lambda>i. return_prog (JObj ((detail_reference key @ [(''fields_available'', available)])
                       @ [(''record_identity'', i)])))))
        | _ \<Rightarrow> return_prog (JObj (detail_reference key))) t = (Inr r, s')"
      by (auto simp only: detail.simps bind_prog_Inr Let_def)
    then show ?thesis
      using is_reference_built[of key "[]"] is_reference_built[of key]
      by (cases "detail_value v") (auto simp: bind_prog_Inr Let_def split: option.splits)
  qed
  then show ?thesis by (auto simp: gives_references_def)
qed

lemma bounded_shown:
  assumes "gives_references det" "bounded det v s = (Inr w, s')"
  shows "shown_as v w"
  using assms by (cases v) (auto simp: bounded_def shown_as_def gives_references_def split: if_splits)

lemma map_layout_rel:
  assumes "map_layout f xs s = (Inr ys, s')" "\<And>x t y t'. f x t = (Inr y, t') \<Longrightarrow> R x y"
  shows "list_all2 R xs ys"
  using assms(1)
proof (induction xs arbitrary: s ys)
  case (Cons x xs)
  then show ?case using assms(2) by (auto simp: bind_prog_Inr)
qed simp

lemma shrink_record:
  assumes "gives_references det" "shrink_item det fits ''records'' item s = (Inr y, s')"
  shows "is_reference y"
  using assms by (cases item) (auto simp: shrink_item_def gives_references_def)

lemma settle_record:
  assumes "gives_references det" "settle_item det ''records'' body c x extras s = (Inr b', s')"
  shows "\<exists>y. shown_as x y \<and> b' = c\<lparr>ba_current := ba_current c @ [y], ba_extras := extras\<rparr>"
proof -
  from assms(2) obtain y t where
    y: "(if body_fits (body extras [x]) then return_prog x
         else shrink_item det (\<lambda>i. body_fits (body extras [i])) ''records'' x) s = (Inr y, t)"
    and b': "(if body_fits (body extras [y]) then return_prog (c\<lparr>ba_current := ba_current c @ [y], ba_extras := extras\<rparr>)
         else raise_prog ValueError) t = (Inr b', s')"
    by (auto simp only: settle_item_def Let_def bind_prog_Inr)
  from y have "shown_as x y"
    using shrink_record[OF assms(1)] by (auto simp: shown_as_def split: if_splits)
  moreover from b' have "b' = c\<lparr>ba_current := ba_current c @ [y], ba_extras := extras\<rparr>"
    by (auto split: if_splits)
  ultimately show ?thesis by blast
qed

text \<open>One item joins the current batch, as itself or as a reference; nothing leaves it.\<close>

lemma place_record:
  assumes "gives_references det" "place_item det ''records'' limit body b x s = (Inr b', s')"
  shows "\<exists>y. shown_as x y \<and> concat (final_batches b') = concat (final_batches b) @ [y]"
proof -
  define c where "c = (if page_full (\<lambda>c. body_fits (body (ba_extras b) c)) limit (ba_current b) x
      then b\<lparr>ba_batches := ba_batches b @ [ba_current b], ba_current := []\<rparr> else b)"
  have c: "concat (ba_batches c) @ ba_current c = concat (final_batches b)"
    by (auto simp: c_def final_batches_def page_full_def)
  have fin: "concat (final_batches (c\<lparr>ba_current := ba_current c @ [y]\<rparr>)) = concat (final_batches b) @ [y]"
    "concat (final_batches (c\<lparr>ba_current := ba_current c @ [y], ba_extras := e\<rparr>)) = concat (final_batches b) @ [y]" for y e
    using c by (simp_all add: final_batches_def)
  show ?thesis
  proof (cases "body_fits (body (ba_extras c) [x])")
    case True
    with assms(2) have "b' = c\<lparr>ba_current := ba_current c @ [x]\<rparr>"
      by (simp add: place_item_def c_def[symmetric] Let_def)
    with fin(1)[of x] show ?thesis by (auto simp: shown_as_def)
  next
    case False
    with assms(2) obtain extras t where "settle_item det ''records'' body c x extras t = (Inr b', s')"
      by (auto simp: place_item_def c_def[symmetric] Let_def bind_prog_Inr)
    from settle_record[OF assms(1) this] obtain y where "shown_as x y"
      "b' = c\<lparr>ba_current := ba_current c @ [y], ba_extras := extras\<rparr>" by blast
    with fin(2) show ?thesis by blast
  qed
qed

lemma place_records:
  assumes "gives_references det" "place_items det ''records'' limit body xs b s = (Inr b', s')"
  shows "\<exists>ys. list_all2 shown_as xs ys \<and> concat (final_batches b') = concat (final_batches b) @ ys"
  using assms(2)
proof (induction xs arbitrary: b s)
  case Nil
  then show ?case by simp
next
  case (Cons x xs)
  then obtain c t where c: "place_item det ''records'' limit body b x s = (Inr c, t)"
    and rest: "place_items det ''records'' limit body xs c t = (Inr b', s')"
    by (auto simp: bind_prog_Inr)
  from place_record[OF assms(1) c] obtain y where
    "shown_as x y" "concat (final_batches c) = concat (final_batches b) @ [y]" by blast
  moreover from Cons.IH[OF rest] obtain ys where
    "list_all2 shown_as xs ys" "concat (final_batches b') = concat (final_batches c) @ ys" by blast
  ultimately have "list_all2 shown_as (x # xs) (y # ys) \<and> concat (final_batches b') = concat (final_batches b) @ y # ys"
    by simp
  then show ?case by blast
qed

lemma shown_as_trans: "shown_as x y \<Longrightarrow> shown_as y z \<Longrightarrow> shown_as x z"
  by (auto simp: shown_as_def)

definition page_records :: "string \<Rightarrow> frame \<Rightarrow> json list" where
  "page_records rf frame = (case obj_get (page_result frame) rf of Some (JArr xs) \<Rightarrow> xs | _ \<Rightarrow> [])"

lemma record_field_cases: "record_field e = Some rf \<Longrightarrow> rf \<in> {''entries'', ''records'', ''items''}"
  by (auto simp: record_field_def split: option.splits json.splits if_splits)

lemma records_body_records:
  assumes "rf \<noteq> ''returned''" "rf \<notin> fst ` set extras"
  shows "obj_get (records_body rf extras batch) rf = Some (JArr batch)"
  using assms by (simp add: records_body_def obj_get_def Let_def update_conv' map_of_dict_update_other)

text \<open>The context repeated on the pages keeps its names, or becomes a single reference.\<close>

definition context_of :: "(string \<times> json) list \<Rightarrow> (string \<times> json) list \<Rightarrow> bool" where
  "context_of extras e \<longleftrightarrow> e = extras \<or> map fst e = [''context'']"

lemma settle_extras:
  "settle_item det unit body c x extras s = (Inr b', s') \<Longrightarrow> ba_extras b' = extras"
  by (auto simp: settle_item_def Let_def bind_prog_Inr split: if_splits)

lemma place_item_extras:
  assumes "place_item det unit limit body b x s = (Inr b', s')"
  shows "context_of (ba_extras b) (ba_extras b')"
proof -
  define c where "c = (if page_full (\<lambda>c. body_fits (body (ba_extras b) c)) limit (ba_current b) x
      then b\<lparr>ba_batches := ba_batches b @ [ba_current b], ba_current := []\<rparr> else b)"
  have c: "ba_extras c = ba_extras b" by (simp add: c_def)
  show ?thesis
  proof (cases "body_fits (body (ba_extras c) [x])")
    case True
    with assms c show ?thesis
      by (simp add: place_item_def c_def[symmetric] Let_def context_of_def) (metis batching.select_convs(3) batching.surjective batching.update_convs(2))
  next
    case False
    with assms obtain extras t where e: "settle_item det unit body c x extras t = (Inr b', s')"
      and x: "(if unit = ''records'' \<and> ba_extras c \<noteq> []
               then bind_prog (det (JObj (ba_extras c))) (\<lambda>c. return_prog [(''context'', c)])
               else return_prog (ba_extras c)) s = (Inr extras, t)"
      by (auto simp only: place_item_def c_def[symmetric] Let_def bind_prog_Inr if_False)
    from x have "context_of (ba_extras c) extras"
      by (auto simp: context_of_def bind_prog_Inr split: if_splits)
    with settle_extras[OF e] c show ?thesis by simp
  qed
qed

lemma place_items_extras:
  "place_items det unit limit body xs b s = (Inr b', s') \<Longrightarrow> context_of (ba_extras b) (ba_extras b')"
proof (induction xs arbitrary: b s)
  case Nil
  then show ?case by (simp add: context_of_def)
next
  case (Cons x xs)
  then obtain c t where c: "place_item det unit limit body b x s = (Inr c, t)"
    "place_items det unit limit body xs c t = (Inr b', s')"
    by (auto simp: bind_prog_Inr)
  with Cons.IH[OF c(2)] place_item_extras[OF c(1)] show ?case by (auto simp: context_of_def)
qed

lemma bounded_fields_names:
  assumes "bounded_fields det kvs s = (Inr ws, s')"
  shows "map fst ws = map fst kvs"
proof -
  have "list_all2 (\<lambda>kv w. fst w = fst kv) kvs ws"
    by (rule map_layout_rel[OF assms[unfolded bounded_fields_def]]) (auto simp: bind_prog_Inr)
  then show ?thesis by (induction rule: list_all2_induct) auto
qed

lemma map_bounded_shown:
  assumes "gives_references det" "map_layout (bounded det) xs s = (Inr ys, s')"
  shows "list_all2 shown_as xs ys"
  by (rule map_layout_rel[OF assms(2)]) (rule bounded_shown[OF assms(1)])

lemma shown_all_trans: "list_all2 shown_as xs ys \<Longrightarrow> list_all2 shown_as ys zs \<Longrightarrow> list_all2 shown_as xs zs"
  by (rule list_all2_trans[OF shown_as_trans])

end
