(* ===== verification/Page_Properties.thy ===== *)
theory Page_Properties
  imports Page_Safety
begin

text \<open>
  The properties of result navigation: how texts and records are paged, and what a reader who
  follows the continuations sees.
\<close>

section \<open>Views of texts and of records\<close>

lemma detected_text:
  assumes "map_of envelope ''result'' = Some (JObj kvs)" "map_of kvs ''content'' = Some (JStr content)"
  shows "detected_unit (AList.delete ''delivery'' envelope) = ''bytes''"
  using assms by (simp add: detected_unit_def delete_conv')

lemma build_text_view:
  assumes result: "map_of envelope ''result'' = Some (JObj kvs)"
    and content: "map_of kvs ''content'' = Some (JStr content)"
    and li: "layout_of hx envelope page_size requested = Inr li"
  shows "build_view (Suc n) hx envelope page_size requested =
    bind_result (fst (text_view (detail n hx (\<lambda>e. build_view n hx e None None) (li_view_id li) (li_base li))
      li kvs content [])) (finish_view hx)"
proof -
  have unit: "li_unit li = ''bytes'' \<or> li_unit li = ''lines''"
    using layout_of_unit[OF li] detected_text[OF result content] by auto
  then have "li_unit li \<noteq> ''fields''" by auto
  with unit layout_of_result[OF li result] content li show ?thesis
    by (simp add: layout_view_def laid_out_def)
qed

lemma build_records_view:
  assumes result: "map_of envelope ''result'' = Some (JObj kvs)"
    and rf: "record_field (AList.delete ''delivery'' envelope) = Some rf"
    and li: "layout_of hx envelope page_size requested = Inr li" and unit: "li_unit li = ''records''"
  shows "build_view (Suc n) hx envelope page_size requested =
    bind_result (fst (records_view (detail n hx (\<lambda>e. build_view n hx e None None) (li_view_id li) (li_base li))
      li kvs rf [])) (finish_view hx)"
  using layout_of_result[OF li result] layout_of_records[OF li] rf li unit
  by (simp add: layout_view_def laid_out_def)

text \<open>The fields of a text result other than its content, which every page repeats.\<close>

definition text_context :: "(string \<times> json) list \<Rightarrow> (string \<times> json) list" where
  "text_context kvs = filter (\<lambda>(k, v). k \<noteq> ''content'') kvs"

text \<open>The context is small enough: it and any one character fit a page.\<close>

definition context_fits :: "layout_input \<Rightarrow> (string \<times> json) list \<Rightarrow> string list \<Rightarrow> bool" where
  "context_fits li kvs chars \<longleftrightarrow>
     list_all (\<lambda>kv. body_fits (snd kv)) (text_context kvs)
     \<and> body_fits (text_body (text_context kvs) chars 0 (min 1 (length chars)))
     \<and> list_all (char_fits (li_unit li) (li_size li) (text_context kvs) chars) [0..<length chars]"

lemma finished_contents:
  "map page_content (map (\<lambda>i. finished_page hx m (int (Suc i)) (fs ! i)) [0..<length fs]) = map page_content fs"
proof -
  have "map page_content (map (\<lambda>i. finished_page hx m (int (Suc i)) (fs ! i)) [0..<length fs])
      = map (\<lambda>i. page_content (fs ! i)) [0..<length fs]"
    by (simp add: page_content_def finished_page_field)
  also have "\<dots> = map page_content (map ((!) fs) [0..<length fs])" by (simp add: comp_def)
  finally show ?thesis by (simp add: map_nth)
qed

lemma text_frames_contents:
  "concat (map page_content (text_frames li extras chars pages))
   = concat (concat (map (\<lambda>t. slice chars (tx_from t) (tx_to t)) pages))"
  by (induction pages) (auto simp: text_frames_def page_content_def text_body_content)

lemma text_layout_cover:
  assumes "text_layout li extras chars = Inr pages"
  shows "concat (map (\<lambda>t. slice chars (tx_from t) (tx_to t)) pages) = chars"
    "list_all (page_ok (li_unit li) extras chars (map length (split_lines chars))) pages"
  using text_pages_cover[OF assms[unfolded text_layout_def Let_def] in_step_start] by simp_all

lemma text_layout_runs:
  assumes "1 \<le> li_size li" "context_fits li kvs chars"
  shows "\<exists>pages. text_layout li (text_context kvs) chars = Inr pages"
  unfolding text_layout_def Let_def
  by (rule text_pages_run[OF in_step_start]) (use assms in \<open>auto simp: context_fits_def list_all_iff\<close>)

lemma layout_of_base:
  "layout_of hx envelope page_size requested = Inr li \<Longrightarrow> map_of envelope ''result'' = Some p \<Longrightarrow>
   li_base li = layout_base (AList.delete ''delivery'' envelope) p"
  by (auto simp: layout_of_def Let_def bind_result_Inr delete_conv' split: if_splits)

lemma layout_base_command: "map_of (layout_base e p) ''command'' = map_of e ''command''"
  by (cases p) (auto simp: layout_base_def Let_def delete_conv' map_add_def split: option.splits)

lemma record_field_cong:
  assumes "map_of e ''result'' = Some (JObj kvs)" "map_of f ''result'' = Some (JObj kvs')"
    and "map_of e ''command'' = map_of f ''command''"
    and "map_of kvs ''entries'' = map_of kvs' ''entries''" "map_of kvs ''records'' = map_of kvs' ''records''"
      "map_of kvs ''items'' = map_of kvs' ''items''"
  shows "record_field e = record_field f"
  using assms(1,2) by (simp add: record_field_def assms(3-6))

lemma map_of_context: "k \<noteq> ''content'' \<Longrightarrow> map_of (text_context kvs) k = map_of kvs k"
  unfolding text_context_def by (induction kvs) auto

lemma page_frame_field:
  assumes "record_field (AList.delete ''delivery'' envelope) = None"
    and "map_of envelope ''result'' = Some (JObj kvs)" "layout_of hx envelope page_size requested = Inr li"
  shows "record_field (page_frame (li_base li) (text_body (text_context kvs) chars i j) a b) = None"
proof -
  have "record_field (page_frame (li_base li) (text_body (text_context kvs) chars i j) a b)
      = record_field (AList.delete ''delivery'' envelope)"
  proof (rule record_field_cong)
    show "map_of (AList.delete ''delivery'' envelope) ''result'' = Some (JObj kvs)"
      using assms(2) by (simp add: delete_conv')
    show "map_of (page_frame (li_base li) (text_body (text_context kvs) chars i j) a b) ''result'' =
        Some (JObj (dict_update (text_context kvs) [(''content'', JStr (concat (slice chars i j))),
          (''content_range'', JObj [(''start'', JInt (int i)), (''end'', JInt (int j)), (''total'', JInt (int (length chars)))])]))"
      by (simp add: page_frame_def text_body_def update_conv')
  qed (simp_all add: page_frame_def text_body_def update_conv' map_of_context layout_of_base[OF assms(3,2)]
        layout_base_command)
  with assms(1) show ?thesis by simp
qed

text \<open>
  C32. A text result whose context leaves room for a character is always paged, and the contents
  of its pages, in their order, are the content of the result: no character is lost, repeated or
  torn apart, whatever the unit (bytes or lines) and the page size.
\<close>

theorem text_result_is_paged_whole:
  assumes "map_of envelope ''result'' = Some (JObj kvs)" "map_of kvs ''content'' = Some (JStr content)"
    and "layout_of hx envelope page_size requested = Inr li" "context_fits li kvs (text_chars content)"
  shows "\<exists>v. build_view (Suc n) hx envelope page_size requested = Inr v
    \<and> concat (map page_content (rv_pages v)) = content
    \<and> (record_field (AList.delete ''delivery'' envelope) = None \<longrightarrow>
         list_all (\<lambda>page. body_fits (page_result page)) (rv_pages v))"
proof -
  let ?cs = "text_chars content" and ?e = "text_context kvs"
  obtain pages where p: "text_layout li ?e ?cs = Inr pages"
    using text_layout_runs[OF layout_of_size[OF assms(3)] assms(4)] by blast
  note cover = text_layout_cover[OF p]
  obtain v where v: "text_view (detail n hx (\<lambda>e. build_view n hx e None None) (li_view_id li) (li_base li)) li kvs content []
      = (Inr v, [])" "rv_pages v = text_frames li ?e ?cs pages"
    using text_view_runs[of kvs content li pages, folded text_context_def, OF _ _ p] assms(4)
    unfolding context_fits_def by metis
  let ?w = "v\<lparr>rv_pages := map (\<lambda>i. finished_page hx (view_metadata v) (int (Suc i)) (rv_pages v ! i)) [0..<length (rv_pages v)]\<rparr>"
  have "build_view (Suc n) hx envelope page_size requested = Inr ?w"
    by (simp only: build_text_view[OF assms(1,2,3)] v(1) finish_view_pages bind_result_simps fst_conv)
  moreover have "concat (map page_content (rv_pages ?w)) = content"
  proof -
    have "rv_pages ?w = map (\<lambda>i. finished_page hx (view_metadata v) (int (Suc i)) (rv_pages v ! i)) [0..<length (rv_pages v)]"
      by simp
    then show ?thesis
      using cover(1) by (simp only: finished_contents v(2) text_frames_contents concat_text_chars)
  qed
  moreover have "body_fits (page_result page)"
    if "record_field (AList.delete ''delivery'' envelope) = None" "page \<in> set (rv_pages ?w)" for page
  proof -
    from that(2) obtain i where i: "i < length pages" "page = finished_page hx (view_metadata v) (int (Suc i)) (rv_pages v ! i)"
      by (auto simp: v(2) text_frames_def)
    have "body_fits (text_body ?e ?cs (tx_from (pages ! i)) (tx_to (pages ! i)))"
      using cover(2) i(1) by (simp add: list_all_length page_ok_def)
    with i show ?thesis
      by (simp add: finished_page_plain page_frame_field[OF that(1) assms(1,3)] v(2) text_frames_def)
  qed
  ultimately show ?thesis by (auto simp: list_all_iff)
qed

definition sample_hash :: "string \<Rightarrow> string" where
  "sample_hash t = replicate 64 (if length t = 8 then CHR ''1'' else CHR ''0'')"

definition sample_content :: string where
  "sample_content = [CHR ''a'', byte 10, byte 13, byte 10, CHR ''b'']"

definition sample_text :: "(string \<times> json) list" where
  "sample_text = [(''path'', JStr ''a.md''), (''content'', JStr sample_content)]"

definition sample_envelope :: frame where
  "sample_envelope = [(''command'', JStr ''artefact.read''), (''status'', JStr ''ok''), (''result'', JObj sample_text)]"

lemma sample_layout:
  "case layout_of sample_hash sample_envelope None (Some ''lines'') of
     Inl e \<Rightarrow> False
   | Inr li \<Rightarrow> context_fits li sample_text (text_chars sample_content)"
  by code_simp

theorem text_result_is_paged_whole_witness:
  "\<exists>v. build_view 2 sample_hash sample_envelope None (Some ''lines'') = Inr v
    \<and> concat (map page_content (rv_pages v)) = sample_content"
proof -
  obtain li where li: "layout_of sample_hash sample_envelope None (Some ''lines'') = Inr li"
    "context_fits li sample_text (text_chars sample_content)"
    using sample_layout by (auto split: sum.splits)
  have "map_of sample_envelope ''result'' = Some (JObj sample_text)"
    "map_of sample_text ''content'' = Some (JStr sample_content)"
    by (simp_all add: sample_envelope_def sample_text_def)
  from text_result_is_paged_whole[OF this li, of 1] show ?thesis
    by (auto simp: numeral_2_eq_2)
qed

text \<open>
  C40. The pages of a text are numbered by the lines or bytes of the text: the first and last
  item of a page are the line that holds its first and its last character (or the positions of
  its first and last byte), and each page begins where the one before ended.
\<close>

theorem text_pages_are_numbered:
  assumes "text_layout li extras chars = Inr pages" "lens = map length (split_lines chars)" "i < length pages"
    and "pages ! i = t"
  shows "tx_from t < tx_to t \<and> tx_from t = (if i = 0 then 0 else tx_to (pages ! (i - 1)))
    \<and> (if li_unit li = ''lines'' then
         sum_list (take (tx_first t - 1) lens) \<le> tx_from t \<and> tx_from t < sum_list (take (tx_first t) lens)
         \<and> sum_list (take (tx_last t - 1) lens) < tx_to t \<and> tx_to t \<le> sum_list (take (tx_last t) lens)
       else tx_first t = length (concat (take (tx_from t) chars)) + 1
         \<and> tx_last t = length (concat (take (tx_to t) chars)))"
proof -
  have ok: "page_ok (li_unit li) extras chars lens t"
    using text_layout_cover(2)[OF assms(1)] assms(2,3,4) by (auto simp: list_all_length)
  note adj = text_pages_adjacent[OF assms(1)[unfolded text_layout_def Let_def]]
  have "tx_from t = (if i = 0 then 0 else tx_to (pages ! (i - 1)))"
  proof (cases i)
    case 0
    with adj assms(3,4) show ?thesis by (cases pages) auto
  next
    case (Suc j)
    then show ?thesis using adj assms(3,4) by auto
  qed
  with ok show ?thesis by (auto simp: page_ok_def numbered_def)
qed

theorem text_pages_are_numbered_witness:
  "\<exists>li t pages. text_layout li (text_context sample_text) (text_chars sample_content) = Inr (t # pages)
    \<and> tx_from t = 0 \<and> 0 < tx_to t"
proof -
  obtain li where li: "layout_of sample_hash sample_envelope None (Some ''lines'') = Inr li"
    "context_fits li sample_text (text_chars sample_content)"
    using sample_layout by (auto split: sum.splits)
  obtain pages where p: "text_layout li (text_context sample_text) (text_chars sample_content) = Inr pages"
    using text_layout_runs[OF layout_of_size[OF li(1)] li(2)] by blast
  have "sample_content \<noteq> []" by (simp add: sample_content_def)
  then have "text_chars sample_content \<noteq> []" using concat_text_chars[of sample_content] by force
  then have "pages \<noteq> []" using text_layout_cover(1)[OF p] by auto
  then obtain t ps where ps: "pages = t # ps" by (cases pages) auto
  from text_pages_are_numbered[OF p refl, of 0 t] ps have "tx_from t = 0 \<and> 0 < tx_to t" by simp
  with p ps show ?thesis by blast
qed

section \<open>Records\<close>

lemma finished_records:
  assumes "rf \<noteq> ''returned''" "rf \<noteq> ''truncated''"
  shows "map (page_records rf) (map (\<lambda>i. finished_page hx m (int (Suc i)) (fs ! i)) [0..<length fs]) = map (page_records rf) fs"
proof -
  have "map (page_records rf) (map (\<lambda>i. finished_page hx m (int (Suc i)) (fs ! i)) [0..<length fs])
      = map (\<lambda>i. page_records rf (fs ! i)) [0..<length fs]"
    using assms by (simp add: page_records_def finished_page_field)
  also have "\<dots> = map (page_records rf) (map ((!) fs) [0..<length fs])" by (simp add: comp_def)
  finally show ?thesis by (simp add: map_nth)
qed

lemma batch_frames_records:
  assumes "\<And>batch. obj_get (body batch) rf = Some (JArr batch)"
  shows "map (page_records rf) (batch_frames base body n batches) = batches"
  by (induction batches arbitrary: n) (simp_all add: page_records_def assms)

text \<open>The fields of a record list other than the list, which every page repeats.\<close>

definition list_context :: "string \<Rightarrow> (string \<times> json) list \<Rightarrow> (string \<times> json) list" where
  "list_context rf kvs = filter (\<lambda>(k, v). k \<noteq> rf) kvs"

definition records_fit :: "string \<Rightarrow> (string \<times> json) list \<Rightarrow> json list \<Rightarrow> bool" where
  "records_fit rf kvs records \<longleftrightarrow>
     list_all (\<lambda>kv. body_fits (snd kv)) (list_context rf kvs)
     \<and> body_fits (records_body rf (list_context rf kvs) [])
     \<and> list_all (\<lambda>x. body_fits x \<and> body_fits (records_body rf (list_context rf kvs) [x])) records"

definition record_pages :: "string \<Rightarrow> layout_input \<Rightarrow> (string \<times> json) list \<Rightarrow> json list \<Rightarrow> json list list" where
  "record_pages rf li kvs records =
     greedy_batches (\<lambda>c. body_fits (records_body rf (list_context rf kvs) c)) (li_size li) [] records"

lemma records_view_runs:
  assumes "records_fit rf kvs records" "map_of kvs rf = Some (JArr records)" "li_unit li = ''records''"
  obtains v where "records_view det li kvs rf s = (Inr v, s)"
    "rv_pages v = batch_frames (li_base li) (records_body rf (list_context rf kvs)) 1 (record_pages rf li kvs records)"
    "rv_total_items v = length records"
proof -
  have m: "map_layout (bounded det) records s = (Inr (map (\<lambda>x. x) records), s)"
    by (rule map_layout_id) (use assms(1) in \<open>auto simp: records_fit_def list_all_iff bounded_fits\<close>)
  have e: "bounded_fields det (list_context rf kvs) s = (Inr (list_context rf kvs), s)"
    by (rule bounded_fields_id) (use assms(1) in \<open>simp add: records_fit_def\<close>)
  obtain v where v: "batch_view det li records (list_context rf kvs) (records_body rf) s = (Inr v, s)"
    "rv_pages v = batch_frames (li_base li) (records_body rf (list_context rf kvs)) 1 (record_pages rf li kvs records)"
    "rv_total_items v = length records"
    using batch_view_runs[of records "records_body rf" "list_context rf kvs" li det s] assms(1)
    unfolding record_pages_def records_fit_def list_all_iff by metis
  have "records_view det li kvs rf s = (Inr v, s)"
    using m e v(1) by (simp add: records_view_def bind_prog_def assms(2) list_context_def)
  with v that show ?thesis by blast
qed

lemma list_context_other: "rf \<notin> fst ` set (list_context rf kvs)"
  by (auto simp: list_context_def)

lemma record_list_fields:
  assumes "record_field e = Some rf"
  shows "rf \<noteq> ''returned''" "rf \<noteq> ''truncated''"
  using record_field_cases[OF assms] by auto

lemma record_field_list:
  assumes "record_field e = Some rf" "map_of e ''result'' = Some (JObj kvs)"
  obtains records where "map_of kvs rf = Some (JArr records)"
  using assms by (auto simp: record_field_def is_list_def split: if_splits option.splits json.splits)

lemma records_built:
  assumes result: "map_of envelope ''result'' = Some (JObj kvs)"
    and rf: "record_field (AList.delete ''delivery'' envelope) = Some rf"
    and records: "map_of kvs rf = Some (JArr records)"
    and li: "layout_of hx envelope page_size requested = Inr li" "li_unit li = ''records''"
    and fit: "records_fit rf kvs records"
  obtains w where "build_view (Suc n) hx envelope page_size requested = Inr w"
    "map (page_records rf) (rv_pages w) = record_pages rf li kvs records"
proof -
  let ?body = "records_body rf (list_context rf kvs)"
  let ?bs = "record_pages rf li kvs records"
  note names = record_list_fields[OF rf]
  obtain v where v: "records_view (detail n hx (\<lambda>e. build_view n hx e None None) (li_view_id li) (li_base li)) li kvs rf []
      = (Inr v, [])" "rv_pages v = batch_frames (li_base li) ?body 1 ?bs"
    using records_view_runs[OF fit records li(2)] by metis
  define w where "w = v\<lparr>rv_pages := map (\<lambda>i. finished_page hx (view_metadata v) (int (Suc i)) (rv_pages v ! i)) [0..<length (rv_pages v)]\<rparr>"
  have built: "build_view (Suc n) hx envelope page_size requested = Inr w"
    by (simp only: build_records_view[OF result rf li] v(1) finish_view_pages bind_result_simps fst_conv w_def)
  have "rv_pages w = map (\<lambda>i. finished_page hx (view_metadata v) (int (Suc i)) (rv_pages v ! i)) [0..<length (rv_pages v)]"
    by (simp add: w_def)
  then have "map (page_records rf) (rv_pages w) = ?bs"
    by (simp only: finished_records[OF names] v(2)
          batch_frames_records[OF records_body_records[OF names(1) list_context_other]])
  with built that show ?thesis by blast
qed

text \<open>
  C31. A list of records that each fit a page is paged in its order: the pages together list
  exactly the records, no page is empty or holds more than the page size, and a page ends early
  only where the next record would not have fitted.
\<close>

theorem records_are_paged_in_order:
  assumes result: "map_of envelope ''result'' = Some (JObj kvs)"
    and rf: "record_field (AList.delete ''delivery'' envelope) = Some rf"
    and records: "map_of kvs rf = Some (JArr records)"
    and li: "layout_of hx envelope page_size requested = Inr li" "li_unit li = ''records''"
    and fit: "records_fit rf kvs records"
  shows "\<exists>v. build_view (Suc n) hx envelope page_size requested = Inr v
    \<and> concat (map (page_records rf) (rv_pages v)) = records
    \<and> list_all (\<lambda>page. page_records rf page \<noteq> [] \<and> int (length (page_records rf page)) \<le> li_size li) (rv_pages v)
    \<and> (\<forall>i. Suc i < length (rv_pages v) \<longrightarrow>
         int (length (page_records rf (rv_pages v ! i))) = li_size li
         \<or> \<not> body_fits (records_body rf (list_context rf kvs)
              (page_records rf (rv_pages v ! i) @ [hd (page_records rf (rv_pages v ! Suc i))])))"
proof -
  let ?body = "records_body rf (list_context rf kvs)"
  let ?bs = "record_pages rf li kvs records"
  obtain w where built: "build_view (Suc n) hx envelope page_size requested = Inr w"
    and shown: "map (page_records rf) (rv_pages w) = ?bs"
    using records_built[OF result rf records li fit] .
  have nth: "page_records rf (rv_pages w ! i) = ?bs ! i" if "i < length (rv_pages w)" for i
    using that by (simp flip: shown)
  have len: "length (rv_pages w) = length ?bs" by (metis length_map shown)
  have size1: "1 \<le> li_size li" by (rule layout_of_size[OF li(1)])
  have sound: "b \<noteq> [] \<and> int (length b) \<le> li_size li" if "b \<in> set ?bs" for b
    using greedy_sound[of "li_size li" "[]" "\<lambda>c. body_fits (?body c)" records] that fit size1
    by (auto simp: record_pages_def records_fit_def list_all_iff)
  have full: "li_size li \<le> int (length (?bs ! i)) \<or> \<not> body_fits (?body (?bs ! i @ [hd (?bs ! Suc i)]))"
    if "Suc i < length ?bs" for i
    using greedy_full[of i "\<lambda>c. body_fits (?body c)" "li_size li" "[]" records] that by (simp add: record_pages_def)
  have each: "int (length (page_records rf (rv_pages w ! i))) = li_size li
         \<or> \<not> body_fits (?body (page_records rf (rv_pages w ! i) @ [hd (page_records rf (rv_pages w ! Suc i))]))"
    if "Suc i < length (rv_pages w)" for i
    using full[of i] sound[of "?bs ! i"] that nth[of i] nth[of "Suc i"] len by fastforce
  have "concat (map (page_records rf) (rv_pages w)) = records"
    by (simp add: shown record_pages_def concat_greedy)
  moreover have "list_all (\<lambda>page. page_records rf page \<noteq> [] \<and> int (length (page_records rf page)) \<le> li_size li) (rv_pages w)"
    using sound by (simp add: list_all_length nth len)
  ultimately show ?thesis using built each by blast
qed




definition sample_list :: "(string \<times> json) list" where
  "sample_list = [(''total'', JInt 2), (''entries'', JArr [JStr ''a'', JObj [(''id'', JInt 1)]])]"

definition sample_records :: frame where
  "sample_records = [(''command'', JStr ''command.list''), (''result'', JObj sample_list)]"

lemma sample_records_layout:
  "case layout_of sample_hash sample_records (Some 1) None of
     Inl e \<Rightarrow> False
   | Inr li \<Rightarrow> li_unit li = ''records'' \<and> records_fit ''entries'' sample_list [JStr ''a'', JObj [(''id'', JInt 1)]]"
  by code_simp

lemma sample_records_facts:
  "map_of sample_records ''result'' = Some (JObj sample_list)"
  "record_field (AList.delete ''delivery'' sample_records) = Some ''entries''"
  "map_of sample_list ''entries'' = Some (JArr [JStr ''a'', JObj [(''id'', JInt 1)]])"
  "detected_unit (AList.delete ''delivery'' sample_records) = ''records''"
  by (simp_all add: sample_records_def sample_list_def record_field_def is_list_def detected_unit_def)

theorem records_are_paged_in_order_witness:
  "\<exists>v. build_view 2 sample_hash sample_records (Some 1) None = Inr v
    \<and> concat (map (page_records ''entries'') (rv_pages v)) = [JStr ''a'', JObj [(''id'', JInt 1)]]"
proof -
  obtain li where li: "layout_of sample_hash sample_records (Some 1) None = Inr li" "li_unit li = ''records''"
    "records_fit ''entries'' sample_list [JStr ''a'', JObj [(''id'', JInt 1)]]"
    using sample_records_layout by (auto split: sum.splits)
  from records_are_paged_in_order[OF sample_records_facts(1-3) li, of 1] show ?thesis
    by (auto simp: numeral_2_eq_2)
qed


end
