(* ===== verification/Page_Walk.thy ===== *)
theory Page_Walk
  imports Page_Safety
begin

text \<open>
  A reader of a retained view: it asks for a page of a selection and follows the continuation of
  every page it gets until there is none.
\<close>

section \<open>Following continuations\<close>

lemma map_of_filter_distinct:
  "distinct (map fst al) \<Longrightarrow> map_of (filter (\<lambda>(k, v). P k v) al) k =
     (case map_of al k of None \<Rightarrow> None | Some v \<Rightarrow> if P k v then Some v else None)"
proof (induction al)
  case (Cons a al)
  obtain k' v' where "a = (k', v')" by (cases a)
  with Cons show ?case by (auto simp: map_of_eq_None_iff split: option.splits dest: map_of_SomeD)
qed simp

lemma distinct_filter_fst: "distinct (map fst al) \<Longrightarrow> distinct (map fst (filter P al))"
  by (induction al) auto

text \<open>A field with a value that is no default stays in the compact descriptor.\<close>

lemma compact_delivery_field:
  assumes "distinct (map fst values)" "map_of values k = Some v" "v \<noteq> JNull \<or> k = ''continuation''"
    and "k \<notin> set [''selection_id'', ''start_page'', ''end_page'', ''selected_pages'',
      ''pages_before_selection'', ''pages_after_selection'', ''requested_page_size'',
      ''backing'', ''consistency'', ''count_scope'', ''superseded'']"
  shows "map_of (compact_delivery values) k = Some v"
proof -
  define dropped where "dropped = (if (case map_of values ''start_page'' of None \<Rightarrow> True | Some v \<Rightarrow> v = JInt 1)
        \<and> (case map_of values ''max_pages'' of None \<Rightarrow> True | Some v \<Rightarrow> v = JNull)
      then [''selection_id'', ''start_page'', ''end_page'', ''selected_pages'',
        ''pages_before_selection'', ''pages_after_selection''] else [])"
  define a where "a = filter (\<lambda>(k, v). k \<notin> set dropped) values"
  define b where "b = (if map_of a ''requested_page_size'' = map_of a ''page_size''
      then filter (\<lambda>(k, v). k \<noteq> ''requested_page_size'') a else a)"
  define defaults where "defaults = [(''backing'', JStr ''retained''), (''consistency'', JStr ''immutable-output''),
      (''count_scope'', JStr ''produced-output''), (''superseded'', JBool False)]"
  define c where "c = filter (\<lambda>(k, v). (v \<noteq> JNull \<or> k = ''continuation'') \<and> map_of defaults k \<noteq> Some v) b"
  have d: "distinct (map fst a)" "distinct (map fst b)"
    using assms(1) by (auto simp: a_def b_def distinct_filter_fst)
  have "map_of a k = Some v"
    using assms by (auto simp: a_def map_of_filter_distinct dropped_def)
  then have "map_of b k = Some v"
    using assms(4) d(1) by (auto simp: b_def map_of_filter_distinct)
  then have "map_of c k = Some v"
    using assms(3,4) d(2) by (auto simp: c_def map_of_filter_distinct defaults_def)
  moreover have "compact_delivery values =
      (if map_of c ''continuation'' = None then c @ [(''continuation'', JNull)] else c)"
    by (simp only: compact_delivery_def Let_def dropped_def a_def b_def c_def defaults_def)
  ultimately show ?thesis by (simp add: map_add_def)
qed

lemma descriptor_distinct: "distinct (map fst (page_descriptor hx frame m sel p))"
proof -
  have "distinct (map fst delivery_defaults)" by code_simp
  then show ?thesis unfolding page_descriptor_def Let_def by (rule distinct_dict_update)
qed

lemma descriptor_fields:
  "map_of (page_descriptor hx frame m sel p) ''page'' = Some (JInt (pp_number p))"
  "map_of (page_descriptor hx frame m sel p) ''continuation'' = Some
     (if 0 < pp_remaining p then page_continuation hx (vm_view_id m) sel (pp_number p) (pp_number p + 1) (sl_start sel)
      else JNull)"
  "map_of (page_descriptor hx frame m sel p) ''remaining_pages'' = Some (JInt (pp_remaining p))"
  unfolding page_descriptor_def Let_def map_of_dict_update_rev by simp_all

text \<open>What a reader takes from a page: its number, and where its continuation points.\<close>

definition delivery_field :: "frame \<Rightarrow> string \<Rightarrow> json option" where
  "delivery_field frame k = Option.bind (map_of frame ''delivery'') (\<lambda>d. obj_get d k)"

definition page_number :: "frame \<Rightarrow> json" where
  "page_number frame = (case delivery_field frame ''page'' of Some v \<Rightarrow> v | None \<Rightarrow> JNull)"

definition next_page :: "frame \<Rightarrow> (json \<times> json \<times> json) option" where
  "next_page frame = (case delivery_field frame ''continuation'' of
       Some (JObj c) \<Rightarrow> (case (map_of c ''page'', map_of c ''start_page'', map_of c ''max_pages'') of
           (Some p, Some s, Some m) \<Rightarrow> Some (p, s, m) | _ \<Rightarrow> None)
     | _ \<Rightarrow> None)"

text \<open>The pages a reader gets, at most \<open>fuel\<close> of them after the first.\<close>

fun read_on :: "nat \<Rightarrow> (json \<Rightarrow> json \<Rightarrow> json \<Rightarrow> exn + frame) \<Rightarrow> json \<Rightarrow> json \<Rightarrow> json \<Rightarrow> exn + frame list" where
  "read_on fuel ask page start maximum = bind_result (ask page start maximum) (\<lambda>f.
     case next_page f of
       None \<Rightarrow> Inr [f]
     | Some (p, s, m) \<Rightarrow> (case fuel of
           0 \<Rightarrow> Inl RuntimeError
         | Suc n \<Rightarrow> bind_result (read_on n ask p s m) (\<lambda>fs. Inr (f # fs))))"

declare read_on.simps [simp del]

text \<open>The stored pages of a view, addressed as \<open>ResultView.page\<close> addresses them.\<close>

definition ask_stored :: "(string \<Rightarrow> string) \<Rightarrow> view_meta \<Rightarrow> frame list \<Rightarrow> json \<Rightarrow> json \<Rightarrow> json \<Rightarrow> exn + frame" where
  "ask_stored hx m frames page start maximum =
     bind_result (check_selection start maximum) (\<lambda>sel.
     bind_result (resolve_page page JNull) (\<lambda>requested.
       select_page hx (frames ! nat ((if requested = 0 then sl_start sel else requested) - 1)) m page start maximum))"

lemma check_selection_json:
  "1 \<le> sl_start sel \<Longrightarrow> (\<forall>k. sl_max sel = Some k \<longrightarrow> 1 \<le> k) \<Longrightarrow>
   check_selection (JInt (sl_start sel)) (int_json (sl_max sel)) = Inr sel"
  by (cases sel; cases "sl_max sel") (auto simp: check_selection_def)

text \<open>A page within its selection: the descriptor says where it is and where to go on.\<close>

lemma selected_page:
  assumes "vm_layout_version m = LAYOUT_VERSION" "1 \<le> sl_start sel" "\<forall>k. sl_max sel = Some k \<longrightarrow> 1 \<le> k"
    and "sl_start sel \<le> i" "i \<le> selection_end sel (vm_total_pages m)"
  shows "\<exists>f. select_page hx frame m (JInt i) (JInt (sl_start sel)) (int_json (sl_max sel)) = Inr f
    \<and> page_number f = JInt i
    \<and> next_page f = (if i < selection_end sel (vm_total_pages m)
        then Some (JInt (i + 1), JInt (sl_start sel), int_json (sl_max sel)) else None)"
proof -
  define p where "p = page_place_of sel (vm_total_pages m) i"
  have p: "pp_number p = i" "pp_valid p" "pp_remaining p = selection_end sel (vm_total_pages m) - i"
    using assms(2,4,5) by (auto simp: p_def page_place_of_def Let_def)
  define d where "d = compact_delivery (page_descriptor hx frame m sel p)"
  have d: "map_of d ''page'' = Some (JInt i)"
    "map_of d ''continuation'' = Some (if i < selection_end sel (vm_total_pages m)
       then page_continuation hx (vm_view_id m) sel i (i + 1) (sl_start sel) else JNull)"
    unfolding d_def
    by (rule compact_delivery_field[OF descriptor_distinct]; simp add: descriptor_fields p)+
  obtain r where r: "select_page hx frame m (JInt i) (JInt (sl_start sel)) (int_json (sl_max sel))
      = Inr (AList.update ''delivery'' (JObj d) r)"
    using assms(1,2,4) check_selection_json[OF assms(2,3)]
    by (simp add: select_page_def Let_def p_def[symmetric] d_def[symmetric])
  have "page_number (AList.update ''delivery'' (JObj d) r) = JInt i"
    by (simp add: page_number_def delivery_field_def update_conv' obj_get_def d)
  moreover have "next_page (AList.update ''delivery'' (JObj d) r) =
      (if i < selection_end sel (vm_total_pages m)
        then Some (JInt (i + 1), JInt (sl_start sel), int_json (sl_max sel)) else None)"
    by (simp add: next_page_def delivery_field_def update_conv' obj_get_def d page_continuation_def)
  ultimately show ?thesis using r by blast
qed

text \<open>
  C33. A reader who asks for the first page of a selection and follows each continuation gets the
  pages of the selection, each once and in order, and stops: as many steps as there are pages
  selected are enough.
\<close>

theorem continuations_read_the_selection:
  assumes "vm_layout_version m = LAYOUT_VERSION" "1 \<le> sl_start sel" "\<forall>k. sl_max sel = Some k \<longrightarrow> 1 \<le> k"
    and "sl_start sel \<le> i" "i \<le> selection_end sel (vm_total_pages m)"
    and "nat (selection_end sel (vm_total_pages m) - i) \<le> fuel"
  shows "\<exists>fs. read_on fuel (ask_stored hx m frames) (JInt i) (JInt (sl_start sel)) (int_json (sl_max sel)) = Inr fs
    \<and> map page_number fs = map JInt [i .. selection_end sel (vm_total_pages m)]"
  using assms(4-6)
proof (induction fuel arbitrary: i)
  case 0
  obtain f where f: "select_page hx (frames ! nat (i - 1)) m (JInt i) (JInt (sl_start sel)) (int_json (sl_max sel)) = Inr f"
    "page_number f = JInt i" "next_page f = None"
    using selected_page[OF assms(1-3) 0(1,2), of hx "frames ! nat (i - 1)"] 0 by auto
  have "ask_stored hx m frames (JInt i) (JInt (sl_start sel)) (int_json (sl_max sel)) = Inr f"
    using f(1) 0 assms(2) by (auto simp: ask_stored_def check_selection_json[OF assms(2,3)])
  moreover have "i = selection_end sel (vm_total_pages m)" using 0 by simp
  ultimately show ?case using f by (simp add: read_on.simps)
next
  case (Suc n)
  obtain f where f: "select_page hx (frames ! nat (i - 1)) m (JInt i) (JInt (sl_start sel)) (int_json (sl_max sel)) = Inr f"
    "page_number f = JInt i" "next_page f = (if i < selection_end sel (vm_total_pages m)
        then Some (JInt (i + 1), JInt (sl_start sel), int_json (sl_max sel)) else None)"
    using selected_page[OF assms(1-3) Suc.prems(1,2), of hx "frames ! nat (i - 1)"] by auto
  have ask: "ask_stored hx m frames (JInt i) (JInt (sl_start sel)) (int_json (sl_max sel)) = Inr f"
    using f(1) Suc.prems assms(2) by (auto simp: ask_stored_def check_selection_json[OF assms(2,3)])
  show ?case
  proof (cases "i < selection_end sel (vm_total_pages m)")
    case True
    then have "nat (selection_end sel (vm_total_pages m) - (i + 1)) \<le> n" using Suc.prems(3) by simp
    with True obtain fs where "read_on n (ask_stored hx m frames) (JInt (i + 1)) (JInt (sl_start sel)) (int_json (sl_max sel)) = Inr fs"
      "map page_number fs = map JInt [i + 1 .. selection_end sel (vm_total_pages m)]"
      using Suc.IH[of "i + 1"] Suc.prems by auto
    with True f ask show ?thesis by (simp add: upto_rec1 read_on.simps[of "Suc n"])
  next
    case False
    with Suc.prems have "i = selection_end sel (vm_total_pages m)" by simp
    with f ask show ?thesis by (simp add: read_on.simps)
  qed
qed

definition sample_meta :: view_meta where
  "sample_meta = \<lparr>vm_layout_version = 4, vm_view_id = ''v'', vm_unit = ''records'', vm_page_size = 25,
     vm_explicit_field_limit = False, vm_requested_page_size = None, vm_total_items = 60, vm_total_pages = 3,
     vm_source_lines = None, vm_record_field = Some ''items'', vm_has_details = False\<rparr>"

theorem continuations_read_the_selection_witness:
  "\<exists>fs. read_on 5 (ask_stored (\<lambda>t. t) sample_meta [[], [], []]) (JInt 2) (JInt 2) JNull = Inr fs
    \<and> map page_number fs = [JInt 2, JInt 3]"
  using continuations_read_the_selection[of sample_meta "\<lparr>sl_start = 2, sl_max = None\<rparr>" 2 5 "\<lambda>t. t" "[[], [], []]"]
  by (simp add: sample_meta_def LAYOUT_VERSION_def selection_end_def upto_rec1)

end
