(* ===== verification/Json_Reader.thy ===== *)
theory Json_Reader
  imports Json_Codec
begin

text \<open>
  \<open>json.loads\<close> of the standard library, on UTF-8 text: the reader matching the encoder of
  Json_Codec. A text with a floating point number has no value in the type \<open>json\<close>, nor has an
  escape of a lone surrogate, which has no UTF-8 bytes: on both the reader answers None, as it
  does where the library raises \<open>ValueError\<close>. Nesting is bounded by the length of the text
  only (the library raises \<open>RecursionError\<close> for very deep nesting).

  The main fact is that the reader gives back every value whose objects have distinct keys.
\<close>

section \<open>Strings\<close>

fun skip_ws :: "string \<Rightarrow> string" where
  "skip_ws [] = []"
| "skip_ws (c # r) =
     (if c = CHR '' '' \<or> of_char c = (9::nat) \<or> of_char c = (10::nat) \<or> of_char c = (13::nat)
      then skip_ws r else c # r)"

definition hex_value :: "char \<Rightarrow> nat option" where
  "hex_value c = (let n = (of_char c :: nat) in
     if 48 \<le> n \<and> n \<le> 57 then Some (n - 48)
     else if 97 \<le> n \<and> n \<le> 102 then Some (n - 87)
     else if 65 \<le> n \<and> n \<le> 70 then Some (n - 55)
     else None)"

fun read_hex4 :: "string \<Rightarrow> (nat \<times> string) option" where
  "read_hex4 (a # b # c # d # r) =
     (case (hex_value a, hex_value b, hex_value c, hex_value d) of
        (Some w, Some x, Some y, Some z) \<Rightarrow> Some (4096 * w + 256 * x + 16 * y + z, r)
      | _ \<Rightarrow> None)"
| "read_hex4 _ = None"

text \<open>The UTF-8 bytes of a code point that is not a surrogate.\<close>

definition utf8 :: "nat \<Rightarrow> string" where
  "utf8 u =
    (if u < 128 then [byte u]
     else if u < 2048 then [byte (192 + u div 64), byte (128 + u mod 64)]
     else if u < 65536 then
       [byte (224 + u div 4096), byte (128 + u div 64 mod 64), byte (128 + u mod 64)]
     else
       [byte (240 + u div 262144), byte (128 + u div 4096 mod 64),
        byte (128 + u div 64 mod 64), byte (128 + u mod 64)])"

definition unescape :: "char \<Rightarrow> char option" where
  "unescape e =
    (if e = CHR 34 then Some (CHR 34) else if e = CHR 92 then Some (CHR 92)
     else if e = CHR ''/'' then Some (CHR ''/'') else if e = CHR ''b'' then Some (byte 8)
     else if e = CHR ''f'' then Some (byte 12) else if e = CHR ''n'' then Some (byte 10)
     else if e = CHR ''r'' then Some (byte 13) else if e = CHR ''t'' then Some (byte 9)
     else None)"

text \<open>What follows \<open>\u\<close>: a code point, or the two escapes of a surrogate pair.\<close>

definition read_code_point :: "string \<Rightarrow> (nat \<times> string) option" where
  "read_code_point s = (case read_hex4 s of
       None \<Rightarrow> None
     | Some (u, r) \<Rightarrow>
         if u < 55296 \<or> 57343 < u then Some (u, r)
         else if 56319 < u \<or> take 2 r \<noteq> [CHR 92, CHR ''u''] then None
         else (case read_hex4 (drop 2 r) of
             None \<Rightarrow> None
           | Some (w, q) \<Rightarrow>
               if 56320 \<le> w \<and> w \<le> 57343
               then Some (65536 + (u - 55296) * 1024 + (w - 56320), q) else None))"

lemma read_hex4_shorter: "read_hex4 s = Some (u, r) \<Longrightarrow> length r < length s"
  by (induction s rule: read_hex4.induct) (auto split: option.splits)

lemma read_code_point_shorter: "read_code_point s = Some (u, r) \<Longrightarrow> length r < length s"
  by (auto simp: read_code_point_def split: option.splits if_splits dest!: read_hex4_shorter)

text \<open>The text after an opening quote: the string and what follows its closing quote.\<close>

function read_str :: "string \<Rightarrow> (string \<times> string) option" where
  "read_str s = (case s of
       [] \<Rightarrow> None
     | c # r \<Rightarrow>
         if c = CHR 34 then Some ([], r)
         else if c = CHR 92 then
           (case r of
              [] \<Rightarrow> None
            | e # r' \<Rightarrow>
                if e = CHR ''u'' then
                  (case read_code_point r' of
                     None \<Rightarrow> None
                   | Some (u, q) \<Rightarrow> map_option (\<lambda>(t, z). (utf8 u @ t, z)) (read_str q))
                else (case unescape e of
                     None \<Rightarrow> None
                   | Some d \<Rightarrow> map_option (\<lambda>(t, z). (d # t, z)) (read_str r')))
         else if (of_char c :: nat) < 32 then None
         else map_option (\<lambda>(t, z). (c # t, z)) (read_str r))"
  by pat_completeness auto
termination
  by (relation "measure length") (auto dest!: read_code_point_shorter)

declare read_str.simps [simp del]

section \<open>Values\<close>

fun read_int :: "string \<Rightarrow> (nat \<times> string) option" where
  "read_int [] = None"
| "read_int (c # r) =
     (if c = CHR ''0'' then Some (0, r)
      else if ascii_digit c
      then Some (digits_value (c # takeWhile ascii_digit r), dropWhile ascii_digit r)
      else None)"

definition read_number :: "string \<Rightarrow> (json \<times> string) option" where
  "read_number s = (case s of
       CHR ''-'' # r \<Rightarrow> map_option (\<lambda>(n, z). (JInt (- int n), z)) (read_int r)
     | _ \<Rightarrow> map_option (\<lambda>(n, z). (JInt (int n), z)) (read_int s))"

definition read_word :: "string \<Rightarrow> (json \<times> string) option" where
  "read_word s =
    (if take 4 s = ''null'' then Some (JNull, drop 4 s)
     else if take 4 s = ''true'' then Some (JBool True, drop 4 s)
     else if take 5 s = ''false'' then Some (JBool False, drop 5 s)
     else read_number s)"

text \<open>
  The scanner. Each call consumes a character before it calls itself, so the length of the text
  is fuel enough. Objects are the lists of their fields as they are written, repeated names
  included: what \<open>object_pairs_hook\<close> is called with.
\<close>

fun read_value :: "nat \<Rightarrow> string \<Rightarrow> (json \<times> string) option"
  and read_items :: "nat \<Rightarrow> string \<Rightarrow> (json list \<times> string) option"
  and read_fields :: "nat \<Rightarrow> string \<Rightarrow> ((string \<times> json) list \<times> string) option"
where
  "read_value 0 s = None"
| "read_value (Suc n) s = (case s of
       [] \<Rightarrow> None
     | c # r \<Rightarrow>
         if c = CHR 34 then map_option (\<lambda>(t, z). (JStr t, z)) (read_str r)
         else if c = CHR ''['' then
           (if starts_with '']'' (skip_ws r) then Some (JArr [], tl (skip_ws r))
            else map_option (\<lambda>(vs, z). (JArr vs, z)) (read_items n (skip_ws r)))
         else if c = CHR ''{'' then
           (if starts_with ''}'' (skip_ws r) then Some (JObj [], tl (skip_ws r))
            else map_option (\<lambda>(fs, z). (JObj fs, z)) (read_fields n (skip_ws r)))
         else read_word s)"
| "read_items 0 s = None"
| "read_items (Suc n) s = (case read_value n s of
       None \<Rightarrow> None
     | Some (v, t) \<Rightarrow> (case skip_ws t of
           [] \<Rightarrow> None
         | c # q \<Rightarrow>
             if c = CHR '','' then map_option (\<lambda>(vs, z). (v # vs, z)) (read_items n (skip_ws q))
             else if c = CHR '']'' then Some ([v], q) else None))"
| "read_fields 0 s = None"
| "read_fields (Suc n) s =
     (if \<not> starts_with [CHR 34] s then None
      else case read_str (tl s) of
        None \<Rightarrow> None
      | Some (k, p) \<Rightarrow>
          if \<not> starts_with '':'' (skip_ws p) then None
          else (case read_value n (skip_ws (tl (skip_ws p))) of
              None \<Rightarrow> None
            | Some (v, t) \<Rightarrow> (case skip_ws t of
                  [] \<Rightarrow> None
                | c # q \<Rightarrow>
                    if c = CHR '','' then map_option (\<lambda>(fs, z). ((k, v) # fs, z)) (read_fields n (skip_ws q))
                    else if c = CHR ''}'' then Some ([(k, v)], q) else None)))"

definition scan_json :: "string \<Rightarrow> json option" where
  "scan_json s = (case read_value (length s) (skip_ws s) of
       None \<Rightarrow> None
     | Some (v, r) \<Rightarrow> if skip_ws r = [] then Some v else None)"

text \<open>Without a hook a later field of an object replaces an earlier one of the same name.\<close>

fun collapse :: "json \<Rightarrow> json" where
  "collapse (JArr vs) = JArr (map collapse vs)"
| "collapse (JObj fs) = JObj (dict_update [] (map (\<lambda>(k, v). (k, collapse v)) fs))"
| "collapse v = v"

definition loads :: "string \<Rightarrow> json option" where
  "loads s = map_option collapse (scan_json s)"

section \<open>Reading back what the encoder wrote\<close>

lemma hex_value_digit [simp]: "n < 16 \<Longrightarrow> hex_value (hex_digit n) = Some n"
  by (simp add: hex_value_def hex_digit_def Let_def)

lemma utf8_byte: "(of_char c :: nat) < 128 \<Longrightarrow> utf8 (of_char c) = [c]"
  by (simp add: utf8_def byte_def)

lemma read_control:
  assumes "n < 32"
  shows "read_code_point (CHR ''0'' # CHR ''0'' # hex_digit (n div 16) # hex_digit (n mod 16) # r) =
    Some (n, r)"
proof -
  have z: "hex_value (CHR ''0'') = Some 0"
    by (simp add: hex_value_def)
  have "n div 16 < 16" using assms by simp
  then show ?thesis using assms by (simp add: read_code_point_def z)
qed

lemma unescape_short: "short_escape (of_char c) = Some e \<Longrightarrow> unescape e = Some c \<and> e \<noteq> CHR ''u''"
proof -
  assume "short_escape (of_char c) = Some e"
  then have "unescape e = Some (char_of (of_char c :: nat)) \<and> e \<noteq> CHR ''u''"
    by (auto simp: short_escape_def unescape_def byte_def char_of_def bit_0 split: if_splits)
  then show ?thesis by simp
qed

lemma read_str_char: "read_str (esc_char c @ r) = map_option (\<lambda>(t, z). (c # t, z)) (read_str r)"
proof (cases "short_escape (of_char c)")
  case (Some e)
  then show ?thesis
    by (subst read_str.simps) (simp add: esc_char_cases unescape_short)
next
  case None
  note n = this
  show ?thesis
  proof (cases "(of_char c :: nat) < 32")
    case True
    with n show ?thesis
      by (subst read_str.simps) (simp add: esc_char_cases read_control utf8_byte)
  next
    case False
    from n have "c \<noteq> CHR 34" "c \<noteq> CHR 92"
      by (auto simp: short_escape_def split: if_splits)
    with n False show ?thesis
      by (subst read_str.simps) (simp add: esc_char_cases)
  qed
qed

lemma read_str_esc: "read_str (esc_str s @ CHR 34 # r) = Some (s, r)"
proof (induction s)
  case Nil
  then show ?case by (subst read_str.simps) simp
qed (simp add: read_str_char)

lemma takeWhile_digits:
  "list_all ascii_digit s \<Longrightarrow> no_digit r \<Longrightarrow> takeWhile ascii_digit (s @ r) = s"
  "list_all ascii_digit s \<Longrightarrow> no_digit r \<Longrightarrow> dropWhile ascii_digit (s @ r) = r"
  by (induction s; cases r; auto simp: no_digit_def)+

lemma nat_str_head_zero: "nat_str n = CHR ''0'' # r \<Longrightarrow> n = 0 \<and> r = []"
proof (induction n arbitrary: r rule: nat_str.induct)
  case (1 n)
  show ?case
  proof (cases "n < 10")
    case True
    with "1.prems" have "n = digit_value (CHR ''0'')" "r = []"
      by (metis digit_value_char list.inject nat_str.simps)+
    then show ?thesis by (simp add: digit_value_def)
  next
    case False
    obtain c q where q: "nat_str (n div 10) = c # q"
      by (cases "nat_str (n div 10)") auto
    moreover from False "1.prems" have "nat_str (n div 10) @ [digit_char (n mod 10)] = CHR ''0'' # r"
      by (metis nat_str.simps)
    ultimately have "n div 10 = 0" using "1.IH"[OF False, of q] by simp
    with False show ?thesis by simp
  qed
qed

lemma read_int_nat_str:
  assumes "no_digit r"
  shows "read_int (nat_str n @ r) = Some (n, r)"
proof -
  obtain c q where q: "nat_str n = c # q" by (cases "nat_str n") auto
  show ?thesis
  proof (cases "c = CHR ''0''")
    case True
    with q show ?thesis using nat_str_head_zero[of n q] by simp
  next
    case False
    have d: "ascii_digit c" "list_all ascii_digit q"
      using nat_str_digits[of n] q by auto
    with False assms q show ?thesis
      using digits_value_nat_str[of n] by (simp add: takeWhile_digits)
  qed
qed

lemma read_number_int:
  assumes "no_digit r"
  shows "read_number (int_str i @ r) = Some (JInt i, r)"
proof (cases "i < 0")
  case True
  with assms show ?thesis by (simp add: read_number_def int_str_def read_int_nat_str)
next
  case False
  obtain c q where q: "nat_str (nat i) = c # q" by (cases "nat_str (nat i)") auto
  with nat_str_digits[of "nat i"] have "c \<noteq> CHR ''-''" by (auto simp: ascii_digit_def)
  then have "read_number (c # q @ r) = map_option (\<lambda>(n, z). (JInt (int n), z)) (read_int (c # q @ r))"
    by (auto simp: read_number_def split: char.splits bool.splits)
  with False assms q show ?thesis
    using read_int_nat_str[OF assms, of "nat i"] by (simp add: int_str_def)
qed

definition compact_head :: "char \<Rightarrow> bool" where
  "compact_head c \<longleftrightarrow> c \<in> set [CHR ''n'', CHR ''t'', CHR ''f'', CHR 34, CHR ''['', CHR ''{'', CHR ''-''] \<or> ascii_digit c"

lemma dumps_head: "\<exists>c r. dumps v = c # r \<and> compact_head c"
proof (cases v)
  case (JInt i)
  with int_str_head[of i] show ?thesis by (auto simp: compact_head_def)
qed (auto simp: compact_head_def str_json_def)

lemma ascii_digit_plain:
  "ascii_digit c \<Longrightarrow> c \<noteq> CHR '' '' \<and> (of_char c :: nat) \<noteq> 9 \<and> (of_char c :: nat) \<noteq> 10 \<and> (of_char c :: nat) \<noteq> 13
     \<and> c \<noteq> CHR 34 \<and> c \<noteq> CHR ''['' \<and> c \<noteq> CHR ''{'' \<and> c \<noteq> CHR '']'' \<and> c \<noteq> CHR ''n'' \<and> c \<noteq> CHR ''t'' \<and> c \<noteq> CHR ''f''"
  by (auto simp: ascii_digit_def Let_def)

lemma skip_compact: "compact_head c \<Longrightarrow> skip_ws (c # r) = c # r"
  using ascii_digit_plain[of c] by (auto simp: compact_head_def)

lemma skip_dumps: "skip_ws (dumps v @ r) = dumps v @ r"
  using dumps_head[of v] skip_compact by fastforce

lemma compact_not_bracket: "compact_head c \<Longrightarrow> c \<noteq> CHR '']''"
  using ascii_digit_plain[of c] by (auto simp: compact_head_def)

lemma skip_str: "skip_ws (str_json k @ r) = str_json k @ r"
  by (simp add: str_json_def)

lemma read_word_number:
  "c \<noteq> CHR ''n'' \<Longrightarrow> c \<noteq> CHR ''t'' \<Longrightarrow> c \<noteq> CHR ''f'' \<Longrightarrow> read_word (c # s) = read_number (c # s)"
  by (simp add: read_word_def)

lemma read_value_word:
  "c \<noteq> CHR 34 \<Longrightarrow> c \<noteq> CHR ''['' \<Longrightarrow> c \<noteq> CHR ''{'' \<Longrightarrow> read_value (Suc n) (c # s) = read_word (c # s)"
  by simp

lemma read_value_int:
  assumes "no_digit r"
  shows "read_value (Suc n) (int_str i @ r) = Some (JInt i, r)"
proof -
  obtain c q where i: "int_str i = c # q" "ascii_digit c \<or> c = CHR ''-''"
    using int_str_head by blast
  from i(2) have "c \<noteq> CHR ''n''" "c \<noteq> CHR ''t''" "c \<noteq> CHR ''f''" "c \<noteq> CHR 34" "c \<noteq> CHR ''[''" "c \<noteq> CHR ''{''"
    using ascii_digit_plain[of c] by auto
  then have "read_value (Suc n) (c # q @ r) = read_number (c # q @ r)"
    by (simp only: read_value_word read_word_number not_False_eq_True)
  with i(1) have "read_value (Suc n) (int_str i @ r) = read_number (int_str i @ r)"
    by simp
  with read_number_int[OF assms] show ?thesis by simp
qed

lemma items_tail:
  "read_items n q = Some (us, x) \<Longrightarrow> q \<noteq> [] \<Longrightarrow> hd q \<noteq> CHR '']'' \<Longrightarrow> skip_ws q = q \<Longrightarrow>
   read_value (Suc n) (CHR ''['' # q) = Some (JArr us, x)"
  by (cases q) auto

lemma fields_tail:
  "read_fields n q = Some (us, x) \<Longrightarrow> q \<noteq> [] \<Longrightarrow> hd q = CHR 34 \<Longrightarrow>
   read_value (Suc n) (CHR ''{'' # q) = Some (JObj us, x)"
  by (cases q) auto

lemma dict_update_distinct: "distinct (map fst (d @ ws)) \<Longrightarrow> dict_update d ws = d @ ws"
proof (induction ws arbitrary: d)
  case (Cons w ws)
  obtain k v where w: "w = (k, v)" by (cases w)
  have "AList.update k v d = d @ [(k, v)]" if "k \<notin> fst ` set d" for d :: "('a \<times> 'b) list"
    using that by (induction d) auto
  with Cons w show ?case by simp
qed simp

text \<open>Any text of a value, followed by a text that continues no number, is read as that value.\<close>

lemma read_dumps:
  "\<lbrakk>distinct_keys v; no_digit r; length (dumps v) \<le> n\<rbrakk> \<Longrightarrow> read_value n (dumps v @ r) = Some (v, r)"
  "\<lbrakk>list_all distinct_keys vs; vs \<noteq> []; length (dumps_items vs) < m\<rbrakk> \<Longrightarrow>
     read_items m (dumps_items vs @ CHR '']'' # q) = Some (vs, q)"
  "\<lbrakk>list_all distinct_keys (map snd fs); fs \<noteq> []; length (dumps_fields fs) < l\<rbrakk> \<Longrightarrow>
     read_fields l (dumps_fields fs @ CHR ''}'' # p) = Some (fs, p)"
proof (induction v and vs and fs arbitrary: r n and q m and p l
    rule: dumps_dumps_items_dumps_fields.induct)
  case 1
  then show ?case by (cases n) (auto simp: read_word_def)
next
  case (2 b)
  then show ?case by (cases n; cases b) (auto simp: read_word_def)
next
  case (3 i)
  moreover have "int_str i \<noteq> []" using int_str_head[of i] by auto
  ultimately show ?case by (cases n) (auto simp: read_value_int simp del: read_value.simps)
next
  case (4 s)
  then show ?case by (cases n) (auto simp: str_json_def read_str_esc)
next
  case (5 xs)
  from "5.prems" obtain k where n: "n = Suc k" by (cases n) auto
  show ?case
  proof (cases xs)
    case Nil
    with n show ?thesis by simp
  next
    case (Cons x ys)
    let ?q = "dumps_items xs @ CHR '']'' # r"
    obtain c t where c: "dumps x = c # t" "compact_head c" using dumps_head by blast
    have "read_items k ?q = Some (xs, r)"
      by (rule "5.IH") (use "5.prems" n Cons in auto)
    moreover have "?q \<noteq> []" "hd ?q \<noteq> CHR '']''" "skip_ws ?q = ?q"
      using Cons c skip_compact[OF c(2)] compact_not_bracket[OF c(2)] by auto
    ultimately show ?thesis
      using n items_tail[of k ?q xs r] by simp
  qed
next
  case (6 kvs)
  from "6.prems" obtain k where n: "n = Suc k" by (cases n) auto
  show ?case
  proof (cases kvs)
    case Nil
    with n show ?thesis by simp
  next
    case (Cons x ys)
    let ?q = "dumps_fields kvs @ CHR ''}'' # r"
    have "read_fields k ?q = Some (kvs, r)"
      by (rule "6.IH") (use "6.prems" n Cons in auto)
    moreover have "?q \<noteq> []" "hd ?q = CHR 34"
      using Cons by (auto simp: str_json_def)
    ultimately have "read_value (Suc k) (CHR ''{'' # ?q) = Some (JObj kvs, r)"
      by (rule fields_tail)
    then show ?thesis using n by simp
  qed
next
  case 7
  then show ?case by simp
next
  case (8 v vs)
  let ?t = "(if vs = [] then [] else CHR '','' # dumps_items vs) @ CHR '']'' # q"
  from "8.prems" obtain k where m: "m = Suc k" by (cases m) auto
  have nd: "no_digit ?t" by (cases vs) auto
  have v: "read_value k (dumps v @ ?t) = Some (v, ?t)"
    by (rule "8.IH"(1)) (use "8.prems" m nd in auto)
  show ?case
  proof (cases "vs = []")
    case True
    with v m show ?thesis by simp
  next
    case False
    have len: "0 < length (dumps v)" using dumps_tag[of v] by simp
    have rest: "read_items k (dumps_items vs @ CHR '']'' # q) = Some (vs, q)"
      by (rule "8.IH"(2)) (use "8.prems" m False len in auto)
    have "skip_ws (dumps_items vs @ CHR '']'' # q) = dumps_items vs @ CHR '']'' # q"
      using False by (cases vs) (auto simp: skip_dumps)
    with v rest m False show ?thesis by simp
  qed
next
  case 9
  then show ?case by simp
next
  case (10 f fs)
  let ?t = "(if fs = [] then [] else CHR '','' # dumps_fields fs) @ CHR ''}'' # p"
  from "10.prems" obtain k where l: "l = Suc k" by (cases l) auto
  have nd: "no_digit ?t" by (cases fs) auto
  have v: "read_value k (dumps (snd f) @ ?t) = Some (snd f, ?t)"
    by (rule "10.IH"(1)) (use "10.prems" l nd in auto)
  show ?case
  proof (cases "fs = []")
    case True
    with v l skip_dumps[of "snd f"] show ?thesis
      by (simp add: str_json_def read_str_esc prod_eq_iff)
  next
    case False
    have rest: "read_fields k (dumps_fields fs @ CHR ''}'' # p) = Some (fs, p)"
      by (rule "10.IH"(2)) (use "10.prems" l False in auto)
    have "skip_ws (dumps_fields fs @ CHR ''}'' # p) = dumps_fields fs @ CHR ''}'' # p"
      using False by (cases fs) (auto simp: str_json_def)
    with v rest l False skip_dumps[of "snd f"] show ?thesis
      by (simp add: str_json_def read_str_esc prod_eq_iff)
  qed
qed

lemma collapse_distinct: "distinct_keys v \<Longrightarrow> collapse v = v"
proof (induction v rule: collapse.induct)
  case (1 vs)
  then show ?case by (auto simp: list_all_iff intro: map_idI)
next
  case (2 fs)
  have "map (\<lambda>(k, v). (k, collapse v)) fs = fs"
    by (rule map_idI) (use 2 in \<open>auto simp: list_all_iff image_iff\<close>)
  with 2 show ?case using dict_update_distinct[of "[]" fs] by simp
qed simp_all

text \<open>A text of a value, with white space after it, is scanned as that value.\<close>

lemma scan_dumps:
  assumes "distinct_keys v" "skip_ws w = []" "no_digit w"
  shows "scan_json (dumps v @ w) = Some v"
  using read_dumps(1)[OF assms(1,3), of "length (dumps v @ w)"] skip_dumps[of v w] assms(2)
  by (simp add: scan_json_def)

lemma loads_dumps_text: "distinct_keys v \<Longrightarrow> loads (dumps v) = Some v"
  using scan_dumps[of v "[]"] collapse_distinct[of v] by (simp add: loads_def)

end
