(* ===== verification/Result_Cursor.thy ===== *)
theory Result_Cursor
  imports Json_Reader
begin

text \<open>
  \<open>_command_interface/result_cursor.py\<close>: continuation tokens that carry the coordinates of a
  page, bound by a keyed digest to one result and to the credential of one session. The
  URL-safe base64 of the standard library is written out; \<open>sha\<close> stands for
  \<open>hashlib.sha256(...).digest()\<close> and \<open>mac\<close> for \<open>hmac.new(key, message, sha256).digest()\<close>, of
  which the model relies on the length of the digest only.
\<close>

section \<open>Base64\<close>

definition b64_char :: "nat \<Rightarrow> char" where
  "b64_char n = char_of
    (if n < 26 then 65 + n else if n < 52 then 71 + n else if n < 62 then n - 4
     else if n = 62 then 45 else 95)"

text \<open>With \<open>altchars=b'-_'\<close> the two characters are translated; the plain ones stay accepted.\<close>

definition b64_value :: "char \<Rightarrow> nat option" where
  "b64_value c = (let n = (of_char c :: nat) in
     if 65 \<le> n \<and> n \<le> 90 then Some (n - 65)
     else if 97 \<le> n \<and> n \<le> 122 then Some (n - 71)
     else if 48 \<le> n \<and> n \<le> 57 then Some (n + 4)
     else if n = 45 \<or> n = 43 then Some 62
     else if n = 95 \<or> n = 47 then Some 63
     else None)"

definition three_bytes :: "char \<Rightarrow> char \<Rightarrow> char \<Rightarrow> nat" where
  "three_bytes a b c = 65536 * of_char a + 256 * of_char b + of_char c"

definition sextet :: "nat \<Rightarrow> nat \<Rightarrow> char" where
  "sextet n i = b64_char (n div 64 ^ i mod 64)"

fun urlsafe_b64encode :: "string \<Rightarrow> string" where
  "urlsafe_b64encode [] = []"
| "urlsafe_b64encode [a] = (let n = three_bytes a (byte 0) (byte 0) in
     [sextet n 3, sextet n 2, CHR ''='', CHR ''=''])"
| "urlsafe_b64encode [a, b] = (let n = three_bytes a b (byte 0) in
     [sextet n 3, sextet n 2, sextet n 1, CHR ''=''])"
| "urlsafe_b64encode (a # b # c # r) = (let n = three_bytes a b c in
     [sextet n 3, sextet n 2, sextet n 1, sextet n 0] @ urlsafe_b64encode r)"

fun b64_values :: "char list \<Rightarrow> nat option" where
  "b64_values [] = Some 0"
| "b64_values (c # cs) = (case (b64_value c, b64_values cs) of
     (Some v, Some n) \<Rightarrow> Some (v * 64 ^ length cs + n) | _ \<Rightarrow> None)"

definition octet :: "nat \<Rightarrow> nat \<Rightarrow> char" where
  "octet n i = byte (n div 256 ^ i mod 256)"

text \<open>\<open>base64.b64decode(text, altchars=b'-_', validate=True)\<close>; None where it raises.\<close>

fun b64decode :: "string \<Rightarrow> string option" where
  "b64decode [] = Some []"
| "b64decode (w # x # y # z # r) =
     (if r = [] \<and> y = CHR ''='' \<and> z = CHR ''='' then
        map_option (\<lambda>n. [octet (n * 4096) 2]) (b64_values [w, x])
      else if r = [] \<and> z = CHR ''='' then
        map_option (\<lambda>n. [octet (n * 64) 2, octet (n * 64) 1]) (b64_values [w, x, y])
      else (case (b64_values [w, x, y, z], b64decode r) of
          (Some n, Some rest) \<Rightarrow> Some ([octet n 2, octet n 1, octet n 0] @ rest)
        | _ \<Rightarrow> None))"
| "b64decode _ = None"

text \<open>\<open>text.rstrip('=')\<close>.\<close>

definition rstrip_pad :: "string \<Rightarrow> string" where
  "rstrip_pad s = rev (dropWhile (\<lambda>c. c = CHR ''='') (rev s))"

text \<open>\<open>encoded + '=' * (-len(encoded) % 4)\<close>.\<close>

definition repad :: "string \<Rightarrow> string" where
  "repad s = s @ replicate ((4 - length s mod 4) mod 4) (CHR ''='')"

lemma b64_char_value: "n < 64 \<Longrightarrow> b64_value (b64_char n) = Some n"
  by (auto simp: b64_value_def b64_char_def Let_def)

lemma b64_char_alphabet:
  "n < 64 \<Longrightarrow> b64_char n \<noteq> CHR ''=''"
  by (auto simp: b64_value_def dest: b64_char_value)

lemma sextet_value [simp]: "b64_value (sextet n i) = Some (n div 64 ^ i mod 64)"
  by (simp add: sextet_def b64_char_value)

lemma sextet_pad [simp]: "sextet n i \<noteq> CHR ''=''"
  by (simp add: sextet_def b64_char_alphabet)

lemma base_digits:
  "(n :: nat) < b * b * b * b \<Longrightarrow> 0 < b \<Longrightarrow>
   n div (b * b * b) mod b * (b * b * b) + (n div (b * b) mod b * (b * b) + (n div b mod b * b + n mod b)) = n"
proof -
  assume n: "n < b * b * b * b" "0 < b"
  have q: "n div (b * b * b) < b" using n by (simp add: less_mult_imp_div_less mult.commute)
  have "n div b mod b * b + n mod b = n mod (b * b)"
    by (metis add.commute mod_mult2_eq mult.commute)
  moreover have "n div (b * b) mod b * (b * b) + n mod (b * b) = n mod (b * b * b)"
    by (metis add.commute mod_mult2_eq mult.commute)
  ultimately show ?thesis using q by (metis add.assoc div_mult_mod_eq mod_less)
qed

lemma b64_values_sextets:
  assumes "n < 64 * 64 * 64 * 64"
  shows "b64_values [sextet n 3, sextet n 2, sextet n 1, sextet n 0] = Some n"
    "b64_values [sextet n 3, sextet n 2, sextet n 1] = Some (n div 64)"
    "b64_values [sextet n 3, sextet n 2] = Some (n div 64 div 64)"
proof -
  note d = base_digits[OF assms, simplified]
  have "n div 262144 < 64" using assms by simp
  then have d': "n div 262144 * 262144 + (n div 4096 mod 64 * 4096 + (n div 64 mod 64 * 64 + n mod 64)) = n"
    using d by simp
  have e: "n div 262144 mod 64 * 4096 + (n div 4096 mod 64 * 64 + n div 64 mod 64) = n div 64"
    using d div_mult_mod_eq[of n 64] by linarith
  have "n div 262144 mod 64 * 64 + n div 4096 mod 64 = n div 64 div 64"
    using e div_mult_mod_eq[of "n div 64" 64] by linarith
  moreover have "n div 64 div 64 = n div 4096"
    by (simp add: div_mult2_eq[symmetric])
  ultimately have f: "n div 262144 mod 64 * 64 + n div 4096 mod 64 = n div 4096"
    by (simp only:)
  have e': "n div 262144 * 4096 + (n div 4096 mod 64 * 64 + n div 64 mod 64) = n div 64"
    "n div 262144 * 64 + n div 4096 mod 64 = n div 4096"
    using e f mod_less[OF \<open>n div 262144 < 64\<close>] by (simp_all only:)
  show "b64_values [sextet n 3, sextet n 2, sextet n 1, sextet n 0] = Some n"
    using d d' by simp
  show "b64_values [sextet n 3, sextet n 2, sextet n 1] = Some (n div 64)"
    using e e' by simp
  show "b64_values [sextet n 3, sextet n 2] = Some (n div 64 div 64)"
    using f e' by (simp add: div_mult2_eq[symmetric])
qed

lemma byte_digits:
  fixes x y z :: nat
  assumes "x < 256" "y < 256" "z < 256"
  shows "(65536 * x + 256 * y + z) mod 256 = z" "(65536 * x + 256 * y + z) div 256 mod 256 = y"
    "(65536 * x + 256 * y + z) div 65536 mod 256 = x"
proof -
  have n: "65536 * x + 256 * y + z = (256 * x + y) * 256 + z" by simp
  have q: "((256 * x + y) * 256 + z) div 256 = 256 * x + y"
    using assms(3) div_mult_self3[of 256 "256 * x + y" z] by simp
  then show "(65536 * x + 256 * y + z) div 256 mod 256 = y"
    using assms(2) by (simp only: n q) simp
  show "(65536 * x + 256 * y + z) mod 256 = z"
    using assms(3) unfolding n by (simp only: mod_mult_self3) simp
  have "(65536 * x + 256 * y + z) div 65536 = (65536 * x + 256 * y + z) div 256 div 256"
    by (simp add: div_mult2_eq[symmetric])
  also have "\<dots> = (256 * x + y) div 256" unfolding n q ..
  also have "\<dots> = x" using assms(2) by simp
  finally show "(65536 * x + 256 * y + z) div 65536 mod 256 = x"
    using assms(1) by simp
qed

lemma octets [simp]:
  "octet (three_bytes a b c) 2 = a" "octet (three_bytes a b c) (Suc 0) = b" "octet (three_bytes a b c) 0 = c"
  using byte_digits[of "of_char a" "of_char b" "of_char c"]
  by (simp_all add: octet_def byte_def three_bytes_def)

lemma three_bytes_bound: "three_bytes a b c < 64 * 64 * 64 * 64"
proof -
  have "of_char x < (256 :: nat)" for x
    by simp
  from this[of a] this[of b] this[of c] show ?thesis unfolding three_bytes_def by linarith
qed

lemma sextet_low_zero:
  "sextet (three_bytes a (byte 0) (byte 0)) 1 = sextet 0 0"
  "sextet (three_bytes a (byte 0) (byte 0)) 0 = sextet 0 0"
  "sextet (three_bytes a b (byte 0)) 0 = sextet 0 0"
  by (simp_all add: sextet_def three_bytes_def byte_def)

lemma dropped_sextets:
  "three_bytes a (byte 0) (byte 0) div 64 div 64 * 4096 = three_bytes a (byte 0) (byte 0)"
  "three_bytes a b (byte 0) div 64 * 64 = three_bytes a b (byte 0)"
  by (simp_all add: three_bytes_def byte_def)

lemma b64decode_encode: "b64decode (urlsafe_b64encode s) = Some s"
proof (induction s rule: urlsafe_b64encode.induct)
  case (2 a)
  show ?case
    using b64_values_sextets(3)[OF three_bytes_bound[of a "byte 0" "byte 0"]]
    by (simp add: Let_def dropped_sextets del: b64_values.simps)
next
  case (3 a b)
  show ?case
    using b64_values_sextets(2)[OF three_bytes_bound[of a b "byte 0"]]
    by (simp add: Let_def dropped_sextets del: b64_values.simps)
next
  case (4 a b c r)
  then show ?case
    using b64_values_sextets(1)[OF three_bytes_bound[of a b c]]
    by (simp add: Let_def del: b64_values.simps)
qed simp

lemma rstrip_pad_append: "c \<noteq> CHR ''='' \<Longrightarrow> rstrip_pad (xs @ c # t) = xs @ c # rstrip_pad t"
  by (auto simp: rstrip_pad_def dropWhile_append)

lemma rstrip_pad_Cons: "c \<noteq> CHR ''='' \<Longrightarrow> rstrip_pad (c # t) = c # rstrip_pad t"
  using rstrip_pad_append[of c "[]" t] by simp

lemma rstrip_pad_pads [simp]: "rstrip_pad [] = []" "rstrip_pad ''='' = []" "rstrip_pad ''=='' = []"
  by (simp_all add: rstrip_pad_def)

lemma repad_group: "repad (w # x # y # z # r) = w # x # y # z # repad r"
  by (simp add: repad_def)

lemma repad_rstrip: "repad (rstrip_pad (urlsafe_b64encode s)) = urlsafe_b64encode s"
  by (induction s rule: urlsafe_b64encode.induct)
    (simp_all add: Let_def rstrip_pad_Cons repad_group, simp_all add: repad_def numeral_2_eq_2)

section \<open>Cursors\<close>

definition cursor_fields :: "string list" where
  "cursor_fields = [''view_id'', ''page'', ''origin_page'', ''start_page'', ''max_pages'',
     ''page_size'', ''page_unit'', ''detail'']"

text \<open>\<open>ResultCursor.__init__\<close>: the key of a session; \<open>_mac\<close>: the tag of a payload for a result.\<close>

definition cursor_key :: "(string \<Rightarrow> string) \<Rightarrow> string \<Rightarrow> string" where
  "cursor_key sha credential = sha (''brain-result-cursor-v1'' @ byte 0 # credential)"

definition cursor_mac :: "(string \<Rightarrow> string \<Rightarrow> string) \<Rightarrow> string \<Rightarrow> string \<Rightarrow> string \<Rightarrow> string" where
  "cursor_mac mac key result_id payload = take 16 (mac key (result_id @ byte 0 # payload))"

definition field_mask :: "(string \<times> json) list \<Rightarrow> nat" where
  "field_mask coordinates =
     (\<Sum>(i, f)\<leftarrow>enumerate 0 cursor_fields. if map_of coordinates f \<noteq> None then 2 ^ i else 0)"

definition cursor_payload :: "(string \<times> json) list \<Rightarrow> json" where
  "cursor_payload coordinates =
     JArr [JInt (int (field_mask coordinates)),
           JArr (List.map_filter (map_of coordinates) cursor_fields)]"

definition cursor_text :: "(string \<Rightarrow> string \<Rightarrow> string) \<Rightarrow> string \<Rightarrow> string \<Rightarrow> string \<Rightarrow> string" where
  "cursor_text mac key result_id payload =
     ''t1_'' @ rstrip_pad (urlsafe_b64encode (cursor_mac mac key result_id payload @ payload))"

definition cursor_encode ::
  "(string \<Rightarrow> string \<Rightarrow> string) \<Rightarrow> string \<Rightarrow> string \<Rightarrow> (string \<times> json) list \<Rightarrow> exn + string"
where
  "cursor_encode mac key result_id coordinates =
     (if map_of coordinates ''result_id'' \<noteq> Some (JStr result_id)
        \<or> \<not> set (map fst coordinates) \<subseteq> set (''result_id'' # ''selection_id'' # cursor_fields)
      then Inl ValueError
      else Inr (cursor_text mac key result_id (dumps (cursor_payload coordinates))))"

text \<open>\<open>re.fullmatch(r't1_[A-Za-z0-9_-]{24,4096}', token)\<close>.\<close>

definition token_char :: "char \<Rightarrow> bool" where
  "token_char c \<longleftrightarrow> b64_value c \<noteq> None \<and> c \<noteq> CHR ''+'' \<and> c \<noteq> CHR ''/''"

definition token_shape :: "string \<Rightarrow> bool" where
  "token_shape t \<longleftrightarrow> take 3 t = ''t1_'' \<and> 24 \<le> length (drop 3 t) \<and> length (drop 3 t) \<le> 4096
     \<and> list_all token_char (drop 3 t)"

text \<open>
  The shape of the payload: \<open>mask, values = json.loads(payload)\<close> raises for every value that
  is not a pair, and the checks refuse every pair whose parts are not a mask and a list.
\<close>

definition masked_fields :: "nat \<Rightarrow> (nat \<times> string) list" where
  "masked_fields m = filter (\<lambda>(i, f). odd (m div 2 ^ i)) (enumerate 0 cursor_fields)"

fun cursor_values :: "json \<Rightarrow> (string \<times> json) list option" where
  "cursor_values (JArr [JInt m, JArr vs]) =
     (if 0 < m \<and> m < 2 ^ length cursor_fields \<and> length vs = length (masked_fields (nat m))
      then Some (zip (map snd (masked_fields (nat m))) vs) else None)"
| "cursor_values _ = None"

text \<open>The token is a string or None; None is the absence of a continuation.\<close>

fun cursor_decode ::
  "(string \<Rightarrow> string \<Rightarrow> string) \<Rightarrow> string \<Rightarrow> string \<Rightarrow> json \<Rightarrow> exn + (string \<times> json) list"
where
  "cursor_decode mac key result_id JNull = Inr []"
| "cursor_decode mac key result_id (JStr token) =
     (if \<not> token_shape token then Inl ValueError
      else case b64decode (repad (drop 3 token)) of
        None \<Rightarrow> Inl ValueError
      | Some blob \<Rightarrow>
          if rstrip_pad (urlsafe_b64encode blob) \<noteq> drop 3 token
             \<or> take 16 blob \<noteq> cursor_mac mac key result_id (drop 16 blob)
          then Inl ValueError
          else (case Option.bind (loads (drop 16 blob)) cursor_values of
              None \<Rightarrow> Inl ValueError
            | Some fields \<Rightarrow> Inr ((''result_id'', JStr result_id) # fields)))"
| "cursor_decode mac key result_id _ = Inl ValueError"

section \<open>What a token says\<close>

lemma field_mask_bits:
  "field_mask c = horner_sum of_bool 2 (map (\<lambda>f. map_of c f \<noteq> None) cursor_fields)"
  by (simp add: field_mask_def cursor_fields_def of_bool_def del: not_None_eq)

lemma field_mask_bit:
  assumes "i < length cursor_fields"
  shows "even (field_mask c div 2 ^ i) \<longleftrightarrow> map_of c (cursor_fields ! i) = None"
proof -
  have "bit (field_mask c) i \<longleftrightarrow> map_of c (cursor_fields ! i) \<noteq> None"
    using assms by (simp add: field_mask_bits bit_horner_sum_bit_iff)
  then show ?thesis by (simp add: bit_iff_odd del: not_None_eq)
qed

lemma masked_fields_mask:
  "map snd (masked_fields (field_mask c)) = filter (\<lambda>f. map_of c f \<noteq> None) cursor_fields"
proof -
  have "masked_fields (field_mask c) = filter (\<lambda>(i, f). map_of c f \<noteq> None) (enumerate 0 cursor_fields)"
    unfolding masked_fields_def
    by (rule filter_cong[OF refl]) (auto simp: in_set_enumerate_eq field_mask_bit simp del: not_None_eq)
  also have "map snd \<dots> = filter (\<lambda>f. map_of c f \<noteq> None) (map snd (enumerate 0 cursor_fields))"
    by (simp only: filter_map comp_def case_prod_unfold)
  finally show ?thesis by simp
qed

lemma zip_present:
  "zip (filter (\<lambda>f. g f \<noteq> None) fs) (List.map_filter g fs) = map (\<lambda>f. (f, the (g f))) (filter (\<lambda>f. g f \<noteq> None) fs)"
  "length (List.map_filter g fs) = length (filter (\<lambda>f. g f \<noteq> None) fs)"
  by (induction fs) (auto simp: map_filter_simps split: option.splits)

lemma cursor_values_payload:
  assumes "f \<in> set cursor_fields" "map_of c f \<noteq> None"
  shows "cursor_values (cursor_payload c) =
    Some (map (\<lambda>f. (f, the (map_of c f))) (filter (\<lambda>f. map_of c f \<noteq> None) cursor_fields))"
proof -
  have "field_mask c < 2 ^ length cursor_fields"
    by (simp add: field_mask_bits horner_sum_of_bool_2_less[of "map (\<lambda>f. map_of c f \<noteq> None) cursor_fields", simplified])
  then have lt: "int (field_mask c) < 2 ^ length cursor_fields"
    by (metis of_nat_less_iff of_nat_numeral of_nat_power)
  obtain i where "i < length cursor_fields" "cursor_fields ! i = f"
    using assms(1) by (auto simp: in_set_conv_nth)
  with assms(2) have "odd (field_mask c div 2 ^ i)" using field_mask_bit by simp
  then have "0 < field_mask c" by (cases "field_mask c = 0") auto
  moreover have "length (masked_fields (field_mask c)) = length (filter (\<lambda>f. map_of c f \<noteq> None) cursor_fields)"
    by (metis length_map masked_fields_mask)
  ultimately show ?thesis
    using lt by (simp add: cursor_payload_def masked_fields_mask zip_present del: not_None_eq)
qed

lemma map_of_present:
  "map_of (map (\<lambda>f. (f, the (g f))) (filter (\<lambda>f. g f \<noteq> None) fs)) f = (if f \<in> set fs then g f else None)"
  by (induction fs) auto

lemma distinct_payload:
  assumes "\<And>f v. map_of c f = Some v \<Longrightarrow> distinct_keys v"
  shows "distinct_keys (cursor_payload c)"
  using assms by (auto simp: cursor_payload_def list_all_iff List.map_filter_def)

lemma encoded_token_chars: "list_all token_char (rstrip_pad (urlsafe_b64encode s))"
proof -
  have b: "token_char (b64_char n)" if "n < 64" for n
  proof -
    have plain: "b64_value (CHR ''+'') = Some 62" "b64_value (CHR ''/'') = Some 63"
      "b64_char 62 \<noteq> CHR ''+''" "b64_char 63 \<noteq> CHR ''/''"
      by (auto simp: b64_value_def b64_char_def char_of_def)
    with b64_char_value[OF that] show ?thesis by (auto simp: token_char_def)
  qed
  then have "token_char (sextet n i)" for n i
    by (simp add: sextet_def)
  then show ?thesis
    by (induction s rule: urlsafe_b64encode.induct) (auto simp: Let_def rstrip_pad_Cons)
qed

lemma encoded_length: "4 * length s \<le> 3 * length (rstrip_pad (urlsafe_b64encode s))"
  by (induction s rule: urlsafe_b64encode.induct) (auto simp: Let_def rstrip_pad_Cons)

lemma token_blob:
  "b64decode (repad (rstrip_pad (urlsafe_b64encode s))) = Some s"
  by (simp add: repad_rstrip b64decode_encode)


lemma cursor_mac_length:
  "(\<And>k m. length (mac k m) = 32) \<Longrightarrow> length (cursor_mac mac key rid p) = 16"
  by (simp add: cursor_mac_def)

lemma cursor_text_shape:
  assumes "\<And>k m. length (mac k m) = 32" "4 \<le> length p" "length (cursor_text mac key rid p) \<le> 4099"
  shows "token_shape (cursor_text mac key rid p)"
proof -
  let ?b = "cursor_mac mac key rid p @ p"
  have "24 \<le> length (rstrip_pad (urlsafe_b64encode ?b))"
    using encoded_length[of ?b] cursor_mac_length[of mac key rid p] assms(1,2) by simp
  then show ?thesis
    using assms(3) by (simp add: token_shape_def cursor_text_def encoded_token_chars)
qed

text \<open>Decoding a token made from a payload with the same key and result.\<close>

lemma cursor_decode_text:
  assumes "\<And>k m. length (mac k m) = 32" "4 \<le> length p" "length (cursor_text mac key rid p) \<le> 4099"
  shows "cursor_decode mac key rid (JStr (cursor_text mac key rid p)) =
    (case Option.bind (loads p) cursor_values of None \<Rightarrow> Inl ValueError
     | Some fields \<Rightarrow> Inr ((''result_id'', JStr rid) # fields))"
  using cursor_text_shape[OF assms] cursor_mac_length[of mac key rid p] assms(1)
  by (simp add: cursor_text_def token_blob)

text \<open>Every token the decoder accepts is the text of its payload under that key and result.\<close>

lemma cursor_decode_authentic:
  assumes "cursor_decode mac key rid (JStr t) = Inr c"
  obtains p fields where "t = cursor_text mac key rid p" "Option.bind (loads p) cursor_values = Some fields"
    "c = (''result_id'', JStr rid) # fields"
proof -
  from assms obtain blob fields where b: "token_shape t" "rstrip_pad (urlsafe_b64encode blob) = drop 3 t"
      "take 16 blob = cursor_mac mac key rid (drop 16 blob)"
    and f: "Option.bind (loads (drop 16 blob)) cursor_values = Some fields" "c = (''result_id'', JStr rid) # fields"
    by (auto split: if_splits option.splits)
  have "t = cursor_text mac key rid (drop 16 blob)"
    using b by (metis append_take_drop_id cursor_text_def token_shape_def)
  with f that show ?thesis by blast
qed

end
