(* ===== verification/Cursor_Properties.thy ===== *)
theory Cursor_Properties
  imports Result_Cursor
begin


lemma cursor_encode_Inr:
  "cursor_encode mac key rid c = Inr t \<longleftrightarrow>
     map_of c ''result_id'' = Some (JStr rid)
     \<and> set (map fst c) \<subseteq> set (''result_id'' # ''selection_id'' # cursor_fields)
     \<and> t = cursor_text mac key rid (dumps (cursor_payload c))"
  by (auto simp: cursor_encode_def)

lemma payload_length: "4 \<le> length (dumps (cursor_payload c))"
proof -
  have "int_str i \<noteq> []" for i
    by (simp add: int_str_def split: prod.split)
  then have "1 \<le> length (int_str (int (field_mask c)))" by (simp add: Suc_le_eq)
  then show ?thesis
    by (auto simp: cursor_payload_def split: list.split)
qed

text \<open>
  C35. A token decodes to the coordinates it was made of: whatever the coordinates of a page, the
  token made for a result decodes, with the same session's key and result, to every coordinate
  (the selection's identity apart, which a token does not carry), as long as it carries one and
  fits the 4096 characters a token may have.
\<close>

theorem cursor_round_trip:
  assumes mac: "\<And>k m. length (mac k m) = 32"
    and encoded: "cursor_encode mac key rid c = Inr t" and short: "length t \<le> 4099"
    and some: "f \<in> set cursor_fields" "map_of c f \<noteq> None"
    and plain: "\<And>f v. map_of c f = Some v \<Longrightarrow> distinct_keys v"
  shows "\<exists>d. cursor_decode mac key rid (JStr t) = Inr d
    \<and> (\<forall>f. map_of d f = (if f = ''selection_id'' then None else map_of c f))"
proof -
  let ?fields = "map (\<lambda>f. (f, the (map_of c f))) (filter (\<lambda>f. map_of c f \<noteq> None) cursor_fields)"
  have t: "t = cursor_text mac key rid (dumps (cursor_payload c))"
    and keys: "set (map fst c) \<subseteq> set (''result_id'' # ''selection_id'' # cursor_fields)"
    and rid: "map_of c ''result_id'' = Some (JStr rid)"
    using encoded by (auto simp: cursor_encode_Inr)
  have "cursor_decode mac key rid (JStr t) = Inr ((''result_id'', JStr rid) # ?fields)"
    using cursor_decode_text[OF mac payload_length short[unfolded t]] cursor_values_payload[OF some]
      loads_dumps_text[OF distinct_payload[OF plain]]
    unfolding t by simp
  moreover have "map_of ((''result_id'', JStr rid) # ?fields) g =
      (if g = ''selection_id'' then None else map_of c g)" for g
  proof -
    have out: "map_of c g = None" if "g \<notin> set (''result_id'' # ''selection_id'' # cursor_fields)"
      using that keys by (auto simp: map_of_eq_None_iff dest: subsetD[OF keys])
    have "''selection_id'' \<notin> set cursor_fields" "''result_id'' \<notin> set cursor_fields"
      by (simp_all add: cursor_fields_def)
    moreover have "map_of ?fields g = (if g \<in> set cursor_fields then map_of c g else None)"
      by (rule map_of_present)
    moreover have "map_of ((''result_id'', JStr rid) # ?fields) g =
        (if g = ''result_id'' then Some (JStr rid) else map_of ?fields g)"
      by (simp del: not_None_eq)
    ultimately show ?thesis using out rid by auto
  qed
  ultimately show ?thesis by blast
qed


section \<open>The properties at a concrete token\<close>

definition sample_mac :: "string \<Rightarrow> string \<Rightarrow> string" where
  "sample_mac k m = take 32 (k @ m @ replicate 32 (CHR ''x''))"

lemma sample_mac_length: "length (sample_mac k m) = 32"
  by (simp add: sample_mac_def)

definition sample_coordinates :: "(string \<times> json) list" where
  "sample_coordinates = [(''result_id'', JStr ''r''), (''view_id'', JStr ''v''), (''page'', JInt 2)]"

definition sample_token :: string where
  "sample_token = cursor_text sample_mac ''k'' ''r'' (dumps (cursor_payload sample_coordinates))"

lemma sample_encoded: "cursor_encode sample_mac ''k'' ''r'' sample_coordinates = Inr sample_token"
  by (simp add: cursor_encode_def sample_token_def sample_coordinates_def cursor_fields_def)

lemma encoded_length_bound: "3 * length (rstrip_pad (urlsafe_b64encode s)) \<le> 4 * length s + 8"
proof -
  have "length (rstrip_pad t) \<le> length t" for t
    by (simp add: rstrip_pad_def length_dropWhile_le[of _ "rev t", simplified])
  moreover have "3 * length (urlsafe_b64encode s) \<le> 4 * length s + 8"
    by (induction s rule: urlsafe_b64encode.induct) (auto simp: Let_def)
  ultimately show ?thesis by (meson le_trans mult_le_mono2)
qed

lemma sample_token_short: "length sample_token \<le> 4099"
proof -
  let ?p = "dumps (cursor_payload sample_coordinates)"
  have "length ?p \<le> 20" by code_simp
  then have "length (cursor_mac sample_mac ''k'' ''r'' ?p @ ?p) \<le> 36"
    using cursor_mac_length[of sample_mac "''k''" "''r''" ?p, OF sample_mac_length] by simp
  with encoded_length_bound[of "cursor_mac sample_mac ''k'' ''r'' ?p @ ?p"] show ?thesis
    unfolding sample_token_def cursor_text_def by simp
qed

theorem cursor_round_trip_witness:
  "\<exists>d. cursor_decode sample_mac ''k'' ''r'' (JStr sample_token) = Inr d
    \<and> map_of d ''page'' = Some (JInt 2) \<and> map_of d ''view_id'' = Some (JStr ''v'') \<and> map_of d ''detail'' = None"
proof -
  have plain: "map_of sample_coordinates f = Some v \<Longrightarrow> distinct_keys v" for f v
    by (auto simp: sample_coordinates_def split: if_splits)
  have "''page'' \<in> set cursor_fields" "map_of sample_coordinates ''page'' \<noteq> None"
    by (simp_all add: sample_coordinates_def cursor_fields_def)
  then have "\<exists>d. cursor_decode sample_mac ''k'' ''r'' (JStr sample_token) = Inr d
      \<and> (\<forall>f. map_of d f = (if f = ''selection_id'' then None else map_of sample_coordinates f))"
    by (rule cursor_round_trip[OF sample_mac_length sample_encoded sample_token_short]) (rule plain)
  then show ?thesis
    by (elim ex_forward) (simp add: sample_coordinates_def del: cursor_decode.simps)
qed


end
