(* ===== verification/Relationship_Model.thy ===== *)
theory Relationship_Model
  imports Json_Codec
begin

text \<open>
  \<open>_relationships/model.py\<close>: the meaning of relationship records independent of their storage.
  Nodes, records and definitions are the dictionaries of the source; \<open>hx\<close> stands for
  \<open>hashlib.sha256(...).hexdigest()\<close>. Floating point scalars are left out, as in \<open>json\<close>.
\<close>

type_synonym dict = "(string \<times> json) list"

definition MAX_WORK :: int where
  "MAX_WORK = 5000"

definition DEFAULT_SCOPE :: string where
  "DEFAULT_SCOPE = ''global''"

section \<open>Work budgets\<close>

record work =
  wk_limit :: int
  wk_visited :: int

definition take_work :: "int \<Rightarrow> (work, unit) prog" where
  "take_work count w =
    (if wk_limit w < wk_visited w + count then (Inl BudgetExceeded, w)
     else (Inr (), w\<lparr>wk_visited := wk_visited w + count\<rparr>))"

section \<open>Digests and identifiers\<close>

definition digest :: "(string \<Rightarrow> string) \<Rightarrow> json \<Rightarrow> string" where
  "digest hx v = ''sha256:'' @ hx (canonical_json v)"

definition identifier_start :: "char \<Rightarrow> bool" where
  "identifier_start c \<longleftrightarrow> (let n = (of_char c :: nat) in 97 \<le> n \<and> n \<le> 122 \<or> 65 \<le> n \<and> n \<le> 90 \<or> 48 \<le> n \<and> n \<le> 57)"

definition identifier_part :: "char \<Rightarrow> bool" where
  "identifier_part c \<longleftrightarrow> identifier_start c \<or> c = CHR ''_'' \<or> c = CHR ''.'' \<or> c = CHR ''-''"

text \<open>\<open>re.fullmatch(r"[a-zA-Z0-9][a-zA-Z0-9_.-]{0,127}", value)\<close>.\<close>

fun record_identifier :: "json \<Rightarrow> exn + string" where
  "record_identifier (JStr s) =
     (if s \<noteq> [] \<and> identifier_start (hd s) \<and> list_all identifier_part (tl s) \<and> length s \<le> 128
      then Inr s else Inl ValueError)"
| "record_identifier _ = Inl ValueError"

fun nonempty_text :: "json \<Rightarrow> exn + string" where
  "nonempty_text (JStr s) = (if py_blank s then Inl ValueError else Inr s)"
| "nonempty_text _ = Inl ValueError"

definition get_field :: "dict \<Rightarrow> string \<Rightarrow> json" where
  "get_field d k = (case map_of d k of Some v \<Rightarrow> v | None \<Rightarrow> JNull)"

definition get_item :: "dict \<Rightarrow> string \<Rightarrow> exn + json" where
  "get_item d k = (case map_of d k of Some v \<Rightarrow> Inr v | None \<Rightarrow> Inl KeyError)"

section \<open>Endpoints\<close>

definition node_kinds :: "string list" where
  "node_kinds = [''artefact'', ''relationship'', ''occurrence'', ''predicate'', ''event'', ''literal'']"

definition scalar :: "json \<Rightarrow> bool" where
  "scalar v = (case v of JArr _ \<Rightarrow> False | JObj _ \<Rightarrow> False | _ \<Rightarrow> True)"

text \<open>\<open>Endpoint(NodeKind(kind), reference, value)\<close> with its checks, as \<open>asdict\<close> gives it.\<close>

definition make_endpoint :: "json \<Rightarrow> json \<Rightarrow> json \<Rightarrow> exn + dict" where
  "make_endpoint kind reference v = (case kind of
       JStr k \<Rightarrow>
         if k \<notin> set node_kinds then Inl ValueError
         else (case reference of
             JStr r \<Rightarrow>
               if k = ''literal'' then
                 (if r \<noteq> [] \<or> \<not> scalar v then Inl ValueError
                  else Inr [(''kind'', JStr k), (''reference'', JStr r), (''value'', v)])
               else if v \<noteq> JNull then Inl ValueError
               else bind_result (nonempty_text reference) (\<lambda>_.
                 Inr [(''kind'', JStr k), (''reference'', JStr r), (''value'', v)])
           | _ \<Rightarrow> Inl ValueError)
     | _ \<Rightarrow> Inl ValueError)"

fun endpoint :: "json \<Rightarrow> exn + dict" where
  "endpoint (JObj d) =
     (if map_of d ''kind'' = None
         \<or> \<not> set (map fst d) \<subseteq> set [''kind'', ''reference'', ''value'', ''identity''] then Inl ValueError
      else bind_result
        (if map_of d ''identity'' = None then Inr ()
         else bind_result (nonempty_text (get_field d ''identity'')) (\<lambda>_.
           check_that (map_of d ''kind'' = Some (JStr ''artefact'')) ValueError)) (\<lambda>_.
        make_endpoint (get_field d ''kind'')
          (case map_of d ''reference'' of Some r \<Rightarrow> r | None \<Rightarrow> JStr []) (get_field d ''value'')))"
| "endpoint _ = Inl ValueError"

text \<open>\<open>node_key(node)\<close>: concatenating anything but strings is a \<open>TypeError\<close>.\<close>

definition node_key :: "dict \<Rightarrow> exn + string" where
  "node_key node =
     bind_result (get_item node ''kind'') (\<lambda>kind.
       if kind = JStr ''literal'' then Inr (''literal:'' @ canonical_json (get_field node ''value''))
       else bind_result (get_item node ''reference'') (\<lambda>reference.
         case (kind, case map_of node ''identity'' of Some i \<Rightarrow> i | None \<Rightarrow> reference) of
           (JStr k, JStr r) \<Rightarrow> Inr (k @ '':'' @ r)
         | _ \<Rightarrow> Inl TypeError))"

fun gather :: "('a \<Rightarrow> exn + 'b) \<Rightarrow> 'a list \<Rightarrow> exn + 'b list" where
  "gather f [] = Inr []"
| "gather f (x # xs) =
     bind_result (f x) (\<lambda>y. bind_result (gather f xs) (\<lambda>ys. Inr (y # ys)))"

lemma gather_all: "gather f xs = Inr ys \<Longrightarrow> x \<in> set xs \<Longrightarrow> \<exists>y. f x = Inr y \<and> y \<in> set ys"
  by (induction xs arbitrary: ys) (auto simp: bind_result_Inr)

lemma gather_back: "gather f xs = Inr ys \<Longrightarrow> y \<in> set ys \<Longrightarrow> \<exists>x \<in> set xs. f x = Inr y"
  by (induction xs arbitrary: ys) (auto simp: bind_result_Inr)

lemma gather_runs: "(\<And>x. x \<in> set xs \<Longrightarrow> \<exists>y. f x = Inr y) \<Longrightarrow> \<exists>ys. gather f xs = Inr ys"
  by (induction xs) (fastforce simp: bind_result_Inr)+

section \<open>Meaning and revisions\<close>

definition item_node :: "dict \<Rightarrow> string \<Rightarrow> exn + dict" where
  "item_node record k = bind_result (get_item record k) (\<lambda>v. case v of JObj d \<Rightarrow> Inr d | _ \<Rightarrow> Inl TypeError)"

definition record_scope :: "dict \<Rightarrow> json" where
  "record_scope record = (case map_of record ''scope'' of Some s \<Rightarrow> s | None \<Rightarrow> JStr DEFAULT_SCOPE)"

definition meaning :: "dict \<Rightarrow> exn + json" where
  "meaning record =
     bind_result (bind_result (item_node record ''subject'') node_key) (\<lambda>subject.
     bind_result (get_item record ''predicate'') (\<lambda>predicate.
     bind_result (bind_result (item_node record ''object'') node_key) (\<lambda>obj.
       Inr (JObj [(''subject'', JStr subject), (''predicate'', predicate), (''object'', JStr obj),
         (''scope'', record_scope record)]))))"

definition assertion_revision :: "(string \<Rightarrow> string) \<Rightarrow> dict \<Rightarrow> exn + string" where
  "assertion_revision hx record = bind_result (meaning record) (\<lambda>m. Inr (digest hx m))"

definition slot_key :: "(string \<Rightarrow> string) \<Rightarrow> dict \<Rightarrow> exn + string" where
  "slot_key hx record =
     bind_result (bind_result (item_node record ''subject'') node_key) (\<lambda>subject.
     bind_result (get_item record ''predicate'') (\<lambda>predicate.
       Inr (digest hx (JArr [JStr subject, predicate, record_scope record]))))"

text \<open>\<open>event_revision\<close>: the locators of the subject and of payload nodes do not count.\<close>

definition event_value :: "string \<Rightarrow> json \<Rightarrow> exn + json" where
  "event_value k v =
     (if k = ''subject'' then
        (case v of JObj d \<Rightarrow> bind_result (node_key d) (\<lambda>t. Inr (JStr t)) | _ \<Rightarrow> Inl TypeError)
      else if k = ''payload'' then
        (case v of
           JObj fs \<Rightarrow>
             bind_result (gather (\<lambda>(name, item). case item of
                 JObj d \<Rightarrow>
                   if map_of d ''kind'' = None then Inr (name, item)
                   else bind_result (node_key d) (\<lambda>t. Inr (name, JStr t))
               | _ \<Rightarrow> Inr (name, item)) fs) (\<lambda>fs. Inr (JObj fs))
         | _ \<Rightarrow> Inl TypeError)
      else Inr v)"

definition event_revision :: "(string \<Rightarrow> string) \<Rightarrow> dict \<Rightarrow> exn + string" where
  "event_revision hx record =
     bind_result (gather (\<lambda>(k, v). bind_result (event_value k v) (\<lambda>w. Inr (k, w)))
       (filter (\<lambda>(k, v). k \<notin> set [''schema'', ''revision'']) record))
     (\<lambda>fs. Inr (digest hx (JObj fs)))"

section \<open>Definitions\<close>

definition definition_contract :: "dict \<Rightarrow> exn + json" where
  "definition_contract d = bind_result (get_item d ''kind'') (\<lambda>kind.
     let fields = [''id'', ''kind'', ''meaning''] @
           (if kind = JStr ''predicate'' then [''cardinality'', ''kinds'', ''values''] else [''fields''])
     in Inr (JObj (map (\<lambda>k. (k, get_field d k)) (filter (\<lambda>k. map_of d k \<noteq> None) fields))))"

text \<open>The elements of an optional list field.\<close>

definition list_items :: "dict \<Rightarrow> string \<Rightarrow> json list" where
  "list_items d k = (case map_of d k of Some (JArr xs) \<Rightarrow> xs | _ \<Rightarrow> [])"

definition check_event_field :: "json \<Rightarrow> exn + string" where
  "check_event_field item = (case item of
       JObj f \<Rightarrow>
         if set (map fst f) \<noteq> set [''name'', ''kind'', ''required''] then Inl ValueError
         else bind_result (record_identifier (get_field f ''name'')) (\<lambda>name.
           if get_field f ''kind'' \<in> set [JStr ''string'', JStr ''number'', JStr ''boolean'', JStr ''reference'']
              \<and> (case get_field f ''required'' of JBool _ \<Rightarrow> True | _ \<Rightarrow> False)
           then Inr name else Inl ValueError)
     | _ \<Rightarrow> Inl ValueError)"

definition validate_definition :: "(string \<Rightarrow> string) \<Rightarrow> json \<Rightarrow> dict option \<Rightarrow> exn + string" where
  "validate_definition hx value previous = (case value of
       JObj d \<Rightarrow>
         bind_result (record_identifier (get_field d ''id'')) (\<lambda>name.
         bind_result (check_that (\<not> starts_with ''native.'' name) ValueError) (\<lambda>_.
         bind_result (nonempty_text (get_field d ''name'')) (\<lambda>_.
         bind_result (nonempty_text (get_field d ''meaning'')) (\<lambda>_.
         bind_result (check_that (get_field d ''kind'' \<in> set [JStr ''predicate'', JStr ''event-type'']) ValueError) (\<lambda>_.
         bind_result (case previous of None \<Rightarrow> Inr () | Some p \<Rightarrow>
             if p = [] then Inr ()
             else bind_result (get_item p ''meaning'') (\<lambda>m. check_that (m = get_field d ''meaning'') ValueError)) (\<lambda>_.
         bind_result (check_that (case map_of d ''cardinality'' of None \<Rightarrow> True
             | Some c \<Rightarrow> c \<in> set [JStr ''one'', JStr ''many'']) ValueError) (\<lambda>_.
         bind_result (check_that (list_all (\<lambda>k. case map_of d k of None \<Rightarrow> True | Some (JArr _) \<Rightarrow> True | _ \<Rightarrow> False)
             [''kinds'', ''values'', ''fields'']) ValueError) (\<lambda>_.
         bind_result (check_that (list_all scalar (list_items d ''values'')) ValueError) (\<lambda>_.
         bind_result (check_that (list_all (\<lambda>k. k \<in> set (map JStr node_kinds)) (list_items d ''kinds'')) ValueError) (\<lambda>_.
         bind_result (gather check_event_field (list_items d ''fields'')) (\<lambda>names.
         bind_result (check_that (distinct names) ValueError) (\<lambda>_.
         bind_result (definition_contract d) (\<lambda>c. Inr (digest hx c))))))))))))))
     | _ \<Rightarrow> Inl ValueError)"

definition text_item :: "dict \<Rightarrow> string \<Rightarrow> exn + string" where
  "text_item d k = bind_result (get_item d k) (\<lambda>v. case v of JStr s \<Rightarrow> Inr s | _ \<Rightarrow> Inl TypeError)"

lemma text_item_Inr: "text_item d k = Inr t \<longleftrightarrow> map_of d k = Some (JStr t)"
  by (auto simp: text_item_def get_item_def bind_result_Inr split: option.splits json.splits)

definition validate_assertion :: "dict \<Rightarrow> dict \<Rightarrow> exn + unit" where
  "validate_assertion record defn =
     bind_result (text_item record ''predicate'') (\<lambda>predicate.
     bind_result (check_that (\<not> starts_with ''native.'' predicate) ValueError) (\<lambda>_.
     bind_result (get_item defn ''kind'') (\<lambda>kind.
     bind_result (check_that (kind = JStr ''predicate'') ValueError) (\<lambda>_.
     bind_result (nonempty_text (get_field record ''scope'')) (\<lambda>_.
     bind_result (item_node record ''subject'') (\<lambda>subject.
     bind_result (item_node record ''object'') (\<lambda>obj.
     bind_result (get_item subject ''kind'') (\<lambda>sk.
     bind_result (check_that (sk \<noteq> JStr ''literal'') ValueError) (\<lambda>_.
     bind_result (if list_items defn ''kinds'' = [] then Inr ()
        else bind_result (get_item obj ''kind'') (\<lambda>ok.
          check_that (ok \<in> set (list_items defn ''kinds'')) ValueError)) (\<lambda>_.
     if list_items defn ''values'' = [] then Inr ()
     else bind_result (get_item obj ''kind'') (\<lambda>ok.
       check_that (ok = JStr ''literal''
         \<and> canonical_json (get_field obj ''value'') \<in> set (map canonical_json (list_items defn ''values''))) ValueError)))))))))))"

text \<open>One declared field of an event payload.\<close>

definition check_payload_field :: "dict \<Rightarrow> dict \<Rightarrow> exn + unit" where
  "check_payload_field payload contract =
     bind_result (text_item contract ''name'') (\<lambda>name.
     bind_result (get_item contract ''required'') (\<lambda>required.
     bind_result (get_item contract ''kind'') (\<lambda>kind.
     case map_of payload name of
       None \<Rightarrow> check_that (\<not> json_truthy required) ValueError
     | Some v \<Rightarrow>
         bind_result (if kind = JStr ''reference'' then
             bind_result (endpoint v) (\<lambda>e. check_that (get_field e ''kind'' \<noteq> JStr ''literal'') ValueError)
           else Inr ()) (\<lambda>_.
         check_that (case v of
             JStr s \<Rightarrow> kind = JStr ''string'' \<and> \<not> py_blank s
           | JObj _ \<Rightarrow> kind = JStr ''reference''
           | JInt _ \<Rightarrow> kind = JStr ''number''
           | JBool _ \<Rightarrow> kind = JStr ''boolean''
           | _ \<Rightarrow> False) ValueError))))"

definition contract_fields :: "dict \<Rightarrow> exn + (string \<times> dict) list" where
  "contract_fields defn =
     bind_result (gather (\<lambda>item. case item of
         JObj f \<Rightarrow> bind_result (text_item f ''name'') (\<lambda>n. Inr (n, f)) | _ \<Rightarrow> Inl TypeError)
       (list_items defn ''fields'')) (\<lambda>fs. Inr (dict_update [] fs))"

definition validate_event_payload :: "dict \<Rightarrow> dict \<Rightarrow> exn + unit" where
  "validate_event_payload payload defn =
     bind_result (get_item defn ''kind'') (\<lambda>kind.
     bind_result (check_that (kind = JStr ''event-type'') ValueError) (\<lambda>_.
     bind_result (contract_fields defn) (\<lambda>fields.
     bind_result (check_that (set (map fst payload) \<subseteq> set (map fst fields)) ValueError) (\<lambda>_.
     bind_result (gather (\<lambda>(name, contract). check_payload_field payload contract) fields) (\<lambda>_.
     Inr ())))))"

section \<open>Closure of dependants\<close>

text \<open>
  \<open>dependency_closure\<close>: the pending identities are a stack (\<open>pop\<close> takes the last, \<open>extend\<close>
  appends), the visited ones a set, here without repetitions in the order of their visits.
\<close>

function close_dependants :: "(string \<Rightarrow> string list) \<Rightarrow> int \<Rightarrow> string list \<Rightarrow> string list \<Rightarrow> exn + string list" where
  "close_dependants dependants budget visited pending =
     (if pending = [] then Inr visited
      else let identity = last pending; rest = butlast pending in
        if identity \<in> set visited then close_dependants dependants budget visited rest
        else if budget \<le> int (length visited) then Inl ValueError
        else close_dependants dependants budget (identity # visited) (rest @ dependants identity))"
  by pat_completeness auto
termination
  by (relation "measures [\<lambda>(d, b, v, p). nat b - length v, \<lambda>(d, b, v, p). length p]") auto

declare close_dependants.simps [simp del]

definition dependency_closure :: "(string \<Rightarrow> string list) \<Rightarrow> int \<Rightarrow> string list \<Rightarrow> exn + string set" where
  "dependency_closure dependants budget seeds =
     bind_result (close_dependants dependants budget [] seeds) (\<lambda>visited. Inr (set visited - set seeds))"

section \<open>Corrections\<close>

datatype correction =
    Unresolved string "string list"
  | Incomplete "string list"
  | Corrected string "string list"
  | Current string

text \<open>The state of \<open>correction_state\<close>, with \<open>head\<close> and \<open>chain\<close>; \<open>seen\<close> holds the identities passed.\<close>

function follow_corrections ::
  "(string \<Rightarrow> string list option) \<Rightarrow> int \<Rightarrow> string list \<Rightarrow> string list \<Rightarrow> string \<Rightarrow> correction"
where
  "follow_corrections successors budget seen chain current =
     (if current \<in> set seen then Unresolved ''correction cycle'' chain
      else if budget \<le> int (length seen) then Incomplete chain
      else (case successors current of
          None \<Rightarrow> Unresolved ''unavailable correction'' chain
        | Some following \<Rightarrow>
            if 1 < length following then Unresolved ''correction fork'' chain
            else (case following of
                [] \<Rightarrow> if chain = [] then Current current else Corrected current chain
              | successor # _ \<Rightarrow>
                  follow_corrections successors budget (current # seen) (chain @ [successor]) successor)))"
  by pat_completeness auto
termination
  by (relation "measure (\<lambda>(f, b, seen, chain, current). nat b - length seen)") auto

declare follow_corrections.simps [simp del]

definition correction_state :: "(string \<Rightarrow> string list option) \<Rightarrow> int \<Rightarrow> string \<Rightarrow> correction" where
  "correction_state successors budget identity = follow_corrections successors budget [] [] identity"

section \<open>The closure is reachability\<close>

definition depends :: "(string \<Rightarrow> string list) \<Rightarrow> (string \<times> string) set" where
  "depends dependants = {(a, b). b \<in> set (dependants a)}"

definition reached :: "(string \<Rightarrow> string list) \<Rightarrow> string list \<Rightarrow> string set" where
  "reached dependants seeds = (depends dependants)\<^sup>* `` set seeds"

text \<open>What the search keeps: a visited identity has its dependants visited or pending.\<close>

definition closed_but :: "(string \<Rightarrow> string list) \<Rightarrow> string list \<Rightarrow> string list \<Rightarrow> bool" where
  "closed_but d visited pending \<longleftrightarrow> (\<forall>x \<in> set visited. set (d x) \<subseteq> set visited \<union> set pending)"

lemma close_result:
  "close_dependants d budget visited pending = Inr v \<Longrightarrow> closed_but d visited pending \<Longrightarrow> distinct visited \<Longrightarrow>
   int (length visited) \<le> budget \<Longrightarrow>
   set visited \<union> set pending \<subseteq> set v \<and> closed_but d v [] \<and> distinct v \<and> int (length v) \<le> budget"
proof (induction d budget visited pending rule: close_dependants.induct)
  case (1 d budget visited pending)
  show ?case
  proof (cases "pending = []")
    case True
    with "1.prems" show ?thesis by (simp add: close_dependants.simps)
  next
    case False
    define x where "x = last pending"
    define rest where "rest = butlast pending"
    have p: "set pending = insert x (set rest)"
      using False by (metis append_butlast_last_id list.set(2) rotate1.simps(2) set_rotate1 x_def rest_def)
    show ?thesis
    proof (cases "x \<in> set visited")
      case True
      then have "close_dependants d budget visited rest = Inr v"
        using "1.prems"(1) False by (simp add: close_dependants.simps[of d budget visited pending] Let_def x_def rest_def)
      moreover have "closed_but d visited rest"
        using "1.prems"(2) p True by (auto simp: closed_but_def)
      ultimately show ?thesis
        using "1.IH"(1)[OF False x_def rest_def True] "1.prems"(3,4) p True by auto
    next
      case x: False
      then have b: "\<not> budget \<le> int (length visited)"
        and c: "close_dependants d budget (x # visited) (rest @ d x) = Inr v"
        using "1.prems"(1) False
        by (auto simp: close_dependants.simps[of d budget visited pending] Let_def x_def rest_def split: if_splits)
      have "closed_but d (x # visited) (rest @ d x)"
        using "1.prems"(2) p by (auto simp: closed_but_def)
      then show ?thesis
        using "1.IH"(2)[OF False x_def rest_def x b c] "1.prems"(3) x b p by auto
    qed
  qed
qed

lemma close_within:
  "close_dependants d budget visited pending = Inr v \<Longrightarrow>
   set visited \<union> set pending \<subseteq> r \<Longrightarrow> (\<And>x. x \<in> r \<Longrightarrow> set (d x) \<subseteq> r) \<Longrightarrow> set v \<subseteq> r"
proof (induction d budget visited pending rule: close_dependants.induct)
  case (1 d budget visited pending)
  show ?case
  proof (cases "pending = []")
    case True
    with "1.prems" show ?thesis by (simp add: close_dependants.simps)
  next
    case False
    define x where "x = last pending"
    define rest where "rest = butlast pending"
    have p: "x \<in> r" "set rest \<subseteq> r"
      using False "1.prems"(2) by (auto simp: x_def rest_def dest: in_set_butlastD)
    show ?thesis
    proof (cases "x \<in> set visited")
      case True
      then have "close_dependants d budget visited rest = Inr v"
        using "1.prems"(1) False by (simp add: close_dependants.simps[of d budget visited pending] Let_def x_def rest_def)
      then show ?thesis
        using "1.IH"(1)[OF False x_def rest_def True] "1.prems"(2,3) p by auto
    next
      case x: False
      then have b: "\<not> budget \<le> int (length visited)"
        and c: "close_dependants d budget (x # visited) (rest @ d x) = Inr v"
        using "1.prems"(1) False
        by (auto simp: close_dependants.simps[of d budget visited pending] Let_def x_def rest_def split: if_splits)
      then show ?thesis
        using "1.IH"(2)[OF False x_def rest_def x b c] "1.prems"(2,3) p by auto
    qed
  qed
qed

text \<open>Within a finite set closed under dependants, a budget of its size is never exhausted.\<close>

lemma close_runs:
  "finite r \<Longrightarrow> int (card r) \<le> budget \<Longrightarrow> set visited \<union> set pending \<subseteq> r \<Longrightarrow> distinct visited \<Longrightarrow>
   (\<And>x. x \<in> r \<Longrightarrow> set (d x) \<subseteq> r) \<Longrightarrow> \<exists>v. close_dependants d budget visited pending = Inr v"
proof (induction d budget visited pending rule: close_dependants.induct)
  case (1 d budget visited pending)
  show ?case
  proof (cases "pending = []")
    case True
    then show ?thesis by (simp add: close_dependants.simps)
  next
    case False
    define x where "x = last pending"
    define rest where "rest = butlast pending"
    have p: "x \<in> r" "set rest \<subseteq> r"
      using False "1.prems"(3) by (auto simp: x_def rest_def dest: in_set_butlastD)
    show ?thesis
    proof (cases "x \<in> set visited")
      case True
      then have "\<exists>v. close_dependants d budget visited rest = Inr v"
        using "1.IH"(1)[OF False x_def rest_def True] "1.prems" p by auto
      with True False show ?thesis
        by (simp add: close_dependants.simps[of d budget visited pending] Let_def x_def rest_def)
    next
      case x: False
      then have "set visited \<subset> r" using "1.prems"(3) p by auto
      then have "length visited < card r"
        using "1.prems"(1,4) by (metis distinct_card psubset_card_mono)
      then have b: "\<not> budget \<le> int (length visited)" using "1.prems"(2) by linarith
      then have "\<exists>v. close_dependants d budget (x # visited) (rest @ d x) = Inr v"
        using "1.IH"(2)[OF False x_def rest_def x b] "1.prems" p x by auto
      with x b False show ?thesis
        by (simp add: close_dependants.simps[of d budget visited pending] Let_def x_def rest_def)
    qed
  qed
qed

lemma close_error: "close_dependants d budget visited pending = Inl e \<Longrightarrow> e = ValueError"
proof (induction d budget visited pending rule: close_dependants.induct)
  case (1 d budget visited pending)
  then show ?case
    by (auto simp: close_dependants.simps[of d budget visited pending] Let_def split: if_splits)
qed

lemma reached_closed: "x \<in> reached d seeds \<Longrightarrow> set (d x) \<subseteq> reached d seeds"
  by (auto simp: reached_def depends_def intro: rtrancl_into_rtrancl)

lemma seeds_reached: "set seeds \<subseteq> reached d seeds"
  by (auto simp: reached_def)

lemma reached_least:
  assumes "set seeds \<subseteq> s" "\<And>x. x \<in> s \<Longrightarrow> set (d x) \<subseteq> s"
  shows "reached d seeds \<subseteq> s"
proof
  fix y assume "y \<in> reached d seeds"
  then obtain x where "x \<in> set seeds" "(x, y) \<in> (depends d)\<^sup>*" by (auto simp: reached_def)
  from this(2,1) show "y \<in> s"
    by (induction rule: rtrancl_induct) (use assms in \<open>auto simp: depends_def\<close>)
qed

end
