(* ===== verification/Relationship_Properties.thy ===== *)
theory Relationship_Properties
  imports Relationship_Model
begin

text \<open>
  What the relationship model promises: identity of nodes and of assertions, the closure of
  dependants, the interpretation of corrections and the typing of event payloads.
\<close>

section \<open>Dependants\<close>

text \<open>
  C36. The dependency closure of some identities is exactly what can be reached from them through
  dependants, without the identities themselves; it is refused exactly when more identities are
  reached than the budget allows, and the search always ends.
\<close>

theorem dependency_closure_is_reachability:
  assumes "0 \<le> budget"
  shows "dependency_closure dependants budget seeds =
    (let r = (depends dependants)\<^sup>* `` set seeds in
     if finite r \<and> int (card r) \<le> budget then Inr (r - set seeds) else Inl ValueError)"
proof (cases "close_dependants dependants budget [] seeds")
  case (Inl e)
  then have e: "e = ValueError" by (rule close_error)
  have "\<not> (finite (reached dependants seeds) \<and> int (card (reached dependants seeds)) \<le> budget)"
  proof
    assume "finite (reached dependants seeds) \<and> int (card (reached dependants seeds)) \<le> budget"
    then have "\<exists>v. close_dependants dependants budget [] seeds = Inr v"
      by (intro close_runs[where r = "reached dependants seeds"]) (auto simp: seeds_reached dest: reached_closed[THEN subsetD])
    with Inl show False by simp
  qed
  with Inl e show ?thesis by (auto simp: dependency_closure_def reached_def Let_def)
next
  case (Inr v)
  have v: "set seeds \<subseteq> set v" "closed_but dependants v []" "distinct v" "int (length v) \<le> budget"
    using close_result[OF Inr] assms by (auto simp: closed_but_def)
  have "set v \<subseteq> reached dependants seeds"
    by (rule close_within[OF Inr]) (auto simp: seeds_reached dest: reached_closed[THEN subsetD])
  moreover have "reached dependants seeds \<subseteq> set v"
    using v(1,2) by (intro reached_least) (auto simp: closed_but_def)
  ultimately have r: "reached dependants seeds = set v" by simp
  with v(3,4) Inr show ?thesis
    by (simp add: dependency_closure_def reached_def[symmetric] distinct_card)
qed

definition sample_dependants :: "string \<Rightarrow> string list" where
  "sample_dependants x = (if x = ''a'' then [''b'', ''c''] else if x = ''b'' then [''a'', ''d''] else [])"

theorem dependency_closure_is_reachability_witness:
  "(let r = (depends sample_dependants)\<^sup>* `` set [''a''] in
     if finite r \<and> int (card r) \<le> 4 then Inr (r - set [''a'']) else Inl ValueError) = Inr {''b'', ''c'', ''d''}"
proof -
  have "dependency_closure sample_dependants 4 [''a''] = Inr {''b'', ''c'', ''d''}"
    by (simp add: dependency_closure_def close_dependants.simps Let_def sample_dependants_def insert_commute insert_Diff_if)
  then show ?thesis
    using dependency_closure_is_reachability[of 4 sample_dependants "[''a'']"] by simp
qed

section \<open>Corrections\<close>

text \<open>A chain of corrections: each identity has the next as its only successor.\<close>

definition corrects :: "(string \<Rightarrow> string list option) \<Rightarrow> string list \<Rightarrow> bool" where
  "corrects successors xs \<longleftrightarrow> successively (\<lambda>x y. successors x = Some [y]) xs"

lemma corrects_Cons2: "corrects f (x # y # xs) \<longleftrightarrow> f x = Some [y] \<and> corrects f (y # xs)"
  by (simp add: corrects_def)

lemma corrects_single [simp]: "corrects f [x]"
  by (simp add: corrects_def)

text \<open>The end of a chain is passed once: an identity before it has a successor.\<close>

lemma corrects_ends_distinct:
  "corrects f (x # ext) \<Longrightarrow> f (last (x # ext)) = Some [] \<Longrightarrow> distinct (x # ext)"
proof (induction ext arbitrary: x)
  case Nil
  then show ?case by simp
next
  case (Cons y ext)
  then have fx: "f x = Some [y]" and d: "distinct (y # ext)" and rest: "corrects f (y # ext)"
    by (auto simp: corrects_Cons2)
  have "x \<notin> set (y # ext)"
  proof
    assume "x \<in> set (y # ext)"
    then obtain as bs where split: "y # ext = as @ x # bs" by (meson split_list)
    show False
    proof (cases bs)
      case Nil
      then have "last (y # ext) = x" using split by simp
      with Cons.prems(2) fx show False by simp
    next
      case (Cons b cs)
      have "corrects f (x # b # cs)"
        using rest split Cons by (auto simp: corrects_def successively_append_iff)
      then have "b = y" using fx by (simp add: corrects_Cons2)
      with d split Cons show False by (cases as) auto
    qed
  qed
  with d show ?case by simp
qed

lemma follow_corrected:
  "follow_corrections f b seen chain x = Corrected h c \<longleftrightarrow>
   (\<exists>ext. c = chain @ ext \<and> c \<noteq> [] \<and> h = last (x # ext) \<and> corrects f (x # ext) \<and> f h = Some []
      \<and> distinct (x # ext) \<and> set (x # ext) \<inter> set seen = {} \<and> int (length seen + length ext) < b)"
  (is "_ \<longleftrightarrow> (\<exists>ext. ?path seen chain x ext)")
proof (induction f b seen chain x rule: follow_corrections.induct)
  case (1 f b seen chain x)
  let ?p = "\<lambda>seen chain x ext. c = chain @ ext \<and> c \<noteq> [] \<and> h = last (x # ext) \<and> corrects f (x # ext) \<and> f h = Some []
      \<and> distinct (x # ext) \<and> set (x # ext) \<inter> set seen = {} \<and> int (length seen + length ext) < b"
  show ?case
  proof (cases "x \<in> set seen \<or> b \<le> int (length seen)")
    case True
    then show ?thesis by (auto simp: follow_corrections.simps[of f b seen chain x])
  next
    case False
    then have ok: "x \<notin> set seen" "\<not> b \<le> int (length seen)" by auto
    show ?thesis
    proof (cases "\<exists>y. f x = Some [y]")
      case True
      then obtain y where y: "f x = Some [y]" by blast
      have eq: "follow_corrections f b seen chain x = follow_corrections f b (x # seen) (chain @ [y]) y"
        using ok y by (simp add: follow_corrections.simps[of f b seen chain x])
      have "follow_corrections f b seen chain x = Corrected h c \<longleftrightarrow> (\<exists>ext. ?p (x # seen) (chain @ [y]) y ext)"
        unfolding eq using "1.IH"[OF ok y _ refl] by simp
      also have "\<dots> \<longleftrightarrow> (\<exists>ext. ?p seen chain x ext)"
      proof
        assume "\<exists>ext. ?p (x # seen) (chain @ [y]) y ext"
        then obtain ext where "?p (x # seen) (chain @ [y]) y ext" by blast
        then have "?p seen chain x (y # ext)" using ok y by (auto simp: corrects_Cons2)
        then show "\<exists>ext. ?p seen chain x ext" by blast
      next
        assume "\<exists>ext. ?p seen chain x ext"
        then obtain ext where e: "?p seen chain x ext" by blast
        show "\<exists>ext. ?p (x # seen) (chain @ [y]) y ext"
        proof (cases ext)
          case Nil
          with e y show ?thesis by auto
        next
          case (Cons z zs)
          with e y have "?p (x # seen) (chain @ [y]) y zs" by (auto simp: corrects_Cons2)
          then show ?thesis by blast
        qed
      qed
      finally show ?thesis .
    next
      case False
      have "\<And>ext. corrects f (x # ext) \<Longrightarrow> ext = []"
        using False by (metis corrects_Cons2 neq_Nil_conv)
      with False ok show ?thesis
        by (auto simp: follow_corrections.simps[of f b seen chain x] split: option.splits list.splits)
    qed
  qed
qed

text \<open>
  C37. An event counts as corrected exactly when an unforked chain of corrections leads from it to
  an event with none, within the budget: the last of the chain is the head. It is current exactly
  when nothing corrects it.
\<close>

theorem correction_state_is_the_chain:
  assumes "1 \<le> budget"
  shows "(correction_state successors budget identity = Corrected head chain \<longleftrightarrow>
      chain \<noteq> [] \<and> head = last chain \<and> corrects successors (identity # chain) \<and> successors head = Some []
      \<and> int (length chain) < budget)
    \<and> (correction_state successors budget identity = Current head \<longleftrightarrow>
      head = identity \<and> successors identity = Some [])"
proof
  show "correction_state successors budget identity = Corrected head chain \<longleftrightarrow>
      chain \<noteq> [] \<and> head = last chain \<and> corrects successors (identity # chain) \<and> successors head = Some []
      \<and> int (length chain) < budget"
    using corrects_ends_distinct[of successors identity chain]
    by (auto simp: correction_state_def follow_corrected)
  have later: "follow_corrections f b seen (c # cs) x \<noteq> Current h" for f b seen c cs x h
  proof (induction f b seen "c # cs" x arbitrary: c cs rule: follow_corrections.induct)
    case (1 f b seen x c cs)
    then show ?case
      by (auto simp: follow_corrections.simps[of f b seen "c # cs" x] split: option.splits list.splits)
  qed
  show "correction_state successors budget identity = Current head \<longleftrightarrow>
      head = identity \<and> successors identity = Some []"
    using assms later
    by (auto simp: correction_state_def follow_corrections.simps[of successors budget "[]" "[]" identity]
          split: option.splits list.splits)
qed

definition sample_successors :: "string \<Rightarrow> string list option" where
  "sample_successors x = (if x = ''a'' then Some [''b''] else if x = ''b'' then Some [] else None)"

theorem correction_state_is_the_chain_witness:
  "correction_state sample_successors 10 ''a'' = Corrected ''b'' [''b'']
   \<and> correction_state sample_successors 10 ''b'' = Current ''b''"
  using correction_state_is_the_chain[of 10 sample_successors "''a''" "''b''" "[''b'']"]
    correction_state_is_the_chain[of 10 sample_successors "''b''" "''b''" "[]"]
  by (simp add: sample_successors_def corrects_def)

section \<open>Nodes and assertions\<close>

lemma make_endpoint_Inr:
  assumes "make_endpoint kind reference v = Inr d"
  obtains k r where "kind = JStr k" "reference = JStr r" "k \<in> set node_kinds"
    "d = [(''kind'', JStr k), (''reference'', JStr r), (''value'', v)]"
    "(k = ''literal'' \<longrightarrow> r = [] \<and> scalar v) \<and> (k \<noteq> ''literal'' \<longrightarrow> v = JNull)"
  using assms by (auto simp: make_endpoint_def bind_result_Inr split: json.splits if_splits)

lemma endpoint_Inr:
  assumes "endpoint x = Inr d"
  obtains k r v where "k \<in> set node_kinds" "d = [(''kind'', JStr k), (''reference'', JStr r), (''value'', v)]"
    "(k = ''literal'' \<longrightarrow> r = [] \<and> scalar v) \<and> (k \<noteq> ''literal'' \<longrightarrow> v = JNull)"
proof -
  obtain fs where "x = JObj fs" using assms by (cases x) auto
  with assms obtain kind reference v where "make_endpoint kind reference v = Inr d"
    by (auto simp: bind_result_Inr split: if_splits)
  then show ?thesis using that by (rule make_endpoint_Inr) blast
qed

lemma node_kinds_no_colon: "k \<in> set node_kinds \<Longrightarrow> CHR '':'' \<notin> set k"
  by (auto simp: node_kinds_def)

lemma split_at_colon: "CHR '':'' \<notin> set a \<Longrightarrow> CHR '':'' \<notin> set b \<Longrightarrow> a @ CHR '':'' # x = b @ CHR '':'' # y \<Longrightarrow> a = b \<and> x = y"
proof (induction a arbitrary: b)
  case Nil
  then show ?case by (cases b) auto
next
  case (Cons c a)
  then show ?case by (cases b) auto
qed

lemma scalar_canonical: "scalar v \<Longrightarrow> scalar w \<Longrightarrow> canonical_json v = canonical_json w \<Longrightarrow> v = w"
  using canonical_json_inj[of v w] by (cases v; cases w) (auto simp: scalar_def)

lemma endpoint_node_key:
  "node_key [(''kind'', JStr k), (''reference'', JStr r), (''value'', v)] =
     Inr (k @ CHR '':'' # (if k = ''literal'' then canonical_json v else r))"
  by (simp add: node_key_def get_item_def get_field_def)

text \<open>
  The key of a node is its identity: two nodes that pass the checks of an endpoint have the
  same key only if they are the same node, whatever their kinds.
\<close>

theorem node_key_identifies:
  assumes "endpoint a = Inr x" "endpoint b = Inr y" "node_key x = node_key y"
  shows "x = y"
proof -
  obtain k r v where x: "k \<in> set node_kinds" "x = [(''kind'', JStr k), (''reference'', JStr r), (''value'', v)]"
    "(k = ''literal'' \<longrightarrow> r = [] \<and> scalar v) \<and> (k \<noteq> ''literal'' \<longrightarrow> v = JNull)"
    using assms(1) by (rule endpoint_Inr)
  obtain l s w where y: "l \<in> set node_kinds" "y = [(''kind'', JStr l), (''reference'', JStr s), (''value'', w)]"
    "(l = ''literal'' \<longrightarrow> s = [] \<and> scalar w) \<and> (l \<noteq> ''literal'' \<longrightarrow> w = JNull)"
    using assms(2) by (rule endpoint_Inr)
  have "k @ CHR '':'' # (if k = ''literal'' then canonical_json v else r)
      = l @ CHR '':'' # (if l = ''literal'' then canonical_json w else s)"
    using assms(3) unfolding x(2) y(2) endpoint_node_key by simp
  note split_at_colon[OF node_kinds_no_colon[OF x(1)] node_kinds_no_colon[OF y(1)] this]
  with x y scalar_canonical[of v w] show ?thesis by (cases "k = ''literal''") auto
qed

theorem node_key_identifies_witness:
  "endpoint (JObj [(''kind'', JStr ''literal''), (''value'', JInt 1)]) =
     Inr [(''kind'', JStr ''literal''), (''reference'', JStr []), (''value'', JInt 1)]
   \<and> [(''kind'', JStr ''literal''), (''reference'', JStr []), (''value'', JInt 1)] =
     [(''kind'', JStr ''literal''), (''reference'', JStr []), (''value'', JInt 1)]"
  using node_key_identifies[of "JObj [(''kind'', JStr ''literal''), (''value'', JInt 1)]"
      "[(''kind'', JStr ''literal''), (''reference'', JStr []), (''value'', JInt 1)]"
      "JObj [(''value'', JInt 1), (''kind'', JStr ''literal'')]"
      "[(''kind'', JStr ''literal''), (''reference'', JStr []), (''value'', JInt 1)]"]
  by (simp add: make_endpoint_def node_kinds_def scalar_def get_field_def)

section \<open>Assertions\<close>

text \<open>The parts of an assertion that its revision pins: nodes by key, names as they are.\<close>

definition same_meaning :: "dict \<Rightarrow> dict \<Rightarrow> bool" where
  "same_meaning r s \<longleftrightarrow>
     bind_result (item_node r ''subject'') node_key = bind_result (item_node s ''subject'') node_key
     \<and> get_field r ''predicate'' = get_field s ''predicate''
     \<and> bind_result (item_node r ''object'') node_key = bind_result (item_node s ''object'') node_key
     \<and> record_scope r = record_scope s"

lemma meaning_Inr:
  assumes "meaning r = Inr m"
  obtains a p b where "bind_result (item_node r ''subject'') node_key = Inr a" "map_of r ''predicate'' = Some p"
    "bind_result (item_node r ''object'') node_key = Inr b"
    "m = JObj [(''subject'', JStr a), (''predicate'', p), (''object'', JStr b), (''scope'', record_scope r)]"
  using assms by (auto simp: meaning_def bind_result_Inr[of "bind_result _ _"] bind_result_Inr[of "get_item _ _"] get_item_def
      split: option.splits)

lemma sorted_meaning:
  "sort_json (JObj [(''subject'', a), (''predicate'', p), (''object'', b), (''scope'', s)]) =
    JObj [(''object'', sort_json b), (''predicate'', sort_json p), (''scope'', sort_json s), (''subject'', sort_json a)]"
  by simp

text \<open>
  C39. The revision of an assertion pins its meaning: for a digest without collisions on the two
  texts, two assertions whose predicate and scope are names have the same revision exactly when
  subject, predicate, object and scope agree. Locators, workspaces and operations do not count.
\<close>

theorem assertion_revision_pins_meaning:
  assumes "meaning r = Inr m" "meaning s = Inr n"
    and "scalar (get_field r ''predicate'')" "scalar (get_field s ''predicate'')"
    and "scalar (record_scope r)" "scalar (record_scope s)"
    and "hx (canonical_json m) = hx (canonical_json n) \<Longrightarrow> canonical_json m = canonical_json n"
  shows "assertion_revision hx r = assertion_revision hx s \<longleftrightarrow> same_meaning r s"
proof -
  have sc: "sort_json v = v" if "scalar v" for v
    using that by (cases v) (auto simp: scalar_def)
  obtain a p b where r: "bind_result (item_node r ''subject'') node_key = Inr a" "map_of r ''predicate'' = Some p"
    "bind_result (item_node r ''object'') node_key = Inr b"
    "m = JObj [(''subject'', JStr a), (''predicate'', p), (''object'', JStr b), (''scope'', record_scope r)]"
    using assms(1) by (rule meaning_Inr)
  obtain c q d where s: "bind_result (item_node s ''subject'') node_key = Inr c" "map_of s ''predicate'' = Some q"
    "bind_result (item_node s ''object'') node_key = Inr d"
    "n = JObj [(''subject'', JStr c), (''predicate'', q), (''object'', JStr d), (''scope'', record_scope s)]"
    using assms(2) by (rule meaning_Inr)
  have "assertion_revision hx r = assertion_revision hx s \<longleftrightarrow> canonical_json m = canonical_json n"
    using assms(1,2,7) by (auto simp: assertion_revision_def digest_def)
  also have "\<dots> \<longleftrightarrow> sort_json m = sort_json n"
    using canonical_json_inj[of m n] by (auto simp: canonical_json_def)
  also have "\<dots> \<longleftrightarrow> same_meaning r s"
    using assms(3-6) r(2) s(2) sc[of p] sc[of q] sc[OF assms(5)] sc[OF assms(6)]
    unfolding r(4) s(4) sorted_meaning same_meaning_def
    by (auto simp: r(1,3) s(1,3) get_field_def)
  finally show ?thesis .
qed

definition sample_assertion :: "string \<Rightarrow> dict" where
  "sample_assertion operation = [(''subject'', JObj [(''kind'', JStr ''artefact''), (''reference'', JStr ''wiki/x'')]),
     (''predicate'', JStr ''cites''), (''object'', JObj [(''kind'', JStr ''literal''), (''value'', JInt 1)]),
     (''operation'', JStr operation)]"

theorem assertion_revision_pins_meaning_witness:
  "assertion_revision (\<lambda>t. t) (sample_assertion ''a'') = assertion_revision (\<lambda>t. t) (sample_assertion ''b'')"
proof -
  have m: "\<exists>m. meaning (sample_assertion o1) = Inr m" for o1
    by (simp add: meaning_def sample_assertion_def item_node_def get_item_def node_key_def)
  obtain m n where mn: "meaning (sample_assertion ''a'') = Inr m" "meaning (sample_assertion ''b'') = Inr n"
    using m by blast
  have "same_meaning (sample_assertion ''a'') (sample_assertion ''b'')"
    by (simp add: same_meaning_def sample_assertion_def item_node_def get_item_def get_field_def record_scope_def)
  with assertion_revision_pins_meaning[OF mn, of "\<lambda>t. t"] show ?thesis
    by (simp add: sample_assertion_def get_field_def record_scope_def scalar_def)
qed

section \<open>Event payloads\<close>

text \<open>What a value must be to have a kind of the contract of an event type.\<close>

definition has_kind :: "json \<Rightarrow> json \<Rightarrow> bool" where
  "has_kind kind v \<longleftrightarrow>
     (kind = JStr ''string'' \<and> (\<exists>s. v = JStr s \<and> \<not> py_blank s))
     \<or> (kind = JStr ''number'' \<and> (\<exists>i. v = JInt i))
     \<or> (kind = JStr ''boolean'' \<and> (\<exists>b. v = JBool b))
     \<or> (kind = JStr ''reference'' \<and> (\<exists>d e. v = JObj d \<and> endpoint v = Inr e \<and> get_field e ''kind'' \<noteq> JStr ''literal''))"

lemma gather_unit:
  "(\<exists>us. gather f xs = Inr us) \<longleftrightarrow> (\<forall>x \<in> set xs. \<exists>u. f x = Inr u)"
  by (induction xs) (auto simp: bind_result_Inr)

lemma check_payload_field_Inr:
  assumes "map_of c ''name'' = Some (JStr n)" "map_of c ''required'' = Some q" "map_of c ''kind'' = Some k"
  shows "check_payload_field payload c = Inr () \<longleftrightarrow>
    (case map_of payload n of None \<Rightarrow> \<not> json_truthy q | Some v \<Rightarrow> has_kind k v)"
proof (cases "map_of payload n")
  case None
  with assms show ?thesis by (simp add: check_payload_field_def text_item_def get_item_def)
next
  case (Some v)
  show ?thesis
    by (cases v) (use assms Some in \<open>auto simp: check_payload_field_def text_item_def get_item_def has_kind_def bind_result_Inr
        simp del: endpoint.simps(1) split: if_splits\<close>)
qed

lemma contract_fields_Inr:
  assumes "contract_fields defn = Inr declared"
  shows "distinct (map fst declared)" "(n, c) \<in> set declared \<Longrightarrow> map_of c ''name'' = Some (JStr n)"
proof -
  let ?f = "\<lambda>item. case item of
      JObj f \<Rightarrow> bind_result (text_item f ''name'') (\<lambda>n. Inr (n, f)) | _ \<Rightarrow> Inl TypeError"
  obtain fs where fs: "gather ?f (list_items defn ''fields'') = Inr fs" "declared = dict_update [] fs"
    using assms by (auto simp: contract_fields_def bind_result_Inr)
  show "distinct (map fst declared)" unfolding fs(2) by (rule distinct_dict_update) simp
  have one: "map_of (snd y) ''name'' = Some (JStr (fst y))" if "?f x = Inr y" for x y
    using that by (cases x) (auto simp: bind_result_Inr text_item_Inr)
  show "map_of c ''name'' = Some (JStr n)" if nc: "(n, c) \<in> set declared"
  proof -
    have "(n, c) \<in> set fs" using nc set_dict_update[of "[]" fs] unfolding fs(2) by auto
    then obtain x where "?f x = Inr (n, c)" using gather_back[OF fs(1)] by blast
    from one[OF this] show ?thesis by simp
  qed
qed

lemma payload_fields_typed:
  assumes d: "distinct (map fst declared)" "distinct (map fst payload)"
    and field: "\<And>n c. (n, c) \<in> set declared \<Longrightarrow> check_payload_field payload c = Inr () \<longleftrightarrow>
      (case map_of payload n of None \<Rightarrow> \<not> json_truthy (get_field c ''required'') | Some v \<Rightarrow> has_kind (get_field c ''kind'') v)"
  shows "fst ` set payload \<subseteq> fst ` set declared \<and> (\<forall>(n, c) \<in> set declared. check_payload_field payload c = Inr ()) \<longleftrightarrow>
    (\<forall>(n, v) \<in> set payload. \<exists>c. map_of declared n = Some c \<and> has_kind (get_field c ''kind'') v)
    \<and> (\<forall>(n, c) \<in> set declared. json_truthy (get_field c ''required'') \<longrightarrow> map_of payload n \<noteq> None)" (is "?l \<longleftrightarrow> ?r")
proof
  assume l: ?l
  have "\<exists>c. map_of declared n = Some c \<and> has_kind (get_field c ''kind'') v" if v: "(n, v) \<in> set payload" for n v
  proof -
    from l v have "n \<in> fst ` set declared" by force
    then obtain c where c: "(n, c) \<in> set declared" by auto
    moreover have "map_of payload n = Some v" using v d(2) by simp
    ultimately show ?thesis using l field[OF c] d(1) by auto
  qed
  moreover have "map_of payload n \<noteq> None" if "(n, c) \<in> set declared" "json_truthy (get_field c ''required'')" for n c
    using l field[OF that(1)] that by (auto split: option.splits)
  ultimately show ?r by blast
next
  assume r: ?r
  have "fst ` set payload \<subseteq> fst ` set declared"
    using r by (force dest: map_of_SomeD)
  moreover have "check_payload_field payload c = Inr ()" if c: "(n, c) \<in> set declared" for n c
  proof (cases "map_of payload n")
    case None
    with r c field[OF c] show ?thesis by auto
  next
    case (Some v)
    then have "(n, v) \<in> set payload" by (rule map_of_SomeD)
    moreover have "map_of declared n = Some c" using c d(1) by simp
    ultimately show ?thesis using r field[OF c] Some by auto
  qed
  ultimately show ?l by blast
qed

text \<open>
  C38. A payload is accepted exactly when it is typed by the contract: each of its values stands
  under a declared name and has the kind declared for it, and every required name is there.
\<close>

theorem payloads_are_typed:
  assumes "map_of defn ''kind'' = Some (JStr ''event-type'')" "contract_fields defn = Inr declared"
    and "\<And>n c. (n, c) \<in> set declared \<Longrightarrow> map_of c ''required'' \<noteq> None \<and> map_of c ''kind'' \<noteq> None"
    and "distinct (map fst payload)"
  shows "validate_event_payload payload defn = Inr () \<longleftrightarrow>
    (\<forall>(n, v) \<in> set payload. \<exists>c. map_of declared n = Some c \<and> has_kind (get_field c ''kind'') v)
    \<and> (\<forall>(n, c) \<in> set declared. json_truthy (get_field c ''required'') \<longrightarrow> map_of payload n \<noteq> None)"
proof -
  have field: "check_payload_field payload c = Inr () \<longleftrightarrow>
      (case map_of payload n of None \<Rightarrow> \<not> json_truthy (get_field c ''required'') | Some v \<Rightarrow> has_kind (get_field c ''kind'') v)"
    if nc: "(n, c) \<in> set declared" for n c
  proof -
    obtain q k where qk: "map_of c ''required'' = Some q" "map_of c ''kind'' = Some k" using assms(3)[OF nc] by blast
    with check_payload_field_Inr[OF contract_fields_Inr(2)[OF assms(2) nc] qk] show ?thesis
      by (simp add: get_field_def split: option.split)
  qed
  have "validate_event_payload payload defn = Inr () \<longleftrightarrow>
      fst ` set payload \<subseteq> fst ` set declared \<and> (\<forall>(n, c) \<in> set declared. check_payload_field payload c = Inr ())"
    using assms(1,2) gather_unit[of "\<lambda>(n, c). check_payload_field payload c" declared]
    by (auto simp: validate_event_payload_def get_item_def bind_result_Inr)
  also note payload_fields_typed[OF contract_fields_Inr(1)[OF assms(2)] assms(4) field]
  finally show ?thesis .
qed

definition sample_contract :: dict where
  "sample_contract = [(''kind'', JStr ''event-type''), (''fields'', JArr
     [JObj [(''name'', JStr ''reason''), (''kind'', JStr ''string''), (''required'', JBool True)]])]"

theorem payloads_are_typed_witness:
  "validate_event_payload [(''reason'', JStr ''moved'')] sample_contract = Inr ()
   \<and> validate_event_payload [(''reason'', JInt 1)] sample_contract \<noteq> Inr ()"
proof -
  let ?fields = "[(''reason'', [(''name'', JStr ''reason''), (''kind'', JStr ''string''), (''required'', JBool True)])]"
  have c: "map_of sample_contract ''kind'' = Some (JStr ''event-type'')" "contract_fields sample_contract = Inr ?fields"
    by (simp_all add: sample_contract_def contract_fields_def list_items_def text_item_def get_item_def)
  have f: "\<And>n c. (n, c) \<in> set ?fields \<Longrightarrow> map_of c ''required'' \<noteq> None \<and> map_of c ''kind'' \<noteq> None" by auto
  have "\<not> py_blank ''moved''" by code_simp
  with payloads_are_typed[OF c f, where payload = "[(''reason'', JStr ''moved'')]"]
    payloads_are_typed[OF c f, where payload = "[(''reason'', JInt 1)]"]
  show ?thesis by (simp add: has_kind_def get_field_def)
qed

end
