(* ===== verification/Relationship_Store.thy ===== *)
theory Relationship_Store
  imports Relationship_Model Json_Reader
begin

text \<open>
  \<open>_relationships/storage.py\<close>: the shared records, one JSON file each, the index projected from
  them, and the publication of an operation through its journal, with repair and abandonment.
  Files are kept by their path below the Brain; \<open>hx\<close> stands for \<open>hashlib.sha256(...).hexdigest()\<close>.
  Links, the stamps of files and directories and what rests on them (\<open>generation\<close>,
  \<open>source_freshness\<close>, \<open>refresh\<close>) are left out.
\<close>

section \<open>Record envelopes\<close>

definition RECORD_KINDS :: "string list" where
  "RECORD_KINDS = [''assertion'', ''occurrence'', ''endpoint'', ''event'', ''contract'', ''predicate'',
     ''event-type'', ''policy'', ''operation'']"

definition SCHEMA :: json where
  "SCHEMA = JStr ''brain.relationship-record/1''"

definition MAX_RECORD_BYTES :: int where
  "MAX_RECORD_BYTES = 262144"

definition required_fields :: "string \<Rightarrow> string list" where
  "required_fields kind =
    (if kind = ''assertion'' \<or> kind = ''occurrence'' then
       [''subject'', ''predicate'', ''object'', ''scope'', ''revision'']
     else if kind = ''endpoint'' then [''node'', ''path'', ''born'', ''type'']
     else if kind = ''event'' then
       [''subject'', ''type'', ''payload'', ''contract_revision'', ''revision'', ''recorded_at'', ''provenance'']
     else if kind = ''predicate'' \<or> kind = ''event-type'' then [''name'', ''meaning'', ''contract_revision'']
     else if kind = ''contract'' then [''definition'']
     else if kind = ''policy'' then [''selected'']
     else [''state''])"

definition text_fields :: "string list" where
  "text_fields = [''predicate'', ''type'', ''scope'', ''revision'', ''contract_revision'', ''recorded_at'',
     ''path'', ''born'', ''meaning'', ''name'']"

definition journal_states :: "string list" where
  "journal_states = [''pending'', ''native-pending'', ''state-committed'', ''projection-pending'',
     ''complete'', ''abandoned'']"

definition terminal :: "json \<Rightarrow> bool" where
  "terminal state \<longleftrightarrow> state = JStr ''complete'' \<or> state = JStr ''abandoned''"

definition retired :: "dict \<Rightarrow> bool" where
  "retired d \<longleftrightarrow> json_truthy (get_field d ''retired'')"

definition check_payload_item :: "string \<times> json \<Rightarrow> exn + unit" where
  "check_payload_item item =
     bind_result (record_identifier (JStr (fst item))) (\<lambda>_. case snd item of
         JObj d \<Rightarrow> bind_result (endpoint (JObj d)) (\<lambda>_. Inr ())
       | JArr _ \<Rightarrow> Inl ValueError
       | _ \<Rightarrow> Inr ())"

definition check_node_field :: "dict \<Rightarrow> string \<Rightarrow> exn + unit" where
  "check_node_field d k = (case map_of d k of
       None \<Rightarrow> Inr () | Some v \<Rightarrow> bind_result (endpoint v) (\<lambda>_. Inr ()))"

definition payload_fields :: "dict \<Rightarrow> dict" where
  "payload_fields d = (case map_of d ''payload'' of Some (JObj fs) \<Rightarrow> fs | _ \<Rightarrow> [])"

text \<open>The checks every envelope goes through, and what the kind of the record adds.\<close>

definition validate_envelope :: "dict \<Rightarrow> exn + string" where
  "validate_envelope d =
     bind_result (check_that (map_of d ''schema'' = Some SCHEMA) ValueError) (\<lambda>_.
     bind_result (record_identifier (get_field d ''id'')) (\<lambda>_.
     bind_result (check_that (get_field d ''kind'' \<in> set (map JStr RECORD_KINDS)) ValueError) (\<lambda>_.
     bind_result (text_item d ''kind'') (\<lambda>kind.
     bind_result (check_that (case map_of d ''retired'' of None \<Rightarrow> True | Some (JBool _) \<Rightarrow> True | _ \<Rightarrow> False)
       ValueError) (\<lambda>_.
     bind_result (check_that (retired d \<or> list_all (\<lambda>k. map_of d k \<noteq> None) (required_fields kind))
       ValueError) (\<lambda>_.
     bind_result (gather (check_node_field d) [''subject'', ''object'', ''node'']) (\<lambda>_.
     bind_result (check_that (list_all (\<lambda>k. case map_of d k of
         None \<Rightarrow> True | Some (JStr s) \<Rightarrow> s \<noteq> [] | _ \<Rightarrow> False) text_fields) ValueError) (\<lambda>_.
     bind_result (check_that (case map_of d ''payload'' of None \<Rightarrow> True | Some (JObj _) \<Rightarrow> True | _ \<Rightarrow> False)
       ValueError) (\<lambda>_.
     bind_result (gather check_payload_item (payload_fields d)) (\<lambda>_.
     bind_result (if get_field d ''corrects'' = JNull then Inr ()
       else bind_result (record_identifier (get_field d ''corrects'')) (\<lambda>_. Inr ())) (\<lambda>_.
       Inr kind)))))))))))"

definition validate_contract :: "(string \<Rightarrow> string) \<Rightarrow> string \<Rightarrow> dict \<Rightarrow> exn + unit" where
  "validate_contract hx kind d =
     bind_result (if kind = ''predicate'' \<or> kind = ''event-type'' then validate_definition hx (JObj d) None
                  else Inr []) (\<lambda>_.
     bind_result (if kind = ''contract'' then validate_definition hx (get_field d ''definition'') None
                  else Inr []) (\<lambda>_. Inr ()))"

definition check_removal :: "json \<Rightarrow> exn + unit" where
  "check_removal item = (case item of
       JArr [kind, identity] \<Rightarrow>
         bind_result (check_that (kind \<in> set (map JStr RECORD_KINDS)) ValueError) (\<lambda>_.
         bind_result (record_identifier identity) (\<lambda>_. Inr ()))
     | _ \<Rightarrow> Inl ValueError)"

definition with_schema :: "dict \<Rightarrow> dict" where
  "with_schema d = AList.update ''schema'' SCHEMA d"

text \<open>An unresolved journal holds its captured inputs; \<open>check\<close> is the check of a captured record.\<close>

definition validate_journal :: "(json \<Rightarrow> exn + unit) \<Rightarrow> dict \<Rightarrow> exn + unit" where
  "validate_journal check d =
     bind_result (get_item d ''state'') (\<lambda>state.
     bind_result (check_that (state \<in> set (map JStr journal_states)) ValueError) (\<lambda>_.
     if terminal state then Inr ()
     else
       bind_result (check_that (list_all (\<lambda>k. case map_of d k of Some (JArr _) \<Rightarrow> True | _ \<Rightarrow> False)
         [''records'', ''events'', ''removals'']) ValueError) (\<lambda>_.
       bind_result (gather (\<lambda>item. case item of JObj r \<Rightarrow> check (JObj (with_schema r)) | _ \<Rightarrow> Inl ValueError)
         (list_items d ''records'' @ list_items d ''events'')) (\<lambda>_.
       bind_result (gather check_removal (list_items d ''removals'')) (\<lambda>_. Inr ())))))"

text \<open>\<open>_validate_record\<close>: the number counts the levels of captured records that remain.\<close>

fun validate_record :: "(string \<Rightarrow> string) \<Rightarrow> nat \<Rightarrow> json \<Rightarrow> exn + unit" where
  "validate_record hx 0 v = Inl ValueError"
| "validate_record hx (Suc n) v = (case v of
       JObj d \<Rightarrow>
         bind_result (validate_envelope d) (\<lambda>kind.
         bind_result (validate_contract hx kind d) (\<lambda>_.
         if kind = ''operation'' then validate_journal (\<lambda>r. validate_record hx n r) d else Inr ()))
     | _ \<Rightarrow> Inl ValueError)"

definition decode :: "(string \<Rightarrow> string) \<Rightarrow> string \<Rightarrow> exn + dict" where
  "decode hx raw =
     bind_result (check_that (int (length raw) \<le> MAX_RECORD_BYTES) ValueError) (\<lambda>_.
     case scan_json raw of
       None \<Rightarrow> Inl ValueError
     | Some v \<Rightarrow>
         bind_result (check_that (distinct_keys v) ValueError) (\<lambda>_.
         bind_result (validate_record hx 5 v) (\<lambda>_. case v of JObj d \<Rightarrow> Inr d | _ \<Rightarrow> Inl ValueError)))"

section \<open>Files\<close>

text \<open>
  What becomes of a file transaction or of an index transaction: it is carried out, it raises and
  leaves everything as it was (\<open>apply_file_changes\<close> rolls back), or the process is killed after
  some of the changes.
\<close>

datatype fate = Commits | RollsBack exn | Dies nat

record rel_index =
  ri_rows :: "((string \<times> string) \<times> dict) list"
  ri_refs :: "(string \<times> (string \<times> string)) list"

record rel_store =
  rl_files :: "(string \<times> string) list"
  rl_native :: "(string \<times> string) list"
  rl_index :: "rel_index option"
  rl_fates :: "fate list"

definition store_path :: "(string \<Rightarrow> string) \<Rightarrow> string \<Rightarrow> string \<Rightarrow> exn + string" where
  "store_path hx kind identity =
     bind_result (check_that (kind \<in> set RECORD_KINDS) ValueError) (\<lambda>_.
     bind_result (record_identifier (JStr identity)) (\<lambda>_.
       Inr ((if kind = ''predicate'' \<or> kind = ''event-type'' \<or> kind = ''policy''
             then ''_Config/Relationships/'' else ''_Relationships/'')
            @ kind @ ''/'' @ hx identity @ ''.json'')))"

definition read_record :: "(string \<Rightarrow> string) \<Rightarrow> string \<Rightarrow> string \<Rightarrow> rel_store \<Rightarrow> exn + dict option" where
  "read_record hx kind identity s =
     bind_result (store_path hx kind identity) (\<lambda>p. case map_of (rl_files s) p of
         None \<Rightarrow> Inr None
       | Some raw \<Rightarrow>
           bind_result (decode hx raw) (\<lambda>d.
           bind_result (check_that (map_of d ''id'' = Some (JStr identity) \<and> map_of d ''kind'' = Some (JStr kind))
             ValueError) (\<lambda>_. Inr (Some d))))"

definition content_revision :: "(string \<Rightarrow> string) \<Rightarrow> string option \<Rightarrow> json" where
  "content_revision hx raw = (case raw of None \<Rightarrow> JNull | Some b \<Rightarrow> JStr (''sha256:'' @ hx b))"

definition file_revision :: "(string \<Rightarrow> string) \<Rightarrow> string \<Rightarrow> string \<Rightarrow> rel_store \<Rightarrow> exn + json" where
  "file_revision hx kind identity s =
     bind_result (store_path hx kind identity) (\<lambda>p. Inr (content_revision hx (map_of (rl_files s) p)))"

section \<open>Writing\<close>

type_synonym file_edit = "string \<times> string option"

fun edit_file :: "file_edit \<Rightarrow> (string \<times> string) list \<Rightarrow> (string \<times> string) list" where
  "edit_file (p, Some text) files = AList.update p text files"
| "edit_file (p, None) files = AList.delete p files"

definition edit_files :: "file_edit list \<Rightarrow> (string \<times> string) list \<Rightarrow> (string \<times> string) list" where
  "edit_files edits files = fold edit_file edits files"

definition record_text :: "dict \<Rightarrow> string" where
  "record_text d = canonical_json (JObj (with_schema d)) @ [byte 10]"

text \<open>A record is encoded, and decoded again, before it is planned.\<close>

definition planned_record :: "(string \<Rightarrow> string) \<Rightarrow> dict \<Rightarrow> exn + file_edit" where
  "planned_record hx d =
     bind_result (decode hx (record_text d)) (\<lambda>_.
     bind_result (text_item d ''kind'') (\<lambda>kind.
     bind_result (text_item d ''id'') (\<lambda>identity.
     bind_result (store_path hx kind identity) (\<lambda>p. Inr (p, Some (record_text d))))))"

definition planned_removal :: "(string \<Rightarrow> string) \<Rightarrow> string \<times> string \<Rightarrow> exn + file_edit" where
  "planned_removal hx r = bind_result (store_path hx (fst r) (snd r)) (\<lambda>p. Inr (p, None))"

definition planned_edits ::
  "(string \<Rightarrow> string) \<Rightarrow> dict list \<Rightarrow> (string \<times> string) list \<Rightarrow> exn + file_edit list"
where
  "planned_edits hx records removals =
     bind_result (gather (planned_record hx) records) (\<lambda>es.
     bind_result (gather (planned_removal hx) removals) (\<lambda>ds.
       Inr (dict_update [] (es @ ds))))"

text \<open>\<open>plan.changes()\<close>: the files that change, in the order of their paths.\<close>

definition real_edits :: "(string \<times> string) list \<Rightarrow> file_edit list \<Rightarrow> file_edit list" where
  "real_edits files edits = filter (\<lambda>(p, after). map_of files p \<noteq> after) (sort_key fst edits)"

definition apply_edits :: "file_edit list \<Rightarrow> (rel_store, unit) prog" where
  "apply_edits edits s = (case rl_fates s of
       [] \<Rightarrow> (Inr (), s\<lparr>rl_files := edit_files edits (rl_files s)\<rparr>)
     | Commits # fs \<Rightarrow> (Inr (), s\<lparr>rl_files := edit_files edits (rl_files s), rl_fates := fs\<rparr>)
     | RollsBack e # fs \<Rightarrow> (Inl e, s\<lparr>rl_fates := fs\<rparr>)
     | Dies k # fs \<Rightarrow> (Inl ProcessKilled, s\<lparr>rl_files := edit_files (take k edits) (rl_files s), rl_fates := fs\<rparr>))"

definition write_records :: "(string \<Rightarrow> string) \<Rightarrow> dict list \<Rightarrow> (string \<times> string) list \<Rightarrow> (rel_store, unit) prog" where
  "write_records hx records removals =
     bind_prog (lift_result (\<lambda>s. planned_edits hx records removals)) (\<lambda>edits s.
       apply_edits (real_edits (rl_files s) edits) s)"

section \<open>The index\<close>

definition empty_index :: rel_index where
  "empty_index = \<lparr>ri_rows = [], ri_refs = []\<rparr>"

text \<open>\<open>initialise\<close>: a missing index is made only where there is nothing to project.\<close>

definition initialise :: "(rel_store, unit) prog" where
  "initialise s = (case rl_index s of
       Some _ \<Rightarrow> (Inr (), s)
     | None \<Rightarrow> if rl_files s \<noteq> [] then (Inl RelationshipConflict, s)
               else (Inr (), s\<lparr>rl_index := Some empty_index\<rparr>))"

definition unindex :: "string \<times> string \<Rightarrow> rel_index \<Rightarrow> rel_index" where
  "unindex key ix = \<lparr>ri_rows = AList.delete key (ri_rows ix), ri_refs = filter (\<lambda>(t, k). k \<noteq> key) (ri_refs ix)\<rparr>"

definition node_text :: "json \<Rightarrow> exn + json" where
  "node_text v =
     (if json_truthy v
      then (case v of JObj d \<Rightarrow> bind_result (node_key d) (\<lambda>k. Inr (JStr k)) | _ \<Rightarrow> Inl TypeError)
      else Inr JNull)"

text \<open>The columns of a record's row, the stamp left out.\<close>

definition index_row :: "(string \<Rightarrow> string) \<Rightarrow> string \<Rightarrow> string \<Rightarrow> dict \<Rightarrow> rel_store \<Rightarrow> exn + dict" where
  "index_row hx kind identity d s =
     bind_result (store_path hx kind identity) (\<lambda>p.
     bind_result (node_text (if json_truthy (get_field d ''subject'') then get_field d ''subject'' else get_field d ''node''))
       (\<lambda>subject.
     bind_result (node_text (get_field d ''object'')) (\<lambda>obj.
     bind_result (case map_of (rl_files s) p of None \<Rightarrow> Inl FileNotFoundError | Some raw \<Rightarrow> Inr raw) (\<lambda>raw.
     bind_result (if kind = ''assertion'' \<and> json_truthy (get_field d ''subject'')
                  then bind_result (slot_key hx d) (\<lambda>t. Inr (JStr t)) else Inr JNull) (\<lambda>slot.
       Inr [(''kind'', JStr kind), (''id'', JStr identity), (''path'', JStr p),
         (''revision'', content_revision hx (Some raw)), (''subject'', subject), (''object'', obj),
         (''predicate'', case map_of d ''predicate'' of Some v \<Rightarrow> v | None \<Rightarrow> get_field d ''type''),
         (''scope'', get_field d ''scope''), (''slot'', slot), (''corrects'', get_field d ''corrects''),
         (''workspace'', case map_of d ''workspace'' of Some v \<Rightarrow> v | None \<Rightarrow> JStr ''global''),
         (''time'', get_field d ''recorded_at''), (''retired'', JInt (if retired d then 1 else 0))])))))"

definition payload_targets :: "dict \<Rightarrow> exn + string list" where
  "payload_targets d =
     gather node_key
       (List.map_filter (\<lambda>(n, v). case v of
           JObj x \<Rightarrow> if map_of x ''kind'' = None then None else Some x | _ \<Rightarrow> None) (payload_fields d))"

definition object_items :: "json list \<Rightarrow> exn + dict list" where
  "object_items vs = gather (\<lambda>v. case v of JObj d \<Rightarrow> Inr d | _ \<Rightarrow> Inl TypeError) vs"

definition removal_pair :: "json \<Rightarrow> exn + string \<times> string" where
  "removal_pair v = (case v of JArr [JStr k, JStr i] \<Rightarrow> Inr (k, i) | _ \<Rightarrow> Inl TypeError)"

text \<open>The events a pending journal holds captured.\<close>

definition journal_targets :: "dict \<Rightarrow> exn + string list" where
  "journal_targets d =
     bind_result (object_items (list_items d ''records'' @ list_items d ''events'')) (\<lambda>items.
     bind_result (gather (\<lambda>r. bind_result (text_item r ''kind'') (\<lambda>k.
         bind_result (text_item r ''id'') (\<lambda>i. Inr (k, i)))) items) (\<lambda>keys.
     bind_result (gather removal_pair (list_items d ''removals'')) (\<lambda>gone.
       Inr (map (\<lambda>(k, i). ''event:'' @ i) (remdups (filter (\<lambda>(k, i). k = ''event'') (keys @ gone)))))))"

definition index_record :: "(string \<Rightarrow> string) \<Rightarrow> rel_store \<Rightarrow> dict \<Rightarrow> rel_index \<Rightarrow> exn + rel_index" where
  "index_record hx s d ix =
     bind_result (text_item d ''kind'') (\<lambda>kind.
     bind_result (text_item d ''id'') (\<lambda>identity.
     bind_result (payload_targets d) (\<lambda>targets.
     bind_result (if kind = ''operation''
                  then bind_result (get_item d ''state'') (\<lambda>state. if terminal state then Inr [] else journal_targets d)
                  else Inr []) (\<lambda>captured.
     bind_result (index_row hx kind identity d s) (\<lambda>row.
       let ix = unindex (kind, identity) ix in
       Inr \<lparr>ri_rows = AList.update (kind, identity) row (ri_rows ix),
            ri_refs = ri_refs ix @ map (\<lambda>t. (t, (kind, identity))) (targets @ captured)\<rparr>)))))"

text \<open>One transaction of the database: its effect, or nothing.\<close>

definition index_transaction :: "(rel_store \<Rightarrow> rel_index \<Rightarrow> exn + rel_index) \<Rightarrow> (rel_store, unit) prog" where
  "index_transaction f s =
    (let ix = (case rl_index s of None \<Rightarrow> empty_index | Some ix \<Rightarrow> ix);
         commit = (\<lambda>s. case f s ix of Inl e \<Rightarrow> (Inl e, s) | Inr ix \<Rightarrow> (Inr (), s\<lparr>rl_index := Some ix\<rparr>))
     in (case rl_fates s of
           [] \<Rightarrow> commit s
         | Commits # fs \<Rightarrow> commit (s\<lparr>rl_fates := fs\<rparr>)
         | RollsBack e # fs \<Rightarrow> (Inl e, s\<lparr>rl_fates := fs\<rparr>)
         | Dies k # fs \<Rightarrow> (Inl ProcessKilled, s\<lparr>rl_fates := fs\<rparr>)))"

definition reconcile ::
  "(string \<Rightarrow> string) \<Rightarrow> dict list \<Rightarrow> (string \<times> string) list \<Rightarrow> (rel_store, unit) prog"
where
  "reconcile hx records removals =
     index_transaction (\<lambda>s ix. fold_results (index_record hx s) records (fold unindex removals ix))"

definition reconcile_journal :: "(string \<Rightarrow> string) \<Rightarrow> string \<Rightarrow> (rel_store, unit) prog" where
  "reconcile_journal hx identity =
     index_transaction (\<lambda>s ix.
       bind_result (store_path hx ''operation'' identity) (\<lambda>p.
       case map_of (rl_files s) p of
         None \<Rightarrow> Inl FileNotFoundError
       | Some raw \<Rightarrow>
           let key = (''operation'', identity) in
           Inr \<lparr>ri_rows = (case map_of (ri_rows ix) key of
                    None \<Rightarrow> ri_rows ix
                  | Some row \<Rightarrow> AList.update key (AList.update ''revision'' (content_revision hx (Some raw)) row) (ri_rows ix)),
                ri_refs = filter (\<lambda>(t, k). k \<noteq> key) (ri_refs ix)\<rparr>))"

text \<open>
  \<open>rows(budget, **filters)\<close>: a column equal to a value or to one of several; null equals nothing.
  \<open>checked(row)\<close>: the file behind a row, if it is still the indexed one.
\<close>

definition row_order :: "((string \<times> string) \<times> dict) list \<Rightarrow> ((string \<times> string) \<times> dict) list" where
  "row_order = sort_key (\<lambda>r. fst (fst r)) \<circ> sort_key (\<lambda>r. snd (fst r))"

definition matches :: "(string \<times> json list) list \<Rightarrow> dict \<Rightarrow> bool" where
  "matches filters row \<longleftrightarrow>
     list_all (\<lambda>(column, vs). get_field row column \<noteq> JNull \<and> get_field row column \<in> set vs) filters"

definition index_rows :: "nat \<Rightarrow> (string \<times> json list) list \<Rightarrow> (rel_store, dict list) prog" where
  "index_rows budget filters =
     bind_prog initialise (\<lambda>_ s.
       (Inr (take (Suc budget) (filter (matches filters)
          (map snd (row_order (case rl_index s of None \<Rightarrow> [] | Some ix \<Rightarrow> ri_rows ix))))), s))"

definition checked :: "(string \<Rightarrow> string) \<Rightarrow> dict \<Rightarrow> rel_store \<Rightarrow> exn + dict" where
  "checked hx row s =
     bind_result (text_item row ''kind'') (\<lambda>kind.
     bind_result (text_item row ''id'') (\<lambda>identity.
     bind_result (store_path hx kind identity) (\<lambda>p.
     case map_of (rl_files s) p of
       None \<Rightarrow> Inl RelationshipConflict
     | Some raw \<Rightarrow>
         bind_result (check_that (content_revision hx (Some raw) = get_field row ''revision'') RelationshipConflict)
           (\<lambda>_. decode hx raw))))"

section \<open>Publication\<close>

definition removal_json :: "string \<times> string \<Rightarrow> json" where
  "removal_json r = JArr [JStr (fst r), JStr (snd r)]"

definition original_key :: "string \<Rightarrow> string \<Rightarrow> string" where
  "original_key kind identity = kind @ '':'' @ identity"

text \<open>The revisions before the operation, by kind and identity.\<close>

definition original_of :: "(string \<Rightarrow> string) \<Rightarrow> rel_store \<Rightarrow> string \<times> string \<Rightarrow> exn + string \<times> json" where
  "original_of hx s key =
     bind_result (file_revision hx (fst key) (snd key) s) (\<lambda>r. Inr (original_key (fst key) (snd key), r))"

definition item_key :: "dict \<Rightarrow> exn + string \<times> string" where
  "item_key d = bind_result (text_item d ''kind'') (\<lambda>k. bind_result (text_item d ''id'') (\<lambda>i. Inr (k, i)))"

definition captured_originals ::
  "(string \<Rightarrow> string) \<Rightarrow> dict \<Rightarrow> dict list \<Rightarrow> (string \<times> string) list \<Rightarrow> rel_store \<Rightarrow> exn + dict"
where
  "captured_originals hx previous items removals s =
     bind_result (gather (\<lambda>d. bind_result (item_key d) (original_of hx s)) items) (\<lambda>current.
     bind_result (case map_of previous ''originals'' of
         None \<Rightarrow> Inr (dict_update [] current) | Some (JObj o0) \<Rightarrow> Inr o0 | Some _ \<Rightarrow> Inl TypeError) (\<lambda>originals.
     bind_result (gather (original_of hx s) removals) (\<lambda>gone.
       Inr (dict_update originals gone))))"

definition journal_of ::
  "dict \<Rightarrow> string \<Rightarrow> string \<Rightarrow> dict list \<Rightarrow> dict list \<Rightarrow> (string \<times> string) list \<Rightarrow> dict \<Rightarrow> dict"
where
  "journal_of previous operation state records events removals originals =
     dict_update previous [(''kind'', JStr ''operation''), (''id'', JStr operation), (''state'', JStr state),
       (''records'', JArr (map JObj records)), (''events'', JArr (map JObj events)),
       (''removals'', JArr (map removal_json removals)), (''originals'', JObj originals)]"

definition set_state :: "string \<Rightarrow> dict \<Rightarrow> dict" where
  "set_state state journal = AList.update ''state'' (JStr state) journal"

definition terminal_journal :: "string \<Rightarrow> string \<Rightarrow> string option \<Rightarrow> dict" where
  "terminal_journal operation state reason =
     [(''kind'', JStr ''operation''), (''id'', JStr operation), (''state'', JStr state)]
     @ (case reason of None \<Rightarrow> [] | Some r \<Rightarrow> [(''resolution_reason'', JStr r)])"

definition publish ::
  "(string \<Rightarrow> string) \<Rightarrow> string \<Rightarrow> dict list \<Rightarrow> dict list \<Rightarrow> (string \<times> string) list \<Rightarrow> (rel_store, unit) prog"
where
  "publish hx operation records events removals =
     bind_prog initialise (\<lambda>_.
     bind_prog (lift_result (read_record hx ''operation'' operation)) (\<lambda>found.
     let previous = (case found of None \<Rightarrow> [] | Some d \<Rightarrow> d) in
     bind_prog (lift_result (captured_originals hx previous (records @ events) removals)) (\<lambda>originals.
     let journal = journal_of previous operation ''pending'' records events removals originals in
     bind_prog (write_records hx [journal] []) (\<lambda>_.
     bind_prog (write_records hx records removals) (\<lambda>_.
     bind_prog (write_records hx [set_state ''state-committed'' journal] []) (\<lambda>_.
     bind_prog (write_records hx events []) (\<lambda>_.
     bind_prog (write_records hx [set_state ''projection-pending'' journal] []) (\<lambda>_.
     bind_prog (reconcile hx (records @ events @ [set_state ''projection-pending'' journal]) removals) (\<lambda>_.
     bind_prog (write_records hx [terminal_journal operation ''complete'' None] []) (\<lambda>_.
       reconcile_journal hx operation))))))))))"

section \<open>Repair\<close>

text \<open>Python's equality of JSON values: fields in any order, a boolean equal to its number.\<close>

fun unbool :: "json \<Rightarrow> json" where
  "unbool (JBool b) = JInt (if b then 1 else 0)"
| "unbool (JArr vs) = JArr (map unbool vs)"
| "unbool (JObj fs) = JObj (map (\<lambda>(k, v). (k, unbool v)) fs)"
| "unbool v = v"

definition same_value :: "json \<Rightarrow> json \<Rightarrow> bool" where
  "same_value v w \<longleftrightarrow> sort_json (unbool v) = sort_json (unbool w)"

definition is_intended :: "dict \<Rightarrow> dict option \<Rightarrow> bool" where
  "is_intended d actual = (case actual of None \<Rightarrow> False | Some a \<Rightarrow> same_value (JObj a) (JObj (with_schema d)))"

definition read_item :: "(string \<Rightarrow> string) \<Rightarrow> dict \<Rightarrow> rel_store \<Rightarrow> exn + dict option" where
  "read_item hx d s = bind_result (item_key d) (\<lambda>(k, i). read_record hx k i s)"

text \<open>A locator that leads out of the Brain; an absolute one is taken to.\<close>

fun climbs :: "nat \<Rightarrow> string list \<Rightarrow> bool" where
  "climbs n [] = False"
| "climbs n (c # cs) =
     (if c = [] \<or> c = ''.'' then climbs n cs
      else if c = ''..'' then (case n of 0 \<Rightarrow> True | Suc m \<Rightarrow> climbs m cs)
      else climbs (Suc n) cs)"

definition escapes :: "string \<Rightarrow> bool" where
  "escapes locator \<longleftrightarrow> starts_with ''/'' locator \<or> climbs 0 (split_on (CHR ''/'') locator)"

definition native_unchanged :: "(string \<Rightarrow> string) \<Rightarrow> rel_store \<Rightarrow> string \<times> json \<Rightarrow> exn + unit" where
  "native_unchanged hx s guard =
     bind_result (check_that (\<not> escapes (fst guard)) ValueError) (\<lambda>_.
       check_that (content_revision hx (map_of (rl_native s) (fst guard)) = snd guard) RelationshipConflict)"

definition guard_items :: "dict \<Rightarrow> string \<Rightarrow> exn + dict" where
  "guard_items journal k = (case map_of journal k of
       None \<Rightarrow> Inr [] | Some (JObj gs) \<Rightarrow> Inr gs | Some v \<Rightarrow> if json_truthy v then Inl TypeError else Inr [])"

text \<open>A journal of a native change: the records may still have to be written, over what was admitted.\<close>

definition admitted_record :: "(string \<Rightarrow> string) \<Rightarrow> dict \<Rightarrow> rel_store \<Rightarrow> dict \<Rightarrow> exn + unit" where
  "admitted_record hx journal s d =
     bind_result (item_key d) (\<lambda>(k, i).
     bind_result (read_record hx k i s) (\<lambda>actual.
     if is_intended d actual then Inr ()
     else bind_result (item_node journal ''originals'') (\<lambda>originals.
       bind_result (file_revision hx k i s) (\<lambda>now.
         check_that (now = get_field originals (original_key k i)) RelationshipConflict))))"

definition commit_native :: "(string \<Rightarrow> string) \<Rightarrow> dict \<Rightarrow> dict list \<Rightarrow> (rel_store, unit) prog" where
  "commit_native hx journal records =
     bind_prog (lift_result (\<lambda>s. guard_items journal ''native_guards'')) (\<lambda>guards.
     if guards = [] then return_prog ()
     else
       bind_prog (lift_result (\<lambda>s. gather (native_unchanged hx s) guards)) (\<lambda>_.
       bind_prog (lift_result (\<lambda>s. gather (admitted_record hx journal s) records)) (\<lambda>_.
       write_records hx records [])))"

text \<open>Without the marker that the state was committed, everything must be in place already.\<close>

definition state_in_place ::
  "(string \<Rightarrow> string) \<Rightarrow> dict list \<Rightarrow> (string \<times> string) list \<Rightarrow> rel_store \<Rightarrow> exn + unit"
where
  "state_in_place hx records removals s =
     bind_result (gather (\<lambda>d. bind_result (read_item hx d s) (\<lambda>actual.
       check_that (is_intended d actual) RelationshipConflict)) records) (\<lambda>_.
     bind_result (gather (\<lambda>(k, i). bind_result (read_record hx k i s) (\<lambda>actual.
       check_that (actual = None) RelationshipConflict)) removals) (\<lambda>_. Inr ()))"

text \<open>\<open>_current_event_locators\<close>: the maintained node of an artefact with a persisted identity.\<close>

definition current_node :: "(string \<Rightarrow> string) \<Rightarrow> json \<Rightarrow> (rel_store, json) prog" where
  "current_node hx v = (case v of
       JObj d \<Rightarrow>
         if get_field d ''kind'' = JStr ''artefact'' \<and> json_truthy (get_field d ''identity'') then
           bind_prog (lift_result (\<lambda>s. node_key d)) (\<lambda>key.
           bind_prog (index_rows 1 [(''kind'', [JStr ''endpoint'']), (''subject'', [JStr key]), (''retired'', [JInt 0])])
             (\<lambda>rows.
           if 1 < length rows then raise_prog RelationshipConflict
           else (case rows of
               [] \<Rightarrow> return_prog v
             | row # _ \<Rightarrow> bind_prog (lift_result (checked hx row)) (\<lambda>r. lift_result (\<lambda>s. get_item r ''node'')))))
         else return_prog v
     | _ \<Rightarrow> return_prog v)"

fun current_fields :: "(string \<Rightarrow> string) \<Rightarrow> dict \<Rightarrow> (rel_store, dict) prog" where
  "current_fields hx [] = return_prog []"
| "current_fields hx (f # fs) =
     bind_prog (current_node hx (snd f)) (\<lambda>v. bind_prog (current_fields hx fs) (\<lambda>rest.
       return_prog ((fst f, v) # rest)))"

definition current_locators :: "(string \<Rightarrow> string) \<Rightarrow> dict \<Rightarrow> (rel_store, dict) prog" where
  "current_locators hx event =
     bind_prog (lift_result (\<lambda>s. get_item event ''subject'')) (\<lambda>subject.
     bind_prog (current_node hx subject) (\<lambda>subject.
     bind_prog (lift_result (\<lambda>s. item_node event ''payload'')) (\<lambda>payload.
     bind_prog (current_fields hx payload) (\<lambda>payload.
     let updated = dict_update event [(''subject'', subject), (''payload'', JObj payload)] in
     bind_prog (lift_result (\<lambda>s. event_revision hx updated)) (\<lambda>revision.
     bind_prog (lift_result (\<lambda>s. get_item event ''revision'')) (\<lambda>captured.
       if captured \<noteq> JStr revision then raise_prog RelationshipConflict else return_prog updated))))))"

text \<open>The captured events that are not there; one that is there must be the same.\<close>

fun missing_events :: "(string \<Rightarrow> string) \<Rightarrow> dict list \<Rightarrow> (rel_store, dict list) prog" where
  "missing_events hx [] = return_prog []"
| "missing_events hx (e # es) =
     bind_prog (lift_result (\<lambda>s. bind_result (text_item e ''id'') (\<lambda>i. read_record hx ''event'' i s))) (\<lambda>actual.
     case actual of
       None \<Rightarrow> bind_prog (current_locators hx e) (\<lambda>e'. bind_prog (missing_events hx es) (\<lambda>rest. return_prog (e' # rest)))
     | Some a \<Rightarrow>
         bind_prog (lift_result (\<lambda>s. get_item e ''revision'')) (\<lambda>revision.
         if get_field a ''revision'' \<noteq> revision then raise_prog RelationshipConflict
         else missing_events hx es))"

definition sorted_targets :: "(string \<times> string) list \<Rightarrow> (string \<times> string) list" where
  "sorted_targets keys = sort_key fst (sort_key snd (remdups keys))"

text \<open>The present records of some keys, and the keys that have none.\<close>

fun present_records ::
  "(string \<Rightarrow> string) \<Rightarrow> (string \<times> string) list \<Rightarrow> rel_store \<Rightarrow> exn + dict list \<times> (string \<times> string) list"
where
  "present_records hx [] s = Inr ([], [])"
| "present_records hx ((k, i) # keys) s =
     bind_result (read_record hx k i s) (\<lambda>actual.
     bind_result (present_records hx keys s) (\<lambda>(found, absent).
       case actual of None \<Rightarrow> Inr (found, (k, i) # absent) | Some d \<Rightarrow> Inr (d # found, absent)))"

definition finish_repair ::
  "(string \<Rightarrow> string) \<Rightarrow> string \<Rightarrow> dict \<Rightarrow> dict list \<Rightarrow> dict list \<Rightarrow> (string \<times> string) list \<Rightarrow> (rel_store, nat) prog"
where
  "finish_repair hx operation journal records events removals =
     bind_prog (missing_events hx events) (\<lambda>missing.
     bind_prog (write_records hx missing []) (\<lambda>_.
     bind_prog (write_records hx [set_state ''projection-pending'' journal] []) (\<lambda>_.
     bind_prog (lift_result (\<lambda>s. gather item_key (records @ events))) (\<lambda>keys.
     bind_prog (lift_result (present_records hx (sorted_targets (keys @ removals)))) (\<lambda>(found, absent).
     bind_prog (reconcile hx (found @ [set_state ''projection-pending'' journal]) absent) (\<lambda>_.
     bind_prog (write_records hx [terminal_journal operation ''complete'' None] []) (\<lambda>_.
     bind_prog (reconcile_journal hx operation) (\<lambda>_.
       return_prog (length missing)))))))))"

definition repair :: "(string \<Rightarrow> string) \<Rightarrow> string \<Rightarrow> (rel_store, nat) prog" where
  "repair hx operation =
     bind_prog (lift_result (read_record hx ''operation'' operation)) (\<lambda>found. case found of
         None \<Rightarrow> raise_prog ValueError
       | Some journal \<Rightarrow>
           bind_prog (lift_result (\<lambda>s. get_item journal ''state'')) (\<lambda>state.
           if state = JStr ''abandoned'' then raise_prog RelationshipConflict
           else if state = JStr ''complete'' then return_prog 0
           else
             bind_prog (lift_result (\<lambda>s. object_items (list_items journal ''records''))) (\<lambda>records.
             bind_prog (lift_result (\<lambda>s. object_items (list_items journal ''events''))) (\<lambda>events.
             bind_prog (lift_result (\<lambda>s. gather removal_pair (list_items journal ''removals''))) (\<lambda>removals.
             bind_prog (if state = JStr ''state-committed'' \<or> state = JStr ''projection-pending'' then return_prog ()
                        else bind_prog (commit_native hx journal records) (\<lambda>_.
                          lift_result (state_in_place hx records removals))) (\<lambda>_.
               finish_repair hx operation journal records events removals))))))"

section \<open>Abandonment\<close>

definition original_unchanged :: "(string \<Rightarrow> string) \<Rightarrow> rel_store \<Rightarrow> string \<times> json \<Rightarrow> exn + unit" where
  "original_unchanged hx s item =
    (let kind = takeWhile (\<lambda>c. c \<noteq> CHR '':'') (fst item);
         rest = dropWhile (\<lambda>c. c \<noteq> CHR '':'') (fst item)
     in if rest = [] then Inl ValueError
        else bind_result (file_revision hx kind (tl rest) s) (\<lambda>now.
          check_that (now = snd item) RelationshipConflict))"

definition before_state_holds :: "(string \<Rightarrow> string) \<Rightarrow> dict \<Rightarrow> rel_store \<Rightarrow> exn + unit" where
  "before_state_holds hx journal s =
     bind_result (check_that (map_of journal ''originals'' \<noteq> None
        \<and> (\<not> json_truthy (get_field journal ''native_guards'') \<or> map_of journal ''native_before'' \<noteq> None))
       RelationshipConflict) (\<lambda>_.
     bind_result (guard_items journal ''native_before'') (\<lambda>admitted.
     bind_result (gather (native_unchanged hx s) admitted) (\<lambda>_.
     bind_result (guard_items journal ''originals'') (\<lambda>originals.
     bind_result (gather (original_unchanged hx s) originals) (\<lambda>_. Inr ())))))"

definition abandon :: "(string \<Rightarrow> string) \<Rightarrow> string \<Rightarrow> string \<Rightarrow> (rel_store, unit) prog" where
  "abandon hx operation reason =
     bind_prog (lift_result (read_record hx ''operation'' operation)) (\<lambda>found. case found of
         None \<Rightarrow> raise_prog RelationshipConflict
       | Some journal \<Rightarrow>
           bind_prog (lift_result (\<lambda>s. get_item journal ''state'')) (\<lambda>state.
           if terminal state then raise_prog RelationshipConflict
           else
             bind_prog (lift_result (before_state_holds hx journal)) (\<lambda>_.
             let receipt = terminal_journal operation ''abandoned'' (Some reason) in
             bind_prog (write_records hx [receipt] []) (\<lambda>_. reconcile hx [receipt] []))))"

end
