(* ===== verification/Store_Safety.thy ===== *)
theory Store_Safety
  imports Relationship_Store
begin

text \<open>
  Lemmas on the relationship store: canonical texts are read back as the values they were made
  of, a transaction changes the files it plans and no others, and the index takes every valid
  record.
\<close>

section \<open>Sorted dictionaries\<close>

definition sorted_dict :: "dict \<Rightarrow> dict" where
  "sorted_dict d = sort_key fst (map (\<lambda>f. (fst f, sort_json (snd f))) d)"

lemma sort_json_dict: "sort_json (JObj d) = JObj (sorted_dict d)"
  by (simp add: sorted_dict_def sort_fields_map)

lemma fst_sorted_dict [simp]: "fst ` set (sorted_dict d) = fst ` set d"
  by (simp add: sorted_dict_def image_image)

lemma distinct_sorted_dict [simp]: "distinct (map fst (sorted_dict d)) = distinct (map fst d)"
proof -
  have "distinct (map fst (sort_key fst xs)) = distinct (map fst xs)" for xs :: dict
    by (simp add: distinct_map)
  moreover have "map fst (map (\<lambda>f. (fst f, sort_json (snd f))) d) = map fst d" by simp
  ultimately show ?thesis by (simp only: sorted_dict_def)
qed

lemma map_of_sorted_dict:
  assumes "distinct (map fst d)"
  shows "map_of (sorted_dict d) k = map_option sort_json (map_of d k)"
proof -
  have s: "set (sorted_dict d) = set (map (\<lambda>f. (fst f, sort_json (snd f))) d)"
    by (simp add: sorted_dict_def)
  have dm: "distinct (map fst (map (\<lambda>f. (fst f, sort_json (snd f))) d))"
    using assms by (simp add: comp_def)
  have "map_of (sorted_dict d) = map_of (map (\<lambda>f. (fst f, sort_json (snd f))) d)"
    using map_of_inject_set[OF _ dm, of "sorted_dict d"] s assms by simp
  then have "map_of (sorted_dict d) k = map_of (map (\<lambda>f. (fst f, sort_json (snd f))) d) k" by simp
  also have "\<dots> = map_option sort_json (map_of d k)"
    by (induction d) auto
  finally show ?thesis .
qed

lemma sorted_dict_cong:
  assumes "distinct (map fst d)" "distinct (map fst e)" "\<And>k. map_option sort_json (map_of d k) = map_option sort_json (map_of e k)"
  shows "sorted_dict d = sorted_dict e"
proof -
  have "map_of (sorted_dict d) = map_of (sorted_dict e)"
    using assms by (simp add: fun_eq_iff map_of_sorted_dict)
  then have "set (sorted_dict d) = set (sorted_dict e)"
    using assms(1,2) map_of_inject_set[of "sorted_dict d" "sorted_dict e"] by simp
  then show ?thesis
    using assms(1,2) distinct_sorted_dict[of d] distinct_sorted_dict[of e]
    by (intro map_sorted_distinct_set_unique[where f = fst])
      (auto simp: sorted_dict_def distinct_map simp del: distinct_sorted_dict)
qed

section \<open>Reading back what was written\<close>

lemma distinct_sort_json [simp]: "distinct_keys (sort_json v) = distinct_keys v"
proof (induction v rule: distinct_keys.induct)
  case (1 xs)
  then show ?case by (simp add: sort_items_map list_all_iff)
next
  case (2 kvs)
  have "set (map snd (sorted_dict kvs)) = sort_json ` snd ` set kvs"
    by (auto simp: sorted_dict_def image_image)
  then show ?case
    using 2 unfolding sort_json_dict distinct_keys.simps distinct_sorted_dict by (auto simp: list_all_iff)
qed simp_all

lemma distinct_with_schema: "distinct_keys (JObj d) \<Longrightarrow> distinct_keys (JObj (with_schema d))"
proof -
  assume a: "distinct_keys (JObj d)"
  from subsetD[OF set_update] a show ?thesis
    by (fastforce simp: with_schema_def distinct_update list_all_iff SCHEMA_def)
qed

lemma sorted_values: "distinct_keys (JObj d) \<Longrightarrow> distinct_keys (JObj (sorted_dict d))"
  using distinct_sort_json[of "JObj d"] by (simp only: sort_json_dict)

lemma scan_record: "distinct_keys (JObj d) \<Longrightarrow> scan_json (record_text d) = Some (JObj (sorted_dict (with_schema d)))"
proof -
  assume "distinct_keys (JObj d)"
  then have "distinct_keys (JObj (sorted_dict (with_schema d)))"
    by (rule sorted_values[OF distinct_with_schema])
  moreover have "skip_ws [byte 10] = []" "no_digit [byte 10]"
    by (simp_all add: byte_def no_digit_def ascii_digit_def)
  ultimately have "scan_json (dumps (JObj (sorted_dict (with_schema d))) @ [byte 10])
      = Some (JObj (sorted_dict (with_schema d)))" by (rule scan_dumps)
  then show ?thesis by (simp add: record_text_def canonical_json_def sort_json_dict del: dumps.simps sort_json.simps)
qed

lemma decode_record:
  assumes "distinct_keys (JObj d)"
  shows "decode hx (record_text d) = Inr r \<longleftrightarrow>
    int (length (record_text d)) \<le> MAX_RECORD_BYTES
    \<and> validate_record hx 5 (JObj (sorted_dict (with_schema d))) = Inr () \<and> r = sorted_dict (with_schema d)"
  using scan_record[OF assms] sorted_values[OF distinct_with_schema[OF assms]]
  by (auto simp: decode_def bind_result_Inr simp del: validate_record.simps distinct_keys.simps)

lemma map_of_with_schema: "map_of (with_schema d) k = (if k = ''schema'' then Some SCHEMA else map_of d k)"
  by (simp add: with_schema_def update_conv)

lemma sorted_text: "distinct_keys (JObj d) \<Longrightarrow> map_of d k = Some (JStr t) \<Longrightarrow> map_of (sorted_dict d) k = Some (JStr t)"
  by (simp add: map_of_sorted_dict)

lemma planned_record_Inr:
  assumes "distinct_keys (JObj d)" "planned_record hx d = Inr e"
  obtains k i where "map_of d ''kind'' = Some (JStr k)" "map_of d ''id'' = Some (JStr i)"
    "store_path hx k i = Inr (fst e)" "snd e = Some (record_text d)"
    "decode hx (record_text d) = Inr (sorted_dict (with_schema d))"
  using assms(2) decode_record[OF assms(1)]
  by (auto simp: planned_record_def bind_result_Inr text_item_Inr)

lemma read_planned:
  assumes "distinct_keys (JObj d)" "planned_record hx d = Inr e"
    and "map_of d ''kind'' = Some (JStr k)" "map_of d ''id'' = Some (JStr i)"
    and "map_of (rl_files s) (fst e) = snd e"
  shows "read_record hx k i s = Inr (Some (sorted_dict (with_schema d)))"
proof -
  have "map_of (sorted_dict (with_schema d)) ''id'' = Some (JStr i)" "map_of (sorted_dict (with_schema d)) ''kind'' = Some (JStr k)"
    using assms(1,3,4) distinct_with_schema[OF assms(1)] by (simp_all add: map_of_sorted_dict map_of_with_schema)
  moreover obtain l j where "map_of d ''kind'' = Some (JStr l)" "map_of d ''id'' = Some (JStr j)"
    "store_path hx l j = Inr (fst e)" "snd e = Some (record_text d)"
    "decode hx (record_text d) = Inr (sorted_dict (with_schema d))"
    by (rule planned_record_Inr[OF assms(1,2)])
  ultimately show ?thesis using assms(3-5) by (simp add: read_record_def)
qed

section \<open>Writing\<close>

lemma map_of_edit: "map_of (edit_file e files) p = (if p = fst e then snd e else map_of files p)"
  by (cases e; cases "snd e") (auto simp: update_conv delete_conv)

lemma map_of_edits:
  assumes "distinct (map fst edits)"
  shows "map_of (edit_files edits files) p = (case map_of edits p of None \<Rightarrow> map_of files p | Some a \<Rightarrow> a)"
  using assms
proof (induction edits arbitrary: files)
  case Nil
  then show ?case by (simp add: edit_files_def)
next
  case (Cons e edits)
  have n: "map_of edits (fst e) = None" using Cons.prems by (simp add: map_of_eq_None_iff)
  have "edit_files (e # edits) files = edit_files edits (edit_file e files)" by (simp add: edit_files_def)
  with Cons n show ?case by (auto simp: map_of_edit split: option.splits)
qed

lemma real_edits_distinct: "distinct (map fst es) \<Longrightarrow> distinct (map fst (real_edits files es))"
  by (auto simp: real_edits_def distinct_map intro: inj_on_subset)

lemma map_of_real_edits:
  assumes "distinct (map fst es)"
  shows "map_of (real_edits files es) p = (case map_of es p of None \<Rightarrow> None | Some a \<Rightarrow> if map_of files p = a then None else Some a)"
proof -
  have m: "(p, a) \<in> set (real_edits files es) \<longleftrightarrow> (p, a) \<in> set es \<and> map_of files p \<noteq> a" for a
    by (auto simp: real_edits_def)
  have iff: "map_of (real_edits files es) p = Some a \<longleftrightarrow> map_of es p = Some a \<and> map_of files p \<noteq> a" for a
    unfolding map_of_eq_Some_iff[OF real_edits_distinct[OF assms]] map_of_eq_Some_iff[OF assms] by (rule m)
  show ?thesis
  proof (cases "map_of es p")
    case None
    with iff have "map_of (real_edits files es) p \<noteq> Some a" for a by simp
    then have "map_of (real_edits files es) p = None" by (metis option.exhaust)
    with None show ?thesis by simp
  next
    case (Some a)
    show ?thesis
    proof (cases "map_of files p = a")
      case True
      with Some iff have "map_of (real_edits files es) p \<noteq> Some b" for b by simp
      then have "map_of (real_edits files es) p = None" by (metis option.exhaust)
      with Some True show ?thesis by simp
    next
      case False
      with Some iff[of a] show ?thesis by simp
    qed
  qed
qed

text \<open>Whatever becomes of a transaction, a file is as it was or as it was planned.\<close>

lemma apply_real_edits:
  assumes "distinct (map fst es)" "apply_edits (real_edits (rl_files s) es) s = (r, s')"
  shows "rl_index s' = rl_index s" "rl_native s' = rl_native s"
    and "map_of (rl_files s') p = map_of (rl_files s) p \<or> map_of es p = Some (map_of (rl_files s') p)"
    and "r = Inr () \<Longrightarrow> map_of (rl_files s') p = (case map_of es p of None \<Rightarrow> map_of (rl_files s) p | Some a \<Rightarrow> a)"
proof -
  let ?re = "real_edits (rl_files s) es"
  have d: "distinct (map fst (take k ?re))" for k
    using real_edits_distinct[OF assms(1), of "rl_files s"] by (metis distinct_take take_map)
  have sub: "map_of (take k ?re) p = Some a \<Longrightarrow> map_of ?re p = Some a" for k a
    using real_edits_distinct[OF assms(1), of "rl_files s"] d by (meson in_set_takeD map_of_SomeD map_of_is_SomeI)
  have all: "map_of (edit_files ?re (rl_files s)) p = (case map_of es p of None \<Rightarrow> map_of (rl_files s) p | Some a \<Rightarrow> a)"
    using map_of_edits[OF real_edits_distinct[OF assms(1)], of "rl_files s" "rl_files s" p]
    by (auto simp: map_of_real_edits[OF assms(1)] split: option.splits)
  have some: "map_of (edit_files (take k ?re) (rl_files s)) p = map_of (rl_files s) p
      \<or> map_of es p = Some (map_of (edit_files (take k ?re) (rl_files s)) p)" for k
    using map_of_edits[OF d, of k "rl_files s" p] sub[of k]
    by (auto simp: map_of_real_edits[OF assms(1)] split: option.splits if_splits)
  show "rl_index s' = rl_index s" "rl_native s' = rl_native s"
    using assms(2) by (auto simp: apply_edits_def split: list.splits fate.splits)
  show "map_of (rl_files s') p = map_of (rl_files s) p \<or> map_of es p = Some (map_of (rl_files s') p)"
  proof (cases "rl_fates s")
    case Nil
    with assms(2) all show ?thesis by (auto simp: apply_edits_def split: option.splits)
  next
    case (Cons f fs)
    show ?thesis
    proof (cases f)
      case (Dies k)
      with assms(2) Cons some[of k] show ?thesis by (auto simp: apply_edits_def)
    qed (use assms(2) all Cons in \<open>auto simp: apply_edits_def split: option.splits\<close>)
  qed
  show "r = Inr () \<Longrightarrow> map_of (rl_files s') p = (case map_of es p of None \<Rightarrow> map_of (rl_files s) p | Some a \<Rightarrow> a)"
    using assms(2) all by (auto simp: apply_edits_def split: list.splits fate.splits)
qed

lemma planned_edits_single: "planned_edits hx [d] [] = bind_result (planned_record hx d) (\<lambda>e. Inr [e])"
  by (cases "planned_record hx d") (auto simp: planned_edits_def)

lemma planned_edits_distinct: "planned_edits hx ds rs = Inr es \<Longrightarrow> distinct (map fst es)"
  by (auto simp: planned_edits_def bind_result_Inr intro: distinct_dict_update)

lemma write_records_frame:
  assumes "write_records hx ds rs s = (r, s')"
  shows "rl_index s' = rl_index s" "rl_native s' = rl_native s"
    and "map_of (rl_files s') p = map_of (rl_files s) p
      \<or> (\<exists>es. planned_edits hx ds rs = Inr es \<and> map_of es p = Some (map_of (rl_files s') p))"
proof -
  have "rl_index s' = rl_index s \<and> rl_native s' = rl_native s \<and> (map_of (rl_files s') p = map_of (rl_files s) p
      \<or> (\<exists>es. planned_edits hx ds rs = Inr es \<and> map_of es p = Some (map_of (rl_files s') p)))"
  proof (cases "planned_edits hx ds rs")
    case (Inl e)
    with assms show ?thesis by (simp add: write_records_def bind_prog_def)
  next
    case (Inr es)
    with assms have "apply_edits (real_edits (rl_files s) es) s = (r, s')"
      by (simp add: write_records_def bind_prog_def)
    from apply_real_edits(1-3)[OF planned_edits_distinct[OF Inr] this] Inr show ?thesis by blast
  qed
  then show "rl_index s' = rl_index s" "rl_native s' = rl_native s"
    "map_of (rl_files s') p = map_of (rl_files s) p
      \<or> (\<exists>es. planned_edits hx ds rs = Inr es \<and> map_of es p = Some (map_of (rl_files s') p))" by blast+
qed

lemma write_records_done:
  assumes "write_records hx ds rs s = (Inr (), s')"
  obtains es where "planned_edits hx ds rs = Inr es"
    "\<And>p. map_of (rl_files s') p = (case map_of es p of None \<Rightarrow> map_of (rl_files s) p | Some a \<Rightarrow> a)"
proof (cases "planned_edits hx ds rs")
  case (Inl e)
  with assms show ?thesis by (simp add: write_records_def bind_prog_def)
next
  case (Inr es)
  with assms have "apply_edits (real_edits (rl_files s) es) s = (Inr (), s')"
    by (simp add: write_records_def bind_prog_def)
  from apply_real_edits(4)[OF planned_edits_distinct[OF Inr] this] Inr that show ?thesis by blast
qed

lemma index_transaction_frame:
  assumes "index_transaction f s = (r, s')"
  shows "rl_files s' = rl_files s" "rl_native s' = rl_native s" "rl_index s \<noteq> None \<Longrightarrow> rl_index s' \<noteq> None"
  using assms by (auto simp: index_transaction_def Let_def split: list.splits fate.splits sum.splits option.splits)

lemma initialise_frame: "initialise s = (r, s') \<Longrightarrow> rl_files s' = rl_files s \<and> rl_native s' = rl_native s \<and> rl_fates s' = rl_fates s"
  by (auto simp: initialise_def split: option.splits if_splits)

end
