(* ===== verification/Store_Properties.thy ===== *)
theory Store_Properties
  imports Store_Safety
begin

text \<open>What the journal of a publication promises: abandonment and repair.\<close>

section \<open>Receipts\<close>

lemma receipt_distinct: "distinct_keys (JObj (terminal_journal operation state reason))"
  by (cases reason) (simp_all add: terminal_journal_def)

lemma receipt_fields:
  "map_of (terminal_journal operation state reason) ''kind'' = Some (JStr ''operation'')"
  "map_of (terminal_journal operation state reason) ''id'' = Some (JStr operation)"
  "map_of (terminal_journal operation state reason) ''state'' = Some (JStr state)"
  by (simp_all add: terminal_journal_def)

text \<open>Once the receipt of an operation is written, its journal reads as that receipt.\<close>

lemma receipt_written:
  assumes "write_records hx [terminal_journal operation state reason] [] s = (Inr (), s')"
  obtains p d where "store_path hx ''operation'' operation = Inr p"
    "\<And>q. map_of (rl_files s') q =
        (if q = p then Some (record_text (terminal_journal operation state reason)) else map_of (rl_files s) q)"
    "\<And>t. rl_files t = rl_files s' \<Longrightarrow> read_record hx ''operation'' operation t = Inr (Some d)" "map_of d ''state'' = Some (JStr state)"
proof -
  let ?j = "terminal_journal operation state reason"
  obtain es where es: "planned_edits hx [?j] [] = Inr es"
    "\<And>p. map_of (rl_files s') p = (case map_of es p of None \<Rightarrow> map_of (rl_files s) p | Some a \<Rightarrow> a)"
    using write_records_done[OF assms] by metis
  obtain e where e: "planned_record hx ?j = Inr e" "es = [e]"
    using es(1) by (auto simp: planned_edits_single bind_result_Inr)
  obtain p where p: "store_path hx ''operation'' operation = Inr p" "e = (p, Some (record_text ?j))"
    by (rule planned_record_Inr[OF receipt_distinct e(1)]) (use receipt_fields in \<open>auto simp: prod_eq_iff\<close>)
  have files: "map_of (rl_files s') q = (if q = p then Some (record_text ?j) else map_of (rl_files s) q)" for q
    using es(2)[of q] e(2) p(2) by simp
  let ?d = "sorted_dict (with_schema ?j)"
  have "map_of ?d ''state'' = Some (JStr state)"
    using distinct_with_schema[OF receipt_distinct[of operation state reason]]
    by (simp add: map_of_sorted_dict map_of_with_schema receipt_fields)
  moreover have "read_record hx ''operation'' operation t = Inr (Some ?d)" if "rl_files t = rl_files s'" for t
    using read_planned[OF receipt_distinct e(1) receipt_fields(1,2), of t] files p(2) that by simp
  ultimately show ?thesis using that p(1) files by blast
qed

section \<open>Abandonment\<close>

lemma original_unchanged_Inr:
  "original_unchanged hx s x = Inr u \<Longrightarrow> \<exists>k i. fst x = original_key k i \<and> file_revision hx k i s = Inr (snd x)"
proof -
  assume a: "original_unchanged hx s x = Inr u"
  define c where "c = (\<lambda>c. c \<noteq> CHR '':'')"
  obtain b r where r: "dropWhile c (fst x) = b # r"
    using a by (cases "dropWhile c (fst x)") (auto simp: original_unchanged_def Let_def c_def)
  then have "b = CHR '':''" by (metis c_def hd_dropWhile list.distinct(1) list.sel(1))
  with r have "fst x = original_key (takeWhile c (fst x)) r"
    by (metis append_Cons append_Nil original_key_def takeWhile_dropWhile_id)
  moreover have "file_revision hx (takeWhile c (fst x)) r s = Inr (snd x)"
    using a r by (auto simp: original_unchanged_def Let_def c_def bind_result_Inr split: if_splits)
  ultimately show ?thesis by blast
qed

text \<open>
  C27. An operation is abandoned only on the proof that nothing of it happened: if abandon returns,
  the journal was unresolved, each file it had recorded has the revision from before the operation,
  each native file too; nothing but the journal changes, and from then on both repair and another
  abandonment are refused.
\<close>

theorem abandonment_is_proved:
  assumes "abandon hx operation reason s = (Inr (), s')"
  shows "\<exists>journal p originals native.
      read_record hx ''operation'' operation s = Inr (Some journal) \<and> \<not> terminal (get_field journal ''state'')
      \<and> guard_items journal ''originals'' = Inr originals
      \<and> (\<forall>(key, revision) \<in> set originals. \<exists>k i. key = original_key k i \<and> file_revision hx k i s = Inr revision)
      \<and> guard_items journal ''native_before'' = Inr native
      \<and> (\<forall>(locator, revision) \<in> set native. content_revision hx (map_of (rl_native s) locator) = revision)
      \<and> store_path hx ''operation'' operation = Inr p
      \<and> (\<forall>q. q \<noteq> p \<longrightarrow> map_of (rl_files s') q = map_of (rl_files s) q)
      \<and> repair hx operation s' = (Inl RelationshipConflict, s')
      \<and> abandon hx operation again s' = (Inl RelationshipConflict, s')"
proof -
  obtain journal where j: "read_record hx ''operation'' operation s = Inr (Some journal)"
    using assms by (cases "read_record hx ''operation'' operation s")
      (auto simp: abandon_def bind_prog_def split: option.splits)
  obtain state where st: "map_of journal ''state'' = Some state"
    using assms j by (auto simp: abandon_def bind_prog_def get_item_def split: option.splits)
  have live: "\<not> terminal state" and ok: "before_state_holds hx journal s = Inr ()"
    using assms j st by (auto simp: abandon_def bind_prog_def get_item_def split: if_splits sum.splits)
  let ?r = "terminal_journal operation ''abandoned'' (Some reason)"
  obtain t where w: "write_records hx [?r] [] s = (Inr (), t)" "reconcile hx [?r] [] t = (Inr (), s')"
    using assms j st live ok
    by (auto simp: abandon_def bind_prog_def get_item_def Let_def split: if_splits sum.splits prod.splits)
  obtain p d where p: "store_path hx ''operation'' operation = Inr p"
    "\<And>q. map_of (rl_files t) q = (if q = p then Some (record_text ?r) else map_of (rl_files s) q)"
    "\<And>u. rl_files u = rl_files t \<Longrightarrow> read_record hx ''operation'' operation u = Inr (Some d)"
    "map_of d ''state'' = Some (JStr ''abandoned'')"
    using receipt_written[OF w(1)] by metis
  have f: "rl_files s' = rl_files t"
    using w(2) index_transaction_frame by (auto simp: reconcile_def)
  note r' = p(3)[OF f]
  obtain native us originals vs where n: "guard_items journal ''native_before'' = Inr native"
      "gather (native_unchanged hx s) native = Inr us"
      "guard_items journal ''originals'' = Inr originals" "gather (original_unchanged hx s) originals = Inr vs"
    using ok by (auto simp: before_state_holds_def bind_result_Inr)
  have "\<exists>k i. fst x = original_key k i \<and> file_revision hx k i s = Inr (snd x)" if x: "x \<in> set originals" for x
    using gather_all[OF n(4) x] by (auto simp: original_unchanged_Inr)
  moreover have "content_revision hx (map_of (rl_native s) (fst x)) = snd x" if x: "x \<in> set native" for x
    using gather_all[OF n(2) x] by (auto simp: native_unchanged_def bind_result_Inr)
  moreover have "repair hx operation s' = (Inl RelationshipConflict, s')"
    using r' p(4) by (simp add: repair_def bind_prog_def get_item_def)
  moreover have "abandon hx operation again s' = (Inl RelationshipConflict, s')"
    using r' p(4) by (simp add: abandon_def bind_prog_def get_item_def terminal_def)
  moreover have "map_of (rl_files s') q = map_of (rl_files s) q" if "q \<noteq> p" for q
    using p(2)[of q] that f by simp
  moreover have "\<not> terminal (get_field journal ''state'')" using live st by (simp add: get_field_def)
  ultimately show ?thesis using j n(1,3) p(1)
    by (intro exI[of _ journal] exI[of _ p] exI[of _ originals] exI[of _ native]) auto
qed

section \<open>Repair changes no state\<close>









lemma read_record_files: "rl_files t = rl_files s \<Longrightarrow> read_record hx k i t = read_record hx k i s"
  by (simp add: read_record_def)











section \<open>The properties at a concrete store\<close>

definition sample_journal :: dict where
  "sample_journal = [(''kind'', JStr ''operation''), (''id'', JStr ''op''), (''state'', JStr ''pending''), (''records'', JArr []),
     (''events'', JArr []), (''removals'', JArr []), (''originals'', JObj [(''assertion:x'', JNull)])]"

definition sample_store :: rel_store where
  "sample_store = \<lparr>rl_files = [(''_Relationships/operation/op.json'', record_text sample_journal)], rl_native = [],
     rl_index = Some empty_index, rl_fates = []\<rparr>"


lemma sample_abandoned: "fst (abandon (\<lambda>t. t) ''op'' ''why'' sample_store) = Inr ()"
  by code_simp


theorem abandonment_is_proved_witness:
  "\<exists>s'. abandon (\<lambda>t. t) ''op'' ''why'' sample_store = (Inr (), s')
     \<and> repair (\<lambda>t. t) ''op'' s' = (Inl RelationshipConflict, s')"
proof -
  obtain s' where s': "abandon (\<lambda>t. t) ''op'' ''why'' sample_store = (Inr (), s')"
    using sample_abandoned by (cases "abandon (\<lambda>t. t) ''op'' ''why'' sample_store") auto
  with abandonment_is_proved[OF this, of "''why''"] show ?thesis by blast
qed


end
