(* ===== verification/Store_Recovery.thy ===== *)
theory Store_Recovery
  imports Store_Safety
begin

text \<open>
  Lemmas on recovery: without faults a write and a projection do what they are asked, the index
  takes every record that was read, and a journal reads back as its captured inputs.
\<close>

section \<open>Calm steps\<close>

lemma write_calm:
  assumes "rl_fates s = []" "planned_edits hx ds rs = Inr es"
  obtains s' where "write_records hx ds rs s = (Inr (), s')" "rl_fates s' = []" "rl_index s' = rl_index s"
    "rl_native s' = rl_native s"
    "\<And>p. map_of (rl_files s') p = (case map_of es p of None \<Rightarrow> map_of (rl_files s) p | Some a \<Rightarrow> a)"
proof -
  let ?s = "s\<lparr>rl_files := edit_files (real_edits (rl_files s) es) (rl_files s)\<rparr>"
  have w: "write_records hx ds rs s = (Inr (), ?s)"
    using assms by (simp add: write_records_def bind_prog_def apply_edits_def)
  have m: "map_of (rl_files ?s) p = (case map_of es p of None \<Rightarrow> map_of (rl_files s) p | Some a \<Rightarrow> a)" for p
    using write_records_done[OF w] assms(2) by (metis Inr_inject)
  show ?thesis by (rule that[OF w]) (use assms(1) m in simp_all)
qed

lemma fold_results_runs:
  "(\<And>x ix. x \<in> set xs \<Longrightarrow> \<exists>ix'. f x ix = Inr ix') \<Longrightarrow> \<exists>ix'. fold_results f xs ix = Inr ix'"
proof (induction xs arbitrary: ix)
  case (Cons x xs)
  obtain ix1 where "f x ix = Inr ix1" using Cons.prems[of x ix] by auto
  moreover obtain ix2 where "fold_results f xs ix1 = Inr ix2" using Cons by (meson list.set_intros(2))
  ultimately show ?case by simp
qed simp

lemma reconcile_calm:
  assumes "rl_fates s = []" "\<And>d ix. d \<in> set ds \<Longrightarrow> \<exists>ix'. index_record hx s d ix = Inr ix'"
  obtains s' where "reconcile hx ds rs s = (Inr (), s')" "rl_fates s' = []" "rl_files s' = rl_files s"
proof -
  let ?ix = "fold unindex rs (case rl_index s of None \<Rightarrow> empty_index | Some ix \<Rightarrow> ix)"
  obtain ix' where "fold_results (index_record hx s) ds ?ix = Inr ix'"
    using fold_results_runs[of ds "index_record hx s" ?ix] assms(2) by blast
  with assms(1) that show ?thesis by (simp add: reconcile_def index_transaction_def)
qed

lemma reconcile_journal_calm:
  assumes "rl_fates s = []" "store_path hx ''operation'' i = Inr p" "map_of (rl_files s) p = Some raw"
  obtains s' where "reconcile_journal hx i s = (Inr (), s')" "rl_fates s' = []" "rl_files s' = rl_files s"
  using assms that by (simp add: reconcile_journal_def index_transaction_def Let_def)

section \<open>The index takes what was read\<close>

lemma endpoint_has_key:
  assumes "endpoint (JObj x) = Inr e"
  shows "\<exists>t. node_key x = Inr t"
proof -
  obtain kind where k: "map_of x ''kind'' = Some kind" using assms by (auto split: if_splits)
  obtain m where m: "make_endpoint kind (case map_of x ''reference'' of Some r \<Rightarrow> r | None \<Rightarrow> JStr []) (get_field x ''value'') = Inr m"
    using assms k by (auto simp: bind_result_Inr get_field_def split: if_splits)
  have i: "map_of x ''identity'' = None \<or> (\<exists>s. map_of x ''identity'' = Some (JStr s))"
    using assms by (auto simp: bind_result_Inr get_field_def split: if_splits option.splits elim: nonempty_text.elims)
  obtain s where s: "kind = JStr s" using m by (auto simp: make_endpoint_def split: json.splits)
  show ?thesis
  proof (cases "s = ''literal''")
    case True
    with k s show ?thesis by (simp add: node_key_def get_item_def)
  next
    case False
    then obtain r where "map_of x ''reference'' = Some (JStr r)"
      using m s by (auto simp: make_endpoint_def bind_result_Inr split: json.splits if_splits option.splits)
    with k s i show ?thesis by (auto simp: node_key_def get_item_def split: option.split)
  qed
qed

lemma validate_envelope_Inr:
  assumes "validate_envelope d = Inr k"
  shows "map_of d ''kind'' = Some (JStr k)" "k \<in> set RECORD_KINDS"
    "\<And>f v. f \<in> {''subject'', ''object'', ''node''} \<Longrightarrow> map_of d f = Some v \<Longrightarrow> \<exists>e. endpoint v = Inr e"
    "\<And>n x. (n, JObj x) \<in> set (payload_fields d) \<Longrightarrow> \<exists>e. endpoint (JObj x) = Inr e"
    "\<exists>i. record_identifier (get_field d ''id'') = Inr i"
proof -
  show k: "map_of d ''kind'' = Some (JStr k)"
    using assms by (auto simp: validate_envelope_def bind_result_Inr text_item_Inr)
  show "k \<in> set RECORD_KINDS"
    using assms k by (auto simp: validate_envelope_def bind_result_Inr get_field_def)
  show "\<exists>i. record_identifier (get_field d ''id'') = Inr i"
    using assms by (auto simp: validate_envelope_def bind_result_Inr)
  obtain us where us: "gather (check_node_field d) [''subject'', ''object'', ''node''] = Inr us"
    using assms by (auto simp: validate_envelope_def bind_result_Inr simp del: gather.simps)
  show "\<exists>e. endpoint v = Inr e" if "f \<in> {''subject'', ''object'', ''node''}" "map_of d f = Some v" for f v
    using gather_all[OF us, of f] that by (auto simp: check_node_field_def bind_result_Inr)
  obtain vs where vs: "gather check_payload_item (payload_fields d) = Inr vs"
    using assms by (auto simp: validate_envelope_def bind_result_Inr simp del: gather.simps)
  show "\<exists>e. endpoint (JObj x) = Inr e" if "(n, JObj x) \<in> set (payload_fields d)" for n x
    using gather_all[OF vs that] by (auto simp: check_payload_item_def bind_result_Inr simp del: endpoint.simps)
qed

text \<open>What the slot of an assertion needs beyond its checks: a tombstone without predicate names no subject.\<close>

definition slotted :: "dict \<Rightarrow> bool" where
  "slotted d \<longleftrightarrow> (map_of d ''kind'' = Some (JStr ''assertion'') \<and> map_of d ''subject'' \<noteq> None \<longrightarrow> map_of d ''predicate'' \<noteq> None)"

lemma node_text_runs:
  assumes "validate_envelope d = Inr k" "f \<in> {''subject'', ''object'', ''node''}"
  shows "\<exists>t. node_text (get_field d f) = Inr t"
proof (cases "map_of d f")
  case None
  then show ?thesis by (simp add: node_text_def get_field_def)
next
  case (Some v)
  then obtain e where e: "endpoint v = Inr e" using validate_envelope_Inr(3)[OF assms(1,2)] by blast
  then obtain x where "v = JObj x" by (cases v) auto
  with e endpoint_has_key[of x e] Some show ?thesis by (auto simp: node_text_def get_field_def)
qed

lemma index_record_runs:
  assumes v: "validate_envelope d = Inr k" and s: "slotted d" and id: "map_of d ''id'' = Some (JStr i)"
    and p: "store_path hx k i = Inr p" "map_of (rl_files s) p = Some raw"
    and op: "k = ''operation'' \<Longrightarrow> \<exists>state ts. map_of d ''state'' = Some state \<and> (terminal state \<or> journal_targets d = Inr ts)"
  shows "\<exists>ix'. index_record hx s d ix = Inr ix'"
proof -
  note k = validate_envelope_Inr(1)[OF v]
  have "\<exists>ts. payload_targets d = Inr ts"
    unfolding payload_targets_def
  proof (rule gather_runs)
    fix x assume "x \<in> set (List.map_filter (\<lambda>(n, v). case v of
        JObj x \<Rightarrow> if map_of x ''kind'' = None then None else Some x | _ \<Rightarrow> None) (payload_fields d))"
    then obtain n where "(n, JObj x) \<in> set (payload_fields d)"
      by (auto simp: List.map_filter_def split: json.splits if_splits)
    with validate_envelope_Inr(4)[OF v] endpoint_has_key show "\<exists>y. node_key x = Inr y" by blast
  qed
  then obtain ts where ts: "payload_targets d = Inr ts" by blast
  obtain st where st: "node_text (get_field d ''subject'') = Inr st" using node_text_runs[OF v, of "''subject''"] by auto
  obtain nt where nt: "node_text (get_field d ''node'') = Inr nt" using node_text_runs[OF v, of "''node''"] by auto
  obtain ot where ot: "node_text (get_field d ''object'') = Inr ot" using node_text_runs[OF v, of "''object''"] by auto
  have "\<exists>t. slot_key hx d = Inr t" if a: "k = ''assertion''" and j: "json_truthy (get_field d ''subject'')"
  proof -
    obtain sv where sv: "map_of d ''subject'' = Some sv" using j by (auto simp: get_field_def split: option.splits)
    then obtain x where x: "sv = JObj x" using validate_envelope_Inr(3)[OF v, of "''subject''" sv] by (cases sv) auto
    then obtain t where "node_key x = Inr t" using sv validate_envelope_Inr(3)[OF v, of "''subject''" sv] endpoint_has_key by blast
    moreover obtain w where "map_of d ''predicate'' = Some w" using s k sv a by (auto simp: slotted_def)
    ultimately show ?thesis using sv x by (simp add: slot_key_def item_node_def get_item_def)
  qed
  then obtain sl where sl: "(if k = ''assertion'' \<and> json_truthy (get_field d ''subject'')
      then bind_result (slot_key hx d) (\<lambda>t. Inr (JStr t)) else Inr JNull) = Inr sl"
    by (cases "k = ''assertion'' \<and> json_truthy (get_field d ''subject'')") auto
  obtain bt where bt: "node_text (if json_truthy (get_field d ''subject'') then get_field d ''subject'' else get_field d ''node'') = Inr bt"
    using st nt by (cases "json_truthy (get_field d ''subject'')") simp_all
  obtain row where row: "index_row hx k i d s = Inr row"
    unfolding index_row_def p(1) bind_result_simps bt ot p(2) option.case sl by blast
  have "\<exists>cs. (if k = ''operation'' then bind_result (get_item d ''state'')
      (\<lambda>state. if terminal state then Inr [] else journal_targets d) else Inr []) = Inr cs"
    using op by (cases "k = ''operation''") (auto simp: get_item_def)
  with k id ts row show ?thesis by (auto simp: index_record_def text_item_def get_item_def Let_def)
qed

section \<open>Journals read back\<close>

lemma record_text_cong:
  assumes "distinct_keys (JObj d)" "distinct_keys (JObj e)"
    "\<And>k. k \<noteq> ''schema'' \<Longrightarrow> map_option sort_json (map_of d k) = map_option sort_json (map_of e k)"
  shows "record_text d = record_text e"
proof -
  have "sorted_dict (with_schema d) = sorted_dict (with_schema e)"
    using distinct_with_schema[OF assms(1)] distinct_with_schema[OF assms(2)] assms(3)
    by (intro sorted_dict_cong) (simp_all add: map_of_with_schema)
  then show ?thesis by (simp add: record_text_def canonical_json_def sort_json_dict del: sort_json.simps)
qed

lemma option_sort_idem [simp]: "map_option sort_json (map_option sort_json x) = map_option sort_json x"
  by (cases x) simp_all

lemma record_text_sorted: "distinct_keys (JObj d) \<Longrightarrow> record_text (sorted_dict d) = record_text d"
proof (rule record_text_cong)
  assume d: "distinct_keys (JObj d)"
  then show "distinct_keys (JObj (sorted_dict d))" by (rule sorted_values)
  show "map_option sort_json (map_of (sorted_dict d) k) = map_option sort_json (map_of d k)" for k
    using d by (simp add: map_of_sorted_dict)
qed

lemma journal_fields:
  "set_state st (journal_of [] operation st0 records events removals originals) =
     [(''kind'', JStr ''operation''), (''id'', JStr operation), (''state'', JStr st),
      (''records'', JArr (map JObj records)), (''events'', JArr (map JObj events)),
      (''removals'', JArr (map removal_json removals)), (''originals'', JObj originals)]"
  by (simp add: journal_of_def set_state_def)

definition captured :: "string \<Rightarrow> dict list \<Rightarrow> dict list \<Rightarrow> (string \<times> string) list \<Rightarrow> dict \<Rightarrow> string \<Rightarrow> dict" where
  "captured operation records events removals originals st =
     set_state st (journal_of [] operation ''pending'' records events removals originals)"

lemma removal_sorted [simp]: "sort_json (removal_json r) = removal_json r"
  by (simp add: removal_json_def)

lemma captured_distinct:
  assumes "\<forall>d \<in> set (records @ events). distinct_keys (JObj d)" "distinct_keys (JObj originals)"
  shows "distinct_keys (JObj (captured operation records events removals originals st))"
  using assms by (auto simp: captured_def journal_fields list_all_iff removal_json_def)

lemma captured_reads:
  fixes operation st :: string and removals :: "(string \<times> string) list"
  assumes "\<forall>d \<in> set (records @ events). distinct_keys (JObj d)" "distinct_keys (JObj originals)"
  defines "j \<equiv> sorted_dict (with_schema (captured operation records events removals originals st))"
  shows "map_of j ''state'' = Some (JStr st)" "map_of j ''kind'' = Some (JStr ''operation'')" "map_of j ''id'' = Some (JStr operation)"
    "list_items j ''records'' = map (\<lambda>d. JObj (sorted_dict d)) records"
    "list_items j ''events'' = map (\<lambda>d. JObj (sorted_dict d)) events"
    "list_items j ''removals'' = map removal_json removals"
    "f \<notin> {''schema'', ''kind'', ''id'', ''state'', ''records'', ''events'', ''removals'', ''originals''} \<Longrightarrow> map_of j f = None"
    "map_of j ''schema'' = Some SCHEMA"
    "\<exists>rs es gs. map_of j ''records'' = Some (JArr rs) \<and> map_of j ''events'' = Some (JArr es) \<and> map_of j ''removals'' = Some (JArr gs)"
proof -
  have m: "map_of j k = map_option sort_json (map_of (with_schema (captured operation records events removals originals st)) k)" for k
    unfolding j_def
    using distinct_with_schema[OF captured_distinct[OF assms(1,2)]] by (intro map_of_sorted_dict) simp
  show "map_of j ''state'' = Some (JStr st)" "map_of j ''kind'' = Some (JStr ''operation'')" "map_of j ''id'' = Some (JStr operation)"
    "list_items j ''records'' = map (\<lambda>d. JObj (sorted_dict d)) records"
    "list_items j ''events'' = map (\<lambda>d. JObj (sorted_dict d)) events"
    "list_items j ''removals'' = map removal_json removals"
    "f \<notin> {''schema'', ''kind'', ''id'', ''state'', ''records'', ''events'', ''removals'', ''originals''} \<Longrightarrow> map_of j f = None"
    "map_of j ''schema'' = Some SCHEMA"
    "\<exists>rs es gs. map_of j ''records'' = Some (JArr rs) \<and> map_of j ''events'' = Some (JArr es) \<and> map_of j ''removals'' = Some (JArr gs)"
    by (simp_all add: m map_of_with_schema captured_def journal_fields list_items_def sort_items_map sort_json_dict
        comp_def SCHEMA_def del: sort_json.simps(6))
qed

lemma object_items_sorted: "object_items (map (\<lambda>d. JObj (sorted_dict d)) ds) = Inr (map sorted_dict ds)"
  by (induction ds) (simp_all add: object_items_def)

lemma removal_pairs: "gather removal_pair (map removal_json rs) = Inr rs"
  by (induction rs) (simp_all add: removal_pair_def removal_json_def)

text \<open>Whether a journal is valid does not depend on which unresolved state it is in.\<close>

lemma validate_record_5: "validate_record hx 5 v = (case v of
       JObj d \<Rightarrow>
         bind_result (validate_envelope d) (\<lambda>kind.
         bind_result (validate_contract hx kind d) (\<lambda>_.
         if kind = ''operation'' then validate_journal (\<lambda>r. validate_record hx 4 r) d else Inr ()))
     | _ \<Rightarrow> Inl ValueError)"
proof -
  have "(5::nat) = Suc 4" by simp
  then show ?thesis by (simp only: validate_record.simps(2))
qed

definition unresolved_states :: "string list" where
  "unresolved_states = [''pending'', ''native-pending'', ''state-committed'', ''projection-pending'']"

lemma envelope_of_journal:
  assumes "map_of j ''kind'' = Some (JStr ''operation'')" "map_of j ''id'' = Some (JStr operation)" "map_of j ''schema'' = Some SCHEMA" "map_of j ''state'' \<noteq> None"
   and none: "map_of j ''retired'' = None" "map_of j ''subject'' = None" "map_of j ''object'' = None" "map_of j ''node'' = None"
    "map_of j ''predicate'' = None" "map_of j ''type'' = None" "map_of j ''scope'' = None" "map_of j ''revision'' = None"
    "map_of j ''contract_revision'' = None" "map_of j ''recorded_at'' = None" "map_of j ''path'' = None" "map_of j ''born'' = None"
    "map_of j ''meaning'' = None" "map_of j ''name'' = None" "map_of j ''payload'' = None" "map_of j ''corrects'' = None"
  shows "validate_envelope j = bind_result (record_identifier (JStr operation)) (\<lambda>_. Inr ''operation'')"
proof -
    have kinds: "check_that (JStr ''operation'' \<in> set (map JStr RECORD_KINDS)) ValueError = Inr ()" by (simp add: RECORD_KINDS_def)
    have fields: "list_all (\<lambda>k. map_of j k \<noteq> None) (required_fields ''operation'')" using assms(4) by (simp add: required_fields_def)
    have nodes: "gather (check_node_field j) [''subject'', ''object'', ''node''] = Inr [(),(),()]"
      by (simp add: check_node_field_def none)
    have texts: "list_all (\<lambda>k. case map_of j k of None \<Rightarrow> True | Some (JStr s) \<Rightarrow> s \<noteq> [] | _ \<Rightarrow> False) text_fields"
      by (simp add: text_fields_def none)
    have pf: "payload_fields j = []" by (simp add: payload_fields_def none)
    show ?thesis
      unfolding validate_envelope_def get_field_def text_item_def get_item_def retired_def nodes pf assms(1-3) none option.case kinds
      by (cases "record_identifier (JStr operation)") (simp_all add: fields texts del: record_identifier.simps not_None_eq)
qed
lemma unresolved_state: assumes "st \<in> set unresolved_states"
 shows "check_that (JStr st \<in> set (map JStr journal_states)) ValueError = Inr ()" "\<not> terminal (JStr st)"
  using assms by (auto simp: terminal_def journal_states_def unresolved_states_def)

lemma journal_evaluated:
  assumes "st \<in> set unresolved_states" and r: "map_of j ''state'' = Some (JStr st)" and l: "map_of j ''records'' = Some (JArr rs)" "map_of j ''events'' = Some (JArr es)"
      "map_of j ''removals'' = Some (JArr gs)"
 shows "validate_journal check j = 
       bind_result (gather (\<lambda>item. case item of JObj r \<Rightarrow> check (JObj (with_schema r)) | _ \<Rightarrow> Inl ValueError)
         (rs @ es)) (\<lambda>_.
       bind_result (gather check_removal gs) (\<lambda>_. Inr ()))"
      unfolding validate_journal_def get_item_def r option.case bind_result_simps unresolved_state(1)[OF assms(1)] if_not_P[OF unresolved_state(2)[OF assms(1)]]
      by (simp add: l list_items_def)
lemma validate_captured:
  fixes operation st :: string and removals :: "(string \<times> string) list"
  assumes "\<forall>d \<in> set (records @ events). distinct_keys (JObj d)" "distinct_keys (JObj originals)" "st \<in> set unresolved_states"
  defines "j \<equiv> sorted_dict (with_schema (captured operation records events removals originals st))"
  shows "validate_record hx 5 (JObj j) =
    bind_result (record_identifier (JStr operation)) (\<lambda>_.
    bind_result (gather (\<lambda>d. validate_record hx 4 (JObj (with_schema d))) (map sorted_dict (records @ events))) (\<lambda>_.
    bind_result (gather check_removal (map removal_json removals)) (\<lambda>_. Inr ())))"
    "validate_envelope j = bind_result (record_identifier (JStr operation)) (\<lambda>_. Inr ''operation'')"
proof -
  note r = captured_reads[OF assms(1,2), where operation = operation and removals = removals and st = st, folded j_def]
  show e: "validate_envelope j = bind_result (record_identifier (JStr operation)) (\<lambda>_. Inr ''operation'')"
    by (rule envelope_of_journal) (use r(1,2,3,8) in \<open>simp_all add: r(7)\<close>)
  have c: "gather (\<lambda>item. case item of JObj r \<Rightarrow> validate_record hx 4 (JObj (with_schema r)) | _ \<Rightarrow> Inl ValueError)
      (map (\<lambda>d. JObj (sorted_dict d)) ds) = gather (\<lambda>d. validate_record hx 4 (JObj (with_schema d))) (map sorted_dict ds)" for ds
    by (induction ds) simp_all
  have v: "validate_journal (\<lambda>r. validate_record hx 4 r) j =
    bind_result (gather (\<lambda>d. validate_record hx 4 (JObj (with_schema d))) (map sorted_dict (records @ events))) (\<lambda>_.
    bind_result (gather check_removal (map removal_json removals)) (\<lambda>_. Inr ()))"
  proof -
    obtain rs es gs where l: "map_of j ''records'' = Some (JArr rs)" "map_of j ''events'' = Some (JArr es)"
      "map_of j ''removals'' = Some (JArr gs)" using r(9) by blast
    have "rs = list_items j ''records''" "es = list_items j ''events''" "gs = list_items j ''removals''"
      by (simp_all add: list_items_def l)
    then have "rs @ es = map (\<lambda>d. JObj (sorted_dict d)) (records @ events)" "gs = map removal_json removals"
      by (simp_all add: r(4-6))
    then show ?thesis
      by (simp only: journal_evaluated[OF assms(3) r(1) l] c)
  qed
  show "validate_record hx 5 (JObj j) =
    bind_result (record_identifier (JStr operation)) (\<lambda>_.
    bind_result (gather (\<lambda>d. validate_record hx 4 (JObj (with_schema d))) (map sorted_dict (records @ events))) (\<lambda>_.
    bind_result (gather check_removal (map removal_json removals)) (\<lambda>_. Inr ())))"
    unfolding validate_record_5 json.case e
    by (cases "record_identifier (JStr operation)") (simp_all add: validate_contract_def v del: record_identifier.simps)
qed

lemma captured_items:
  "map_of (captured operation records events removals originals st) ''kind'' = Some (JStr ''operation'')"
  "map_of (captured operation records events removals originals st) ''id'' = Some (JStr operation)"
  by (simp_all add: captured_def journal_fields)

lemma planned_recordI:
  assumes "distinct_keys (JObj d)" "int (length (record_text d)) \<le> MAX_RECORD_BYTES"
    "validate_record hx 5 (JObj (sorted_dict (with_schema d))) = Inr ()"
    "map_of d ''kind'' = Some (JStr k)" "map_of d ''id'' = Some (JStr i)" "store_path hx k i = Inr p"
  shows "planned_record hx d = Inr (p, Some (record_text d))"
proof -
  have "decode hx (record_text d) = Inr (sorted_dict (with_schema d))"
    using assms(2,3) by (simp only: decode_record[OF assms(1)])
  with assms(4-6) show ?thesis by (simp add: planned_record_def text_item_def get_item_def)
qed

lemma captured_planned:
  assumes d: "\<forall>d \<in> set (records @ events). distinct_keys (JObj d)" "distinct_keys (JObj originals)"
    and p: "planned_record hx (captured operation records events removals originals st0) = Inr e0"
    and u: "st0 \<in> set unresolved_states" "st \<in> set unresolved_states"
    and l: "int (length (record_text (captured operation records events removals originals st))) \<le> MAX_RECORD_BYTES"
    and jp: "store_path hx ''operation'' operation = Inr jp"
  shows "planned_record hx (captured operation records events removals originals st)
    = Inr (jp, Some (record_text (captured operation records events removals originals st)))"
proof (rule planned_recordI[OF captured_distinct[OF d] l _ captured_items jp])
  have "validate_record hx 5 (JObj (sorted_dict (with_schema (captured operation records events removals originals st0)))) = Inr ()"
    by (rule planned_record_Inr[OF captured_distinct[OF d] p]) (simp only: decode_record[OF captured_distinct[OF d]])
  then show "validate_record hx 5 (JObj (sorted_dict (with_schema (captured operation records events removals originals st)))) = Inr ()"
    by (simp only: validate_captured(1)[OF d u(1)] validate_captured(1)[OF d u(2)])
qed

section \<open>The receipt\<close>

lemma identifier_escapes: "list_all identifier_part s \<Longrightarrow> esc_str s = s"
proof (induction s)
  case (Cons c s)
  have "esc_char c = [c]"
    using Cons.prems by (auto simp: identifier_part_def identifier_start_def esc_char_def Let_def)
  with Cons show ?case by simp
qed simp

lemma receipt_sorted:
  "sorted_dict (with_schema (terminal_journal operation st None)) =
     [(''id'', JStr operation), (''kind'', JStr ''operation''), (''schema'', SCHEMA), (''state'', JStr st)]"
  by (simp add: sorted_dict_def with_schema_def terminal_journal_def SCHEMA_def)

lemma identifier_parts:
  assumes "record_identifier (JStr s) = Inr i"
  shows "list_all identifier_part s" "length s \<le> 128"
  using assms by (cases s; auto simp: identifier_part_def split: if_splits)+

lemma receipt_planned:
  assumes p: "store_path hx ''operation'' operation = Inr p"
  shows "planned_record hx (terminal_journal operation ''complete'' None)
    = Inr (p, Some (record_text (terminal_journal operation ''complete'' None)))"
proof -
  let ?j = "terminal_journal operation ''complete'' None"
  have d: "distinct_keys (JObj ?j)" by (simp add: terminal_journal_def)
  obtain i where i: "record_identifier (JStr operation) = Inr i" using p by (auto simp: store_path_def bind_result_Inr)
  note id = identifier_parts[OF i]
  have "length (record_text ?j) \<le> 300"
    using id(2) unfolding record_text_def canonical_json_def sort_json_dict receipt_sorted
    by (simp add: str_json_def identifier_escapes[OF id(1)] SCHEMA_def esc_char_def)
  then have l: "int (length (record_text ?j)) \<le> MAX_RECORD_BYTES" by (simp add: MAX_RECORD_BYTES_def)
  let ?s = "[(''id'', JStr operation), (''kind'', JStr ''operation''), (''schema'', SCHEMA), (''state'', JStr ''complete'')]"
  have e: "validate_envelope ?s = Inr ''operation''"
    using envelope_of_journal[of ?s operation] i by simp
  have "validate_record hx 5 (JObj (sorted_dict (with_schema ?j))) = Inr ()"
    unfolding receipt_sorted validate_record_5 json.case e bind_result_simps
    by (simp add: validate_contract_def validate_journal_def get_item_def journal_states_def terminal_def)
  then show ?thesis
    using planned_recordI[OF d l _ _ _ p] by (simp add: terminal_journal_def)
qed

end
