(* ===== verification/Store_Completion.thy ===== *)
theory Store_Completion
  imports Store_Recovery
begin

text \<open>
  What a publication that stopped anywhere leaves, and that repair completes it.
\<close>

section \<open>The stages of a publication\<close>

definition in_place :: "file_edit list \<Rightarrow> (string \<Rightarrow> string option) \<Rightarrow> bool" where
  "in_place edits M \<longleftrightarrow> list_all (\<lambda>e. M (fst e) = snd e) edits"

definition nowhere :: "file_edit list \<Rightarrow> (string \<Rightarrow> string option) \<Rightarrow> bool" where
  "nowhere edits M \<longleftrightarrow> list_all (\<lambda>e. M (fst e) = None) edits"

definition torn :: "file_edit list \<Rightarrow> (string \<Rightarrow> string option) \<Rightarrow> bool" where
  "torn edits M \<longleftrightarrow> list_all (\<lambda>e. M (fst e) = None \<or> M (fst e) = snd e) edits"

lemma torn_if: "in_place edits M \<Longrightarrow> torn edits M" "nowhere edits M \<Longrightarrow> torn edits M"
  by (auto simp: in_place_def nowhere_def torn_def list_all_iff)

lemma place_upd:
  assumes "p \<notin> fst ` set es"
  shows "in_place es (M(p := x)) = in_place es M" "nowhere es (M(p := x)) = nowhere es M"
proof -
  have "fst e \<noteq> p" if "e \<in> set es" for e using assms that by auto
  then show "in_place es (M(p := x)) = in_place es M" "nowhere es (M(p := x)) = nowhere es M"
    by (simp_all add: in_place_def nowhere_def list_all_iff split_def)
qed

definition view :: "rel_store \<Rightarrow> (string \<Rightarrow> string option) \<times> bool" where
  "view s = (map_of (rl_files s), rl_index s \<noteq> None)"

text \<open>
  The journal's file holds \<open>c\<close>, the state is in place (\<open>st\<close>), and the events are in place
  (\<open>ev\<close>) or not there at all.
\<close>

definition stage ::
  "string \<Rightarrow> file_edit list \<Rightarrow> file_edit list \<Rightarrow> string option \<Rightarrow> bool \<Rightarrow> bool \<Rightarrow> (string \<Rightarrow> string option) \<times> bool \<Rightarrow> bool"
where
  "stage jp S H c st ev = (\<lambda>(M, i). i \<and> M jp = c \<and> (st \<longrightarrow> in_place S M)
     \<and> (if ev then in_place H M else nowhere H M))"

text \<open>What can be found after a stop: \<open>text\<close> gives the journal in an unresolved state.\<close>

definition stopped ::
  "string \<Rightarrow> file_edit list \<Rightarrow> file_edit list \<Rightarrow> (string \<Rightarrow> string) \<Rightarrow> string \<Rightarrow> (string \<Rightarrow> string option) \<times> bool \<Rightarrow> bool"
where
  "stopped jp S H text receipt = (\<lambda>(M, i). M jp = None \<or> i \<and>
     ((\<exists>state \<in> set unresolved_states. M jp = Some (text state) \<and> (state = ''pending'' \<or> in_place S M)
         \<and> torn H M)
      \<or> M jp = Some receipt \<and> in_place S M \<and> in_place H M))"

definition stops ::
  "((string \<Rightarrow> string option) \<times> bool \<Rightarrow> bool) \<Rightarrow> ((string \<Rightarrow> string option) \<times> bool \<Rightarrow> bool) \<Rightarrow> (rel_store, unit) prog
   \<Rightarrow> ((string \<Rightarrow> string option) \<times> bool \<Rightarrow> bool) \<Rightarrow> bool"
where
  "stops I A m B \<longleftrightarrow> (\<forall>s r s'. A (view s) \<longrightarrow> m s = (r, s') \<longrightarrow> I (view s') \<and> (r = Inr () \<longrightarrow> B (view s')))"

lemma stops_bind:
  assumes "stops I A m B" "stops I B (f ()) C"
  shows "stops I A (bind_prog m f) C"
  unfolding stops_def
proof (intro allI impI)
  fix s r s' assume a: "A (view s)" and run: "bind_prog m f s = (r, s')"
  obtain r1 s1 where 1: "m s = (r1, s1)" by (cases "m s")
  with a assms(1) have i: "I (view s1)" and b: "r1 = Inr () \<Longrightarrow> B (view s1)" unfolding stops_def by blast+
  show "I (view s') \<and> (r = Inr () \<longrightarrow> C (view s'))"
  proof (cases r1)
    case (Inl e)
    with 1 run i show ?thesis by (auto simp: bind_prog_def)
  next
    case (Inr u)
    with 1 run b have "B (view s1)" "f () s1 = (r, s')" by (simp_all add: bind_prog_def)
    with assms(2) show ?thesis unfolding stops_def by blast
  qed
qed

lemma stops_write:
  assumes planned: "\<And>es. planned_edits hx ds rs = Inr es \<Longrightarrow> map_of es = E"
    and stop: "\<And>M i M'. A (M, i) \<Longrightarrow> \<forall>p. M' p = M p \<or> E p = Some (M' p) \<Longrightarrow> I (M', i)"
    and finish: "\<And>M i. A (M, i) \<Longrightarrow> B (\<lambda>p. case E p of None \<Rightarrow> M p | Some a \<Rightarrow> a, i)"
  shows "stops I A (write_records hx ds rs) B"
  unfolding stops_def
proof (intro allI impI conjI)
  fix s r s' assume a: "A (view s)" and run: "write_records hx ds rs s = (r, s')"
  have i: "rl_index s' = rl_index s" using write_records_frame(1)[OF run] .
  show "I (view s')"
    using stop[of "map_of (rl_files s)" "rl_index s \<noteq> None" "map_of (rl_files s')"] a
      write_records_frame(3)[OF run] planned i by (auto simp: view_def)
  assume "r = Inr ()"
  then obtain es where es: "planned_edits hx ds rs = Inr es"
    "\<And>p. map_of (rl_files s') p = (case map_of es p of None \<Rightarrow> map_of (rl_files s) p | Some a \<Rightarrow> a)"
    using run write_records_done by metis
  then have "map_of (rl_files s') = (\<lambda>p. case E p of None \<Rightarrow> map_of (rl_files s) p | Some a \<Rightarrow> a)"
    using planned by auto
  then show "B (view s')" using finish[of "map_of (rl_files s)"] a i by (simp add: view_def)
qed

lemma stops_index:
  assumes "\<And>v. A v \<Longrightarrow> snd v" "\<And>v. A v \<Longrightarrow> I v"
  shows "stops I A (reconcile hx ds rs) A" "stops I A (reconcile_journal hx i) A"
proof -
  have "stops I A (index_transaction f) A" for f
    unfolding stops_def
  proof (intro allI impI)
    fix s r s' assume a: "A (view s)" and run: "index_transaction f s = (r, s')"
    have "view s' = view s"
      using index_transaction_frame[OF run] assms(1)[of "view s"] a by (simp add: view_def)
    with a assms(2) show "I (view s') \<and> (r = Inr () \<longrightarrow> A (view s'))" by (simp add: view_def)
  qed
  then show "stops I A (reconcile hx ds rs) A" "stops I A (reconcile_journal hx i) A"
    by (simp_all only: reconcile_def reconcile_journal_def)
qed

text \<open>A file of one record is written.\<close>

lemma planned_single:
  assumes "distinct_keys (JObj d)" "map_of d ''kind'' = Some (JStr k)" "map_of d ''id'' = Some (JStr i)" "store_path hx k i = Inr p"
    "planned_edits hx [d] [] = Inr es"
  shows "map_of es = [p \<mapsto> Some (record_text d)]"
proof -
  obtain e where e: "planned_record hx d = Inr e" "es = [e]"
    using assms(5) by (auto simp: planned_edits_single bind_result_Inr)
  have "e = (p, Some (record_text d))"
    by (rule planned_record_Inr[OF assms(1) e(1)]) (use assms(2-4) in \<open>auto simp: prod_eq_iff\<close>)
  with e(2) show ?thesis by auto
qed

lemma stops_journal:
  assumes E: "\<And>es. planned_edits hx [d] [] = Inr es \<Longrightarrow> map_of es = [jp \<mapsto> Some t]"
    and jp: "jp \<notin> fst ` set (S @ H)"
    and stop: "\<And>v. stage jp S H c st ev v \<Longrightarrow> stopped jp S H text receipt v"
      "\<And>v. stage jp S H (Some t) st ev v \<Longrightarrow> stopped jp S H text receipt v"
  shows "stops (stopped jp S H text receipt) (stage jp S H c st ev) (write_records hx [d] []) (stage jp S H (Some t) st ev)"
proof (rule stops_write)
  show "map_of es = [jp \<mapsto> Some t]" if "planned_edits hx [d] [] = Inr es" for es using E that .
  have new: "stage jp S H (Some t) st ev (M(jp := Some t), i)" if "stage jp S H c st ev (M, i)" for M i
    using that place_upd[of jp S M] place_upd[of jp H M] jp by (cases ev) (simp_all add: stage_def image_Un)
  show "stopped jp S H text receipt (M', i)"
    if "stage jp S H c st ev (M, i)" "\<forall>p. M' p = M p \<or> [jp \<mapsto> Some t] p = Some (M' p)" for M i M'
  proof (cases "M' jp = M jp")
    case True
    with that(2) have "M' = M" by (auto simp: fun_eq_iff split: if_splits)
    with stop(1)[OF that(1)] show ?thesis by simp
  next
    case False
    with that(2) have "M' = M(jp := Some t)" by (auto simp: fun_eq_iff split: if_splits)
    with stop(2)[OF new[OF that(1)]] show ?thesis by simp
  qed
  have "(\<lambda>p. case [jp \<mapsto> Some t] p of None \<Rightarrow> M p | Some a \<Rightarrow> a) = M(jp := Some t)" for M by auto
  then show "stage jp S H (Some t) st ev (\<lambda>p. case [jp \<mapsto> Some t] p of None \<Rightarrow> M p | Some a \<Rightarrow> a, i)"
    if "stage jp S H c st ev (M, i)" for M i using new[OF that] by simp
qed

lemma stage_stopped:
  "stage jp S H None st ev v \<Longrightarrow> stopped jp S H text receipt v"
  "stage jp S H (Some (text ''pending'')) st ev v \<Longrightarrow> stopped jp S H text receipt v"
  "state \<in> set unresolved_states \<Longrightarrow> stage jp S H (Some (text state)) True ev v \<Longrightarrow> stopped jp S H text receipt v"
  "stage jp S H (Some receipt) True True v \<Longrightarrow> stopped jp S H text receipt v"
proof -
  obtain M i where v: "v = (M, i)" by (cases v)
  have p: "''pending'' \<in> set unresolved_states" by (simp add: unresolved_states_def)
  show "stage jp S H None st ev v \<Longrightarrow> stopped jp S H text receipt v" by (simp add: v stage_def stopped_def)
  show "stage jp S H (Some (text ''pending'')) st ev v \<Longrightarrow> stopped jp S H text receipt v"
    using p torn_if[of H M] unfolding v stage_def stopped_def by (cases ev) auto
  show "state \<in> set unresolved_states \<Longrightarrow> stage jp S H (Some (text state)) True ev v \<Longrightarrow> stopped jp S H text receipt v"
    using torn_if[of H M] unfolding v stage_def stopped_def by (cases ev) auto
  show "stage jp S H (Some receipt) True True v \<Longrightarrow> stopped jp S H text receipt v" by (simp add: v stage_def stopped_def)
qed

section \<open>Publications\<close>

text \<open>The files a publication is to write, its records with its removals and its events.\<close>

definition publication_edits ::
  "(string \<Rightarrow> string) \<Rightarrow> dict list \<Rightarrow> dict list \<Rightarrow> (string \<times> string) list \<Rightarrow> exn + file_edit list \<times> file_edit list"
where
  "publication_edits hx records events removals =
     bind_result (gather (planned_record hx) records) (\<lambda>rs.
     bind_result (gather (planned_removal hx) removals) (\<lambda>gs.
     bind_result (gather (planned_record hx) events) (\<lambda>es. Inr (rs @ gs, es))))"

lemma map_of_plan: "distinct (map fst es) \<Longrightarrow> map_of (dict_update [] es) = map_of es"
  by (rule ext) (simp add: map_of_dict_update split: option.split)

lemma stops_state:
  assumes E: "publication_edits hx records events removals = Inr (S, H)" and d: "distinct (jp # map fst (S @ H))"
  shows "stops (stopped jp S H text receipt) (stage jp S H (Some (text ''pending'')) False False)
    (write_records hx records removals) (stage jp S H (Some (text ''pending'')) True False)"
proof (rule stops_write)
  obtain rs gs where g: "gather (planned_record hx) records = Inr rs" "gather (planned_removal hx) removals = Inr gs" "S = rs @ gs"
    using E by (auto simp: publication_edits_def bind_result_Inr)
  show "map_of es = map_of S" if "planned_edits hx records removals = Inr es" for es
    proof -
    have "dict_update [] S = es" using that g by (simp add: planned_edits_def)
    moreover have "distinct (map fst S)" using d by simp
    ultimately show ?thesis using map_of_plan[of S] by simp
  qed
  have none: "map_of S jp = None" "e \<in> set H \<Longrightarrow> map_of S (fst e) = None" for e
    using d by (force simp: map_of_eq_None_iff)+
  show "stopped jp S H text receipt (M', i)"
    if a: "stage jp S H (Some (text ''pending'')) False False (M, i)" "\<forall>p. M' p = M p \<or> map_of S p = Some (M' p)" for M i M'
  proof (rule stage_stopped(2))
    have "M' (fst e) = M (fst e)" if "e \<in> set H" for e using a(2) none(2)[OF that] by (metis option.distinct(1))
    then have "nowhere H M' = nowhere H M" by (simp add: nowhere_def list_all_iff split_def)
    moreover have "M' jp = M jp" using a(2) none(1) by (metis option.distinct(1))
    ultimately show "stage jp S H (Some (text ''pending'')) False False (M', i)" using a(1) by (simp add: stage_def)
  qed
  show "stage jp S H (Some (text ''pending'')) True False (\<lambda>p. case map_of S p of None \<Rightarrow> M p | Some a \<Rightarrow> a, i)" (is "stage _ _ _ _ _ _ (?M, _)")
    if a: "stage jp S H (Some (text ''pending'')) False False (M, i)" for M i
  proof -
    have "map_of S (fst e) = Some (snd e)" if "e \<in> set S" for e using d that by (intro map_of_is_SomeI) auto
    then have "in_place S ?M" by (simp add: in_place_def list_all_iff split_def)
    moreover have "nowhere H ?M = nowhere H M" using none(2) by (simp add: nowhere_def list_all_iff split_def)
    ultimately show ?thesis using a none(1) by (simp add: stage_def)
  qed
qed

lemma stops_events:
  assumes E: "publication_edits hx records events removals = Inr (S, H)" and d: "distinct (jp # map fst (S @ H))"
    and u: "state \<in> set unresolved_states"
  shows "stops (stopped jp S H text receipt) (stage jp S H (Some (text state)) True False)
    (write_records hx events []) (stage jp S H (Some (text state)) True True)"
proof (rule stops_write)
  have g: "gather (planned_record hx) events = Inr H"
    using E by (auto simp: publication_edits_def bind_result_Inr)
  show "map_of es = map_of H" if "planned_edits hx events [] = Inr es" for es
    using that g d map_of_plan[of H] by (simp add: planned_edits_def)
  have none: "map_of H jp = None" "e \<in> set S \<Longrightarrow> map_of H (fst e) = None" for e
    using d by (force simp: map_of_eq_None_iff)+
  have some: "map_of H (fst e) = Some (snd e)" if "e \<in> set H" for e using d that by (intro map_of_is_SomeI) auto
  show "stopped jp S H text receipt (M', i)"
    if a: "stage jp S H (Some (text state)) True False (M, i)" "\<forall>p. M' p = M p \<or> map_of H p = Some (M' p)" for M i M'
  proof -
    have "M' (fst e) = M (fst e)" if "e \<in> set S" for e using a(2) none(2)[OF that] by (metis option.distinct(1))
    then have "in_place S M' = in_place S M" by (simp add: in_place_def list_all_iff split_def)
    moreover have "M' jp = M jp" using a(2) none(1) by (metis option.distinct(1))
    moreover have "M' (fst e) = M (fst e) \<or> M' (fst e) = snd e" if "e \<in> set H" for e
      using a(2) some[OF that] by (metis option.inject)
    then have "torn H M'" using a(1) by (auto simp: stage_def torn_def nowhere_def list_all_iff split_def)
    ultimately show ?thesis using a(1) u by (auto simp: stage_def stopped_def)
  qed
  show "stage jp S H (Some (text state)) True True (\<lambda>p. case map_of H p of None \<Rightarrow> M p | Some a \<Rightarrow> a, i)" (is "stage _ _ _ _ _ _ (?M, _)")
    if a: "stage jp S H (Some (text state)) True False (M, i)" for M i
  proof -
    have "in_place H ?M" using some by (simp add: in_place_def list_all_iff split_def)
    moreover have "in_place S ?M = in_place S M" using none(2) by (simp add: in_place_def list_all_iff split_def)
    ultimately show ?thesis using a none(1) by (simp add: stage_def)
  qed
qed

text \<open>The digests of its inputs and what it captures of them are those a store can publish.\<close>

lemma captured_originals_files:
  "rl_files t = rl_files s \<Longrightarrow> captured_originals hx previous items removals t = captured_originals hx previous items removals s"
proof -
  assume "rl_files t = rl_files s"
  then have "original_of hx t = original_of hx s" by (simp add: original_of_def file_revision_def fun_eq_iff)
  then show ?thesis by (simp add: captured_originals_def)
qed

lemma captured_pending:
  "journal_of [] operation ''pending'' records events removals originals = captured operation records events removals originals ''pending''"
  by (simp add: captured_def journal_of_def set_state_def)

lemma set_captured:
  "set_state st (captured operation records events removals originals st0) = captured operation records events removals originals st"
  by (simp add: captured_def journal_fields set_state_def)

lemma stage_index: "stage jp S H c st ev v \<Longrightarrow> snd v"
  by (auto simp: stage_def)

text \<open>The part of \<open>publish\<close> that follows the capture of the journal.\<close>

definition journaled ::
  "(string \<Rightarrow> string) \<Rightarrow> string \<Rightarrow> dict list \<Rightarrow> dict list \<Rightarrow> (string \<times> string) list \<Rightarrow> (string \<Rightarrow> dict) \<Rightarrow> (rel_store, unit) prog"
where
  "journaled hx operation records events removals journal =
     bind_prog (write_records hx [journal ''pending''] []) (\<lambda>_.
     bind_prog (write_records hx records removals) (\<lambda>_.
     bind_prog (write_records hx [journal ''state-committed''] []) (\<lambda>_.
     bind_prog (write_records hx events []) (\<lambda>_.
     bind_prog (write_records hx [journal ''projection-pending''] []) (\<lambda>_.
     bind_prog (reconcile hx (records @ events @ [journal ''projection-pending'']) removals) (\<lambda>_.
     bind_prog (write_records hx [terminal_journal operation ''complete'' None] []) (\<lambda>_.
       reconcile_journal hx operation)))))))"

lemma journaled_stops:
  assumes E: "publication_edits hx records events removals = Inr (S, H)" and d: "distinct (jp # map fst (S @ H))"
    and jp: "store_path hx ''operation'' operation = Inr jp"
    and journal: "\<And>st es. planned_edits hx [journal st] [] = Inr es \<Longrightarrow> map_of es = [jp \<mapsto> Some (record_text (journal st))]"
  defines "text \<equiv> \<lambda>st. record_text (journal st)"
    and "receipt \<equiv> record_text (terminal_journal operation ''complete'' None)"
  shows "stops (stopped jp S H text receipt) (stage jp S H None False False)
    (journaled hx operation records events removals journal) (stage jp S H (Some receipt) True True)"
proof -
  let ?I = "stopped jp S H text receipt"
  note pp = stage_stopped(3)[of "''projection-pending''" jp S H "text"]
  have last: "map_of es = [jp \<mapsto> Some receipt]" if "planned_edits hx [terminal_journal operation ''complete'' None] [] = Inr es" for es
    unfolding receipt_def by (rule planned_single[OF _ _ _ jp that]) (simp_all add: terminal_journal_def)
  have out: "jp \<notin> fst ` set (S @ H)" using d by (simp add: image_Un)
  have u: "''state-committed'' \<in> set unresolved_states" "''projection-pending'' \<in> set unresolved_states"
    by (simp_all add: unresolved_states_def)
  show ?thesis
    unfolding journaled_def
  proof (intro stops_bind)
    show "stops ?I (stage jp S H None False False) (write_records hx [journal ''pending''] []) (stage jp S H (Some (text ''pending'')) False False)"
      unfolding text_def by (intro stops_journal journal out stage_stopped(1) stage_stopped(2)[of _ _ _ "\<lambda>st. record_text (journal st)"])
    show "stops ?I (stage jp S H (Some (text ''pending'')) False False) (write_records hx records removals)
        (stage jp S H (Some (text ''pending'')) True False)" by (rule stops_state[OF E d])
    show "stops ?I (stage jp S H (Some (text ''pending'')) True False) (write_records hx [journal ''state-committed''] [])
        (stage jp S H (Some (text ''state-committed'')) True False)"
      by (rule stops_journal[OF _ out]) (use journal in \<open>auto simp: text_def intro: stage_stopped(2) stage_stopped(3)[OF u(1)]\<close>)
    show "stops ?I (stage jp S H (Some (text ''state-committed'')) True False) (write_records hx events [])
        (stage jp S H (Some (text ''state-committed'')) True True)"
      by (rule stops_events[OF E d u(1)])
    show "stops ?I (stage jp S H (Some (text ''state-committed'')) True True) (write_records hx [journal ''projection-pending''] [])
        (stage jp S H (Some (text ''projection-pending'')) True True)"
      by (rule stops_journal[OF _ out]) (use journal in \<open>auto simp: text_def intro: stage_stopped(3)[OF u(1)] stage_stopped(3)[OF u(2)]\<close>)
    show "stops ?I (stage jp S H (Some (text ''projection-pending'')) True True)
        (reconcile hx (records @ events @ [journal ''projection-pending'']) removals) (stage jp S H (Some (text ''projection-pending'')) True True)"
      by (rule stops_index) (use stage_index pp u(2) in blast)+
    show "stops ?I (stage jp S H (Some (text ''projection-pending'')) True True) (write_records hx [terminal_journal operation ''complete'' None] [])
        (stage jp S H (Some receipt) True True)"
      by (rule stops_journal[OF last out]) (use pp u(2) stage_stopped(4) in blast)+
    show "stops ?I (stage jp S H (Some receipt) True True) (reconcile_journal hx operation) (stage jp S H (Some receipt) True True)"
      by (rule stops_index) (use stage_index stage_stopped(4) in blast)+
  qed
qed

lemma publish_stops:
  assumes run: "publish hx operation records events removals s = (r, s')"
    and E: "publication_edits hx records events removals = Inr (S, H)" and d: "distinct (jp # map fst (S @ H))"
    and jp: "store_path hx ''operation'' operation = Inr jp"
    and none: "map_of (rl_files s) jp = None" "nowhere H (map_of (rl_files s))"
    and keys: "\<forall>d \<in> set (records @ events). distinct_keys (JObj d)" "distinct_keys (JObj originals)"
    and originals: "captured_originals hx [] (records @ events) removals s = Inr originals"
  shows "stopped jp S H (\<lambda>state. record_text (captured operation records events removals originals state))
    (record_text (terminal_journal operation ''complete'' None)) (view s')
    \<and> (r = Inr () \<longrightarrow> map_of (rl_files s') jp = Some (record_text (terminal_journal operation ''complete'' None)))"
proof -
  let ?c = "captured operation records events removals originals"
    and ?receipt = "record_text (terminal_journal operation ''complete'' None)"
  have single: "map_of es = [jp \<mapsto> Some (record_text (?c st))]" if "planned_edits hx [?c st] [] = Inr es" for st es
    by (rule planned_single[OF captured_distinct[OF keys] captured_items jp that])
  note body = journaled_stops[OF E d jp, of ?c, OF single]
  obtain ri s1 where i: "initialise s = (ri, s1)" by (cases "initialise s")
  have f: "rl_files s1 = rl_files s" using initialise_frame[OF i] by simp
  show ?thesis
  proof (cases ri)
    case (Inl e)
    then show ?thesis using run i f none(1) by (auto simp: publish_def bind_prog_def view_def stopped_def)
  next
    case (Inr w)
    then have ix: "rl_index s1 \<noteq> None" using i by (auto simp: initialise_def split: option.splits if_splits)
    have "read_record hx ''operation'' operation s1 = Inr None" using jp f none(1) by (simp add: read_record_def)
    moreover have "captured_originals hx [] (records @ events) removals s1 = Inr originals"
      using originals captured_originals_files[OF f] by simp
    ultimately have "journaled hx operation records events removals ?c s1 = (r, s')"
      using run i Inr unfolding publish_def journaled_def
      by (simp add: bind_prog_def[of initialise] bind_prog_def[of "lift_result _"] Let_def captured_pending set_captured)
    moreover have "stage jp S H None False False (view s1)" using f ix none by (simp add: stage_def view_def)
    ultimately have "stopped jp S H (\<lambda>state. record_text (?c state)) ?receipt (view s') \<and> (r = Inr () \<longrightarrow> stage jp S H (Some ?receipt) True True (view s'))"
      using body unfolding stops_def by blast
    then show ?thesis by (simp add: stage_def view_def)
  qed
qed

section \<open>Repair without faults\<close>

lemma gather_is_map: "gather f xs = Inr ys \<Longrightarrow> ys = map (\<lambda>x. projr (f x)) xs"
  by (induction xs arbitrary: ys) (auto simp: bind_result_Inr)

lemma gather_map: "(\<And>x. x \<in> set xs \<Longrightarrow> f x = Inr (g x)) \<Longrightarrow> gather f xs = Inr (map g xs)"
  by (induction xs) simp_all

lemma gather_projr:
  assumes "gather f xs = Inr ys"
  shows "ys = map (projr \<circ> f) xs" "x \<in> set xs \<Longrightarrow> f x = Inr (projr (f x))"
  using gather_is_map[OF assms] gather_all[OF assms, of x] by (auto simp: comp_def)

lemma planned_key:
  assumes "planned_record hx d = Inr e"
  obtains k i where "map_of d ''kind'' = Some (JStr k)" "map_of d ''id'' = Some (JStr i)" "store_path hx k i = Inr (fst e)"
    "item_key d = Inr (k, i)"
  using assms by (auto simp: planned_record_def bind_result_Inr text_item_Inr item_key_def)

lemma planned_record_cong:
  "record_text d = record_text e \<Longrightarrow> map_of d ''kind'' = map_of e ''kind'' \<Longrightarrow> map_of d ''id'' = map_of e ''id''
   \<Longrightarrow> planned_record hx d = planned_record hx e"
  by (simp add: planned_record_def text_item_def get_item_def)

lemma planned_sorted:
  assumes "distinct_keys (JObj d)" "planned_record hx d = Inr e"
  shows "planned_record hx (sorted_dict d) = Inr e" "item_key (sorted_dict d) = item_key d"
    "map_of (sorted_dict d) ''id'' = map_of d ''id''"
proof -
  obtain k i where k: "map_of d ''kind'' = Some (JStr k)" "map_of d ''id'' = Some (JStr i)"
    by (rule planned_key[OF assms(2)])
  have d: "distinct (map fst d)" using assms(1) by simp
  have m: "map_of (sorted_dict d) ''kind'' = map_of d ''kind''" "map_of (sorted_dict d) ''id'' = map_of d ''id''"
    using k d by (simp_all add: map_of_sorted_dict)
  show "planned_record hx (sorted_dict d) = Inr e"
    using planned_record_cong[OF record_text_sorted[OF assms(1)] m] assms(2) by simp
  show "item_key (sorted_dict d) = item_key d" "map_of (sorted_dict d) ''id'' = map_of d ''id''"
    using m by (simp_all add: item_key_def text_item_def get_item_def)
qed

text \<open>A record whose file is in place reads as itself, one whose file is not there as nothing.\<close>

lemma read_placed:
  assumes "distinct_keys (JObj d)" "planned_record hx d = Inr e" "item_key d = Inr (k, i)"
  shows "map_of (rl_files s) (fst e) = snd e \<Longrightarrow> read_record hx k i s = Inr (Some (sorted_dict (with_schema d)))"
    "map_of (rl_files s) (fst e) = None \<Longrightarrow> read_record hx k i s = Inr None"
proof -
  obtain k' i' where ki: "map_of d ''kind'' = Some (JStr k')" "map_of d ''id'' = Some (JStr i')" "store_path hx k' i' = Inr (fst e)"
    "item_key d = Inr (k', i')"
    by (rule planned_key[OF assms(2)])
  then have "k' = k" "i' = i" using assms(3) by simp_all
  note ki = ki[unfolded this]
  show "map_of (rl_files s) (fst e) = snd e \<Longrightarrow> read_record hx k i s = Inr (Some (sorted_dict (with_schema d)))"
    by (rule read_planned[OF assms(1,2) ki(1,2)])
  show "map_of (rl_files s) (fst e) = None \<Longrightarrow> read_record hx k i s = Inr None"
    using ki(3) by (simp add: read_record_def)
qed

lemma located_revision:
  "current_locators hx e s = (Inr e', s') \<Longrightarrow> \<exists>v. map_of e ''revision'' = Some v"
  by (auto simp: current_locators_def bind_prog_def Let_def get_item_def split: prod.splits sum.splits if_splits option.splits)

lemma missing_calm:
  assumes "\<And>e. e \<in> set es \<Longrightarrow> distinct_keys (JObj e) \<and> map_of e ''kind'' = Some (JStr ''event'') \<and> planned_record hx e = Inr (pl e)
     \<and> (map_of (rl_files s) (fst (pl e)) = None \<or> map_of (rl_files s) (fst (pl e)) = snd (pl e))
     \<and> current_locators hx (sorted_dict e) s = (Inr (sorted_dict e), s)"
  shows "missing_events hx (map sorted_dict es) s
    = (Inr (map sorted_dict (filter (\<lambda>e. map_of (rl_files s) (fst (pl e)) = None) es)), s)"
  using assms
proof (induction es)
  case (Cons e es)
  have e: "distinct_keys (JObj e)" "map_of e ''kind'' = Some (JStr ''event'')" "planned_record hx e = Inr (pl e)"
    "map_of (rl_files s) (fst (pl e)) = None \<or> map_of (rl_files s) (fst (pl e)) = snd (pl e)"
    "current_locators hx (sorted_dict e) s = (Inr (sorted_dict e), s)" using Cons.prems[of e] by simp_all
  have es: "missing_events hx (map sorted_dict es) s
    = (Inr (map sorted_dict (filter (\<lambda>e. map_of (rl_files s) (fst (pl e)) = None) es)), s)"
    using Cons by simp
  obtain i where i: "map_of e ''id'' = Some (JStr i)" "item_key e = Inr (''event'', i)"
    by (rule planned_key[OF e(3)]) (use e(2) in auto)
  have id: "text_item (sorted_dict e) ''id'' = Inr i"
    using planned_sorted(3)[OF e(1,3)] i(1) by (simp add: text_item_Inr)
  show ?case
  proof (cases "map_of (rl_files s) (fst (pl e)) = None")
    case True
    with read_placed(2)[OF e(1,3) i(2)] id e(5) es show ?thesis by (simp add: bind_prog_def)
  next
    case False
    with e(4) read_placed(1)[OF e(1,3) i(2)]
    have read: "read_record hx ''event'' i s = Inr (Some (sorted_dict (with_schema e)))" by simp
    obtain v where v: "map_of (sorted_dict e) ''revision'' = Some v" using located_revision[OF e(5)] by blast
    have "map_of (sorted_dict (with_schema e)) ''revision'' = Some v"
      using v e(1) distinct_with_schema[OF e(1)] by (simp add: map_of_sorted_dict map_of_with_schema)
    with False read id v es show ?thesis by (simp add: bind_prog_def get_item_def get_field_def)
  qed
qed simp

lemma present_calm:
  "(\<And>k i. (k, i) \<in> set keys \<Longrightarrow> read_record hx k i s = Inr None \<or> (\<exists>d \<in> D. read_record hx k i s = Inr (Some d)))
   \<Longrightarrow> \<exists>found absent. present_records hx keys s = Inr (found, absent) \<and> set found \<subseteq> D"
proof (induction keys)
  case (Cons key keys)
  obtain k i where key: "key = (k, i)" by (cases key)
  obtain found absent where "present_records hx keys s = Inr (found, absent)" "set found \<subseteq> D" using Cons by (meson list.set_intros(2))
  with Cons.prems[of k i] key show ?case by auto
qed simp

lemma captured_sorted:
  "sorted_dict (with_schema (captured operation records events removals originals st)) =
     [(''events'', sort_json (JArr (map JObj events))), (''id'', JStr operation), (''kind'', JStr ''operation''),
      (''originals'', sort_json (JObj originals)), (''records'', sort_json (JArr (map JObj records))),
      (''removals'', sort_json (JArr (map removal_json removals))), (''schema'', SCHEMA), (''state'', JStr st)]"
  by (simp add: sorted_dict_def with_schema_def captured_def journal_fields SCHEMA_def del: sort_json.simps(5,6))

lemma set_state_sorted:
  "set_state st (sorted_dict (with_schema (captured operation records events removals originals st0)))
    = sorted_dict (with_schema (captured operation records events removals originals st))"
  by (simp add: captured_sorted set_state_def del: sort_json.simps)

lemma item_keys_run:
  assumes "gather (planned_record hx) ds = Inr es" "\<forall>d \<in> set ds. distinct_keys (JObj d)"
  shows "\<exists>keys. gather item_key (map sorted_dict ds) = Inr keys \<and> set keys = {key. \<exists>d \<in> set ds. item_key d = Inr key}"
  using assms
proof (induction ds arbitrary: es)
  case (Cons d ds)
  obtain e es' where e: "planned_record hx d = Inr e" "gather (planned_record hx) ds = Inr es'"
    using Cons.prems(1) by (auto simp: bind_result_Inr)
  obtain k i where k: "item_key d = Inr (k, i)" by (rule planned_key[OF e(1)])
  obtain keys where keys: "gather item_key (map sorted_dict ds) = Inr keys" "set keys = {key. \<exists>d \<in> set ds. item_key d = Inr key}"
    using Cons.IH[OF e(2)] Cons.prems(2) by auto
  have "item_key (sorted_dict d) = Inr (k, i)" using planned_sorted(2)[OF _ e(1)] Cons.prems(2) k by simp
  with keys k show ?case by auto
qed simp

lemma journal_targets_run:
  assumes "\<forall>d \<in> set (records @ events). distinct_keys (JObj d)" "distinct_keys (JObj originals)"
    and "gather (planned_record hx) (records @ events) = Inr es"
  shows "\<exists>ts. journal_targets (sorted_dict (with_schema (captured operation records events removals originals st))) = Inr ts"
proof -
  note r = captured_reads[OF assms(1,2), where operation = operation and removals = removals and st = st]
  have "object_items (list_items (sorted_dict (with_schema (captured operation records events removals originals st))) ''records''
      @ list_items (sorted_dict (with_schema (captured operation records events removals originals st))) ''events'')
      = Inr (map sorted_dict (records @ events))"
    using object_items_sorted[of "records @ events"] by (simp add: r(4,5))
  moreover obtain keys where "gather item_key (map sorted_dict (records @ events)) = Inr keys"
    using item_keys_run[OF assms(3,1)] by blast
  then have "gather (\<lambda>r. bind_result (text_item r ''kind'') (\<lambda>k. bind_result (text_item r ''id'') (\<lambda>i. Inr (k, i))))
      (map sorted_dict (records @ events)) = Inr keys" by (simp only: item_key_def[abs_def])
  ultimately show ?thesis by (simp add: journal_targets_def r(6) removal_pairs)
qed

lemma slotted_sorted:
  assumes "distinct_keys (JObj d)" "slotted d"
  shows "slotted (sorted_dict (with_schema d))"
proof -
  have m: "map_of (sorted_dict (with_schema d)) k = map_option sort_json (map_of (with_schema d) k)" for k
    using distinct_with_schema[OF assms(1)] by (simp add: map_of_sorted_dict)
  have "sort_json v = JStr t \<longleftrightarrow> v = JStr t" for v t by (cases v) auto
  with assms(2) show ?thesis by (auto simp: slotted_def m map_of_with_schema)
qed

text \<open>The index takes every record of the publication, and its journal.\<close>

lemma index_placed:
  assumes d: "distinct_keys (JObj d)" "slotted d" "map_of d ''kind'' \<noteq> Some (JStr ''operation'')"
    and p: "planned_record hx d = Inr e" "map_of (rl_files s) (fst e) = snd e"
  shows "\<exists>ix'. index_record hx s (sorted_dict (with_schema d)) ix = Inr ix'"
proof -
  obtain k i where k: "map_of d ''kind'' = Some (JStr k)" "map_of d ''id'' = Some (JStr i)" "store_path hx k i = Inr (fst e)"
    "snd e = Some (record_text d)" "decode hx (record_text d) = Inr (sorted_dict (with_schema d))"
    by (rule planned_record_Inr[OF d(1) p(1)])
  have m: "map_of (sorted_dict (with_schema d)) f = map_option sort_json (map_of (with_schema d) f)" for f
    using distinct_with_schema[OF d(1)] by (simp add: map_of_sorted_dict)
  have "validate_record hx 5 (JObj (sorted_dict (with_schema d))) = Inr ()"
    using k(5) decode_record[OF d(1)] by blast
  then obtain l where l: "validate_envelope (sorted_dict (with_schema d)) = Inr l"
    unfolding validate_record_5 json.case by (auto simp: bind_result_Inr)
  have "l = k" using validate_envelope_Inr(1)[OF l] k(1) by (simp add: m map_of_with_schema)
  with d(3) k(1) show ?thesis
    using index_record_runs[OF l slotted_sorted[OF d(1,2)], of i hx "fst e" s "record_text d" ix] k p(2)
    by (simp add: m map_of_with_schema)
qed

lemma index_journal:
  assumes keys: "\<forall>d \<in> set (records @ events). distinct_keys (JObj d)" "distinct_keys (JObj originals)"
    and g: "gather (planned_record hx) (records @ events) = Inr es"
    and jp: "store_path hx ''operation'' operation = Inr jp" "map_of (rl_files s) jp = Some raw"
    and st: "state \<in> set unresolved_states"
  shows "\<exists>ix'. index_record hx s (sorted_dict (with_schema (captured operation records events removals originals state))) ix = Inr ix'"
proof -
  note r = captured_reads[OF keys, where operation = operation and removals = removals and st = state]
  obtain i where "record_identifier (JStr operation) = Inr i" using jp(1) by (auto simp: store_path_def bind_result_Inr)
  then have "validate_envelope (sorted_dict (with_schema (captured operation records events removals originals state))) = Inr ''operation''"
    using validate_captured(2)[OF keys st, where operation = operation and removals = removals] by simp
  then show ?thesis
    by (rule index_record_runs[OF _ _ r(3) jp])
      (use journal_targets_run[OF keys g, where operation = operation and removals = removals and st = state]
        in \<open>simp_all add: slotted_def r(1,2)\<close>)
qed

lemma gather_of_map: "gather f (map g xs) = gather (\<lambda>x. f (g x)) xs"
  by (induction xs) simp_all

text \<open>Writing the captured events that are not there puts all of them in place.\<close>

lemma missing_written:
  assumes calm: "rl_fates s = []" and g: "gather (planned_record hx) events = Inr H"
    and keys: "\<forall>e \<in> set events. distinct_keys (JObj e)"
    and d: "distinct (map fst (S @ H))" and placed: "in_place S (map_of (rl_files s))" "torn H (map_of (rl_files s))"
  defines "miss \<equiv> filter (\<lambda>e. map_of (rl_files s) (fst (projr (planned_record hx e))) = None) events"
  obtains s' where "write_records hx (map sorted_dict miss) [] s = (Inr (), s')" "rl_fates s' = []"
    "in_place S (map_of (rl_files s'))" "in_place H (map_of (rl_files s'))"
proof -
  define pl where "pl = projr \<circ> planned_record hx"
  note pl = gather_projr[OF g, folded pl_def]
  have pl_in: "planned_record hx e = Inr (pl e)" if "e \<in> set events" for e using pl(2)[OF that] by (simp add: pl_def)
  let ?W = "map pl miss"
  have W: "set ?W \<subseteq> set H" using pl(1) by (auto simp: miss_def)
  have dH: "distinct (map fst H)" using d by simp
  have dW: "distinct (map fst ?W)"
    using dH distinct_map_filter[of "fst \<circ> pl" events "\<lambda>e. map_of (rl_files s) (fst (projr (planned_record hx e))) = None"]
    by (simp add: pl(1) miss_def)
  have "planned_record hx (sorted_dict e) = Inr (pl e)" if "e \<in> set miss" for e
    using that keys planned_sorted(1)[OF _ pl_in] by (auto simp: miss_def)
  then have "gather (planned_record hx) (map sorted_dict miss) = Inr ?W"
    unfolding gather_of_map by (rule gather_map)
  then have "planned_edits hx (map sorted_dict miss) [] = Inr (dict_update [] ?W)" by (simp add: planned_edits_def)
  then obtain s' where s': "write_records hx (map sorted_dict miss) [] s = (Inr (), s')" "rl_fates s' = []"
    "\<And>p. map_of (rl_files s') p = (case map_of ?W p of None \<Rightarrow> map_of (rl_files s) p | Some a \<Rightarrow> a)"
    using write_calm[OF calm] map_of_plan[OF dW] by metis
  have "map_of (rl_files s') (fst e) = snd e" if e: "e \<in> set S" for e
  proof -
    have "fst e \<notin> fst ` set ?W" using d e W by auto
    then have "map_of ?W (fst e) = None" by (simp add: map_of_eq_None_iff)
    with s'(3)[of "fst e"] placed(1) e show ?thesis by (auto simp: in_place_def list_all_iff)
  qed
  moreover have "map_of (rl_files s') (fst e) = snd e" if e: "e \<in> set H" for e
  proof (cases "map_of ?W (fst e)")
    case None
    obtain x where x: "x \<in> set events" "e = pl x" using e pl(1) by auto
    have "x \<notin> set miss" using None x(2) by (auto simp: map_of_eq_None_iff)
    then have "map_of (rl_files s) (fst e) \<noteq> None" using x by (simp add: miss_def pl_def)
    with None s'(3)[of "fst e"] placed(2) e show ?thesis by (auto simp: torn_def list_all_iff)
  next
    case (Some a)
    then have "(fst e, a) \<in> set H" using W map_of_SomeD by fastforce
    then have "a = snd e" using e dH by (metis eq_key_imp_eq_value prod.collapse)
    with Some s'(3)[of "fst e"] show ?thesis by simp
  qed
  ultimately show ?thesis using that s'(1,2) by (auto simp: in_place_def list_all_iff)
qed

lemma planned_journal:
  assumes keys: "distinct_keys (JObj c)" and p: "planned_record hx c = Inr e"
  shows "planned_record hx (sorted_dict (with_schema c)) = Inr e"
proof -
  have "record_text (with_schema c) = record_text c"
    by (rule record_text_cong) (use keys distinct_with_schema[OF keys] in \<open>simp_all add: map_of_with_schema\<close>)
  then have "planned_record hx (with_schema c) = planned_record hx c"
    by (rule planned_record_cong) (simp_all add: map_of_with_schema)
  with p planned_sorted(1)[OF distinct_with_schema[OF keys], of hx e] show ?thesis by simp
qed

lemma present_publication:
  assumes E: "publication_edits hx records events removals = Inr (S, H)"
    and keys: "\<forall>d \<in> set (records @ events). distinct_keys (JObj d)"
    and placed: "in_place (S @ H) (map_of (rl_files s))"
    and k: "set ks \<subseteq> {key. \<exists>d \<in> set (records @ events). item_key d = Inr key} \<union> set removals"
  shows "\<exists>found absent. present_records hx ks s = Inr (found, absent)
    \<and> set found \<subseteq> (\<lambda>d. sorted_dict (with_schema d)) ` set (records @ events)"
proof (rule present_calm)
  obtain rs gs where g: "gather (planned_record hx) records = Inr rs" "gather (planned_removal hx) removals = Inr gs"
    "gather (planned_record hx) events = Inr H" "S = rs @ gs"
    using E by (auto simp: publication_edits_def bind_result_Inr)
  fix k i assume "(k, i) \<in> set ks"
  with assms(4) consider d where "d \<in> set (records @ events)" "item_key d = Inr (k, i)" | "(k, i) \<in> set removals" by blast
  then show "read_record hx k i s = Inr None
    \<or> (\<exists>d \<in> (\<lambda>d. sorted_dict (with_schema d)) ` set (records @ events). read_record hx k i s = Inr (Some d))"
  proof cases
    case 1
    then obtain e where e: "planned_record hx d = Inr e" "e \<in> set (S @ H)"
      using gather_all[OF g(1), of d] gather_all[OF g(3), of d] g(4) by auto
    then have "map_of (rl_files s) (fst e) = snd e" using placed by (auto simp: in_place_def list_all_iff)
    with read_placed(1)[OF _ e(1) 1(2)] keys 1(1) show ?thesis by blast
  next
    case 2
    then obtain e where e: "planned_removal hx (k, i) = Inr e" "e \<in> set S"
      using gather_all[OF g(2)] g(4) by force
    then have "map_of (rl_files s) (fst e) = snd e" using placed by (auto simp: in_place_def list_all_iff)
    with e(1) show ?thesis by (auto simp: planned_removal_def bind_result_Inr read_record_def)
  qed
qed

lemma write_single_calm:
  assumes "rl_fates s = []" "planned_record hx d = Inr e"
  obtains s' where "write_records hx [d] [] s = (Inr (), s')" "rl_fates s' = []"
    "map_of (rl_files s') = (map_of (rl_files s))(fst e := snd e)"
proof -
  have "planned_edits hx [d] [] = Inr [e]" using assms(2) by (simp add: planned_edits_single)
  then obtain s' where s': "write_records hx [d] [] s = (Inr (), s')" "rl_fates s' = []"
    "\<And>p. map_of (rl_files s') p = (case map_of [e] p of None \<Rightarrow> map_of (rl_files s) p | Some a \<Rightarrow> a)"
    using write_calm[OF assms(1)] by metis
  then have "map_of (rl_files s') = (map_of (rl_files s))(fst e := snd e)" by (cases e) (auto simp: fun_eq_iff)
  with s'(1,2) that show ?thesis by blast
qed

lemma in_place_append: "in_place (S @ H) M = (in_place S M \<and> in_place H M)"
  by (auto simp: in_place_def)

text \<open>
  From a store where the state is in place and each captured event is in place or not there at all,
  the last part of repair returns, and leaves everything in place and the receipt.
\<close>

lemma finish_completes:
  assumes E: "publication_edits hx records events removals = Inr (S, H)" and d: "distinct (jp # map fst (S @ H))"
    and jp: "store_path hx ''operation'' operation = Inr jp"
    and keys: "\<forall>d \<in> set (records @ events). distinct_keys (JObj d)" "distinct_keys (JObj originals)"
    and kinds: "\<forall>d \<in> set (records @ events). slotted d \<and> map_of d ''kind'' \<noteq> Some (JStr ''operation'')"
      "\<forall>e \<in> set events. map_of e ''kind'' = Some (JStr ''event'')"
    and pj: "planned_record hx (captured operation records events removals originals ''projection-pending'') = Inr je"
    and calm: "rl_fates s = []" and placed: "in_place S (map_of (rl_files s))" "torn H (map_of (rl_files s))"
    and located: "\<forall>e \<in> set events. current_locators hx (sorted_dict e) s = (Inr (sorted_dict e), s)"
  shows "\<exists>n t. finish_repair hx operation (sorted_dict (with_schema (captured operation records events removals originals st)))
      (map sorted_dict records) (map sorted_dict events) removals s = (Inr n, t)
    \<and> in_place (S @ H) (map_of (rl_files t))
    \<and> map_of (rl_files t) jp = Some (record_text (terminal_journal operation ''complete'' None))"
proof -
  let ?c = "captured operation records events removals originals ''projection-pending''"
  let ?j = "sorted_dict (with_schema ?c)"
  let ?miss = "filter (\<lambda>e. map_of (rl_files s) (fst (projr (planned_record hx e))) = None) events"
  have out: "jp \<notin> fst ` set (S @ H)" "jp \<notin> fst ` set S" "jp \<notin> fst ` set H" using d by (simp_all add: image_Un)
  have u: "''projection-pending'' \<in> set unresolved_states" by (simp add: unresolved_states_def)
  note pj' = planned_journal[OF captured_distinct[OF keys] pj]
  have je: "fst je = jp" "snd je = Some (record_text ?c)"
    by (rule planned_record_Inr[OF captured_distinct[OF keys] pj]; use jp in \<open>simp add: captured_items\<close>)+
  obtain rs gs where g: "gather (planned_record hx) records = Inr rs" "gather (planned_removal hx) removals = Inr gs"
    "gather (planned_record hx) events = Inr H" "S = rs @ gs"
    using E by (auto simp: publication_edits_def bind_result_Inr)
  have gall: "gather (planned_record hx) (records @ events) = Inr (rs @ H)"
    using gather_projr[OF g(1)] gather_projr[OF g(3)] gather_map[of "records @ events" "planned_record hx" "projr \<circ> planned_record hx"]
    by auto
  have "missing_events hx (map sorted_dict events) s = (Inr (map sorted_dict ?miss), s)"
  proof (rule missing_calm)
    fix e assume e: "e \<in> set events"
    have "projr (planned_record hx e) \<in> set H" using gather_projr(1)[OF g(3)] e by simp
    with e keys(1) kinds(2) gather_projr(2)[OF g(3) e] placed(2) located[rule_format, OF e]
    show "distinct_keys (JObj e) \<and> map_of e ''kind'' = Some (JStr ''event'') \<and> planned_record hx e = Inr (projr (planned_record hx e))
     \<and> (map_of (rl_files s) (fst (projr (planned_record hx e))) = None
       \<or> map_of (rl_files s) (fst (projr (planned_record hx e))) = snd (projr (planned_record hx e)))
     \<and> current_locators hx (sorted_dict e) s = (Inr (sorted_dict e), s)"
      by (simp add: torn_def list_all_iff del: distinct_keys.simps)
  qed
  moreover obtain s1 where s1: "write_records hx (map sorted_dict ?miss) [] s = (Inr (), s1)" "rl_fates s1 = []"
    "in_place S (map_of (rl_files s1))" "in_place H (map_of (rl_files s1))"
    using missing_written[OF calm g(3) _ _ placed] keys(1) d by auto
  moreover obtain s2 where s2: "write_records hx [?j] [] s1 = (Inr (), s2)" "rl_fates s2 = []"
    "map_of (rl_files s2) = (map_of (rl_files s1))(jp := snd je)" "in_place (S @ H) (map_of (rl_files s2))"
    using write_single_calm[OF s1(2) pj'] s1(3,4) place_upd(1)[OF out(2)] place_upd(1)[OF out(3)] je by (auto simp: in_place_append)
  moreover obtain ks where ks: "gather item_key (map sorted_dict (records @ events)) = Inr ks"
    "set ks = {key. \<exists>d \<in> set (records @ events). item_key d = Inr key}"
    using item_keys_run[OF gall keys(1)] by blast
  moreover obtain found absent where f: "present_records hx (sorted_targets (ks @ removals)) s2 = Inr (found, absent)"
    "set found \<subseteq> (\<lambda>d. sorted_dict (with_schema d)) ` set (records @ events)"
    using present_publication[OF E keys(1) s2(4), of "sorted_targets (ks @ removals)"] ks(2) by (auto simp: sorted_targets_def)
  moreover have indexed: "\<exists>ix'. index_record hx s2 d ix = Inr ix'" if dd: "d \<in> set (found @ [?j])" for d ix
  proof (cases "d = ?j")
    case True
    with index_journal[OF keys gall jp _ u] s2(3) je show ?thesis by fastforce
  next
    case False
    then obtain x where x: "x \<in> set (records @ events)" "d = sorted_dict (with_schema x)" using False dd f(2) by auto
    obtain e where e: "planned_record hx x = Inr e" "e \<in> set (rs @ H)" using gather_all[OF gall x(1)] by blast
    then have "map_of (rl_files s2) (fst e) = snd e" using s2(4) g(4) by (auto simp: in_place_def list_all_iff)
    then show ?thesis using index_placed[OF _ _ _ e(1)] keys(1) kinds(1) x by blast
  qed
  moreover obtain s3 where s3: "reconcile hx (found @ [?j]) absent s2 = (Inr (), s3)" "rl_fates s3 = []" "rl_files s3 = rl_files s2"
    using reconcile_calm[OF s2(2) indexed] by metis
  moreover obtain s4 where s4: "write_records hx [terminal_journal operation ''complete'' None] [] s3 = (Inr (), s4)" "rl_fates s4 = []"
    "map_of (rl_files s4) = (map_of (rl_files s3))(jp \<mapsto> record_text (terminal_journal operation ''complete'' None))"
    using write_single_calm[OF s3(2) receipt_planned[OF jp]] by auto
  moreover obtain s5 where s5: "reconcile_journal hx operation s4 = (Inr (), s5)" "rl_files s5 = rl_files s4"
    using reconcile_journal_calm[OF s4(2) jp] s4(3) by auto
  moreover have "in_place (S @ H) (map_of (rl_files s5))"
    using s2(4) s3(3) s4(3) s5(2) place_upd(1)[OF out(1)] by simp
  ultimately show ?thesis
    using s4(3) s5(2) by (auto simp: finish_repair_def bind_prog_def set_state_sorted)
qed

lemma captured_longest:
  "state \<in> set unresolved_states \<Longrightarrow>
   length (record_text (captured operation records events removals originals state))
     \<le> length (record_text (captured operation records events removals originals ''projection-pending''))"
  by (auto simp: record_text_def canonical_json_def sort_json_dict captured_sorted unresolved_states_def str_json_def
      esc_char_def simp del: sort_json.simps)

lemma unbool_sorted: "unbool (sort_json v) = sort_json (unbool v)"
proof (induction v rule: unbool.induct)
  case (2 vs)
  then show ?case by (simp add: sort_items_map)
next
  case (3 fs)
  let ?g = "\<lambda>f. (fst f, unbool (snd f))" and ?h = "\<lambda>f. (fst f, sort_json (snd f))"
  have "map ?g (map ?h fs) = map ?h (map ?g fs)" using 3 by auto
  moreover have "map ?g (sort_key fst xs) = sort_key fst (map ?g xs)" for xs :: dict
    using sort_key_map[of fst ?g xs] by (simp add: comp_def)
  ultimately show ?case by (simp add: sort_fields_map split_def del: map_map)
qed simp_all

lemma intended_sorted:
  assumes "distinct_keys (JObj d)"
  shows "is_intended (sorted_dict d) (Some (sorted_dict (with_schema d)))"
proof -
  have "distinct_keys (JObj (sorted_dict d))" using assms by (rule sorted_values)
  then have "sorted_dict (with_schema (sorted_dict d)) = sorted_dict (with_schema d)"
    using distinct_with_schema[OF assms] distinct_with_schema[of "sorted_dict d"] assms
    by (intro sorted_dict_cong) (simp_all add: map_of_with_schema map_of_sorted_dict)
  then have s: "sort_json (JObj (with_schema (sorted_dict d))) = sort_json (JObj (with_schema d))"
    by (simp only: sort_json_dict)
  have w: "sort_json (unbool (sort_json v)) = sort_json (unbool v)" for v by (simp add: unbool_sorted)
  have "sort_json (unbool (JObj (sorted_dict (with_schema d)))) = sort_json (unbool (JObj (with_schema d)))"
    using w[of "JObj (with_schema d)"] by (simp only: sort_json_dict)
  also have "\<dots> = sort_json (unbool (JObj (with_schema (sorted_dict d))))"
    using w[of "JObj (with_schema d)"] w[of "JObj (with_schema (sorted_dict d))"] s by simp
  finally show ?thesis by (simp add: is_intended_def same_value_def)
qed

lemma state_placed:
  assumes g: "gather (planned_record hx) records = Inr rs" "gather (planned_removal hx) removals = Inr gs"
    and keys: "\<forall>d \<in> set records. distinct_keys (JObj d)"
    and placed: "in_place (rs @ gs) (map_of (rl_files s))"
  shows "state_in_place hx (map sorted_dict records) removals s = Inr ()"
proof -
  have "bind_result (read_item hx d s) (\<lambda>actual. check_that (is_intended d actual) RelationshipConflict) = Inr ()"
    if d: "d \<in> set (map sorted_dict records)" for d
  proof -
    obtain x where x: "x \<in> set records" "d = sorted_dict x" using d by auto
    then have k: "distinct_keys (JObj x)" using keys by blast
    obtain e where e: "planned_record hx x = Inr e" "e \<in> set rs" using gather_all[OF g(1) x(1)] by blast
    obtain k i where ki: "item_key x = Inr (k, i)" by (rule planned_key[OF e(1)])
    have "map_of (rl_files s) (fst e) = snd e" using placed e(2) by (auto simp: in_place_def list_all_iff)
    from read_placed(1)[OF k e(1) ki this] planned_sorted(2)[OF k e(1)] ki intended_sorted[OF k] x(2)
    show ?thesis by (simp add: read_item_def)
  qed
  then have 1: "\<exists>us. gather (\<lambda>d. bind_result (read_item hx d s) (\<lambda>actual. check_that (is_intended d actual) RelationshipConflict))
      (map sorted_dict records) = Inr us" by (intro gather_runs) blast
  have "(\<lambda>(k, i). bind_result (read_record hx k i s) (\<lambda>actual. check_that (actual = None) RelationshipConflict)) x = Inr ()"
    if x: "x \<in> set removals" for x
  proof -
    obtain e where e: "planned_removal hx x = Inr e" "e \<in> set gs" using gather_all[OF g(2) x] by blast
    then have "map_of (rl_files s) (fst e) = snd e" using placed by (auto simp: in_place_def list_all_iff)
    with e(1) show ?thesis by (cases x) (auto simp: planned_removal_def bind_result_Inr read_record_def)
  qed
  then have "\<exists>us. gather (\<lambda>(k, i). bind_result (read_record hx k i s) (\<lambda>actual. check_that (actual = None) RelationshipConflict))
      removals = Inr us" by (intro gather_runs) blast
  with 1 show ?thesis by (auto simp: state_in_place_def)
qed

lemma repair_of_receipt:
  assumes jp: "store_path hx ''operation'' operation = Inr jp"
    and r: "map_of (rl_files s) jp = Some (record_text (terminal_journal operation ''complete'' None))"
  shows "\<exists>d. read_record hx ''operation'' operation s = Inr (Some d) \<and> map_of d ''state'' = Some (JStr ''complete'')"
    "repair hx operation s = (Inr 0, s)"
proof -
  have "read_record hx ''operation'' operation s = Inr (Some (sorted_dict (with_schema (terminal_journal operation ''complete'' None))))"
    by (rule read_planned[OF _ receipt_planned[OF jp]]) (use r in \<open>simp_all add: terminal_journal_def\<close>)
  moreover have "map_of (sorted_dict (with_schema (terminal_journal operation ''complete'' None))) ''state'' = Some (JStr ''complete'')"
    by (simp add: receipt_sorted)
  ultimately show "\<exists>d. read_record hx ''operation'' operation s = Inr (Some d) \<and> map_of d ''state'' = Some (JStr ''complete'')"
    "repair hx operation s = (Inr 0, s)" by (simp_all add: repair_def bind_prog_def get_item_def)
qed

text \<open>A journal can be written in any unresolved state, and reads as its captured inputs.\<close>

lemma planned_unresolved:
  assumes jp: "store_path hx ''operation'' operation = Inr jp"
    and keys: "\<forall>d \<in> set (records @ events). distinct_keys (JObj d)" "distinct_keys (JObj originals)"
    and pj: "planned_record hx (captured operation records events removals originals ''projection-pending'') = Inr je"
    and u: "state \<in> set unresolved_states"
  shows "planned_record hx (captured operation records events removals originals state)
    = Inr (jp, Some (record_text (captured operation records events removals originals state)))"
proof -
  have "decode hx (record_text (captured operation records events removals originals ''projection-pending''))
      = Inr (sorted_dict (with_schema (captured operation records events removals originals ''projection-pending'')))"
    by (rule planned_record_Inr[OF captured_distinct[OF keys] pj])
  then have "int (length (record_text (captured operation records events removals originals ''projection-pending''))) \<le> MAX_RECORD_BYTES"
    using decode_record[OF captured_distinct[OF keys]] by blast
  then have l: "int (length (record_text (captured operation records events removals originals state))) \<le> MAX_RECORD_BYTES"
    using captured_longest[OF u, of operation records events removals originals] by linarith
  have "''projection-pending'' \<in> set unresolved_states" by (simp add: unresolved_states_def)
  from captured_planned[OF keys pj this u l jp] show ?thesis .
qed

lemma read_captured:
  assumes jp: "store_path hx ''operation'' operation = Inr jp"
    and keys: "\<forall>d \<in> set (records @ events). distinct_keys (JObj d)" "distinct_keys (JObj originals)"
    and pj: "planned_record hx (captured operation records events removals originals ''projection-pending'') = Inr je"
    and u: "state \<in> set unresolved_states"
    and held: "map_of (rl_files s) jp = Some (record_text (captured operation records events removals originals state))"
  shows "read_record hx ''operation'' operation s
    = Inr (Some (sorted_dict (with_schema (captured operation records events removals originals state))))"
  using read_planned[OF captured_distinct[OF keys] planned_unresolved[OF jp keys pj u] captured_items] held by simp

lemma repair_completes:
  assumes E: "publication_edits hx records events removals = Inr (S, H)" and d: "distinct (jp # map fst (S @ H))"
    and jp: "store_path hx ''operation'' operation = Inr jp"
    and keys: "\<forall>d \<in> set (records @ events). distinct_keys (JObj d)" "distinct_keys (JObj originals)"
    and kinds: "\<forall>d \<in> set (records @ events). slotted d \<and> map_of d ''kind'' \<noteq> Some (JStr ''operation'')"
      "\<forall>e \<in> set events. map_of e ''kind'' = Some (JStr ''event'')"
    and pj: "planned_record hx (captured operation records events removals originals ''projection-pending'') = Inr je"
    and calm: "rl_fates s = []"
    and u: "state \<in> set unresolved_states"
    and held: "map_of (rl_files s) jp = Some (record_text (captured operation records events removals originals state))"
    and placed: "in_place S (map_of (rl_files s))" "torn H (map_of (rl_files s))"
    and located: "\<forall>e \<in> set events. current_locators hx (sorted_dict e) s = (Inr (sorted_dict e), s)"
  shows "\<exists>n t. repair hx operation s = (Inr n, t) \<and> in_place (S @ H) (map_of (rl_files t))
    \<and> map_of (rl_files t) jp = Some (record_text (terminal_journal operation ''complete'' None))"
proof -
  let ?j = "sorted_dict (with_schema (captured operation records events removals originals state))"
  note r = captured_reads[OF keys, where operation = operation and removals = removals and st = state]
  note j = read_captured[OF jp keys pj u held]
  obtain rs gs where g: "gather (planned_record hx) records = Inr rs" "gather (planned_removal hx) removals = Inr gs" "S = rs @ gs"
    using E by (auto simp: publication_edits_def bind_result_Inr)
  have "state_in_place hx (map sorted_dict records) removals s = Inr ()"
    using state_placed[OF g(1,2), of s] keys(1) placed(1) g(3) by auto
  then have ready: "(if state = ''state-committed'' \<or> state = ''projection-pending'' then return_prog ()
      else bind_prog (commit_native hx ?j (map sorted_dict records)) (\<lambda>_.
        lift_result (state_in_place hx (map sorted_dict records) removals))) s = (Inr (), s)"
    by (simp add: commit_native_def guard_items_def r(7) bind_prog_def)
  obtain n t where f: "finish_repair hx operation ?j (map sorted_dict records) (map sorted_dict events) removals s = (Inr n, t)"
    "in_place (S @ H) (map_of (rl_files t))"
    "map_of (rl_files t) jp = Some (record_text (terminal_journal operation ''complete'' None))"
    using finish_completes[OF E d jp keys kinds pj calm placed located] by metis
  have "state \<noteq> ''abandoned''" "state \<noteq> ''complete''" using u by (auto simp: unresolved_states_def)
  then have "repair hx operation s = (Inr n, t)"
    using j r(1) ready f(1) unfolding repair_def
    by (simp add: bind_prog_def[of "lift_result _"] get_item_def r(4-6) object_items_sorted removal_pairs
        bind_prog_def[of "if _ then _ else _"])
  with f show ?thesis by blast
qed

lemma originals_distinct:
  assumes "captured_originals hx [] items removals s = Inr originals"
  shows "distinct_keys (JObj originals)"
proof -
  obtain current gone where o: "originals = dict_update (dict_update [] current) gone"
    "gather (\<lambda>d. bind_result (item_key d) (original_of hx s)) items = Inr current" "gather (original_of hx s) removals = Inr gone"
    using assms by (auto simp: captured_originals_def bind_result_Inr)
  have c: "distinct_keys (content_revision hx raw)" for raw by (simp add: content_revision_def split: option.split)
  have v: "distinct_keys (snd x)" if "original_of hx s key = Inr x" for key x
    using that c by (auto simp: original_of_def file_revision_def bind_result_Inr)
  have "x \<in> set current \<union> set gone \<Longrightarrow> \<exists>key. original_of hx s key = Inr x" for x
    using gather_back[OF o(2), of x] gather_back[OF o(3), of x] by (simp add: bind_result_Inr) (metis surj_pair)
  with v have "x \<in> set current \<union> set gone \<Longrightarrow> distinct_keys (snd x)" for x by blast
  moreover have "set originals \<subseteq> set current \<union> set gone"
    using set_dict_update[of "[]" current] set_dict_update[of "dict_update [] current" gone] o(1) by auto
  moreover have "distinct (map fst originals)" by (simp add: o(1) distinct_dict_update)
  ultimately show ?thesis by (auto simp: list_all_iff)
qed

section \<open>Completion\<close>

text \<open>
  What a publication needs of its inputs: Python dictionaries that are valid records, a journal
  within the size of a record in each of its states, and files that are all different, of which those
  of the journal and of the events are not there yet.
\<close>

definition publishable ::
  "(string \<Rightarrow> string) \<Rightarrow> string \<Rightarrow> dict list \<Rightarrow> dict list \<Rightarrow> (string \<times> string) list \<Rightarrow> rel_store \<Rightarrow> bool"
where
  "publishable hx operation records events removals s \<longleftrightarrow>
     list_all (\<lambda>d. distinct_keys (JObj d) \<and> slotted d \<and> map_of d ''kind'' \<noteq> Some (JStr ''operation'')) (records @ events)
     \<and> list_all (\<lambda>e. map_of e ''kind'' = Some (JStr ''event'')) events
     \<and> (case bind_result (publication_edits hx records events removals) (\<lambda>(S, H).
           bind_result (captured_originals hx [] (records @ events) removals s) (\<lambda>originals.
           bind_result (planned_record hx (captured operation records events removals originals ''projection-pending''))
             (\<lambda>(jp, journal). Inr (distinct (jp # map fst (S @ H)) \<and> list_all (\<lambda>p. map_of (rl_files s) p = None) (jp # map fst H)))))
         of Inl _ \<Rightarrow> False | Inr fresh \<Rightarrow> fresh)"

definition faultless :: "rel_store \<Rightarrow> rel_store" where
  "faultless s = s\<lparr>rl_fates := []\<rparr>"

lemma publishableD:
  assumes "publishable hx operation records events removals s" "publication_edits hx records events removals = Inr (S, H)"
  obtains originals jp journal where "captured_originals hx [] (records @ events) removals s = Inr originals"
    "planned_record hx (captured operation records events removals originals ''projection-pending'') = Inr (jp, journal)"
    "store_path hx ''operation'' operation = Inr jp"
    "distinct (jp # map fst (S @ H))" "map_of (rl_files s) jp = None" "nowhere H (map_of (rl_files s))"
    "\<forall>d \<in> set (records @ events). distinct_keys (JObj d)" "distinct_keys (JObj originals)"
    "\<forall>d \<in> set (records @ events). slotted d \<and> map_of d ''kind'' \<noteq> Some (JStr ''operation'')"
    "\<forall>e \<in> set events. map_of e ''kind'' = Some (JStr ''event'')"
proof -
  have keys: "\<forall>d \<in> set (records @ events). distinct_keys (JObj d)"
    and kinds: "\<forall>d \<in> set (records @ events). slotted d \<and> map_of d ''kind'' \<noteq> Some (JStr ''operation'')"
      "\<forall>e \<in> set events. map_of e ''kind'' = Some (JStr ''event'')"
    using assms(1) unfolding publishable_def list_all_iff by blast+
  obtain originals jp journal where o: "captured_originals hx [] (records @ events) removals s = Inr originals"
    "planned_record hx (captured operation records events removals originals ''projection-pending'') = Inr (jp, journal)"
    and f: "distinct (jp # map fst (S @ H))" "list_all (\<lambda>p. map_of (rl_files s) p = None) (jp # map fst H)"
    using assms by (auto simp: publishable_def bind_result_Inr split: sum.splits simp del: distinct_keys.simps)
  note od = originals_distinct[OF o(1)]
  have "store_path hx ''operation'' operation = Inr jp"
    by (rule planned_record_Inr[OF captured_distinct[OF keys od] o(2)]) (simp add: captured_items)
  moreover have "map_of (rl_files s) jp = None" "nowhere H (map_of (rl_files s))"
    using f(2) by (simp_all add: nowhere_def list_all_iff)
  ultimately show ?thesis using that o f(1) keys od kinds by blast
qed

text \<open>
  C29. A publication that stopped is completed: wherever it raised or was killed, if its journal is
  found and shows more than \<open>pending\<close>, or its records and removals are on disk, then repair without
  faults returns, with every record, removal and event in place and the journal resolved as complete;
  and if the publication had returned, there is nothing to repair.
\<close>

theorem stopped_publication_is_completed:
  assumes "publish hx operation records events removals s = (r, s')"
    and "publishable hx operation records events removals s"
    and "publication_edits hx records events removals = Inr (S, H)"
    and "read_record hx ''operation'' operation s' = Inr (Some journal)"
    and "map_of journal ''state'' = Some (JStr ''pending'') \<Longrightarrow> in_place S (map_of (rl_files s'))"
    and "\<And>e. e \<in> set events \<Longrightarrow>
      current_locators hx (sorted_dict e) (faultless s') = (Inr (sorted_dict e), faultless s')"
  shows "\<exists>n t receipt. repair hx operation (faultless s') = (Inr n, t) \<and> in_place (S @ H) (map_of (rl_files t))
    \<and> read_record hx ''operation'' operation t = Inr (Some receipt) \<and> map_of receipt ''state'' = Some (JStr ''complete'')
    \<and> (r = Inr () \<longrightarrow> n = 0 \<and> t = faultless s')"
proof -
  obtain originals jp raw where p: "captured_originals hx [] (records @ events) removals s = Inr originals"
    "planned_record hx (captured operation records events removals originals ''projection-pending'') = Inr (jp, raw)"
    "store_path hx ''operation'' operation = Inr jp"
    "distinct (jp # map fst (S @ H))" "map_of (rl_files s) jp = None" "nowhere H (map_of (rl_files s))"
    "\<forall>d \<in> set (records @ events). distinct_keys (JObj d)" "distinct_keys (JObj originals)"
    "\<forall>d \<in> set (records @ events). slotted d \<and> map_of d ''kind'' \<noteq> Some (JStr ''operation'')"
    "\<forall>e \<in> set events. map_of e ''kind'' = Some (JStr ''event'')"
    by (rule publishableD[OF assms(2,3)])
  let ?receipt = "record_text (terminal_journal operation ''complete'' None)"
  note stop = publish_stops[OF assms(1,3) p(4,3,5-8,1)]
  have files: "rl_files (faultless s') = rl_files s'" "rl_fates (faultless s') = []" by (simp_all add: faultless_def)
  have "map_of (rl_files s') jp \<noteq> None" using assms(4) p(3) by (cases "map_of (rl_files s') jp") (simp_all add: read_record_def)
  then consider (receipt) "map_of (rl_files s') jp = Some ?receipt" "in_place (S @ H) (map_of (rl_files s'))"
    | (live) state where "state \<in> set unresolved_states" "r \<noteq> Inr () \<or> map_of (rl_files s') jp = Some ?receipt"
        "map_of (rl_files s') jp = Some (record_text (captured operation records events removals originals state))"
        "state = ''pending'' \<or> in_place S (map_of (rl_files s'))" "torn H (map_of (rl_files s'))"
    using stop by (auto simp: stopped_def view_def in_place_append)
  then show ?thesis
  proof cases
    case receipt
    then show ?thesis using repair_of_receipt[OF p(3), of "faultless s'"] files(1) by auto
  next
    case live
    have "in_place S (map_of (rl_files s'))"
      using live(4) assms(4,5) read_captured[OF p(3,7,8,2) live(1,3)] captured_reads(1)[OF p(7,8)] by auto
    then obtain n t where t: "repair hx operation (faultless s') = (Inr n, t)" "in_place (S @ H) (map_of (rl_files t))"
      "map_of (rl_files t) jp = Some ?receipt"
      using repair_completes[OF assms(3) p(4,3,7-10,2) files(2) live(1)] live(3,5) files(1) assms(6) by auto
    have "n = 0 \<and> t = faultless s'" if "r = Inr ()"
      using live(2) that repair_of_receipt(2)[OF p(3), of "faultless s'"] files(1) t(1) by auto
    with t repair_of_receipt(1)[OF p(3) t(3)] show ?thesis by blast
  qed
qed

section \<open>The property at a killed publication\<close>

lemma write_commits:
  assumes "rl_fates s = Commits # fs" "planned_edits hx ds rs = Inr es"
  obtains s' where "write_records hx ds rs s = (Inr (), s')" "rl_fates s' = fs" "rl_index s' = rl_index s"
    "\<And>p. map_of (rl_files s') p = (case map_of es p of None \<Rightarrow> map_of (rl_files s) p | Some a \<Rightarrow> a)"
proof -
  let ?s = "s\<lparr>rl_files := edit_files (real_edits (rl_files s) es) (rl_files s), rl_fates := fs\<rparr>"
  have w: "write_records hx ds rs s = (Inr (), ?s)"
    using assms by (simp add: write_records_def bind_prog_def apply_edits_def)
  have m: "map_of (rl_files ?s) p = (case map_of es p of None \<Rightarrow> map_of (rl_files s) p | Some a \<Rightarrow> a)" for p
    using write_records_done[OF w] assms(2) by (metis Inr_inject)
  show ?thesis by (rule that[OF w]) (use assms(1) m in simp_all)
qed

text \<open>The process is killed right before the marker that the state was committed is written.\<close>

lemma killed_before_marker:
  assumes "publishable hx operation records events removals s" "publication_edits hx records events removals = Inr (S, H)"
    and fates: "rl_fates s = [Commits, Commits, Dies 0]" and ix: "rl_index s = Some ix"
  obtains s' journal where "publish hx operation records events removals s = (Inl ProcessKilled, s')"
    "read_record hx ''operation'' operation s' = Inr (Some journal)" "in_place S (map_of (rl_files s'))"
proof -
  obtain originals jp raw where p: "captured_originals hx [] (records @ events) removals s = Inr originals"
    "planned_record hx (captured operation records events removals originals ''projection-pending'') = Inr (jp, raw)"
    "store_path hx ''operation'' operation = Inr jp"
    "distinct (jp # map fst (S @ H))" "map_of (rl_files s) jp = None"
    "\<forall>d \<in> set (records @ events). distinct_keys (JObj d)" "distinct_keys (JObj originals)"
    by (rule publishableD[OF assms(1,2)])
  let ?c = "captured operation records events removals originals"
  have u: "''pending'' \<in> set unresolved_states" "''state-committed'' \<in> set unresolved_states" by (simp_all add: unresolved_states_def)
  note planned = planned_unresolved[OF p(3,6,7,2)]
  have "planned_edits hx [?c ''pending''] [] = Inr [(jp, Some (record_text (?c ''pending'')))]"
    by (simp add: planned_edits_single planned[OF u(1)])
  then obtain s1 where s1: "write_records hx [?c ''pending''] [] s = (Inr (), s1)" "rl_fates s1 = [Commits, Dies 0]"
    "\<And>q. map_of (rl_files s1) q = (case map_of [(jp, Some (record_text (?c ''pending'')))] q of None \<Rightarrow> map_of (rl_files s) q | Some a \<Rightarrow> a)"
    using write_commits[OF fates] by metis
  have d: "distinct (map fst S)" "map_of S jp = None" using p(4) by (auto simp: map_of_eq_None_iff)
  have "planned_edits hx records removals = Inr (dict_update [] S)"
    using assms(2) by (auto simp: publication_edits_def bind_result_Inr planned_edits_def)
  then obtain s2 where s2: "write_records hx records removals s1 = (Inr (), s2)" "rl_fates s2 = [Dies 0]"
    "\<And>q. map_of (rl_files s2) q = (case map_of S q of None \<Rightarrow> map_of (rl_files s1) q | Some a \<Rightarrow> a)"
    using write_commits[OF s1(2)] map_of_plan[OF d(1)] by metis
  let ?s' = "s2\<lparr>rl_fates := []\<rparr>"
  have s3: "write_records hx [?c ''state-committed''] [] s2 = (Inl ProcessKilled, ?s')"
    using s2(2) by (simp add: write_records_def bind_prog_def planned_edits_single planned[OF u(2)] apply_edits_def edit_files_def)
  have "read_record hx ''operation'' operation s = Inr None" using p(3,5) by (simp add: read_record_def)
  then have "publish hx operation records events removals s = (Inl ProcessKilled, ?s')"
    using ix p(1) s1(1) s2(1) s3
    by (simp add: publish_def bind_prog_def initialise_def Let_def captured_pending set_captured)
  moreover have "read_record hx ''operation'' operation ?s' = Inr (Some (sorted_dict (with_schema (?c ''pending''))))"
    by (rule read_captured[OF p(3,6,7,2) u(1)]) (simp add: s2(3) d(2) s1(3))
  moreover have "in_place S (map_of (rl_files ?s'))"
    using d(1) by (auto simp: in_place_def list_all_iff s2(3))
  ultimately show ?thesis by (rule that)
qed

definition sample_records :: "dict list" where
  "sample_records = [[(''kind'', JStr ''endpoint''), (''id'', JStr ''n''), (''retired'', JBool True)]]"

definition sample_events :: "dict list" where
  "sample_events = [[(''kind'', JStr ''event''), (''id'', JStr ''e''), (''retired'', JBool True),
     (''subject'', JObj [(''kind'', JStr ''literal'')]), (''payload'', JObj []), (''revision'', JStr ''sha256:0'')]]"

definition before_publication :: rel_store where
  "before_publication = \<lparr>rl_files = [(''_Relationships/assertion/0.json'', ''old'')], rl_native = [],
     rl_index = Some empty_index, rl_fates = [Commits, Commits, Dies 0]\<rparr>"

definition zero_digest :: "string \<Rightarrow> string" where
  "zero_digest t = ''0''"

lemma sample_publishable:
  "publishable zero_digest ''op'' sample_records sample_events [(''assertion'', ''x'')] before_publication"
  by code_simp

lemma sample_located:
  "e \<in> set sample_events \<Longrightarrow> current_locators zero_digest (sorted_dict e) s = (Inr (sorted_dict e), s)"
  by (auto simp: sample_events_def current_locators_def bind_prog_def get_item_def current_node_def item_node_def get_field_def
     event_revision_def event_value_def node_key_def digest_def zero_digest_def sorted_dict_def Let_def)

theorem stopped_publication_is_completed_witness:
  "\<exists>s' n t. publish zero_digest ''op'' sample_records sample_events [(''assertion'', ''x'')] before_publication = (Inl ProcessKilled, s')
    \<and> repair zero_digest ''op'' (faultless s') = (Inr n, t)
    \<and> map_of (rl_files t) ''_Relationships/event/0.json'' = Some (record_text (hd sample_events))
    \<and> map_of (rl_files t) ''_Relationships/assertion/0.json'' = None"
proof -
  let ?S = "[(''_Relationships/endpoint/0.json'', Some (record_text (hd sample_records))), (''_Relationships/assertion/0.json'', None)]"
    and ?H = "[(''_Relationships/event/0.json'', Some (record_text (hd sample_events)))]"
  have E: "publication_edits zero_digest sample_records sample_events [(''assertion'', ''x'')] = Inr (?S, ?H)"
    by code_simp
  obtain s' journal where k: "publish zero_digest ''op'' sample_records sample_events [(''assertion'', ''x'')] before_publication = (Inl ProcessKilled, s')"
    "read_record zero_digest ''operation'' ''op'' s' = Inr (Some journal)" "in_place ?S (map_of (rl_files s'))"
    by (rule killed_before_marker[OF sample_publishable E]) (simp_all add: before_publication_def)
  from stopped_publication_is_completed[OF k(1) sample_publishable E k(2) k(3) sample_located] k(1)
  show ?thesis by (auto simp: in_place_def)
qed

end
