(* ===== verification/Spec2Isabelle.thy ===== *)
theory Spec2Isabelle
  imports Consent_Properties Ledger_Properties Catalogue_Properties Application_Properties
    Maintenance_Properties Pass_Properties File_Transaction_Properties Upgrade_Properties
    Page_Properties Page_Walk Cursor_Properties Relationship_Properties Store_Properties
    Store_Completion
begin

text \<open>
  A model of the command core of obsidian-brain (\<open>src/src/brain-core/scripts\<close>) and the theorems that
  make it correct.

  \<^bold>\<open>The program.\<close> Obsidian Brain lets people and agents run typed commands on a vault of notes. A
  command is described by an entry of the catalogue. A front end hands a request to
  \<open>CommandApplication.invoke\<close>, which resolves it to its entry, checks permission, tier and providers,
  obtains consent from \<open>ConsentService\<close>, records an intent in the owned receipt ledger, runs the
  command's owner and turns what happened into a result. Consent lives in a versioned store shared by
  several processes and changed only by compare-and-exchange. Receipts are JSON files, so a killed
  process leaves an intent that says an outcome is unknown. Maintenance commands detect problems in a
  vault, record who claims or dismisses them, and run automatic repairs through the same application.
  Bootstrap code changes configuration files in transactions with rollback,
  and an upgrade keeps a write-ahead journal from which the next run restores a killed one. A result
  too large for one message is laid out as pages, which a reader asks for one by one with continuation
  tokens bound to the result and the session. Relationships between notes are records, one JSON file
  each, with an index projected from them and a journal per publication.

  \<^bold>\<open>The theories\<close>, in the order of dependence:
  \<^item> \<open>Prelude\<close>: exceptions as values, programs with state, strings, dictionaries. \<open>Json_Codec\<close>: JSON
    values and the two encoders, which are injective.
  \<^item> \<open>Command_Types\<close>: \<open>_application/types.py\<close>. \<open>Command_Results\<close>: \<open>_application/results.py\<close>.
    \<open>Catalogue\<close>: \<open>_application/catalogue.py\<close> and \<open>identity.py\<close>; \<open>Catalogue_Properties\<close>: resolution, the
    fingerprint.
  \<^item> \<open>State_Store\<close>: \<open>_bootstrap/consent_state.py\<close>. The locale \<open>versioned_cells\<close> is what its clients
    need of it: a snapshot whose versions still match is a snapshot of the present.
  \<^item> \<open>Preparation\<close>: \<open>_application/preparation.py\<close>. \<open>Consent_Records\<close>, \<open>Consent_Service\<close>:
    \<open>_application/consent.py\<close>, with the views of \<open>access_contracts.py\<close>. \<open>Grant_Machine\<close>: the life of a
    grant as a specification, and that every committed change follows it. \<open>Consent_Protocol\<close>:
    transactions are atomic. \<open>Consent_Runs\<close>: runs of the store with any number of clients.
    \<open>Consent_Properties\<close>: what the service promises.
  \<^item> \<open>Receipt_Records\<close>: \<open>_application/receipts.py\<close>. \<open>Receipt_Codec\<close>, \<open>Receipt_Ledger\<close>:
    \<open>_command_interface/receipts.py\<close>. \<open>Ledger_Safety\<close>: every state a crash can leave is indexed, an
    invocation is claimed once. \<open>Ledger_Properties\<close>: what the ledger promises.
  \<^item> \<open>Invocation\<close>: \<open>_application/authorisation.py\<close> and the checks of \<open>context.py\<close>. \<open>Application\<close>:
    \<open>_application/application.py\<close> and the accessors of \<open>access_session.py\<close> it uses.
    \<open>Application_Runs\<close>: the locale \<open>framing\<close>, a preorder on states kept by every program of the service,
    and its interpretations. \<open>Application_Properties\<close>: what \<open>invoke\<close> promises, which spans catalogue,
    consent and ledger.
  \<^item> \<open>Maintenance_Findings\<close>, \<open>Maintenance_Decisions\<close>, \<open>Maintenance_Summary\<close>: the three
    \<open>_bootstrap/maintenance_...\<close> modules. \<open>Maintenance_Detection\<close>: \<open>_repair_common.py\<close> and
    \<open>_application/maintenance/_detection.py\<close>. \<open>Maintenance_Commands\<close>: the claim, dismiss, release and
    list commands. \<open>Maintenance_Pass\<close>: \<open>run.py\<close>. \<open>Maintenance_Runs\<close>, \<open>Maintenance_Properties\<close>,
    \<open>Pass_Properties\<close>: their runs and what they promise.
  \<^item> \<open>Disk\<close>: a file system whose operations may fail. \<open>File_Transaction\<close>:
    \<open>_bootstrap/file_transaction.py\<close>. \<open>File_Safety\<close>, \<open>File_Transaction_Runs\<close>: how its steps move the
    disk; \<open>File_Transaction_Properties\<close>: commit, rollback and reporting.
  \<^item> \<open>Upgrade_Journal\<close>, \<open>Upgrade_Restore\<close>: \<open>_bootstrap/upgrade_journal.py\<close>. \<open>Journal_Runs\<close>: what a run of
    captures and a kill leave in the journal. \<open>Restore_Safety\<close>: the locale \<open>restore_frame\<close>, a relation kept by
    planning and verifying, and what applying a plan changes. \<open>Restore_Copies\<close>: what is preserved first.
    \<open>Upgrade_Properties\<close>: a killed upgrade is restored, and nothing is destroyed.
  \<^item> \<open>Json_Reader\<close>: \<open>json.loads\<close>, which gives back what the encoder wrote.
  \<^item> \<open>Page_Text\<close>, \<open>Page_Selection\<close>, \<open>Page_Layout\<close>: \<open>_application/result_navigation.py\<close> and
    \<open>_bootstrap/result_metadata.py\<close>. \<open>Page_Safety\<close>: slices of a text, batches of records.
    \<open>Page_Properties\<close>: pages fit and hold the whole value in order. \<open>Page_Walk\<close>: a reader who follows
    the continuations sees every page once.
  \<^item> \<open>Result_Cursor\<close>: \<open>_command_interface/result_cursor.py\<close>. \<open>Cursor_Properties\<close>: a token gives back its
    coordinates and is good for one result and key.
  \<^item> \<open>Relationship_Model\<close>: \<open>_relationships/model.py\<close>. \<open>Relationship_Properties\<close>: identities, the closure
    of dependants, corrections. \<open>Relationship_Store\<close>: \<open>_relationships/storage.py\<close>. \<open>Store_Safety\<close>: what a
    transaction on the files changes. \<open>Store_Recovery\<close>: runs without faults, journals read back.
    \<open>Store_Properties\<close>: what abandonment and repair promise. \<open>Store_Completion\<close>: what a publication that
    stopped leaves, and that repair completes it.
  \<^item> \<open>Sample_Format\<close>: a time format for the witnesses.

  \<^bold>\<open>Conventions.\<close> A Python \<open>str\<close> is the \<open>string\<close> of its UTF-8 bytes. A \<open>dict\<close> is an association list
  in insertion order. A \<open>raise\<close> is \<open>Inl\<close> of an \<open>exn\<close>, whose class is kept and whose text is not. A
  method that changes state is a program \<open>'s \<Rightarrow> (exn + 'a) \<times> 's\<close>, so what it did before it raised
  stays. A dataclass is a record and its \<open>__post_init__\<close> a \<open>check_...\<close> function on it. A local function
  of the source that decides what to write is a definition of its own, named after its caller.
  What the code takes from outside is an argument: the SHA-256 digest (\<open>hx\<close>), UUIDs and clocks as
  streams, the texts of times (\<open>time_format\<close>, with round trip as the hypothesis \<open>faithful_format\<close>),
  command owners and ports as functions, \<open>hmac\<close> as \<open>mac\<close>, of which only the length of its digest is
  used. No theorem assumes that a digest is injective: where a property rests on that, a collision is a
  case of its conclusion, or (\<open>assertion_revision_pins_meaning\<close>) the hypothesis names the two texts that
  do not collide.

  \<^bold>\<open>Interference and crashes.\<close> Other clients of the consent store act before any access of the one that
  is followed (\<open>sv_env\<close>); other processes act on the ledger between two accesses (\<open>iv_others\<close>). The
  ledger keeps the list of all directory states it went through, which are those a kill can leave.
  Operations on \<open>Disk\<close> meet faults: an exception before or after the effect. A transaction of the
  relationship store meets a fate (\<open>rl_fates\<close>): it commits, it is rolled back, or the process dies after
  some of its files were replaced.

  \<^bold>\<open>Bounds and fuel.\<close> The retry loops of the service run at most eight times in the code, and the model
  counts the same eight: the fuel is the bound of the source, and running out is its error. The
  listing of all keys carries fuel for the number of pages; \<open>all_keys_complete\<close> shows that it ends with
  the complete list. The walk of a directory tree carries the depth of the disk, which no path exceeds
  (\<open>walk_root_lists\<close>). The JSON reader carries the length of the text, which its steps do not exhaust
  on any text the encoder wrote. \<open>build_view\<close> takes how deep the interpreter may recurse, as it calls
  itself for detail views, and running out is the error of Python. The bisection for the end of a page
  ends by a measure. Every other loop is structural recursion.

  \<^bold>\<open>Not modelled.\<close> Message texts, diagnostics and logs, which do not change a result. Process
  spawning, sockets and authentication of the owner process; the MCP proxy and server; argument
  parsing; the installers and upgraders; search indices and embedding models; YAML and Markdown
  rewriting by the command owners; the planning of relationship changes; the storage of results and
  the accounting of their delivery: they are operating-system, transport or presentation code around the
  parts above, or owners that \<open>invoke\<close> treats as arbitrary programs. In the modelled modules: floats in
  JSON, file modes, the target of a symbolic link, the directory permission checks of the ledger,
  \<open>FilePlan.read_text\<close>, \<open>compare_protocol_version\<close>, the stamps of files and the refresh of the
  relationship index, and the reading of command summaries from
  docstrings.
\<close>

end
